(* ===== verification/Prelude.thy ===== *)
theory Prelude
  imports Main "HOL-Library.Sublist" "HOL-Library.Product_Lexorder" "HOL-Library.List_Lexorder"
    "HOL-Library.Char_ord" "HOL-Library.Word"
begin

text \<open>
  What every component of the development shares.

  \<^item> Go errors as values: the sentinel \<open>sql.ErrNoRows\<close>, an error with a message
    (\<open>errors.New\<close>, \<open>fmt.Errorf\<close>), and an error wrapped by \<open>fmt.Errorf("...: %w", err)\<close>.
  \<^item> The functions of Go's standard library the sources call on strings
    (\<open>strings.Contains\<close>, \<open>strings.TrimSpace\<close>, \<open>strings.ToLower\<close>, \<open>strconv.Itoa\<close>,
    \<open>strconv.FormatUint\<close> in base 16, \<open>strconv.ParseUint\<close> in base 16, the verb \<open>%q\<close>). A Go string
    is the list of its bytes; the functions are given on ASCII text, and bytes above 127 pass
    through unchanged.
  \<^item> The timestamps of the SQLite database and the order SQLite compares them in.
  \<^item> Tables as lists of rows, with the effect of \<open>SELECT\<close>, \<open>UPDATE\<close>, \<open>DELETE\<close> and
    \<open>ORDER BY ... LIMIT\<close> on them.
  \<^item> The collections \<open>sql_simps\<close> and \<open>row_simps\<close> of rewrite rules used by the components.
\<close>

named_theorems sql_simps \<open>evaluation of statements and transactions\<close>
named_theorems row_simps \<open>facts about tables as lists of rows\<close>

section \<open>Errors\<close>

datatype err = ErrNoRows | ErrMsg string | ErrWrap string err

fun errString :: "err \<Rightarrow> string" where
  "errString ErrNoRows = ''sql: no rows in result set''"
| "errString (ErrMsg m) = m"
| "errString (ErrWrap p e) = p @ '': '' @ errString e"

text \<open>\<open>errors.Is(err, sql.ErrNoRows)\<close>: the sentinel itself or anything that wraps it.\<close>

fun isErrNoRows :: "err \<Rightarrow> bool" where
  "isErrNoRows ErrNoRows = True"
| "isErrNoRows (ErrMsg m) = False"
| "isErrNoRows (ErrWrap p e) = isErrNoRows e"

section \<open>Strings\<close>

fun contains :: "string \<Rightarrow> string \<Rightarrow> bool" where
  "contains [] sub = (sub = [])"
| "contains (c # cs) sub = (prefix sub (c # cs) \<or> contains cs sub)"

definition isSpaceByte :: "char \<Rightarrow> bool" where
  "isSpaceByte c = (let n = (of_char c :: nat) in n = 32 \<or> (9 \<le> n \<and> n \<le> 13))"

definition trimSpace :: "string \<Rightarrow> string" where
  "trimSpace s = rev (dropWhile isSpaceByte (rev (dropWhile isSpaceByte s)))"

definition lowerByte :: "char \<Rightarrow> char" where
  "lowerByte c = (let n = (of_char c :: nat) in if 65 \<le> n \<and> n \<le> 90 then char_of (n + 32) else c)"

definition toLower :: "string \<Rightarrow> string" where
  "toLower s = map lowerByte s"

definition digitChar :: "nat \<Rightarrow> char" where
  "digitChar d = (if d < 10 then char_of (48 + d) else char_of (87 + d))"

text \<open>Digits of a number in a base, most significant first; base 0 and 1 are never used.\<close>

function natDigits :: "nat \<Rightarrow> nat \<Rightarrow> string" where
  "natDigits b n = (if n < b \<or> b < 2 then [digitChar n] else natDigits b (n div b) @ [digitChar (n mod b)])"
  by pat_completeness auto
termination
  by (relation "measure snd") auto

declare natDigits.simps [simp del]

definition itoa :: "int \<Rightarrow> string" where
  "itoa i = (if i < 0 then CHR ''-'' # natDigits 10 (nat (- i)) else natDigits 10 (nat i))"

definition formatHex :: "nat \<Rightarrow> string" where
  "formatHex n = natDigits 16 n"

definition hexVal :: "char \<Rightarrow> nat option" where
  "hexVal c = (let n = (of_char c :: nat) in
     if 48 \<le> n \<and> n \<le> 57 then Some (n - 48)
     else if 97 \<le> n \<and> n \<le> 102 then Some (n - 87)
     else if 65 \<le> n \<and> n \<le> 70 then Some (n - 55) else None)"

fun parseHexAcc :: "nat \<Rightarrow> string \<Rightarrow> nat option" where
  "parseHexAcc acc [] = Some acc"
| "parseHexAcc acc (c # cs) =
     (case hexVal c of None \<Rightarrow> None | Some d \<Rightarrow> parseHexAcc (16 * acc + d) cs)"

text \<open>
  \<open>strconv.ParseUint(s, 16, 64)\<close> on a text of at most 16 digits, where no overflow can occur:
  \<open>None\<close> is the syntax error, on which the function returns 0 beside the error.
\<close>

definition parseHex :: "string \<Rightarrow> nat option" where
  "parseHex s = (if s = [] then None else parseHexAcc 0 s)"

text \<open>The verb \<open>%q\<close> (\<open>strconv.Quote\<close>) on ASCII text.\<close>

definition quoteByte :: "char \<Rightarrow> string" where
  "quoteByte c = (let n = (of_char c :: nat) in
     if n = 34 then [CHR 0x5C, CHR 0x22]
     else if n = 92 then [CHR 0x5C, CHR 0x5C]
     else if n = 7 then [CHR 0x5C, CHR ''a'']
     else if n = 8 then [CHR 0x5C, CHR ''b'']
     else if n = 12 then [CHR 0x5C, CHR ''f'']
     else if n = 10 then [CHR 0x5C, CHR ''n'']
     else if n = 13 then [CHR 0x5C, CHR ''r'']
     else if n = 9 then [CHR 0x5C, CHR ''t'']
     else if n = 11 then [CHR 0x5C, CHR ''v'']
     else if n < 32 \<or> n = 127 then [CHR 0x5C, CHR ''x'', digitChar (n div 16), digitChar (n mod 16)]
     else [c])"

definition quoteGo :: "string \<Rightarrow> string" where
  "quoteGo s = CHR 0x22 # concat (map quoteByte s) @ [CHR 0x22]"

text \<open>\<open>COALESCE(x, d)\<close> on a nullable column.\<close>

definition coalesce :: "'a option \<Rightarrow> 'a \<Rightarrow> 'a" where
  "coalesce x d = (case x of None \<Rightarrow> d | Some v \<Rightarrow> v)"

text \<open>\<open>NULLIF(x, '')\<close>.\<close>

definition nullif :: "string \<Rightarrow> string option" where
  "nullif s = (if s = '''' then None else Some s)"

lemma contains_iff: "contains s sub \<longleftrightarrow> (\<exists>p q. s = p @ sub @ q)"
proof (induction s)
  case Nil
  then show ?case by auto
next
  case (Cons c cs)
  have "(\<exists>p q. c # cs = p @ sub @ q) \<longleftrightarrow> prefix sub (c # cs) \<or> (\<exists>p q. cs = p @ sub @ q)"
    by (auto simp: prefix_def Cons_eq_append_conv)
  with Cons.IH show ?case by simp
qed

lemma contains_append_left: "contains s sub \<Longrightarrow> contains (p @ s) sub"
  unfolding contains_iff by (metis append.assoc)

lemma coalesce_simps [simp]: "coalesce None d = d" "coalesce (Some v) d = v"
  by (simp_all add: coalesce_def)

lemma natDigits_nonempty [simp]: "natDigits b n \<noteq> []"
  by (subst natDigits.simps) simp

section \<open>Timestamps\<close>

text \<open>
  The DATETIME columns hold text and SQLite compares them byte by byte. Three writers occur:
  \<^item> \<open>CurTs s\<close>: SQL's \<open>CURRENT_TIMESTAMP\<close>, the text \<open>YYYY-MM-DD HH:MM:SS\<close> of second \<open>s\<close>;
  \<^item> \<open>GoTs n\<close>: a Go \<open>time.Time\<close> in UTC bound as a parameter, the same text followed by a
    fraction without trailing zeros and by \<open>+00:00\<close>, for nanosecond \<open>n\<close>;
  \<^item> \<open>RfcTs s\<close>: the text \<open>YYYY-MM-DDTHH:MM:SSZ\<close> of second \<open>s\<close> (RFC 3339).
  The fields of the texts have a fixed width, so their byte order is the lexicographic order of
  \<open>ts_key\<close>: the day, the separator (a blank is smaller than \<open>T\<close>), the second of the day, and
  whether a suffix follows (a text is smaller than any of its extensions).
\<close>

datatype ts = CurTs nat | GoTs nat | RfcTs nat

fun ts_key :: "ts \<Rightarrow> nat \<times> nat \<times> nat \<times> nat" where
  "ts_key (CurTs s) = (s div 86400, 0, s mod 86400, 0)"
| "ts_key (GoTs n) = ((n div 10^9) div 86400, 0, (n div 10^9) mod 86400, Suc (n mod 10^9))"
| "ts_key (RfcTs s) = (s div 86400, 1, s mod 86400, 0)"

lemma div_mod_eq_nat:
  fixes a b k :: nat
  assumes "a div k = b div k" and "a mod k = b mod k"
  shows "a = b"
  by (metis assms div_mult_mod_eq)

lemma ts_key_inj: "ts_key a = ts_key b \<Longrightarrow> a = b"
  by (cases a; cases b) (auto intro: div_mod_eq_nat)

instantiation ts :: linorder
begin

definition less_eq_ts :: "ts \<Rightarrow> ts \<Rightarrow> bool" where
  "less_eq_ts a b = (ts_key a \<le> ts_key b)"

definition less_ts :: "ts \<Rightarrow> ts \<Rightarrow> bool" where
  "less_ts a b = (ts_key a < ts_key b)"

instance
proof
  fix x y z :: ts
  show "x < y \<longleftrightarrow> x \<le> y \<and> \<not> y \<le> x"
    unfolding less_ts_def less_eq_ts_def by (rule less_le_not_le)
  show "x \<le> x" by (simp add: less_eq_ts_def)
  show "x \<le> y \<Longrightarrow> y \<le> z \<Longrightarrow> x \<le> z"
    unfolding less_eq_ts_def by (rule order_trans)
  show "x \<le> y \<Longrightarrow> y \<le> x \<Longrightarrow> x = y"
    unfolding less_eq_ts_def by (rule ts_key_inj) (rule order_antisym)
  show "x \<le> y \<or> y \<le> x"
    unfolding less_eq_ts_def by (rule linear)
qed

end

lemma div_mod_le_iff:
  fixes a b k :: nat
  shows "(a div k < b div k \<or> a div k = b div k \<and> a mod k \<le> b mod k) \<longleftrightarrow> a \<le> b"
proof (cases "k = 0")
  case True
  then show ?thesis by auto
next
  case False
  have ea: "a = k * (a div k) + a mod k" and eb: "b = k * (b div k) + b mod k" by simp_all
  have ma: "a mod k < k" and mb: "b mod k < k" using False by simp_all
  show ?thesis
  proof (cases "a div k" "b div k" rule: linorder_cases)
    case less
    then have "k * (a div k) + k \<le> k * (b div k)"
      by (metis Suc_leI mult_Suc_right add.commute mult_le_mono2)
    with ea eb ma have "a \<le> b" by linarith
    with less show ?thesis by simp
  next
    case equal
    with ea eb show ?thesis by (metis add_le_cancel_left less_irrefl)
  next
    case greater
    then have "k * (b div k) + k \<le> k * (a div k)"
      by (metis Suc_leI mult_Suc_right add.commute mult_le_mono2)
    with ea eb mb have "\<not> a \<le> b" by linarith
    with greater show ?thesis by simp
  qed
qed

lemma div_mod_less_iff:
  fixes a b k :: nat
  shows "(a div k < b div k \<or> a div k = b div k \<and> a mod k < b mod k) \<longleftrightarrow> a < b"
  using div_mod_le_iff [of b k a] by auto

lemma CurTs_le_CurTs [simp]: "CurTs a \<le> CurTs b \<longleftrightarrow> a \<le> b"
proof -
  have "CurTs a \<le> CurTs b \<longleftrightarrow> a div 86400 < b div 86400 \<or> a div 86400 = b div 86400 \<and> a mod 86400 \<le> b mod 86400"
    by (auto simp: less_eq_ts_def less_eq_prod_def)
  then show ?thesis by (simp only: div_mod_le_iff)
qed

text \<open>A bound Go time is at most a \<open>CURRENT_TIMESTAMP\<close> only when its second is over.\<close>

lemma GoTs_le_CurTs [simp]: "GoTs n \<le> CurTs s \<longleftrightarrow> n div 10^9 < s"
proof -
  let ?m = "n div 10^9"
  have "GoTs n \<le> CurTs s \<longleftrightarrow> ?m div 86400 < s div 86400 \<or> ?m div 86400 = s div 86400 \<and> ?m mod 86400 < s mod 86400"
    by (auto simp: less_eq_ts_def less_eq_prod_def)
  then show ?thesis by (simp only: div_mod_less_iff)
qed

text \<open>On the same day, the RFC 3339 form is above every form with a blank.\<close>

lemma RfcTs_le_CurTs [simp]: "RfcTs a \<le> CurTs b \<longleftrightarrow> a div 86400 < b div 86400"
  by (simp add: less_eq_ts_def less_eq_prod_def)

section \<open>Tables\<close>

text \<open>
  A table is the list of its rows in insertion order. \<open>UPDATE\<close> changes the rows that satisfy its
  \<open>WHERE\<close> clause and reports how many they are; \<open>ORDER BY ... LIMIT 1\<close> takes the first row of
  the sorted selection.
\<close>

definition updWhere :: "('r \<Rightarrow> bool) \<Rightarrow> ('r \<Rightarrow> 'r) \<Rightarrow> 'r list \<Rightarrow> 'r list" where
  "updWhere P f rs = map (\<lambda>r. if P r then f r else r) rs"

definition countWhere :: "('r \<Rightarrow> bool) \<Rightarrow> 'r list \<Rightarrow> nat" where
  "countWhere P rs = length (filter P rs)"

definition delWhere :: "('r \<Rightarrow> bool) \<Rightarrow> 'r list \<Rightarrow> 'r list" where
  "delWhere P rs = filter (\<lambda>r. \<not> P r) rs"

definition firstWhere :: "('r \<Rightarrow> bool) \<Rightarrow> 'r list \<Rightarrow> 'r option" where
  "firstWhere P rs = List.find P rs"

definition firstBy :: "('r \<Rightarrow> 'k::linorder) \<Rightarrow> ('r \<Rightarrow> bool) \<Rightarrow> 'r list \<Rightarrow> 'r option" where
  "firstBy key P rs = (case sort_key key (filter P rs) of [] \<Rightarrow> None | r # _ \<Rightarrow> Some r)"

definition lastCount :: "nat \<Rightarrow> 'a list \<Rightarrow> 'a list" where
  "lastCount n xs = drop (length xs - n) xs"

lemma firstWhere_Some: "firstWhere P rs = Some r \<Longrightarrow> r \<in> set rs \<and> P r"
  by (auto simp: firstWhere_def find_Some_iff)

lemma firstWhere_None: "firstWhere P rs = None \<longleftrightarrow> (\<forall>r\<in>set rs. \<not> P r)"
  by (auto simp: firstWhere_def find_None_iff)

lemma firstBy_Some:
  assumes "firstBy key P rs = Some r"
  shows "r \<in> set rs" and "P r" and "\<forall>q\<in>set rs. P q \<longrightarrow> key r \<le> key q"
proof -
  from assms obtain qs where s: "sort_key key (filter P rs) = r # qs"
    by (auto simp: firstBy_def split: list.splits)
  have m: "set (r # qs) = {q \<in> set rs. P q}"
    unfolding s [symmetric] by simp
  have "sorted (map key (r # qs))" by (metis s sorted_sort_key)
  then have le: "\<forall>q\<in>set (r # qs). key r \<le> key q" by auto
  show "r \<in> set rs" and "P r" using m by auto
  show "\<forall>q\<in>set rs. P q \<longrightarrow> key r \<le> key q" using le m by blast
qed

lemma firstBy_None: "firstBy key P rs = None \<longleftrightarrow> (\<forall>r\<in>set rs. \<not> P r)"
proof -
  have "firstBy key P rs = None \<longleftrightarrow> sort_key key (filter P rs) = []"
    by (auto simp: firstBy_def split: list.splits)
  also have "\<dots> \<longleftrightarrow> filter P rs = []"
    by (metis length_0_conv length_sort)
  finally show ?thesis by (simp add: filter_empty_conv)
qed

lemma set_updWhere [row_simps]:
  "set (updWhere P f rs) = {r \<in> set rs. \<not> P r} \<union> f ` {r \<in> set rs. P r}"
  by (auto simp: updWhere_def)

lemma length_updWhere [simp]: "length (updWhere P f rs) = length rs"
  by (simp add: updWhere_def)

lemma updWhere_Nil [simp]: "updWhere P f [] = []"
  by (simp add: updWhere_def)

text \<open>An update that keeps a column keeps the list of its values.\<close>

lemma map_updWhere: "(\<And>r. P r \<Longrightarrow> g (f r) = g r) \<Longrightarrow> map g (updWhere P f rs) = map g rs"
  by (auto simp: updWhere_def)

lemma updWhere_none: "(\<And>r. r \<in> set rs \<Longrightarrow> \<not> P r) \<Longrightarrow> updWhere P f rs = rs"
  by (induction rs) (auto simp: updWhere_def)

lemma updWhere_comp:
  "updWhere Q g (updWhere P f rs) =
   map (\<lambda>r. let r' = (if P r then f r else r) in if Q r' then g r' else r') rs"
  by (simp add: updWhere_def Let_def comp_def)

text \<open>With a unique key, at most one row has a given key.\<close>

lemma distinct_key_unique:
  assumes "distinct (map g rs)" and "r \<in> set rs" and "q \<in> set rs" and "g r = g q"
  shows "r = q"
  using assms by (metis inj_on_def distinct_map)

lemma countWhere_key:
  assumes "distinct (map g rs)" and "r \<in> set rs" and "P r" and "\<And>q. P q \<Longrightarrow> g q = g r"
  shows "countWhere P rs = 1"
  using assms
proof (induction rs)
  case Nil
  then show ?case by simp
next
  case (Cons x xs)
  show ?case
  proof (cases "x = r")
    case True
    have "\<not> P q" if "q \<in> set xs" for q
    proof
      assume "P q"
      with Cons.prems(4) have "g q = g x" using True by simp
      with that Cons.prems(1) show False by (metis distinct.simps(2) image_eqI list.set_map list.simps(9))
    qed
    then have "filter P xs = []" by (simp add: filter_empty_conv)
    with True Cons.prems(3) show ?thesis by (simp add: countWhere_def)
  next
    case False
    with Cons.prems have r: "r \<in> set xs" by simp
    have "\<not> P x"
    proof
      assume "P x"
      with Cons.prems(4) have "g x = g r" by simp
      with r Cons.prems(1) show False by (metis distinct.simps(2) image_eqI list.set_map list.simps(9))
    qed
    moreover have "countWhere P xs = 1"
      using Cons.prems(1) by (intro Cons.IH r Cons.prems(3,4)) simp_all
    ultimately show ?thesis by (simp add: countWhere_def)
  qed
qed

lemma firstWhere_key:
  assumes "distinct (map g rs)" and "r \<in> set rs"
  shows "firstWhere (\<lambda>q. g q = g r) rs = Some r"
  using assms
  by (induction rs) (auto simp: firstWhere_def)

lemma firstWhere_updWhere:
  assumes "\<And>r. P r \<Longrightarrow> g (f r) = g r"
  shows "firstWhere (\<lambda>r. g r = k) (updWhere P f rs) =
    map_option (\<lambda>r. if P r then f r else r) (firstWhere (\<lambda>r. g r = k) rs)"
  using assms by (induction rs) (auto simp: firstWhere_def updWhere_def)

end
