(* ===== verification/Shared_Ctx.thy ===== *)
theory Shared_Ctx
  imports Prelude
begin

text \<open>
  The request context (\<open>internal/shared/trace.go\<close>): a Go \<open>context.Context\<close> as far as the program
  stores values in it. Every \<open>With...\<close> function attaches one value under its own private key, and
  the getter of that key returns it, or the key's default when it is absent.
\<close>

record ctx =
  ctxTrace :: "string option"
  ctxAgent :: "string option"
  ctxTask :: "string option"
  ctxSession :: "string option"
  ctxRun :: "string option"
  ctxHop :: "int option"
  ctxDepth :: "int option"

definition background :: ctx where
  "background = \<lparr>ctxTrace = None, ctxAgent = None, ctxTask = None, ctxSession = None,
     ctxRun = None, ctxHop = None, ctxDepth = None\<rparr>"

definition WithTraceID :: "ctx \<Rightarrow> string \<Rightarrow> ctx" where
  "WithTraceID c v = c\<lparr>ctxTrace := Some v\<rparr>"

definition WithAgentID :: "ctx \<Rightarrow> string \<Rightarrow> ctx" where
  "WithAgentID c v = c\<lparr>ctxAgent := Some v\<rparr>"

definition AgentID :: "ctx \<Rightarrow> string" where
  "AgentID c = coalesce (ctxAgent c) ''''"

definition TraceID :: "ctx \<Rightarrow> string" where
  "TraceID c = (case ctxTrace c of Some v \<Rightarrow> if v \<noteq> '''' then v else ''-'' | None \<Rightarrow> ''-'')"

definition WithTaskID :: "ctx \<Rightarrow> string \<Rightarrow> ctx" where
  "WithTaskID c v = c\<lparr>ctxTask := Some v\<rparr>"

definition TaskID :: "ctx \<Rightarrow> string" where
  "TaskID c = coalesce (ctxTask c) ''''"

definition WithSessionID :: "ctx \<Rightarrow> string \<Rightarrow> ctx" where
  "WithSessionID c v = c\<lparr>ctxSession := Some v\<rparr>"

definition SessionID :: "ctx \<Rightarrow> string" where
  "SessionID c = coalesce (ctxSession c) ''''"

definition WithRunID :: "ctx \<Rightarrow> string \<Rightarrow> ctx" where
  "WithRunID c v = c\<lparr>ctxRun := Some v\<rparr>"

definition RunID :: "ctx \<Rightarrow> string" where
  "RunID c = coalesce (ctxRun c) ''''"

definition WithDelegationHop :: "ctx \<Rightarrow> int \<Rightarrow> ctx" where
  "WithDelegationHop c h = c\<lparr>ctxHop := Some h\<rparr>"

definition DelegationHop :: "ctx \<Rightarrow> int" where
  "DelegationHop c = coalesce (ctxHop c) 0"

definition WithMessageDepth :: "ctx \<Rightarrow> int \<Rightarrow> ctx" where
  "WithMessageDepth c d = c\<lparr>ctxDepth := Some d\<rparr>"

definition MessageDepth :: "ctx \<Rightarrow> int" where
  "MessageDepth c = coalesce (ctxDepth c) 0"

definition DefaultAgentID :: string where
  "DefaultAgentID = ''default''"

lemmas ctx_defs = WithTraceID_def WithAgentID_def AgentID_def TraceID_def WithTaskID_def TaskID_def
  WithSessionID_def SessionID_def WithRunID_def RunID_def WithDelegationHop_def DelegationHop_def
  WithMessageDepth_def MessageDepth_def

lemma TraceID_nonempty [simp]: "TraceID c \<noteq> ''''"
  by (auto simp: TraceID_def split: option.splits)

end
