(* ===== verification/Sql_Tx.thy ===== *)
theory Sql_Tx
  imports Shared_Ctx
begin

text \<open>
  The database connection as the store uses it (\<open>internal/persistence/store.go\<close>, \<open>database/sql\<close>).

  An operation is a function from the state to a result (an error or a value) and the next state.
  The connection pool has size one (\<open>SetMaxOpenConns(1)\<close>), so statements never interleave; what the
  environment decides is whether a statement fails. The field \<open>faults\<close> holds that decision for the
  statements still to come: \<open>Some e\<close> makes the next statement fail with \<open>e\<close> and change nothing,
  \<open>None\<close> lets it run, and an empty list lets every further statement run. Every theorem quantifies
  over it, so it covers every point at which the driver can fail.

  \<open>with_tx\<close> is the pattern \<open>BeginTx\<close>, \<open>defer tx.Rollback()\<close>, body, \<open>Commit\<close>: an error in the
  body, a return without \<open>Commit\<close> and a failed \<open>Commit\<close> all restore the tables. The state may have
  more fields than \<open>faults\<close>: the components extend the record with their tables.
\<close>

record sql_conn =
  faults :: "err option list"

text \<open>
  What an operation reads beside the database: the context, the clock (nanoseconds since the
  epoch, one reading per operation), the outcome of waiting (\<open>ctxDone i d\<close>: the context's error if
  it is cancelled during the \<open>i\<close>-th wait, of \<open>d\<close> nanoseconds), and \<open>math/rand\<close>
  (\<open>intn i n\<close>: the \<open>i\<close>-th draw of \<open>rand.IntN(n)\<close>).
\<close>

record env =
  ctxOf :: ctx
  now :: nat
  ctxDone :: "nat \<Rightarrow> nat \<Rightarrow> err option"
  intn :: "nat \<Rightarrow> nat \<Rightarrow> nat"

definition CURRENT_TIMESTAMP :: "env \<Rightarrow> ts" where
  "CURRENT_TIMESTAMP e = CurTs (now e div 10^9)"

definition nowPlus :: "env \<Rightarrow> nat \<Rightarrow> ts" where
  "nowPlus e d = GoTs (now e + d)"

section \<open>Statements and sequencing\<close>

definition bindS :: "('s \<Rightarrow> (err + 'a) \<times> 's) \<Rightarrow> ('a \<Rightarrow> 's \<Rightarrow> (err + 'b) \<times> 's) \<Rightarrow> 's \<Rightarrow> (err + 'b) \<times> 's" where
  "bindS m f s = (case m s of (Inl e, s') \<Rightarrow> (Inl e, s') | (Inr a, s') \<Rightarrow> f a s')"

definition retS :: "'a \<Rightarrow> 's \<Rightarrow> (err + 'a) \<times> 's" where
  "retS a s = (Inr a, s)"

definition failS :: "err \<Rightarrow> 's \<Rightarrow> (err + 'a) \<times> 's" where
  "failS e s = (Inl e, s)"

text \<open>\<open>fmt.Errorf("...: %w", err)\<close> around the error of an operation.\<close>

definition wrapS :: "string \<Rightarrow> ('s \<Rightarrow> (err + 'a) \<times> 's) \<Rightarrow> 's \<Rightarrow> (err + 'a) \<times> 's" where
  "wrapS p m s = (case m s of (Inl e, s') \<Rightarrow> (Inl (ErrWrap p e), s') | r \<Rightarrow> r)"

text \<open>A call whose error the caller drops (\<open>_ = f()\<close>).\<close>

definition ignoreS :: "('s \<Rightarrow> (err + 'a) \<times> 's) \<Rightarrow> 's \<Rightarrow> (err + unit) \<times> 's" where
  "ignoreS m s = (Inr (), snd (m s))"

definition stmt :: "('x sql_conn_scheme \<Rightarrow> (err + 'a) \<times> 'x sql_conn_scheme) \<Rightarrow>
    'x sql_conn_scheme \<Rightarrow> (err + 'a) \<times> 'x sql_conn_scheme" where
  "stmt f s = (case faults s of
      [] \<Rightarrow> f s
    | None # fs \<Rightarrow> f (s\<lparr>faults := fs\<rparr>)
    | Some e # fs \<Rightarrow> (Inl e, s\<lparr>faults := fs\<rparr>))"

definition queryS :: "('x sql_conn_scheme \<Rightarrow> 'a) \<Rightarrow> 'x sql_conn_scheme \<Rightarrow> (err + 'a) \<times> 'x sql_conn_scheme" where
  "queryS q = stmt (\<lambda>s. (Inr (q s), s))"

text \<open>\<open>QueryRow(...).Scan\<close>: no row is the error \<open>sql.ErrNoRows\<close>.\<close>

definition queryRow :: "('x sql_conn_scheme \<Rightarrow> 'a option) \<Rightarrow> 'x sql_conn_scheme \<Rightarrow> (err + 'a) \<times> 'x sql_conn_scheme" where
  "queryRow q = stmt (\<lambda>s. (case q s of None \<Rightarrow> Inl ErrNoRows | Some r \<Rightarrow> Inr r, s))"

definition execS :: "('x sql_conn_scheme \<Rightarrow> 'x sql_conn_scheme) \<Rightarrow> 'x sql_conn_scheme \<Rightarrow> (err + unit) \<times> 'x sql_conn_scheme" where
  "execS f = stmt (\<lambda>s. (Inr (), f s))"

text \<open>An \<open>INSERT\<close> or \<open>UPDATE\<close> under constraints: a violated one is an error and changes nothing.\<close>

definition execCheck :: "('x sql_conn_scheme \<Rightarrow> err option) \<Rightarrow> ('x sql_conn_scheme \<Rightarrow> 'x sql_conn_scheme) \<Rightarrow>
    'x sql_conn_scheme \<Rightarrow> (err + unit) \<times> 'x sql_conn_scheme" where
  "execCheck chk f = stmt (\<lambda>s. case chk s of Some e \<Rightarrow> (Inl e, s) | None \<Rightarrow> (Inr (), f s))"

text \<open>\<open>Exec\<close> followed by \<open>RowsAffected\<close>.\<close>

definition execCount :: "('x sql_conn_scheme \<Rightarrow> nat) \<Rightarrow> ('x sql_conn_scheme \<Rightarrow> 'x sql_conn_scheme) \<Rightarrow>
    'x sql_conn_scheme \<Rightarrow> (err + nat) \<times> 'x sql_conn_scheme" where
  "execCount n f = stmt (\<lambda>s. (Inr (n s), f s))"

text \<open>Both: an \<open>UPDATE\<close> under constraints whose row count is read.\<close>

definition execCheckCount :: "('x sql_conn_scheme \<Rightarrow> err option) \<Rightarrow> ('x sql_conn_scheme \<Rightarrow> nat) \<Rightarrow>
    ('x sql_conn_scheme \<Rightarrow> 'x sql_conn_scheme) \<Rightarrow> 'x sql_conn_scheme \<Rightarrow> (err + nat) \<times> 'x sql_conn_scheme" where
  "execCheckCount chk n f = stmt (\<lambda>s. case chk s of Some e \<Rightarrow> (Inl e, s) | None \<Rightarrow> (Inr (n s), f s))"

text \<open>\<open>for _, x := range xs { ... }\<close> with an early return on the first error.\<close>

fun forEachS :: "('a \<Rightarrow> 's \<Rightarrow> (err + unit) \<times> 's) \<Rightarrow> 'a list \<Rightarrow> 's \<Rightarrow> (err + unit) \<times> 's" where
  "forEachS f [] s = retS () s"
| "forEachS f (x # xs) s = bindS (f x) (\<lambda>_. forEachS f xs) s"

text \<open>The same with a counter of the iterations that answer \<open>true\<close>.\<close>

fun countEachS :: "('a \<Rightarrow> 's \<Rightarrow> (err + bool) \<times> 's) \<Rightarrow> 'a list \<Rightarrow> nat \<Rightarrow> 's \<Rightarrow> (err + nat) \<times> 's" where
  "countEachS f [] n s = retS n s"
| "countEachS f (x # xs) n s = bindS (f x) (\<lambda>ok. countEachS f xs (if ok then Suc n else n)) s"

text \<open>\<open>if errors.Is(err, sql.ErrNoRows)\<close> after a query: the missing row as a value.\<close>

definition noRowsAsNone :: "('s \<Rightarrow> (err + 'a) \<times> 's) \<Rightarrow> 's \<Rightarrow> (err + 'a option) \<times> 's" where
  "noRowsAsNone m s = (case m s of
      (Inl e, s') \<Rightarrow> if isErrNoRows e then (Inr None, s') else (Inl e, s')
    | (Inr a, s') \<Rightarrow> (Inr (Some a), s'))"

section \<open>Transactions\<close>

text \<open>\<open>wb\<close> and \<open>wc\<close> wrap the error of \<open>BeginTx\<close> and, given the value, of \<open>Commit\<close>. How a body ends: on the path to \<open>Commit\<close>, or with a return that leaves the deferred
  \<open>Rollback\<close> to undo it.\<close>

datatype 'a tx_end = Commit 'a | Abandon 'a

definition with_tx :: "(err \<Rightarrow> err) \<Rightarrow> ('a \<Rightarrow> err \<Rightarrow> err) \<Rightarrow>
    ('x sql_conn_scheme \<Rightarrow> (err + 'a tx_end) \<times> 'x sql_conn_scheme) \<Rightarrow>
    'x sql_conn_scheme \<Rightarrow> (err + 'a) \<times> 'x sql_conn_scheme" where
  "with_tx wb wc body s =
    (case execS id s of
       (Inl e, s1) \<Rightarrow> (Inl (wb e), s1)
     | (Inr _, s1) \<Rightarrow>
        (case body s1 of
           (Inl e, s2) \<Rightarrow> (Inl e, s1\<lparr>faults := faults s2\<rparr>)
         | (Inr (Abandon a), s2) \<Rightarrow> (Inr a, s1\<lparr>faults := faults s2\<rparr>)
         | (Inr (Commit a), s2) \<Rightarrow>
            (case execS id s2 of
               (Inl e, s3) \<Rightarrow> (Inl (wc a e), s1\<lparr>faults := faults s3\<rparr>)
             | (Inr _, s3) \<Rightarrow> (Inr a, s3))))"

section \<open>Retrying a busy database\<close>

text \<open>\<open>isSQLiteBusy\<close> (store.go): the text of the error names a lock or carries its code.\<close>

definition isSQLiteBusy :: "err \<Rightarrow> bool" where
  "isSQLiteBusy e = (let msg = errString e in
     contains msg ''database is locked'' \<or> contains msg ''database table is locked'' \<or>
     contains msg ''(5)'' \<or> contains msg ''(6)'')"

definition ms :: nat where
  "ms = 10^6"

text \<open>The delay of \<open>retryOnBusy\<close> after a failed attempt; \<open>r\<close> is the draw of \<open>rand.IntN(delay/2)\<close>.\<close>

definition busyBase :: "nat \<Rightarrow> nat" where
  "busyBase attempt = (let delay = 50 * ms * 2 ^ attempt in if delay > 500 * ms then 500 * ms else delay)"

definition busyDelay :: "(nat \<Rightarrow> nat) \<Rightarrow> nat \<Rightarrow> nat" where
  "busyDelay rnd attempt =
    (let delay = busyBase attempt; jitter = rnd (delay div 2) in delay - delay div 4 + jitter)"

fun retryLoop :: "env \<Rightarrow> nat \<Rightarrow> nat \<Rightarrow> ('s \<Rightarrow> (err + 'a) \<times> 's) \<Rightarrow> 's \<Rightarrow> (err + 'a) \<times> 's" where
  "retryLoop e attempt 0 f s = f s"
| "retryLoop e attempt (Suc left) f s =
    (case f s of
       (Inr a, s') \<Rightarrow> (Inr a, s')
     | (Inl er, s') \<Rightarrow>
        if \<not> isSQLiteBusy er then (Inl er, s')
        else (case ctxDone e attempt (busyDelay (intn e attempt) attempt) of
                Some ce \<Rightarrow> (Inl ce, s')
              | None \<Rightarrow> retryLoop e (Suc attempt) left f s'))"

text \<open>\<open>for attempt := 0; attempt <= maxRetries; attempt++\<close>: \<open>maxRetries + 1\<close> calls at most.\<close>

definition retryOnBusy :: "env \<Rightarrow> nat \<Rightarrow> ('s \<Rightarrow> (err + 'a) \<times> 's) \<Rightarrow> 's \<Rightarrow> (err + 'a) \<times> 's" where
  "retryOnBusy e maxRetries f = retryLoop e 0 maxRetries f"

section \<open>Lemmas on statements\<close>

lemma stmt_no_faults [sql_simps]: "faults s = [] \<Longrightarrow> stmt f s = f s"
  by (simp add: stmt_def)

lemma faults_upd_idem [simp]: "s\<lparr>faults := fs, faults := gs\<rparr> = s\<lparr>faults := gs\<rparr>"
  by simp

lemma faults_upd_triv [simp]: "faults s = fs \<Longrightarrow> s\<lparr>faults := fs\<rparr> = s"
  by auto

lemmas stmt_defs = queryS_def queryRow_def execS_def execCheck_def execCount_def execCheckCount_def

lemmas seq_defs = bindS_def retS_def failS_def wrapS_def ignoreS_def noRowsAsNone_def

text \<open>Inversion: what a successful statement did. The leftover faults never matter.\<close>

lemma bindS_Inr: "bindS m f s = (Inr y, s') \<longleftrightarrow> (\<exists>x s1. m s = (Inr x, s1) \<and> f x s1 = (Inr y, s'))"
  by (auto simp: bindS_def split: prod.splits sum.splits)

lemma wrapS_Inr [simp]: "wrapS p m s = (Inr y, s') \<longleftrightarrow> m s = (Inr y, s')"
  by (auto simp: wrapS_def split: prod.splits sum.splits)

lemma retS_Inr [simp]: "retS a s = (Inr y, s') \<longleftrightarrow> y = a \<and> s' = s"
  by (auto simp: retS_def)

lemma failS_Inr [simp]: "failS e s = (Inr y, s') \<longleftrightarrow> False"
  by (auto simp: failS_def)

lemma stmt_InrE:
  assumes "stmt f s = (Inr y, s')"
  obtains fs where "f (s\<lparr>faults := fs\<rparr>) = (Inr y, s')"
proof (cases "faults s")
  case Nil
  with assms have "f (s\<lparr>faults := []\<rparr>) = (Inr y, s')" by (simp add: stmt_def)
  then show ?thesis by (rule that)
next
  case (Cons a fs)
  with assms that show ?thesis by (cases a) (auto simp: stmt_def)
qed

lemma queryS_InrE:
  assumes "queryS q s = (Inr y, s')"
  obtains fs where "s' = s\<lparr>faults := fs\<rparr>" and "y = q s'"
  using assms unfolding queryS_def by (auto elim!: stmt_InrE)

lemma queryRow_InrE:
  assumes "queryRow q s = (Inr y, s')"
  obtains fs where "s' = s\<lparr>faults := fs\<rparr>" and "q s' = Some y"
  using assms unfolding queryRow_def by (auto elim!: stmt_InrE split: option.splits)

text \<open>
  A missing row and a driver that reports \<open>sql.ErrNoRows\<close> look the same to the caller; the tables
  are as they were in both cases.
\<close>

lemma noRows_InrE:
  assumes "noRowsAsNone (queryRow q) s = (Inr y, s')"
  obtains fs where "s' = s\<lparr>faults := fs\<rparr>" and "y = None \<or> y = q s'"
  using assms unfolding noRowsAsNone_def queryRow_def stmt_def
  by (auto split: prod.splits sum.splits option.splits list.splits if_splits) (metis faults_upd_triv)+

lemma execS_InrE:
  assumes "execS f s = (Inr y, s')"
  obtains fs where "s' = f (s\<lparr>faults := fs\<rparr>)"
  using assms unfolding execS_def by (auto elim!: stmt_InrE)

lemma execCheck_InrE:
  assumes "execCheck chk f s = (Inr y, s')"
  obtains fs where "s' = f (s\<lparr>faults := fs\<rparr>)" and "chk (s\<lparr>faults := fs\<rparr>) = None"
  using assms unfolding execCheck_def by (auto elim!: stmt_InrE split: option.splits)

lemma execCount_InrE:
  assumes "execCount n f s = (Inr y, s')"
  obtains fs where "s' = f (s\<lparr>faults := fs\<rparr>)" and "y = n (s\<lparr>faults := fs\<rparr>)"
  using assms unfolding execCount_def by (auto elim!: stmt_InrE)

lemma execCheckCount_InrE:
  assumes "execCheckCount chk n f s = (Inr y, s')"
  obtains fs where "s' = f (s\<lparr>faults := fs\<rparr>)" and "chk (s\<lparr>faults := fs\<rparr>) = None" and "y = n (s\<lparr>faults := fs\<rparr>)"
  using assms unfolding execCheckCount_def by (auto elim!: stmt_InrE split: option.splits)

lemmas stmt_elims = queryS_InrE queryRow_InrE noRows_InrE execS_InrE execCheck_InrE execCount_InrE execCheckCount_InrE

section \<open>Atomicity of transactions\<close>

text \<open>Two states with the same tables: they differ in the pending faults only.\<close>

definition same_tables :: "'x sql_conn_scheme \<Rightarrow> 'x sql_conn_scheme \<Rightarrow> bool" where
  "same_tables s s' \<longleftrightarrow> s' = s\<lparr>faults := faults s'\<rparr>"

lemma same_tables_refl [simp]: "same_tables s s"
  by (simp add: same_tables_def)

lemma same_tables_faults [simp]: "same_tables s (s\<lparr>faults := fs\<rparr>)"
  by (simp add: same_tables_def)

lemma same_tables_trans: "same_tables s t \<Longrightarrow> same_tables t u \<Longrightarrow> same_tables s u"
  unfolding same_tables_def by (metis faults_upd_idem)

lemma stmt_Inl_same: "(\<And>t r t'. f t = (Inl r, t') \<Longrightarrow> t' = t) \<Longrightarrow> stmt f s = (Inl e, s') \<Longrightarrow> same_tables s s'"
  by (auto simp: stmt_def split: list.splits option.splits) fastforce+

lemma execS_id_same: "execS id s = (r, s1) \<Longrightarrow> same_tables s s1"
  by (auto simp: execS_def stmt_def split: list.splits option.splits)

lemma with_tx_error_rolls_back:
  assumes "with_tx wb wc body s = (Inl e, s')"
  shows "same_tables s s'"
  using assms
  by (auto simp: with_tx_def split: prod.splits sum.splits tx_end.splits
      dest!: execS_id_same intro: same_tables_trans)

text \<open>A transaction that returns a value either committed its body or left the tables alone.\<close>

lemma with_tx_InrE:
  assumes "with_tx wb wc body s = (Inr a, s')"
  obtains (committed) s1 s2 where "same_tables s s1" "body s1 = (Inr (Commit a), s2)" "same_tables s2 s'"
  | (abandoned) s1 s2 where "same_tables s s1" "body s1 = (Inr (Abandon a), s2)" "same_tables s s'"
  using assms
  by (auto simp: with_tx_def split: prod.splits sum.splits tx_end.splits)
    (metis execS_id_same same_tables_faults same_tables_trans)+

section \<open>Invariants of the tables\<close>

text \<open>
  The contract every component's invariant satisfies: it speaks about the tables, not about the
  environment's pending faults. What the connection guarantees for such an invariant is proved
  once here and used at the interpretation of each component.
\<close>

locale table_invariant =
  fixes I :: "'x sql_conn_scheme \<Rightarrow> bool"
  assumes I_faults: "I (s\<lparr>faults := fs\<rparr>) \<longleftrightarrow> I s"
begin

lemma I_same: "same_tables s s' \<Longrightarrow> I s \<Longrightarrow> I s'"
  unfolding same_tables_def by (metis I_faults)

lemma with_tx_keeps:
  assumes body: "\<And>s a s'. I s \<Longrightarrow> body s = (Inr (Commit a), s') \<Longrightarrow> I s'"
    and "I s"
  shows "I (snd (with_tx wb wc body s))"
proof (cases "with_tx wb wc body s")
  case (Pair r s')
  show ?thesis
  proof (cases r)
    case (Inl e)
    with Pair have "same_tables s s'" by (simp add: with_tx_error_rolls_back)
    with Pair assms(2) show ?thesis by (simp add: I_same)
  next
    case (Inr a)
    with Pair have "with_tx wb wc body s = (Inr a, s')" by simp
    then have "I s'"
    proof (cases rule: with_tx_InrE)
      case (committed s1 s2)
      from I_same [OF committed(1) assms(2)] committed(2) have "I s2" by (rule body)
      with committed(3) show ?thesis by (rule I_same)
    next
      case (abandoned s1 s2)
      from abandoned(3) assms(2) show ?thesis by (rule I_same)
    qed
    with Pair show ?thesis by simp
  qed
qed

lemma retryLoop_keeps:
  assumes f: "\<And>s. I s \<Longrightarrow> I (snd (f s))" and "I s"
  shows "I (snd (retryLoop e attempt left f s))"
  using assms(2)
proof (induction left arbitrary: attempt s)
  case 0
  then show ?case by (simp add: f)
next
  case (Suc left)
  have "I (snd (f s))" using Suc.prems by (rule f)
  with Suc.IH show ?case
    by (auto split: prod.splits sum.splits option.splits)
qed

lemma retryOnBusy_keeps:
  assumes "\<And>s. I s \<Longrightarrow> I (snd (f s))" and "I s"
  shows "I (snd (retryOnBusy e n f s))"
  unfolding retryOnBusy_def using assms by (rule retryLoop_keeps)

lemma stmt_keeps:
  assumes "\<And>s. I s \<Longrightarrow> I (snd (f s))" and "I s"
  shows "I (snd (stmt f s))"
  using assms by (auto simp: stmt_def I_faults split: list.splits option.splits)

lemma execS_keeps: "(\<And>s. I s \<Longrightarrow> I (f s)) \<Longrightarrow> I s \<Longrightarrow> I (snd (execS f s))"
  unfolding execS_def by (rule stmt_keeps) auto

lemma execCount_keeps: "(\<And>s. I s \<Longrightarrow> I (f s)) \<Longrightarrow> I s \<Longrightarrow> I (snd (execCount n f s))"
  unfolding execCount_def by (rule stmt_keeps) auto

lemma execCheck_keeps:
  "(\<And>s. I s \<Longrightarrow> chk s = None \<Longrightarrow> I (f s)) \<Longrightarrow> I s \<Longrightarrow> I (snd (execCheck chk f s))"
  unfolding execCheck_def by (rule stmt_keeps) (auto split: option.splits)

lemma execCheckCount_keeps:
  "(\<And>s. I s \<Longrightarrow> chk s = None \<Longrightarrow> I (f s)) \<Longrightarrow> I s \<Longrightarrow> I (snd (execCheckCount chk n f s))"
  unfolding execCheckCount_def by (rule stmt_keeps) (auto split: option.splits)

lemma queryS_keeps: "I s \<Longrightarrow> I (snd (queryS q s))"
  unfolding queryS_def by (rule stmt_keeps) auto

lemma queryRow_keeps: "I s \<Longrightarrow> I (snd (queryRow q s))"
  unfolding queryRow_def by (rule stmt_keeps) (auto split: option.splits)

lemma bindS_keeps:
  assumes "\<And>s. I s \<Longrightarrow> I (snd (m s))" and "\<And>x s. I s \<Longrightarrow> I (snd (f x s))" and "I s"
  shows "I (snd (bindS m f s))"
  using assms(1) [OF assms(3)] assms(2)
  by (auto simp: bindS_def split: prod.splits sum.splits)

lemma noRowsAsNone_keeps: "I (snd (m s)) \<Longrightarrow> I (snd (noRowsAsNone m s))"
  by (auto simp: noRowsAsNone_def split: prod.splits sum.splits)

lemma countEachS_keeps:
  "(\<And>x s. I s \<Longrightarrow> I (snd (f x s))) \<Longrightarrow> I s \<Longrightarrow> I (snd (countEachS f xs n s))"
  by (induction xs arbitrary: s n) (auto simp: retS_def intro: bindS_keeps)

lemma countEachS_Inr_keeps:
  assumes "\<And>x s ok s'. I s \<Longrightarrow> f x s = (Inr ok, s') \<Longrightarrow> I s'"
  shows "I s \<Longrightarrow> countEachS f xs n s = (Inr m, s') \<Longrightarrow> I s'"
  by (induction xs arbitrary: s n) (auto simp: bindS_Inr dest: assms)

lemma wrapS_keeps: "I (snd (m s)) \<Longrightarrow> I (snd (wrapS p m s))"
  by (auto simp: wrapS_def split: prod.splits sum.splits)

lemma ignoreS_keeps: "I (snd (m s)) \<Longrightarrow> I (snd (ignoreS m s))"
  by (simp add: ignoreS_def)

lemma forEachS_keeps:
  "(\<And>x s. I s \<Longrightarrow> I (snd (f x s))) \<Longrightarrow> I s \<Longrightarrow> I (snd (forEachS f xs s))"
  by (induction xs arbitrary: s) (auto simp: retS_def intro: bindS_keeps)

end

section \<open>Properties of the retry loop\<close>

text \<open>Wrapping an error keeps what \<open>isSQLiteBusy\<close> looks for: the loop sees through the wrappers.\<close>

lemma isSQLiteBusy_wrap: "isSQLiteBusy e \<Longrightarrow> isSQLiteBusy (ErrWrap p e)"
  unfolding isSQLiteBusy_def Let_def errString.simps
  using contains_append_left [of "errString e" _ "p @ '': ''"] by auto

text \<open>\<open>iterBusy f s k\<close>: the state after \<open>k\<close> calls of \<open>f\<close> that all fail on a busy database.\<close>

fun iterBusy :: "('s \<Rightarrow> (err + 'a) \<times> 's) \<Rightarrow> 's \<Rightarrow> nat \<Rightarrow> 's option" where
  "iterBusy f s 0 = Some s"
| "iterBusy f s (Suc k) =
     (case f s of (Inl e, s') \<Rightarrow> if isSQLiteBusy e then iterBusy f s' k else None | _ \<Rightarrow> None)"

definition busyOutcome :: "(err + 'a) \<Rightarrow> bool" where
  "busyOutcome r = (case r of Inl e \<Rightarrow> isSQLiteBusy e | Inr _ \<Rightarrow> False)"

lemma retryLoop_outlasts:
  assumes "iterBusy f s k = Some s'" and "k \<le> left" and "\<And>i d. ctxDone e i d = None"
    and "\<not> busyOutcome (fst (f s'))"
  shows "retryLoop e attempt left f s = f s'"
  using assms(1,2)
proof (induction k arbitrary: s attempt left)
  case 0
  then have [simp]: "s = s'" by simp
  show ?case
    using assms(4) by (cases left) (auto simp: busyOutcome_def split: prod.splits sum.splits)
next
  case (Suc k)
  then obtain left' where l: "left = Suc left'" by (cases left) auto
  from Suc.prems obtain er t where t: "f s = (Inl er, t)" "isSQLiteBusy er" "iterBusy f t k = Some s'"
    by (auto split: prod.splits sum.splits if_splits)
  have "retryLoop e (Suc attempt) left' f t = f s'"
    using Suc.prems(2) l by (intro Suc.IH t(3)) simp
  then show ?case using t l assms(3) by simp
qed

lemma busyBase_le: "busyBase attempt \<le> 500 * ms" and busyBase_ge: "50 * ms \<le> busyBase attempt"
proof -
  have "(1::nat) \<le> 2 ^ attempt" by simp
  then have "50 * ms \<le> 50 * ms * 2 ^ attempt" by simp
  then show "busyBase attempt \<le> 500 * ms" "50 * ms \<le> busyBase attempt"
    by (auto simp: busyBase_def Let_def ms_def)
qed


text \<open>A transaction that meets a locked database at most five times in a row is repeated until it
  gets through: the caller sees the outcome of the first attempt that was not blocked, as if the
  earlier ones had not happened.\<close>

theorem busy_retries_outlast:
  assumes "iterBusy f s k = Some s'" and "k \<le> n" and "\<And>i d. ctxDone e i d = None" and "\<not> busyOutcome (fst (f s'))"
  shows "retryOnBusy e n f s = f s'"
  unfolding retryOnBusy_def using assms by (rule retryLoop_outlasts)

definition exBusy :: "nat \<Rightarrow> (err + nat) \<times> nat" where
  "exBusy k = (if k < 5 then (Inl (ErrWrap ''commit claim tx'' (ErrMsg ''database is locked'')), Suc k) else (Inr 7, k))"

definition exCalm :: env where
  "exCalm = \<lparr>ctxOf = background, now = 0, ctxDone = (\<lambda>_ _. None), intn = (\<lambda>_ _. 0)\<rparr>"

theorem busy_retries_outlast_witness: "retryOnBusy exCalm 5 exBusy 0 = (Inr 7, 5)"
proof -
  have "isSQLiteBusy (ErrWrap ''commit claim tx'' (ErrMsg ''database is locked''))"
    by (rule isSQLiteBusy_wrap) (simp add: isSQLiteBusy_def)
  then have "iterBusy exBusy 0 5 = Some 5" by (simp add: exBusy_def numeral_eq_Suc)
  from busy_retries_outlast [OF this, of 5 exCalm] show ?thesis
    by (simp add: exBusy_def busyOutcome_def exCalm_def)
qed

lemma busyDelay_bounds:
  assumes "\<And>n. 0 < n \<Longrightarrow> rnd n < n"
  shows "4 * busyDelay rnd i \<ge> 3 * busyBase i" and "4 * busyDelay rnd i < 5 * busyBase i"
proof -
  have d: "4 dvd busyBase i"
    by (auto simp: busyBase_def Let_def ms_def)
  then obtain q where q: "busyBase i = 4 * q" by (rule dvdE)
  have "0 < q" using busyBase_ge [of i] q by (simp add: ms_def)
  then have "rnd (2 * q) < 2 * q" using assms by simp
  then show "4 * busyDelay rnd i \<ge> 3 * busyBase i" "4 * busyDelay rnd i < 5 * busyBase i"
    by (auto simp: busyDelay_def Let_def q)
qed

lemma sum_five: "(\<Sum>i<5. f i) = f 0 + f 1 + f 2 + f 3 + (f 4 :: nat)" for f :: "nat \<Rightarrow> nat"
  by (simp add: eval_nat_numeral)

text \<open>Each wait of the retry loop stays within a quarter of its base delay, and the five waits of a
  call with five retries add up to between 937.5 and 1562.5 milliseconds, not the three seconds the
  comment on \<open>retryOnBusy\<close> announces.\<close>

theorem busy_total_wait:
  assumes "\<And>i n. 0 < n \<Longrightarrow> intn e i n < n"
  shows "2 * (\<Sum>i<5. busyDelay (intn e i) i) \<ge> 1875 * ms \<and> 2 * (\<Sum>i<5. busyDelay (intn e i) i) < 3125 * ms"
proof -
  have b: "busyBase 0 = 50 * ms" "busyBase 1 = 100 * ms" "busyBase 2 = 200 * ms" "busyBase 3 = 400 * ms" "busyBase 4 = 500 * ms"
    by (simp_all add: busyBase_def Let_def ms_def)
  have "3 * busyBase i \<le> 4 * busyDelay (intn e i) i \<and> 4 * busyDelay (intn e i) i < 5 * busyBase i" for i
    using busyDelay_bounds [of "intn e i" i] assms by blast
  from this [of 0] this [of 1] this [of 2] this [of 3] this [of 4] show ?thesis
    by (simp add: sum_five b del: One_nat_def)
qed

theorem busy_total_wait_witness: "2 * (\<Sum>i<5. busyDelay (intn exCalm i) i) < 3125 * ms"
  using busy_total_wait [of exCalm] by (simp add: exCalm_def)

end
