(* ===== verification/Bus.thy ===== *)
theory Bus
  imports Prelude
begin

text \<open>
  The in-process publish/subscribe bus (\<open>internal/bus/bus.go\<close>). A subscription's Go channel of
  capacity 100 is its buffer \<open>ch\<close>, oldest event first; \<open>Recv\<close> is a consumer's receive from it.
  \<open>subs\<close> lists the live subscriptions (the map of the source; the loop of \<open>Publish\<close> treats each
  entry on its own, so the map's iteration order does not matter) and \<open>closedSubs\<close> those whose
  channel \<open>Unsubscribe\<close> has closed. The payload type is a parameter. Log lines of
  \<open>maybeLogDropWarning\<close> are kept in \<open>warnings\<close> (count and topic). Each operation holds the mutex
  from its first to its last access, so an interleaving of goroutines is a sequence of operations.
\<close>

definition defaultBufferSize :: nat where
  "defaultBufferSize = 100"

record 'p Event =
  Topic :: string
  Payload :: 'p

record 'p Subscription =
  sub_id :: nat
  sub_prefix :: string
  ch :: "'p Event list"

record 'p Bus =
  subs :: "'p Subscription list"
  nextID :: nat
  hasLogger :: bool
  droppedEvents :: nat
  lastDropWarning :: nat
  warnings :: "(nat \<times> string) list"
  closedSubs :: "'p Subscription list"

definition NewWithLogger :: "bool \<Rightarrow> 'p Bus" where
  "NewWithLogger logger = \<lparr>subs = [], nextID = 0, hasLogger = logger, droppedEvents = 0,
     lastDropWarning = 0, warnings = [], closedSubs = []\<rparr>"

definition New :: "'p Bus" where
  "New = NewWithLogger False"

definition Subscribe :: "'p Bus \<Rightarrow> string \<Rightarrow> 'p Subscription \<times> 'p Bus" where
  "Subscribe b topicPrefix =
    (let n = Suc (nextID b); sub = \<lparr>sub_id = n, sub_prefix = topicPrefix, ch = []\<rparr>
     in (sub, b\<lparr>nextID := n, subs := subs b @ [sub]\<rparr>))"

text \<open>The argument is the subscription's id, \<open>None\<close> for a nil subscription.\<close>

definition Unsubscribe :: "'p Bus \<Rightarrow> nat option \<Rightarrow> 'p Bus" where
  "Unsubscribe b sub = (case sub of None \<Rightarrow> b
    | Some i \<Rightarrow>
       if \<exists>x\<in>set (subs b). sub_id x = i
       then b\<lparr>subs := delWhere (\<lambda>x. sub_id x = i) (subs b),
              closedSubs := closedSubs b @ filter (\<lambda>x. sub_id x = i) (subs b)\<rparr>
       else b)"

text \<open>
  \<open>dropThreshold\<close>: the loop \<open>for threshold*10 <= count\<close>. The counter is an \<open>int64\<close>; below
  \<open>10^18\<close> drops no product of the loop overflows (\<open>drop_threshold_power\<close>).
\<close>

function dropThresholdFrom :: "nat \<Rightarrow> nat \<Rightarrow> nat" where
  "dropThresholdFrom t count = (if 0 < t \<and> t * 10 \<le> count then dropThresholdFrom (t * 10) count else t)"
  by pat_completeness auto
termination
  by (relation "measure (\<lambda>(t, count). count - t)") auto

declare dropThresholdFrom.simps [simp del]

definition dropThreshold :: "nat \<Rightarrow> nat" where
  "dropThreshold count = dropThresholdFrom 1 count"

definition maybeLogDropWarning :: "nat \<Rightarrow> string \<Rightarrow> 'p Bus \<Rightarrow> 'p Bus" where
  "maybeLogDropWarning newCount topic b =
    (if \<not> hasLogger b then b
     else let threshold = dropThreshold newCount in
       if newCount < threshold then b
       else if newCount \<noteq> threshold then b
       else if threshold \<le> lastDropWarning b then b
       else b\<lparr>lastDropWarning := threshold, warnings := warnings b @ [(newCount, topic)]\<rparr>)"

definition matches :: "string \<Rightarrow> 'p Subscription \<Rightarrow> bool" where
  "matches topic sub = (sub_prefix sub = '''' \<or> prefix (sub_prefix sub) topic)"

definition hasRoom :: "'p Subscription \<Rightarrow> bool" where
  "hasRoom sub = (length (ch sub) < defaultBufferSize)"

fun publishLoop :: "'p Event \<Rightarrow> 'p Subscription list \<Rightarrow> 'p Bus \<Rightarrow> 'p Subscription list \<times> 'p Bus" where
  "publishLoop ev [] b = ([], b)"
| "publishLoop ev (sub # rest) b =
    (if matches (Topic ev) sub then
       (if hasRoom sub then
          (let (rest', b') = publishLoop ev rest b in (sub\<lparr>ch := ch sub @ [ev]\<rparr> # rest', b'))
        else
          (let newCount = Suc (droppedEvents b);
               b1 = maybeLogDropWarning newCount (Topic ev) (b\<lparr>droppedEvents := newCount\<rparr>);
               (rest', b') = publishLoop ev rest b1
           in (sub # rest', b')))
     else (let (rest', b') = publishLoop ev rest b in (sub # rest', b')))"

definition Publish :: "'p Bus \<Rightarrow> string \<Rightarrow> 'p \<Rightarrow> 'p Bus" where
  "Publish b topic payload =
    (let (ss, b') = publishLoop \<lparr>Topic = topic, Payload = payload\<rparr> (subs b) b in b'\<lparr>subs := ss\<rparr>)"

definition SubscriberCount :: "'p Bus \<Rightarrow> nat" where
  "SubscriberCount b = length (subs b)"

definition DroppedEventCount :: "'p Bus \<Rightarrow> nat" where
  "DroppedEventCount b = droppedEvents b"

text \<open>A consumer's receive on a live subscription: the oldest event, if there is one.\<close>

definition Recv :: "'p Bus \<Rightarrow> nat \<Rightarrow> 'p Event option \<times> 'p Bus" where
  "Recv b i = (case firstWhere (\<lambda>x. sub_id x = i) (subs b) of
      None \<Rightarrow> (None, b)
    | Some sub \<Rightarrow> (case ch sub of
        [] \<Rightarrow> (None, b)
      | ev # evs \<Rightarrow> (Some ev, b\<lparr>subs := updWhere (\<lambda>x. sub_id x = i) (\<lambda>x. x\<lparr>ch := evs\<rparr>) (subs b)\<rparr>)))"

section \<open>The delivery specification\<close>

text \<open>What one publication does to one subscription.\<close>

definition delivered :: "'p Event \<Rightarrow> 'p Subscription \<Rightarrow> 'p Subscription" where
  "delivered ev sub = (if matches (Topic ev) sub \<and> hasRoom sub then sub\<lparr>ch := ch sub @ [ev]\<rparr> else sub)"

definition dropping :: "'p Event \<Rightarrow> 'p Subscription \<Rightarrow> bool" where
  "dropping ev sub = (matches (Topic ev) sub \<and> \<not> hasRoom sub)"

lemma maybeLog_frame [simp]:
  "subs (maybeLogDropWarning n t b) = subs b" "nextID (maybeLogDropWarning n t b) = nextID b"
  "hasLogger (maybeLogDropWarning n t b) = hasLogger b"
  "droppedEvents (maybeLogDropWarning n t b) = droppedEvents b"
  "closedSubs (maybeLogDropWarning n t b) = closedSubs b"
  by (simp_all add: maybeLogDropWarning_def Let_def)

lemma publishLoop_spec:
  "publishLoop ev ss b = (ss', b') \<Longrightarrow>
   ss' = map (delivered ev) ss \<and> droppedEvents b' = droppedEvents b + length (filter (dropping ev) ss) \<and>
   nextID b' = nextID b \<and> hasLogger b' = hasLogger b \<and> closedSubs b' = closedSubs b"
proof (induction ss arbitrary: ss' b b')
  case Nil
  then show ?case by simp
next
  case (Cons sub rest)
  show ?case
  proof (cases "dropping ev sub")
    case True
    let ?b1 = "maybeLogDropWarning (Suc (droppedEvents b)) (Topic ev) (b\<lparr>droppedEvents := Suc (droppedEvents b)\<rparr>)"
    obtain r1 c1 where r: "publishLoop ev rest ?b1 = (r1, c1)" by fastforce
    from Cons.IH [OF r] True Cons.prems r show ?thesis
      by (auto simp: dropping_def delivered_def Let_def)
  next
    case False
    obtain r1 c1 where r: "publishLoop ev rest b = (r1, c1)" by fastforce
    from Cons.IH [OF r] False Cons.prems r show ?thesis
      by (auto simp: dropping_def delivered_def Let_def split: if_splits)
  qed
qed

lemma Publish_spec:
  "subs (Publish b topic p) = map (delivered \<lparr>Topic = topic, Payload = p\<rparr>) (subs b)"
  "droppedEvents (Publish b topic p) =
     droppedEvents b + length (filter (dropping \<lparr>Topic = topic, Payload = p\<rparr>) (subs b))"
  "nextID (Publish b topic p) = nextID b"
  "closedSubs (Publish b topic p) = closedSubs b"
  using publishLoop_spec [of "\<lparr>Topic = topic, Payload = p\<rparr>" "subs b" b]
  by (auto simp: Publish_def Let_def split: prod.splits)

section \<open>The invariant of the bus\<close>

definition bus_inv :: "'p Bus \<Rightarrow> bool" where
  "bus_inv b \<longleftrightarrow> distinct (map sub_id (subs b)) \<and>
     (\<forall>x\<in>set (subs b). 0 < sub_id x \<and> sub_id x \<le> nextID b \<and> length (ch x) \<le> defaultBufferSize) \<and>
     (\<forall>x\<in>set (closedSubs b). 0 < sub_id x \<and> sub_id x \<le> nextID b) \<and>
     sub_id ` set (subs b) \<inter> sub_id ` set (closedSubs b) = {}"

lemma delivered_frame [simp]: "sub_id (delivered ev x) = sub_id x" "sub_prefix (delivered ev x) = sub_prefix x"
  by (simp_all add: delivered_def)

lemma delivered_bounded: "length (ch x) \<le> defaultBufferSize \<Longrightarrow> length (ch (delivered ev x)) \<le> defaultBufferSize"
  by (auto simp: delivered_def hasRoom_def)

lemma bus_inv_New: "bus_inv (NewWithLogger l)"
  by (simp add: bus_inv_def NewWithLogger_def)

lemma bus_inv_Subscribe: "bus_inv b \<Longrightarrow> bus_inv (snd (Subscribe b p))"
  by (fastforce simp: bus_inv_def Subscribe_def Let_def)

lemma bus_inv_Unsubscribe: "bus_inv b \<Longrightarrow> bus_inv (Unsubscribe b u)"
  unfolding bus_inv_def Unsubscribe_def delWhere_def
  by (cases u) (auto simp: distinct_map_filter)

lemma bus_inv_Publish: "bus_inv b \<Longrightarrow> bus_inv (Publish b t p)"
  unfolding bus_inv_def Publish_spec
  by (auto simp: delivered_bounded image_image comp_def)

lemma bus_inv_Recv: "bus_inv b \<Longrightarrow> bus_inv (snd (Recv b i))"
proof -
  assume inv: "bus_inv b"
  show ?thesis
  proof (cases "\<exists>sub ev evs. firstWhere (\<lambda>x. sub_id x = i) (subs b) = Some sub \<and> ch sub = ev # evs")
    case True
    then obtain sub ev evs where f: "firstWhere (\<lambda>x. sub_id x = i) (subs b) = Some sub" "ch sub = ev # evs"
      by blast
    let ?ss = "updWhere (\<lambda>x. sub_id x = i) (\<lambda>x. x\<lparr>ch := evs\<rparr>) (subs b)"
    have "map sub_id ?ss = map sub_id (subs b)" by (rule map_updWhere) simp
    then have "distinct (map sub_id ?ss)" and "sub_id ` set ?ss = sub_id ` set (subs b)"
      using inv by (simp_all add: bus_inv_def) (metis set_map)
    moreover have "length evs \<le> defaultBufferSize"
      using inv firstWhere_Some [OF f(1)] f(2) by (force simp: bus_inv_def)
    ultimately show ?thesis using inv f
      by (auto simp: bus_inv_def Recv_def row_simps)
  next
    case False
    then have "Recv b i = (None, b)"
      by (auto simp: Recv_def split: option.splits list.splits)
    with inv show ?thesis by simp
  qed
qed


section \<open>The drop counter\<close>

lemma dropThresholdFrom_spec:
  "t = 10 ^ j \<Longrightarrow> t \<le> count \<Longrightarrow> \<exists>k\<ge>j. dropThresholdFrom t count = 10 ^ k \<and> 10 ^ k \<le> count \<and> count < 10 ^ Suc k"
proof (induction t count arbitrary: j rule: dropThresholdFrom.induct)
  case (1 t count)
  show ?case
  proof (cases "t * 10 \<le> count")
    case True
    with 1 have "\<exists>k\<ge>Suc j. dropThresholdFrom (t * 10) count = 10 ^ k \<and> 10 ^ k \<le> count \<and> count < 10 ^ Suc k"
      by (intro 1(1)) auto
    with True 1(2) show ?thesis by (subst dropThresholdFrom.simps) (auto intro: Suc_leD)
  next
    case False
    with 1(2,3) show ?thesis by (subst dropThresholdFrom.simps) (auto intro!: exI [of _ j])
  qed
qed

text \<open>The threshold of a drop warning is the largest power of ten that does not exceed the
  count, so a warning is due exactly at 1, 10, 100 and so on; below \<open>10^18\<close> drops the products the
  loop forms stay within a signed 64-bit integer.\<close>

theorem drop_threshold_power:
  assumes "0 < count"
  shows "\<exists>k. dropThreshold count = 10 ^ k \<and> 10 ^ k \<le> count \<and> count < 10 ^ Suc k \<and>
    (count < 10 ^ 18 \<longrightarrow> dropThreshold count * 10 < 2 ^ 63)"
proof -
  obtain k where k: "dropThreshold count = 10 ^ k" "10 ^ k \<le> count" "count < 10 ^ Suc k"
    using dropThresholdFrom_spec [of 1 0 count] assms unfolding dropThreshold_def by auto
  have "dropThreshold count * 10 < 2 ^ 63" if "count < 10 ^ 18"
  proof -
    have "(10::nat) ^ k < 10 ^ 18" using k(2) that by (rule le_less_trans)
    then have "k < 18" by (rule power_less_imp_less_exp [rotated]) simp
    then have "k \<le> 17" by simp
    then have "(10::nat) ^ k \<le> 10 ^ 17" by (rule power_increasing) simp
    then show ?thesis using k(1) by simp
  qed
  with k show ?thesis by blast
qed

theorem drop_threshold_power_witness: "\<exists>k. dropThreshold 4711 = 10 ^ k \<and> 10 ^ k \<le> (4711::nat) \<and> 4711 < (10::nat) ^ Suc k"
  using drop_threshold_power [of 4711, OF zero_less_numeral] by blast

section \<open>Runs of the bus\<close>

datatype 'p busOp = OpPublish string 'p | OpSubscribe string | OpUnsubscribe "nat option" | OpRecv nat

text \<open>One operation: the bus afterwards and what a receive returned.\<close>

fun busExec :: "'p Bus \<Rightarrow> 'p busOp \<Rightarrow> 'p Event option \<times> 'p Bus" where
  "busExec b (OpPublish t p) = (None, Publish b t p)"
| "busExec b (OpSubscribe t) = (None, snd (Subscribe b t))"
| "busExec b (OpUnsubscribe u) = (None, Unsubscribe b u)"
| "busExec b (OpRecv i) = Recv b i"

fun busRun :: "'p Bus \<Rightarrow> 'p busOp list \<Rightarrow> 'p Bus" where
  "busRun b [] = b"
| "busRun b (x # xs) = busRun (snd (busExec b x)) xs"

definition chOf :: "nat \<Rightarrow> 'p Bus \<Rightarrow> 'p Event list" where
  "chOf i b = (case firstWhere (\<lambda>x. sub_id x = i) (subs b) of None \<Rightarrow> [] | Some x \<Rightarrow> ch x)"

text \<open>What subscriber \<open>i\<close> receives, and which publications its channel accepts.\<close>

fun received :: "nat \<Rightarrow> 'p Bus \<Rightarrow> 'p busOp list \<Rightarrow> 'p Event list" where
  "received i b [] = []"
| "received i b (x # xs) =
    (case (x, fst (busExec b x)) of (OpRecv j, Some ev) \<Rightarrow> if j = i then [ev] else [] | _ \<Rightarrow> []) @ received i (snd (busExec b x)) xs"

definition accepts :: "nat \<Rightarrow> 'p Bus \<Rightarrow> string \<Rightarrow> bool" where
  "accepts i b t = (case firstWhere (\<lambda>x. sub_id x = i) (subs b) of None \<Rightarrow> False | Some x \<Rightarrow> matches t x \<and> hasRoom x)"

fun accepted :: "nat \<Rightarrow> 'p Bus \<Rightarrow> 'p busOp list \<Rightarrow> 'p Event list" where
  "accepted i b [] = []"
| "accepted i b (x # xs) =
    (case x of OpPublish t p \<Rightarrow> if accepts i b t then [\<lparr>Topic = t, Payload = p\<rparr>] else [] | _ \<Rightarrow> []) @ accepted i (snd (busExec b x)) xs"

definition live :: "nat \<Rightarrow> 'p Bus \<Rightarrow> bool" where
  "live i b \<longleftrightarrow> (\<exists>x\<in>set (subs b). sub_id x = i)"

lemma firstWhere_map_id:
  assumes "\<And>x. sub_id (f x) = sub_id x"
  shows "firstWhere (\<lambda>x. sub_id x = i) (map f xs) = map_option f (firstWhere (\<lambda>x. sub_id x = i) xs)"
  using assms by (induction xs) (auto simp: firstWhere_def)

lemma live_some: "live i b \<longleftrightarrow> (\<exists>x. firstWhere (\<lambda>x. sub_id x = i) (subs b) = Some x)"
  using firstWhere_None [of "\<lambda>x. sub_id x = i" "subs b"] by (auto simp: live_def)

lemma chOf_Publish: "chOf i (Publish b t p) = chOf i b @ (if accepts i b t then [\<lparr>Topic = t, Payload = p\<rparr>] else [])"
  by (auto simp: chOf_def accepts_def Publish_spec firstWhere_map_id delivered_def split: option.splits)

lemma firstWhere_app: "firstWhere P (xs @ ys) = (case firstWhere P xs of Some r \<Rightarrow> Some r | None \<Rightarrow> firstWhere P ys)"
  by (induction xs) (auto simp: firstWhere_def)

lemma chOf_Subscribe: "live i b \<Longrightarrow> chOf i (snd (Subscribe b t)) = chOf i b"
  by (auto simp: chOf_def Subscribe_def Let_def firstWhere_app live_some)

lemma firstWhere_del: "j \<noteq> i \<Longrightarrow> firstWhere (\<lambda>x. sub_id x = i) (delWhere (\<lambda>x. sub_id x = j) xs) = firstWhere (\<lambda>x. sub_id x = i) xs"
  by (induction xs) (auto simp: firstWhere_def delWhere_def)

lemma chOf_Unsubscribe: "u \<noteq> Some i \<Longrightarrow> chOf i (Unsubscribe b u) = chOf i b"
  by (cases u) (auto simp: chOf_def Unsubscribe_def firstWhere_del)

lemma firstWhere_upd: "firstWhere (\<lambda>x. sub_id x = i) (updWhere (\<lambda>x. sub_id x = j) (\<lambda>x. x\<lparr>ch := evs\<rparr>) xs) =
    (if i = j then map_option (\<lambda>x. x\<lparr>ch := evs\<rparr>) (firstWhere (\<lambda>x. sub_id x = i) xs) else firstWhere (\<lambda>x. sub_id x = i) xs)"
  by (induction xs) (auto simp: firstWhere_def updWhere_def)

lemma chOf_Recv: "(case fst (Recv b j) of Some ev \<Rightarrow> if j = i then [ev] else [] | None \<Rightarrow> []) @ chOf i (snd (Recv b j)) = chOf i b"
  by (auto simp: chOf_def Recv_def firstWhere_upd split: option.splits list.splits)

lemma live_exec: "live i b \<Longrightarrow> x \<noteq> OpUnsubscribe (Some i) \<Longrightarrow> live i (snd (busExec b x))"
  by (cases x) (auto simp: live_some Publish_spec firstWhere_map_id Subscribe_def Let_def firstWhere_app
      Unsubscribe_def firstWhere_del Recv_def firstWhere_upd split: option.splits list.splits)

text \<open>Delivery is FIFO and loses nothing it accepted: over any interleaving of publications,
  subscriptions, other subscribers' departures and receives, what a live subscriber has received
  followed by what waits in its channel is what waited before followed by the accepted publications,
  in the order of publication.\<close>

theorem bus_fifo:
  assumes "live i b" and "OpUnsubscribe (Some i) \<notin> set xs"
  shows "received i b xs @ chOf i (busRun b xs) = chOf i b @ accepted i b xs"
  using assms
proof (induction xs arbitrary: b)
  case (Cons x xs)
  have lv: "live i (snd (busExec b x))" using Cons.prems by (auto intro: live_exec)
  with Cons have IH: "received i (snd (busExec b x)) xs @ chOf i (busRun (snd (busExec b x)) xs) =
      chOf i (snd (busExec b x)) @ accepted i (snd (busExec b x)) xs" by auto
  show ?case
  proof (cases x)
    case (OpRecv j)
    have "received i b (x # xs) @ chOf i (busRun b (x # xs)) =
        (case fst (Recv b j) of Some ev \<Rightarrow> if j = i then [ev] else [] | None \<Rightarrow> []) @ chOf i (snd (Recv b j)) @ accepted i (snd (Recv b j)) xs"
      using IH OpRecv by (auto split: option.splits)
    also have "\<dots> = chOf i b @ accepted i b (x # xs)" 
      unfolding append.assoc [symmetric] chOf_Recv by (simp add: OpRecv)
    finally show ?thesis .
  qed (use IH Cons.prems in \<open>auto simp: chOf_Publish chOf_Subscribe chOf_Unsubscribe\<close>)
qed simp

definition exBus :: "string Bus" where
  "exBus = busRun New [OpSubscribe ''task.'']"

theorem bus_fifo_witness:
  "let xs = [OpPublish ''task.done'' ''1'', OpPublish ''plan.x'' ''2'', OpRecv 1, OpPublish ''task.failed'' ''3''] in
   received 1 exBus xs @ chOf 1 (busRun exBus xs) = chOf 1 exBus @ accepted 1 exBus xs \<and> map Payload (accepted 1 exBus xs) = [''1'', ''3'']"
proof -
  have "live 1 exBus" by (simp add: exBus_def live_def New_def NewWithLogger_def Subscribe_def Let_def)
  moreover have "map Payload (accepted 1 exBus [OpPublish ''task.done'' ''1'', OpPublish ''plan.x'' ''2'', OpRecv 1, OpPublish ''task.failed'' ''3'']) = [''1'', ''3'']"
    by (simp add: exBus_def New_def NewWithLogger_def Subscribe_def Let_def accepts_def firstWhere_def matches_def hasRoom_def
        defaultBufferSize_def Publish_def Recv_def updWhere_def)
  ultimately show ?thesis
    using bus_fifo [of 1 exBus "[OpPublish ''task.done'' ''1'', OpPublish ''plan.x'' ''2'', OpRecv 1, OpPublish ''task.failed'' ''3'']"]
    by (simp add: Let_def)
qed

lemma bus_inv_exec: "bus_inv b \<Longrightarrow> bus_inv (snd (busExec b x))"
  by (cases x) (simp_all add: bus_inv_Publish bus_inv_Subscribe bus_inv_Unsubscribe bus_inv_Recv)

lemma bus_inv_run: "bus_inv b \<Longrightarrow> bus_inv (busRun b xs)"
  by (induction xs arbitrary: b) (simp_all add: bus_inv_exec)

text \<open>After any sequence of operations on a new bus no channel holds more than one hundred events,
  subscription ids are unique and never reused, and a subscription is live or closed but not both,
  so no channel is closed twice or sent to after it was closed.\<close>

theorem bus_reachable:
  "let b = busRun (NewWithLogger l) xs in
    (\<forall>x\<in>set (subs b). length (ch x) \<le> 100) \<and> distinct (map sub_id (subs b)) \<and>
    sub_id ` set (subs b) \<inter> sub_id ` set (closedSubs b) = {} \<and>
    (\<forall>x\<in>set (subs (snd (Subscribe b t))). x \<in> set (subs b) \<or> sub_id x \<notin> sub_id ` set (subs b) \<union> sub_id ` set (closedSubs b))"
proof -
  have "bus_inv (busRun (NewWithLogger l) xs)" by (rule bus_inv_run [OF bus_inv_New])
  then show ?thesis by (fastforce simp: bus_inv_def defaultBufferSize_def Subscribe_def Let_def)
qed

theorem bus_reachable_witness: "distinct (map sub_id (subs exBus))"
  using bus_reachable [of False "[OpSubscribe ''task.''] :: string busOp list" "''''"] by (simp add: exBus_def New_def Let_def)

end
