(* ===== verification/Backoff.thy ===== *)
theory Backoff
  imports Prelude
begin

text \<open>
  The retry schedule of the task store (\<open>internal/persistence/tasks.go\<close>): the FNV-1a hash with
  its 64-bit wrap-around, the fingerprint of an error message, and the deterministic backoff delay
  in nanoseconds.
\<close>

unbundle bit_operations_syntax

definition second :: nat where
  "second = 10^9"

definition retryBaseDelay :: nat where
  "retryBaseDelay = 1 * second"

definition retryMaxDelay :: nat where
  "retryMaxDelay = 30 * second"

definition poisonThreshold :: int where
  "poisonThreshold = 3"

definition defaultMaxAttempts :: int where
  "defaultMaxAttempts = 3"

text \<open>\<open>fnv.New64a\<close>: for each byte, exclusive or and then multiply by the FNV prime.\<close>

fun fnv64a :: "64 word \<Rightarrow> string \<Rightarrow> 64 word" where
  "fnv64a h [] = h"
| "fnv64a h (c # cs) = fnv64a ((h XOR of_nat (of_char c)) * 1099511628211) cs"

definition hashString :: "string \<Rightarrow> string" where
  "hashString input = formatHex (unat (fnv64a 14695981039346656037 input))"

definition errorFingerprint :: "string \<Rightarrow> string" where
  "errorFingerprint errMsg =
    (let normalized = toLower (trimSpace errMsg);
         normalized = (if length normalized > 512 then take 512 normalized else normalized)
     in hashString normalized)"

text \<open>The loop \<open>for i := 1; i < attempt; i++\<close>: the first argument counts the iterations left.\<close>

fun doubleDelay :: "nat \<Rightarrow> nat \<Rightarrow> nat" where
  "doubleDelay 0 base = base"
| "doubleDelay (Suc k) base =
    (let base' = base * 2 in if base' \<ge> retryMaxDelay then retryMaxDelay else doubleDelay k base')"

definition retryDelay :: "string \<Rightarrow> int \<Rightarrow> nat" where
  "retryDelay taskID attempt0 =
    (let attempt = (if attempt0 < 1 then 1 else attempt0);
         base = doubleDelay (nat (attempt - 1)) retryBaseDelay;
         base = (if base > retryMaxDelay then retryMaxDelay else base);
         jitterMax = base div 2;
         jitterMax = (if jitterMax = 0 then 10^6 else jitterMax);
         jitterHash = hashString (taskID @ '':'' @ itoa attempt);
         jitterSource = coalesce (parseHex (take (min (length jitterHash) 8) jitterHash)) 0;
         jitter = jitterSource mod jitterMax;
         delay = base + jitter
     in if delay > retryMaxDelay then retryMaxDelay else delay)"

lemmas backoff_consts = second_def retryBaseDelay_def retryMaxDelay_def

text \<open>The loop computes the capped power of two.\<close>

lemma doubleDelay_eq:
  "0 < base \<Longrightarrow> base < retryMaxDelay \<Longrightarrow> doubleDelay k base = min (base * 2 ^ k) retryMaxDelay"
proof (induction k arbitrary: base)
  case 0
  then show ?case by simp
next
  case (Suc k)
  show ?case
  proof (cases "retryMaxDelay \<le> base * 2")
    case True
    have "base * 2 \<le> base * 2 ^ Suc k" by simp
    with True have "retryMaxDelay \<le> base * 2 ^ Suc k" by linarith
    with True show ?thesis by (simp add: Let_def min_def)
  next
    case False
    with Suc.prems Suc.IH [of "base * 2"] show ?thesis by (simp add: Let_def mult.assoc)
  qed
qed

text \<open>The reference: attempt \<open>n\<close> waits \<open>2^(n-1)\<close> seconds, 30 at most.\<close>

definition backoffBase :: "int \<Rightarrow> nat" where
  "backoffBase attempt = min (second * 2 ^ nat (attempt - 1)) retryMaxDelay"

lemma backoffBase_bounds: "second \<le> backoffBase a" "backoffBase a \<le> retryMaxDelay"
proof -
  have "second * 1 \<le> second * 2 ^ nat (a - 1)" by (rule mult_le_mono2) simp
  then show "second \<le> backoffBase a" by (simp add: backoffBase_def retryMaxDelay_def)
  show "backoffBase a \<le> retryMaxDelay" by (simp add: backoffBase_def)
qed

lemma retryDelay_base:
  "\<exists>j. j < backoffBase a div 2 \<and> retryDelay t a = min (backoffBase a + j) retryMaxDelay"
proof -
  let ?att = "if a < 1 then 1 else a"
  let ?h = "hashString (t @ '':'' @ itoa ?att)"
  let ?src = "coalesce (parseHex (take (min (length ?h) 8) ?h)) 0"
  have loop: "doubleDelay (nat (?att - 1)) retryBaseDelay = backoffBase a"
    by (subst doubleDelay_eq) (auto simp: backoff_consts backoffBase_def)
  have pos: "0 < backoffBase a div 2"
    using backoffBase_bounds(1) [of a] by (simp add: second_def)
  have "retryDelay t a = min (backoffBase a + ?src mod (backoffBase a div 2)) retryMaxDelay"
    using pos backoffBase_bounds(2) [of a]
    by (simp only: retryDelay_def Let_def loop) (simp add: min_def)
  moreover have "?src mod (backoffBase a div 2) < backoffBase a div 2" using pos by simp
  ultimately show ?thesis by blast
qed

text \<open>Normalisation: case and surrounding blanks do not change a fingerprint.\<close>

lemma lowerByte_idem: "lowerByte (lowerByte c) = lowerByte c"
proof (cases "65 \<le> (of_char c :: nat) \<and> (of_char c :: nat) \<le> 90")
  case True
  then have "(of_char (char_of ((of_char c :: nat) + 32) :: char) :: nat) = of_char c + 32"
    by simp
  with True show ?thesis by (simp add: lowerByte_def Let_def)
next
  case False
  then show ?thesis by (auto simp: lowerByte_def Let_def)
qed

lemma trimSpace_surround:
  assumes "\<forall>c\<in>set p. isSpaceByte c" and "\<forall>c\<in>set q. isSpaceByte c"
  shows "trimSpace (p @ s @ q) = trimSpace s"
proof -
  have p: "dropWhile isSpaceByte (p @ s @ q) = dropWhile isSpaceByte (s @ q)"
    using assms(1) by (simp add: dropWhile_append2)
  show ?thesis
  proof (cases "\<forall>c\<in>set s. isSpaceByte c")
    case True
    then have "\<forall>c\<in>set (s @ q). isSpaceByte c" using assms(2) by auto
    then have "dropWhile isSpaceByte (s @ q) = []" and "dropWhile isSpaceByte s = []"
      using True by (simp_all only: dropWhile_eq_Nil_conv)
    then show ?thesis by (simp only: trimSpace_def p)
  next
    case False
    then obtain c where "c \<in> set s" "\<not> isSpaceByte c" by blast
    then have "dropWhile isSpaceByte (s @ q) = dropWhile isSpaceByte s @ q"
      by (rule dropWhile_append1)
    moreover have "dropWhile isSpaceByte (rev q @ r) = dropWhile isSpaceByte r" for r
      using assms(2) by (intro dropWhile_append2) simp
    ultimately show ?thesis unfolding trimSpace_def p by simp
  qed
qed


section \<open>Properties of the schedule\<close>

text \<open>The delay before attempt \<open>n\<close> is between one and thirty seconds, at least the capped power
  of two of the attempt, and less than one and a half times that.\<close>

theorem retry_delay_bounds:
  "second \<le> retryDelay t a \<and> retryDelay t a \<le> 30 * second \<and>
   backoffBase a \<le> retryDelay t a \<and> retryDelay t a < backoffBase a + backoffBase a div 2"
proof -
  obtain j where j: "j < backoffBase a div 2" "retryDelay t a = min (backoffBase a + j) retryMaxDelay"
    using retryDelay_base by blast
  then show ?thesis
    using backoffBase_bounds [of a] by (auto simp: min_def retryMaxDelay_def)
qed

lemma isSpaceByte_lower: "isSpaceByte (lowerByte c) = isSpaceByte c"
proof (cases "65 \<le> (of_char c :: nat) \<and> (of_char c :: nat) \<le> 90")
  case True
  then have "(of_char (lowerByte c) :: nat) = of_char c + 32" by (simp add: lowerByte_def)
  with True show ?thesis by (auto simp: isSpaceByte_def Let_def)
next
  case False
  then show ?thesis by (auto simp: lowerByte_def Let_def)
qed

lemma trimSpace_toLower: "trimSpace (toLower s) = toLower (trimSpace s)"
  by (simp add: trimSpace_def toLower_def dropWhile_map comp_def isSpaceByte_lower rev_map)

lemma toLower_idem: "toLower (toLower s) = toLower s"
  by (simp add: toLower_def lowerByte_idem)

text \<open>The fingerprint that counts repeated errors ignores the case of letters and blanks around
  the message.\<close>

theorem fingerprint_normalised:
  assumes "\<forall>c\<in>set p. isSpaceByte c" and "\<forall>c\<in>set q. isSpaceByte c" and "toLower s = toLower s'"
  shows "errorFingerprint (p @ s @ q) = errorFingerprint s'"
proof -
  have "toLower (trimSpace s) = toLower (trimSpace s')"
    using assms(3) trimSpace_toLower [of s] trimSpace_toLower [of s'] by simp
  then show ?thesis using assms(1,2) by (simp add: errorFingerprint_def trimSpace_surround)
qed

theorem fingerprint_normalised_witness: "errorFingerprint ''  Timeout '' = errorFingerprint ''TIMEOUT''"
proof -
  have "toLower ''Timeout'' = toLower ''TIMEOUT''" by code_simp
  then show ?thesis
    using fingerprint_normalised [of "''  ''" "'' ''" "''Timeout''" "''TIMEOUT''"] by (simp add: isSpaceByte_def)
qed

end
