(* ===== verification/Task_Store.thy ===== *)
theory Task_Store
  imports Complex_Main Sql_Tx Bus Backoff
begin

text \<open>
  The durable task queue (\<open>internal/persistence/store.go\<close> and \<open>tasks.go\<close>): the eight task states
  and their transition table, the rows of the tables the queue uses, and one definition per
  operation of \<open>Store\<close>. The rows carry the columns of the schema of \<open>initSchema\<close>; a nullable column
  is an \<open>option\<close>; primary keys, foreign keys and \<open>AUTOINCREMENT\<close> are checked where a statement
  relies on them. Identifiers drawn with \<open>uuid.NewString()\<close> are arguments. US dollar amounts are
  exact rationals. The record \<open>store\<close> extends the connection and is itself extended by the
  components that own further tables.
\<close>

section \<open>Task states\<close>

datatype TaskStatus = TaskStatusQueued | TaskStatusClaimed | TaskStatusRunning | TaskStatusRetryWait
  | TaskStatusSucceeded | TaskStatusFailed | TaskStatusCanceled | TaskStatusDeadLetter

fun statusString :: "TaskStatus \<Rightarrow> string" where
  "statusString TaskStatusQueued = ''QUEUED''"
| "statusString TaskStatusClaimed = ''CLAIMED''"
| "statusString TaskStatusRunning = ''RUNNING''"
| "statusString TaskStatusRetryWait = ''RETRY_WAIT''"
| "statusString TaskStatusSucceeded = ''SUCCEEDED''"
| "statusString TaskStatusFailed = ''FAILED''"
| "statusString TaskStatusCanceled = ''CANCELED''"
| "statusString TaskStatusDeadLetter = ''DEAD_LETTER''"

text \<open>The map \<open>allowedTransitions\<close>; a state that is not a key has no successor.\<close>

fun allowedTransitions :: "TaskStatus \<Rightarrow> TaskStatus list option" where
  "allowedTransitions TaskStatusQueued = Some [TaskStatusClaimed, TaskStatusCanceled]"
| "allowedTransitions TaskStatusClaimed = Some [TaskStatusRunning, TaskStatusCanceled, TaskStatusQueued]"
| "allowedTransitions TaskStatusRunning =
     Some [TaskStatusSucceeded, TaskStatusFailed, TaskStatusRetryWait, TaskStatusCanceled, TaskStatusQueued]"
| "allowedTransitions TaskStatusRetryWait = Some [TaskStatusQueued, TaskStatusFailed, TaskStatusCanceled]"
| "allowedTransitions TaskStatusFailed = Some [TaskStatusDeadLetter, TaskStatusRetryWait]"
| "allowedTransitions _ = None"

definition canTransition :: "TaskStatus \<Rightarrow> TaskStatus \<Rightarrow> bool" where
  "canTransition from to = (case allowedTransitions from of None \<Rightarrow> False | Some next \<Rightarrow> to \<in> set next)"

section \<open>Rows and the store\<close>

type_synonym usd = rat

record task_row =
  t_id :: string
  t_session_id :: string
  t_type :: string
  t_status :: TaskStatus
  t_priority :: int
  t_attempt :: int
  t_max_attempts :: int
  t_available_at :: ts
  t_cancel_requested :: int
  t_last_error_code :: "string option"
  t_last_error_fingerprint :: "string option"
  t_poison_count :: int
  t_policy_version :: "string option"
  t_lease_owner :: "string option"
  t_lease_expires_at :: "ts option"
  t_payload :: string
  t_result :: "string option"
  t_error :: "string option"
  t_created_at :: ts
  t_updated_at :: ts
  t_parent_task_id :: "string option"
  t_prompt_tokens :: int
  t_completion_tokens :: int
  t_total_tokens :: int
  t_estimated_cost_usd :: usd
  t_agent_id :: string

record event_row =
  e_id :: nat
  e_task_id :: string
  e_session_id :: string
  e_run_id :: "string option"
  e_trace_id :: "string option"
  e_type :: string
  e_state_from :: "TaskStatus option"
  e_state_to :: TaskStatus
  e_payload :: string
  e_created_at :: ts

record session_row =
  s_id :: string
  s_soul_hash :: "string option"
  s_created_at :: ts
  s_updated_at :: ts

record message_row =
  m_id :: nat
  m_session_id :: string
  m_agent_id :: string
  m_role :: string
  m_content :: string
  m_tokens :: int
  m_created_at :: ts
  m_archived_at :: "ts option"

record kv_row =
  kv_key :: string
  kv_value :: "string option"
  kv_updated_at :: ts

record dedup_row =
  d_key :: string
  d_tool_name :: string
  d_request_hash :: string
  d_status :: string
  d_result_hash :: "string option"
  d_created_at :: ts
  d_updated_at :: ts

record metrics_row =
  tm_task_id :: string
  tm_agent_id :: string
  tm_session_id :: string
  tm_parent_task_id :: "string option"
  tm_created_at :: ts
  tm_started_at :: "ts option"
  tm_completed_at :: ts
  tm_duration_ms :: "int option"
  tm_status :: TaskStatus
  tm_prompt_tokens :: int
  tm_completion_tokens :: int
  tm_total_tokens :: int
  tm_cost :: usd
  tm_error_message :: "string option"

record policy_row =
  pv_version :: string
  pv_checksum :: string
  pv_loaded_at :: ts
  pv_source :: "string option"

record context_row =
  tc_root :: string
  tc_key :: string
  tc_value :: string

text \<open>Payloads on the bus: the \<open>map[string]interface{}\<close> of the store, the \<open>map[string]string\<close> of the engine,
  which a type assertion tells apart, and the event structs of \<open>bus.go\<close>.\<close>

datatype pval = VStr string | VInt int | VFloat usd | VStatus TaskStatus

datatype payload =
    PMap "(string \<times> pval) list"
  | PStrMap "(string \<times> string) list"
  | PTaskTokens string int int
  | PTaskMetrics string int int int usd
  | PTaskStateChanged string string string string
  | PApprovalRequest string string string string int
  | PApprovalResponse string string string
  | PStreamToken string string string
  | PStreamDone string string
  | PLoopEvent string string string int int string
  | PToolCall string string string string
  | PAgentMessage string string string int
  | PAgentAlert string string string string
  | POther string

record store = sql_conn +
  bus :: "payload Bus option"
  sessions :: "session_row list"
  messages :: "message_row list"
  msg_seq :: nat
  tasks :: "task_row list"
  task_events :: "event_row list"
  ev_seq :: nat
  kv_store :: "kv_row list"
  tool_call_dedup :: "dedup_row list"
  task_metrics :: "metrics_row list"
  task_context :: "context_row list"
  policy_versions :: "policy_row list"

text \<open>The struct \<open>Task\<close> and \<open>scanTask\<close>. \<open>PolicyVersion\<close> is in no \<open>SELECT\<close>, so it stays empty.\<close>

record Task =
  ID :: string
  TSessionID :: string
  Type :: string
  Status :: TaskStatus
  Attempt :: int
  MaxAttempts :: int
  AvailableAt :: ts
  LastErrorCode :: string
  PoisonCount :: int
  PolicyVersion :: string
  TPayload :: string
  Result :: string
  Error :: string
  LeaseOwner :: string
  LeaseExpiresAt :: "ts option"
  CreatedAt :: ts
  UpdatedAt :: ts
  TAgentID :: string

definition scanTask :: "task_row \<Rightarrow> Task" where
  "scanTask r = \<lparr>ID = t_id r, TSessionID = t_session_id r, Type = t_type r, Status = t_status r,
     Attempt = t_attempt r, MaxAttempts = t_max_attempts r, AvailableAt = t_available_at r,
     LastErrorCode = coalesce (t_last_error_code r) '''', PoisonCount = t_poison_count r,
     PolicyVersion = '''', TPayload = t_payload r, Result = coalesce (t_result r) '''',
     Error = coalesce (t_error r) '''', LeaseOwner = coalesce (t_lease_owner r) '''',
     LeaseExpiresAt = t_lease_expires_at r, CreatedAt = t_created_at r, UpdatedAt = t_updated_at r,
     TAgentID = t_agent_id r\<rparr>"

definition defaultLeaseDuration :: nat where
  "defaultLeaseDuration = 30 * second"

definition ReasonRetryProcessorError :: string where
  "ReasonRetryProcessorError = ''RETRY_PROCESSOR_ERROR''"

definition ReasonDeadLetterPoisonPill :: string where
  "ReasonDeadLetterPoisonPill = ''DEAD_LETTER_POISON_PILL''"

definition ReasonDeadLetterMaxAttempts :: string where
  "ReasonDeadLetterMaxAttempts = ''DEAD_LETTER_MAX_ATTEMPTS''"

definition ReasonAborted :: string where
  "ReasonAborted = ''ABORTED''"

section \<open>Shared steps\<close>

text \<open>\<open>if s.bus != nil { s.bus.Publish(...) }\<close>.\<close>

definition publishS :: "string \<Rightarrow> payload \<Rightarrow> 'x store_scheme \<Rightarrow> (err + unit) \<times> 'x store_scheme" where
  "publishS topic p s = (Inr (), case bus s of None \<Rightarrow> s | Some b \<Rightarrow> s\<lparr>bus := Some (Publish b topic p)\<rparr>)"

definition hasTask :: "string \<Rightarrow> 'x store_scheme \<Rightarrow> bool" where
  "hasTask taskID s = (\<exists>r\<in>set (tasks s). t_id r = taskID)"

definition hasSession :: "string \<Rightarrow> 'x store_scheme \<Rightarrow> bool" where
  "hasSession sessionID s = (\<exists>x\<in>set (sessions s). s_id x = sessionID)"

definition fkError :: err where
  "fkError = ErrMsg ''FOREIGN KEY constraint failed''"

text \<open>Constraints of an \<open>INSERT INTO tasks\<close>: the primary key and the session.\<close>

definition taskInsertCheck :: "string \<Rightarrow> string \<Rightarrow> 'x store_scheme \<Rightarrow> err option" where
  "taskInsertCheck taskID sessionID s =
    (if hasTask taskID s then Some (ErrMsg ''UNIQUE constraint failed: tasks.id'')
     else if \<not> hasSession sessionID s then Some fkError else None)"

text \<open>An \<open>UPDATE tasks SET ... WHERE ...\<close>, and the row count it reports.\<close>

definition updTasks :: "(task_row \<Rightarrow> bool) \<Rightarrow> (task_row \<Rightarrow> task_row) \<Rightarrow> 'x store_scheme \<Rightarrow> 'x store_scheme" where
  "updTasks P f s = s\<lparr>tasks := updWhere P f (tasks s)\<rparr>"

definition taskCount :: "(task_row \<Rightarrow> bool) \<Rightarrow> 'x store_scheme \<Rightarrow> nat" where
  "taskCount P s = countWhere P (tasks s)"

definition taskAt :: "string \<Rightarrow> TaskStatus \<Rightarrow> task_row \<Rightarrow> bool" where
  "taskAt taskID st r = (t_id r = taskID \<and> t_status r = st)"

definition findTask :: "string \<Rightarrow> 'x store_scheme \<Rightarrow> task_row option" where
  "findTask taskID s = firstWhere (\<lambda>r. t_id r = taskID) (tasks s)"

definition insertEvent :: "event_row \<Rightarrow> 'x store_scheme \<Rightarrow> 'x store_scheme" where
  "insertEvent ev s = s\<lparr>task_events := task_events s @ [ev], ev_seq := e_id ev\<rparr>"

definition appendTaskEventTx :: "env \<Rightarrow> string \<Rightarrow> string \<Rightarrow> TaskStatus option \<Rightarrow> TaskStatus \<Rightarrow> string \<Rightarrow> string \<Rightarrow>
    'x store_scheme \<Rightarrow> (err + unit) \<times> 'x store_scheme" where
  "appendTaskEventTx e taskID sessionID from to eventType payload0 =
    (let payload = (if payload0 = '''' then ''{}'' else payload0);
         traceID = (if TraceID (ctxOf e) = ''-'' then sessionID else TraceID (ctxOf e));
         runID = RunID (ctxOf e)
     in wrapS ''insert task_event'' (execCheck
          (\<lambda>s. if hasTask taskID s \<and> hasSession sessionID s then None else Some fkError)
          (\<lambda>s. insertEvent \<lparr>e_id = Suc (ev_seq s), e_task_id = taskID, e_session_id = sessionID,
             e_run_id = nullif runID, e_trace_id = Some traceID, e_type = eventType, e_state_from = from,
             e_state_to = to, e_payload = payload, e_created_at = CURRENT_TIMESTAMP e\<rparr> s)))"

definition transitionRow :: "env \<Rightarrow> TaskStatus \<Rightarrow> string option \<Rightarrow> string option \<Rightarrow> task_row \<Rightarrow> task_row" where
  "transitionRow e to result errMsg r = r\<lparr>t_status := to,
     t_result := (case result of Some v \<Rightarrow> Some v | None \<Rightarrow> t_result r),
     t_error := (case errMsg of Some v \<Rightarrow> Some v | None \<Rightarrow> t_error r),
     t_updated_at := CURRENT_TIMESTAMP e\<rparr>"

definition transitionTaskTx :: "env \<Rightarrow> string \<Rightarrow> TaskStatus list \<Rightarrow> TaskStatus \<Rightarrow> string \<Rightarrow> string \<Rightarrow>
    string option \<Rightarrow> string option \<Rightarrow> 'x store_scheme \<Rightarrow> (err + bool) \<times> 'x store_scheme" where
  "transitionTaskTx e taskID allowedFrom to eventType payload result errMsg =
    bindS (wrapS ''select task for transition'' (noRowsAsNone (queryRow
             (\<lambda>s. map_option (\<lambda>r. (t_status r, t_session_id r)) (findTask taskID s)))))
    (\<lambda>row. case row of
       None \<Rightarrow> retS False
     | Some (current, sessionID) \<Rightarrow>
         if current \<notin> set allowedFrom then retS False
         else if \<not> canTransition current to then
           failS (ErrMsg (''illegal transition '' @ statusString current @ '' -> '' @ statusString to))
         else bindS (wrapS ''update task transition'' (execCount (taskCount (taskAt taskID current))
                (updTasks (taskAt taskID current) (transitionRow e to result errMsg))))
           (\<lambda>affected. if affected \<noteq> 1 then retS False
              else bindS (appendTaskEventTx e taskID sessionID (Some current) to eventType payload)
                     (\<lambda>_. retS True)))"

section \<open>Creating and claiming tasks\<close>

definition queuedRow :: "env \<Rightarrow> string \<Rightarrow> string \<Rightarrow> string \<Rightarrow> string \<Rightarrow> task_row" where
  "queuedRow e taskID sessionID agent payload = \<lparr>t_id = taskID, t_session_id = sessionID, t_type = ''chat'',
     t_status = TaskStatusQueued, t_priority = 0, t_attempt = 0, t_max_attempts = defaultMaxAttempts,
     t_available_at = CURRENT_TIMESTAMP e, t_cancel_requested = 0, t_last_error_code = None,
     t_last_error_fingerprint = None, t_poison_count = 0, t_policy_version = None, t_lease_owner = None,
     t_lease_expires_at = None, t_payload = payload, t_result = None, t_error = None,
     t_created_at = CURRENT_TIMESTAMP e, t_updated_at = CURRENT_TIMESTAMP e, t_parent_task_id = None,
     t_prompt_tokens = 0, t_completion_tokens = 0, t_total_tokens = 0, t_estimated_cost_usd = 0,
     t_agent_id = agent\<rparr>"

definition createTask :: "env \<Rightarrow> string \<Rightarrow> string \<Rightarrow> string \<Rightarrow> string \<Rightarrow>
    'x store_scheme \<Rightarrow> (err + string) \<times> 'x store_scheme" where
  "createTask e taskID agentID sessionID payload =
    retryOnBusy e 5 (with_tx (ErrWrap ''begin create task tx'') (\<lambda>_ er. er)
      (let agent = (if agentID = '''' then ''default'' else agentID) in
       bindS (wrapS ''create task'' (execCheck (taskInsertCheck taskID sessionID)
               (\<lambda>s. s\<lparr>tasks := tasks s @ [queuedRow e taskID sessionID agent payload]\<rparr>)))
       (\<lambda>_. bindS (appendTaskEventTx e taskID sessionID None TaskStatusQueued ''task.enqueued''
                     ''{\"reason\":\"create_task\"}'')
       (\<lambda>_. retS (Commit taskID)))))"

definition CreateTask :: "env \<Rightarrow> string \<Rightarrow> string \<Rightarrow> string \<Rightarrow> 'x store_scheme \<Rightarrow> (err + string) \<times> 'x store_scheme" where
  "CreateTask e taskID sessionID payload = createTask e taskID '''' sessionID payload"

text \<open>\<open>ORDER BY priority DESC, created_at ASC, id ASC\<close>.\<close>

definition claimKey :: "task_row \<Rightarrow> int \<times> ts \<times> string" where
  "claimKey r = (- t_priority r, t_created_at r, t_id r)"

definition claimable :: "env \<Rightarrow> string \<Rightarrow> task_row \<Rightarrow> bool" where
  "claimable e agentID r = (t_status r = TaskStatusQueued \<and> (agentID = '''' \<or> t_agent_id r = agentID) \<and>
     t_available_at r \<le> CURRENT_TIMESTAMP e)"

definition setLease :: "env \<Rightarrow> string \<Rightarrow> task_row \<Rightarrow> task_row" where
  "setLease e leaseOwner r = r\<lparr>t_lease_owner := Some leaseOwner,
     t_lease_expires_at := Some (nowPlus e defaultLeaseDuration), t_updated_at := CURRENT_TIMESTAMP e\<rparr>"

text \<open>\<open>leaseOwner\<close> is the identifier drawn by the attempt that commits.\<close>

definition claimTx :: "env \<Rightarrow> string \<Rightarrow> string \<Rightarrow> 'x store_scheme \<Rightarrow> (err + Task option tx_end) \<times> 'x store_scheme" where
  "claimTx e leaseOwner agentID =
     bindS (wrapS ''select pending task'' (noRowsAsNone (queryRow
              (\<lambda>s. firstBy claimKey (claimable e agentID) (tasks s)))))
      (\<lambda>row. case row of
         None \<Rightarrow> retS (Abandon None)
       | Some r \<Rightarrow>
          bindS (wrapS ''claim task transition'' (transitionTaskTx e (t_id r) [TaskStatusQueued] TaskStatusClaimed
                   ''task.claimed'' ''{\"reason\":\"claim_next_pending\"}'' None None))
          (\<lambda>ok. if \<not> ok then retS (Abandon None)
             else bindS (wrapS ''set claim lease'' (execS
                      (updTasks (taskAt (t_id r) TaskStatusClaimed) (setLease e leaseOwner))))
               (\<lambda>_. retS (Commit (Some ((scanTask r)\<lparr>Status := TaskStatusClaimed, LeaseOwner := leaseOwner,
                       LeaseExpiresAt := Some (nowPlus e defaultLeaseDuration)\<rparr>))))))"

definition claimNextPendingTask :: "env \<Rightarrow> string \<Rightarrow> string \<Rightarrow> 'x store_scheme \<Rightarrow> (err + Task option) \<times> 'x store_scheme" where
  "claimNextPendingTask e leaseOwner agentID =
    retryOnBusy e 5 (with_tx (ErrWrap ''begin claim tx'') (\<lambda>_. ErrWrap ''commit claim tx'')
      (claimTx e leaseOwner agentID))"

definition ClaimNextPendingTask :: "env \<Rightarrow> string \<Rightarrow> 'x store_scheme \<Rightarrow> (err + Task option) \<times> 'x store_scheme" where
  "ClaimNextPendingTask e leaseOwner = claimNextPendingTask e leaseOwner ''''"

definition StartTaskRun :: "env \<Rightarrow> string \<Rightarrow> string \<Rightarrow> string \<Rightarrow> 'x store_scheme \<Rightarrow> (err + unit) \<times> 'x store_scheme" where
  "StartTaskRun e taskID leaseOwner policyVersion =
    with_tx (ErrWrap ''begin start task tx'') (\<lambda>_. ErrWrap ''commit start task tx'')
     (bindS (wrapS ''read claimed lease owner'' (noRowsAsNone (queryRow
              (\<lambda>s. map_option (\<lambda>r. coalesce (t_lease_owner r) '''')
                    (firstWhere (taskAt taskID TaskStatusClaimed) (tasks s))))))
      (\<lambda>row. case row of None \<Rightarrow> failS ErrNoRows
       | Some currentLeaseOwner \<Rightarrow>
          if currentLeaseOwner = '''' \<or> currentLeaseOwner \<noteq> leaseOwner then failS ErrNoRows
          else bindS (transitionTaskTx e taskID [TaskStatusClaimed] TaskStatusRunning ''task.running''
                        ''{\"reason\":\"worker_start\"}'' None None)
           (\<lambda>ok. if \<not> ok then failS ErrNoRows
              else bindS (wrapS ''extend lease on start run'' (execS (updTasks
                     (\<lambda>r. t_id r = taskID \<and> t_lease_owner r = Some leaseOwner \<and> t_status r = TaskStatusRunning)
                     (\<lambda>r. r\<lparr>t_lease_expires_at := Some (nowPlus e defaultLeaseDuration),
                            t_policy_version := Some policyVersion, t_updated_at := CURRENT_TIMESTAMP e\<rparr>))))
                (\<lambda>_. retS (Commit ())))))"

definition HeartbeatLease :: "env \<Rightarrow> string \<Rightarrow> string \<Rightarrow> 'x store_scheme \<Rightarrow> (err + bool) \<times> 'x store_scheme" where
  "HeartbeatLease e taskID leaseOwner =
    (if leaseOwner = '''' then retS False
     else let P = (\<lambda>r. t_id r = taskID \<and> t_lease_owner r = Some leaseOwner \<and>
                       t_status r \<in> {TaskStatusClaimed, TaskStatusRunning})
       in bindS (wrapS ''heartbeat lease'' (execCount (taskCount P) (updTasks P
            (\<lambda>r. r\<lparr>t_lease_expires_at := Some (nowPlus e defaultLeaseDuration), t_updated_at := CURRENT_TIMESTAMP e\<rparr>))))
          (\<lambda>n. retS (n = 1)))"

definition clearLease :: "env \<Rightarrow> task_row \<Rightarrow> task_row" where
  "clearLease e r = r\<lparr>t_lease_owner := None, t_lease_expires_at := None, t_updated_at := CURRENT_TIMESTAMP e\<rparr>"

definition leaseExpired :: "env \<Rightarrow> task_row \<Rightarrow> bool" where
  "leaseExpired e r = (t_status r \<in> {TaskStatusClaimed, TaskStatusRunning} \<and>
     (case t_lease_expires_at r of None \<Rightarrow> False | Some x \<Rightarrow> x \<le> CURRENT_TIMESTAMP e))"

definition requeueOne :: "env \<Rightarrow> string \<Rightarrow> 'x store_scheme \<Rightarrow> (err + bool) \<times> 'x store_scheme" where
  "requeueOne e taskID =
    bindS (wrapS ''requeue expired transition'' (transitionTaskTx e taskID [TaskStatusClaimed, TaskStatusRunning]
             TaskStatusQueued ''task.lease_expired_requeued'' ''{\"reason\":\"lease_expired\"}'' None None))
    (\<lambda>ok. if \<not> ok then retS False
       else bindS (wrapS ''clear lease after requeue'' (execS (updTasks (taskAt taskID TaskStatusQueued) (clearLease e))))
              (\<lambda>_. retS True))"

definition RequeueExpiredLeases :: "env \<Rightarrow> 'x store_scheme \<Rightarrow> (err + nat) \<times> 'x store_scheme" where
  "RequeueExpiredLeases e =
    with_tx (ErrWrap ''begin requeue expired leases tx'') (\<lambda>_. ErrWrap ''commit requeue expired leases tx'')
     (bindS (wrapS ''query expired leases'' (queryS (\<lambda>s. map t_id (filter (leaseExpired e) (tasks s)))))
      (\<lambda>ids. bindS (countEachS (requeueOne e) ids 0) (\<lambda>reclaimed. retS (Commit reclaimed))))"

text \<open>\<open>cutoff\<close> is \<open>now - ageThreshold\<close>; the threshold is a duration in nanoseconds.\<close>

definition agingRow :: "env \<Rightarrow> nat \<Rightarrow> int \<Rightarrow> task_row \<Rightarrow> bool" where
  "agingRow e ageThreshold maxPriority r = (t_status r = TaskStatusQueued \<and>
     t_available_at r \<le> CURRENT_TIMESTAMP e \<and> t_updated_at r < GoTs (now e - ageThreshold) \<and>
     t_priority r < maxPriority)"

definition AgeQueuedPriorities :: "env \<Rightarrow> nat \<Rightarrow> int \<Rightarrow> 'x store_scheme \<Rightarrow> (err + nat) \<times> 'x store_scheme" where
  "AgeQueuedPriorities e ageThreshold maxPriority =
    wrapS ''age queued priorities'' (execCount (taskCount (agingRow e ageThreshold maxPriority))
      (updTasks (agingRow e ageThreshold maxPriority)
        (\<lambda>r. r\<lparr>t_priority := min (t_priority r + 1) maxPriority, t_updated_at := CURRENT_TIMESTAMP e\<rparr>)))"

section \<open>Reading tasks and recording metrics\<close>

definition GetTask :: "string \<Rightarrow> 'x store_scheme \<Rightarrow> (err + Task) \<times> 'x store_scheme" where
  "GetTask taskID = queryRow (\<lambda>s. map_option scanTask (findTask taskID s))"

definition IsCancelRequested :: "string \<Rightarrow> 'x store_scheme \<Rightarrow> (err + bool) \<times> 'x store_scheme" where
  "IsCancelRequested taskID =
    bindS (queryRow (\<lambda>s. map_option t_cancel_requested (findTask taskID s))) (\<lambda>flag. retS (flag = 1))"

text \<open>\<open>if s.bus != nil\<close>: read the task and, when that works, publish an event about it.\<close>

definition publishTask :: "string \<Rightarrow> string \<Rightarrow> (Task \<Rightarrow> payload) \<Rightarrow> 'x store_scheme \<Rightarrow> (err + unit) \<times> 'x store_scheme" where
  "publishTask taskID topic mk s =
    (case bus s of None \<Rightarrow> (Inr (), s)
     | Some _ \<Rightarrow> (case GetTask taskID s of
          (Inl _, s') \<Rightarrow> (Inr (), s')
        | (Inr task, s') \<Rightarrow> publishS topic (mk task) s'))"

definition metricsOf :: "env \<Rightarrow> task_row \<Rightarrow> metrics_row" where
  "metricsOf e r = \<lparr>tm_task_id = t_id r, tm_agent_id = t_agent_id r, tm_session_id = t_session_id r,
     tm_parent_task_id = t_parent_task_id r, tm_created_at = t_created_at r, tm_started_at = None,
     tm_completed_at = CURRENT_TIMESTAMP e, tm_duration_ms = None, tm_status = t_status r, tm_prompt_tokens = t_prompt_tokens r,
     tm_completion_tokens = t_completion_tokens r, tm_total_tokens = t_total_tokens r,
     tm_cost = t_estimated_cost_usd r, tm_error_message = None\<rparr>"

text \<open>\<open>INSERT INTO task_metrics ... SELECT ... FROM tasks WHERE id = ? ON CONFLICT(task_id) DO NOTHING\<close>.\<close>

definition insertMetrics :: "env \<Rightarrow> string \<Rightarrow> 'x store_scheme \<Rightarrow> 'x store_scheme" where
  "insertMetrics e taskID s =
    (case findTask taskID s of None \<Rightarrow> s
     | Some r \<Rightarrow> if \<exists>m\<in>set (task_metrics s). tm_task_id m = taskID then s
                 else s\<lparr>task_metrics := task_metrics s @ [metricsOf e r]\<rparr>)"

definition RecordTaskMetrics :: "env \<Rightarrow> string \<Rightarrow> 'x store_scheme \<Rightarrow> (err + unit) \<times> 'x store_scheme" where
  "RecordTaskMetrics e taskID s0 =
    (let (q, s1) = queryRow (findTask taskID) s0 in
     bindS (wrapS (''record task metrics '' @ taskID) (execS (insertMetrics e taskID)))
      (\<lambda>_. case q of
         Inl _ \<Rightarrow> retS ()
       | Inr r \<Rightarrow> if t_session_id r = '''' then retS ()
                  else publishS ''task.metrics'' (PTaskMetrics taskID (t_prompt_tokens r)
                         (t_completion_tokens r) (t_total_tokens r) (t_estimated_cost_usd r))) s1)"

section \<open>Finishing a task\<close>

definition CompleteTask :: "env \<Rightarrow> string \<Rightarrow> string \<Rightarrow> 'x store_scheme \<Rightarrow> (err + unit) \<times> 'x store_scheme" where
  "CompleteTask e taskID result =
    bindS (with_tx (ErrWrap ''begin complete task tx'') (\<lambda>_. ErrWrap ''commit complete task tx'')
      (bindS (wrapS ''complete task transition'' (transitionTaskTx e taskID [TaskStatusRunning] TaskStatusSucceeded
                ''task.succeeded'' ''{\"reason\":\"processor_success\"}'' (Some result) None))
       (\<lambda>ok. if \<not> ok then failS ErrNoRows
          else bindS (wrapS ''clear lease on complete'' (execS (updTasks (taskAt taskID TaskStatusSucceeded)
                   (\<lambda>r. (clearLease e r)\<lparr>t_error := None\<rparr>))))
                 (\<lambda>_. retS (Commit ())))))
     (\<lambda>_. bindS (publishTask taskID ''task.completed'' (\<lambda>task. PMap [(''task_id'', VStr taskID),
                   (''session_id'', VStr (TSessionID task)), (''status'', VStatus TaskStatusSucceeded)]))
     (\<lambda>_. ignoreS (RecordTaskMetrics e taskID)))"

definition FailTask :: "env \<Rightarrow> string \<Rightarrow> string \<Rightarrow> 'x store_scheme \<Rightarrow> (err + unit) \<times> 'x store_scheme" where
  "FailTask e taskID errMsg =
    bindS (with_tx (ErrWrap ''begin fail task tx'') (\<lambda>_. ErrWrap ''commit fail task tx'')
      (bindS (wrapS ''fail task transition'' (transitionTaskTx e taskID
                [TaskStatusQueued, TaskStatusClaimed, TaskStatusRunning, TaskStatusRetryWait] TaskStatusFailed
                ''task.failed'' (''{\"reason\":\"processor_error\",\"error\":'' @ quoteGo errMsg @ ''}'')
                None (Some errMsg)))
       (\<lambda>ok. if \<not> ok then failS ErrNoRows
          else bindS (wrapS ''clear lease on fail'' (execS (updTasks (taskAt taskID TaskStatusFailed) (clearLease e))))
                 (\<lambda>_. retS (Commit ())))))
     (\<lambda>_. bindS (publishTask taskID ''task.failed'' (\<lambda>task. PMap [(''task_id'', VStr taskID),
                   (''session_id'', VStr (TSessionID task)), (''error'', VStr errMsg)]))
     (\<lambda>_. ignoreS (RecordTaskMetrics e taskID)))"

datatype FailureOutcome = FailureOutcomeRetried | FailureOutcomeDeadLetter

record FailureDecision =
  Outcome :: FailureOutcome
  FAttempt :: int
  FMaxAttempts :: int
  BackoffUntil :: "ts option"
  ReasonCode :: string
  ErrorFingerprint :: string
  FPoisonCount :: int

text \<open>The columns both branches of \<open>HandleTaskFailure\<close> write.\<close>

definition failureMeta :: "env \<Rightarrow> FailureDecision \<Rightarrow> task_row \<Rightarrow> task_row" where
  "failureMeta e d r =
    (clearLease e r)\<lparr>t_attempt := FAttempt d, t_max_attempts := FMaxAttempts d,
      t_last_error_code := Some (ReasonCode d), t_last_error_fingerprint := Some (ErrorFingerprint d),
      t_poison_count := FPoisonCount d\<rparr>"

definition deadLetterTx :: "env \<Rightarrow> string \<Rightarrow> string \<Rightarrow> FailureDecision \<Rightarrow>
    'x store_scheme \<Rightarrow> (err + FailureDecision tx_end) \<times> 'x store_scheme" where
  "deadLetterTx e taskID errMsg d =
    bindS (wrapS ''transition to failed'' (transitionTaskTx e taskID [TaskStatusRunning] TaskStatusFailed ''task.failed''
             (''{\"reason\":\"processor_error\",\"reason_code\":'' @ quoteGo (ReasonCode d) @ '',\"attempt\":'' @
              itoa (FAttempt d) @ '',\"max_attempts\":'' @ itoa (FMaxAttempts d) @ ''}'') None (Some errMsg)))
    (\<lambda>ok. if \<not> ok then failS ErrNoRows
      else bindS (wrapS ''update failed metadata'' (execS (updTasks (taskAt taskID TaskStatusFailed) (failureMeta e d))))
      (\<lambda>_. bindS (wrapS ''transition to dead_letter'' (transitionTaskTx e taskID [TaskStatusFailed] TaskStatusDeadLetter
             ''task.dead_letter''
             (''{\"reason\":\"terminal_failure\",\"reason_code\":'' @ quoteGo (ReasonCode d) @ ''}'') None None))
      (\<lambda>ok. if \<not> ok then failS ErrNoRows
        else bindS (wrapS ''clear lease dead_letter'' (execS (updTasks (taskAt taskID TaskStatusDeadLetter) (clearLease e))))
          (\<lambda>_. retS (Commit (d\<lparr>Outcome := FailureOutcomeDeadLetter\<rparr>))))))"

definition retryTx :: "env \<Rightarrow> string \<Rightarrow> string \<Rightarrow> FailureDecision \<Rightarrow>
    'x store_scheme \<Rightarrow> (err + FailureDecision tx_end) \<times> 'x store_scheme" where
  "retryTx e taskID errMsg d =
    (let delay = retryDelay taskID (FAttempt d); availableAt = nowPlus e delay in
    bindS (wrapS ''transition to retry_wait'' (transitionTaskTx e taskID [TaskStatusRunning] TaskStatusRetryWait
             ''task.retry_wait''
             (''{\"reason\":\"retry_scheduled\",\"reason_code\":'' @ quoteGo (ReasonCode d) @ '',\"attempt\":'' @
              itoa (FAttempt d) @ '',\"max_attempts\":'' @ itoa (FMaxAttempts d) @ '',\"delay_ms\":'' @
              itoa (int (delay div 10^6)) @ ''}'') None (Some errMsg)))
    (\<lambda>ok. if \<not> ok then failS ErrNoRows
      else bindS (wrapS ''update retry metadata'' (execS (updTasks (taskAt taskID TaskStatusRetryWait)
             (\<lambda>r. (failureMeta e d r)\<lparr>t_available_at := availableAt\<rparr>))))
      (\<lambda>_. bindS (wrapS ''transition to queued after retry wait'' (transitionTaskTx e taskID [TaskStatusRetryWait]
             TaskStatusQueued ''task.requeued''
             (''{\"reason\":\"ready_for_retry\",\"reason_code\":'' @ quoteGo (ReasonCode d) @ ''}'') None None))
      (\<lambda>ok. if \<not> ok then failS ErrNoRows
        else retS (Commit (d\<lparr>Outcome := FailureOutcomeRetried, BackoffUntil := Some availableAt\<rparr>))))))"

text \<open>The decision taken from the row as it is before the failure.\<close>

definition failureDecision :: "string \<Rightarrow> task_row \<Rightarrow> FailureDecision" where
  "failureDecision errMsg r =
    (let maxAttempts = (if t_max_attempts r \<le> 0 then defaultMaxAttempts else t_max_attempts r);
         nextAttempt = t_attempt r + 1;
         fingerprint = errorFingerprint errMsg;
         lastFingerprint = coalesce (t_last_error_fingerprint r) '''';
         nextPoison = (if lastFingerprint \<noteq> '''' \<and> lastFingerprint = fingerprint then t_poison_count r + 1 else 1);
         reasonCode = (if nextAttempt \<ge> maxAttempts then ReasonDeadLetterMaxAttempts
                       else if nextPoison \<ge> poisonThreshold then ReasonDeadLetterPoisonPill
                       else ReasonRetryProcessorError)
     in \<lparr>Outcome = (if nextPoison \<ge> poisonThreshold \<or> nextAttempt \<ge> maxAttempts
                    then FailureOutcomeDeadLetter else FailureOutcomeRetried),
         FAttempt = nextAttempt, FMaxAttempts = maxAttempts, BackoffUntil = None, ReasonCode = reasonCode,
         ErrorFingerprint = fingerprint, FPoisonCount = nextPoison\<rparr>)"

definition HandleTaskFailure :: "env \<Rightarrow> string \<Rightarrow> string \<Rightarrow> 'x store_scheme \<Rightarrow> (err + FailureDecision) \<times> 'x store_scheme" where
  "HandleTaskFailure e taskID errMsg =
    with_tx (ErrWrap ''begin handle failure tx'')
      (\<lambda>d. case Outcome d of FailureOutcomeDeadLetter \<Rightarrow> ErrWrap ''commit dead_letter tx''
           | FailureOutcomeRetried \<Rightarrow> ErrWrap ''commit retry tx'')
     (bindS (wrapS ''select task for failure handling'' (noRowsAsNone (queryRow (findTask taskID))))
      (\<lambda>row. case row of None \<Rightarrow> failS ErrNoRows
       | Some r \<Rightarrow>
          if t_status r \<noteq> TaskStatusRunning then failS ErrNoRows
          else let d = failureDecision errMsg r in
            (case Outcome d of FailureOutcomeDeadLetter \<Rightarrow> deadLetterTx e taskID errMsg d
             | FailureOutcomeRetried \<Rightarrow> retryTx e taskID errMsg d)))"

section \<open>Cancelling and recovering\<close>

definition RequestCancel :: "env \<Rightarrow> string \<Rightarrow> 'x store_scheme \<Rightarrow> (err + bool) \<times> 'x store_scheme" where
  "RequestCancel e taskID =
    (let P = (\<lambda>r. t_id r = taskID \<and> t_status r \<in> {TaskStatusClaimed, TaskStatusRunning, TaskStatusRetryWait})
     in bindS (wrapS ''request cancel'' (execCount (taskCount P) (updTasks P
          (\<lambda>r. r\<lparr>t_cancel_requested := 1, t_updated_at := CURRENT_TIMESTAMP e\<rparr>))))
        (\<lambda>n. retS (n = 1)))"

definition AbortTask :: "env \<Rightarrow> string \<Rightarrow> 'x store_scheme \<Rightarrow> (err + bool) \<times> 'x store_scheme" where
  "AbortTask e taskID =
    bindS (ignoreS (RequestCancel e taskID))
    (\<lambda>_. bindS (with_tx (ErrWrap ''begin abort task tx'') (\<lambda>_. ErrWrap ''commit abort task tx'')
      (bindS (wrapS ''abort task transition'' (transitionTaskTx e taskID
                [TaskStatusQueued, TaskStatusClaimed, TaskStatusRunning, TaskStatusRetryWait] TaskStatusCanceled
                ''task.canceled'' ''{\"reason\":\"abort_request\"}'' None (Some ''aborted'')))
       (\<lambda>ok. if \<not> ok then retS (Abandon False)
          else bindS (wrapS ''clear lease on cancel'' (execS (updTasks (taskAt taskID TaskStatusCanceled)
                   (\<lambda>r. (clearLease e r)\<lparr>t_last_error_code := Some ReasonAborted\<rparr>))))
                 (\<lambda>_. retS (Commit True)))))
    (\<lambda>ok. if \<not> ok then retS False
       else bindS (publishTask taskID ''task.canceled'' (\<lambda>task. PMap [(''task_id'', VStr taskID),
                     (''session_id'', VStr (TSessionID task)), (''reason'', VStr ''abort_request'')]))
              (\<lambda>_. retS True)))"

text \<open>
  \<open>RecoverRunningTasks\<close>. The loop scans \<open>updated_at\<close> into a Go string and binds that string in the
  \<open>DELETE\<close>; which text the driver puts there is a parameter, \<open>scanText\<close>.
\<close>

definition recoverOne :: "env \<Rightarrow> (ts \<Rightarrow> ts) \<Rightarrow> task_row \<Rightarrow> 'x store_scheme \<Rightarrow> (err + bool) \<times> 'x store_scheme" where
  "recoverOne e scanText t =
    bindS (wrapS ''recover task transition'' (transitionTaskTx e (t_id t) [TaskStatusClaimed, TaskStatusRunning]
             TaskStatusQueued ''task.recovered'' ''{\"reason\":\"startup_recovery\"}'' None None))
    (\<lambda>ok. if \<not> ok then retS False
       else bindS (wrapS ''clear lease on recovery requeue''
                    (execS (updTasks (taskAt (t_id t) TaskStatusQueued) (clearLease e))))
         (\<lambda>_. bindS (if t_status t = TaskStatusRunning
                then wrapS ''clean orphaned messages'' (execS (\<lambda>s. s\<lparr>messages := delWhere
                       (\<lambda>m. m_session_id m = t_session_id t \<and> m_role m = ''assistant'' \<and>
                            scanText (t_updated_at t) \<le> m_created_at m) (messages s)\<rparr>))
                else retS ())
         (\<lambda>_. retS True)))"

definition RecoverRunningTasks :: "env \<Rightarrow> (ts \<Rightarrow> ts) \<Rightarrow> 'x store_scheme \<Rightarrow> (err + nat) \<times> 'x store_scheme" where
  "RecoverRunningTasks e scanText =
    with_tx (ErrWrap ''begin recover tx'') (\<lambda>_. ErrWrap ''commit recover tx'')
     (bindS (wrapS ''query recoverable tasks'' (queryS (\<lambda>s.
              filter (\<lambda>r. t_status r \<in> {TaskStatusRunning, TaskStatusClaimed}) (tasks s))))
      (\<lambda>ts. bindS (countEachS (recoverOne e scanText) ts 0) (\<lambda>recovered. retS (Commit recovered))))"

end
