(* ===== verification/Task_Queries.thy ===== *)
theory Task_Queries
  imports Task_Store
begin

text \<open>
  The rest of \<open>tasks.go\<close>: the task event feed, the counters and listings, the idempotency ledger of
  tool calls, the key-value table, tool and sub tasks, token accounting and the context shared by a
  task tree. A \<open>LIMIT\<close> takes a prefix of the ordered selection; \<open>ORDER BY\<close> is a stable sort of the
  rows in insertion order.
\<close>

section \<open>Task events\<close>

definition TotalEventCount :: "'x store_scheme \<Rightarrow> (err + nat) \<times> 'x store_scheme" where
  "TotalEventCount = wrapS ''total event count'' (queryS (\<lambda>s. length (task_events s)))"

definition sessionEventIDs :: "string \<Rightarrow> 'x store_scheme \<Rightarrow> nat list" where
  "sessionEventIDs sessionID s = map e_id (filter (\<lambda>x. e_session_id x = sessionID) (task_events s))"

definition TaskEventBounds :: "string \<Rightarrow> 'x store_scheme \<Rightarrow> (err + nat \<times> nat) \<times> 'x store_scheme" where
  "TaskEventBounds sessionID = wrapS ''task event bounds'' (queryS (\<lambda>s.
     case sessionEventIDs sessionID s of [] \<Rightarrow> (0, 0)
     | i # is \<Rightarrow> (foldr min is i, foldr max is i)))"

record TaskEvent =
  EventID :: nat
  ETaskID :: string
  ESessionID :: string
  EventType :: string
  ERunID :: string
  ETraceID :: string
  StateFrom :: "TaskStatus option"
  StateTo :: TaskStatus
  EPayload :: string
  ECreatedAt :: ts

definition scanEvent :: "event_row \<Rightarrow> TaskEvent" where
  "scanEvent x = \<lparr>EventID = e_id x, ETaskID = e_task_id x, ESessionID = e_session_id x, EventType = e_type x,
     ERunID = coalesce (e_run_id x) '''', ETraceID = coalesce (e_trace_id x) (e_session_id x),
     StateFrom = e_state_from x, StateTo = e_state_to x, EPayload = e_payload x, ECreatedAt = e_created_at x\<rparr>"

definition clampLimit :: "int \<Rightarrow> int \<Rightarrow> int \<Rightarrow> nat" where
  "clampLimit l hi dflt = nat (if l \<le> 0 \<or> l > hi then dflt else l)"

definition ListTaskEventsFrom :: "string \<Rightarrow> nat \<Rightarrow> int \<Rightarrow> 'x store_scheme \<Rightarrow> (err + TaskEvent list) \<times> 'x store_scheme" where
  "ListTaskEventsFrom sessionID fromEventID limit =
    wrapS ''list task events'' (queryS (\<lambda>s. map scanEvent (take (clampLimit limit 1000 1000)
      (sort_key e_id (filter (\<lambda>x. e_session_id x = sessionID \<and> e_id x > fromEventID) (task_events s))))))"

section \<open>Counters\<close>

definition statusCount :: "TaskStatus set \<Rightarrow> 'x store_scheme \<Rightarrow> nat" where
  "statusCount S s = taskCount (\<lambda>r. t_status r \<in> S) s"

definition TaskCounts :: "'x store_scheme \<Rightarrow> (err + nat \<times> nat) \<times> 'x store_scheme" where
  "TaskCounts = bindS (wrapS ''count pending'' (queryS (statusCount {TaskStatusQueued})))
     (\<lambda>pending. bindS (wrapS ''count running'' (queryS (statusCount {TaskStatusClaimed, TaskStatusRunning})))
     (\<lambda>running. retS (pending, running)))"

definition QueueDepth :: "'x store_scheme \<Rightarrow> (err + nat) \<times> 'x store_scheme" where
  "QueueDepth = wrapS ''queue depth'' (queryS (statusCount {TaskStatusQueued}))"

definition QueueDepthForAgent :: "string \<Rightarrow> 'x store_scheme \<Rightarrow> (err + nat) \<times> 'x store_scheme" where
  "QueueDepthForAgent agentID = wrapS ''queue depth for agent''
     (queryS (taskCount (\<lambda>r. t_status r = TaskStatusQueued \<and> t_agent_id r = agentID)))"

record MetricsCountsRec =
  Pending :: nat
  Running :: nat
  RetryWaiting :: nat
  DeadLetters :: nat
  LeaseExpiries :: nat

definition MetricsCounts :: "env \<Rightarrow> 'x store_scheme \<Rightarrow> (err + MetricsCountsRec) \<times> 'x store_scheme" where
  "MetricsCounts e = wrapS ''metrics counts'' (queryS (\<lambda>s.
     \<lparr>Pending = statusCount {TaskStatusQueued} s,
      Running = statusCount {TaskStatusClaimed, TaskStatusRunning} s,
      RetryWaiting = statusCount {TaskStatusRetryWait} s,
      DeadLetters = statusCount {TaskStatusDeadLetter} s,
      LeaseExpiries = taskCount (leaseExpired e) s\<rparr>))"

section \<open>Tool calls: the idempotency ledger\<close>

definition findDedup :: "string \<Rightarrow> 'x store_scheme \<Rightarrow> dedup_row option" where
  "findDedup key s = firstWhere (\<lambda>d. d_key d = key) (tool_call_dedup s)"

definition CheckToolCallDedup :: "string \<Rightarrow> string \<Rightarrow> 'x store_scheme \<Rightarrow> (err + bool) \<times> 'x store_scheme" where
  "CheckToolCallDedup idempotencyKey requestHash =
    bindS (wrapS ''check dedupe row'' (noRowsAsNone (queryRow (findDedup idempotencyKey))))
    (\<lambda>row. case row of None \<Rightarrow> retS False
       | Some d \<Rightarrow> retS (d_status d = ''SUCCEEDED'' \<and> d_request_hash d = requestHash))"

definition dedupRow :: "env \<Rightarrow> string \<Rightarrow> string \<Rightarrow> string \<Rightarrow> string \<Rightarrow> dedup_row" where
  "dedupRow e key toolName requestHash resultHash = \<lparr>d_key = key, d_tool_name = toolName,
     d_request_hash = requestHash, d_status = ''SUCCEEDED'', d_result_hash = Some resultHash,
     d_created_at = CURRENT_TIMESTAMP e, d_updated_at = CURRENT_TIMESTAMP e\<rparr>"

definition RegisterSuccessfulToolCall :: "env \<Rightarrow> string \<Rightarrow> string \<Rightarrow> string \<Rightarrow> string \<Rightarrow>
    'x store_scheme \<Rightarrow> (err + bool) \<times> 'x store_scheme" where
  "RegisterSuccessfulToolCall e idempotencyKey toolName requestHash resultHash =
    (if trimSpace idempotencyKey = '''' then failS (ErrMsg ''idempotency key required'')
     else if trimSpace toolName = '''' then failS (ErrMsg ''tool name required'')
     else with_tx (ErrWrap ''begin dedupe tx'')
       (\<lambda>deduped. ErrWrap (if deduped then ''commit dedupe read tx'' else ''commit dedupe tx''))
       (bindS (wrapS ''select dedupe row'' (noRowsAsNone (queryRow (findDedup idempotencyKey))))
        (\<lambda>row. case row of
           Some d \<Rightarrow>
             if d_status d = ''SUCCEEDED'' \<and> d_request_hash d = requestHash then retS (Commit True)
             else failS (ErrMsg (''idempotency key conflict for '' @ quoteGo idempotencyKey))
         | None \<Rightarrow>
             bindS (wrapS ''insert dedupe row'' (execCheck
                 (\<lambda>s. case findDedup idempotencyKey s of None \<Rightarrow> None
                      | Some _ \<Rightarrow> Some (ErrMsg ''UNIQUE constraint failed: tool_call_dedup.idempotency_key''))
                 (\<lambda>s. s\<lparr>tool_call_dedup := tool_call_dedup s @
                         [dedupRow e idempotencyKey toolName requestHash resultHash]\<rparr>)))
             (\<lambda>_. retS (Commit False)))))"

section \<open>Key-value table\<close>

definition KVSet :: "env \<Rightarrow> string \<Rightarrow> string \<Rightarrow> 'x store_scheme \<Rightarrow> (err + unit) \<times> 'x store_scheme" where
  "KVSet e key val = wrapS ''kv set'' (execS (\<lambda>s.
     if \<exists>k\<in>set (kv_store s). kv_key k = key
     then s\<lparr>kv_store := updWhere (\<lambda>k. kv_key k = key)
            (\<lambda>k. k\<lparr>kv_value := Some val, kv_updated_at := CURRENT_TIMESTAMP e\<rparr>) (kv_store s)\<rparr>
     else s\<lparr>kv_store := kv_store s @ [\<lparr>kv_key = key, kv_value = Some val, kv_updated_at = CURRENT_TIMESTAMP e\<rparr>]\<rparr>))"

text \<open>Scanning a NULL value into a Go string is an error; \<open>KVSet\<close> never writes one.\<close>

definition KVGet :: "string \<Rightarrow> 'x store_scheme \<Rightarrow> (err + string) \<times> 'x store_scheme" where
  "KVGet key = bindS (wrapS ''kv_get'' (noRowsAsNone (queryRow (\<lambda>s. firstWhere (\<lambda>k. kv_key k = key) (kv_store s)))))
     (\<lambda>row. case row of None \<Rightarrow> retS ''''
        | Some k \<Rightarrow> (case kv_value k of Some v \<Rightarrow> retS v
            | None \<Rightarrow> failS (ErrMsg ''kv_get: converting NULL to string is unsupported'')))"

section \<open>Tool tasks and subtasks\<close>

text \<open>\<open>encoding/json\<close> on an ASCII string, with the HTML escapes of \<open>json.Marshal\<close>.\<close>

definition jsonByte :: "char \<Rightarrow> string" where
  "jsonByte c = (let n = (of_char c :: nat) in
     if n = 34 then [CHR 0x5C, CHR 0x22]
     else if n = 92 then [CHR 0x5C, CHR 0x5C]
     else if n = 8 then [CHR 0x5C, CHR ''b'']
     else if n = 12 then [CHR 0x5C, CHR ''f'']
     else if n = 10 then [CHR 0x5C, CHR ''n'']
     else if n = 13 then [CHR 0x5C, CHR ''r'']
     else if n = 9 then [CHR 0x5C, CHR ''t'']
     else if n < 32 \<or> n = 60 \<or> n = 62 \<or> n = 38
       then [CHR 0x5C, CHR ''u'', CHR ''0'', CHR ''0'', digitChar (n div 16), digitChar (n mod 16)]
     else [c])"

definition jsonString :: "string \<Rightarrow> string" where
  "jsonString s = CHR 0x22 # concat (map jsonByte s) @ [CHR 0x22]"

definition toolPayloadJSON :: "string \<Rightarrow> string \<Rightarrow> string" where
  "toolPayloadJSON tool input = ''{\"kind\":\"TOOL\",\"tool\":'' @ jsonString tool @ '',\"input\":'' @ jsonString input @ ''}''"

definition toolResultJSON :: "string \<Rightarrow> string" where
  "toolResultJSON output = (if output = '''' then ''{}'' else ''{\"output\":'' @ jsonString output @ ''}'')"

definition RecordToolTask :: "env \<Rightarrow> string \<Rightarrow> string \<Rightarrow> string \<Rightarrow> string \<Rightarrow> string \<Rightarrow> err option \<Rightarrow>
    'x store_scheme \<Rightarrow> (err + string) \<times> 'x store_scheme" where
  "RecordToolTask e taskID sessionID toolName input output callErr =
    (let status = (case callErr of None \<Rightarrow> TaskStatusSucceeded | Some _ \<Rightarrow> TaskStatusFailed);
         errMsg = (case callErr of None \<Rightarrow> '''' | Some er \<Rightarrow> errString er)
     in bindS (wrapS ''record tool task'' (execCheck (taskInsertCheck taskID sessionID)
          (\<lambda>s. s\<lparr>tasks := tasks s @ [(queuedRow e taskID sessionID ''default'' (toolPayloadJSON toolName input))
             \<lparr>t_type := ''tool'', t_status := status, t_result := Some (toolResultJSON output),
              t_error := Some errMsg\<rparr>]\<rparr>)))
        (\<lambda>_. retS taskID))"

definition CreateSubtask :: "env \<Rightarrow> string \<Rightarrow> string \<Rightarrow> string \<Rightarrow> string \<Rightarrow> int \<Rightarrow>
    'x store_scheme \<Rightarrow> (err + string) \<times> 'x store_scheme" where
  "CreateSubtask e taskID parentTaskID sessionID payload priority =
    bindS (wrapS ''create subtask'' (execCheck (taskInsertCheck taskID sessionID)
      (\<lambda>s. s\<lparr>tasks := tasks s @ [(queuedRow e taskID sessionID ''default'' payload)
         \<lparr>t_type := ''subtask'', t_priority := priority, t_parent_task_id := Some parentTaskID\<rparr>]\<rparr>)))
    (\<lambda>_. retS taskID)"

definition GetSubtasks :: "string \<Rightarrow> 'x store_scheme \<Rightarrow> (err + Task list) \<times> 'x store_scheme" where
  "GetSubtasks parentTaskID = wrapS ''get subtasks'' (queryS (\<lambda>s. map scanTask
     (sort_key t_created_at (filter (\<lambda>r. t_parent_task_id r = Some parentTaskID) (tasks s)))))"

definition ListTasksBySession :: "string \<Rightarrow> 'x store_scheme \<Rightarrow> (err + Task list) \<times> 'x store_scheme" where
  "ListTasksBySession sessionID = wrapS ''list tasks by session'' (queryS (\<lambda>s. map scanTask
     (sort_key (\<lambda>r. (t_created_at r, t_id r)) (filter (\<lambda>r. t_session_id r = sessionID) (tasks s)))))"

text \<open>The filter is the text of a status, empty for every task; \<open>ORDER BY created_at DESC\<close>.\<close>

definition statusFiltered :: "string \<Rightarrow> 'x store_scheme \<Rightarrow> task_row list" where
  "statusFiltered statusFilter s = filter (\<lambda>r. statusFilter = '''' \<or> statusString (t_status r) = statusFilter) (tasks s)"

definition newestFirst :: "task_row list \<Rightarrow> task_row list" where
  "newestFirst rs = rev (sort_key t_created_at (rev rs))"

definition ListTasksPaginated :: "string \<Rightarrow> int \<Rightarrow> int \<Rightarrow> 'x store_scheme \<Rightarrow> (err + Task list \<times> nat) \<times> 'x store_scheme" where
  "ListTasksPaginated statusFilter limit offset0 =
    (let n = clampLimit limit 100 20; offset = nat (if offset0 < 0 then 0 else offset0) in
     bindS (wrapS ''count tasks'' (queryS (\<lambda>s. length (statusFiltered statusFilter s))))
     (\<lambda>totalCount. bindS (wrapS ''list tasks paginated'' (queryS (\<lambda>s.
          map scanTask (take n (drop offset (newestFirst (statusFiltered statusFilter s)))))))
     (\<lambda>out. retS (out, totalCount))))"

section \<open>Tokens, trees and shared context\<close>

definition UpdateTaskTokens :: "string \<Rightarrow> int \<Rightarrow> int \<Rightarrow> 'x store_scheme \<Rightarrow> (err + unit) \<times> 'x store_scheme" where
  "UpdateTaskTokens taskID promptTokens completionTokens =
    bindS (wrapS (''update task tokens '' @ taskID) (execS (updTasks (\<lambda>r. t_id r = taskID)
      (\<lambda>r. r\<lparr>t_prompt_tokens := promptTokens, t_completion_tokens := completionTokens,
             t_total_tokens := promptTokens + completionTokens, t_estimated_cost_usd := 0\<rparr>))))
    (\<lambda>_. publishS ''task.tokens'' (PTaskTokens taskID promptTokens completionTokens))"

definition SetParentTask :: "string \<Rightarrow> string \<Rightarrow> 'x store_scheme \<Rightarrow> (err + unit) \<times> 'x store_scheme" where
  "SetParentTask childTaskID parentTaskID = wrapS ''set parent task'' (execS (updTasks (\<lambda>r. t_id r = childTaskID)
     (\<lambda>r. r\<lparr>t_parent_task_id := Some parentTaskID\<rparr>)))"

definition ctxRow :: "string \<Rightarrow> string \<Rightarrow> context_row \<Rightarrow> bool" where
  "ctxRow taskRootID key c = (tc_root c = taskRootID \<and> tc_key c = key)"

definition SetTaskContext :: "string \<Rightarrow> string \<Rightarrow> string \<Rightarrow> 'x store_scheme \<Rightarrow> (err + unit) \<times> 'x store_scheme" where
  "SetTaskContext taskRootID key value = wrapS (''set task context '' @ taskRootID @ ''/'' @ key) (execCheck
     (\<lambda>s. if hasTask taskRootID s then None else Some fkError)
     (\<lambda>s. if \<exists>c\<in>set (task_context s). ctxRow taskRootID key c
          then s\<lparr>task_context := updWhere (ctxRow taskRootID key) (\<lambda>c. c\<lparr>tc_value := value\<rparr>) (task_context s)\<rparr>
          else s\<lparr>task_context := task_context s @ [\<lparr>tc_root = taskRootID, tc_key = key, tc_value = value\<rparr>]\<rparr>))"

definition GetTaskContext :: "string \<Rightarrow> string \<Rightarrow> 'x store_scheme \<Rightarrow> (err + string) \<times> 'x store_scheme" where
  "GetTaskContext taskRootID key =
    bindS (wrapS (''get task context '' @ taskRootID @ ''/'' @ key)
      (noRowsAsNone (queryRow (\<lambda>s. firstWhere (ctxRow taskRootID key) (task_context s)))))
    (\<lambda>row. case row of None \<Rightarrow> retS '''' | Some c \<Rightarrow> retS (tc_value c))"

text \<open>The Go map built from the rows: a later row of the same key overwrites an earlier one.\<close>

definition GetAllTaskContext :: "string \<Rightarrow> 'x store_scheme \<Rightarrow> (err + (string \<rightharpoonup> string)) \<times> 'x store_scheme" where
  "GetAllTaskContext taskRootID = wrapS (''get all task context '' @ taskRootID) (queryS (\<lambda>s.
     map_of (rev (map (\<lambda>c. (tc_key c, tc_value c)) (filter (\<lambda>c. tc_root c = taskRootID) (task_context s))))))"

section \<open>Recovery measurements, policy versions and sessions\<close>

record RecoveryMetricsRec =
  StaleRunning :: nat
  OldestStaleAge :: int
  RecoveredCount :: nat
  RecoveryDuration :: int

definition inFlight :: "task_row \<Rightarrow> bool" where
  "inFlight r = (t_status r \<in> {TaskStatusClaimed, TaskStatusRunning})"

text \<open>
  \<open>MIN(updated_at)\<close> has no declared type, so the driver returns the text as it is stored;
  \<open>time.Parse\<close> with the layout of \<open>CURRENT_TIMESTAMP\<close> accepts that form only.
\<close>

definition oldestAge :: "env \<Rightarrow> ts option \<Rightarrow> int" where
  "oldestAge e oldest = (case oldest of Some (CurTs n) \<Rightarrow> int (now e) - int n * 10^9 | _ \<Rightarrow> 0)"

definition MeasureRecoveryMetrics :: "env \<Rightarrow> 'x store_scheme \<Rightarrow> (err + RecoveryMetricsRec) \<times> 'x store_scheme" where
  "MeasureRecoveryMetrics e =
    bindS (wrapS ''count stale'' (queryS (taskCount inFlight)))
    (\<lambda>n. bindS (wrapS ''oldest stale'' (queryS (\<lambda>s. map_option t_updated_at (firstBy t_updated_at inFlight (tasks s)))))
    (\<lambda>oldest. retS \<lparr>StaleRunning = n, OldestStaleAge = oldestAge e oldest, RecoveredCount = 0, RecoveryDuration = 0\<rparr>))"

text \<open>\<open>elapsed\<close> is \<open>time.Since(start)\<close>.\<close>

definition RecoverRunningTasksTimed :: "env \<Rightarrow> (ts \<Rightarrow> ts) \<Rightarrow> int \<Rightarrow>
    'x store_scheme \<Rightarrow> (err + RecoveryMetricsRec) \<times> 'x store_scheme" where
  "RecoverRunningTasksTimed e scanText elapsed =
    bindS (RecoverRunningTasks e scanText)
    (\<lambda>recovered. retS \<lparr>StaleRunning = 0, OldestStaleAge = 0, RecoveredCount = recovered, RecoveryDuration = elapsed\<rparr>)"

definition RecordPolicyVersion :: "env \<Rightarrow> string \<Rightarrow> string \<Rightarrow> string \<Rightarrow> 'x store_scheme \<Rightarrow> (err + unit) \<times> 'x store_scheme" where
  "RecordPolicyVersion e policyVersion checksum source = wrapS ''record policy version'' (execS (\<lambda>s.
     if \<exists>p\<in>set (policy_versions s). pv_version p = policyVersion
     then s\<lparr>policy_versions := updWhere (\<lambda>p. pv_version p = policyVersion)
            (\<lambda>p. p\<lparr>pv_loaded_at := CURRENT_TIMESTAMP e, pv_source := Some source\<rparr>) (policy_versions s)\<rparr>
     else s\<lparr>policy_versions := policy_versions s @ [\<lparr>pv_version = policyVersion, pv_checksum = checksum,
            pv_loaded_at = CURRENT_TIMESTAMP e, pv_source = Some source\<rparr>]\<rparr>))"

record SessionRec =
  SID :: string
  SoulHash :: string
  SCreatedAt :: ts

definition ListSessions :: "int \<Rightarrow> 'x store_scheme \<Rightarrow> (err + SessionRec list) \<times> 'x store_scheme" where
  "ListSessions limit = wrapS ''query sessions'' (queryS (\<lambda>s. map
     (\<lambda>x. \<lparr>SID = s_id x, SoulHash = coalesce (s_soul_hash x) '''', SCreatedAt = s_created_at x\<rparr>)
     (take (clampLimit limit 100 20) (rev (sort_key s_created_at (rev (sessions s)))))))"

end
