(* ===== verification/Task_Invariant.thy ===== *)
theory Task_Invariant
  imports Task_Queries
begin

text \<open>
  The invariant of the task tables and its preservation by every operation of the task store, at
  every point where a statement may fail. \<open>transitionTaskTx_InrE\<close> says what a state transition
  does; \<open>store_inv\<close> is the invariant (unique keys, leases held exactly by claimed and running tasks,
  an event log that is the legal history of every task); \<open>evolves\<close> relates two points of an
  execution (the event log only grows, no task is lost, states follow the transition table).
  \<open>task_invariant\<close> is the interface the operations are checked against and is interpreted with
  \<open>good\<close>, the conjunction of the two.
\<close>

section \<open>What a transition does\<close>

text \<open>The event a transition appends.\<close>

definition transitionEvent :: "env \<Rightarrow> string \<Rightarrow> TaskStatus \<Rightarrow> string \<Rightarrow> string \<Rightarrow> task_row \<Rightarrow> nat \<Rightarrow> event_row" where
  "transitionEvent e taskID to eventType payload r n =
    \<lparr>e_id = n, e_task_id = taskID, e_session_id = t_session_id r, e_run_id = nullif (RunID (ctxOf e)),
     e_trace_id = Some (if TraceID (ctxOf e) = ''-'' then t_session_id r else TraceID (ctxOf e)),
     e_type = eventType, e_state_from = Some (t_status r), e_state_to = to,
     e_payload = (if payload = '''' then ''{}'' else payload), e_created_at = CURRENT_TIMESTAMP e\<rparr>"

text \<open>The tables after the row of a task is rewritten by \<open>f\<close> and an event is appended.\<close>

definition changeTask :: "string \<Rightarrow> (task_row \<Rightarrow> task_row) \<Rightarrow> event_row \<Rightarrow> 'x store_scheme \<Rightarrow> 'x store_scheme" where
  "changeTask taskID f ev s =
    s\<lparr>tasks := updWhere (\<lambda>q. t_id q = taskID) f (tasks s), task_events := task_events s @ [ev], ev_seq := e_id ev\<rparr>"

abbreviation ids_unique :: "'x store_scheme \<Rightarrow> bool" where
  "ids_unique s \<equiv> distinct (map t_id (tasks s))"

lemma findTask_Some: "findTask i s = Some r \<Longrightarrow> r \<in> set (tasks s) \<and> t_id r = i"
  unfolding findTask_def by (auto dest: firstWhere_Some)

lemma findTask_faults [simp]: "findTask i (s\<lparr>faults := fs\<rparr>) = findTask i s"
  by (simp add: findTask_def)

lemma findTask_unique: "ids_unique s \<Longrightarrow> r \<in> set (tasks s) \<Longrightarrow> findTask (t_id r) s = Some r"
  unfolding findTask_def by (rule firstWhere_key)

lemma updWhere_taskAt:
  assumes "distinct (map t_id rs)" and "r \<in> set rs" and "t_id r = i" and "t_status r = st"
  shows "updWhere (taskAt i st) f rs = updWhere (\<lambda>q. t_id q = i) f rs"
proof -
  have "taskAt i st q \<longleftrightarrow> t_id q = i" if "q \<in> set rs" for q
    unfolding taskAt_def using distinct_key_unique [OF assms(1,2) that] assms(3,4) by metis
  then show ?thesis unfolding updWhere_def by (intro map_cong) auto
qed

lemma taskCount_taskAt:
  assumes "ids_unique s" and "r \<in> set (tasks s)"
  shows "taskCount (taskAt (t_id r) (t_status r)) s = 1"
  unfolding taskCount_def using assms
  by (rule countWhere_key) (auto simp: taskAt_def)

lemma updTasks_after:
  assumes "\<And>q. t_status (f q) = st" and "\<And>q. t_id (f q) = t_id q"
    and "distinct (map t_id (tasks s))"
  shows "updTasks (taskAt i st) g (changeTask i f ev s) = changeTask i (g \<circ> f) ev s"
  using assms by (auto simp: updTasks_def changeTask_def updWhere_def taskAt_def)

lemma transitionRow_simps [simp]:
  "t_id (transitionRow e to res em r) = t_id r" "t_status (transitionRow e to res em r) = to"
  "t_session_id (transitionRow e to res em r) = t_session_id r"
  "t_lease_owner (transitionRow e to res em r) = t_lease_owner r"
  "t_lease_expires_at (transitionRow e to res em r) = t_lease_expires_at r"
  by (simp_all add: transitionRow_def)

lemma appendTaskEventTx_Inr:
  assumes "appendTaskEventTx e i sid from to ty pl s = (Inr u, s')"
  obtains fs ev where "s' = insertEvent ev (s\<lparr>faults := fs\<rparr>)"
    "ev = \<lparr>e_id = Suc (ev_seq s), e_task_id = i, e_session_id = sid, e_run_id = nullif (RunID (ctxOf e)),
       e_trace_id = Some (if TraceID (ctxOf e) = ''-'' then sid else TraceID (ctxOf e)), e_type = ty,
       e_state_from = from, e_state_to = to, e_payload = (if pl = '''' then ''{}'' else pl),
       e_created_at = CURRENT_TIMESTAMP e\<rparr>"
    "hasTask i s" "hasSession sid s"
proof -
  from assms show thesis
    unfolding appendTaskEventTx_def Let_def wrapS_Inr
    apply (elim execCheck_InrE)
    apply (rule that)
    apply (auto split: if_splits simp: hasTask_def hasSession_def)
    done
qed

lemma transitionTaskTx_InrE:
  assumes "transitionTaskTx e i froms to ty pl res em s = (Inr ok, s')" and "ids_unique s"
  obtains (refused) "\<not> ok" "same_tables s s'"
  | (taken) fs r where "ok" "r \<in> set (tasks s)" "t_id r = i" "t_status r \<in> set froms" "canTransition (t_status r) to"
    "s' = changeTask i (transitionRow e to res em) (transitionEvent e i to ty pl r (Suc (ev_seq s))) s \<lparr>faults := fs\<rparr>"
    "hasSession (t_session_id r) s"
proof -
  from assms(1) obtain row s1 where q: "noRowsAsNone (queryRow (\<lambda>s. map_option (\<lambda>r. (t_status r, t_session_id r)) (findTask i s))) s = (Inr row, s1)"
    and rest: "(case row of None \<Rightarrow> retS False | Some (current, sessionID) \<Rightarrow>
         if current \<notin> set froms then retS False
         else if \<not> canTransition current to then
           failS (ErrMsg (''illegal transition '' @ statusString current @ '' -> '' @ statusString to))
         else bindS (wrapS ''update task transition'' (execCount (taskCount (taskAt i current))
                (updTasks (taskAt i current) (transitionRow e to res em))))
           (\<lambda>affected. if affected \<noteq> 1 then retS False
              else bindS (appendTaskEventTx e i sessionID (Some current) to ty pl) (\<lambda>_. retS True))) s1 = (Inr ok, s')"
    unfolding transitionTaskTx_def bindS_Inr [of "wrapS ''select task for transition'' _"] wrapS_Inr by blast
  from q obtain fs1 where s1: "s1 = s\<lparr>faults := fs1\<rparr>"
    and row: "row = None \<or> row = map_option (\<lambda>r. (t_status r, t_session_id r)) (findTask i s1)"
    by (rule noRows_InrE)
  show thesis
  proof (cases "\<exists>r. findTask i s = Some r \<and> row = Some (t_status r, t_session_id r) \<and>
      t_status r \<in> set froms \<and> canTransition (t_status r) to")
    case False
    with rest row s1 have "\<not> ok \<and> s' = s1"
      by (cases "findTask i s") (auto split: if_splits)
    with s1 show thesis by (intro refused) auto
  next
    case True
    then obtain r where r: "findTask i s = Some r" "row = Some (t_status r, t_session_id r)"
      and g: "t_status r \<in> set froms" "canTransition (t_status r) to" by blast
    have mem: "r \<in> set (tasks s)" "t_id r = i" using findTask_Some [OF r(1)] by auto
    from rest r(2) g obtain n s2 where u: "execCount (taskCount (taskAt i (t_status r)))
                (updTasks (taskAt i (t_status r)) (transitionRow e to res em)) s1 = (Inr n, s2)"
      and a: "(if n \<noteq> 1 then retS False
              else bindS (appendTaskEventTx e i (t_session_id r) (Some (t_status r)) to ty pl) (\<lambda>_. retS True)) s2 = (Inr ok, s')"
      by (auto simp: bindS_Inr)
    from u obtain fs2 where s2: "s2 = updTasks (taskAt i (t_status r)) (transitionRow e to res em) (s1\<lparr>faults := fs2\<rparr>)"
      and n: "n = taskCount (taskAt i (t_status r)) (s1\<lparr>faults := fs2\<rparr>)"
      by (rule execCount_InrE)
    have "n = 1" unfolding n s1 using taskCount_taskAt [OF assms(2) mem(1)] mem(2) by (simp add: taskCount_def)
    with a obtain w where ok: ok and "appendTaskEventTx e i (t_session_id r) (Some (t_status r)) to ty pl s2 = (Inr w, s')"
      by (auto simp: bindS_Inr split: if_splits)
    from this(2) obtain fs3 ev where s3: "s' = insertEvent ev (s2\<lparr>faults := fs3\<rparr>)"
      and ev: "ev = \<lparr>e_id = Suc (ev_seq s2), e_task_id = i, e_session_id = t_session_id r, e_run_id = nullif (RunID (ctxOf e)),
       e_trace_id = Some (if TraceID (ctxOf e) = ''-'' then t_session_id r else TraceID (ctxOf e)), e_type = ty,
       e_state_from = Some (t_status r), e_state_to = to, e_payload = (if pl = '''' then ''{}'' else pl),
       e_created_at = CURRENT_TIMESTAMP e\<rparr>" and hs: "hasSession (t_session_id r) s2"
      by (rule appendTaskEventTx_Inr)
    have up: "updWhere (taskAt i (t_status r)) (transitionRow e to res em) (tasks s) =
       updWhere (\<lambda>q. t_id q = i) (transitionRow e to res em) (tasks s)"
      using assms(2) mem by (intro updWhere_taskAt) auto
    have "ev = transitionEvent e i to ty pl r (Suc (ev_seq s))"
      unfolding ev transitionEvent_def s2 s1 by (simp add: updTasks_def)
    moreover have "s' = changeTask i (transitionRow e to res em) ev s \<lparr>faults := fs3\<rparr>"
      unfolding s3 s2 s1 insertEvent_def updTasks_def changeTask_def using up by simp
    moreover have "hasSession (t_session_id r) s" using hs by (simp add: s2 s1 updTasks_def hasSession_def)
    ultimately show thesis using ok mem g by (intro taken) auto
  qed
qed

section \<open>The invariant of the task tables\<close>

text \<open>A row holds a lease exactly while it is claimed or running.\<close>

definition lease_row_ok :: "task_row \<Rightarrow> bool" where
  "lease_row_ok r \<longleftrightarrow>
    (t_lease_owner r \<noteq> None \<longleftrightarrow> t_status r \<in> {TaskStatusClaimed, TaskStatusRunning}) \<and>
    (t_lease_expires_at r \<noteq> None \<longleftrightarrow> t_status r \<in> {TaskStatusClaimed, TaskStatusRunning})"

text \<open>An event is a creation or a transition the table allows.\<close>

definition legal_event :: "event_row \<Rightarrow> bool" where
  "legal_event x \<longleftrightarrow> (case e_state_from x of None \<Rightarrow> e_state_to x = TaskStatusQueued
     | Some f \<Rightarrow> canTransition f (e_state_to x))"

text \<open>The events of a task: each starts where the one before ended, the last ends at its status.\<close>

definition trail_ok :: "TaskStatus \<Rightarrow> event_row list \<Rightarrow> bool" where
  "trail_ok st xs \<longleftrightarrow> (\<forall>x\<in>set xs. legal_event x) \<and>
     successively (\<lambda>x y. e_state_from y = Some (e_state_to x)) xs \<and> (xs \<noteq> [] \<longrightarrow> e_state_to (last xs) = st)"

definition trail :: "string \<Rightarrow> 'x store_scheme \<Rightarrow> event_row list" where
  "trail i s = filter (\<lambda>x. e_task_id x = i) (task_events s)"

definition events_ok :: "'x store_scheme \<Rightarrow> bool" where
  "events_ok s \<longleftrightarrow> sorted_wrt (<) (map e_id (task_events s)) \<and>
     (\<forall>x\<in>set (task_events s). e_id x \<le> ev_seq s \<and> hasTask (e_task_id x) s)"

definition store_inv :: "'x store_scheme \<Rightarrow> bool" where
  "store_inv s \<longleftrightarrow> ids_unique s \<and> events_ok s \<and>
     (\<forall>r\<in>set (tasks s). hasSession (t_session_id r) s \<and> lease_row_ok r \<and> trail_ok (t_status r) (trail (t_id r) s))"

text \<open>
  \<open>evolves s0 s\<close>: from \<open>s0\<close> to \<open>s\<close> the event log only grew, no task was lost, and the status of
  every task moved along the transition table.
\<close>

definition evolves :: "'x store_scheme \<Rightarrow> 'x store_scheme \<Rightarrow> bool" where
  "evolves s0 s \<longleftrightarrow> prefix (task_events s0) (task_events s) \<and>
     (\<forall>r0\<in>set (tasks s0). \<exists>r\<in>set (tasks s). t_id r = t_id r0 \<and> t_session_id r = t_session_id r0 \<and>
        canTransition\<^sup>*\<^sup>* (t_status r0) (t_status r))"

definition good :: "'x store_scheme \<Rightarrow> 'x store_scheme \<Rightarrow> bool" where
  "good s0 s \<longleftrightarrow> store_inv s \<and> evolves s0 s"

lemma evolves_refl [simp]: "evolves s s"
  by (auto simp: evolves_def)

lemma evolves_trans: "evolves a b \<Longrightarrow> evolves b c \<Longrightarrow> evolves a c"
proof -
  assume ab: "evolves a b" and bc: "evolves b c"
  have "\<exists>r\<in>set (tasks c). t_id r = t_id r0 \<and> t_session_id r = t_session_id r0 \<and>
      canTransition\<^sup>*\<^sup>* (t_status r0) (t_status r)" if "r0 \<in> set (tasks a)" for r0
  proof -
    from ab that obtain r1 where r1: "r1 \<in> set (tasks b)" "t_id r1 = t_id r0" "t_session_id r1 = t_session_id r0"
      "canTransition\<^sup>*\<^sup>* (t_status r0) (t_status r1)" unfolding evolves_def by blast
    from bc r1(1) obtain r2 where "r2 \<in> set (tasks c)" "t_id r2 = t_id r1" "t_session_id r2 = t_session_id r1"
      "canTransition\<^sup>*\<^sup>* (t_status r1) (t_status r2)" unfolding evolves_def by blast
    with r1 show ?thesis by (intro bexI [of _ r2]) auto
  qed
  then show ?thesis using ab bc unfolding evolves_def by (auto intro: prefix_order.trans)
qed

lemma hasTask_ids: "hasTask i s \<longleftrightarrow> i \<in> set (map t_id (tasks s))"
  by (auto simp: hasTask_def)

lemma store_inv_ids: "store_inv s \<Longrightarrow> ids_unique s"
  by (simp add: store_inv_def)

lemma trail_ok_snoc:
  assumes "trail_ok st xs" and "e_state_from ev = Some st" and "canTransition st (e_state_to ev)"
  shows "trail_ok (e_state_to ev) (xs @ [ev])"
  using assms by (auto simp: trail_ok_def legal_event_def successively_append_iff)

lemma hasTask_changeTask:
  "(\<And>q. t_id (f q) = t_id q) \<Longrightarrow> hasTask j (changeTask i f ev s) = hasTask j s"
  unfolding hasTask_ids by (simp add: changeTask_def map_updWhere del: set_map)

lemma hasSession_changeTask [simp]: "hasSession j (changeTask i f ev s) = hasSession j s"
  by (simp add: hasSession_def changeTask_def)

lemma evolves_changeTask:
  assumes "ids_unique s" and "r \<in> set (tasks s)" and "t_id r = i"
    and "t_id (f r) = i" and "t_session_id (f r) = t_session_id r" and "canTransition (t_status r) (t_status (f r))"
  shows "evolves s (changeTask i f ev s)"
proof -
  have only: "q = r" if "q \<in> set (tasks s)" "t_id q = i" for q
    using distinct_key_unique [OF assms(1) that(1) assms(2)] that(2) assms(3) by simp
  have "\<exists>q\<in>set (tasks (changeTask i f ev s)). t_id q = t_id r0 \<and> t_session_id q = t_session_id r0 \<and>
      canTransition\<^sup>*\<^sup>* (t_status r0) (t_status q)" if r0: "r0 \<in> set (tasks s)" for r0
  proof (cases "t_id r0 = i")
    case True
    with only r0 have "r0 = r" by simp
    moreover have "f r \<in> set (tasks (changeTask i f ev s))"
      using assms(2,3) by (auto simp: changeTask_def row_simps)
    ultimately show ?thesis using assms(3-6) by (intro bexI [of _ "f r"]) auto
  next
    case False
    then have "r0 \<in> set (tasks (changeTask i f ev s))"
      using r0 by (auto simp: changeTask_def row_simps)
    then show ?thesis by blast
  qed
  then show ?thesis by (auto simp: evolves_def changeTask_def)
qed

lemma trail_changeTask:
  "trail j (changeTask i f ev s) = trail j s @ (if e_task_id ev = j then [ev] else [])"
  by (simp add: trail_def changeTask_def)

lemma events_ok_changeTask:
  assumes "events_ok s" and "e_id ev = Suc (ev_seq s)" and "e_task_id ev = i" and "hasTask i s"
    and "\<And>q. t_id (f q) = t_id q"
  shows "events_ok (changeTask i f ev s)"
  using assms hasTask_changeTask [of f, OF assms(5)]
  unfolding events_ok_def by (fastforce simp: changeTask_def sorted_wrt_append)

lemma store_inv_changeTask:
  assumes inv: "store_inv s" and r: "r \<in> set (tasks s)" "t_id r = i"
    and f: "\<And>q. t_id (f q) = t_id q" "t_session_id (f r) = t_session_id r" "lease_row_ok (f r)"
    and step: "canTransition (t_status r) (t_status (f r))"
    and ev: "e_id ev = Suc (ev_seq s)" "e_task_id ev = i" "e_state_from ev = Some (t_status r)"
      "e_state_to ev = t_status (f r)"
  shows "store_inv (changeTask i f ev s)"
proof -
  let ?s = "changeTask i f ev s"
  have ids: "ids_unique s" using inv by (rule store_inv_ids)
  have only: "q = r" if "q \<in> set (tasks s)" "t_id q = i" for q
    using distinct_key_unique [OF ids that(1) r(1)] that(2) r(2) by simp
  have "map t_id (tasks ?s) = map t_id (tasks s)"
    unfolding changeTask_def by (simp add: map_updWhere f(1))
  then have ids': "ids_unique ?s" using ids by simp
  have evs: "events_ok ?s"
    using inv ev r f(1) by (intro events_ok_changeTask) (auto simp: store_inv_def hasTask_def)
  have rows: "set (tasks ?s) = {q \<in> set (tasks s). t_id q \<noteq> i} \<union> {f r}"
  proof -
    have "{q \<in> set (tasks s). t_id q = i} = {r}" using r only by blast
    then show ?thesis unfolding changeTask_def by (simp add: set_updWhere)
  qed
  have "hasSession (t_session_id q) ?s \<and> lease_row_ok q \<and> trail_ok (t_status q) (trail (t_id q) ?s)"
    if "q \<in> set (tasks ?s)" for q
  proof (cases "q = f r")
    case True
    have "trail_ok (t_status r) (trail i s)" and "hasSession (t_session_id r) s"
      using inv r by (auto simp: store_inv_def)
    then have "trail_ok (t_status (f r)) (trail i ?s)"
      using trail_ok_snoc [of "t_status r" "trail i s" ev] ev step by (simp add: trail_changeTask)
    then show ?thesis using True f r \<open>hasSession (t_session_id r) s\<close> by simp
  next
    case False
    with that rows have q: "q \<in> set (tasks s)" "t_id q \<noteq> i" by auto
    then show ?thesis using inv ev(2)
      by (auto simp: store_inv_def trail_changeTask)
  qed
  then show ?thesis using ids' evs by (simp add: store_inv_def)
qed

lemma good_changeTask:
  assumes "good s0 s" and "r \<in> set (tasks s)" "t_id r = i"
    and "\<And>q. t_id (f q) = t_id q" "t_session_id (f r) = t_session_id r" "lease_row_ok (f r)"
    and "canTransition (t_status r) (t_status (f r))"
    and "e_id ev = Suc (ev_seq s)" "e_task_id ev = i" "e_state_from ev = Some (t_status r)"
      "e_state_to ev = t_status (f r)"
  shows "good s0 (changeTask i f ev s)"
proof -
  from assms(1) have inv: "store_inv s" and ev: "evolves s0 s" by (auto simp: good_def)
  have "evolves s (changeTask i f ev s)"
    using assms(2-7) store_inv_ids [OF inv] by (intro evolves_changeTask) auto
  with ev have "evolves s0 (changeTask i f ev s)" by (rule evolves_trans)
  moreover have "store_inv (changeTask i f ev s)"
    using inv assms(2-) by (rule store_inv_changeTask)
  ultimately show ?thesis by (simp add: good_def)
qed

text \<open>An \<open>UPDATE\<close> that changes neither identity nor status nor who holds the lease.\<close>

definition bookkeeping :: "(task_row \<Rightarrow> task_row) \<Rightarrow> task_row \<Rightarrow> bool" where
  "bookkeeping f r \<longleftrightarrow> t_id (f r) = t_id r \<and> t_session_id (f r) = t_session_id r \<and> t_status (f r) = t_status r \<and>
     t_lease_owner (f r) = t_lease_owner r \<and> (t_lease_expires_at (f r) = None \<longleftrightarrow> t_lease_expires_at r = None)"

lemma good_updTasks:
  assumes "good s0 s" and bk: "\<And>q. q \<in> set (tasks s) \<Longrightarrow> P q \<Longrightarrow> bookkeeping f q"
  shows "good s0 (updTasks P f s)"
proof -
  define g where "g = (\<lambda>q. if P q then f q else q)"
  let ?s = "updTasks P f s"
  have g: "t_id (g q) = t_id q" "t_session_id (g q) = t_session_id q" "t_status (g q) = t_status q"
      "lease_row_ok (g q) \<longleftrightarrow> lease_row_ok q" if "q \<in> set (tasks s)" for q
    using bk [OF that] by (auto simp: g_def bookkeeping_def lease_row_ok_def)
  have tk: "tasks ?s = map g (tasks s)" by (simp add: updTasks_def updWhere_def g_def)
  have ids: "map t_id (tasks ?s) = map t_id (tasks s)" unfolding tk using g(1) by simp
  have ht: "hasTask j ?s = hasTask j s" for j unfolding hasTask_ids ids ..
  have fr: "task_events ?s = task_events s" "ev_seq ?s = ev_seq s" "sessions ?s = sessions s"
    by (simp_all add: updTasks_def)
  from assms(1) have inv: "store_inv s" and ev: "evolves s0 s" by (auto simp: good_def)
  have "store_inv ?s"
    using inv unfolding store_inv_def ids events_ok_def ht fr trail_def hasSession_def
    by (auto simp: tk g)
  moreover have "evolves s ?s"
    unfolding evolves_def fr by (auto simp: tk g)
  ultimately show ?thesis using evolves_trans [OF ev] by (simp add: good_def)
qed

text \<open>An \<open>INSERT\<close> of a task: a fresh key, an existing session, no lease, no event yet.\<close>

definition addTask :: "task_row \<Rightarrow> 'x store_scheme \<Rightarrow> 'x store_scheme" where
  "addTask r s = s\<lparr>tasks := tasks s @ [r]\<rparr>"

lemma no_trail_if_absent: "events_ok s \<Longrightarrow> \<not> hasTask i s \<Longrightarrow> trail i s = []"
  by (auto simp: trail_def events_ok_def filter_empty_conv)

lemma good_addTask:
  assumes "good s0 s" and "\<not> hasTask (t_id r) s" and "hasSession (t_session_id r) s" and "lease_row_ok r"
  shows "good s0 (addTask r s)"
proof -
  from assms(1) have inv: "store_inv s" and ev: "evolves s0 s" by (auto simp: good_def)
  then have "trail (t_id r) s = []" using assms(2) by (intro no_trail_if_absent) (auto simp: store_inv_def)
  moreover have "trail i (addTask r s) = trail i s" for i by (simp add: trail_def addTask_def)
  moreover have "hasSession i (addTask r s) = hasSession i s" for i by (simp add: hasSession_def addTask_def)
  ultimately have "store_inv (addTask r s)"
    using inv assms(2-4) by (auto simp: store_inv_def events_ok_def addTask_def hasTask_def trail_ok_def)
  moreover have "evolves s (addTask r s)" by (auto simp: evolves_def addTask_def)
  ultimately show ?thesis using evolves_trans [OF ev] by (simp add: good_def)
qed

text \<open>The first event of a task that has none.\<close>

lemma good_firstEvent:
  assumes "good s0 s" and "r \<in> set (tasks s)" "t_id r = i" "t_status r = TaskStatusQueued" and "trail i s = []"
    and "e_id ev = Suc (ev_seq s)" "e_task_id ev = i" "e_state_from ev = None" "e_state_to ev = TaskStatusQueued"
  shows "good s0 (insertEvent ev s)"
proof -
  let ?s = "insertEvent ev s"
  from assms(1) have inv: "store_inv s" and ev: "evolves s0 s" by (auto simp: good_def)
  have tr: "trail j ?s = trail j s @ (if e_task_id ev = j then [ev] else [])" for j
    by (simp add: trail_def insertEvent_def)
  have ht: "hasTask j ?s = hasTask j s" "hasSession j ?s = hasSession j s" for j
    by (simp_all add: hasTask_def hasSession_def insertEvent_def)
  have "hasTask i s" using assms(2,3) by (auto simp: hasTask_def)
  have "events_ok ?s"
    using inv assms(6,7) \<open>hasTask i s\<close> unfolding store_inv_def events_ok_def ht
    by (fastforce simp: insertEvent_def sorted_wrt_append)
  moreover have "trail_ok (t_status q) (trail (t_id q) ?s)" if q: "q \<in> set (tasks s)" for q
  proof (cases "t_id q = i")
    case True
    then have "q = r" using distinct_key_unique [OF store_inv_ids [OF inv] q assms(2)] assms(3) by simp
    with assms show ?thesis by (simp add: tr trail_ok_def legal_event_def)
  next
    case False
    with q inv assms(7) show ?thesis by (auto simp: tr store_inv_def)
  qed
  ultimately have "store_inv ?s" using inv by (simp add: store_inv_def ht) (simp add: insertEvent_def)
  moreover have "evolves s ?s" by (auto simp: evolves_def insertEvent_def)
  ultimately show ?thesis using evolves_trans [OF ev] by (simp add: good_def)
qed

section \<open>The interface of the operations\<close>

locale task_invariant = table_invariant I for I :: "'x store_scheme \<Rightarrow> bool" +
  assumes I_bus: "I (s\<lparr>bus := b\<rparr>) \<longleftrightarrow> I s"
    and I_metrics: "I (s\<lparr>task_metrics := xs\<rparr>) \<longleftrightarrow> I s"
begin

lemma publishS_keeps: "I s \<Longrightarrow> I (snd (publishS t p s))"
  by (auto simp: publishS_def I_bus split: option.splits)

lemma GetTask_keeps: "I s \<Longrightarrow> I (snd (GetTask i s))"
  unfolding GetTask_def by (rule queryRow_keeps)

lemma publishTask_keeps: "I s \<Longrightarrow> I (snd (publishTask i t mk s))"
  using GetTask_keeps [of s i] publishS_keeps
  by (auto simp: publishTask_def split: option.splits prod.splits sum.splits)

lemma insertMetrics_keeps: "I s \<Longrightarrow> I (insertMetrics e i s)"
  by (auto simp: insertMetrics_def I_metrics split: option.splits)

lemma RecordTaskMetrics_keeps:
  assumes "I s"
  shows "I (snd (RecordTaskMetrics e i s))"
proof -
  obtain q s1 where q: "queryRow (findTask i) s = (q, s1)" by fastforce
  with queryRow_keeps [OF assms, of "findTask i"] have "I s1" by simp
  then show ?thesis
    unfolding RecordTaskMetrics_def q Let_def prod.case
    by (intro bindS_keeps wrapS_keeps execS_keeps insertMetrics_keeps)
      (auto simp: retS_def publishS_keeps split: sum.splits)
qed

end

text \<open>The invariant together with the history from a starting point \<open>s0\<close>.\<close>

lemma store_inv_faults [simp]: "store_inv (s\<lparr>faults := fs\<rparr>) = store_inv s"
  by (simp add: store_inv_def events_ok_def trail_def hasTask_def hasSession_def)

lemma evolves_faults [simp]: "evolves s0 (s\<lparr>faults := fs\<rparr>) = evolves s0 s"
  by (simp add: evolves_def)

interpretation gd: task_invariant "good s0" for s0
  by unfold_locales (simp_all add: good_def store_inv_def events_ok_def trail_def hasTask_def hasSession_def evolves_def)

section \<open>Every operation keeps the invariant and the history\<close>

lemma good_faults [simp]: "good s0 (s\<lparr>faults := fs\<rparr>) = good s0 s"
  by (rule gd.I_faults)

lemma faults_frame [simp]:
  "updTasks P f (s\<lparr>faults := fs\<rparr>) = updTasks P f s \<lparr>faults := fs\<rparr>"
  "changeTask i g ev (s\<lparr>faults := fs\<rparr>) = changeTask i g ev s \<lparr>faults := fs\<rparr>"
  "addTask r (s\<lparr>faults := fs\<rparr>) = addTask r s \<lparr>faults := fs\<rparr>"
  "insertEvent ev (s\<lparr>faults := fs\<rparr>) = insertEvent ev s \<lparr>faults := fs\<rparr>"
  by (simp_all add: updTasks_def changeTask_def addTask_def insertEvent_def)

lemma good_ids: "good s0 s \<Longrightarrow> ids_unique s"
  by (simp add: good_def store_inv_def)

lemma good_row: "good s0 s \<Longrightarrow> r \<in> set (tasks s) \<Longrightarrow> lease_row_ok r"
  by (simp add: good_def store_inv_def)

lemma transitionEvent_simps [simp]:
  "e_id (transitionEvent e i to ty pl r n) = n" "e_task_id (transitionEvent e i to ty pl r n) = i"
  "e_state_from (transitionEvent e i to ty pl r n) = Some (t_status r)"
  "e_state_to (transitionEvent e i to ty pl r n) = to"
  by (simp_all add: transitionEvent_def)

text \<open>A transition between states that agree on holding a lease.\<close>

lemma good_transition:
  assumes good: "good s0 s" and tr: "transitionTaskTx e i froms to ty pl res em s = (Inr ok, s')"
    and lease: "\<And>f. f \<in> set froms \<Longrightarrow> f \<in> {TaskStatusClaimed, TaskStatusRunning} \<longleftrightarrow> to \<in> {TaskStatusClaimed, TaskStatusRunning}"
  shows "good s0 s'"
  using tr good_ids [OF good]
proof (cases rule: transitionTaskTx_InrE)
  case refused
  with good show ?thesis by (simp add: gd.I_same)
next
  case (taken fs r)
  have "good s0 (changeTask i (transitionRow e to res em) (transitionEvent e i to ty pl r (Suc (ev_seq s))) s)"
    using good taken good_row [OF good taken(2)] lease [OF taken(4)]
    by (intro good_changeTask) (auto simp: lease_row_ok_def)
  with taken(6) show ?thesis by simp
qed

text \<open>A transition followed by the statement that sets or clears the lease.\<close>

lemma good_transition_upd:
  assumes good: "good s0 s" and tr: "transitionTaskTx e i froms to ty pl res em s = (Inr True, s1)"
    and up: "execS (updTasks (taskAt i to) g) s1 = (Inr u, s2)"
    and g: "\<And>q. t_id (g q) = t_id q" "\<And>q. t_session_id (g q) = t_session_id q" "\<And>q. t_status (g q) = t_status q"
      "\<And>q. t_status q = to \<Longrightarrow> lease_row_ok (g q)"
  shows "good s0 s2"
  using tr good_ids [OF good]
proof (cases rule: transitionTaskTx_InrE)
  case (taken fs r)
  let ?ev = "transitionEvent e i to ty pl r (Suc (ev_seq s))"
  let ?f = "transitionRow e to res em"
  from up obtain gs where s2: "s2 = updTasks (taskAt i to) g (s1\<lparr>faults := gs\<rparr>)" by (rule execS_InrE)
  have "updTasks (taskAt i to) g (changeTask i ?f ?ev s) = changeTask i (g \<circ> ?f) ?ev s"
    using good_ids [OF good] by (intro updTasks_after) auto
  then have "s2 = changeTask i (g \<circ> ?f) ?ev s \<lparr>faults := gs\<rparr>"
    unfolding s2 taken(6) by simp
  moreover have "good s0 (changeTask i (g \<circ> ?f) ?ev s)"
    using good taken g by (intro good_changeTask) auto
  ultimately show ?thesis by simp
qed simp

lemma clearLease_simps [simp]:
  "t_id (clearLease e q) = t_id q" "t_session_id (clearLease e q) = t_session_id q"
  "t_status (clearLease e q) = t_status q" "t_lease_owner (clearLease e q) = None"
  "t_lease_expires_at (clearLease e q) = None"
  by (simp_all add: clearLease_def)

lemma setLease_simps [simp]:
  "t_id (setLease e o' q) = t_id q" "t_session_id (setLease e o' q) = t_session_id q"
  "t_status (setLease e o' q) = t_status q" "t_lease_owner (setLease e o' q) = Some o'"
  "t_lease_expires_at (setLease e o' q) = Some (nowPlus e defaultLeaseDuration)"
  by (simp_all add: setLease_def)

lemma failureMeta_simps [simp]:
  "t_id (failureMeta e d q) = t_id q" "t_session_id (failureMeta e d q) = t_session_id q"
  "t_status (failureMeta e d q) = t_status q" "t_lease_owner (failureMeta e d q) = None"
  "t_lease_expires_at (failureMeta e d q) = None"
  by (simp_all add: failureMeta_def)

lemma execS_updTasks_good:
  assumes "good s0 s" and "execS (updTasks P f) s = (Inr u, s')" and "\<And>q. q \<in> set (tasks s) \<Longrightarrow> P q \<Longrightarrow> bookkeeping f q"
  shows "good s0 s'"
proof -
  from assms(2) obtain fs where "s' = updTasks P f (s\<lparr>faults := fs\<rparr>)" by (rule execS_InrE)
  moreover have "good s0 (updTasks P f (s\<lparr>faults := fs\<rparr>))"
    using assms(1,3) good_updTasks [of s0 s P f] by simp
  ultimately show ?thesis by simp
qed

lemma createTask_good: "good s0 s \<Longrightarrow> good s0 (snd (createTask e i a sid pl s))"
  unfolding createTask_def
proof (rule gd.retryOnBusy_keeps, rule gd.with_tx_keeps)
  fix s t and a' :: string
  assume good: "good s0 s"
  let ?r = "queuedRow e i sid (if a = '''' then ''default'' else a) pl"
  assume "(let agent = if a = '''' then ''default'' else a in
      bindS (wrapS ''create task'' (execCheck (taskInsertCheck i sid)
               (\<lambda>s. s\<lparr>tasks := tasks s @ [queuedRow e i sid agent pl]\<rparr>)))
       (\<lambda>_. bindS (appendTaskEventTx e i sid None TaskStatusQueued ''task.enqueued'' ''{\"reason\":\"create_task\"}'')
       (\<lambda>_. retS (Commit i)))) s = (Inr (Commit a'), t)"
  then obtain u v s1 where ins: "execCheck (taskInsertCheck i sid) (\<lambda>s. s\<lparr>tasks := tasks s @ [?r]\<rparr>) s = (Inr u, s1)"
    and app: "appendTaskEventTx e i sid None TaskStatusQueued ''task.enqueued'' ''{\"reason\":\"create_task\"}'' s1 = (Inr v, t)"
    by (auto simp: bindS_Inr Let_def)
  from ins obtain fs where s1: "s1 = addTask ?r (s\<lparr>faults := fs\<rparr>)" and ck: "taskInsertCheck i sid (s\<lparr>faults := fs\<rparr>) = None"
    by (auto simp: addTask_def elim!: execCheck_InrE)
  have fresh: "\<not> hasTask i s" "hasSession sid s"
    using ck by (auto simp: taskInsertCheck_def hasTask_def hasSession_def split: if_splits)
  have g1: "good s0 s1" unfolding s1
    by (rule good_addTask)
      (use good fresh in \<open>auto simp: queuedRow_def lease_row_ok_def hasTask_def hasSession_def\<close>)
  have "trail i s = []" using good fresh by (intro no_trail_if_absent) (auto simp: good_def store_inv_def)
  then have tr: "trail i s1 = []" by (simp add: s1 trail_def addTask_def)
  from app obtain gs ev where t: "t = insertEvent ev (s1\<lparr>faults := gs\<rparr>)" and ev: "ev = \<lparr>e_id = Suc (ev_seq s1), e_task_id = i, e_session_id = sid, e_run_id = nullif (RunID (ctxOf e)),
       e_trace_id = Some (if TraceID (ctxOf e) = ''-'' then sid else TraceID (ctxOf e)), e_type = ''task.enqueued'',
       e_state_from = None, e_state_to = TaskStatusQueued, e_payload = (if ''{\"reason\":\"create_task\"}'' = '''' then ''{}'' else ''{\"reason\":\"create_task\"}''),
       e_created_at = CURRENT_TIMESTAMP e\<rparr>"
    by (rule appendTaskEventTx_Inr)
  have "good s0 (insertEvent ev s1)"
    by (rule good_firstEvent [of _ _ ?r i]) (use g1 tr ev in \<open>simp_all add: s1 addTask_def queuedRow_def\<close>)
  then show "good s0 t" unfolding t by simp
qed

text \<open>The shape most operations share: a transition, then on success the update of the lease.\<close>

lemma trans_exec_InrE:
  assumes good: "good s0 s"
    and run: "bindS (wrapS p1 (transitionTaskTx e i froms to ty pl res em))
        (\<lambda>ok. if \<not> ok then m else bindS (wrapS p2 (execS (updTasks (taskAt i to) g))) k) s = (Inr y, s')"
    and g: "\<And>q. t_id (g q) = t_id q" "\<And>q. t_session_id (g q) = t_session_id q" "\<And>q. t_status (g q) = t_status q"
      "\<And>q. t_status q = to \<Longrightarrow> lease_row_ok (g q)"
  obtains (no) t where "good s0 t" "m t = (Inr y, s')" | (yes) t where "good s0 t" "k () t = (Inr y, s')"
proof -
  from run obtain ok s1 where tr: "transitionTaskTx e i froms to ty pl res em s = (Inr ok, s1)"
    and rest: "(if \<not> ok then m else bindS (wrapS p2 (execS (updTasks (taskAt i to) g))) k) s1 = (Inr y, s')"
    by (auto simp: bindS_Inr)
  show thesis
  proof (cases ok)
    case True
    with rest obtain u s2 where up: "execS (updTasks (taskAt i to) g) s1 = (Inr u, s2)" and k: "k () s2 = (Inr y, s')"
      by (auto simp: bindS_Inr)
    from tr True have "transitionTaskTx e i froms to ty pl res em s = (Inr True, s1)" by simp
    with good have "good s0 s2" using up g by (rule good_transition_upd)
    then show thesis using k by (rule yes)
  next
    case False
    with tr good_ids [OF good] have "same_tables s s1" by (auto elim: transitionTaskTx_InrE)
    then have "good s0 s1" using good by (rule gd.I_same)
    with False rest show thesis by (intro no) auto
  qed
qed

text \<open>What a claim that commits did: the first claimable row, moved and leased.\<close>

lemma claimTx_InrE:
  assumes "claimTx e ow a s = (Inr y, s')"
  obtains (nothing) "y = Abandon None"
  | (claimed) r s1 where "firstBy claimKey (claimable e a) (tasks s) = Some r" "same_tables s s1"
      "bindS (wrapS ''claim task transition'' (transitionTaskTx e (t_id r) [TaskStatusQueued] TaskStatusClaimed
                   ''task.claimed'' ''{\"reason\":\"claim_next_pending\"}'' None None))
          (\<lambda>ok. if \<not> ok then retS (Abandon None)
             else bindS (wrapS ''set claim lease'' (execS
                      (updTasks (taskAt (t_id r) TaskStatusClaimed) (setLease e ow))))
               (\<lambda>_. retS (Commit (Some ((scanTask r)\<lparr>Status := TaskStatusClaimed, LeaseOwner := ow,
                       LeaseExpiresAt := Some (nowPlus e defaultLeaseDuration)\<rparr>))))) s1 = (Inr y, s')"
proof -
  from assms obtain row s1 where q: "noRowsAsNone (queryRow (\<lambda>s. firstBy claimKey (claimable e a) (tasks s))) s = (Inr row, s1)"
    and rest: "(case row of
         None \<Rightarrow> retS (Abandon None)
       | Some r \<Rightarrow>
          bindS (wrapS ''claim task transition'' (transitionTaskTx e (t_id r) [TaskStatusQueued] TaskStatusClaimed
                   ''task.claimed'' ''{\"reason\":\"claim_next_pending\"}'' None None))
          (\<lambda>ok. if \<not> ok then retS (Abandon None)
             else bindS (wrapS ''set claim lease'' (execS
                      (updTasks (taskAt (t_id r) TaskStatusClaimed) (setLease e ow))))
               (\<lambda>_. retS (Commit (Some ((scanTask r)\<lparr>Status := TaskStatusClaimed, LeaseOwner := ow,
                       LeaseExpiresAt := Some (nowPlus e defaultLeaseDuration)\<rparr>)))))) s1 = (Inr y, s')"
    unfolding claimTx_def bindS_Inr [of "wrapS ''select pending task'' _"] wrapS_Inr by blast
  from q obtain fs where s1: "s1 = s\<lparr>faults := fs\<rparr>" "row = None \<or> row = firstBy claimKey (claimable e a) (tasks s)"
    by (auto elim: noRows_InrE)
  show thesis
  proof (cases row)
    case None
    with rest have "y = Abandon None" by simp
    then show thesis by (rule nothing)
  next
    case (Some r)
    with s1(2) have first: "firstBy claimKey (claimable e a) (tasks s) = Some r" by auto
    moreover have "same_tables s s1" by (simp add: s1)
    ultimately show thesis by (rule claimed) (use rest Some in simp)
  qed
qed

lemma claimNextPendingTask_good: "good s0 s \<Longrightarrow> good s0 (snd (claimNextPendingTask e ow a s))"
  unfolding claimNextPendingTask_def
proof (rule gd.retryOnBusy_keeps, rule gd.with_tx_keeps)
  fix s t and v :: "Task option"
  assume good: "good s0 s" and run: "claimTx e ow a s = (Inr (Commit v), t)"
  from run show "good s0 t"
  proof (cases rule: claimTx_InrE)
    case (claimed r s1)
    from gd.I_same [OF claimed(2) good] claimed(3) show ?thesis
      by (rule trans_exec_InrE) (auto simp: lease_row_ok_def)
  qed simp
qed

lemma StartTaskRun_good: "good s0 s \<Longrightarrow> good s0 (snd (StartTaskRun e i o' pv s))"
  unfolding StartTaskRun_def
proof (rule gd.with_tx_keeps)
  fix s t and u :: unit
  assume good: "good s0 s"
  let ?P = "\<lambda>r. t_id r = i \<and> t_lease_owner r = Some o' \<and> t_status r = TaskStatusRunning"
  let ?f = "\<lambda>r. r\<lparr>t_lease_expires_at := Some (nowPlus e defaultLeaseDuration), t_policy_version := Some pv,
                 t_updated_at := CURRENT_TIMESTAMP e\<rparr>"
  assume "bindS (wrapS ''read claimed lease owner'' (noRowsAsNone (queryRow
              (\<lambda>s. map_option (\<lambda>r. coalesce (t_lease_owner r) '''')
                    (firstWhere (taskAt i TaskStatusClaimed) (tasks s))))))
      (\<lambda>row. case row of None \<Rightarrow> failS ErrNoRows
       | Some currentLeaseOwner \<Rightarrow>
          if currentLeaseOwner = '''' \<or> currentLeaseOwner \<noteq> o' then failS ErrNoRows
          else bindS (transitionTaskTx e i [TaskStatusClaimed] TaskStatusRunning ''task.running''
                        ''{\"reason\":\"worker_start\"}'' None None)
           (\<lambda>ok. if \<not> ok then failS ErrNoRows
              else bindS (wrapS ''extend lease on start run'' (execS (updTasks ?P ?f)))
                (\<lambda>_. retS (Commit ())))) s = (Inr (Commit u), t)"
  then obtain fs s1 where tr: "transitionTaskTx e i [TaskStatusClaimed] TaskStatusRunning ''task.running''
        ''{\"reason\":\"worker_start\"}'' None None (s\<lparr>faults := fs\<rparr>) = (Inr True, s1)"
    and up: "execS (updTasks ?P ?f) s1 = (Inr (), t)"
    by (auto simp: bindS_Inr split: option.splits if_splits elim!: noRows_InrE)
  have g1: "good s0 s1" using good tr by (intro good_transition [OF _ tr]) auto
  then show "good s0 t"
    by (rule execS_updTasks_good [OF _ up])
      (use good_row [OF g1] in \<open>auto simp: bookkeeping_def lease_row_ok_def\<close>)
qed

lemma HeartbeatLease_good: "good s0 s \<Longrightarrow> good s0 (snd (HeartbeatLease e i o' s))"
  unfolding HeartbeatLease_def Let_def
  by (auto simp: retS_def bookkeeping_def lease_row_ok_def dest: good_row
      intro!: gd.bindS_keeps gd.wrapS_keeps gd.execCount_keeps good_updTasks)

lemma requeueOne_good: "good s0 s \<Longrightarrow> requeueOne e i s = (Inr ok, s') \<Longrightarrow> good s0 s'"
  unfolding requeueOne_def by (erule (1) trans_exec_InrE) (auto simp: lease_row_ok_def)

text \<open>A loop over the rows a query returned, inside a transaction.\<close>

lemma query_count_loop_good:
  assumes "good s0 s" and "bindS (wrapS p (queryS q)) (\<lambda>xs. bindS (countEachS f xs 0) (\<lambda>n. retS (Commit n))) s = (Inr y, s')"
    and "\<And>x s ok s'. good s0 s \<Longrightarrow> f x s = (Inr ok, s') \<Longrightarrow> good s0 s'"
  shows "good s0 s'"
proof -
  from assms(2) obtain xs s1 n where q: "queryS q s = (Inr xs, s1)" and c: "countEachS f xs 0 s1 = (Inr n, s')"
    by (auto simp: bindS_Inr)
  from q assms(1) have "good s0 s1" by (auto elim!: queryS_InrE)
  with assms(3) show ?thesis using c by (rule gd.countEachS_Inr_keeps)
qed

lemma RequeueExpiredLeases_good: "good s0 s \<Longrightarrow> good s0 (snd (RequeueExpiredLeases e s))"
  unfolding RequeueExpiredLeases_def
  by (rule gd.with_tx_keeps, erule (1) query_count_loop_good, erule (1) requeueOne_good, assumption)

lemma AgeQueuedPriorities_good: "good s0 s \<Longrightarrow> good s0 (snd (AgeQueuedPriorities e th mp s))"
  unfolding AgeQueuedPriorities_def
  by (auto simp: bookkeeping_def intro!: gd.wrapS_keeps gd.execCount_keeps good_updTasks)

lemma CompleteTask_good: "good s0 s \<Longrightarrow> good s0 (snd (CompleteTask e i res s))"
  unfolding CompleteTask_def
  by (intro gd.bindS_keeps gd.with_tx_keeps gd.publishTask_keeps gd.ignoreS_keeps gd.RecordTaskMetrics_keeps)
    (erule (1) trans_exec_InrE; auto simp: lease_row_ok_def)+

lemma FailTask_good: "good s0 s \<Longrightarrow> good s0 (snd (FailTask e i msg s))"
  unfolding FailTask_def
  by (intro gd.bindS_keeps gd.with_tx_keeps gd.publishTask_keeps gd.ignoreS_keeps gd.RecordTaskMetrics_keeps)
    (erule (1) trans_exec_InrE; auto simp: lease_row_ok_def)+

lemma deadLetterTx_good: "good s0 s \<Longrightarrow> deadLetterTx e i msg d s = (Inr y, s') \<Longrightarrow> good s0 s'"
  unfolding deadLetterTx_def
  by (erule (1) trans_exec_InrE; (erule (1) trans_exec_InrE)?) (auto simp: lease_row_ok_def)

lemma retryTx_good: "good s0 s \<Longrightarrow> retryTx e i msg d s = (Inr y, s') \<Longrightarrow> good s0 s'"
  unfolding retryTx_def Let_def
  by (erule (1) trans_exec_InrE)
    (auto simp: lease_row_ok_def bindS_Inr split: if_splits elim: good_transition)

lemma HandleTaskFailure_good: "good s0 s \<Longrightarrow> good s0 (snd (HandleTaskFailure e i msg s))"
  unfolding HandleTaskFailure_def Let_def
proof (rule gd.with_tx_keeps, unfold bindS_Inr wrapS_Inr, elim exE conjE)
  fix s t row s1 and v :: FailureDecision
  assume good: "good s0 s" and q: "noRowsAsNone (queryRow (findTask i)) s = (Inr row, s1)"
    and rest: "(case row of None \<Rightarrow> failS ErrNoRows
       | Some r \<Rightarrow>
          if t_status r \<noteq> TaskStatusRunning then failS ErrNoRows
          else (case Outcome (failureDecision msg r) of
               FailureOutcomeRetried \<Rightarrow> retryTx e i msg (failureDecision msg r)
             | FailureOutcomeDeadLetter \<Rightarrow> deadLetterTx e i msg (failureDecision msg r))) s1 = (Inr (Commit v), t)"
  from q good have g1: "good s0 s1" by (auto elim!: noRows_InrE)
  from rest show "good s0 t"
    by (cases row)
      (auto split: if_splits FailureOutcome.splits intro: deadLetterTx_good [OF g1] retryTx_good [OF g1])
qed

lemma RequestCancel_good: "good s0 s \<Longrightarrow> good s0 (snd (RequestCancel e i s))"
  unfolding RequestCancel_def Let_def
  by (auto simp: retS_def bookkeeping_def
      intro!: gd.bindS_keeps gd.wrapS_keeps gd.execCount_keeps good_updTasks)

lemma AbortTask_good: "good s0 s \<Longrightarrow> good s0 (snd (AbortTask e i s))"
  unfolding AbortTask_def
  apply (intro gd.bindS_keeps gd.ignoreS_keeps gd.with_tx_keeps RequestCancel_good)
  apply assumption+
  apply (erule (1) trans_exec_InrE; auto simp: lease_row_ok_def)
  apply (auto simp: retS_def intro!: gd.bindS_keeps gd.publishTask_keeps)
  done

lemma good_frame [simp]:
  "good s0 (s\<lparr>messages := ms'\<rparr>) = good s0 s" "good s0 (s\<lparr>kv_store := kv\<rparr>) = good s0 s"
  "good s0 (s\<lparr>tool_call_dedup := dd\<rparr>) = good s0 s" "good s0 (s\<lparr>task_context := tc\<rparr>) = good s0 s"
  "good s0 (s\<lparr>policy_versions := pvs\<rparr>) = good s0 s"
  by (simp_all add: good_def store_inv_def events_ok_def trail_def hasTask_def hasSession_def evolves_def)

lemma recoverOne_good: "good s0 s \<Longrightarrow> recoverOne e sc t s = (Inr ok, s') \<Longrightarrow> good s0 s'"
  unfolding recoverOne_def
proof (erule (1) trans_exec_InrE, simp_all add: lease_row_ok_def)
  fix u assume "good s0 u" and "bindS (if t_status t = TaskStatusRunning
     then wrapS ''clean orphaned messages'' (execS (\<lambda>s. s\<lparr>messages := delWhere
                       (\<lambda>m. m_session_id m = t_session_id t \<and> m_role m = ''assistant'' \<and>
                            sc (t_updated_at t) \<le> m_created_at m) (messages s)\<rparr>))
     else retS ()) (\<lambda>_. retS True) u = (Inr ok, s')"
  then show "good s0 s'"
    by (auto simp: bindS_Inr split: if_splits elim!: execS_InrE)
qed

lemma RecoverRunningTasks_good: "good s0 s \<Longrightarrow> good s0 (snd (RecoverRunningTasks e sc s))"
  unfolding RecoverRunningTasks_def
  by (rule gd.with_tx_keeps, erule (1) query_count_loop_good, erule (1) recoverOne_good, assumption)

lemma insertTask_good:
  assumes "good s0 s" and "t_id r = i" "t_session_id r = sid" "lease_row_ok r"
  shows "good s0 (snd (execCheck (taskInsertCheck i sid) (\<lambda>s. s\<lparr>tasks := tasks s @ [r]\<rparr>) s))"
  using assms(1)
  by (rule gd.execCheck_keeps [rotated])
    (use assms(2-) good_addTask [of s0 _ r] in \<open>auto simp: taskInsertCheck_def addTask_def split: if_splits\<close>)

lemma RecordToolTask_good: "good s0 s \<Longrightarrow> good s0 (snd (RecordToolTask e i sid tool inp out ce s))"
  unfolding RecordToolTask_def Let_def
  by (intro gd.bindS_keeps gd.wrapS_keeps insertTask_good)
    (auto simp: retS_def queuedRow_def lease_row_ok_def split: option.splits)

lemma CreateSubtask_good: "good s0 s \<Longrightarrow> good s0 (snd (CreateSubtask e i par sid pl prio s))"
  unfolding CreateSubtask_def
  by (intro gd.bindS_keeps gd.wrapS_keeps insertTask_good)
    (auto simp: retS_def queuedRow_def lease_row_ok_def)

lemma UpdateTaskTokens_good: "good s0 s \<Longrightarrow> good s0 (snd (UpdateTaskTokens i p c s))"
  unfolding UpdateTaskTokens_def
  by (auto simp: bookkeeping_def intro!: gd.bindS_keeps gd.wrapS_keeps gd.execS_keeps gd.publishS_keeps good_updTasks)

lemma SetParentTask_good: "good s0 s \<Longrightarrow> good s0 (snd (SetParentTask c p s))"
  unfolding SetParentTask_def
  by (auto simp: bookkeeping_def intro!: gd.wrapS_keeps gd.execS_keeps good_updTasks)

lemma RegisterSuccessfulToolCall_good:
  "good s0 s \<Longrightarrow> good s0 (snd (RegisterSuccessfulToolCall e k tn rq rs s))"
  unfolding RegisterSuccessfulToolCall_def
  apply (auto simp: failS_def)
  apply (rule gd.with_tx_keeps)
   apply (unfold bindS_Inr wrapS_Inr, elim exE conjE)
  subgoal for s a s' row
    by (cases row) (auto simp: bindS_Inr split: if_splits elim!: noRows_InrE execCheck_InrE)
  apply assumption
  done

lemma KVSet_good: "good s0 s \<Longrightarrow> good s0 (snd (KVSet e k v s))"
  unfolding KVSet_def by (auto intro!: gd.wrapS_keeps gd.execS_keeps)

lemma SetTaskContext_good: "good s0 s \<Longrightarrow> good s0 (snd (SetTaskContext r k v s))"
  unfolding SetTaskContext_def by (auto intro!: gd.wrapS_keeps gd.execCheck_keeps)

lemma RecordPolicyVersion_good: "good s0 s \<Longrightarrow> good s0 (snd (RecordPolicyVersion e v c src s))"
  unfolding RecordPolicyVersion_def by (auto intro!: gd.wrapS_keeps gd.execS_keeps)

end
