(* ===== verification/Session_Store.thy ===== *)
theory Session_Store
  imports Task_Invariant
begin

text \<open>
  Sessions and conversation history (\<open>internal/persistence/sessions.go\<close>). The identifier check
  \<open>uuid.Parse\<close> belongs to a package outside the repository and is a parameter, \<open>uuidParse\<close>, that
  returns the error of a text it rejects. The message invariant says that ids grow with the table
  and that roles are in the set the schema allows; every operation keeps it and the task invariant.
\<close>

section \<open>Operations\<close>

definition EnsureSession :: "(string \<Rightarrow> err option) \<Rightarrow> env \<Rightarrow> string \<Rightarrow> 'x store_scheme \<Rightarrow> (err + unit) \<times> 'x store_scheme" where
  "EnsureSession uuidParse e sessionID =
    (case uuidParse sessionID of Some er \<Rightarrow> failS (ErrWrap ''invalid session_id'' er)
     | None \<Rightarrow> wrapS ''insert session'' (execS (\<lambda>s. if hasSession sessionID s then s
         else s\<lparr>sessions := sessions s @ [\<lparr>s_id = sessionID, s_soul_hash = None, s_created_at = CURRENT_TIMESTAMP e,
           s_updated_at = CURRENT_TIMESTAMP e\<rparr>]\<rparr>)))"

definition messageRoles :: "string list" where
  "messageRoles = [''system'', ''user'', ''assistant'', ''tool'']"

definition agentOrDefault :: "string \<Rightarrow> string" where
  "agentOrDefault agentID = (if agentID = '''' then ''default'' else agentID)"

definition insertMessage :: "env \<Rightarrow> string \<Rightarrow> string \<Rightarrow> string \<Rightarrow> string \<Rightarrow> int \<Rightarrow> 'x store_scheme \<Rightarrow> 'x store_scheme" where
  "insertMessage e sessionID agentID role content tokens s =
    s\<lparr>messages := messages s @ [\<lparr>m_id = Suc (msg_seq s), m_session_id = sessionID, m_agent_id = agentID,
        m_role = role, m_content = content, m_tokens = tokens, m_created_at = CURRENT_TIMESTAMP e,
        m_archived_at = None\<rparr>], msg_seq := Suc (msg_seq s)\<rparr>"

definition AddHistory :: "env \<Rightarrow> string \<Rightarrow> string \<Rightarrow> string \<Rightarrow> string \<Rightarrow> int \<Rightarrow>
    'x store_scheme \<Rightarrow> (err + unit) \<times> 'x store_scheme" where
  "AddHistory e sessionID agentID role0 content tokens =
    (let role = toLower (trimSpace role0) in
     if role \<notin> set messageRoles then failS (ErrMsg (''invalid role '' @ quoteGo role))
     else wrapS ''insert message'' (execCheck (\<lambda>s. if hasSession sessionID s then None else Some fkError)
            (insertMessage e sessionID (agentOrDefault agentID) role content tokens)))"

definition ClearSessionMessages :: "string \<Rightarrow> string \<Rightarrow> 'x store_scheme \<Rightarrow> (err + unit) \<times> 'x store_scheme" where
  "ClearSessionMessages sessionID agentID =
    wrapS ''clear session messages'' (execS (\<lambda>s. s\<lparr>messages := delWhere
      (\<lambda>m. m_session_id m = sessionID \<and> m_agent_id m = agentOrDefault agentID) (messages s)\<rparr>))"

record HistoryItem =
  HID :: nat
  HSessionID :: string
  Role :: string
  Content :: string
  Text :: string
  Tokens :: int
  HCreatedAt :: ts

definition scanMessage :: "message_row \<Rightarrow> HistoryItem" where
  "scanMessage m = \<lparr>HID = m_id m, HSessionID = m_session_id m, Role = m_role m, Content = m_content m,
     Text = m_content m, Tokens = m_tokens m, HCreatedAt = m_created_at m\<rparr>"

text \<open>The rows \<open>ListHistory\<close> selects: not archived, of the session and, unless empty, of the agent.\<close>

definition liveHistory :: "string \<Rightarrow> string \<Rightarrow> 'x store_scheme \<Rightarrow> message_row list" where
  "liveHistory sessionID agentID s = sort_key m_id (filter (\<lambda>m. m_session_id m = sessionID \<and>
     (agentID = '''' \<or> m_agent_id m = agentID) \<and> m_archived_at m = None) (messages s))"

definition ListHistory :: "string \<Rightarrow> string \<Rightarrow> int \<Rightarrow> 'x store_scheme \<Rightarrow> (err + HistoryItem list) \<times> 'x store_scheme" where
  "ListHistory sessionID agentID limit = wrapS ''query messages'' (queryS (\<lambda>s.
     map scanMessage (take (clampLimit limit 1000 100) (liveHistory sessionID agentID s))))"

definition ArchiveMessages :: "env \<Rightarrow> string \<Rightarrow> int \<Rightarrow> 'x store_scheme \<Rightarrow> (err + unit) \<times> 'x store_scheme" where
  "ArchiveMessages e sessionID beforeID = wrapS ''archive messages'' (execS (\<lambda>s. s\<lparr>messages := updWhere
     (\<lambda>m. m_session_id m = sessionID \<and> int (m_id m) \<le> beforeID \<and> m_archived_at m = None)
     (\<lambda>m. m\<lparr>m_archived_at := Some (CURRENT_TIMESTAMP e)\<rparr>) (messages s)\<rparr>))"

definition LoadRecentMessages :: "string \<Rightarrow> string \<Rightarrow> int \<Rightarrow> 'x store_scheme \<Rightarrow> (err + HistoryItem list) \<times> 'x store_scheme" where
  "LoadRecentMessages agentID sessionID limit = ListHistory sessionID agentID limit"

text \<open>\<open>since\<close> is a \<open>time.Time\<close>, bound in Go's text form.\<close>

definition LoadMessagesSince :: "string \<Rightarrow> string \<Rightarrow> nat \<Rightarrow> 'x store_scheme \<Rightarrow> (err + HistoryItem list) \<times> 'x store_scheme" where
  "LoadMessagesSince agentID sessionID since = wrapS ''query messages since'' (queryS (\<lambda>s.
     map scanMessage (sort_key m_created_at (filter (\<lambda>m. m_session_id m = sessionID \<and>
       m_agent_id m = agentOrDefault agentID \<and> GoTs since < m_created_at m \<and> m_archived_at m = None) (messages s)))))"

definition agentMessage :: "string \<Rightarrow> string \<Rightarrow> message_row \<Rightarrow> bool" where
  "agentMessage sessionID agentID m \<longleftrightarrow>
     m_session_id m = sessionID \<and> m_agent_id m = agentID \<and> m_archived_at m = None"

definition CountMessages :: "string \<Rightarrow> string \<Rightarrow> 'x store_scheme \<Rightarrow> (err + nat) \<times> 'x store_scheme" where
  "CountMessages agentID sessionID = wrapS ''count messages''
     (queryS (\<lambda>s. countWhere (agentMessage sessionID (agentOrDefault agentID)) (messages s)))"

definition DeleteAgentMessages :: "string \<Rightarrow> string \<Rightarrow> 'x store_scheme \<Rightarrow> (err + unit) \<times> 'x store_scheme" where
  "DeleteAgentMessages agentID sessionID = wrapS ''delete agent messages'' (execS (\<lambda>s.
     s\<lparr>messages := delWhere (agentMessage sessionID (agentOrDefault agentID)) (messages s)\<rparr>))"

section \<open>The message invariant\<close>

definition messages_inv :: "'x store_scheme \<Rightarrow> bool" where
  "messages_inv s \<longleftrightarrow> sorted_wrt (<) (map m_id (messages s)) \<and>
     (\<forall>m\<in>set (messages s). m_id m \<le> msg_seq s \<and> m_role m \<in> set messageRoles \<and> hasSession (m_session_id m) s)"

interpretation mi: table_invariant messages_inv
  by unfold_locales (simp add: messages_inv_def hasSession_def)

lemma sorted_wrt_delWhere: "sorted_wrt (<) (map k xs) \<Longrightarrow> sorted_wrt (<) (map k (delWhere P xs))"
  by (induction xs) (auto simp: delWhere_def)

lemma messages_inv_delWhere: "messages_inv s \<Longrightarrow> messages_inv (s\<lparr>messages := delWhere P (messages s)\<rparr>)"
  unfolding messages_inv_def
  by (auto simp: hasSession_def sorted_wrt_delWhere) (auto simp: delWhere_def)

lemma insertMessage_messages_inv:
  "messages_inv s \<Longrightarrow> hasSession sid s \<Longrightarrow> r \<in> set messageRoles \<Longrightarrow> messages_inv (insertMessage e sid a r c n s)"
  by (auto simp: messages_inv_def insertMessage_def hasSession_def sorted_wrt_append less_Suc_eq_le)

lemma AddHistory_messages_inv: "messages_inv s \<Longrightarrow> messages_inv (snd (AddHistory e sid a r c n s))"
  unfolding AddHistory_def Let_def
  by (auto simp: failS_def split: if_splits
      intro!: mi.wrapS_keeps mi.execCheck_keeps insertMessage_messages_inv)

lemma ArchiveMessages_messages_inv: "messages_inv s \<Longrightarrow> messages_inv (snd (ArchiveMessages e sid b s))"
  unfolding ArchiveMessages_def
  by (intro mi.wrapS_keeps mi.execS_keeps)
    (auto simp: messages_inv_def map_updWhere row_simps hasSession_def)

lemma ClearSessionMessages_messages_inv: "messages_inv s \<Longrightarrow> messages_inv (snd (ClearSessionMessages sid a s))"
  unfolding ClearSessionMessages_def
  by (intro mi.wrapS_keeps mi.execS_keeps messages_inv_delWhere)

lemma DeleteAgentMessages_messages_inv: "messages_inv s \<Longrightarrow> messages_inv (snd (DeleteAgentMessages a sid s))"
  unfolding DeleteAgentMessages_def
  by (intro mi.wrapS_keeps mi.execS_keeps messages_inv_delWhere)

section \<open>Sessions and messages keep the task invariant\<close>

lemma good_msg_seq [simp]: "good s0 (s\<lparr>msg_seq := n\<rparr>) = good s0 s"
  by (simp add: good_def store_inv_def events_ok_def trail_def hasTask_def hasSession_def evolves_def)

lemma good_sessions: "good s0 s \<Longrightarrow> good s0 (s\<lparr>sessions := sessions s @ xs\<rparr>)"
  by (auto simp: good_def store_inv_def events_ok_def trail_def hasTask_def hasSession_def evolves_def)

lemma EnsureSession_good: "good s0 s \<Longrightarrow> good s0 (snd (EnsureSession p e sid s))"
  unfolding EnsureSession_def
  by (auto simp: failS_def intro!: gd.wrapS_keeps gd.execS_keeps good_sessions split: option.splits)

lemma AddHistory_good: "good s0 s \<Longrightarrow> good s0 (snd (AddHistory e sid a r c n s))"
  unfolding AddHistory_def Let_def
  by (auto simp: failS_def insertMessage_def intro!: gd.wrapS_keeps gd.execCheck_keeps)

lemma ArchiveMessages_good: "good s0 s \<Longrightarrow> good s0 (snd (ArchiveMessages e sid b s))"
  unfolding ArchiveMessages_def by (auto intro!: gd.wrapS_keeps gd.execS_keeps)

lemma ClearSessionMessages_good: "good s0 s \<Longrightarrow> good s0 (snd (ClearSessionMessages sid a s))"
  unfolding ClearSessionMessages_def by (auto intro!: gd.wrapS_keeps gd.execS_keeps)

lemma DeleteAgentMessages_good: "good s0 s \<Longrightarrow> good s0 (snd (DeleteAgentMessages a sid s))"
  unfolding DeleteAgentMessages_def by (auto intro!: gd.wrapS_keeps gd.execS_keeps)

end
