(* ===== verification/Task_Lifecycle.thy ===== *)
theory Task_Lifecycle
  imports Session_Store
begin

text \<open>
  Executions of the store: \<open>store_step\<close> has one rule per operation that writes to the task tables or
  to the tables they refer to, for every argument, context, clock and identifier, and a rule for the
  environment, which may plan any sequence of statement failures. The properties of whole
  executions follow by rule induction from the preservation lemmas; the functional specification of
  each operation is stated on one call.
\<close>

section \<open>The step relation\<close>

inductive store_step :: "'x store_scheme \<Rightarrow> 'x store_scheme \<Rightarrow> bool" where
  environment: "store_step s (s\<lparr>faults := fs\<rparr>)"
| ensure_session: "store_step s (snd (EnsureSession uuidParse e sid s))"
| add_history: "store_step s (snd (AddHistory e sid a role c n s))"
| clear_messages: "store_step s (snd (ClearSessionMessages sid a s))"
| archive_messages: "store_step s (snd (ArchiveMessages e sid b s))"
| delete_messages: "store_step s (snd (DeleteAgentMessages a sid s))"
| create_task: "store_step s (snd (createTask e i a sid pl s))"
| claim: "store_step s (snd (claimNextPendingTask e ow a s))"
| start_run: "store_step s (snd (StartTaskRun e i ow pv s))"
| heartbeat: "store_step s (snd (HeartbeatLease e i ow s))"
| requeue_expired: "store_step s (snd (RequeueExpiredLeases e s))"
| age_priorities: "store_step s (snd (AgeQueuedPriorities e th mp s))"
| complete: "store_step s (snd (CompleteTask e i res s))"
| fail: "store_step s (snd (FailTask e i msg s))"
| handle_failure: "store_step s (snd (HandleTaskFailure e i msg s))"
| request_cancel: "store_step s (snd (RequestCancel e i s))"
| abort: "store_step s (snd (AbortTask e i s))"
| recover: "store_step s (snd (RecoverRunningTasks e sc s))"
| record_metrics: "store_step s (snd (RecordTaskMetrics e i s))"
| record_tool: "store_step s (snd (RecordToolTask e i sid tool inp out ce s))"
| create_subtask: "store_step s (snd (CreateSubtask e i par sid pl prio s))"
| update_tokens: "store_step s (snd (UpdateTaskTokens i p c s))"
| set_parent: "store_step s (snd (SetParentTask i par s))"
| register_tool_call: "store_step s (snd (RegisterSuccessfulToolCall e k tn rq rs s))"
| kv_set: "store_step s (snd (KVSet e k v s))"
| set_context: "store_step s (snd (SetTaskContext r k v s))"
| record_policy: "store_step s (snd (RecordPolicyVersion e pv chk src s))"

lemmas op_good = EnsureSession_good AddHistory_good ClearSessionMessages_good ArchiveMessages_good
  DeleteAgentMessages_good createTask_good claimNextPendingTask_good StartTaskRun_good HeartbeatLease_good
  RequeueExpiredLeases_good AgeQueuedPriorities_good CompleteTask_good FailTask_good HandleTaskFailure_good
  RequestCancel_good AbortTask_good RecoverRunningTasks_good gd.RecordTaskMetrics_keeps RecordToolTask_good
  CreateSubtask_good UpdateTaskTokens_good SetParentTask_good RegisterSuccessfulToolCall_good KVSet_good
  SetTaskContext_good RecordPolicyVersion_good

lemma store_step_good: "store_step s t \<Longrightarrow> good s0 s \<Longrightarrow> good s0 t"
  by (induction rule: store_step.induct) (simp_all add: op_good)

lemma store_steps_good:
  assumes "store_step\<^sup>*\<^sup>* s t" and "good s0 s"
  shows "good s0 t"
  using assms by (induction rule: rtranclp_induct) (auto intro: store_step_good)

lemma good_start: "store_inv s \<Longrightarrow> good s s"
  by (simp add: good_def)

text \<open>A database as \<open>initSchema\<close> leaves it: the tables of tasks, events and sessions are empty.\<close>

definition fresh_store :: "'x store_scheme \<Rightarrow> bool" where
  "fresh_store s \<longleftrightarrow> tasks s = [] \<and> task_events s = [] \<and> sessions s = [] \<and> messages s = []"

lemma fresh_store_inv: "fresh_store s \<Longrightarrow> store_inv s"
  by (simp add: fresh_store_def store_inv_def events_ok_def)

section \<open>Retries of whole transactions\<close>

lemma retryLoop_tx:
  assumes "\<And>t er t'. f t = (Inl er, t') \<Longrightarrow> same_tables t t'"
  shows "retryLoop e k n f s = (r, s') \<Longrightarrow>
    (\<exists>t. same_tables s t \<and> f t = (r, s')) \<or> (\<exists>er. r = Inl er) \<and> same_tables s s'"
proof (induction n arbitrary: k s)
  case 0
  then show ?case by auto
next
  case (Suc n)
  show ?case
  proof (cases "f s")
    case (Pair q s1)
    show ?thesis
    proof (cases q)
      case (Inr a)
      with Suc.prems Pair show ?thesis by auto
    next
      case (Inl er)
      with Pair assms have sm: "same_tables s s1" by auto
      show ?thesis
      proof (cases "isSQLiteBusy er \<and> ctxDone e k (busyDelay (intn e k) k) = None")
        case True
        with Suc.prems Pair Inl have "retryLoop e (Suc k) n f s1 = (r, s')" by simp
        from Suc.IH [OF this] sm show ?thesis by (blast intro: same_tables_trans)
      next
        case False
        with Suc.prems Pair Inl sm show ?thesis by (auto split: if_splits option.splits)
      qed
    qed
  qed
qed

lemma retry_tx:
  assumes "retryOnBusy e n (with_tx wb wc body) s = (r, s')"
  shows "(\<exists>t. same_tables s t \<and> with_tx wb wc body t = (r, s')) \<or> (\<exists>er. r = Inl er) \<and> same_tables s s'"
  using assms unfolding retryOnBusy_def
  by (rule retryLoop_tx [rotated]) (rule with_tx_error_rolls_back)

lemma retry_tx_Inr:
  assumes "retryOnBusy e n (with_tx wb wc body) s = (Inr a, s')"
  obtains t where "same_tables s t" "with_tx wb wc body t = (Inr a, s')"
  using retry_tx [OF assms] by blast

lemma retry_tx_error_rolls_back:
  "retryOnBusy e n (with_tx wb wc body) s = (Inl er, s') \<Longrightarrow> same_tables s s'"
  by (drule retry_tx) (auto intro: same_tables_trans with_tx_error_rolls_back)

section \<open>The exact effect of a transition and its lease update\<close>

lemma same_tables_fields:
  assumes "same_tables s t"
  shows "tasks t = tasks s" "task_events t = task_events s" "ev_seq t = ev_seq s" "sessions t = sessions s"
    "messages t = messages s" "kv_store t = kv_store s" "tool_call_dedup t = tool_call_dedup s"
    "task_context t = task_context s" "bus t = bus s" "task_metrics t = task_metrics s"
proof -
  from assms obtain fs where "t = s\<lparr>faults := fs\<rparr>" by (auto simp: same_tables_def)
  then show "tasks t = tasks s" "task_events t = task_events s" "ev_seq t = ev_seq s" "sessions t = sessions s"
    "messages t = messages s" "kv_store t = kv_store s" "tool_call_dedup t = tool_call_dedup s"
    "task_context t = task_context s" "bus t = bus s" "task_metrics t = task_metrics s"
    by simp_all
qed

lemma trans_exec_exact:
  assumes ids: "ids_unique s"
    and run: "bindS (wrapS p1 (transitionTaskTx e i froms to ty pl res em))
        (\<lambda>ok. if \<not> ok then m else bindS (wrapS p2 (execS (updTasks (taskAt i to) g))) k) s = (Inr y, s')"
  obtains (no) t where "same_tables s t" "m t = (Inr y, s')"
  | (yes) r t where "r \<in> set (tasks s)" "t_id r = i" "t_status r \<in> set froms" "canTransition (t_status r) to"
      "same_tables (changeTask i (g \<circ> transitionRow e to res em) (transitionEvent e i to ty pl r (Suc (ev_seq s))) s) t"
      "k () t = (Inr y, s')"
proof -
  from run obtain ok s1 where tr: "transitionTaskTx e i froms to ty pl res em s = (Inr ok, s1)"
    and rest: "(if \<not> ok then m else bindS (wrapS p2 (execS (updTasks (taskAt i to) g))) k) s1 = (Inr y, s')"
    by (auto simp: bindS_Inr)
  from tr ids show thesis
  proof (cases rule: transitionTaskTx_InrE)
    case refused
    with rest show thesis by (intro no) auto
  next
    case (taken fs r)
    let ?ev = "transitionEvent e i to ty pl r (Suc (ev_seq s))"
    let ?f = "transitionRow e to res em"
    from rest taken(1) obtain u s2 where up: "execS (updTasks (taskAt i to) g) s1 = (Inr u, s2)" and k: "k () s2 = (Inr y, s')"
      by (auto simp: bindS_Inr)
    from up obtain gs where s2: "s2 = updTasks (taskAt i to) g (s1\<lparr>faults := gs\<rparr>)" by (rule execS_InrE)
    have "updTasks (taskAt i to) g (changeTask i ?f ?ev s) = changeTask i (g \<circ> ?f) ?ev s"
      using ids by (intro updTasks_after) auto
    then have "s2 = changeTask i (g \<circ> ?f) ?ev s \<lparr>faults := gs\<rparr>"
      unfolding s2 taken(6) by simp
    with taken k show thesis by (intro yes) auto
  qed
qed


section \<open>Claiming\<close>

definition claimedRow :: "env \<Rightarrow> string \<Rightarrow> task_row \<Rightarrow> task_row" where
  "claimedRow e ow r = setLease e ow (transitionRow e TaskStatusClaimed None None r)"

lemma claimedRow_simps [simp]:
  "t_id (claimedRow e ow r) = t_id r" "t_status (claimedRow e ow r) = TaskStatusClaimed"
  "t_lease_owner (claimedRow e ow r) = Some ow"
  "t_lease_expires_at (claimedRow e ow r) = Some (nowPlus e defaultLeaseDuration)"
  by (simp_all add: claimedRow_def)

lemma claimedRow_comp: "claimedRow e ow = setLease e ow \<circ> transitionRow e TaskStatusClaimed None None"
  by (rule ext) (simp add: claimedRow_def)

definition claimEffect :: "env \<Rightarrow> string \<Rightarrow> task_row \<Rightarrow> 'x store_scheme \<Rightarrow> 'x store_scheme" where
  "claimEffect e ow r s = changeTask (t_id r) (claimedRow e ow) (transitionEvent e (t_id r) TaskStatusClaimed
     ''task.claimed'' ''{\"reason\":\"claim_next_pending\"}'' r (Suc (ev_seq s))) s"

lemma same_tables_elim: "same_tables s t \<Longrightarrow> (\<And>fs. t = s\<lparr>faults := fs\<rparr> \<Longrightarrow> P) \<Longrightarrow> P"
  by (auto simp: same_tables_def)

lemma claimTx_exact:
  assumes ids: "ids_unique s" and run: "claimTx e ow a s = (Inr y, s')"
  shows "y = Abandon None \<or> (\<exists>r task. firstBy claimKey (claimable e a) (tasks s) = Some r \<and> y = Commit (Some task) \<and>
      ID task = t_id r \<and> LeaseOwner task = ow \<and> same_tables (claimEffect e ow r s) s')"
  using run
proof (cases rule: claimTx_InrE)
  case (claimed r s1)
  from claimed(2) obtain fs where s1: "s1 = s\<lparr>faults := fs\<rparr>" by (rule same_tables_elim)
  have "ids_unique s1" using ids s1 by simp
  then show ?thesis using claimed(3)
  proof (cases rule: trans_exec_exact)
    case (yes q t)
    have mem: "r \<in> set (tasks s)" using firstBy_Some [OF claimed(1)] by simp
    have "q = r" using yes(1,2) mem distinct_key_unique [OF ids] by (auto simp: s1)
    with yes claimed(1) show ?thesis
      by (auto simp: s1 claimEffect_def claimedRow_comp scanTask_def elim!: same_tables_elim)
  qed simp
qed simp

lemma claim_exact:
  assumes ids: "ids_unique s" and run: "claimNextPendingTask e ow a s = (Inr (Some task), s')"
  obtains r where "firstBy claimKey (claimable e a) (tasks s) = Some r" "ID task = t_id r" "LeaseOwner task = ow"
    "same_tables (claimEffect e ow r s) s'"
proof -
  from run obtain t where st: "same_tables s t"
    and tx: "with_tx (ErrWrap ''begin claim tx'') (\<lambda>_. ErrWrap ''commit claim tx'') (claimTx e ow a) t = (Inr (Some task), s')"
    unfolding claimNextPendingTask_def by (rule retry_tx_Inr)
  from tx obtain s1 s2 y where s1: "same_tables t s1" and c: "claimTx e ow a s1 = (Inr y, s2)"
    and y: "y = Commit (Some task) \<and> same_tables s2 s' \<or> y = Abandon (Some task)"
    by (rule with_tx_InrE) blast+
  from st s1 obtain fs where fs: "s1 = s\<lparr>faults := fs\<rparr>" by (auto elim!: same_tables_elim)
  from claimTx_exact [OF _ c] y ids obtain r where "firstBy claimKey (claimable e a) (tasks s) = Some r"
    "ID task = t_id r" "LeaseOwner task = ow" "same_tables (claimEffect e ow r s1) s2" "same_tables s2 s'"
    by (auto simp: fs)
  then show thesis
    by (intro that [of r]) (auto simp: fs claimEffect_def elim!: same_tables_elim)
qed

lemma tasks_claimEffect: "tasks (claimEffect e ow r s) = updWhere (\<lambda>q. t_id q = t_id r) (claimedRow e ow) (tasks s)"
  and events_claimEffect: "task_events (claimEffect e ow r s) = task_events s @ [transitionEvent e (t_id r) TaskStatusClaimed
     ''task.claimed'' ''{\"reason\":\"claim_next_pending\"}'' r (Suc (ev_seq s))]"
  by (simp_all add: claimEffect_def changeTask_def)

section \<open>A small database\<close>

text \<open>
  The database the witnesses run on, built with the operations of the store: one session and one
  task, first queued, then claimed by worker \<open>w\<close>, then running. With no planned failure a statement
  runs and a transaction commits, so these evaluate by rewriting.
\<close>

definition exEnv :: "nat \<Rightarrow> env" where
  "exEnv t = \<lparr>ctxOf = background, now = t * 10^9, ctxDone = (\<lambda>_ _. None), intn = (\<lambda>_ _. 0)\<rparr>"

definition emptyStore :: store where
  "emptyStore = \<lparr>faults = [], bus = None, sessions = [], messages = [], msg_seq = 0, tasks = [], task_events = [],
     ev_seq = 0, kv_store = [], tool_call_dedup = [], task_metrics = [], task_context = [],
     policy_versions = []\<rparr>"

definition exSession :: store where
  "exSession = snd (EnsureSession (\<lambda>_. None) (exEnv 100) ''s'' emptyStore)"

definition exQueued :: store where
  "exQueued = snd (createTask (exEnv 100) ''t1'' '''' ''s'' ''p1'' exSession)"

definition exClaimed :: store where
  "exClaimed = snd (claimNextPendingTask (exEnv 101) ''w'' '''' exQueued)"

definition exRunning :: store where
  "exRunning = snd (StartTaskRun (exEnv 102) ''t1'' ''w'' ''v1'' exClaimed)"

lemma retryOnBusy_once: "\<not> busyOutcome (fst (f s)) \<Longrightarrow> retryOnBusy e n f s = f s"
  unfolding retryOnBusy_def by (cases n) (auto simp: busyOutcome_def split: prod.splits sum.splits)

lemmas tx_eval = with_tx_def execS_def stmt_def bindS_def wrapS_def retS_def failS_def execCheck_def execCount_def
  queryRow_def queryS_def noRowsAsNone_def retryOnBusy_once busyOutcome_def ignoreS_def

lemmas store_eval = taskInsertCheck_def hasTask_def hasSession_def appendTaskEventTx_def insertEvent_def
  CURRENT_TIMESTAMP_def nowPlus_def nullif_def exEnv_def background_def ctx_defs
  transitionTaskTx_def findTask_def firstWhere_def updTasks_def updWhere_def taskCount_def countWhere_def taskAt_def
  transitionRow_def canTransition_def clearLease_def setLease_def scanTask_def
  defaultMaxAttempts_def defaultLeaseDuration_def second_def firstBy_def claimable_def claimKey_def

definition exRow :: task_row where
  "exRow = \<lparr>t_id = ''t1'', t_session_id = ''s'', t_type = ''chat'', t_status = TaskStatusQueued, t_priority = 0,
     t_attempt = 0, t_max_attempts = 3, t_available_at = CurTs 100, t_cancel_requested = 0, t_last_error_code = None,
     t_last_error_fingerprint = None, t_poison_count = 0, t_policy_version = None, t_lease_owner = None,
     t_lease_expires_at = None, t_payload = ''p1'', t_result = None, t_error = None, t_created_at = CurTs 100,
     t_updated_at = CurTs 100, t_parent_task_id = None, t_prompt_tokens = 0, t_completion_tokens = 0,
     t_total_tokens = 0, t_estimated_cost_usd = 0, t_agent_id = ''default''\<rparr>"

definition exEvent :: event_row where
  "exEvent = \<lparr>e_id = 1, e_task_id = ''t1'', e_session_id = ''s'', e_run_id = None, e_trace_id = Some ''s'',
     e_type = ''task.enqueued'', e_state_from = None, e_state_to = TaskStatusQueued,
     e_payload = ''{\"reason\":\"create_task\"}'', e_created_at = CurTs 100\<rparr>"

definition exTables :: "task_row list \<Rightarrow> event_row list \<Rightarrow> store" where
  "exTables rs xs = emptyStore\<lparr>sessions := [\<lparr>s_id = ''s'', s_soul_hash = None, s_created_at = CurTs 100, s_updated_at = CurTs 100\<rparr>],
     tasks := rs, task_events := xs, ev_seq := length xs\<rparr>"

lemma exSession_eq: "exSession = exTables [] []"
  by (simp add: exTables_def exSession_def emptyStore_def EnsureSession_def tx_eval store_eval)

lemma exQueued_eq: "exQueued = exTables [exRow] [exEvent]"
  by (simp add: exQueued_def emptyStore_def exSession_eq exTables_def createTask_def tx_eval store_eval
      queuedRow_def exRow_def exEvent_def)

lemma exClaimed_eq: "exClaimed = exTables
   [exRow\<lparr>t_status := TaskStatusClaimed, t_lease_owner := Some ''w'', t_lease_expires_at := Some (GoTs 131000000000),
      t_updated_at := CurTs 101\<rparr>]
   [exEvent, exEvent\<lparr>e_id := 2, e_type := ''task.claimed'', e_state_from := Some TaskStatusQueued,
      e_state_to := TaskStatusClaimed, e_payload := ''{\"reason\":\"claim_next_pending\"}'', e_created_at := CurTs 101\<rparr>]"
  by (simp add: exClaimed_def emptyStore_def exQueued_eq exTables_def claimNextPendingTask_def claimTx_def tx_eval store_eval
      exRow_def exEvent_def)

lemma exRunning_eq: "exRunning = exTables
   [exRow\<lparr>t_status := TaskStatusRunning, t_lease_owner := Some ''w'', t_lease_expires_at := Some (GoTs 132000000000),
      t_policy_version := Some ''v1'', t_updated_at := CurTs 102\<rparr>]
   [exEvent, exEvent\<lparr>e_id := 2, e_type := ''task.claimed'', e_state_from := Some TaskStatusQueued,
      e_state_to := TaskStatusClaimed, e_payload := ''{\"reason\":\"claim_next_pending\"}'', e_created_at := CurTs 101\<rparr>,
    exEvent\<lparr>e_id := 3, e_type := ''task.running'', e_state_from := Some TaskStatusClaimed,
      e_state_to := TaskStatusRunning, e_payload := ''{\"reason\":\"worker_start\"}'', e_created_at := CurTs 102\<rparr>]"
  by (simp add: exRunning_def emptyStore_def exClaimed_eq exTables_def StartTaskRun_def tx_eval store_eval
      exRow_def exEvent_def)

lemma ex_steps:
  "store_step emptyStore exSession" "store_step exSession exQueued" "store_step exQueued exClaimed"
  "store_step exClaimed exRunning"
  unfolding exSession_def exQueued_def exClaimed_def exRunning_def
  by (rule ensure_session create_task claim start_run)+

lemma ex_inv: "fresh_store emptyStore" "store_inv emptyStore" "store_inv exSession" "store_inv exQueued"
  "store_inv exClaimed" "store_inv exRunning"
proof -
  show "fresh_store emptyStore" by (simp add: fresh_store_def emptyStore_def)
  then show "store_inv emptyStore" by (rule fresh_store_inv)
  then have "good emptyStore emptyStore" by (rule good_start)
  then have "good emptyStore exSession" "good emptyStore exQueued" "good emptyStore exClaimed" "good emptyStore exRunning"
    using ex_steps by (blast intro: store_step_good)+
  then show "store_inv exSession" "store_inv exQueued" "store_inv exClaimed" "store_inv exRunning"
    by (simp_all add: good_def)
qed


section \<open>Properties of executions\<close>

lemma ex_exec: "store_step\<^sup>*\<^sup>* emptyStore exRunning" "store_step\<^sup>*\<^sup>* exQueued exRunning"
proof -
  show 1: "store_step\<^sup>*\<^sup>* exQueued exRunning"
    by (rule converse_rtranclp_into_rtranclp [where r = store_step, OF ex_steps(3)], rule r_into_rtranclp, rule ex_steps(4))
  show "store_step\<^sup>*\<^sup>* emptyStore exRunning"
    by (rule converse_rtranclp_into_rtranclp [where r = store_step, OF ex_steps(1)], rule converse_rtranclp_into_rtranclp [where r = store_step, OF ex_steps(2)], rule 1)
qed





definition terminal :: "TaskStatus \<Rightarrow> bool" where
  "terminal st \<longleftrightarrow> allowedTransitions st = None"

lemma terminal_stays: "canTransition\<^sup>*\<^sup>* a b \<Longrightarrow> terminal a \<Longrightarrow> b = a"
  by (induction rule: converse_rtranclp_induct) (auto simp: terminal_def canTransition_def)

text \<open>A task that has succeeded, was canceled or is in the dead letter queue keeps that status
  for ever.\<close>

theorem terminal_for_ever:
  assumes "store_inv s" and "store_step\<^sup>*\<^sup>* s t" and "r \<in> set (tasks s)"
    and "t_status r \<in> {TaskStatusSucceeded, TaskStatusCanceled, TaskStatusDeadLetter}"
  shows "\<exists>q\<in>set (tasks t). t_id q = t_id r \<and> t_status q = t_status r"
proof -
  have "good s t" using assms(2) good_start [OF assms(1)] by (rule store_steps_good)
  with assms(3) obtain q where "q \<in> set (tasks t)" "t_id q = t_id r" "canTransition\<^sup>*\<^sup>* (t_status r) (t_status q)"
    by (auto simp: good_def evolves_def)
  moreover have "terminal (t_status r)" using assms(4) by (auto simp: terminal_def)
  ultimately show ?thesis by (metis terminal_stays)
qed

definition exDone :: store where
  "exDone = snd (AbortTask (exEnv 103) ''t1'' exRunning)"

lemma exDone_status: "map (\<lambda>r. (t_id r, t_status r)) (tasks exDone) = [(''t1'', TaskStatusCanceled)]"
  by (simp add: exDone_def emptyStore_def exRunning_eq exTables_def AbortTask_def RequestCancel_def publishTask_def
      tx_eval store_eval exRow_def exEvent_def)

lemma exDone_inv: "store_inv exDone"
  using store_step_good [OF abort good_start [OF ex_inv(6)]] by (simp add: exDone_def good_def)

theorem terminal_for_ever_witness:
  "\<exists>q\<in>set (tasks (snd (ClaimNextPendingTask (exEnv 104) ''w2'' exDone))). t_id q = ''t1'' \<and> t_status q = TaskStatusCanceled"
proof -
  from exDone_status obtain r where r: "r \<in> set (tasks exDone)" "t_id r = ''t1''" "t_status r = TaskStatusCanceled"
    by auto
  have "store_step\<^sup>*\<^sup>* exDone (snd (ClaimNextPendingTask (exEnv 104) ''w2'' exDone))"
    unfolding ClaimNextPendingTask_def by (intro r_into_rtranclp claim)
  from terminal_for_ever [OF exDone_inv this r(1)] r show ?thesis by simp
qed

section \<open>Properties of claiming\<close>

text \<open>A claim that returns a task, whatever fails and is retried on the way, returns the claimable
  task that comes first by priority, then age, then id, and its only effect is to mark that row
  claimed with the caller's lease of thirty seconds and to append the event of that transition.\<close>

theorem claim_takes_first:
  assumes "store_inv s" and "claimNextPendingTask e ow a s = (Inr (Some task), s')"
  shows "\<exists>r\<in>set (tasks s). claimable e a r \<and> (\<forall>q\<in>set (tasks s). claimable e a q \<longrightarrow> claimKey r \<le> claimKey q) \<and>
    ID task = t_id r \<and> LeaseOwner task = ow \<and>
    tasks s' = updWhere (\<lambda>q. t_id q = t_id r) (claimedRow e ow) (tasks s) \<and>
    task_events s' = task_events s @ [transitionEvent e (t_id r) TaskStatusClaimed ''task.claimed''
      ''{\"reason\":\"claim_next_pending\"}'' r (Suc (ev_seq s))]"
proof -
  from store_inv_ids [OF assms(1)] assms(2) obtain r
    where r: "firstBy claimKey (claimable e a) (tasks s) = Some r" "ID task = t_id r" "LeaseOwner task = ow"
      "same_tables (claimEffect e ow r s) s'"
    by (rule claim_exact)
  from firstBy_Some [OF r(1)] r(2,3) same_tables_fields(1,2) [OF r(4)] show ?thesis
    by (intro bexI [of _ r]) (auto simp: tasks_claimEffect events_claimEffect)
qed

lemma exClaim_result: "map_sum id (map_option ID) (fst (claimNextPendingTask (exEnv 101) ''w'' '''' exQueued)) = Inr (Some ''t1'')"
  by (simp add: emptyStore_def exQueued_eq exTables_def claimNextPendingTask_def claimTx_def tx_eval store_eval
      exRow_def exEvent_def)

lemma exClaim: obtains task where "claimNextPendingTask (exEnv 101) ''w'' '''' exQueued = (Inr (Some task), exClaimed)" "ID task = ''t1''"
  using exClaim_result exClaimed_def
  by (cases "claimNextPendingTask (exEnv 101) ''w'' '''' exQueued"; cases "fst (claimNextPendingTask (exEnv 101) ''w'' '''' exQueued)")
    (auto simp: map_option_case split: option.splits)

theorem claim_takes_first_witness:
  "\<exists>r\<in>set (tasks exQueued). claimable (exEnv 101) '''' r \<and> t_id r = ''t1'' \<and>
     tasks exClaimed = updWhere (\<lambda>q. t_id q = t_id r) (claimedRow (exEnv 101) ''w'') (tasks exQueued)"
proof -
  obtain task where t: "claimNextPendingTask (exEnv 101) ''w'' '''' exQueued = (Inr (Some task), exClaimed)" "ID task = ''t1''"
    by (rule exClaim)
  from claim_takes_first [OF ex_inv(4) t(1)] t(2) show ?thesis by auto
qed


definition exRequeued :: store where
  "exRequeued = snd (RequeueExpiredLeases (exEnv 140) exClaimed)"

lemma exRequeued_eq: "exRequeued = exTables [exRow\<lparr>t_updated_at := CurTs 140\<rparr>]
   [exEvent, exEvent\<lparr>e_id := 2, e_type := ''task.claimed'', e_state_from := Some TaskStatusQueued,
      e_state_to := TaskStatusClaimed, e_payload := ''{\"reason\":\"claim_next_pending\"}'', e_created_at := CurTs 101\<rparr>,
    exEvent\<lparr>e_id := 3, e_type := ''task.lease_expired_requeued'', e_state_from := Some TaskStatusClaimed,
      e_state_to := TaskStatusQueued, e_payload := ''{\"reason\":\"lease_expired\"}'', e_created_at := CurTs 140\<rparr>]"
  by (simp add: exRequeued_def emptyStore_def exClaimed_eq exTables_def RequeueExpiredLeases_def requeueOne_def
      leaseExpired_def tx_eval store_eval exRow_def exEvent_def)

lemma exReclaim: obtains task s3 where "claimNextPendingTask (exEnv 141) ''w2'' '''' exRequeued = (Inr (Some task), s3)" "ID task = ''t1''"
proof -
  have "map_sum id (map_option ID) (fst (claimNextPendingTask (exEnv 141) ''w2'' '''' exRequeued)) = Inr (Some ''t1'')"
    by (simp add: emptyStore_def exRequeued_eq exTables_def claimNextPendingTask_def claimTx_def tx_eval store_eval
        exRow_def exEvent_def)
  then show thesis
    using that by (cases "claimNextPendingTask (exEnv 141) ''w2'' '''' exRequeued"; cases "fst (claimNextPendingTask (exEnv 141) ''w2'' '''' exRequeued)")
      (auto simp: map_option_case split: option.splits)
qed


end
