(* ===== verification/Task_Outcomes.thy ===== *)
theory Task_Outcomes
  imports Task_Lifecycle
begin

text \<open>
  What each operation on a task does, as an equation when no statement fails and as a statement
  about every outcome otherwise: errors roll back, a run starts for the holder of the lease only,
  failures are retried or dead-lettered by the exact rule, expired leases and crashed runs return to
  the queue.
\<close>

section \<open>Runs without failures\<close>

lemma transition_runs:
  assumes nf: "faults s = []" and ids: "ids_unique s" and r: "r \<in> set (tasks s)" "t_id r = i"
    and ok: "t_status r \<in> set froms" "canTransition (t_status r) to" and sess: "hasSession (t_session_id r) s"
  shows "transitionTaskTx e i froms to ty pl res em s =
    (Inr True, changeTask i (transitionRow e to res em) (transitionEvent e i to ty pl r (Suc (ev_seq s))) s)"
proof -
  have f: "findTask i s = Some r" using findTask_unique [OF ids r(1)] r(2) by simp
  have c: "taskCount (taskAt i (t_status r)) s = 1" using taskCount_taskAt [OF ids r(1)] r(2) by simp
  have u: "updTasks (taskAt i (t_status r)) (transitionRow e to res em) s =
      s\<lparr>tasks := updWhere (\<lambda>q. t_id q = i) (transitionRow e to res em) (tasks s)\<rparr>"
    unfolding updTasks_def using ids r by (simp add: updWhere_taskAt)
  have h: "hasTask i (s\<lparr>tasks := updWhere (\<lambda>q. t_id q = i) (transitionRow e to res em) (tasks s)\<rparr>)"
    unfolding hasTask_ids using r by (auto simp: map_updWhere simp del: set_map) (auto simp: image_iff)
  have hs: "hasSession (t_session_id r) (s\<lparr>tasks := xs\<rparr>)" for xs using sess by (simp add: hasSession_def)
  show ?thesis
    unfolding transitionTaskTx_def
    by (simp add: bindS_def wrapS_def noRowsAsNone_def queryRow_def execCount_def execCheck_def stmt_def nf f ok c u h hs
        retS_def appendTaskEventTx_def insertEvent_def changeTask_def transitionEvent_def)
qed

lemma inv_session: "store_inv s \<Longrightarrow> r \<in> set (tasks s) \<Longrightarrow> hasSession (t_session_id r) s"
  by (simp add: store_inv_def)

lemma transition_then_update_runs:
  assumes "faults s = []" "ids_unique s" "hasSession (t_session_id r) s" "r \<in> set (tasks s)" "t_id r = i"
    "t_status r \<in> set froms" "canTransition (t_status r) to"
  shows "bindS (wrapS p1 (transitionTaskTx e i froms to ty pl res em))
      (\<lambda>ok. if \<not> ok then m else bindS (wrapS p2 (execS (updTasks (taskAt i to) g))) k) s =
    k () (changeTask i (g \<circ> transitionRow e to res em) (transitionEvent e i to ty pl r (Suc (ev_seq s))) s)"
proof -
  have nf: "faults (changeTask i f ev s) = []" for f ev using assms(1) by (simp add: changeTask_def)
  have "transitionTaskTx e i froms to ty pl res em s =
    (Inr True, changeTask i (transitionRow e to res em) (transitionEvent e i to ty pl r (Suc (ev_seq s))) s)"
    using assms by (intro transition_runs)
  moreover have "updTasks (taskAt i to) g (changeTask i (transitionRow e to res em) ev s) =
      changeTask i (g \<circ> transitionRow e to res em) ev s" for ev
    using assms(2) by (intro updTasks_after) auto
  ultimately show ?thesis
    by (simp add: bindS_def wrapS_def execS_def stmt_def nf)
qed

lemma ids_unique_changeTask: "ids_unique s \<Longrightarrow> (\<And>q. t_id (f q) = t_id q) \<Longrightarrow> ids_unique (changeTask i f ev s)"
  by (simp add: changeTask_def map_updWhere)

lemma changed_row: "r \<in> set (tasks s) \<Longrightarrow> t_id r = i \<Longrightarrow> f r \<in> set (tasks (changeTask i f ev s))"
  by (auto simp: changeTask_def row_simps)

lemma changeTask_twice:
  "(\<And>q. t_id (f q) = t_id q) \<Longrightarrow> tasks (changeTask i g ev' (changeTask i f ev s)) = updWhere (\<lambda>q. t_id q = i) (g \<circ> f) (tasks s)"
  by (auto simp: changeTask_def updWhere_def)

lemma with_tx_runs:
  assumes "faults s = []" and "body s = (Inr (Commit a), s')" and "faults s' = []"
  shows "with_tx wb wc body s = (Inr a, s')"
  using assms by (simp add: with_tx_def execS_def stmt_def)

lemma with_tx_abandons:
  assumes "faults s = []" and "body s = (Inr (Abandon a), s')" and "faults s' = []"
  shows "with_tx wb wc body s = (Inr a, s)"
  using assms by (simp add: with_tx_def execS_def stmt_def)

lemma with_tx_fails:
  assumes "faults s = []" and "body s = (Inl er, s')" and "faults s' = []"
  shows "with_tx wb wc body s = (Inl er, s)"
  using assms by (simp add: with_tx_def execS_def stmt_def)

lemma changeTask_faults [simp]: "faults (changeTask i f ev s) = faults s"
  by (simp add: changeTask_def)

lemma changeTask_simps [simp]:
  "tasks (changeTask i f ev s) = updWhere (\<lambda>q. t_id q = i) f (tasks s)"
  "task_events (changeTask i f ev s) = task_events s @ [ev]" "ev_seq (changeTask i f ev s) = e_id ev"
  by (simp_all add: changeTask_def)

section \<open>Claiming, as an equation\<close>

text \<open>With no failing statement a claim is total: it returns nothing and changes nothing when no
  task is claimable, and otherwise returns the first claimable task and makes exactly the change of
  a claim.\<close>

theorem claim_equation:
  assumes "faults s = []" and "store_inv s"
  shows "claimNextPendingTask e ow a s = (case firstBy claimKey (claimable e a) (tasks s) of
      None \<Rightarrow> (Inr None, s)
    | Some r \<Rightarrow> (Inr (Some ((scanTask r)\<lparr>Status := TaskStatusClaimed, LeaseOwner := ow,
                 LeaseExpiresAt := Some (nowPlus e defaultLeaseDuration)\<rparr>)), claimEffect e ow r s))"
proof -
  let ?tx = "with_tx (ErrWrap ''begin claim tx'') (\<lambda>_. ErrWrap ''commit claim tx'') (claimTx e ow a)"
  have "?tx s = (case firstBy claimKey (claimable e a) (tasks s) of
      None \<Rightarrow> (Inr None, s)
    | Some r \<Rightarrow> (Inr (Some ((scanTask r)\<lparr>Status := TaskStatusClaimed, LeaseOwner := ow,
                 LeaseExpiresAt := Some (nowPlus e defaultLeaseDuration)\<rparr>)), claimEffect e ow r s))"
  proof (cases "firstBy claimKey (claimable e a) (tasks s)")
    case None
    then have "claimTx e ow a s = (Inr (Abandon None), s)"
      using assms(1) by (simp add: claimTx_def bindS_def wrapS_def noRowsAsNone_def queryRow_def stmt_def retS_def)
    with assms(1) have "?tx s = (Inr None, s)" by (intro with_tx_abandons)
    with None show ?thesis by simp
  next
    case (Some r)
    from firstBy_Some [OF Some] have r: "r \<in> set (tasks s)" "t_status r = TaskStatusQueued" by (auto simp: claimable_def)
    have "claimTx e ow a s = bindS (wrapS ''claim task transition'' (transitionTaskTx e (t_id r) [TaskStatusQueued] TaskStatusClaimed
                   ''task.claimed'' ''{\"reason\":\"claim_next_pending\"}'' None None))
          (\<lambda>ok. if \<not> ok then retS (Abandon None)
             else bindS (wrapS ''set claim lease'' (execS
                      (updTasks (taskAt (t_id r) TaskStatusClaimed) (setLease e ow))))
               (\<lambda>_. retS (Commit (Some ((scanTask r)\<lparr>Status := TaskStatusClaimed, LeaseOwner := ow,
                       LeaseExpiresAt := Some (nowPlus e defaultLeaseDuration)\<rparr>))))) s"
      using assms(1) Some by (simp add: claimTx_def bindS_def [of "wrapS ''select pending task'' _"] wrapS_def [of "''select pending task''"]
          noRowsAsNone_def queryRow_def stmt_def)
    also have "\<dots> = (Inr (Commit (Some ((scanTask r)\<lparr>Status := TaskStatusClaimed, LeaseOwner := ow,
                       LeaseExpiresAt := Some (nowPlus e defaultLeaseDuration)\<rparr>))), claimEffect e ow r s)"
      using assms r store_inv_ids inv_session by (subst transition_then_update_runs [of _ r])
        (auto simp: retS_def claimEffect_def claimedRow_comp canTransition_def)
    finally have "?tx s = (Inr (Some ((scanTask r)\<lparr>Status := TaskStatusClaimed, LeaseOwner := ow,
                       LeaseExpiresAt := Some (nowPlus e defaultLeaseDuration)\<rparr>)), claimEffect e ow r s)"
      using assms(1) by (intro with_tx_runs) (auto simp: claimEffect_def)
    with Some show ?thesis by simp
  qed
  then show ?thesis
    unfolding claimNextPendingTask_def
    by (subst retryOnBusy_once) (auto simp: busyOutcome_def split: option.splits)
qed

theorem claim_equation_witness:
  "claimNextPendingTask (exEnv 99) ''w'' '''' exQueued = (Inr None, exQueued) \<and>
   snd (claimNextPendingTask (exEnv 101) ''w'' '''' exQueued) = claimEffect (exEnv 101) ''w'' exRow exQueued"
proof -
  have nf: "faults exQueued = []" by (simp add: exQueued_eq exTables_def emptyStore_def)
  have 1: "firstBy claimKey (claimable (exEnv 99) '''') (tasks exQueued) = None"
    and 2: "firstBy claimKey (claimable (exEnv 101) '''') (tasks exQueued) = Some exRow"
    by (simp_all add: exQueued_eq exTables_def store_eval exRow_def)
  show ?thesis
    using claim_equation [OF nf ex_inv(4), of "exEnv 99" "''w''" "''''"]
      claim_equation [OF nf ex_inv(4), of "exEnv 101" "''w''" "''''"] by (simp add: 1 2)
qed

section \<open>Errors roll back\<close>

lemma publishTask_Inr: "\<exists>s'. publishTask i t mk s = (Inr (), s')"
  by (auto simp: publishTask_def publishS_def split: option.splits prod.splits sum.splits)

lemma tx_then_notify_error:
  assumes "bindS (with_tx wb wc body) (\<lambda>_. bindS (publishTask i t mk) (\<lambda>_. ignoreS m)) s = (Inl er, s')"
  shows "same_tables s s'"
proof (cases "with_tx wb wc body s")
  case (Pair q s1)
  show ?thesis
  proof (cases q)
    case (Inl er')
    with assms Pair show ?thesis by (auto simp: bindS_def intro: with_tx_error_rolls_back)
  next
    case (Inr a)
    obtain s2 where "publishTask i t mk s1 = (Inr (), s2)" using publishTask_Inr by blast
    with assms Pair Inr show ?thesis by (simp add: bindS_def ignoreS_def)
  qed
qed

lemma ledger_error: "RegisterSuccessfulToolCall e k tn rq rs s = (Inl er, s') \<Longrightarrow> same_tables s s'"
  by (auto simp: RegisterSuccessfulToolCall_def failS_def split: if_splits intro: with_tx_error_rolls_back)

text \<open>C32. Whatever statement fails, an operation of the store that returns an error has left every
  table as it was: creating, claiming, starting, completing and failing a task, handling a failure,
  requeueing expired leases, recovery at startup and the registration of a tool call are atomic.\<close>

theorem errors_roll_back:
  assumes "createTask e i a sid pl s = (Inl er, s') \<or> claimNextPendingTask e ow a s = (Inl er, s') \<or>
    StartTaskRun e i ow pv s = (Inl er, s') \<or> CompleteTask e i res s = (Inl er, s') \<or>
    FailTask e i msg s = (Inl er, s') \<or> HandleTaskFailure e i msg s = (Inl er, s') \<or>
    RequeueExpiredLeases e s = (Inl er, s') \<or> RecoverRunningTasks e sc s = (Inl er, s') \<or>
    RegisterSuccessfulToolCall e k tn rq rs s = (Inl er, s')"
  shows "same_tables s s'"
  using assms unfolding createTask_def claimNextPendingTask_def StartTaskRun_def CompleteTask_def FailTask_def
    HandleTaskFailure_def RequeueExpiredLeases_def RecoverRunningTasks_def
  by (elim disjE) (rule retry_tx_error_rolls_back with_tx_error_rolls_back tx_then_notify_error ledger_error; assumption)+

definition exFaulty :: store where
  "exFaulty = exRunning\<lparr>faults := [None, None, None, Some (ErrMsg ''disk I/O error'')]\<rparr>"

lemma exFaulty_run:
  "fst (CompleteTask (exEnv 103) ''t1'' ''done'' exFaulty) =
     Inl (ErrWrap ''complete task transition'' (ErrWrap ''insert task_event'' (ErrMsg ''disk I/O error'')))"
  by (simp add: exFaulty_def emptyStore_def exRunning_eq exTables_def CompleteTask_def tx_eval store_eval exRow_def exEvent_def)

theorem errors_roll_back_witness:
  "same_tables exFaulty (snd (CompleteTask (exEnv 103) ''t1'' ''done'' exFaulty))"
  using errors_roll_back [of "exEnv 103" "''t1''" "''''" "''''" "''''" exFaulty _ _ "''''" "''''" "''done''" "''''" id "''''" "''''" "''''" "''''"]
    exFaulty_run by (metis prod.collapse)


section \<open>Starting a run\<close>

definition runningRow :: "env \<Rightarrow> string \<Rightarrow> task_row \<Rightarrow> task_row" where
  "runningRow e pv r = r\<lparr>t_status := TaskStatusRunning, t_lease_expires_at := Some (nowPlus e defaultLeaseDuration),
     t_policy_version := Some pv, t_updated_at := CURRENT_TIMESTAMP e\<rparr>"

definition startEffect :: "env \<Rightarrow> string \<Rightarrow> task_row \<Rightarrow> 'x store_scheme \<Rightarrow> 'x store_scheme" where
  "startEffect e pv r s = changeTask (t_id r) (runningRow e pv) (transitionEvent e (t_id r) TaskStatusRunning
     ''task.running'' ''{\"reason\":\"worker_start\"}'' r (Suc (ev_seq s))) s"

lemma start_update:
  assumes "ids_unique s" and "r \<in> set (tasks s)" and "t_lease_owner r = Some ow"
  shows "updTasks (\<lambda>q. t_id q = t_id r \<and> t_lease_owner q = Some ow \<and> t_status q = TaskStatusRunning)
      (\<lambda>q. q\<lparr>t_lease_expires_at := Some (nowPlus e defaultLeaseDuration), t_policy_version := Some pv,
             t_updated_at := CURRENT_TIMESTAMP e\<rparr>)
      (changeTask (t_id r) (transitionRow e TaskStatusRunning None None) ev s) = changeTask (t_id r) (runningRow e pv) ev s"
proof -
  have only: "q = r" if "q \<in> set (tasks s)" "t_id q = t_id r" for q
    using distinct_key_unique [OF assms(1) that(1) assms(2) that(2)] .
  have "updWhere (\<lambda>q. t_id q = t_id r \<and> t_lease_owner q = Some ow \<and> t_status q = TaskStatusRunning)
      (\<lambda>q. q\<lparr>t_lease_expires_at := Some (nowPlus e defaultLeaseDuration), t_policy_version := Some pv,
             t_updated_at := CURRENT_TIMESTAMP e\<rparr>)
      (updWhere (\<lambda>q. t_id q = t_id r) (transitionRow e TaskStatusRunning None None) (tasks s)) =
    updWhere (\<lambda>q. t_id q = t_id r) (runningRow e pv) (tasks s)"
    unfolding updWhere_def map_map
    by (rule map_cong) (use only assms(3) in \<open>auto simp: runningRow_def transitionRow_def\<close>)
  then show ?thesis by (simp add: updTasks_def changeTask_def)
qed

text \<open>Starting a run succeeds exactly when the task is claimed under the caller's lease: without
  failing statements the call marks that row running and renews its lease, and for any other caller
  or status it returns \<open>sql.ErrNoRows\<close> and changes nothing.\<close>

theorem start_equation:
  assumes nf: "faults s = []" and inv: "store_inv s"
  shows "StartTaskRun e i ow pv s =
    (case findTask i s of
       None \<Rightarrow> (Inl ErrNoRows, s)
     | Some r \<Rightarrow> if t_status r = TaskStatusClaimed \<and> t_lease_owner r = Some ow \<and> ow \<noteq> ''''
                 then (Inr (), startEffect e pv r s) else (Inl ErrNoRows, s))"
proof (cases "findTask i s")
  case None
  then have "firstWhere (taskAt i TaskStatusClaimed) (tasks s) = None"
    by (auto simp: findTask_def firstWhere_None taskAt_def)
  with nf None show ?thesis
    by (simp add: StartTaskRun_def with_tx_def execS_def bindS_def wrapS_def noRowsAsNone_def queryRow_def stmt_def failS_def)
next
  case (Some r)
  from findTask_Some [OF Some] have r: "r \<in> set (tasks s)" "t_id r = i" by auto
  have fw: "firstWhere (taskAt i TaskStatusClaimed) (tasks s) = (if t_status r = TaskStatusClaimed then Some r else None)"
  proof (cases "t_status r = TaskStatusClaimed")
    case True
    have "firstWhere (taskAt i TaskStatusClaimed) (tasks s) \<noteq> None"
      using r True by (auto simp: firstWhere_None taskAt_def)
    then obtain q where q: "firstWhere (taskAt i TaskStatusClaimed) (tasks s) = Some q" by blast
    from firstWhere_Some [OF q] r distinct_key_unique [OF store_inv_ids [OF inv]] have "q = r" by (auto simp: taskAt_def)
    with q True show ?thesis by simp
  next
    case False
    with r distinct_key_unique [OF store_inv_ids [OF inv]] show ?thesis
      by (auto simp: firstWhere_None taskAt_def)
  qed
  show ?thesis
  proof (cases "t_status r = TaskStatusClaimed \<and> t_lease_owner r = Some ow \<and> ow \<noteq> ''''")
    case True
    then have tr: "transitionTaskTx e i [TaskStatusClaimed] TaskStatusRunning ''task.running'' ''{\"reason\":\"worker_start\"}'' None None s =
      (Inr True, changeTask i (transitionRow e TaskStatusRunning None None) (transitionEvent e i TaskStatusRunning ''task.running''
         ''{\"reason\":\"worker_start\"}'' r (Suc (ev_seq s))) s)"
      using nf inv r store_inv_ids inv_session by (intro transition_runs) (auto simp: canTransition_def)
    show ?thesis unfolding StartTaskRun_def
      using nf True Some fw start_update [OF store_inv_ids [OF inv] r(1), of ow e pv] r(2)
      by (subst with_tx_runs [where a = "()" and s' = "startEffect e pv r s"])
        (auto simp: bindS_def wrapS_def noRowsAsNone_def queryRow_def stmt_def tr execS_def retS_def startEffect_def)
  next
    case False
    then show ?thesis
      using nf Some fw
      by (cases "t_lease_owner r")
        (auto simp: StartTaskRun_def with_tx_def execS_def bindS_def wrapS_def noRowsAsNone_def queryRow_def stmt_def failS_def)
  qed
qed

lemma exClaimed_find: "\<exists>r. findTask ''t1'' exClaimed = Some r \<and> t_status r = TaskStatusClaimed \<and> t_lease_owner r = Some ''w''"
  by (simp add: exClaimed_eq exTables_def findTask_def firstWhere_def exRow_def)

theorem start_equation_witness:
  "StartTaskRun (exEnv 102) ''t1'' ''thief'' ''v1'' exClaimed = (Inl ErrNoRows, exClaimed) \<and>
   fst (StartTaskRun (exEnv 102) ''t1'' ''w'' ''v1'' exClaimed) = Inr ()"
proof -
  have nf: "faults exClaimed = []" by (simp add: exClaimed_eq exTables_def emptyStore_def)
  from exClaimed_find show ?thesis
    using start_equation [OF nf ex_inv(5), of "exEnv 102" "''t1''" "''thief''" "''v1''"]
      start_equation [OF nf ex_inv(5), of "exEnv 102" "''t1''" "''w''" "''v1''"] by auto
qed

section \<open>Failures: retry or dead letter\<close>

definition failedMeta :: "env \<Rightarrow> string \<Rightarrow> FailureDecision \<Rightarrow> TaskStatus \<Rightarrow> task_row \<Rightarrow> task_row" where
  "failedMeta e msg d st r = r\<lparr>t_status := st, t_error := Some msg, t_attempt := FAttempt d, t_max_attempts := FMaxAttempts d,
     t_last_error_code := Some (ReasonCode d), t_last_error_fingerprint := Some (ErrorFingerprint d),
     t_poison_count := FPoisonCount d, t_lease_owner := None, t_lease_expires_at := None, t_updated_at := CURRENT_TIMESTAMP e\<rparr>"

definition retriedRow :: "env \<Rightarrow> string \<Rightarrow> FailureDecision \<Rightarrow> task_row \<Rightarrow> task_row" where
  "retriedRow e msg d r = (failedMeta e msg d TaskStatusQueued r)
     \<lparr>t_available_at := nowPlus e (retryDelay (t_id r) (FAttempt d))\<rparr>"

lemma retriedRow_steps: "t_id q = i \<Longrightarrow>
   (transitionRow e TaskStatusQueued None None \<circ> ((\<lambda>r. (failureMeta e d r)\<lparr>t_available_at := nowPlus e (retryDelay i (FAttempt d))\<rparr>)
      \<circ> transitionRow e TaskStatusRetryWait None (Some msg))) q = retriedRow e msg d q"
  by (simp add: retriedRow_def failedMeta_def transitionRow_def failureMeta_def clearLease_def)

lemma deadRow_steps:
  "(clearLease e \<circ> transitionRow e TaskStatusDeadLetter None None) \<circ> (failureMeta e d \<circ> transitionRow e TaskStatusFailed None (Some msg))
     = failedMeta e msg d TaskStatusDeadLetter"
  by (rule ext) (simp add: failedMeta_def transitionRow_def failureMeta_def clearLease_def)

definition newEvents :: "'x store_scheme \<Rightarrow> 'x store_scheme \<Rightarrow> event_row list" where
  "newEvents s s' = drop (length (task_events s)) (task_events s')"

lemma hasSession_session: "t_session_id (f r) = t_session_id r \<Longrightarrow> hasSession (t_session_id r) s \<Longrightarrow>
    hasSession (t_session_id (f r)) (changeTask i f ev s)"
  by simp

lemma retryTx_runs:
  assumes "faults s = []" "store_inv s" "r \<in> set (tasks s)" "t_id r = i" "t_status r = TaskStatusRunning"
  obtains s' where "retryTx e i msg d s = (Inr (Commit (d\<lparr>Outcome := FailureOutcomeRetried,
        BackoffUntil := Some (nowPlus e (retryDelay i (FAttempt d)))\<rparr>)), s')" "faults s' = []"
    "tasks s' = updWhere (\<lambda>q. t_id q = i) (retriedRow e msg d) (tasks s)"
    "map (\<lambda>x. (e_task_id x, e_state_to x)) (newEvents s s') = [(i, TaskStatusRetryWait), (i, TaskStatusQueued)]"
proof -
  let ?f = "(\<lambda>r. (failureMeta e d r)\<lparr>t_available_at := nowPlus e (retryDelay i (FAttempt d))\<rparr>)
      \<circ> transitionRow e TaskStatusRetryWait None (Some msg)"
  define ev where "ev = transitionEvent e i TaskStatusRetryWait ''task.retry_wait''
       (''{\"reason\":\"retry_scheduled\",\"reason_code\":'' @ quoteGo (ReasonCode d) @ '',\"attempt\":'' @
              itoa (FAttempt d) @ '',\"max_attempts\":'' @ itoa (FMaxAttempts d) @ '',\"delay_ms\":'' @
              itoa (int (retryDelay i (FAttempt d) div 10^6)) @ ''}'') r (Suc (ev_seq s))"
  define s1 where "s1 = changeTask i ?f ev s"
  define ev2 where "ev2 = transitionEvent e i TaskStatusQueued ''task.requeued''
       (''{\"reason\":\"ready_for_retry\",\"reason_code\":'' @ quoteGo (ReasonCode d) @ ''}'') (?f r) (Suc (ev_seq s1))"
  define s2 where "s2 = changeTask i (transitionRow e TaskStatusQueued None None) ev2 s1"
  have ids: "ids_unique s" and hs: "hasSession (t_session_id r) s" using assms(2,3) by (auto simp: store_inv_ids inv_session)
  have "transitionTaskTx e i [TaskStatusRetryWait] TaskStatusQueued ''task.requeued''
       (''{\"reason\":\"ready_for_retry\",\"reason_code\":'' @ quoteGo (ReasonCode d) @ ''}'') None None s1 = (Inr True, s2)"
    unfolding s2_def ev2_def using assms(1) ids hs changed_row [OF assms(3,4), of ?f ev]
    by (intro transition_runs) (auto simp: s1_def assms(4) canTransition_def map_updWhere)
  moreover have "retryTx e i msg d s = bindS (wrapS ''transition to queued after retry wait'' (transitionTaskTx e i [TaskStatusRetryWait]
             TaskStatusQueued ''task.requeued''
             (''{\"reason\":\"ready_for_retry\",\"reason_code\":'' @ quoteGo (ReasonCode d) @ ''}'') None None))
      (\<lambda>ok. if \<not> ok then failS ErrNoRows
        else retS (Commit (d\<lparr>Outcome := FailureOutcomeRetried, BackoffUntil := Some (nowPlus e (retryDelay i (FAttempt d)))\<rparr>))) s1"
    unfolding retryTx_def Let_def s1_def ev_def using assms ids hs
    by (subst transition_then_update_runs [of _ r]) (auto simp: canTransition_def)
  ultimately have run: "retryTx e i msg d s = (Inr (Commit (d\<lparr>Outcome := FailureOutcomeRetried,
        BackoffUntil := Some (nowPlus e (retryDelay i (FAttempt d)))\<rparr>)), s2)"
    by (simp add: bindS_def wrapS_def retS_def)
  have tk: "tasks s2 = updWhere (\<lambda>q. t_id q = i) (retriedRow e msg d) (tasks s)"
    unfolding s2_def s1_def
    by (subst changeTask_twice) (use retriedRow_steps [of _ i e d msg] in \<open>auto simp: updWhere_def\<close>)
  have "faults s2 = []" using assms(1) by (simp add: s2_def s1_def)
  moreover have "map (\<lambda>x. (e_task_id x, e_state_to x)) (newEvents s s2) = [(i, TaskStatusRetryWait), (i, TaskStatusQueued)]"
    by (simp add: newEvents_def s2_def s1_def ev_def ev2_def)
  ultimately show thesis using run tk by (intro that [of s2])
qed

lemma deadLetterTx_runs:
  assumes "faults s = []" "store_inv s" "r \<in> set (tasks s)" "t_id r = i" "t_status r = TaskStatusRunning"
  obtains s' where "deadLetterTx e i msg d s = (Inr (Commit (d\<lparr>Outcome := FailureOutcomeDeadLetter\<rparr>)), s')" "faults s' = []"
    "tasks s' = updWhere (\<lambda>q. t_id q = i) (failedMeta e msg d TaskStatusDeadLetter) (tasks s)"
    "map (\<lambda>x. (e_task_id x, e_state_to x)) (newEvents s s') = [(i, TaskStatusFailed), (i, TaskStatusDeadLetter)]"
proof -
  let ?f = "failureMeta e d \<circ> transitionRow e TaskStatusFailed None (Some msg)"
  define ev where "ev = transitionEvent e i TaskStatusFailed ''task.failed''
       (''{\"reason\":\"processor_error\",\"reason_code\":'' @ quoteGo (ReasonCode d) @ '',\"attempt\":'' @
              itoa (FAttempt d) @ '',\"max_attempts\":'' @ itoa (FMaxAttempts d) @ ''}'') r (Suc (ev_seq s))"
  define s1 where "s1 = changeTask i ?f ev s"
  define ev2 where "ev2 = transitionEvent e i TaskStatusDeadLetter ''task.dead_letter''
       (''{\"reason\":\"terminal_failure\",\"reason_code\":'' @ quoteGo (ReasonCode d) @ ''}'') (?f r) (Suc (ev_seq s1))"
  define s2 where "s2 = changeTask i (clearLease e \<circ> transitionRow e TaskStatusDeadLetter None None) ev2 s1"
  have ids: "ids_unique s" and hs: "hasSession (t_session_id r) s" using assms(2,3) by (auto simp: store_inv_ids inv_session)
  have "deadLetterTx e i msg d s = bindS (wrapS ''transition to dead_letter'' (transitionTaskTx e i [TaskStatusFailed] TaskStatusDeadLetter
             ''task.dead_letter''
             (''{\"reason\":\"terminal_failure\",\"reason_code\":'' @ quoteGo (ReasonCode d) @ ''}'') None None))
      (\<lambda>ok. if \<not> ok then failS ErrNoRows
        else bindS (wrapS ''clear lease dead_letter'' (execS (updTasks (taskAt i TaskStatusDeadLetter) (clearLease e))))
          (\<lambda>_. retS (Commit (d\<lparr>Outcome := FailureOutcomeDeadLetter\<rparr>)))) s1"
    unfolding deadLetterTx_def s1_def ev_def using assms ids hs
    by (subst transition_then_update_runs [of _ r]) (auto simp: canTransition_def)
  also have "\<dots> = retS (Commit (d\<lparr>Outcome := FailureOutcomeDeadLetter\<rparr>)) s2"
    unfolding s2_def ev2_def using assms(1) ids hs changed_row [OF assms(3,4), of ?f ev]
    by (subst transition_then_update_runs [of _ "?f r"])
      (auto simp: s1_def assms(4) canTransition_def map_updWhere)
  finally have run: "deadLetterTx e i msg d s = (Inr (Commit (d\<lparr>Outcome := FailureOutcomeDeadLetter\<rparr>)), s2)"
    by (simp add: retS_def)
  have tk: "tasks s2 = updWhere (\<lambda>q. t_id q = i) (failedMeta e msg d TaskStatusDeadLetter) (tasks s)"
    unfolding s2_def s1_def by (subst changeTask_twice) (simp_all only: deadRow_steps, simp)
  have "faults s2 = []" using assms(1) by (simp add: s2_def s1_def)
  moreover have "map (\<lambda>x. (e_task_id x, e_state_to x)) (newEvents s s2) = [(i, TaskStatusFailed), (i, TaskStatusDeadLetter)]"
    by (simp add: newEvents_def s2_def s1_def ev_def ev2_def)
  ultimately show thesis using run tk by (intro that [of s2])
qed

lemma HandleTaskFailure_select:
  assumes "faults s = []"
  shows "HandleTaskFailure e i msg s =
    with_tx (ErrWrap ''begin handle failure tx'')
      (\<lambda>d. case Outcome d of FailureOutcomeDeadLetter \<Rightarrow> ErrWrap ''commit dead_letter tx''
           | FailureOutcomeRetried \<Rightarrow> ErrWrap ''commit retry tx'')
      (case findTask i s of None \<Rightarrow> failS ErrNoRows
       | Some r \<Rightarrow> if t_status r \<noteq> TaskStatusRunning then failS ErrNoRows
          else let d = failureDecision msg r in
            (case Outcome d of FailureOutcomeDeadLetter \<Rightarrow> deadLetterTx e i msg d
             | FailureOutcomeRetried \<Rightarrow> retryTx e i msg d)) s"
proof -
  have "bindS (wrapS ''select task for failure handling'' (noRowsAsNone (queryRow (findTask i)))) k s = k (findTask i s) s"
    for k :: "task_row option \<Rightarrow> 'a store_scheme \<Rightarrow> (err + FailureDecision tx_end) \<times> 'a store_scheme"
    using assms by (simp add: bindS_def wrapS_def noRowsAsNone_def queryRow_def stmt_def split: option.splits)
  then show ?thesis
    unfolding HandleTaskFailure_def with_tx_def using assms by (simp add: execS_def stmt_def)
qed

definition backoffOf :: "env \<Rightarrow> string \<Rightarrow> FailureDecision \<Rightarrow> FailureDecision" where
  "backoffOf e i d = (case Outcome d of FailureOutcomeDeadLetter \<Rightarrow> d
     | FailureOutcomeRetried \<Rightarrow> d\<lparr>BackoffUntil := Some (nowPlus e (retryDelay i (FAttempt d)))\<rparr>)"

text \<open>C7. Handling a failure is total and exact. Without failing statements, for a running task it
  returns the decision computed from the row; a retried task is queued again with its attempt and
  poison counters advanced, no lease, and an availability time in the future; a hopeless one ends in
  the dead letter queue; exactly two events are appended. For a task that is not running it returns
  \<open>sql.ErrNoRows\<close> and changes nothing.\<close>

theorem failure_equation:
  assumes nf: "faults s = []" and inv: "store_inv s"
  shows "case findTask i s of
      Some r \<Rightarrow> if t_status r = TaskStatusRunning then
          (\<exists>s'. let d = failureDecision msg r; dead = (Outcome d = FailureOutcomeDeadLetter) in
             HandleTaskFailure e i msg s = (Inr (backoffOf e i d), s') \<and>
             tasks s' = updWhere (\<lambda>q. t_id q = i)
               (if dead then failedMeta e msg d TaskStatusDeadLetter else retriedRow e msg d) (tasks s) \<and>
             map (\<lambda>x. (e_task_id x, e_state_to x)) (newEvents s s') =
               (if dead then [(i, TaskStatusFailed), (i, TaskStatusDeadLetter)]
                else [(i, TaskStatusRetryWait), (i, TaskStatusQueued)]))
        else HandleTaskFailure e i msg s = (Inl ErrNoRows, s)
    | None \<Rightarrow> HandleTaskFailure e i msg s = (Inl ErrNoRows, s)"
proof (cases "\<exists>r. findTask i s = Some r \<and> t_status r = TaskStatusRunning")
  case False
  with nf show ?thesis
    by (auto simp: HandleTaskFailure_select with_tx_def execS_def stmt_def failS_def split: option.splits)
next
  case True
  then obtain r where f: "findTask i s = Some r" and st: "t_status r = TaskStatusRunning" by blast
  from findTask_Some [OF f] have r: "r \<in> set (tasks s)" "t_id r = i" by auto
  define d where "d = failureDecision msg r"
  show ?thesis
  proof (cases "Outcome d")
    case FailureOutcomeDeadLetter
    obtain s' where s': "deadLetterTx e i msg d s = (Inr (Commit (d\<lparr>Outcome := FailureOutcomeDeadLetter\<rparr>)), s')" "faults s' = []"
      "tasks s' = updWhere (\<lambda>q. t_id q = i) (failedMeta e msg d TaskStatusDeadLetter) (tasks s)"
      "map (\<lambda>x. (e_task_id x, e_state_to x)) (newEvents s s') = [(i, TaskStatusFailed), (i, TaskStatusDeadLetter)]"
      using nf inv r st by (rule deadLetterTx_runs)
    have "d\<lparr>Outcome := FailureOutcomeDeadLetter\<rparr> = backoffOf e i d" using FailureOutcomeDeadLetter by (simp add: backoffOf_def)
    with s' f st FailureOutcomeDeadLetter show ?thesis
      by (auto simp: HandleTaskFailure_select [OF nf] Let_def d_def [symmetric] intro!: exI [of _ s'] with_tx_runs [OF nf])
  next
    case FailureOutcomeRetried
    obtain s' where s': "retryTx e i msg d s = (Inr (Commit (d\<lparr>Outcome := FailureOutcomeRetried,
        BackoffUntil := Some (nowPlus e (retryDelay i (FAttempt d)))\<rparr>)), s')" "faults s' = []"
      "tasks s' = updWhere (\<lambda>q. t_id q = i) (retriedRow e msg d) (tasks s)"
      "map (\<lambda>x. (e_task_id x, e_state_to x)) (newEvents s s') = [(i, TaskStatusRetryWait), (i, TaskStatusQueued)]"
      using nf inv r st by (rule retryTx_runs)
    have "d\<lparr>Outcome := FailureOutcomeRetried, BackoffUntil := Some (nowPlus e (retryDelay i (FAttempt d)))\<rparr> = backoffOf e i d"
      using FailureOutcomeRetried by (simp add: backoffOf_def)
    with s' f st FailureOutcomeRetried show ?thesis
      by (auto simp: HandleTaskFailure_select [OF nf] Let_def d_def [symmetric] intro!: exI [of _ s'] with_tx_runs [OF nf])
  qed
qed

lemma exRunning_find: obtains r where "findTask ''t1'' exRunning = Some r" "t_status r = TaskStatusRunning" "t_attempt r = 0"
    "t_max_attempts r = 3" "t_last_error_fingerprint r = None"
  by (simp add: exRunning_eq exTables_def findTask_def firstWhere_def exRow_def)

lemma exRunning_faults: "faults exRunning = []"
  by (simp add: exRunning_eq exTables_def emptyStore_def)

theorem failure_equation_witness:
  "\<exists>d s'. HandleTaskFailure (exEnv 110) ''t1'' ''boom'' exRunning = (Inr d, s') \<and> Outcome d = FailureOutcomeRetried \<and>
     map (\<lambda>x. (e_task_id x, e_state_to x)) (newEvents exRunning s') = [(''t1'', TaskStatusRetryWait), (''t1'', TaskStatusQueued)]"
proof -
  obtain r where r: "findTask ''t1'' exRunning = Some r" "t_status r = TaskStatusRunning" "t_attempt r = 0"
    "t_max_attempts r = 3" "t_last_error_fingerprint r = None" by (rule exRunning_find)
  have "Outcome (failureDecision ''boom'' r) = FailureOutcomeRetried"
    by (simp add: failureDecision_def Let_def r poisonThreshold_def)
  then show ?thesis
    using failure_equation [OF exRunning_faults ex_inv(6), where i = "''t1''" and msg = "''boom''" and e = "exEnv 110"] r
    by (auto simp: Let_def backoffOf_def)
qed

section \<open>The retry budget\<close>

lemma failureDecision_retried:
  "Outcome (failureDecision msg r) = FailureOutcomeRetried \<longleftrightarrow>
     t_attempt r + 1 < FMaxAttempts (failureDecision msg r) \<and> FPoisonCount (failureDecision msg r) < poisonThreshold"
  by (auto simp: failureDecision_def Let_def)

lemma deadLetterTx_outcome: "deadLetterTx e i msg d s = (Inr y, s') \<Longrightarrow> y = Commit (d\<lparr>Outcome := FailureOutcomeDeadLetter\<rparr>)"
  unfolding deadLetterTx_def by (auto simp: bindS_Inr split: if_splits)

lemma retryTx_outcome: "retryTx e i msg d s = (Inr y, s') \<Longrightarrow> y = Commit (d\<lparr>Outcome := FailureOutcomeRetried,
        BackoffUntil := Some (nowPlus e (retryDelay i (FAttempt d)))\<rparr>)"
  unfolding retryTx_def Let_def by (auto simp: bindS_Inr split: if_splits)

lemma HandleTaskFailure_InrE:
  assumes "HandleTaskFailure e i msg s = (Inr d, s')"
  obtains r where "r \<in> set (tasks s)" "t_id r = i" "t_status r = TaskStatusRunning" "d = backoffOf e i (failureDecision msg r)"
proof -
  from assms obtain s1 s2 y where st: "same_tables s s1" and y: "y = Commit d \<or> y = Abandon d" and
    run: "bindS (wrapS ''select task for failure handling'' (noRowsAsNone (queryRow (findTask i))))
      (\<lambda>row. case row of None \<Rightarrow> failS ErrNoRows
       | Some r \<Rightarrow>
          if t_status r \<noteq> TaskStatusRunning then failS ErrNoRows
          else let d = failureDecision msg r in
            (case Outcome d of FailureOutcomeDeadLetter \<Rightarrow> deadLetterTx e i msg d
             | FailureOutcomeRetried \<Rightarrow> retryTx e i msg d)) s1 = (Inr y, s2)"
    unfolding HandleTaskFailure_def by (rule with_tx_InrE) blast+
  from run obtain row s3 where q: "noRowsAsNone (queryRow (findTask i)) s1 = (Inr row, s3)"
    and rest: "(case row of None \<Rightarrow> failS ErrNoRows
       | Some r \<Rightarrow>
          if t_status r \<noteq> TaskStatusRunning then failS ErrNoRows
          else let d = failureDecision msg r in
            (case Outcome d of FailureOutcomeDeadLetter \<Rightarrow> deadLetterTx e i msg d
             | FailureOutcomeRetried \<Rightarrow> retryTx e i msg d)) s3 = (Inr y, s2)"
    unfolding bindS_Inr wrapS_Inr by blast
  from rest obtain r where row: "row = Some r" and run: "t_status r = TaskStatusRunning" by (cases row) (auto split: if_splits)
  from q row st have "findTask i s = Some r" by (auto elim!: noRows_InrE same_tables_elim)
  then have "r \<in> set (tasks s)" "t_id r = i" using findTask_Some by auto
  moreover have "d = backoffOf e i (failureDecision msg r)"
    using rest row run y
    by (cases "Outcome (failureDecision msg r)")
      (auto simp: Let_def backoffOf_def dest!: deadLetterTx_outcome retryTx_outcome)
  ultimately show thesis using run by (intro that)
qed



section \<open>Expired leases and crashed runs return to the queue\<close>

definition requeuedRow :: "env \<Rightarrow> task_row \<Rightarrow> task_row" where
  "requeuedRow e r = r\<lparr>t_status := TaskStatusQueued, t_lease_owner := None, t_lease_expires_at := None,
     t_updated_at := CURRENT_TIMESTAMP e\<rparr>"

lemma requeuedRow_simps [simp]: "t_id (requeuedRow e r) = t_id r" "t_session_id (requeuedRow e r) = t_session_id r"
  "t_status (requeuedRow e r) = TaskStatusQueued"
  by (simp_all add: requeuedRow_def)

lemma requeuedRow_steps: "clearLease e \<circ> transitionRow e TaskStatusQueued None None = requeuedRow e"
  by (rule ext) (simp add: requeuedRow_def clearLease_def transitionRow_def)

text \<open>The effect every iteration of the two loops has on the task and event tables.\<close>

definition requeues :: "env \<Rightarrow> task_row \<Rightarrow> 'x store_scheme \<Rightarrow> 'x store_scheme \<Rightarrow> bool" where
  "requeues e r s t \<longleftrightarrow> faults t = [] \<and> sessions t = sessions s \<and>
     tasks t = updWhere (\<lambda>q. t_id q = t_id r) (requeuedRow e) (tasks s) \<and>
     (\<exists>ev. task_events t = task_events s @ [ev] \<and> e_task_id ev = t_id r \<and> e_state_to ev = TaskStatusQueued)"

lemma countEachS_requeues:
  assumes step: "\<And>r s. faults s = [] \<Longrightarrow> ids_unique s \<Longrightarrow> r \<in> set (tasks s) \<Longrightarrow> inFlight r \<Longrightarrow>
      hasSession (t_session_id r) s \<Longrightarrow> \<exists>t. f r s = (Inr True, t) \<and> requeues e r s t"
  shows "faults s = [] \<Longrightarrow> ids_unique s \<Longrightarrow> distinct (map t_id xs) \<Longrightarrow> set xs \<subseteq> set (tasks s) \<Longrightarrow>
    \<forall>r\<in>set xs. inFlight r \<and> hasSession (t_session_id r) s \<Longrightarrow>
    \<exists>t. countEachS f xs n s = (Inr (n + length xs), t) \<and> faults t = [] \<and>
      tasks t = updWhere (\<lambda>q. t_id q \<in> t_id ` set xs) (requeuedRow e) (tasks s) \<and>
      map (\<lambda>x. (e_task_id x, e_state_to x)) (newEvents s t) = map (\<lambda>r. (t_id r, TaskStatusQueued)) xs \<and>
      prefix (task_events s) (task_events t)"
proof (induction xs arbitrary: s n)
  case Nil
  then show ?case by (auto simp: retS_def newEvents_def updWhere_def)
next
  case (Cons r xs)
  from Cons.prems obtain t where t: "f r s = (Inr True, t)" and rq: "requeues e r s t" using step [of s r] by auto
  have tk: "tasks t = updWhere (\<lambda>q. t_id q = t_id r) (requeuedRow e) (tasks s)" using rq by (simp add: requeues_def)
  have sub: "set xs \<subseteq> set (tasks t)"
  proof
    fix x assume x: "x \<in> set xs"
    with Cons.prems(3) have "t_id x \<noteq> t_id r" by (auto simp: image_iff)
    with x Cons.prems(4) show "x \<in> set (tasks t)" by (auto simp: tk row_simps)
  qed
  have "\<exists>u. countEachS f xs (Suc n) t = (Inr (Suc n + length xs), u) \<and> faults u = [] \<and>
      tasks u = updWhere (\<lambda>q. t_id q \<in> t_id ` set xs) (requeuedRow e) (tasks t) \<and>
      map (\<lambda>x. (e_task_id x, e_state_to x)) (newEvents t u) = map (\<lambda>r. (t_id r, TaskStatusQueued)) xs \<and>
      prefix (task_events t) (task_events u)"
    using Cons.prems rq sub by (intro Cons.IH) (auto simp: requeues_def map_updWhere hasSession_def)
  then obtain u where u: "countEachS f xs (Suc n) t = (Inr (Suc n + length xs), u)" "faults u = []"
      "tasks u = updWhere (\<lambda>q. t_id q \<in> t_id ` set xs) (requeuedRow e) (tasks t)"
      "map (\<lambda>x. (e_task_id x, e_state_to x)) (newEvents t u) = map (\<lambda>r. (t_id r, TaskStatusQueued)) xs"
      "prefix (task_events t) (task_events u)" by blast
  from rq obtain ev where ev: "task_events t = task_events s @ [ev]" "e_task_id ev = t_id r" "e_state_to ev = TaskStatusQueued"
    by (auto simp: requeues_def)
  from u(5) obtain zs where zs: "task_events u = task_events t @ zs" by (auto simp: prefix_def)
  have "tasks u = updWhere (\<lambda>q. t_id q \<in> t_id ` set (r # xs)) (requeuedRow e) (tasks s)"
    unfolding u(3) tk using Cons.prems(3) by (auto simp: updWhere_def)
  moreover have "map (\<lambda>x. (e_task_id x, e_state_to x)) (newEvents s u) = map (\<lambda>r. (t_id r, TaskStatusQueued)) (r # xs)"
    using u(4) ev zs by (simp add: newEvents_def)
  ultimately show ?case using t u(1,2) ev zs by (auto simp: bindS_def)
qed

lemma requeueOne_requeues:
  assumes "faults s = []" "ids_unique s" "r \<in> set (tasks s)" "inFlight r" "hasSession (t_session_id r) s"
  shows "\<exists>t. requeueOne e (t_id r) s = (Inr True, t) \<and> requeues e r s t"
  unfolding requeueOne_def using assms
  by (subst transition_then_update_runs [of _ r])
    (auto simp: inFlight_def canTransition_def retS_def requeues_def requeuedRow_steps changeTask_def)

lemma countEachS_map: "countEachS f (map g xs) n s = countEachS (f \<circ> g) xs n s"
  by (induction xs arbitrary: n s) (auto simp: bindS_def split: prod.splits sum.splits)

lemma updWhere_ids:
  assumes "distinct (map t_id rs)"
  shows "updWhere (\<lambda>q. t_id q \<in> t_id ` {x \<in> set rs. P x}) f rs = updWhere P f rs"
proof -
 have "t_id q \<in> t_id ` {x \<in> set rs. P x} \<longleftrightarrow> P q" if "q \<in> set rs" for q
    using distinct_key_unique [OF assms that] that by (auto simp: image_iff)
  then show ?thesis by (auto simp: updWhere_def intro!: map_cong)
qed

text \<open>Requeueing expired leases, when no statement fails, returns the number of expired leases,
  puts exactly those tasks back into the queue without a lease, leaves every other row alone, and
  appends one event per task.\<close>

theorem requeue_equation:
  assumes nf: "faults s = []" and inv: "store_inv s"
  shows "\<exists>s'. RequeueExpiredLeases e s = (Inr (countWhere (leaseExpired e) (tasks s)), s') \<and>
    tasks s' = updWhere (leaseExpired e) (requeuedRow e) (tasks s) \<and>
    map (\<lambda>x. (e_task_id x, e_state_to x)) (newEvents s s') =
      map (\<lambda>r. (t_id r, TaskStatusQueued)) (filter (leaseExpired e) (tasks s))"
proof -
  let ?xs = "filter (leaseExpired e) (tasks s)"
  have ids: "ids_unique s" using inv by (rule store_inv_ids)
  have "\<exists>t. countEachS (requeueOne e \<circ> t_id) ?xs 0 s = (Inr (0 + length ?xs), t) \<and> faults t = [] \<and>
      tasks t = updWhere (\<lambda>q. t_id q \<in> t_id ` set ?xs) (requeuedRow e) (tasks s) \<and>
      map (\<lambda>x. (e_task_id x, e_state_to x)) (newEvents s t) = map (\<lambda>r. (t_id r, TaskStatusQueued)) ?xs \<and>
      prefix (task_events s) (task_events t)"
    using nf ids inv_session [OF inv]
    by (intro countEachS_requeues) (auto simp: requeueOne_requeues distinct_map_filter leaseExpired_def inFlight_def)
  then obtain t where t: "countEachS (requeueOne e) (map t_id ?xs) 0 s = (Inr (length ?xs), t)" "faults t = []"
      "tasks t = updWhere (leaseExpired e) (requeuedRow e) (tasks s)"
      "map (\<lambda>x. (e_task_id x, e_state_to x)) (newEvents s t) = map (\<lambda>r. (t_id r, TaskStatusQueued)) ?xs"
    by (auto simp: countEachS_map updWhere_ids [OF ids])
  have "RequeueExpiredLeases e s = (Inr (length ?xs), t)"
    unfolding RequeueExpiredLeases_def
    by (rule with_tx_runs) (use nf t in \<open>simp_all add: bindS_def wrapS_def queryS_def stmt_def retS_def\<close>)
  with t show ?thesis by (auto simp: countWhere_def)
qed

theorem requeue_equation_witness:
  "\<exists>s'. RequeueExpiredLeases (exEnv 140) exRunning = (Inr 1, s') \<and> map t_status (tasks s') = [TaskStatusQueued]"
proof -
  have c: "countWhere (leaseExpired (exEnv 140)) (tasks exRunning) = 1"
    by (simp add: exRunning_eq exTables_def countWhere_def leaseExpired_def store_eval)
  have "map t_status (updWhere (leaseExpired (exEnv 140)) (requeuedRow (exEnv 140)) (tasks exRunning)) = [TaskStatusQueued]"
    by (simp add: exRunning_eq exTables_def leaseExpired_def store_eval)
  with requeue_equation [OF exRunning_faults ex_inv(6), of "exEnv 140"] c show ?thesis by auto
qed

lemma recoverOne_requeues:
  assumes "faults s = []" "ids_unique s" "r \<in> set (tasks s)" "inFlight r" "hasSession (t_session_id r) s"
  shows "\<exists>t. recoverOne e sc r s = (Inr True, t) \<and> requeues e r s t"
proof -
  let ?ev = "transitionEvent e (t_id r) TaskStatusQueued ''task.recovered'' ''{\"reason\":\"startup_recovery\"}'' r (Suc (ev_seq s))"
  let ?t = "changeTask (t_id r) (requeuedRow e) ?ev s"
  have "recoverOne e sc r s = bindS (if t_status r = TaskStatusRunning
                then wrapS ''clean orphaned messages'' (execS (\<lambda>s. s\<lparr>messages := delWhere
                       (\<lambda>m. m_session_id m = t_session_id r \<and> m_role m = ''assistant'' \<and>
                            sc (t_updated_at r) \<le> m_created_at m) (messages s)\<rparr>))
                else retS ()) (\<lambda>_. retS True) ?t"
    unfolding recoverOne_def using assms
    by (subst transition_then_update_runs [of _ r]) (auto simp: inFlight_def canTransition_def requeuedRow_steps)
  then show ?thesis
    using assms(1) by (auto simp: bindS_def wrapS_def execS_def stmt_def retS_def requeues_def changeTask_def)
qed

lemma recovery_runs:
  assumes nf: "faults s = []" and inv: "store_inv s"
  shows "\<exists>s'. RecoverRunningTasks e sc s = (Inr (countWhere inFlight (tasks s)), s') \<and>
    tasks s' = updWhere inFlight (requeuedRow e) (tasks s) \<and> (\<forall>r\<in>set (tasks s'). \<not> inFlight r) \<and> faults s' = []"
proof -
  let ?xs = "filter inFlight (tasks s)"
  have ids: "ids_unique s" using inv by (rule store_inv_ids)
  have "\<exists>t. countEachS (recoverOne e sc) ?xs 0 s = (Inr (0 + length ?xs), t) \<and> faults t = [] \<and>
      tasks t = updWhere (\<lambda>q. t_id q \<in> t_id ` set ?xs) (requeuedRow e) (tasks s) \<and>
      map (\<lambda>x. (e_task_id x, e_state_to x)) (newEvents s t) = map (\<lambda>r. (t_id r, TaskStatusQueued)) ?xs \<and>
      prefix (task_events s) (task_events t)"
    using nf ids inv_session [OF inv]
    by (intro countEachS_requeues) (auto simp: recoverOne_requeues distinct_map_filter)
  then obtain t where t: "countEachS (recoverOne e sc) ?xs 0 s = (Inr (length ?xs), t)" "faults t = []"
      "tasks t = updWhere inFlight (requeuedRow e) (tasks s)"
    by (auto simp: updWhere_ids [OF ids])
  have sel: "filter (\<lambda>r. t_status r = TaskStatusRunning \<or> t_status r = TaskStatusClaimed) (tasks s) = ?xs"
    by (rule filter_cong) (auto simp: inFlight_def)
  have "RecoverRunningTasks e sc s = (Inr (length ?xs), t)"
    unfolding RecoverRunningTasks_def
    by (rule with_tx_runs) (use nf t in \<open>simp_all add: bindS_def wrapS_def queryS_def stmt_def retS_def sel\<close>)
  moreover have "\<forall>r\<in>set (tasks t). \<not> inFlight r" by (auto simp: t(3) row_simps inFlight_def)
  ultimately show ?thesis using t(2,3) by (auto simp: countWhere_def)
qed

text \<open>Recovery at startup, when no statement fails, returns the number of tasks that were claimed
  or running, puts exactly those back into the queue without a lease, and leaves no task in flight.\<close>

theorem recovery_equation:
  assumes nf: "faults s = []" and inv: "store_inv s"
  shows "\<exists>s'. RecoverRunningTasks e sc s = (Inr (countWhere inFlight (tasks s)), s') \<and>
    tasks s' = updWhere inFlight (requeuedRow e) (tasks s) \<and> (\<forall>r\<in>set (tasks s'). \<not> inFlight r)"
  using recovery_runs [OF assms] by blast

theorem recovery_equation_witness:
  "\<exists>s'. RecoverRunningTasks (exEnv 103) id exRunning = (Inr 1, s') \<and> map t_status (tasks s') = [TaskStatusQueued]"
proof -
  have c: "countWhere inFlight (tasks exRunning) = 1"
    by (simp add: exRunning_eq exTables_def countWhere_def inFlight_def)
  have "map t_status (updWhere inFlight (requeuedRow (exEnv 103)) (tasks exRunning)) = [TaskStatusQueued]"
    by (simp add: exRunning_eq exTables_def inFlight_def updWhere_def)
  with recovery_equation [OF exRunning_faults ex_inv(6), of "exEnv 103" id] c show ?thesis by auto
qed

text \<open>
  The driver returns a \<open>DATETIME\<close> column as a \<open>time.Time\<close>, and scanning that into a Go string
  formats it as RFC 3339, so the text bound in the \<open>DELETE\<close> has a \<open>T\<close> where the stored one has a blank.
\<close>

definition rfc3339Scan :: "ts \<Rightarrow> ts" where
  "rfc3339Scan x = (case x of CurTs n \<Rightarrow> RfcTs n | GoTs n \<Rightarrow> RfcTs (n div 10^9) | RfcTs n \<Rightarrow> RfcTs n)"

definition orphaned :: "task_row \<Rightarrow> message_row \<Rightarrow> bool" where
  "orphaned t m \<longleftrightarrow> m_session_id m = t_session_id t \<and> m_role m = ''assistant'' \<and> t_updated_at t \<le> m_created_at m"

text \<open>Recovery does not clean up orphaned assistant messages of the same day: when the driver
  returns timestamps in RFC 3339 form, an assistant message that the crashed run wrote, on the day
  of the task's last update, survives the recovery of that task.\<close>

theorem recovery_keeps_orphans:
  assumes "\<And>x. sc x = rfc3339Scan x"
    and "faults s = []" and "store_inv s" and "r \<in> set (tasks s)" and "t_status r = TaskStatusRunning"
    and "m \<in> set (messages s)" and "orphaned r m" and "t_updated_at r = CurTs a" and "m_created_at m = CurTs b"
    and "a div 86400 = b div 86400"
  shows "\<exists>s'. recoverOne e sc r s = (Inr True, s') \<and> m \<in> set (messages s')"
proof -
  let ?ev = "transitionEvent e (t_id r) TaskStatusQueued ''task.recovered'' ''{\"reason\":\"startup_recovery\"}'' r (Suc (ev_seq s))"
  let ?D = "\<lambda>m. m_session_id m = t_session_id r \<and> m_role m = ''assistant'' \<and> sc (t_updated_at r) \<le> m_created_at m"
  let ?t = "changeTask (t_id r) (requeuedRow e) ?ev s"
  have "recoverOne e sc r s = bindS (wrapS ''clean orphaned messages'' (execS (\<lambda>s. s\<lparr>messages := delWhere ?D (messages s)\<rparr>)))
      (\<lambda>_. retS True) ?t"
    unfolding recoverOne_def using assms(2-5) store_inv_ids inv_session
    by (subst transition_then_update_runs [of _ r]) (auto simp: canTransition_def requeuedRow_steps)
  then have run: "recoverOne e sc r s = (Inr True, ?t\<lparr>messages := delWhere ?D (messages ?t)\<rparr>)"
    using assms(2) by (simp add: bindS_def wrapS_def execS_def stmt_def retS_def)
  have "\<not> ?D m" using assms(1,8-10) by (simp add: rfc3339Scan_def)
  then have "m \<in> set (delWhere ?D (messages ?t))" using assms(6) by (auto simp: delWhere_def changeTask_def)
  with run show ?thesis by simp
qed

definition exOrphan :: message_row where
  "exOrphan = \<lparr>m_id = 1, m_session_id = ''s'', m_agent_id = ''default'', m_role = ''assistant'', m_content = ''partial'',
     m_tokens = 1, m_created_at = CurTs 103, m_archived_at = None\<rparr>"

definition exCrashed :: store where
  "exCrashed = exRunning\<lparr>messages := [exOrphan], msg_seq := 1\<rparr>"

lemma exCrashed_inv: "store_inv exCrashed"
proof -
  have "good exRunning exCrashed" unfolding exCrashed_def using good_start [OF ex_inv(6)] by simp
  then show ?thesis by (simp add: good_def)
qed

theorem recovery_keeps_orphans_witness:
  "\<exists>r s'. orphaned r exOrphan \<and> recoverOne (exEnv 110) rfc3339Scan r exCrashed = (Inr True, s') \<and> exOrphan \<in> set (messages s')"
proof -
  let ?r = "exRow\<lparr>t_status := TaskStatusRunning, t_lease_owner := Some ''w'', t_lease_expires_at := Some (GoTs 132000000000),
      t_policy_version := Some ''v1'', t_updated_at := CurTs 102\<rparr>"
  have "faults exCrashed = []" "?r \<in> set (tasks exCrashed)" "exOrphan \<in> set (messages exCrashed)"
    by (simp_all add: exCrashed_def exRunning_eq exTables_def emptyStore_def)
  moreover have o: "orphaned ?r exOrphan" by (simp add: orphaned_def exOrphan_def exRow_def)
  ultimately show ?thesis
    using recovery_keeps_orphans [of rfc3339Scan exCrashed ?r exOrphan 102 103 "exEnv 110"] exCrashed_inv
    by (auto simp: exOrphan_def)
qed

section \<open>FailTask\<close>

text \<open>\<open>FailTask\<close> names the queued and claimed states among those it accepts, but the transition
  table has no step from them to FAILED: for such a task the call always returns an error about an
  illegal transition and changes nothing.\<close>

theorem fail_rejects_unstarted:
  assumes nf: "faults s = []" and inv: "store_inv s" and f: "findTask i s = Some r"
    and st: "t_status r \<in> {TaskStatusQueued, TaskStatusClaimed}"
  shows "FailTask e i msg s = (Inl (ErrWrap ''fail task transition''
     (ErrMsg (''illegal transition '' @ statusString (t_status r) @ '' -> FAILED''))), s)"
proof -
  have "\<not> canTransition (t_status r) TaskStatusFailed" using st by (auto simp: canTransition_def)
  moreover have "t_status r \<in> set [TaskStatusQueued, TaskStatusClaimed, TaskStatusRunning, TaskStatusRetryWait]" using st by auto
  ultimately have "transitionTaskTx e i [TaskStatusQueued, TaskStatusClaimed, TaskStatusRunning, TaskStatusRetryWait] TaskStatusFailed
      ''task.failed'' pl None (Some msg) s = (Inl (ErrMsg (''illegal transition '' @ statusString (t_status r) @ '' -> FAILED'')), s)" for pl
    using nf f by (auto simp: transitionTaskTx_def bindS_def wrapS_def noRowsAsNone_def queryRow_def stmt_def failS_def)
  then show ?thesis
    using nf by (simp add: FailTask_def bindS_def wrapS_def with_tx_def execS_def stmt_def)
qed

theorem fail_rejects_unstarted_witness:
  "FailTask (exEnv 102) ''t1'' ''boom'' exQueued =
     (Inl (ErrWrap ''fail task transition'' (ErrMsg ''illegal transition QUEUED -> FAILED'')), exQueued)"
proof -
  have "faults exQueued = []" "findTask ''t1'' exQueued = Some exRow" "t_status exRow = TaskStatusQueued"
    by (simp_all add: exQueued_eq exTables_def emptyStore_def findTask_def firstWhere_def exRow_def)
  then show ?thesis using fail_rejects_unstarted [of exQueued "''t1''" exRow "exEnv 102" "''boom''"] ex_inv(4) by simp
qed

section \<open>Completing a task\<close>

definition succeededRow :: "env \<Rightarrow> string \<Rightarrow> task_row \<Rightarrow> task_row" where
  "succeededRow e res r = r\<lparr>t_status := TaskStatusSucceeded, t_result := Some res, t_error := None, t_lease_owner := None,
     t_lease_expires_at := None, t_updated_at := CURRENT_TIMESTAMP e\<rparr>"

lemma succeededRow_steps:
  "(\<lambda>r. (clearLease e r)\<lparr>t_error := None\<rparr>) \<circ> transitionRow e TaskStatusSucceeded (Some res) None = succeededRow e res"
  by (rule ext) (simp add: succeededRow_def clearLease_def transitionRow_def)

text \<open>Publishing and recording metrics leave tasks and events alone.\<close>

interpretation tk: task_invariant "\<lambda>s. tasks s = T \<and> task_events s = E" for T E
  by unfold_locales simp_all

lemma notify_keeps_tasks:
  "tasks (snd (bindS (publishTask i t mk) (\<lambda>_. ignoreS (RecordTaskMetrics e i)) s)) = tasks s"
  "task_events (snd (bindS (publishTask i t mk) (\<lambda>_. ignoreS (RecordTaskMetrics e i)) s)) = task_events s"
proof -
  have "tasks (snd (bindS (publishTask i t mk) (\<lambda>_. ignoreS (RecordTaskMetrics e i)) s)) = tasks s \<and>
    task_events (snd (bindS (publishTask i t mk) (\<lambda>_. ignoreS (RecordTaskMetrics e i)) s)) = task_events s"
    by (rule tk.bindS_keeps, erule tk.publishTask_keeps, rule tk.ignoreS_keeps, erule tk.RecordTaskMetrics_keeps, simp)
  then show "tasks (snd (bindS (publishTask i t mk) (\<lambda>_. ignoreS (RecordTaskMetrics e i)) s)) = tasks s"
    "task_events (snd (bindS (publishTask i t mk) (\<lambda>_. ignoreS (RecordTaskMetrics e i)) s)) = task_events s" by auto
qed

lemma notify_Inr: "fst (bindS (publishTask i t mk) (\<lambda>_. ignoreS m) s) = Inr ()"
  using publishTask_Inr [of i t mk s] by (auto simp: bindS_def ignoreS_def)

lemma CompleteTask_refused:
  assumes "faults s = []" and "\<forall>r. findTask i s = Some r \<longrightarrow> t_status r \<noteq> TaskStatusRunning"
  shows "CompleteTask e i res s = (Inl ErrNoRows, s)"
proof -
  have "transitionTaskTx e i [TaskStatusRunning] TaskStatusSucceeded ty pl (Some res) None s = (Inr False, s)" for ty pl
    using assms by (auto simp: transitionTaskTx_def bindS_def wrapS_def noRowsAsNone_def queryRow_def stmt_def retS_def split: option.splits)
  then show ?thesis using assms(1) by (simp add: CompleteTask_def bindS_def wrapS_def with_tx_def execS_def stmt_def failS_def)
qed

lemma CompleteTask_run:
  assumes nf: "faults s = []" and inv: "store_inv s" and f: "findTask i s = Some r" and st: "t_status r = TaskStatusRunning"
  obtains ev where "e_task_id ev = i" "e_state_to ev = TaskStatusSucceeded"
    "CompleteTask e i res s = bindS (publishTask i ''task.completed'' (\<lambda>task. PMap [(''task_id'', VStr i),
       (''session_id'', VStr (TSessionID task)), (''status'', VStatus TaskStatusSucceeded)]))
     (\<lambda>_. ignoreS (RecordTaskMetrics e i)) (changeTask i (succeededRow e res) ev s)"
proof -
  from findTask_Some [OF f] have r: "r \<in> set (tasks s)" "t_id r = i" by auto
  let ?ev = "transitionEvent e i TaskStatusSucceeded ''task.succeeded'' ''{\"reason\":\"processor_success\"}'' r (Suc (ev_seq s))"
  let ?t = "changeTask i (succeededRow e res) ?ev s"
  have "with_tx (ErrWrap ''begin complete task tx'') (\<lambda>_. ErrWrap ''commit complete task tx'')
      (bindS (wrapS ''complete task transition'' (transitionTaskTx e i [TaskStatusRunning] TaskStatusSucceeded
                ''task.succeeded'' ''{\"reason\":\"processor_success\"}'' (Some res) None))
       (\<lambda>ok. if \<not> ok then failS ErrNoRows
          else bindS (wrapS ''clear lease on complete'' (execS (updTasks (taskAt i TaskStatusSucceeded)
                   (\<lambda>r. (clearLease e r)\<lparr>t_error := None\<rparr>))))
                 (\<lambda>_. retS (Commit ())))) s = (Inr (), ?t)"
    by (rule with_tx_runs, rule nf, subst transition_then_update_runs [of _ r])
      (use nf inv r st store_inv_ids inv_session in \<open>auto simp: canTransition_def succeededRow_steps retS_def\<close>)
  then have "CompleteTask e i res s = bindS (publishTask i ''task.completed'' (\<lambda>task. PMap [(''task_id'', VStr i),
                   (''session_id'', VStr (TSessionID task)), (''status'', VStatus TaskStatusSucceeded)]))
     (\<lambda>_. ignoreS (RecordTaskMetrics e i)) ?t"
    by (simp add: CompleteTask_def bindS_def [of "with_tx _ _ _"])
  moreover have "e_task_id ?ev = i" "e_state_to ?ev = TaskStatusSucceeded" by simp_all
  ultimately show thesis using that by blast
qed

lemma CompleteTask_outcome:
  assumes nf: "faults s = []" and inv: "store_inv s" and f: "findTask i s = Some r" and st: "t_status r = TaskStatusRunning"
  shows "fst (CompleteTask e i res s) = Inr ()"
    and "tasks (snd (CompleteTask e i res s)) = updWhere (\<lambda>q. t_id q = i) (succeededRow e res) (tasks s)"
    and "map (\<lambda>x. (e_task_id x, e_state_to x)) (newEvents s (snd (CompleteTask e i res s))) = [(i, TaskStatusSucceeded)]"
  by (rule CompleteTask_run [OF assms, of e res], simp add: notify_Inr notify_keeps_tasks newEvents_def)+

text \<open>Completing a running task stores its result, clears its error and its lease and appends one
  event; a failure to publish or to record metrics afterwards is not reported and cannot undo it.
  A task that is not running is refused with \<open>sql.ErrNoRows\<close> and nothing changes.\<close>

theorem complete_equation:
  assumes nf: "faults s = []" and inv: "store_inv s"
  shows "case findTask i s of
      Some r \<Rightarrow> if t_status r = TaskStatusRunning then
          fst (CompleteTask e i res s) = Inr () \<and>
          tasks (snd (CompleteTask e i res s)) = updWhere (\<lambda>q. t_id q = i) (succeededRow e res) (tasks s) \<and>
          map (\<lambda>x. (e_task_id x, e_state_to x)) (newEvents s (snd (CompleteTask e i res s))) = [(i, TaskStatusSucceeded)]
        else CompleteTask e i res s = (Inl ErrNoRows, s)
    | None \<Rightarrow> CompleteTask e i res s = (Inl ErrNoRows, s)"
  using CompleteTask_outcome [OF nf inv] CompleteTask_refused [OF nf] by (auto split: option.splits)

theorem complete_equation_witness:
  "fst (CompleteTask (exEnv 103) ''t1'' ''ok'' exRunning) = Inr () \<and>
   map (\<lambda>r. (t_status r, t_result r)) (tasks (snd (CompleteTask (exEnv 103) ''t1'' ''ok'' exRunning))) = [(TaskStatusSucceeded, Some ''ok'')]"
proof -
  have "map (\<lambda>r. (t_status r, t_result r)) (updWhere (\<lambda>q. t_id q = ''t1'') (succeededRow (exEnv 103) ''ok'') (tasks exRunning)) =
      [(TaskStatusSucceeded, Some ''ok'')]"
    by (simp add: exRunning_eq exTables_def updWhere_def succeededRow_def exRow_def)
  moreover obtain r where "findTask ''t1'' exRunning = Some r" "t_status r = TaskStatusRunning" by (rule exRunning_find)
  ultimately show ?thesis
    using complete_equation [OF exRunning_faults ex_inv(6), where i = "''t1''" and e = "exEnv 103" and res = "''ok''"] by simp
qed
end
