(* ===== verification/Task_Frame.thy ===== *)
theory Task_Frame
  imports Task_Lifecycle
begin

text \<open>
  The frame of the task operations: a property of the database that does not depend on the task,
  event, metric and message tables, nor on the bus, is kept by every operation of the task queue,
  whatever fails. The locale states that contract once; components that own other tables interpret
  it. The ledger of tool calls, the key-value table and the shared task context are its first
  clients: their contents survive every operation but their own.
\<close>

section \<open>Control flow\<close>

context table_invariant
begin

lemma tx_keeps: "(\<And>s. I s \<Longrightarrow> I (snd (body s))) \<Longrightarrow> I s \<Longrightarrow> I (snd (with_tx wb wc body s))"
  by (rule with_tx_keeps) (metis snd_conv, assumption)

lemma if_keeps: "(b \<Longrightarrow> I (snd (f s))) \<Longrightarrow> (\<not> b \<Longrightarrow> I (snd (g s))) \<Longrightarrow> I (snd ((if b then f else g) s))"
  by simp

lemma opt_keeps: "I (snd (f s)) \<Longrightarrow> (\<And>x. I (snd (g x s))) \<Longrightarrow> I (snd ((case o' of None \<Rightarrow> f | Some x \<Rightarrow> g x) s))"
  by (cases o') auto

lemma pair_keeps: "(\<And>x y. I (snd (f x y s))) \<Longrightarrow> I (snd ((case p of (x, y) \<Rightarrow> f x y) s))"
  by (cases p) auto

lemma outcome_keeps: "I (snd (f s)) \<Longrightarrow> I (snd (g s)) \<Longrightarrow>
    I (snd ((case o' of FailureOutcomeRetried \<Rightarrow> f | FailureOutcomeDeadLetter \<Rightarrow> g) s))"
  by (cases o') auto

lemma retS_keeps: "I s \<Longrightarrow> I (snd (retS a s))"
  by (simp add: retS_def)

lemma failS_keeps: "I s \<Longrightarrow> I (snd (failS er s))"
  by (simp add: failS_def)

lemmas flow_intros = tx_keeps if_keeps opt_keeps pair_keeps outcome_keeps retS_keeps failS_keeps bindS_keeps wrapS_keeps
  execS_keeps execCount_keeps execCheck_keeps queryS_keeps queryRow_keeps noRowsAsNone_keeps retryOnBusy_keeps
  countEachS_keeps ignoreS_keeps

end

section \<open>The frame\<close>

locale task_frame = task_invariant I for I :: "'x store_scheme \<Rightarrow> bool" +
  assumes I_tasks: "I (s\<lparr>tasks := ts\<rparr>) \<longleftrightarrow> I s"
    and I_events: "I (s\<lparr>task_events := es\<rparr>) \<longleftrightarrow> I s"
    and I_seq: "I (s\<lparr>ev_seq := n\<rparr>) \<longleftrightarrow> I s"
    and I_messages: "I (s\<lparr>messages := ms'\<rparr>) \<longleftrightarrow> I s"
    and I_msg_seq: "I (s\<lparr>msg_seq := n\<rparr>) \<longleftrightarrow> I s"
begin

lemma updTasks_keeps: "I s \<Longrightarrow> I (updTasks P f s)"
  by (simp add: updTasks_def I_tasks)

lemma insertEvent_keeps: "I s \<Longrightarrow> I (insertEvent ev s)"
  by (simp add: insertEvent_def I_events I_seq)

lemma insertMessage_keeps: "I s \<Longrightarrow> I (insertMessage e sid a r c n s)"
  by (simp add: insertMessage_def I_messages I_msg_seq)

lemmas frame_intros = flow_intros updTasks_keeps insertEvent_keeps insertMessage_keeps publishTask_keeps
  RecordTaskMetrics_keeps publishS_keeps

lemma appendTaskEventTx_frame: "I s \<Longrightarrow> I (snd (appendTaskEventTx e i sid f to ty pl s))"
  unfolding appendTaskEventTx_def Let_def by (intro frame_intros)

lemma transitionTaskTx_frame: "I s \<Longrightarrow> I (snd (transitionTaskTx e i fs to ty pl res em s))"
  unfolding transitionTaskTx_def by (intro frame_intros appendTaskEventTx_frame)

lemma createTask_frame: "I s \<Longrightarrow> I (snd (createTask e i a sid pl s))"
  unfolding createTask_def Let_def by (intro frame_intros appendTaskEventTx_frame) (simp_all add: I_tasks)

lemma claim_frame: "I s \<Longrightarrow> I (snd (claimNextPendingTask e ow a s))"
  unfolding claimNextPendingTask_def claimTx_def by (intro frame_intros transitionTaskTx_frame)

lemma StartTaskRun_frame: "I s \<Longrightarrow> I (snd (StartTaskRun e i ow pv s))"
  unfolding StartTaskRun_def by (intro frame_intros transitionTaskTx_frame)

lemma HeartbeatLease_frame: "I s \<Longrightarrow> I (snd (HeartbeatLease e i ow s))"
  unfolding HeartbeatLease_def Let_def by (intro frame_intros)

lemma RequeueExpiredLeases_frame: "I s \<Longrightarrow> I (snd (RequeueExpiredLeases e s))"
  unfolding RequeueExpiredLeases_def requeueOne_def by (intro frame_intros transitionTaskTx_frame)

lemma AgeQueuedPriorities_frame: "I s \<Longrightarrow> I (snd (AgeQueuedPriorities e th mp s))"
  unfolding AgeQueuedPriorities_def by (intro frame_intros)

lemma CompleteTask_frame: "I s \<Longrightarrow> I (snd (CompleteTask e i res s))"
  unfolding CompleteTask_def by (intro frame_intros transitionTaskTx_frame)

lemma FailTask_frame: "I s \<Longrightarrow> I (snd (FailTask e i msg s))"
  unfolding FailTask_def by (intro frame_intros transitionTaskTx_frame)

lemma HandleTaskFailure_frame: "I s \<Longrightarrow> I (snd (HandleTaskFailure e i msg s))"
  unfolding HandleTaskFailure_def Let_def deadLetterTx_def retryTx_def by (intro frame_intros transitionTaskTx_frame)

lemma RequestCancel_frame: "I s \<Longrightarrow> I (snd (RequestCancel e i s))"
  unfolding RequestCancel_def Let_def by (intro frame_intros)

lemma AbortTask_frame: "I s \<Longrightarrow> I (snd (AbortTask e i s))"
  unfolding AbortTask_def by (intro frame_intros transitionTaskTx_frame RequestCancel_frame)

lemma RecoverRunningTasks_frame: "I s \<Longrightarrow> I (snd (RecoverRunningTasks e sc s))"
  unfolding RecoverRunningTasks_def recoverOne_def
  by (intro frame_intros transitionTaskTx_frame) (simp_all add: I_messages)

lemma RecordToolTask_frame: "I s \<Longrightarrow> I (snd (RecordToolTask e i sid tool inp out ce s))"
  unfolding RecordToolTask_def Let_def by (intro frame_intros) (simp_all add: I_tasks)

lemma CreateSubtask_frame: "I s \<Longrightarrow> I (snd (CreateSubtask e i par sid pl prio s))"
  unfolding CreateSubtask_def by (intro frame_intros) (simp_all add: I_tasks)

lemma UpdateTaskTokens_frame: "I s \<Longrightarrow> I (snd (UpdateTaskTokens i p c s))"
  unfolding UpdateTaskTokens_def by (intro frame_intros)

lemma SetParentTask_frame: "I s \<Longrightarrow> I (snd (SetParentTask i par s))"
  unfolding SetParentTask_def by (intro frame_intros)

lemma AddHistory_frame: "I s \<Longrightarrow> I (snd (AddHistory e sid a r c n s))"
  unfolding AddHistory_def Let_def by (intro frame_intros)

lemma ClearSessionMessages_frame: "I s \<Longrightarrow> I (snd (ClearSessionMessages sid a s))"
  unfolding ClearSessionMessages_def by (intro frame_intros) (simp_all add: I_messages)

lemma ArchiveMessages_frame: "I s \<Longrightarrow> I (snd (ArchiveMessages e sid b s))"
  unfolding ArchiveMessages_def by (intro frame_intros) (simp_all add: I_messages)

lemma DeleteAgentMessages_frame: "I s \<Longrightarrow> I (snd (DeleteAgentMessages a sid s))"
  unfolding DeleteAgentMessages_def by (intro frame_intros) (simp_all add: I_messages)

lemmas op_frame = createTask_frame claim_frame StartTaskRun_frame HeartbeatLease_frame RequeueExpiredLeases_frame
  AgeQueuedPriorities_frame CompleteTask_frame FailTask_frame HandleTaskFailure_frame RequestCancel_frame AbortTask_frame
  RecoverRunningTasks_frame RecordTaskMetrics_keeps RecordToolTask_frame CreateSubtask_frame UpdateTaskTokens_frame
  SetParentTask_frame AddHistory_frame ClearSessionMessages_frame ArchiveMessages_frame DeleteAgentMessages_frame

end


section \<open>Tool calls succeed at most once\<close>

definition ledger_ok :: "'x store_scheme \<Rightarrow> bool" where
  "ledger_ok s \<longleftrightarrow> distinct (map d_key (tool_call_dedup s))"

definition recorded :: "dedup_row \<Rightarrow> 'x store_scheme \<Rightarrow> bool" where
  "recorded d s \<longleftrightarrow> ledger_ok s \<and> d \<in> set (tool_call_dedup s)"

interpretation lo: task_frame ledger_ok
  by unfold_locales (simp_all add: ledger_ok_def)

interpretation lg: task_frame "recorded d" for d
  by unfold_locales (simp_all add: recorded_def ledger_ok_def)

lemma findDedup_recorded: "recorded d s \<Longrightarrow> findDedup (d_key d) s = Some d"
  unfolding recorded_def ledger_ok_def findDedup_def by (auto intro: firstWhere_key)

lemma findDedup_None: "findDedup k s = None \<longleftrightarrow> k \<notin> d_key ` set (tool_call_dedup s)"
  by (auto simp: findDedup_def firstWhere_None)

lemma insertDedup_ok:
  "ledger_ok s \<Longrightarrow> findDedup (d_key x) s = None \<Longrightarrow> ledger_ok (s\<lparr>tool_call_dedup := tool_call_dedup s @ [x]\<rparr>)"
  by (simp add: ledger_ok_def findDedup_None)

lemma dedupRow_simps [simp]: "d_key (dedupRow e k tn rq rs) = k" "d_request_hash (dedupRow e k tn rq rs) = rq"
  "d_status (dedupRow e k tn rq rs) = ''SUCCEEDED''"
  by (simp_all add: dedupRow_def)

lemma Register_ledger_ok: "ledger_ok s \<Longrightarrow> ledger_ok (snd (RegisterSuccessfulToolCall e k tn rq rs s))"
  unfolding RegisterSuccessfulToolCall_def
  by (intro lo.frame_intros) (auto intro!: insertDedup_ok split: option.splits)

lemma Register_recorded: "recorded d s \<Longrightarrow> recorded d (snd (RegisterSuccessfulToolCall e k tn rq rs s))"
  unfolding RegisterSuccessfulToolCall_def
  by (intro lg.frame_intros) (auto simp: recorded_def intro!: insertDedup_ok split: option.splits)

lemma others_recorded:
  "recorded d s \<Longrightarrow> recorded d (snd (EnsureSession p e sid s))"
  "recorded d s \<Longrightarrow> recorded d (snd (KVSet e k v s))"
  "recorded d s \<Longrightarrow> recorded d (snd (SetTaskContext r k v s))"
  "recorded d s \<Longrightarrow> recorded d (snd (RecordPolicyVersion e pv c src s))"
  unfolding EnsureSession_def KVSet_def SetTaskContext_def RecordPolicyVersion_def
  by (intro lg.frame_intros; simp add: recorded_def ledger_ok_def)+

lemma store_steps_recorded: "store_step\<^sup>*\<^sup>* s t \<Longrightarrow> recorded d s \<Longrightarrow> recorded d t"
proof (induction rule: rtranclp_induct)
  case (step t u)
  from step.hyps(2) step.IH [OF step.prems] show ?case
    by (induction rule: store_step.induct) (simp_all add: lg.op_frame lg.I_faults others_recorded Register_recorded)
qed simp

lemma Register_InrE:
  assumes "RegisterSuccessfulToolCall e k tn rq rs s = (Inr b, s')" and "ledger_ok s"
  obtains d where "recorded d s'" "d_key d = k" "d_request_hash d = rq" "d_status d = ''SUCCEEDED''" "b \<longleftrightarrow> recorded d s"
proof -
  let ?body = "bindS (wrapS ''select dedupe row'' (noRowsAsNone (queryRow (findDedup k))))
        (\<lambda>row. case row of
           Some d \<Rightarrow>
             if d_status d = ''SUCCEEDED'' \<and> d_request_hash d = rq then retS (Commit True)
             else failS (ErrMsg (''idempotency key conflict for '' @ quoteGo k))
         | None \<Rightarrow>
             bindS (wrapS ''insert dedupe row'' (execCheck
                 (\<lambda>s. case findDedup k s of None \<Rightarrow> None
                      | Some _ \<Rightarrow> Some (ErrMsg ''UNIQUE constraint failed: tool_call_dedup.idempotency_key''))
                 (\<lambda>s. s\<lparr>tool_call_dedup := tool_call_dedup s @ [dedupRow e k tn rq rs]\<rparr>)))
             (\<lambda>_. retS (Commit False)))"
  have "with_tx (ErrWrap ''begin dedupe tx'')
       (\<lambda>deduped. ErrWrap (if deduped then ''commit dedupe read tx'' else ''commit dedupe tx'')) ?body s = (Inr b, s')"
    using assms(1) unfolding RegisterSuccessfulToolCall_def by (auto simp: failS_def split: if_splits)
  then obtain s1 s2 y where st: "same_tables s s1" and run: "?body s1 = (Inr y, s2)"
    and y: "y = Commit b \<and> same_tables s2 s' \<or> y = Abandon b"
    by (rule with_tx_InrE) blast+
  from run obtain row s3 where q: "noRowsAsNone (queryRow (findDedup k)) s1 = (Inr row, s3)"
    and rest: "(case row of
           Some d \<Rightarrow>
             if d_status d = ''SUCCEEDED'' \<and> d_request_hash d = rq then retS (Commit True)
             else failS (ErrMsg (''idempotency key conflict for '' @ quoteGo k))
         | None \<Rightarrow>
             bindS (wrapS ''insert dedupe row'' (execCheck
                 (\<lambda>s. case findDedup k s of None \<Rightarrow> None
                      | Some _ \<Rightarrow> Some (ErrMsg ''UNIQUE constraint failed: tool_call_dedup.idempotency_key''))
                 (\<lambda>s. s\<lparr>tool_call_dedup := tool_call_dedup s @ [dedupRow e k tn rq rs]\<rparr>)))
             (\<lambda>_. retS (Commit False))) s3 = (Inr y, s2)"
    unfolding bindS_Inr [of "wrapS ''select dedupe row'' _"] wrapS_Inr by blast
  from q st obtain fs where s3: "s3 = s\<lparr>faults := fs\<rparr>" and row: "row = None \<or> row = findDedup k s"
    by (auto elim!: noRows_InrE same_tables_elim simp: findDedup_def)
  show thesis
  proof (cases row)
    case (Some d)
    with rest have d: "d_status d = ''SUCCEEDED''" "d_request_hash d = rq" "y = Commit True" "s2 = s3"
      by (auto split: if_splits)
    have "d_key d = k" "recorded d s"
      using row Some assms(2) by (auto simp: recorded_def findDedup_def dest!: sym [of "Some d"] firstWhere_Some)
    moreover from this(2) have "recorded d s3" by (simp add: s3 lg.I_faults)
    ultimately show thesis using d y by (intro that [of d]) (auto intro: lg.I_same)
  next
    case None
    with rest obtain u where ins: "execCheck (\<lambda>s. case findDedup k s of None \<Rightarrow> None
                      | Some _ \<Rightarrow> Some (ErrMsg ''UNIQUE constraint failed: tool_call_dedup.idempotency_key''))
                 (\<lambda>s. s\<lparr>tool_call_dedup := tool_call_dedup s @ [dedupRow e k tn rq rs]\<rparr>) s3 = (Inr u, s2)" "y = Commit False"
      by (auto simp: bindS_Inr)
    from ins(1) obtain gs where s2: "s2 = s\<lparr>faults := gs, tool_call_dedup := tool_call_dedup s @ [dedupRow e k tn rq rs]\<rparr>"
      and none: "findDedup k s = None"
      by (auto simp: s3 findDedup_def split: option.splits elim!: execCheck_InrE)
    have "recorded (dedupRow e k tn rq rs) s2"
      using assms(2) none insertDedup_ok [of s "dedupRow e k tn rq rs"] by (simp add: s2 recorded_def ledger_ok_def)
    moreover have "\<not> recorded (dedupRow e k tn rq rs) s" using none findDedup_recorded [of "dedupRow e k tn rq rs" s] by auto
    ultimately show thesis using ins(2) y by (intro that [of "dedupRow e k tn rq rs"]) (auto intro: lg.I_same)
  qed
qed

text \<open>A side effect is registered at most once per idempotency key: after a registration has
  succeeded, then at any later point of any execution another registration under the same key either
  fails or reports a duplicate of the very same request; it never counts as a new success.\<close>

theorem tool_call_at_most_once:
  assumes "ledger_ok s" and "RegisterSuccessfulToolCall e k tn rq rs s = (Inr b, s1)" and "store_step\<^sup>*\<^sup>* s1 s2"
    and "RegisterSuccessfulToolCall e' k tn' rq' rs' s2 = (Inr b', s3)"
  shows "b' \<and> rq' = rq"
proof -
  from assms(2,1) obtain d where d: "recorded d s1" "d_key d = k" "d_request_hash d = rq" by (rule Register_InrE)
  have d2: "recorded d s2" using assms(3) d(1) by (rule store_steps_recorded)
  then have "ledger_ok s2" by (simp add: recorded_def)
  with assms(4) obtain d' where d': "recorded d' s3" "d_key d' = k" "d_request_hash d' = rq'" "b' \<longleftrightarrow> recorded d' s2"
    by (rule Register_InrE)
  have "recorded d s3" using Register_recorded [OF d2, of e' k tn' rq' rs'] assms(4) by simp
  from findDedup_recorded [OF this] findDedup_recorded [OF d'(1)] d(2) d'(2) have "d = d'" by simp
  with d d' d2 show ?thesis by simp
qed

text \<open>Looking a registered call up works at any later time: \<open>CheckToolCallDedup\<close> answers whether
  the request is the registered one.\<close>

theorem tool_call_lookup:
  assumes "ledger_ok s" and "RegisterSuccessfulToolCall e k tn rq rs s = (Inr b, s1)" and "store_step\<^sup>*\<^sup>* s1 s2"
    and "faults s2 = []"
  shows "CheckToolCallDedup k rq' s2 = (Inr (rq' = rq), s2)"
proof -
  from assms(2,1) obtain d where d: "recorded d s1" "d_key d = k" "d_request_hash d = rq" "d_status d = ''SUCCEEDED''"
    by (rule Register_InrE)
  from findDedup_recorded [OF store_steps_recorded [OF assms(3) d(1)]] d(2-) assms(4) show ?thesis
    by (auto simp: CheckToolCallDedup_def bindS_def wrapS_def noRowsAsNone_def queryRow_def stmt_def retS_def)
qed

definition exLedger :: store where
  "exLedger = snd (RegisterSuccessfulToolCall (exEnv 100) ''k1'' ''mail'' ''h'' ''r'' exSession)"

lemma exLedger_run: "RegisterSuccessfulToolCall (exEnv 100) ''k1'' ''mail'' ''h'' ''r'' exSession = (Inr False, exLedger)"
  "ledger_ok exSession" "faults exLedger = []" "findDedup ''k1'' exLedger = Some (dedupRow (exEnv 100) ''k1'' ''mail'' ''h'' ''r'')"
  by (simp_all add: exLedger_def exSession_eq exTables_def emptyStore_def RegisterSuccessfulToolCall_def findDedup_def ledger_ok_def
      trimSpace_def isSpaceByte_def Let_def tx_eval store_eval)

lemma exLedger_again: "RegisterSuccessfulToolCall (exEnv 101) ''k1'' ''mail'' ''h'' ''r'' exLedger = (Inr True, exLedger)"
  using exLedger_run(3,4) by (simp add: RegisterSuccessfulToolCall_def trimSpace_def isSpaceByte_def Let_def tx_eval)

theorem tool_call_at_most_once_witness:
  "\<exists>b'. RegisterSuccessfulToolCall (exEnv 101) ''k1'' ''mail'' ''h'' ''r'' exLedger = (Inr b', exLedger) \<and> b'"
  using tool_call_at_most_once [OF exLedger_run(2,1) rtranclp.rtrancl_refl exLedger_again] exLedger_again by blast

theorem tool_call_lookup_witness: "CheckToolCallDedup ''k1'' ''other'' exLedger = (Inr False, exLedger)"
  using tool_call_lookup [OF exLedger_run(2,1) rtranclp.rtrancl_refl exLedger_run(3), of "''other''"] by simp


section \<open>Key-value tables\<close>

text \<open>
  The contract of a table of values under keys: on the states \<open>ok\<close> a written value is read back and
  other keys are untouched. After any sequence of writes the last one to a key wins.
\<close>

locale kv_table =
  fixes ok :: "'s \<Rightarrow> bool" and put :: "'k \<Rightarrow> 'v \<Rightarrow> 's \<Rightarrow> 's" and get :: "'k \<Rightarrow> 's \<Rightarrow> 'v"
  assumes put_ok: "ok s \<Longrightarrow> ok (put k v s)"
    and get_put: "ok s \<Longrightarrow> get k' (put k v s) = (if k' = k then v else get k' s)"
begin

definition puts :: "('k \<times> 'v) list \<Rightarrow> 's \<Rightarrow> 's" where
  "puts kvs s = foldl (\<lambda>s (k, v). put k v s) s kvs"

lemma puts_ok: "ok s \<Longrightarrow> ok (puts kvs s)"
  unfolding puts_def by (induction kvs arbitrary: s) (auto intro: put_ok)

lemma get_puts: "ok s \<Longrightarrow> get k (puts kvs s) = (case map_of (rev kvs) k of Some v \<Rightarrow> v | None \<Rightarrow> get k s)"
proof (induction kvs rule: rev_induct)
  case (snoc kv kvs)
  obtain a b where [simp]: "kv = (a, b)" by (cases kv)
  have "ok (puts kvs s)" using snoc.prems by (rule puts_ok)
  with snoc show ?case by (auto simp: puts_def get_put split: option.splits)
qed (simp add: puts_def)

end

text \<open>What a read returns when it does not fail.\<close>

definition valueOf :: "(err + string) \<times> 's \<Rightarrow> string" where
  "valueOf r = (case fst r of Inr v \<Rightarrow> v | Inl _ \<Rightarrow> '''')"

lemma firstWhere_append: "firstWhere P (xs @ ys) = (case firstWhere P xs of Some r \<Rightarrow> Some r | None \<Rightarrow> firstWhere P ys)"
  by (induction xs) (auto simp: firstWhere_def)

lemma firstWhere_updKey:
  assumes "\<And>x. key (f x) = key x"
  shows "firstWhere (\<lambda>x. key x = k') (updWhere (\<lambda>x. key x = k) f xs) =
    (if k' = k then map_option f (firstWhere (\<lambda>x. key x = k') xs) else firstWhere (\<lambda>x. key x = k') xs)"
  using assms by (induction xs) (auto simp: firstWhere_def updWhere_def)

text \<open>\<open>INSERT ... ON CONFLICT DO UPDATE\<close>, seen through a lookup by the key.\<close>

lemma firstWhere_upsert:
  assumes "\<And>x. key (f x) = key x" and "key new = k"
  shows "firstWhere (\<lambda>x. key x = k') (if \<exists>x\<in>set xs. key x = k then updWhere (\<lambda>x. key x = k) f xs else xs @ [new]) =
    (if k' = k then Some (case firstWhere (\<lambda>x. key x = k) xs of Some r \<Rightarrow> f r | None \<Rightarrow> new) else firstWhere (\<lambda>x. key x = k') xs)"
proof (cases "firstWhere (\<lambda>x. key x = k) xs")
  case None
  then have "\<not> (\<exists>x\<in>set xs. key x = k)" by (auto simp: firstWhere_None)
  with None assms(2) show ?thesis by (auto simp: firstWhere_append firstWhere_def [of _ "[_]"] split: option.splits)
next
  case (Some r)
  then have "\<exists>x\<in>set xs. key x = k" by (auto dest: firstWhere_Some)
  with Some show ?thesis using assms(1) by (auto simp: firstWhere_updKey)
qed

definition kv_ok :: "'x store_scheme \<Rightarrow> bool" where
  "kv_ok s \<longleftrightarrow> faults s = [] \<and> (\<forall>x\<in>set (kv_store s). kv_value x \<noteq> None)"

definition kvRow :: "string \<Rightarrow> 'x store_scheme \<Rightarrow> kv_row option" where
  "kvRow k s = firstWhere (\<lambda>x. kv_key x = k) (kv_store s)"

lemma KVGet_value: "kv_ok s \<Longrightarrow> KVGet k s = (Inr (case kvRow k s of None \<Rightarrow> '''' | Some x \<Rightarrow> coalesce (kv_value x) ''''), s)"
  by (auto simp: KVGet_def kvRow_def kv_ok_def bindS_def wrapS_def noRowsAsNone_def queryRow_def stmt_def retS_def
      split: option.splits dest!: firstWhere_Some)

definition kvUpsert :: "env \<Rightarrow> string \<Rightarrow> string \<Rightarrow> kv_row list \<Rightarrow> kv_row list" where
  "kvUpsert e k v xs = (if \<exists>x\<in>set xs. kv_key x = k
     then updWhere (\<lambda>x. kv_key x = k) (\<lambda>x. x\<lparr>kv_value := Some v, kv_updated_at := CURRENT_TIMESTAMP e\<rparr>) xs
     else xs @ [\<lparr>kv_key = k, kv_value = Some v, kv_updated_at = CURRENT_TIMESTAMP e\<rparr>])"

lemma KVSet_run: "faults s = [] \<Longrightarrow> KVSet e k v s = (Inr (), s\<lparr>kv_store := kvUpsert e k v (kv_store s)\<rparr>)"
  by (simp add: KVSet_def wrapS_def execS_def stmt_def kvUpsert_def)

lemma kvRow_KVSet: "faults s = [] \<Longrightarrow> map_option kv_value (kvRow k' (snd (KVSet e k v s))) =
    (if k' = k then Some (Some v) else map_option kv_value (kvRow k' s))"
  by (auto simp: KVSet_run kvRow_def kvUpsert_def firstWhere_upsert split: option.splits)

lemma KVSet_ok: "kv_ok s \<Longrightarrow> kv_ok (snd (KVSet e k v s))"
  by (auto simp: kv_ok_def KVSet_run kvUpsert_def row_simps)

interpretation kv: kv_table kv_ok "\<lambda>k v s. snd (KVSet e k v s)" "\<lambda>k s. valueOf (KVGet k s)" for e
proof
  fix s :: "'a store_scheme" and k k' v :: string
  assume ok: "kv_ok s"
  then show "kv_ok (snd (KVSet e k v s))" by (rule KVSet_ok)
  have val: "valueOf (KVGet j t) = (case map_option kv_value (kvRow j t) of None \<Rightarrow> '''' | Some x \<Rightarrow> coalesce x '''')"
    if "kv_ok t" for j and t :: "'a store_scheme"
    using that by (simp add: valueOf_def KVGet_value option.case_eq_if option.map_sel)
  show "valueOf (KVGet k' (snd (KVSet e k v s))) = (if k' = k then v else valueOf (KVGet k' s))"
    using val [OF KVSet_ok [OF ok], of k' e k v] val [OF ok, of k'] kvRow_KVSet [of s k' e k v] ok
    by (simp only: kv_ok_def) simp
qed

text \<open>The key-value table keeps what it is told: after any sequence of \<open>KVSet\<close> calls, \<open>KVGet\<close>
  returns the value last written under the key, and for a key not written what was there before.\<close>

theorem kv_last_write_wins:
  assumes "faults s = []" and "\<forall>x\<in>set (kv_store s). kv_value x \<noteq> None"
  shows "valueOf (KVGet k (foldl (\<lambda>s (k, v). snd (KVSet e k v s)) s kvs)) =
    (case map_of (rev kvs) k of Some v \<Rightarrow> v | None \<Rightarrow> valueOf (KVGet k s))"
  using kv.get_puts [of s k e kvs] assms by (simp add: kv.puts_def kv_ok_def)

theorem kv_last_write_wins_witness:
  "valueOf (KVGet ''a'' (foldl (\<lambda>s (k, v). snd (KVSet (exEnv 1) k v s)) emptyStore [(''a'', ''1''), (''b'', ''2''), (''a'', ''3'')])) = ''3''"
  using kv_last_write_wins [of emptyStore "''a''" "exEnv 1" "[(''a'', ''1''), (''b'', ''2''), (''a'', ''3'')]"]
  by (simp add: emptyStore_def)

section \<open>The context shared by a task tree\<close>

definition ctx_ok :: "string \<Rightarrow> 'x store_scheme \<Rightarrow> bool" where
  "ctx_ok rt s \<longleftrightarrow> faults s = [] \<and> hasTask rt s"

definition ctxKey :: "context_row \<Rightarrow> string \<times> string" where
  "ctxKey c = (tc_root c, tc_key c)"

lemma ctxRow_key: "ctxRow rt k = (\<lambda>c. ctxKey c = (rt, k))"
  by (auto simp: ctxRow_def ctxKey_def)

lemma SetTaskContext_run: "ctx_ok rt s \<Longrightarrow> SetTaskContext rt k v s = (Inr (), s\<lparr>task_context :=
    (if \<exists>c\<in>set (task_context s). ctxKey c = (rt, k)
     then updWhere (\<lambda>c. ctxKey c = (rt, k)) (\<lambda>c. c\<lparr>tc_value := v\<rparr>) (task_context s)
     else task_context s @ [\<lparr>tc_root = rt, tc_key = k, tc_value = v\<rparr>])\<rparr>)"
  by (simp add: SetTaskContext_def ctx_ok_def wrapS_def execCheck_def stmt_def ctxRow_key)

lemma GetTaskContext_run: "faults s = [] \<Longrightarrow> GetTaskContext rt k s =
    (Inr (case firstWhere (\<lambda>c. ctxKey c = (rt, k)) (task_context s) of None \<Rightarrow> '''' | Some c \<Rightarrow> tc_value c), s)"
  by (auto simp: GetTaskContext_def bindS_def wrapS_def noRowsAsNone_def queryRow_def stmt_def retS_def ctxRow_key split: option.splits)

lemma ctxKey_upd: "ctxKey (c\<lparr>tc_value := v\<rparr>) = ctxKey c" "ctxKey \<lparr>tc_root = rt, tc_key = k, tc_value = v\<rparr> = (rt, k)"
  by (simp_all add: ctxKey_def)

interpretation tc: kv_table "ctx_ok rt" "\<lambda>k v s. snd (SetTaskContext rt k v s)" "\<lambda>k s. valueOf (GetTaskContext rt k s)" for rt
proof
  fix s :: "'a store_scheme" and k k' v :: string
  assume ok: "ctx_ok rt s"
  then show "ctx_ok rt (snd (SetTaskContext rt k v s))"
    by (simp add: SetTaskContext_run) (simp add: ctx_ok_def hasTask_def)
  show "valueOf (GetTaskContext rt k' (snd (SetTaskContext rt k v s))) = (if k' = k then v else valueOf (GetTaskContext rt k' s))"
    using ok by (auto simp: SetTaskContext_run GetTaskContext_run ctx_ok_def valueOf_def firstWhere_upsert ctxKey_upd
        split: option.splits)
qed

text \<open>Shared context is per task tree: after any sequence of writes under one root task, reading a
  key of that root returns the last value written, and a root task that does not exist is refused by
  the foreign key without a change.\<close>

theorem task_context_roundtrip:
  assumes "faults s = []"
  shows "if hasTask rt s
    then valueOf (GetTaskContext rt k (foldl (\<lambda>s (k, v). snd (SetTaskContext rt k v s)) s kvs)) =
      (case map_of (rev kvs) k of Some v \<Rightarrow> v | None \<Rightarrow> valueOf (GetTaskContext rt k s))
    else SetTaskContext rt k v s = (Inl (ErrWrap (''set task context '' @ rt @ ''/'' @ k) fkError), s)"
proof (cases "hasTask rt s")
  case True
  with tc.get_puts [of rt s k kvs] assms show ?thesis by (simp add: tc.puts_def ctx_ok_def)
next
  case False
  with assms show ?thesis by (simp add: SetTaskContext_def wrapS_def execCheck_def stmt_def)
qed

theorem task_context_roundtrip_witness:
  "valueOf (GetTaskContext ''t1'' ''a'' (foldl (\<lambda>s (k, v). snd (SetTaskContext ''t1'' k v s)) exQueued [(''a'', ''1''), (''a'', ''2'')])) = ''2''"
  using task_context_roundtrip [of exQueued "''t1''" "''a''" "[(''a'', ''1''), (''a'', ''2'')]"]
  by (simp add: exQueued_eq exTables_def emptyStore_def hasTask_def exRow_def)


section \<open>Properties of no table of the queue\<close>

text \<open>A property that depends on no table of this part of the schema is kept by every step of the store.\<close>

locale store_frame = task_frame I for I :: "'x store_scheme \<Rightarrow> bool" +
  assumes I_sessions: "I (s\<lparr>sessions := xs\<rparr>) \<longleftrightarrow> I s"
    and I_kv: "I (s\<lparr>kv_store := ks\<rparr>) \<longleftrightarrow> I s"
    and I_dedup: "I (s\<lparr>tool_call_dedup := ds\<rparr>) \<longleftrightarrow> I s"
    and I_context: "I (s\<lparr>task_context := cs\<rparr>) \<longleftrightarrow> I s"
    and I_policy: "I (s\<lparr>policy_versions := ps\<rparr>) \<longleftrightarrow> I s"
begin

lemma side_tables:
  "I s \<Longrightarrow> I (snd (EnsureSession p e sid s))"
  "I s \<Longrightarrow> I (snd (RegisterSuccessfulToolCall e k tn rq rs s))"
  "I s \<Longrightarrow> I (snd (KVSet e k v s))"
  "I s \<Longrightarrow> I (snd (SetTaskContext r k v s))"
  "I s \<Longrightarrow> I (snd (RecordPolicyVersion e pv c src s))"
  unfolding EnsureSession_def RegisterSuccessfulToolCall_def KVSet_def SetTaskContext_def RecordPolicyVersion_def
  by (intro frame_intros; simp add: I_sessions I_kv I_dedup I_context I_policy)+

lemma store_step_frame: "store_step s t \<Longrightarrow> I s \<Longrightarrow> I t"
  by (induction rule: store_step.induct) (simp_all add: op_frame I_faults side_tables)

end

end
