(* ===== verification/Session_History.thy ===== *)
theory Session_History
  imports Task_Lifecycle
begin

text \<open>
  What the conversation history promises (\<open>internal/persistence/sessions.go\<close>): a message that is added
  is the last of its history, and what the listing functions return of it.
\<close>

section \<open>Properties of the history\<close>

lemma sorted_ids: "messages_inv s \<Longrightarrow> sorted (map m_id (messages s)) \<and> distinct (map m_id (messages s))"
  unfolding messages_inv_def using strict_sorted_iff by blast

lemma liveHistory_filter:
  assumes "messages_inv s"
  shows "liveHistory sid a s = filter (\<lambda>m. m_session_id m = sid \<and> (a = '''' \<or> m_agent_id m = a) \<and> m_archived_at m = None) (messages s)"
proof -
  have "sorted (map m_id (messages s))" using sorted_ids [OF assms] by simp
  then show ?thesis unfolding liveHistory_def by (intro sort_key_id_if_sorted sorted_filter)
qed

text \<open>Adding a message appends it to the live history of its session and agent, with the role
  lower-cased and trimmed, and leaves every other history as it was; an unknown role is refused
  before the database is touched, and an unknown session by the foreign key.\<close>

theorem add_history_equation:
  assumes inv: "messages_inv s" and nf: "faults s = []"
  shows "let role' = toLower (trimSpace role); (r, s') = AddHistory e sid a role c n s in
    if role' \<notin> set messageRoles then r = Inl (ErrMsg (''invalid role '' @ quoteGo role')) \<and> s' = s
    else if \<not> hasSession sid s then r = Inl (ErrWrap ''insert message'' fkError) \<and> s' = s
    else r = Inr () \<and> (\<forall>sid' a'. map (\<lambda>m. (m_role m, m_content m)) (liveHistory sid' a' s') =
      map (\<lambda>m. (m_role m, m_content m)) (liveHistory sid' a' s) @
        (if sid' = sid \<and> (a' = '''' \<or> a' = agentOrDefault a) then [(role', c)] else []))"
proof -
  let ?s = "insertMessage e sid (agentOrDefault a) (toLower (trimSpace role)) c n s"
  show ?thesis
  proof (cases "toLower (trimSpace role) \<in> set messageRoles \<and> hasSession sid s")
    case True
    then have "AddHistory e sid a role c n s = (Inr (), ?s)"
      using nf by (simp add: AddHistory_def Let_def wrapS_def execCheck_def stmt_def)
    moreover have "messages_inv ?s" using inv True by (intro insertMessage_messages_inv) auto
    ultimately show ?thesis using True inv
      by (auto simp: liveHistory_filter insertMessage_def)
  next
    case False
    then show ?thesis
      using nf by (auto simp: AddHistory_def Let_def wrapS_def execCheck_def stmt_def failS_def)
  qed
qed

text \<open>\<open>LoadRecentMessages\<close> returns the oldest messages, not the most recent ones its name and
  comment promise: when a history is longer than the limit, its newest message is not returned.\<close>

theorem load_recent_misses_newest:
  assumes inv: "messages_inv s" and nf: "faults s = []" and lim: "0 < limit" "limit \<le> 1000"
    and long: "nat limit < length (liveHistory sid a s)"
  shows "\<exists>items. LoadRecentMessages a sid limit s = (Inr items, s) \<and> length items = nat limit \<and>
    scanMessage (last (liveHistory sid a s)) \<notin> set items"
proof -
  let ?h = "liveHistory sid a s" and ?n = "nat limit"
  have dist: "distinct (map m_id ?h)"
    using sorted_ids [OF inv] by (simp add: liveHistory_filter [OF inv] distinct_map_filter)
  have ne: "?h \<noteq> []" using long by auto
  have run: "LoadRecentMessages a sid limit s = (Inr (map scanMessage (take ?n ?h)), s)"
    using nf lim by (simp add: LoadRecentMessages_def ListHistory_def wrapS_def queryS_def stmt_def clampLimit_def)
  have "scanMessage (last ?h) \<notin> set (map scanMessage (take ?n ?h))"
  proof
    assume "scanMessage (last ?h) \<in> set (map scanMessage (take ?n ?h))"
    then obtain m where m: "m \<in> set (take ?n ?h)" "m_id m = m_id (last ?h)" by (auto simp: scanMessage_def)
    then obtain j where j: "j < ?n" "j < length ?h" "m = ?h ! j" by (auto simp: in_set_conv_nth)
    have "map m_id ?h ! j = map m_id ?h ! (length ?h - 1)"
      using m(2) j long ne by (simp add: last_conv_nth)
    then have "j = length ?h - 1" using nth_eq_iff_index_eq [OF dist, of j "length ?h - 1"] j long by simp
    with j(1) long show False by simp
  qed
  then show ?thesis using run long by auto
qed

definition exTalk :: store where
  "exTalk = snd (AddHistory (exEnv 101) ''s'' '''' ''assistant'' ''hello'' 1 (snd (AddHistory (exEnv 101) ''s'' '''' '' User '' ''hi'' 1 exSession)))"

lemma exTalk_eq: "exTalk = exSession\<lparr>messages :=
    [\<lparr>m_id = 1, m_session_id = ''s'', m_agent_id = ''default'', m_role = ''user'', m_content = ''hi'', m_tokens = 1,
       m_created_at = CurTs 101, m_archived_at = None\<rparr>,
     \<lparr>m_id = 2, m_session_id = ''s'', m_agent_id = ''default'', m_role = ''assistant'', m_content = ''hello'', m_tokens = 1,
       m_created_at = CurTs 101, m_archived_at = None\<rparr>], msg_seq := 2\<rparr>"
proof -
  have r: "toLower (trimSpace '' User '') = ''user''" "toLower (trimSpace ''assistant'') = ''assistant''" by code_simp+
  show ?thesis
    by (simp add: exTalk_def exSession_eq exTables_def emptyStore_def AddHistory_def Let_def r messageRoles_def insertMessage_def
        agentOrDefault_def tx_eval store_eval)
qed

lemma exTalk_inv: "messages_inv exTalk" "messages_inv exSession" "faults exTalk = []" "faults exSession = []"
  by (simp_all add: exTalk_eq messages_inv_def messageRoles_def hasSession_def exSession_eq exTables_def emptyStore_def)

theorem add_history_equation_witness:
  "map (\<lambda>m. (m_role m, m_content m)) (liveHistory ''s'' ''default'' (snd (AddHistory (exEnv 101) ''s'' '''' '' User '' ''hi'' 1 exSession))) =
     [(''user'', ''hi'')]"
proof -
  have r: "toLower (trimSpace '' User '') = ''user''" by code_simp
  have "hasSession ''s'' exSession" "liveHistory ''s'' ''default'' exSession = []"
    by (simp_all add: exSession_eq exTables_def emptyStore_def hasSession_def liveHistory_def)
  then show ?thesis
    using add_history_equation [OF exTalk_inv(2,4), of "'' User ''" "exEnv 101" "''s''" "''''" "''hi''" 1]
    by (auto simp: r messageRoles_def agentOrDefault_def Let_def split: prod.splits)
qed

theorem load_recent_misses_newest_witness:
  "\<exists>items. LoadRecentMessages ''default'' ''s'' 1 exTalk = (Inr items, exTalk) \<and> length items = 1 \<and>
     scanMessage (last (liveHistory ''s'' ''default'' exTalk)) \<notin> set items"
proof -
  have "nat 1 < length (liveHistory ''s'' ''default'' exTalk)"
    by (simp add: exTalk_eq liveHistory_def)
  from load_recent_misses_newest [OF exTalk_inv(1,3) _ _ this] show ?thesis by simp
qed

end
