(* ===== verification/Plan_Store.thy ===== *)
theory Plan_Store
  imports Task_Frame
begin

text \<open>
  The tables \<open>plan_executions\<close> and \<open>plan_execution_steps\<close> (\<open>internal/persistence/store.go\<close>, schema
  v12) and the operations of \<open>Store\<close> on them. Status columns are text under a \<open>CHECK\<close> constraint: the
  constraint is evaluated on the rows a statement writes. Identifiers drawn with \<open>uuid.New()\<close> are
  arguments.
\<close>

section \<open>Rows\<close>

record plan_exec_row =
  pe_id :: string
  pe_plan_name :: string
  pe_session_id :: string
  pe_status :: string
  pe_total_steps :: int
  pe_completed_steps :: int
  pe_current_wave :: int
  pe_total_cost :: usd
  pe_created_at :: ts
  pe_completed_at :: "ts option"
  pe_updated_at :: ts

record plan_step_row =
  ps_id :: string
  ps_execution_id :: string
  ps_step_id :: string
  ps_step_index :: int
  ps_wave_number :: int
  ps_agent_id :: string
  ps_prompt :: string
  ps_task_id :: "string option"
  ps_status :: string
  ps_result :: "string option"
  ps_error :: "string option"
  ps_cost :: usd
  ps_created_at :: ts
  ps_completed_at :: "ts option"
  ps_updated_at :: ts

record plan_store = store +
  plan_executions :: "plan_exec_row list"
  plan_execution_steps :: "plan_step_row list"

definition execStatuses :: "string list" where
  "execStatuses = [''running'', ''succeeded'', ''failed'', ''canceled'']"

definition stepStatuses :: "string list" where
  "stepStatuses = [''pending'', ''running'', ''succeeded'', ''failed'']"

definition hasExecution :: "string \<Rightarrow> 'x plan_store_scheme \<Rightarrow> bool" where
  "hasExecution i s = (\<exists>r\<in>set (plan_executions s). pe_id r = i)"

definition checkError :: "string \<Rightarrow> err" where
  "checkError col = ErrMsg (''CHECK constraint failed: '' @ col)"

section \<open>Operations\<close>

definition planExecutionCheck :: "string \<Rightarrow> string \<Rightarrow> 'x plan_store_scheme \<Rightarrow> err option" where
  "planExecutionCheck i sessionID s =
    (if hasExecution i s then Some (ErrMsg ''UNIQUE constraint failed: plan_executions.id'')
     else if \<not> hasSession sessionID s then Some fkError else None)"

definition CreatePlanExecution :: "env \<Rightarrow> string \<Rightarrow> string \<Rightarrow> string \<Rightarrow> int \<Rightarrow>
    'x plan_store_scheme \<Rightarrow> (err + unit) \<times> 'x plan_store_scheme" where
  "CreatePlanExecution e i planName sessionID totalSteps =
    bindS (with_tx (ErrWrap ''begin tx'') (\<lambda>_. ErrWrap ''commit'')
      (bindS (wrapS ''insert plan_execution'' (execCheck (planExecutionCheck i sessionID)
         (\<lambda>s. s\<lparr>plan_executions := plan_executions s @ [\<lparr>pe_id = i, pe_plan_name = planName,
            pe_session_id = sessionID, pe_status = ''running'', pe_total_steps = totalSteps, pe_completed_steps = 0,
            pe_current_wave = 0, pe_total_cost = 0, pe_created_at = CURRENT_TIMESTAMP e, pe_completed_at = None,
            pe_updated_at = CURRENT_TIMESTAMP e\<rparr>]\<rparr>)))
       (\<lambda>_. retS (Commit ()))))
    (\<lambda>_. publishS ''plan.execution.started'' (PMap [(''execution_id'', VStr i), (''plan_name'', VStr planName),
            (''session_id'', VStr sessionID), (''total_steps'', VInt totalSteps)]))"

definition updExecutions :: "string \<Rightarrow> (plan_exec_row \<Rightarrow> plan_exec_row) \<Rightarrow> 'x plan_store_scheme \<Rightarrow> 'x plan_store_scheme" where
  "updExecutions i f s = s\<lparr>plan_executions := updWhere (\<lambda>r. pe_id r = i) f (plan_executions s)\<rparr>"

text \<open>\<open>SELECT COALESCE(SUM(cost_usd), 0) ... WHERE execution_id = ?\<close>.\<close>

definition stepCosts :: "string \<Rightarrow> 'x plan_store_scheme \<Rightarrow> usd" where
  "stepCosts i s = sum_list (map ps_cost (filter (\<lambda>r. ps_execution_id r = i) (plan_execution_steps s)))"

text \<open>An \<open>UPDATE\<close> that sets a status: the \<open>CHECK\<close> fails when a row is written with another text.\<close>

definition statusCheck :: "string list \<Rightarrow> string \<Rightarrow> bool \<Rightarrow> err option" where
  "statusCheck legal status written =
    (if written \<and> status \<notin> set legal then Some (checkError ''status'') else None)"

definition executionCount :: "string \<Rightarrow> 'x plan_store_scheme \<Rightarrow> nat" where
  "executionCount i s = countWhere (\<lambda>r. pe_id r = i) (plan_executions s)"

definition CompletePlanExecution :: "env \<Rightarrow> string \<Rightarrow> string \<Rightarrow> usd \<Rightarrow>
    'x plan_store_scheme \<Rightarrow> (err + unit) \<times> 'x plan_store_scheme" where
  "CompletePlanExecution e i status totalCostUSD =
    bindS (with_tx (ErrWrap ''begin tx'') (\<lambda>_. ErrWrap ''commit'')
      (bindS (wrapS ''calculate cost'' (queryS (stepCosts i)))
       (\<lambda>actualCost. bindS (wrapS ''update'' (execCheckCount (\<lambda>s. statusCheck execStatuses status (hasExecution i s)) (executionCount i)
            (updExecutions i (\<lambda>r. r\<lparr>pe_status := status, pe_total_cost := actualCost,
                  pe_completed_at := Some (CURRENT_TIMESTAMP e), pe_updated_at := CURRENT_TIMESTAMP e\<rparr>))))
       (\<lambda>rows. if rows = 0 then failS (ErrMsg (''plan_execution '' @ i @ '' not found''))
          else retS (Commit actualCost)))))
    (\<lambda>actualCost. publishS ''plan.execution.completed'' (PMap [(''execution_id'', VStr i), (''status'', VStr status),
            (''cost'', VFloat actualCost)]))"

text \<open>The struct \<open>PlanExecutionStep\<close>.\<close>

record PlanExecutionStep =
  XID :: string
  XExecutionID :: string
  XStepID :: string
  XStepIndex :: int
  XWaveNumber :: int
  XAgentID :: string
  XPrompt :: string
  XTaskID :: string
  XStatus :: string
  XResult :: string
  XError :: string
  XCostUSD :: usd
  XCreatedAt :: ts
  XCompletedAt :: "ts option"

definition pendingStep :: "env \<Rightarrow> string \<Rightarrow> string \<Rightarrow> PlanExecutionStep \<Rightarrow> plan_step_row" where
  "pendingStep e stepRecordID execID step = \<lparr>ps_id = stepRecordID, ps_execution_id = execID, ps_step_id = XStepID step,
     ps_step_index = XStepIndex step, ps_wave_number = XWaveNumber step, ps_agent_id = XAgentID step,
     ps_prompt = XPrompt step, ps_task_id = None, ps_status = ''pending'', ps_result = None, ps_error = None,
     ps_cost = 0, ps_created_at = CURRENT_TIMESTAMP e, ps_completed_at = None, ps_updated_at = CURRENT_TIMESTAMP e\<rparr>"

definition stepInsertCheck :: "string \<Rightarrow> string \<Rightarrow> 'x plan_store_scheme \<Rightarrow> err option" where
  "stepInsertCheck stepRecordID execID s =
    (if \<exists>r\<in>set (plan_execution_steps s). ps_id r = stepRecordID
     then Some (ErrMsg ''UNIQUE constraint failed: plan_execution_steps.id'')
     else if \<not> hasExecution execID s then Some fkError else None)"

text \<open>\<open>uuids\<close> are the ids \<open>uuid.New()\<close> draws, one per step.\<close>

definition InitializePlanSteps :: "env \<Rightarrow> (nat \<Rightarrow> string) \<Rightarrow> string \<Rightarrow> PlanExecutionStep list \<Rightarrow>
    'x plan_store_scheme \<Rightarrow> (err + unit) \<times> 'x plan_store_scheme" where
  "InitializePlanSteps e uuids execID steps =
    (if steps = [] then retS ()
     else with_tx (ErrWrap ''begin tx'') (\<lambda>_. ErrWrap ''commit'')
      (bindS (wrapS ''prepare statement'' (queryS (\<lambda>_. ())))
       (\<lambda>_. bindS (forEachS (\<lambda>(k, step). wrapS ''insert step'' (execCheck (stepInsertCheck (uuids k) execID)
              (\<lambda>s. s\<lparr>plan_execution_steps := plan_execution_steps s @ [pendingStep e (uuids k) execID step]\<rparr>)))
            (enumerate 0 steps))
       (\<lambda>_. retS (Commit ())))))"

definition UpdatePlanWave :: "env \<Rightarrow> string \<Rightarrow> int \<Rightarrow> 'x plan_store_scheme \<Rightarrow> (err + unit) \<times> 'x plan_store_scheme" where
  "UpdatePlanWave e execID waveNum = wrapS ''update wave'' (execS (updExecutions execID
     (\<lambda>r. r\<lparr>pe_current_wave := waveNum, pe_updated_at := CURRENT_TIMESTAMP e\<rparr>)))"

text \<open>The struct \<open>PlanExecution\<close> has the columns of the row, so the row is the scanned value.\<close>

definition GetPlanExecution :: "string \<Rightarrow> 'x plan_store_scheme \<Rightarrow> (err + plan_exec_row) \<times> 'x plan_store_scheme" where
  "GetPlanExecution execID = wrapS ''scan plan_execution''
     (queryRow (\<lambda>s. firstWhere (\<lambda>r. pe_id r = execID) (plan_executions s)))"

definition scanStep :: "plan_step_row \<Rightarrow> PlanExecutionStep" where
  "scanStep r = \<lparr>XID = ps_id r, XExecutionID = ps_execution_id r, XStepID = ps_step_id r, XStepIndex = ps_step_index r,
     XWaveNumber = ps_wave_number r, XAgentID = ps_agent_id r, XPrompt = ps_prompt r, XTaskID = coalesce (ps_task_id r) '''',
     XStatus = ps_status r, XResult = coalesce (ps_result r) '''', XError = coalesce (ps_error r) '''',
     XCostUSD = ps_cost r, XCreatedAt = ps_created_at r, XCompletedAt = ps_completed_at r\<rparr>"

definition GetPlanSteps :: "string \<Rightarrow> 'x plan_store_scheme \<Rightarrow> (err + PlanExecutionStep list) \<times> 'x plan_store_scheme" where
  "GetPlanSteps execID = wrapS ''query steps'' (queryS (\<lambda>s. map scanStep
     (sort_key (\<lambda>r. (ps_wave_number r, ps_step_index r))
       (filter (\<lambda>r. ps_execution_id r = execID) (plan_execution_steps s)))))"

record PlanExecutionRecovery =
  RID :: string
  RPlanName :: string
  RSessionID :: string
  RCurrentWave :: int
  RCompletedSteps :: int
  RTotalSteps :: int

definition scanRecovery :: "plan_exec_row \<Rightarrow> PlanExecutionRecovery" where
  "scanRecovery r = \<lparr>RID = pe_id r, RPlanName = pe_plan_name r, RSessionID = pe_session_id r, RCurrentWave = pe_current_wave r,
     RCompletedSteps = pe_completed_steps r, RTotalSteps = pe_total_steps r\<rparr>"

definition RecoverRunningPlans :: "'x plan_store_scheme \<Rightarrow> (err + PlanExecutionRecovery list) \<times> 'x plan_store_scheme" where
  "RecoverRunningPlans = wrapS ''query'' (queryS (\<lambda>s. map scanRecovery
     (sort_key pe_created_at (filter (\<lambda>r. pe_status r = ''running'') (plan_executions s)))))"

definition isStep :: "string \<Rightarrow> string \<Rightarrow> plan_step_row \<Rightarrow> bool" where
  "isStep execID stepID r = (ps_execution_id r = execID \<and> ps_step_id r = stepID)"

definition hasStep :: "string \<Rightarrow> string \<Rightarrow> 'x plan_store_scheme \<Rightarrow> bool" where
  "hasStep execID stepID s = (\<exists>r\<in>set (plan_execution_steps s). isStep execID stepID r)"

text \<open>The two \<open>UPDATE\<close> statements of \<open>RecordStepComplete\<close>.\<close>

definition completedStep :: "env \<Rightarrow> string \<Rightarrow> string \<Rightarrow> string \<Rightarrow> usd \<Rightarrow> plan_step_row \<Rightarrow> plan_step_row" where
  "completedStep e status result errMsg costUSD r = r\<lparr>ps_status := status, ps_result := Some result, ps_error := Some errMsg,
     ps_cost := costUSD, ps_completed_at := Some (CURRENT_TIMESTAMP e), ps_updated_at := CURRENT_TIMESTAMP e\<rparr>"

definition countStep :: "env \<Rightarrow> plan_exec_row \<Rightarrow> plan_exec_row" where
  "countStep e r = r\<lparr>pe_completed_steps := pe_completed_steps r + 1, pe_updated_at := CURRENT_TIMESTAMP e\<rparr>"

definition updSteps :: "string \<Rightarrow> string \<Rightarrow> (plan_step_row \<Rightarrow> plan_step_row) \<Rightarrow> 'x plan_store_scheme \<Rightarrow> 'x plan_store_scheme" where
  "updSteps execID stepID f s =
     s\<lparr>plan_execution_steps := updWhere (isStep execID stepID) f (plan_execution_steps s)\<rparr>"

definition RecordStepComplete :: "env \<Rightarrow> string \<Rightarrow> string \<Rightarrow> string \<Rightarrow> string \<Rightarrow> string \<Rightarrow> usd \<Rightarrow>
    'x plan_store_scheme \<Rightarrow> (err + unit) \<times> 'x plan_store_scheme" where
  "RecordStepComplete e execID stepID status result errMsg costUSD =
    bindS (with_tx (ErrWrap ''begin tx'') (\<lambda>_. ErrWrap ''commit'')
      (bindS (wrapS ''update step'' (execCheck (\<lambda>s. statusCheck stepStatuses status (hasStep execID stepID s))
         (updSteps execID stepID (completedStep e status result errMsg costUSD))))
       (\<lambda>_. bindS (wrapS ''increment completed_steps'' (execS (updExecutions execID (countStep e))))
       (\<lambda>_. retS (Commit ())))))
    (\<lambda>_. publishS ''plan.step.completed'' (PMap [(''execution_id'', VStr execID), (''step_id'', VStr stepID),
            (''status'', VStr status), (''result'', VStr result), (''error'', VStr errMsg), (''cost_usd'', VFloat costUSD)]))"

section \<open>The plan invariant\<close>

text \<open>What the schema promises of the two tables: keys, foreign keys and the \<open>CHECK\<close> constraints.\<close>

definition plan_inv :: "'x plan_store_scheme \<Rightarrow> bool" where
  "plan_inv s \<longleftrightarrow> distinct (map pe_id (plan_executions s)) \<and> distinct (map ps_id (plan_execution_steps s)) \<and>
     (\<forall>r\<in>set (plan_executions s). pe_status r \<in> set execStatuses \<and> hasSession (pe_session_id r) s) \<and>
     (\<forall>r\<in>set (plan_execution_steps s). ps_status r \<in> set stepStatuses \<and> hasExecution (ps_execution_id r) s)"

interpretation pn: task_frame plan_inv
  by unfold_locales (auto simp: plan_inv_def hasExecution_def hasSession_def split: option.splits)

lemma hasExecution_ids: "hasExecution i s \<longleftrightarrow> i \<in> pe_id ` set (plan_executions s)"
  by (auto simp: hasExecution_def)

lemma pe_id_updExecutions:
  "(\<And>r. pe_id (f r) = pe_id r) \<Longrightarrow> map pe_id (plan_executions (updExecutions i f s)) = map pe_id (plan_executions s)"
  by (simp add: updExecutions_def map_updWhere)

lemma plan_inv_updExecutions:
  assumes "plan_inv s" and "\<And>r. pe_id (f r) = pe_id r" and "\<And>r. pe_session_id (f r) = pe_session_id r"
    and "\<And>r. pe_id r = i \<Longrightarrow> hasExecution i s \<Longrightarrow> pe_status r \<in> set execStatuses \<Longrightarrow> pe_status (f r) \<in> set execStatuses"
  shows "plan_inv (updExecutions i f s)"
proof -
  have "set (map pe_id (plan_executions (updExecutions i f s))) = set (map pe_id (plan_executions s))"
    by (simp only: pe_id_updExecutions [OF assms(2)])
  then have has: "hasExecution j (updExecutions i f s) \<longleftrightarrow> hasExecution j s" for j by (simp add: hasExecution_ids)
  show ?thesis using assms unfolding plan_inv_def has pe_id_updExecutions [OF assms(2)]
    by (auto simp: updExecutions_def row_simps hasSession_def hasExecution_def)
qed


lemma plan_inv_updSteps:
  assumes "plan_inv s" and "\<And>r. ps_id (f r) = ps_id r" and "\<And>r. ps_execution_id (f r) = ps_execution_id r"
    and "\<And>r. isStep i j r \<Longrightarrow> ps_status r \<in> set stepStatuses \<Longrightarrow> hasStep i j s \<Longrightarrow> ps_status (f r) \<in> set stepStatuses"
  shows "plan_inv (updSteps i j f s)"
proof -
  have "map ps_id (plan_execution_steps (updSteps i j f s)) = map ps_id (plan_execution_steps s)"
    by (simp add: updSteps_def map_updWhere assms(2))
  then show ?thesis using assms unfolding plan_inv_def
    by (auto simp: updSteps_def row_simps hasSession_def hasExecution_def hasStep_def) blast
qed

lemmas plan_intros = pn.frame_intros pn.execCheckCount_keeps pn.forEachS_keeps

lemma CreatePlanExecution_inv: "plan_inv s \<Longrightarrow> plan_inv (snd (CreatePlanExecution e i pn sid n s))"
  unfolding CreatePlanExecution_def
  by (intro plan_intros)
    (auto simp: plan_inv_def planExecutionCheck_def execStatuses_def hasExecution_def hasSession_def split: if_splits)

lemma CompletePlanExecution_inv: "plan_inv s \<Longrightarrow> plan_inv (snd (CompletePlanExecution e i st c s))"
  unfolding CompletePlanExecution_def
  by (intro plan_intros plan_inv_updExecutions) (auto simp: statusCheck_def split: if_splits)

lemma InitializePlanSteps_inv: "plan_inv s \<Longrightarrow> plan_inv (snd (InitializePlanSteps e us i steps s))"
  unfolding InitializePlanSteps_def
  by (intro plan_intros)
    (auto simp: plan_inv_def stepInsertCheck_def stepStatuses_def pendingStep_def hasExecution_def hasSession_def split: if_splits)

lemma UpdatePlanWave_inv: "plan_inv s \<Longrightarrow> plan_inv (snd (UpdatePlanWave e i n s))"
  unfolding UpdatePlanWave_def by (intro plan_intros plan_inv_updExecutions) auto

lemma RecordStepComplete_inv: "plan_inv s \<Longrightarrow> plan_inv (snd (RecordStepComplete e i j st res er c s))"
  unfolding RecordStepComplete_def
  by (intro plan_intros plan_inv_updExecutions plan_inv_updSteps)
    (auto simp: statusCheck_def completedStep_def countStep_def split: if_splits)

lemma others_plan_inv:
  "plan_inv s \<Longrightarrow> plan_inv (snd (EnsureSession p e sid s))"
  "plan_inv s \<Longrightarrow> plan_inv (snd (RegisterSuccessfulToolCall e k tn rq rs s))"
  "plan_inv s \<Longrightarrow> plan_inv (snd (KVSet e k v s))"
  "plan_inv s \<Longrightarrow> plan_inv (snd (SetTaskContext r k v s))"
  "plan_inv s \<Longrightarrow> plan_inv (snd (RecordPolicyVersion e pv c src s))"
  unfolding EnsureSession_def RegisterSuccessfulToolCall_def KVSet_def SetTaskContext_def RecordPolicyVersion_def
  by (intro plan_intros; auto simp: plan_inv_def hasExecution_def hasSession_def)+

lemma good_plan [simp]:
  "good s0 (s\<lparr>plan_executions := xs\<rparr>) = good s0 s" "good s0 (s\<lparr>plan_execution_steps := ys\<rparr>) = good s0 s"
  by (simp_all add: good_def store_inv_def events_ok_def trail_def hasTask_def hasSession_def evolves_def)

section \<open>Runs of the plan store\<close>

inductive plan_store_step :: "'x plan_store_scheme \<Rightarrow> 'x plan_store_scheme \<Rightarrow> bool" where
  task_operation: "store_step s t \<Longrightarrow> plan_store_step s t"
| create_execution: "plan_store_step s (snd (CreatePlanExecution e i planName sid n s))"
| complete_execution: "plan_store_step s (snd (CompletePlanExecution e i st c s))"
| initialize_steps: "plan_store_step s (snd (InitializePlanSteps e us i steps s))"
| update_wave: "plan_store_step s (snd (UpdatePlanWave e i n s))"
| record_step: "plan_store_step s (snd (RecordStepComplete e i j st res er c s))"

lemma store_step_plan_inv: "store_step s t \<Longrightarrow> plan_inv s \<Longrightarrow> plan_inv t"
  by (induction rule: store_step.induct) (simp_all add: pn.op_frame pn.I_faults others_plan_inv)

lemma plan_store_step_inv: "plan_store_step s t \<Longrightarrow> plan_inv s \<Longrightarrow> plan_inv t"
  by (induction rule: plan_store_step.induct)
    (auto intro: store_step_plan_inv CreatePlanExecution_inv CompletePlanExecution_inv InitializePlanSteps_inv
      UpdatePlanWave_inv RecordStepComplete_inv)

lemma good_updExecutions [simp]: "good s0 (updExecutions i f s) = good s0 s"
  and good_updSteps [simp]: "good s0 (updSteps i j g s) = good s0 s"
  by (simp_all add: updExecutions_def updSteps_def)

lemma tx_good: "(\<And>s. good s0 s \<Longrightarrow> good s0 (snd (body s))) \<Longrightarrow> good s0 s \<Longrightarrow> good s0 (snd (with_tx wb wc body s))"
  by (rule gd.with_tx_keeps) (metis snd_conv, assumption)

lemma plan_ops_good:
  "good s0 s \<Longrightarrow> good s0 (snd (CreatePlanExecution e i pn sid n s))"
  "good s0 s \<Longrightarrow> good s0 (snd (CompletePlanExecution e i st c s))"
  "good s0 s \<Longrightarrow> good s0 (snd (InitializePlanSteps e us i steps s))"
  "good s0 s \<Longrightarrow> good s0 (snd (UpdatePlanWave e i n s))"
  "good s0 s \<Longrightarrow> good s0 (snd (RecordStepComplete e i j st res er c s))"
  unfolding CreatePlanExecution_def CompletePlanExecution_def InitializePlanSteps_def UpdatePlanWave_def RecordStepComplete_def
  by (auto simp: retS_def failS_def intro!: gd.bindS_keeps tx_good gd.wrapS_keeps gd.execS_keeps gd.execCheck_keeps
      gd.execCheckCount_keeps gd.queryS_keeps gd.forEachS_keeps gd.publishS_keeps)

lemma plan_store_step_good: "plan_store_step s t \<Longrightarrow> good s0 s \<Longrightarrow> good s0 t"
  by (induction rule: plan_store_step.induct) (auto intro: store_step_good plan_ops_good)

text \<open>In every state reachable from a consistent database by operations on plans and on tasks, whatever
  fails in between, both invariants hold: the keys of the plan tables are unique, every execution refers
  to a session and every step to an execution, every status is one of the legal ones, and the task queue
  keeps its own invariant.\<close>

theorem reachable_plan_inv:
  assumes "plan_store_step\<^sup>*\<^sup>* s t" and "plan_inv s" and "store_inv s"
  shows "plan_inv t \<and> store_inv t"
proof -
  from assms have "plan_inv t \<and> good s t"
    by (induction rule: rtranclp_induct) (auto intro: plan_store_step_inv plan_store_step_good good_start)
  then show ?thesis by (simp add: good_def)
qed

section \<open>What the operations do\<close>

lemma publishS_run: "publishS t p s = (Inr (), s') \<Longrightarrow> \<exists>b. s' = s\<lparr>bus := b\<rparr>"
  by (auto simp: publishS_def split: option.splits intro: exI [of _ "bus s"])

text \<open>The outcome of \<open>RecordStepComplete\<close> for a recorded step, whatever the driver does.\<close>

lemma RecordStepComplete_InrE:
  assumes "RecordStepComplete e i j st res er c s = (Inr (), t)"
  obtains b fs where "t = (updExecutions i (countStep e) (updSteps i j (completedStep e st res er c) s))\<lparr>bus := b, faults := fs\<rparr>"
    and "hasStep i j s \<longrightarrow> st \<in> set stepStatuses"
proof -
  from assms obtain s1 where tx: "with_tx (ErrWrap ''begin tx'') (\<lambda>_. ErrWrap ''commit'')
      (bindS (wrapS ''update step'' (execCheck (\<lambda>s. statusCheck stepStatuses st (hasStep i j s))
         (updSteps i j (completedStep e st res er c))))
       (\<lambda>_. bindS (wrapS ''increment completed_steps'' (execS (updExecutions i (countStep e))))
       (\<lambda>_. retS (Commit ())))) s = (Inr (), s1)" and pub: "\<exists>b. t = s1\<lparr>bus := b\<rparr>"
    unfolding RecordStepComplete_def bindS_Inr by (auto dest!: publishS_run)
  from tx show thesis
  proof (cases rule: with_tx_InrE)
    case (committed s2 s3)
    from committed(2) obtain fs gs where s3: "s3 = updExecutions i (countStep e) ((updSteps i j (completedStep e st res er c)
        (s2\<lparr>faults := fs\<rparr>))\<lparr>faults := gs\<rparr>)" and chk: "statusCheck stepStatuses st (hasStep i j (s2\<lparr>faults := fs\<rparr>)) = None"
      by (auto simp: bindS_Inr elim!: stmt_elims)
    from committed(1) obtain hs where s2: "s2 = s\<lparr>faults := hs\<rparr>" by (rule same_tables_elim)
    from committed(3) obtain ks where s1: "s1 = s3\<lparr>faults := ks\<rparr>" by (rule same_tables_elim)
    from pub obtain b where t: "t = s1\<lparr>bus := b\<rparr>" by blast
    show thesis
    proof (rule that)
      show "t = (updExecutions i (countStep e) (updSteps i j (completedStep e st res er c) s))\<lparr>bus := b, faults := ks\<rparr>"
        unfolding t s1 s3 s2 by (simp add: updExecutions_def updSteps_def)
      show "hasStep i j s \<longrightarrow> st \<in> set stepStatuses"
        using chk by (auto simp: s2 statusCheck_def hasStep_def split: if_splits)
    qed
  qed (auto simp: bindS_Inr)
qed

lemma RecordStepComplete_Inl:
  assumes "RecordStepComplete e i j st res er c s = (Inl x, t)"
  shows "same_tables s t"
  using assms unfolding RecordStepComplete_def
  by (auto simp: bindS_def publishS_def split: prod.splits sum.splits dest: with_tx_error_rolls_back)

text \<open>Recording the completion of a step that has a record either fails and leaves every table as it was,
  or the status is one the table allows and exactly two rows change: the step gets the status, the result,
  the error, the cost and the time, and the counter of completed steps of its execution goes up by one.\<close>

theorem record_step_outcome:
  assumes "RecordStepComplete e i j st res er c s = (r, t)" and "hasStep i j s"
  shows "(case r of Inl x \<Rightarrow> same_tables s t
    | Inr _ \<Rightarrow> st \<in> set stepStatuses \<and> tasks t = tasks s \<and>
        plan_execution_steps t = updWhere (isStep i j) (completedStep e st res er c) (plan_execution_steps s) \<and>
        plan_executions t = updWhere (\<lambda>x. pe_id x = i) (countStep e) (plan_executions s))"
proof (cases r)
  case (Inl x)
  with assms show ?thesis by (auto intro: RecordStepComplete_Inl)
next
  case (Inr u)
  with assms(1) have "RecordStepComplete e i j st res er c s = (Inr (), t)" by simp
  then show ?thesis by (rule RecordStepComplete_InrE) (use assms(2) Inr in \<open>simp add: updExecutions_def updSteps_def\<close>)
qed

lemma task_status_not_step_status: "statusString st \<notin> set stepStatuses"
  by (cases st) (simp_all add: stepStatuses_def)

text \<open>The status column of \<open>plan_execution_steps\<close> allows lower-case names only, so recording a step with
  the status of a task, as the plan executor does, fails for every task status and changes no table.\<close>

theorem record_task_status_rejected:
  assumes "hasStep i j s"
  shows "\<exists>x t. RecordStepComplete e i j (statusString st) res er c s = (Inl x, t) \<and> same_tables s t"
proof (cases "RecordStepComplete e i j (statusString st) res er c s")
  case (Pair r t)
  show ?thesis
  proof (cases r)
    case (Inl x)
    with Pair show ?thesis by (auto intro: RecordStepComplete_Inl)
  next
    case (Inr u)
    with Pair assms show ?thesis by (auto elim!: RecordStepComplete_InrE simp: task_status_not_step_status)
  qed
qed

text \<open>A plan execution that is completed gets the requested status, which is a legal one, and as its total
  cost the sum of the costs recorded for its steps, whatever cost the caller passes; other executions and
  all steps are untouched.\<close>

theorem complete_plan_cost:
  assumes "CompletePlanExecution e i st c s = (Inr (), t)"
  shows "st \<in> set execStatuses \<and> hasExecution i s \<and> plan_execution_steps t = plan_execution_steps s \<and>
    plan_executions t = updWhere (\<lambda>x. pe_id x = i) (\<lambda>x. x\<lparr>pe_status := st,
      pe_total_cost := sum_list (map ps_cost (filter (\<lambda>r. ps_execution_id r = i) (plan_execution_steps s))),
      pe_completed_at := Some (CURRENT_TIMESTAMP e), pe_updated_at := CURRENT_TIMESTAMP e\<rparr>) (plan_executions s)"
proof -
  from assms obtain cost s1 where tx: "with_tx (ErrWrap ''begin tx'') (\<lambda>_. ErrWrap ''commit'')
      (bindS (wrapS ''calculate cost'' (queryS (stepCosts i)))
       (\<lambda>actualCost. bindS (wrapS ''update'' (execCheckCount (\<lambda>s. statusCheck execStatuses st (hasExecution i s)) (executionCount i)
            (updExecutions i (\<lambda>r. r\<lparr>pe_status := st, pe_total_cost := actualCost,
                  pe_completed_at := Some (CURRENT_TIMESTAMP e), pe_updated_at := CURRENT_TIMESTAMP e\<rparr>))))
       (\<lambda>rows. if rows = 0 then failS (ErrMsg (''plan_execution '' @ i @ '' not found''))
          else retS (Commit actualCost)))) s = (Inr cost, s1)" and pub: "\<exists>b. t = s1\<lparr>bus := b\<rparr>"
    unfolding CompletePlanExecution_def bindS_Inr by (auto dest!: publishS_run)
  from tx show ?thesis
  proof (cases rule: with_tx_InrE)
    case (committed s2 s3)
    from committed(1) obtain hs where s2: "s2 = s\<lparr>faults := hs\<rparr>" by (rule same_tables_elim)
    from committed(3) obtain ks where s1: "s1 = s3\<lparr>faults := ks\<rparr>" by (rule same_tables_elim)
    from committed(2) have "hasExecution i s" and "st \<in> set execStatuses"
      and "plan_execution_steps s3 = plan_execution_steps s"
      and "plan_executions s3 = updWhere (\<lambda>x. pe_id x = i) (\<lambda>r. r\<lparr>pe_status := st, pe_total_cost := stepCosts i s,
                  pe_completed_at := Some (CURRENT_TIMESTAMP e), pe_updated_at := CURRENT_TIMESTAMP e\<rparr>) (plan_executions s)"
      by (auto simp: bindS_Inr s2 statusCheck_def executionCount_def countWhere_def hasExecution_def filter_empty_conv
          stepCosts_def updExecutions_def elim!: stmt_elims split: if_splits)
    with pub show ?thesis by (auto simp: s1 updExecutions_def stepCosts_def)
  qed (auto simp: bindS_Inr split: if_splits)
qed

section \<open>A small run\<close>

definition exPlanStore :: plan_store where
  "exPlanStore = store.extend exSession (plan_store.fields [] [])"

definition exStepRecord :: PlanExecutionStep where
  "exStepRecord = \<lparr>XID = '''', XExecutionID = '''', XStepID = ''a'', XStepIndex = 0, XWaveNumber = 0, XAgentID = ''default'',
     XPrompt = ''p'', XTaskID = '''', XStatus = '''', XResult = '''', XError = '''', XCostUSD = 0, XCreatedAt = CurTs 0, XCompletedAt = None\<rparr>"

definition exExecution :: plan_store where
  "exExecution = snd (InitializePlanSteps (exEnv 100) (\<lambda>k. replicate (Suc k) (CHR ''u'')) ''x1'' [exStepRecord]
     (snd (CreatePlanExecution (exEnv 100) ''x1'' ''p'' ''s'' 1 exPlanStore)))"

lemmas plan_eval = planExecutionCheck_def hasExecution_def hasSession_def publishS_def updExecutions_def updSteps_def
  statusCheck_def executionCount_def stepInsertCheck_def hasStep_def isStep_def stepCosts_def

definition exExecRow :: plan_exec_row where
  "exExecRow = \<lparr>pe_id = ''x1'', pe_plan_name = ''p'', pe_session_id = ''s'', pe_status = ''running'', pe_total_steps = 1,
     pe_completed_steps = 0, pe_current_wave = 0, pe_total_cost = 0, pe_created_at = CurTs 100, pe_completed_at = None,
     pe_updated_at = CurTs 100\<rparr>"

definition exStepRow :: plan_step_row where
  "exStepRow = pendingStep (exEnv 100) ''u'' ''x1'' exStepRecord"

lemma exPlanStore_eq: "exPlanStore = store.extend exSession \<lparr>plan_executions = [], plan_execution_steps = []\<rparr>"
  by (simp add: exPlanStore_def plan_store.defs)

lemma exExecution_eq: "exExecution = exPlanStore\<lparr>plan_executions := [exExecRow], plan_execution_steps := [exStepRow]\<rparr>"
  by (simp add: exExecution_def exPlanStore_def store.defs plan_store.defs exSession_eq exTables_def emptyStore_def
      CreatePlanExecution_def InitializePlanSteps_def tx_eval plan_eval store_eval exExecRow_def exStepRow_def)

lemma exExecution_steps: "plan_store_step\<^sup>*\<^sup>* exPlanStore exExecution"
  unfolding exExecution_def
  by (rule rtranclp.rtrancl_into_rtrancl [OF r_into_rtranclp]) (rule create_execution, rule initialize_steps)

lemma exPlanStore_inv: "plan_inv exPlanStore" "store_inv exPlanStore"
  by (simp_all add: exPlanStore_def store.defs plan_store.defs exSession_eq exTables_def emptyStore_def plan_inv_def
      store_inv_def events_ok_def trail_def)

theorem reachable_plan_inv_witness: "plan_inv exExecution \<and> store_inv exExecution \<and> plan_execution_steps exExecution = [exStepRow]"
  using reachable_plan_inv [OF exExecution_steps exPlanStore_inv] by (simp add: exExecution_eq)

lemma exExecution_hasStep: "hasStep ''x1'' ''a'' exExecution"
  by (simp add: exExecution_eq hasStep_def isStep_def exStepRow_def pendingStep_def exStepRecord_def)

lemma exRecord: "fst (RecordStepComplete (exEnv 101) ''x1'' ''a'' ''succeeded'' ''out'' '''' 2 exExecution) = Inr ()"
  by (simp add: exExecution_eq exPlanStore_def store.defs plan_store.defs exSession_eq exTables_def emptyStore_def
      RecordStepComplete_def tx_eval plan_eval stepStatuses_def)

theorem record_step_outcome_witness:
  "map ps_cost (plan_execution_steps (snd (RecordStepComplete (exEnv 101) ''x1'' ''a'' ''succeeded'' ''out'' '''' 2 exExecution))) = [2]"
  using record_step_outcome [OF surjective_pairing exExecution_hasStep,
      of "exEnv 101" "''succeeded''" "''out''" "''''" 2] exRecord
  by (simp add: exExecution_eq updWhere_def isStep_def exStepRow_def pendingStep_def exStepRecord_def completedStep_def)

theorem record_task_status_rejected_witness:
  "\<exists>x t. RecordStepComplete (exEnv 101) ''x1'' ''a'' (statusString TaskStatusSucceeded) ''out'' '''' 2 exExecution = (Inl x, t) \<and>
     same_tables exExecution t"
  using exExecution_hasStep by (rule record_task_status_rejected)

definition exRecorded :: plan_store where
  "exRecorded = snd (RecordStepComplete (exEnv 101) ''x1'' ''a'' ''succeeded'' ''out'' '''' 2 exExecution)"

lemma exRecorded_eq: "exRecorded = exPlanStore\<lparr>plan_executions := [countStep (exEnv 101) exExecRow],
    plan_execution_steps := [completedStep (exEnv 101) ''succeeded'' ''out'' '''' 2 exStepRow]\<rparr>"
  by (simp add: exRecorded_def exExecution_eq exPlanStore_def store.defs plan_store.defs exSession_eq exTables_def emptyStore_def
      RecordStepComplete_def tx_eval plan_eval stepStatuses_def exExecRow_def exStepRow_def pendingStep_def exStepRecord_def updWhere_def)

lemma exComplete: "fst (CompletePlanExecution (exEnv 102) ''x1'' ''succeeded'' 7 exRecorded) = Inr ()"
  by (simp add: exRecorded_eq exPlanStore_def store.defs plan_store.defs exSession_eq exTables_def emptyStore_def
      CompletePlanExecution_def execCheckCount_def tx_eval plan_eval execStatuses_def exExecRow_def countStep_def countWhere_def)

theorem complete_plan_cost_witness:
  "map pe_total_cost (plan_executions (snd (CompletePlanExecution (exEnv 102) ''x1'' ''succeeded'' 7 exRecorded))) = [2]"
proof -
  from exComplete obtain t where t: "CompletePlanExecution (exEnv 102) ''x1'' ''succeeded'' 7 exRecorded = (Inr (), t)"
    by (metis prod.collapse)
  from complete_plan_cost [OF t] show ?thesis unfolding t
    by (simp add: exRecorded_eq updWhere_def countStep_def exExecRow_def completedStep_def exStepRow_def pendingStep_def)
qed

section \<open>Properties of other tables\<close>

locale plan_frame = store_frame I for I :: "'x plan_store_scheme \<Rightarrow> bool" +
  assumes I_executions: "I (s\<lparr>plan_executions := xs\<rparr>) \<longleftrightarrow> I s"
    and I_steps: "I (s\<lparr>plan_execution_steps := ys\<rparr>) \<longleftrightarrow> I s"
begin

lemma plan_ops_frame:
  "I s \<Longrightarrow> I (snd (CreatePlanExecution e i pn sid n s))"
  "I s \<Longrightarrow> I (snd (CompletePlanExecution e i st c s))"
  "I s \<Longrightarrow> I (snd (InitializePlanSteps e us i steps s))"
  "I s \<Longrightarrow> I (snd (UpdatePlanWave e i n s))"
  "I s \<Longrightarrow> I (snd (RecordStepComplete e i j st res er c s))"
  unfolding CreatePlanExecution_def CompletePlanExecution_def InitializePlanSteps_def UpdatePlanWave_def RecordStepComplete_def
  by (intro frame_intros execCheckCount_keeps forEachS_keeps; auto simp: I_executions I_steps updExecutions_def updSteps_def
      intro!: wrapS_keeps execCheck_keeps)+

lemma plan_store_step_frame: "plan_store_step s t \<Longrightarrow> I s \<Longrightarrow> I t"
  by (induction rule: plan_store_step.induct) (auto intro: store_step_frame plan_ops_frame)

end
end
