(* ===== verification/Agent_Store.thy ===== *)
theory Agent_Store
  imports Plan_Store
begin

text \<open>
  Agents, the messages between them and their delegations (\<open>internal/persistence/agents.go\<close>,
  \<open>delegations.go\<close>): the three tables and one definition per operation of \<open>Store\<close> on them. Deleting
  an agent also touches the task queue.
\<close>

section \<open>Rows\<close>

record AgentRecord =
  AgentRecID :: string
  DisplayName :: string
  Provider :: string
  Model :: string
  Soul :: string
  WorkerCount :: int
  TaskTimeoutSeconds :: int
  MaxQueueDepth :: int
  SkillsFilter :: string
  PolicyOverrides :: string
  APIKeyEnv :: string
  AgentEmoji :: string
  PreferredSearch :: string
  AgentStatus :: string
  AgentCreatedAt :: ts
  AgentUpdatedAt :: ts

record agent_message_row =
  am_id :: nat
  am_from :: string
  am_to :: string
  am_content :: string
  am_read_at :: "ts option"
  am_created_at :: ts

text \<open>The struct \<open>Delegation\<close> has the columns of the table; \<open>task_id\<close> is always bound.\<close>

record Delegation =
  DelegID :: string
  DelegTaskID :: string
  ParentAgent :: string
  ChildAgent :: string
  DelegPrompt :: string
  DelegStatus :: string
  DelegResult :: "string option"
  DelegError :: "string option"
  DelegCreatedAt :: ts
  DelegCompletedAt :: "ts option"
  Injected :: bool

record agent_store = plan_store +
  agents :: "AgentRecord list"
  agent_messages :: "agent_message_row list"
  am_seq :: nat
  delegations :: "Delegation list"

definition agentStatuses :: "string list" where
  "agentStatuses = [''active'', ''stopped'', ''draining'']"

definition ReasonCanceled :: string where
  "ReasonCanceled = ''CANCELED''"

definition hasAgent :: "string \<Rightarrow> 'x agent_store_scheme \<Rightarrow> bool" where
  "hasAgent agentID s = (\<exists>r\<in>set (agents s). AgentRecID r = agentID)"

definition agentCount :: "string \<Rightarrow> 'x agent_store_scheme \<Rightarrow> nat" where
  "agentCount agentID s = countWhere (\<lambda>r. AgentRecID r = agentID) (agents s)"

definition agentNotFound :: "string \<Rightarrow> err" where
  "agentNotFound agentID = ErrMsg (''agent '' @ quoteGo agentID @ '' not found'')"

section \<open>Agents\<close>

definition agentInsertCheck :: "AgentRecord \<Rightarrow> 'x agent_store_scheme \<Rightarrow> err option" where
  "agentInsertCheck rec s =
    (if hasAgent (AgentRecID rec) s then Some (ErrMsg ''UNIQUE constraint failed: agents.agent_id'')
     else statusCheck agentStatuses (AgentStatus rec) True)"

definition CreateAgent :: "env \<Rightarrow> AgentRecord \<Rightarrow> 'x agent_store_scheme \<Rightarrow> (err + unit) \<times> 'x agent_store_scheme" where
  "CreateAgent e rec = wrapS ''create agent'' (execCheck (agentInsertCheck rec)
     (\<lambda>s. s\<lparr>agents := agents s @ [rec\<lparr>AgentCreatedAt := CURRENT_TIMESTAMP e, AgentUpdatedAt := CURRENT_TIMESTAMP e\<rparr>]\<rparr>))"

definition GetAgent :: "string \<Rightarrow> 'x agent_store_scheme \<Rightarrow> (err + AgentRecord option) \<times> 'x agent_store_scheme" where
  "GetAgent agentID = wrapS ''get agent'' (noRowsAsNone (queryRow (\<lambda>s. firstWhere (\<lambda>r. AgentRecID r = agentID) (agents s))))"

definition ListAgents :: "'x agent_store_scheme \<Rightarrow> (err + AgentRecord list) \<times> 'x agent_store_scheme" where
  "ListAgents = wrapS ''list agents'' (queryS (\<lambda>s. sort_key AgentCreatedAt (agents s)))"

definition UpdateAgentStatus :: "env \<Rightarrow> string \<Rightarrow> string \<Rightarrow> 'x agent_store_scheme \<Rightarrow> (err + unit) \<times> 'x agent_store_scheme" where
  "UpdateAgentStatus e agentID status =
    bindS (wrapS ''update agent status'' (execCheckCount (\<lambda>s. statusCheck agentStatuses status (hasAgent agentID s)) (agentCount agentID)
      (\<lambda>s. s\<lparr>agents := updWhere (\<lambda>r. AgentRecID r = agentID)
         (\<lambda>r. r\<lparr>AgentStatus := status, AgentUpdatedAt := CURRENT_TIMESTAMP e\<rparr>) (agents s)\<rparr>)))
    (\<lambda>n. if n = 0 then failS (agentNotFound agentID) else retS ())"

text \<open>The last statement of \<open>DeleteAgent\<close>: a plain \<open>UPDATE\<close> of the queued and claimed tasks of the agent.\<close>

definition orphanedTask :: "string \<Rightarrow> task_row \<Rightarrow> bool" where
  "orphanedTask agentID r \<longleftrightarrow> t_agent_id r = agentID \<and> t_status r \<in> {TaskStatusQueued, TaskStatusClaimed}"

definition cancelOrphan :: "env \<Rightarrow> task_row \<Rightarrow> task_row" where
  "cancelOrphan e r = r\<lparr>t_status := TaskStatusCanceled, t_error := Some ''agent_deleted'', t_last_error_code := Some ReasonCanceled,
     t_updated_at := CURRENT_TIMESTAMP e, t_lease_owner := None, t_lease_expires_at := None\<rparr>"

definition DeleteAgent :: "env \<Rightarrow> string \<Rightarrow> 'x agent_store_scheme \<Rightarrow> (err + unit) \<times> 'x agent_store_scheme" where
  "DeleteAgent e agentID =
    with_tx (ErrWrap ''delete agent: begin tx'') (\<lambda>_. ErrWrap ''delete agent: commit'')
     (bindS (wrapS ''delete agent'' (execCount (agentCount agentID)
              (\<lambda>s. s\<lparr>agents := delWhere (\<lambda>r. AgentRecID r = agentID) (agents s)\<rparr>)))
      (\<lambda>n. if n = 0 then failS (agentNotFound agentID)
       else bindS (wrapS ''delete agent messages'' (execS
              (\<lambda>s. s\<lparr>agent_messages := delWhere (\<lambda>m. am_from m = agentID \<or> am_to m = agentID) (agent_messages s)\<rparr>)))
       (\<lambda>_. bindS (wrapS ''delete agent delegations'' (execS
              (\<lambda>s. s\<lparr>delegations := delWhere (\<lambda>d. ParentAgent d = agentID \<or> ChildAgent d = agentID) (delegations s)\<rparr>)))
       (\<lambda>_. bindS (wrapS ''cancel orphaned tasks'' (execS (updTasks (orphanedTask agentID) (cancelOrphan e))))
       (\<lambda>_. retS (Commit ()))))))"

definition CreateTaskForAgent :: "env \<Rightarrow> string \<Rightarrow> string \<Rightarrow> string \<Rightarrow> string \<Rightarrow> 'x store_scheme \<Rightarrow> (err + string) \<times> 'x store_scheme" where
  "CreateTaskForAgent e taskID agentID sessionID payload = createTask e taskID agentID sessionID payload"

definition ClaimNextPendingTaskForAgent :: "env \<Rightarrow> string \<Rightarrow> string \<Rightarrow> 'x store_scheme \<Rightarrow> (err + Task option) \<times> 'x store_scheme" where
  "ClaimNextPendingTaskForAgent e leaseOwner agentID = claimNextPendingTask e leaseOwner agentID"

section \<open>Messages between agents\<close>

definition SendAgentMessage :: "env \<Rightarrow> string \<Rightarrow> string \<Rightarrow> string \<Rightarrow> 'x agent_store_scheme \<Rightarrow> (err + unit) \<times> 'x agent_store_scheme" where
  "SendAgentMessage e from to content = wrapS ''send agent message'' (execS (\<lambda>s. s\<lparr>am_seq := Suc (am_seq s),
     agent_messages := agent_messages s @ [\<lparr>am_id = Suc (am_seq s), am_from = from, am_to = to, am_content = content,
       am_read_at = None, am_created_at = CURRENT_TIMESTAMP e\<rparr>]\<rparr>))"

definition unread :: "string \<Rightarrow> agent_message_row \<Rightarrow> bool" where
  "unread agentID m \<longleftrightarrow> am_to m = agentID \<and> am_read_at m = None"

text \<open>\<open>ORDER BY created_at ASC LIMIT ?\<close>: rows with the same time come in the order of the table.\<close>

definition nextMessages :: "string \<Rightarrow> nat \<Rightarrow> 'x agent_store_scheme \<Rightarrow> agent_message_row list" where
  "nextMessages agentID n s = take n (sort_key am_created_at (filter (unread agentID) (agent_messages s)))"

definition ReadAgentMessages :: "env \<Rightarrow> string \<Rightarrow> int \<Rightarrow> 'x agent_store_scheme \<Rightarrow> (err + agent_message_row list) \<times> 'x agent_store_scheme" where
  "ReadAgentMessages e agentID limit =
    (let n = nat (if limit \<le> 0 then 10 else limit) in
     with_tx (ErrWrap ''read agent messages: begin tx'') (\<lambda>_. ErrWrap ''read agent messages: commit'')
      (bindS (wrapS ''read agent messages'' (queryS (nextMessages agentID n)))
       (\<lambda>msgs. bindS (if msgs = [] then retS () else wrapS ''mark messages read'' (execS
            (\<lambda>s. s\<lparr>agent_messages := updWhere (\<lambda>m. am_id m \<in> set (map am_id msgs))
                (\<lambda>m. m\<lparr>am_read_at := Some (CURRENT_TIMESTAMP e)\<rparr>) (agent_messages s)\<rparr>)))
       (\<lambda>_. retS (Commit msgs)))))"

definition PeekAgentMessages :: "string \<Rightarrow> 'x agent_store_scheme \<Rightarrow> (err + nat) \<times> 'x agent_store_scheme" where
  "PeekAgentMessages agentID = wrapS ''peek agent messages'' (queryS (\<lambda>s. countWhere (unread agentID) (agent_messages s)))"

definition TotalAgentMessageCount :: "'x agent_store_scheme \<Rightarrow> (err + nat) \<times> 'x agent_store_scheme" where
  "TotalAgentMessageCount = wrapS ''total agent message count'' (queryS (\<lambda>s. length (agent_messages s)))"

definition TotalDelegationCount :: "'x agent_store_scheme \<Rightarrow> (err + nat) \<times> 'x agent_store_scheme" where
  "TotalDelegationCount = wrapS ''total delegation count'' (queryS (\<lambda>s. length (delegations s)))"

section \<open>Delegations\<close>

text \<open>\<open>newID\<close> is what \<open>uuid.New()\<close> draws when the record has no id.\<close>

definition CreateDelegation :: "string \<Rightarrow> Delegation \<Rightarrow> 'x agent_store_scheme \<Rightarrow> (err + unit) \<times> 'x agent_store_scheme" where
  "CreateDelegation newID d =
    (let i = (if DelegID d = '''' then newID else DelegID d) in
     execCheck (\<lambda>s. if \<exists>x\<in>set (delegations s). DelegID x = i then Some (ErrMsg ''UNIQUE constraint failed: delegations.id'') else None)
       (\<lambda>s. s\<lparr>delegations := delegations s @ [d\<lparr>DelegID := i, DelegResult := None, DelegError := None,
          DelegCompletedAt := None, Injected := False\<rparr>]\<rparr>))"

definition GetDelegation :: "string \<Rightarrow> 'x agent_store_scheme \<Rightarrow> (err + Delegation) \<times> 'x agent_store_scheme" where
  "GetDelegation i = queryRow (\<lambda>s. firstWhere (\<lambda>d. DelegID d = i) (delegations s))"

definition updDelegation :: "string \<Rightarrow> (Delegation \<Rightarrow> Delegation) \<Rightarrow> 'x agent_store_scheme \<Rightarrow> 'x agent_store_scheme" where
  "updDelegation i f s = s\<lparr>delegations := updWhere (\<lambda>d. DelegID d = i) f (delegations s)\<rparr>"

definition CompleteDelegation :: "env \<Rightarrow> string \<Rightarrow> string \<Rightarrow> 'x agent_store_scheme \<Rightarrow> (err + unit) \<times> 'x agent_store_scheme" where
  "CompleteDelegation e i result = execS (updDelegation i
     (\<lambda>d. d\<lparr>DelegStatus := ''completed'', DelegResult := Some result, DelegCompletedAt := Some (GoTs (now e))\<rparr>))"

definition FailDelegation :: "env \<Rightarrow> string \<Rightarrow> string \<Rightarrow> 'x agent_store_scheme \<Rightarrow> (err + unit) \<times> 'x agent_store_scheme" where
  "FailDelegation e i errMsg = execS (updDelegation i
     (\<lambda>d. d\<lparr>DelegStatus := ''failed'', DelegError := Some errMsg, DelegCompletedAt := Some (GoTs (now e))\<rparr>))"

definition deliverable :: "string \<Rightarrow> Delegation \<Rightarrow> bool" where
  "deliverable agentID d \<longleftrightarrow> ParentAgent d = agentID \<and> \<not> Injected d \<and> DelegStatus d \<in> {''completed'', ''failed''}"

definition PendingDelegationsForAgent :: "string \<Rightarrow> 'x agent_store_scheme \<Rightarrow> (err + Delegation list) \<times> 'x agent_store_scheme" where
  "PendingDelegationsForAgent agentID = queryS (\<lambda>s. sort_key DelegCreatedAt (filter (deliverable agentID) (delegations s)))"

definition MarkDelegationInjected :: "string \<Rightarrow> 'x agent_store_scheme \<Rightarrow> (err + unit) \<times> 'x agent_store_scheme" where
  "MarkDelegationInjected i = execS (updDelegation i (\<lambda>d. d\<lparr>Injected := True\<rparr>))"

definition GetDelegationByTaskID :: "string \<Rightarrow> 'x agent_store_scheme \<Rightarrow> (err + Delegation) \<times> 'x agent_store_scheme" where
  "GetDelegationByTaskID taskID = queryRow (\<lambda>s. firstWhere (\<lambda>d. DelegTaskID d = taskID) (delegations s))"


section \<open>Messages are delivered once and in order\<close>

definition mail_inv :: "'x agent_store_scheme \<Rightarrow> bool" where
  "mail_inv s \<longleftrightarrow> sorted_wrt (<) (map am_id (agent_messages s)) \<and> (\<forall>m\<in>set (agent_messages s). am_id m \<le> am_seq s)"

text \<open>Messages already handed out: none of them is unread, and their ids are not used again.\<close>

definition handedOut :: "nat set \<Rightarrow> 'x agent_store_scheme \<Rightarrow> bool" where
  "handedOut is s \<longleftrightarrow> mail_inv s \<and> (\<forall>i\<in>is. i \<le> am_seq s) \<and> (\<forall>m\<in>set (agent_messages s). am_id m \<in> is \<longrightarrow> am_read_at m \<noteq> None)"

interpretation mb: plan_frame "handedOut is" for "is"
  by unfold_locales (auto simp: handedOut_def mail_inv_def split: option.splits)

lemma mail_inv_handedOut: "mail_inv s \<longleftrightarrow> handedOut {} s"
  by (simp add: handedOut_def)

inductive agent_store_step :: "'x agent_store_scheme \<Rightarrow> 'x agent_store_scheme \<Rightarrow> bool" where
  plan_operation: "plan_store_step s t \<Longrightarrow> agent_store_step s t"
| create_agent: "agent_store_step s (snd (CreateAgent e rec s))"
| update_agent: "agent_store_step s (snd (UpdateAgentStatus e a st s))"
| delete_agent: "agent_store_step s (snd (DeleteAgent e a s))"
| send_message: "agent_store_step s (snd (SendAgentMessage e f t c s))"
| read_messages: "agent_store_step s (snd (ReadAgentMessages e a n s))"
| create_delegation: "agent_store_step s (snd (CreateDelegation i d s))"
| complete_delegation: "agent_store_step s (snd (CompleteDelegation e i r s))"
| fail_delegation: "agent_store_step s (snd (FailDelegation e i r s))"
| mark_injected: "agent_store_step s (snd (MarkDelegationInjected i s))"

lemma handedOut_delWhere: "handedOut is s \<Longrightarrow> handedOut is (s\<lparr>agent_messages := delWhere P (agent_messages s)\<rparr>)"
  unfolding handedOut_def mail_inv_def by (auto simp: sorted_wrt_delWhere) (auto simp: delWhere_def)

lemma handedOut_mark: "handedOut is s \<Longrightarrow> handedOut is (s\<lparr>agent_messages := updWhere P (\<lambda>m. m\<lparr>am_read_at := Some t\<rparr>) (agent_messages s)\<rparr>)"
  unfolding handedOut_def mail_inv_def by (auto simp: map_updWhere row_simps)

lemma handedOut_send: "handedOut is s \<Longrightarrow> handedOut is (snd (SendAgentMessage e f t c s))"
  unfolding SendAgentMessage_def
  by (intro mb.wrapS_keeps mb.execS_keeps) (auto simp: handedOut_def mail_inv_def sorted_wrt_append less_Suc_eq_le)

lemma handedOut_read: "handedOut is s \<Longrightarrow> handedOut is (snd (ReadAgentMessages e a n s))"
  unfolding ReadAgentMessages_def Let_def by (intro mb.frame_intros handedOut_mark) auto

lemma handedOut_delete: "handedOut is s \<Longrightarrow> handedOut is (snd (DeleteAgent e a s))"
  unfolding DeleteAgent_def by (intro mb.frame_intros handedOut_delWhere) (auto simp: handedOut_def mail_inv_def)

lemma handedOut_other:
  "handedOut is s \<Longrightarrow> handedOut is (snd (CreateAgent e rec s))"
  "handedOut is s \<Longrightarrow> handedOut is (snd (UpdateAgentStatus e a st s))"
  "handedOut is s \<Longrightarrow> handedOut is (snd (CreateDelegation i d s))"
  "handedOut is s \<Longrightarrow> handedOut is (snd (CompleteDelegation e i r s))"
  "handedOut is s \<Longrightarrow> handedOut is (snd (FailDelegation e i r s))"
  "handedOut is s \<Longrightarrow> handedOut is (snd (MarkDelegationInjected i s))"
  unfolding CreateAgent_def UpdateAgentStatus_def CreateDelegation_def Let_def CompleteDelegation_def FailDelegation_def MarkDelegationInjected_def
  by (intro mb.frame_intros mb.execCheckCount_keeps; auto simp: handedOut_def mail_inv_def updDelegation_def)+

lemma agent_steps_handedOut: "agent_store_step\<^sup>*\<^sup>* s t \<Longrightarrow> handedOut is s \<Longrightarrow> handedOut is t"
proof (induction rule: rtranclp_induct)
  case (step t u)
  from step.hyps(2) step.IH [OF step.prems] show ?case
    by (induction rule: agent_store_step.induct)
      (auto intro: mb.plan_store_step_frame handedOut_other handedOut_delete handedOut_read handedOut_send)
qed simp

lemma updWhere_False [simp]: "updWhere (\<lambda>_. False) f xs = xs"
  by (simp add: updWhere_def)

lemma filter_notin_take:
  assumes "distinct (map k xs)"
  shows "filter (\<lambda>x. k x \<notin> k ` set (take n xs)) xs = drop n xs"
proof -
  let ?P = "\<lambda>x. k x \<notin> k ` set (take n xs)"
  have "distinct (map k (take n xs @ drop n xs))" using assms by (simp only: append_take_drop_id)
  then have "\<forall>x\<in>set (drop n xs). ?P x" unfolding map_append distinct_append by auto
  then have "filter ?P (take n xs @ drop n xs) = drop n xs" unfolding filter_append by simp
  then show ?thesis by (simp only: append_take_drop_id)
qed

lemma filter_unread_mark:
  "filter (unread a) (updWhere (\<lambda>m. am_id m \<in> is) (\<lambda>m. m\<lparr>am_read_at := Some t\<rparr>) xs) =
   filter (\<lambda>m. am_id m \<notin> is) (filter (unread a) xs)"
  by (induction xs) (auto simp: updWhere_def unread_def)

lemma ReadAgentMessages_InrE:
  assumes "ReadAgentMessages e a n s = (Inr msgs, s')"
  obtains "msgs = nextMessages a (nat (if n \<le> 0 then 10 else n)) s"
    and "agent_messages s' = updWhere (\<lambda>m. am_id m \<in> set (map am_id msgs))
      (\<lambda>m. m\<lparr>am_read_at := Some (CURRENT_TIMESTAMP e)\<rparr>) (agent_messages s)"
    and "am_seq s' = am_seq s" and "tasks s' = tasks s"
proof -
  let ?n = "nat (if n \<le> 0 then 10 else n)"
  from assms show thesis unfolding ReadAgentMessages_def Let_def
  proof (cases rule: with_tx_InrE)
    case (committed s1 s2)
    from committed(1) obtain gs where s1: "s1 = s\<lparr>faults := gs\<rparr>" by (rule same_tables_elim)
    from committed(3) obtain ks where s': "s' = s2\<lparr>faults := ks\<rparr>" by (rule same_tables_elim)
    from committed(2) have m: "msgs = nextMessages a ?n s"
      by (auto simp: bindS_Inr s1 nextMessages_def elim!: stmt_elims split: if_splits)
    have e: "updWhere (\<lambda>m. am_id m \<in> set (map am_id msgs)) f xs = xs" if "msgs = []" for f xs
      using that by (intro updWhere_none) simp
    from committed(2) have "agent_messages s2 = updWhere (\<lambda>m. am_id m \<in> set (map am_id msgs))
      (\<lambda>m. m\<lparr>am_read_at := Some (CURRENT_TIMESTAMP e)\<rparr>) (agent_messages s) \<and> am_seq s2 = am_seq s \<and> tasks s2 = tasks s"
      by (cases "msgs = []") (auto simp: bindS_Inr s1 e elim!: stmt_elims)
    with m s' show ?thesis using that by simp
  qed (auto simp: bindS_Inr split: if_splits)
qed

lemma set_nextMessages: "set (nextMessages a n s) \<subseteq> {m \<in> set (agent_messages s). unread a m}"
  unfolding nextMessages_def using set_take_subset by fastforce

lemma Read_handedOut:
  assumes "handedOut is s" and "ReadAgentMessages e a n s = (Inr msgs, s')"
  shows "handedOut (is \<union> am_id ` set msgs) s'"
  using assms(2)
proof (rule ReadAgentMessages_InrE)
  assume m: "msgs = nextMessages a (nat (if n \<le> 0 then 10 else n)) s"
    and u: "agent_messages s' = updWhere (\<lambda>m. am_id m \<in> set (map am_id msgs))
      (\<lambda>m. m\<lparr>am_read_at := Some (CURRENT_TIMESTAMP e)\<rparr>) (agent_messages s)" and q: "am_seq s' = am_seq s"
  have "\<forall>i\<in>am_id ` set msgs. i \<le> am_seq s" using set_nextMessages m assms(1) by (fastforce simp: handedOut_def mail_inv_def)
  then show ?thesis using assms(1) unfolding handedOut_def mail_inv_def u q by (auto simp: map_updWhere row_simps)
qed

lemma handedOut_fresh:
  assumes "handedOut is s" and "ReadAgentMessages e a n s = (Inr msgs, s')"
  shows "is \<inter> am_id ` set msgs = {}"
  using assms(2)
proof (rule ReadAgentMessages_InrE)
  assume m: "msgs = nextMessages a (nat (if n \<le> 0 then 10 else n)) s"
  then show ?thesis using set_nextMessages assms(1) by (fastforce simp: handedOut_def unread_def)
qed

text \<open>A message between agents is delivered at most once: what two successful reads return, with any
  operations of the store in between and whichever agents read, has no message in common.\<close>

theorem message_at_most_once:
  assumes "mail_inv s" and "ReadAgentMessages e a n s = (Inr msgs, s1)" and "agent_store_step\<^sup>*\<^sup>* s1 s2"
    and "ReadAgentMessages e' a' n' s2 = (Inr msgs', s3)"
  shows "am_id ` set msgs \<inter> am_id ` set msgs' = {}"
proof -
  have "handedOut (am_id ` set msgs) s1" using Read_handedOut [of "{}" s e a n msgs s1] assms(1,2) by (simp add: mail_inv_handedOut)
  with assms(3) have "handedOut (am_id ` set msgs) s2" by (rule agent_steps_handedOut)
  then show ?thesis using assms(4) by (rule handedOut_fresh)
qed

text \<open>A successful read returns unread messages of the agent only, in the order they were sent as far as
  the clock did not go back, the oldest ones, up to the limit (ten when none is given); afterwards exactly
  the remaining ones are unread for the agent.\<close>

lemma read_takes_oldest:
  assumes "mail_inv s" and "sorted (map am_created_at (agent_messages s))"
    and "ReadAgentMessages e a n s = (Inr msgs, s1)"
  shows "msgs @ filter (unread a) (agent_messages s1) = filter (unread a) (agent_messages s) \<and>
    length msgs = min (nat (if n \<le> 0 then 10 else n)) (countWhere (unread a) (agent_messages s))"
  using assms(3)
proof (rule ReadAgentMessages_InrE)
  let ?n = "nat (if n \<le> 0 then 10 else n)" and ?un = "filter (unread a) (agent_messages s)"
  assume m: "msgs = nextMessages a ?n s"
    and u: "agent_messages s1 = updWhere (\<lambda>m. am_id m \<in> set (map am_id msgs))
      (\<lambda>m. m\<lparr>am_read_at := Some (CURRENT_TIMESTAMP e)\<rparr>) (agent_messages s)"
  have "sorted (map am_created_at ?un)" using assms(2) by (rule sorted_filter)
  then have take: "msgs = take ?n ?un" unfolding m nextMessages_def by (simp add: sorted_sort_id sort_key_id_if_sorted)
  have dis: "distinct (map am_id (agent_messages s))" using assms(1) unfolding mail_inv_def by (simp add: strict_sorted_iff)
  have "filter (unread a) (agent_messages s1) = filter (\<lambda>m. am_id m \<notin> am_id ` set (take ?n ?un)) ?un"
    unfolding u filter_unread_mark by (simp add: take)
  also have "\<dots> = drop ?n ?un" using dis by (intro filter_notin_take distinct_map_filter)
  finally show ?thesis using take by (simp add: countWhere_def min_def)
qed

section \<open>The mailboxes\<close>

text \<open>
  The contract of the messages between agents: one queue of letters (sender and text) per agent. \<open>inbox\<close>
  reads it off the table; \<open>boxOp\<close> is what sending and reading mean on it.
\<close>

type_synonym box = "string \<Rightarrow> (string \<times> string) list"

definition letterOf :: "agent_message_row \<Rightarrow> string \<times> string" where
  "letterOf m = (am_from m, am_content m)"

definition inbox :: "'x agent_store_scheme \<Rightarrow> box" where
  "inbox s a = map letterOf (filter (unread a) (agent_messages s))"

datatype mailOp = MSend string string string | MRead string int

fun boxOp :: "mailOp \<Rightarrow> box \<Rightarrow> (string \<times> string) list \<times> box" where
  "boxOp (MSend f to c) b = ([], b(to := b to @ [(f, c)]))"
| "boxOp (MRead a n) b = (let k = nat (if n \<le> 0 then 10 else n) in (take k (b a), b(a := drop k (b a))))"

fun storeOp :: "env \<Rightarrow> mailOp \<Rightarrow> 'x agent_store_scheme \<Rightarrow> (err + (string \<times> string) list) \<times> 'x agent_store_scheme" where
  "storeOp e (MSend f to c) s = bindS (SendAgentMessage e f to c) (\<lambda>_. retS []) s"
| "storeOp e (MRead a n) s = bindS (ReadAgentMessages e a n) (\<lambda>msgs. retS (map letterOf msgs)) s"

fun runBox :: "mailOp list \<Rightarrow> box \<Rightarrow> (string \<times> string) list list \<times> box" where
  "runBox [] b = ([], b)"
| "runBox (x # xs) b = (let (out, b1) = boxOp x b; (outs, b2) = runBox xs b1 in (out # outs, b2))"

fun runStore :: "(env \<times> mailOp) list \<Rightarrow> 'x agent_store_scheme \<Rightarrow> (err + (string \<times> string) list) list \<times> 'x agent_store_scheme" where
  "runStore [] s = ([], s)"
| "runStore ((e, x) # xs) s = (let (out, s1) = storeOp e x s; (outs, s2) = runStore xs s1 in (out # outs, s2))"

definition mail_ok :: "ts list \<Rightarrow> 'x agent_store_scheme \<Rightarrow> bool" where
  "mail_ok later s \<longleftrightarrow> faults s = [] \<and> mail_inv s \<and> sorted (map am_created_at (agent_messages s) @ later)"

lemma Send_run: "faults s = [] \<Longrightarrow> SendAgentMessage e f to c s = (Inr (), s\<lparr>am_seq := Suc (am_seq s),
   agent_messages := agent_messages s @ [\<lparr>am_id = Suc (am_seq s), am_from = f, am_to = to, am_content = c,
       am_read_at = None, am_created_at = CURRENT_TIMESTAMP e\<rparr>]\<rparr>)"
  by (simp add: SendAgentMessage_def wrapS_def execS_def stmt_def)

lemma Read_run:
  assumes "faults s = []"
  obtains s1 where "ReadAgentMessages e a n s = (Inr (nextMessages a (nat (if n \<le> 0 then 10 else n)) s), s1)" and "faults s1 = []"
proof -
  let ?msgs = "nextMessages a (nat (if n \<le> 0 then 10 else n)) s"
  have "\<exists>s1. ReadAgentMessages e a n s = (Inr ?msgs, s1) \<and> faults s1 = []"
    using assms by (cases "?msgs = []") (simp_all add: ReadAgentMessages_def with_tx_def bindS_def wrapS_def queryS_def execS_def stmt_def retS_def Let_def
      del: split_paired_Ex)
  then show thesis using that by blast
qed

lemma Read_other:
  assumes "mail_inv s" and "ReadAgentMessages e a n s = (Inr msgs, s1)" and "b \<noteq> a"
  shows "filter (unread b) (agent_messages s1) = filter (unread b) (agent_messages s)"
  using assms(2)
proof (rule ReadAgentMessages_InrE)
  let ?n = "nat (if n \<le> 0 then 10 else n)"
  assume m: "msgs = nextMessages a ?n s"
    and u: "agent_messages s1 = updWhere (\<lambda>m. am_id m \<in> set (map am_id msgs))
      (\<lambda>m. m\<lparr>am_read_at := Some (CURRENT_TIMESTAMP e)\<rparr>) (agent_messages s)"
  have dis: "distinct (map am_id (agent_messages s))" using assms(1) unfolding mail_inv_def by (simp add: strict_sorted_iff)
  have "am_id x \<notin> set (map am_id msgs)" if "x \<in> set (agent_messages s)" "unread b x" for x
  proof
    assume "am_id x \<in> set (map am_id msgs)"
    then obtain y where y: "y \<in> set msgs" "am_id y = am_id x" by auto
    with m set_nextMessages [of a ?n s] have "y \<in> set (agent_messages s)" "am_to y = a" by (auto simp: unread_def)
    with that y(2) dis have "y = x" by (metis (no_types, lifting) distinct_key_unique)
    with that(2) \<open>am_to y = a\<close> assms(3) show False by (simp add: unread_def)
  qed
  then have "filter (\<lambda>m. am_id m \<notin> set (map am_id msgs)) (filter (unread b) (agent_messages s)) = filter (unread b) (agent_messages s)"
    unfolding filter_filter by (intro filter_cong refl) auto
  then show ?thesis unfolding u filter_unread_mark .
qed

lemma storeOp_refines:
  assumes "mail_ok (CURRENT_TIMESTAMP e # later) s"
  obtains s1 where "storeOp e x s = (Inr (fst (boxOp x (inbox s))), s1)" and "inbox s1 = snd (boxOp x (inbox s))" and "mail_ok later s1"
proof (cases x)
  case (MSend f to c)
  let ?row = "\<lparr>am_id = Suc (am_seq s), am_from = f, am_to = to, am_content = c, am_read_at = None, am_created_at = CURRENT_TIMESTAMP e\<rparr>"
  let ?s = "s\<lparr>am_seq := Suc (am_seq s), agent_messages := agent_messages s @ [?row]\<rparr>"
  have f: "faults s = []" using assms by (simp add: mail_ok_def)
  have "storeOp e x s = (Inr [], ?s)" by (simp add: MSend bindS_def Send_run [OF f] retS_def)
  moreover have "inbox ?s = snd (boxOp x (inbox s))" by (auto simp: MSend inbox_def letterOf_def unread_def fun_eq_iff)
  moreover have "mail_ok later ?s" using assms by (auto simp: mail_ok_def mail_inv_def sorted_wrt_append less_Suc_eq_le)
  ultimately show thesis using that by (simp add: MSend)
next
  case (MRead a n)
  let ?k = "nat (if n \<le> 0 then 10 else n)"
  have f: "faults s = []" and inv: "mail_inv s" and srt: "sorted (map am_created_at (agent_messages s))"
    using assms by (simp_all add: mail_ok_def sorted_wrt_append)
  obtain s1 where r: "ReadAgentMessages e a n s = (Inr (nextMessages a ?k s), s1)" and f1: "faults s1 = []" by (rule Read_run [OF f])
  note old = read_takes_oldest [OF inv srt r]
  have "nextMessages a ?k s = take ?k (filter (unread a) (agent_messages s))"
    unfolding nextMessages_def using srt by (simp add: sorted_filter sort_key_id_if_sorted)
  moreover from this old have "filter (unread a) (agent_messages s1) = drop ?k (filter (unread a) (agent_messages s))"
    by (metis append_take_drop_id same_append_eq)
  ultimately have "storeOp e x s = (Inr (fst (boxOp x (inbox s))), s1)" "inbox s1 = snd (boxOp x (inbox s))"
    using Read_other [OF inv r] by (auto simp: MRead bindS_def r retS_def inbox_def take_map drop_map Let_def fun_eq_iff)
  moreover have "mail_ok later s1"
  proof -
    have "handedOut {} s1" using Read_handedOut [of "{}" s e a n _ s1] inv r handedOut_read [of "{}" s e a n] by (simp add: mail_inv_handedOut)
    moreover have "map am_created_at (agent_messages s1) = map am_created_at (agent_messages s)"
      using r by (rule ReadAgentMessages_InrE) (simp add: map_updWhere)
    ultimately show ?thesis using f1 assms by (simp add: mail_ok_def mail_inv_handedOut sorted_wrt_append)
  qed
  ultimately show thesis using that by blast
qed


text \<open>Deleting an agent cancels its queued and claimed tasks without a trace: the audit log gets no event
  for the change, so the history of such a task no longer ends in its status and the invariant that the
  queue's own operations keep is broken.\<close>

theorem delete_agent_breaks_audit:
  assumes "DeleteAgent e a s = (Inr (), t)" and "store_inv s" and "r \<in> set (tasks s)" and "orphanedTask a r" and "trail (t_id r) s \<noteq> []"
  shows "task_events t = task_events s \<and> \<not> store_inv t \<and>
    (\<exists>q\<in>set (tasks t). t_id q = t_id r \<and> t_status q = TaskStatusCanceled)"
proof -
  from assms(1) have t: "task_events t = task_events s" "tasks t = updWhere (orphanedTask a) (cancelOrphan e) (tasks s)"
    unfolding DeleteAgent_def
    by (cases rule: with_tx_InrE; auto simp: bindS_Inr updTasks_def elim!: same_tables_elim stmt_elims split: if_splits)+
  have q: "cancelOrphan e r \<in> set (tasks t)" using assms(3,4) by (auto simp: t row_simps)
  have ids: "t_id (cancelOrphan e r) = t_id r" "t_status (cancelOrphan e r) = TaskStatusCanceled" by (simp_all add: cancelOrphan_def)
  have "\<not> store_inv t"
  proof
    assume "store_inv t"
    then have "trail_ok TaskStatusCanceled (trail (t_id r) t)" using q ids by (force simp: store_inv_def)
    moreover have "trail_ok (t_status r) (trail (t_id r) t)"
      using assms(2,3) by (auto simp: store_inv_def trail_def t)
    ultimately show False using assms(4,5) by (auto simp: trail_ok_def orphanedTask_def trail_def t)
  qed
  with t q ids show ?thesis by auto
qed

section \<open>A small run\<close>

definition exAgent :: AgentRecord where
  "exAgent = \<lparr>AgentRecID = ''default'', DisplayName = '''', Provider = ''google'', Model = '''', Soul = '''', WorkerCount = 4,
     TaskTimeoutSeconds = 600, MaxQueueDepth = 0, SkillsFilter = '''', PolicyOverrides = '''', APIKeyEnv = '''', AgentEmoji = '''',
     PreferredSearch = '''', AgentStatus = ''active'', AgentCreatedAt = CurTs 0, AgentUpdatedAt = CurTs 0\<rparr>"

definition exAgentStore :: "store \<Rightarrow> agent_store" where
  "exAgentStore s = plan_store.extend (store.extend s (plan_store.fields [] [])) (agent_store.fields [exAgent] [] 0 [])"

definition exMail :: agent_store where
  "exMail = snd (SendAgentMessage (exEnv 101) ''default'' ''b'' ''two'' (snd (SendAgentMessage (exEnv 100) ''default'' ''b'' ''one'' (exAgentStore exQueued))))"

lemmas agent_eval = exAgentStore_def store.defs plan_store.defs agent_store.defs exTables_def emptyStore_def

lemma exMail_eq: "agent_messages exMail =
    [\<lparr>am_id = 1, am_from = ''default'', am_to = ''b'', am_content = ''one'', am_read_at = None, am_created_at = CurTs 100\<rparr>,
     \<lparr>am_id = 2, am_from = ''default'', am_to = ''b'', am_content = ''two'', am_read_at = None, am_created_at = CurTs 101\<rparr>]"
  "am_seq exMail = 2" "faults exMail = []"
  by (simp_all add: exMail_def SendAgentMessage_def exQueued_eq agent_eval tx_eval store_eval)

lemma exMail_inv: "mail_inv exMail" "sorted (map am_created_at (agent_messages exMail))"
  by (simp_all add: mail_inv_def exMail_eq)

lemma ReadAgentMessages_run: "faults s = [] \<Longrightarrow> \<exists>s'. ReadAgentMessages e a n s = (Inr (nextMessages a (nat (if n \<le> 0 then 10 else n)) s), s')"
  by (simp add: ReadAgentMessages_def tx_eval)


theorem message_at_most_once_witness:
  "\<exists>msgs msgs' s1 s2. ReadAgentMessages (exEnv 102) ''b'' 1 exMail = (Inr msgs, s1) \<and> ReadAgentMessages (exEnv 103) ''b'' 5 (s1\<lparr>faults := []\<rparr>) = (Inr msgs', s2) \<and>
     am_id ` set msgs \<inter> am_id ` set msgs' = {}"
proof -
  from ReadAgentMessages_run [OF exMail_eq(3), of "exEnv 102" "''b''" 1] obtain msgs s1
    where r: "ReadAgentMessages (exEnv 102) ''b'' 1 exMail = (Inr msgs, s1)" by blast
  obtain msgs' s2 where r': "ReadAgentMessages (exEnv 103) ''b'' 5 (s1\<lparr>faults := []\<rparr>) = (Inr msgs', s2)"
    using ReadAgentMessages_run [of "s1\<lparr>faults := []\<rparr>" "exEnv 103" "''b''" 5] by auto
  have "agent_store_step\<^sup>*\<^sup>* s1 (s1\<lparr>faults := []\<rparr>)"
    by (intro r_into_rtranclp plan_operation task_operation environment)
  from message_at_most_once [OF exMail_inv(1) r this r'] r r' show ?thesis by blast
qed

lemma exAgents_delete: "\<exists>t. DeleteAgent (exEnv 103) ''default'' (exAgentStore exQueued) = (Inr (), t)"
  by (simp add: DeleteAgent_def exQueued_eq agent_eval tx_eval agentCount_def countWhere_def exAgent_def updTasks_def)

lemma exAgents_inv: "store_inv (exAgentStore exQueued)" "exRow \<in> set (tasks (exAgentStore exQueued))" "orphanedTask ''default'' exRow"
  "trail (t_id exRow) (exAgentStore exQueued) \<noteq> []"
proof -
  show "store_inv (exAgentStore exQueued)" using ex_inv(4)
    by (simp add: exAgentStore_def store.defs plan_store.defs agent_store.defs store_inv_def events_ok_def trail_def hasTask_def hasSession_def)
qed (simp_all add: exQueued_eq agent_eval orphanedTask_def exRow_def trail_def exEvent_def)

theorem delete_agent_breaks_audit_witness:
  "\<exists>t. DeleteAgent (exEnv 103) ''default'' (exAgentStore exQueued) = (Inr (), t) \<and> \<not> store_inv t"
  using exAgents_delete delete_agent_breaks_audit [OF _ exAgents_inv] by blast
end
