(* ===== verification/Side_Store.thy ===== *)
theory Side_Store
  imports Agent_Store
begin

text \<open>
  The remaining tables of \<open>initSchema\<close> (\<open>internal/persistence/store.go\<close>): schedules, redaction
  records, the audit log, memories, pins and shares of agents, checkpoints of loops, the registry of
  skills, team plans and experiments. Their rows are declared here; the operations are in the
  theories of the components that own them. A column with \<open>datetime('now')\<close> holds the same text as
  one with \<open>CURRENT_TIMESTAMP\<close>. Relevance scores are exact rationals.
\<close>

section \<open>Rows\<close>

record Schedule =
  SchID :: string
  SchName :: string
  SchCronExpr :: string
  SchPayload :: string
  SchSessionID :: string
  SchEnabled :: bool
  SchNextRunAt :: "ts option"
  SchLastRunAt :: "ts option"
  SchCreatedAt :: ts
  SchUpdatedAt :: ts

record DataRedaction =
  RedID :: nat
  RedEntityType :: string
  RedEntityID :: string
  RedFieldName :: string
  RedReason :: string
  RedPolicyVersion :: string
  RedBy :: string
  RedCreatedAt :: ts

record AuditEntry =
  AudID :: nat
  AudTraceID :: string
  AudSubject :: string
  AudAction :: string
  AudDecision :: string
  AudReason :: string
  AudPolicyVersion :: string
  AudCreatedAt :: ts

record AgentMemory =
  MemID :: nat
  MemAgentID :: string
  MemKey :: string
  MemValue :: string
  MemSource :: string
  RelevanceScore :: rat
  AccessCount :: int
  MemCreatedAt :: ts
  MemUpdatedAt :: ts
  LastAccessed :: ts

record AgentPin =
  PinID :: nat
  PinAgentID :: string
  PinType :: string
  PinSource :: string
  PinContent :: string
  TokenCount :: int
  PinShared :: bool
  LastRead :: ts
  FileMtime :: string
  PinCreatedAt :: ts

record AgentShare =
  ShareID :: nat
  SourceAgentID :: string
  TargetAgentID :: string
  ShareType :: string
  ItemKey :: string
  ShareCreatedAt :: ts

text \<open>\<open>MaxDuration\<close> is in nanoseconds; \<open>StartedAt\<close> is a \<open>time.Time\<close>, in nanoseconds since the epoch.\<close>

record LoopCheckpoint =
  LoopID :: string
  LoopTaskID :: string
  LoopAgentID :: string
  CurrentStep :: int
  MaxSteps :: int
  TokensUsed :: int
  MaxTokens :: int
  StartedAt :: nat
  MaxDuration :: int
  LoopStatus :: string
  LoopMessages :: string

record loop_row =
  lr_checkpoint :: LoopCheckpoint
  lr_created_at :: ts
  lr_updated_at :: ts

record skill_row =
  sk_id :: string
  sk_version :: string
  sk_abi_version :: string
  sk_content_hash :: string
  sk_state :: string
  sk_source :: string
  sk_source_url :: string
  sk_ref :: string
  sk_installed_at :: "ts option"
  sk_last_fault_at :: "ts option"
  sk_fault_count :: int
  sk_created_at :: ts
  sk_updated_at :: ts

record TeamPlan =
  TPlanID :: string
  TPlanName :: string
  TPlanDescription :: string
  ExecutionStrategy :: string
  TPlanMaxRetries :: int
  TPlanSessionID :: string
  TPlanCreatedAt :: ts
  TPlanUpdatedAt :: ts

record TeamPlanStep =
  TStepID :: string
  TStepPlanID :: string
  TStepIndex :: int
  TStepAgentID :: string
  TStepPrompt :: string
  TStepStatus :: string
  TStepCreatedAt :: ts
  TStepUpdatedAt :: ts

record Experiment =
  ExpID :: string
  ExpName :: string
  ExpDescription :: string
  ExpStatus :: string
  ExpHypothesis :: string
  ControlAgent :: string
  TreatmentAgent :: string
  ExpSessionID :: string
  ExpCreatedAt :: ts
  ExpCompletedAt :: "ts option"
  ExpUpdatedAt :: ts

record ExperimentSample =
  SampleID :: string
  SampleExperimentID :: string
  Variant :: string
  SampleTaskID :: string
  SampleSuccess :: int
  SampleDurationMs :: int
  SampleCostUSD :: usd
  SampleCreatedAt :: ts

section \<open>The store\<close>

record side_store = agent_store +
  schedules :: "Schedule list"
  data_redactions :: "DataRedaction list"
  red_seq :: nat
  audit_log :: "AuditEntry list"
  audit_seq :: nat
  denyCount :: nat
  agent_memories :: "AgentMemory list"
  mem_seq :: nat
  agent_pins :: "AgentPin list"
  pin_seq :: nat
  agent_shares :: "AgentShare list"
  share_seq :: nat
  loop_checkpoints :: "loop_row list"
  skill_registry :: "skill_row list"
  team_plans :: "TeamPlan list"
  team_plan_steps :: "TeamPlanStep list"
  experiments :: "Experiment list"
  experiment_samples :: "ExperimentSample list"

definition uniqueError :: "string \<Rightarrow> err" where
  "uniqueError columns = ErrMsg (''UNIQUE constraint failed: '' @ columns)"

text \<open>\<open>INSERT ... ON CONFLICT DO UPDATE\<close>: the rows of the key are updated, or a row is added.\<close>

definition upsertRow :: "('a \<Rightarrow> bool) \<Rightarrow> ('a \<Rightarrow> 'a) \<Rightarrow> 'a \<Rightarrow> 'a list \<Rightarrow> 'a list" where
  "upsertRow P f r rs = (if \<exists>x\<in>set rs. P x then updWhere P f rs else rs @ [r])"

lemma upsertRow_find:
  assumes "P r" and "\<And>x. P x \<Longrightarrow> P (f x)"
  shows "firstWhere P (upsertRow P f r rs) =
    Some (case firstWhere P rs of None \<Rightarrow> r | Some x \<Rightarrow> f x)"
proof (cases "\<exists>x\<in>set rs. P x")
  case True
  have "List.find P (updWhere P f xs) = map_option f (List.find P xs)" for xs
    using assms(2) by (induction xs) (simp_all add: updWhere_def)
  moreover from True obtain y where "List.find P rs = Some y" by (cases "List.find P rs") (auto simp: find_None_iff)
  ultimately show ?thesis using True by (simp add: upsertRow_def firstWhere_def)
next
  case False
  then have "List.find P rs = None" and "List.find P (rs @ [r]) = Some r" using assms(1) by (induction rs) auto
  with False show ?thesis by (simp add: upsertRow_def firstWhere_def)
qed

lemma upsertRow_other:
  assumes "\<And>x. Q x \<Longrightarrow> \<not> P x" and "\<not> Q r" and "\<And>x. P x \<Longrightarrow> \<not> Q (f x)"
  shows "filter Q (upsertRow P f r rs) = filter Q rs"
proof -
  have "filter Q (updWhere P f xs) = filter Q xs" for xs
    using assms(1,3) by (induction xs) (auto simp: updWhere_def)
  then show ?thesis using assms(2) by (simp add: upsertRow_def)
qed

lemma upsertRow_keys:
  assumes "\<And>x. P x \<longleftrightarrow> k x = k r" and "\<And>x. P x \<Longrightarrow> k (f x) = k x" and "distinct (map k rs)"
  shows "distinct (map k (upsertRow P f r rs))"
proof (cases "\<exists>x\<in>set rs. P x")
  case True
  have "map k (updWhere P f rs) = map k rs" by (rule map_updWhere) (rule assms(2))
  with True assms(3) show ?thesis by (simp add: upsertRow_def)
next
  case False
  then have "k r \<notin> k ` set rs" using assms(1) by (metis imageE)
  with False assms(3) show ?thesis by (simp add: upsertRow_def)
qed

definition emptySide :: "agent_store \<Rightarrow> side_store" where
  "emptySide s = agent_store.extend s (side_store.fields [] [] 0 [] 0 0 [] 0 [] 0 [] 0 [] [] [] [] [] [])"

end
