(* ===== verification/Json.thy ===== *)
theory Json
  imports Prelude
begin

text \<open>
  The parts of \<open>encoding/json\<close> the sources use on task payloads: \<open>json.Marshal\<close> of strings (with its
  escaping of HTML characters) and \<open>json.Unmarshal\<close>, as a parser of JSON values followed by the
  decoding of an object into a struct with string and integer fields. Text is a list of bytes; bytes
  above 127 are copied. Object keys match field names without regard to case, a later key overrides
  an earlier one, \<open>null\<close> leaves a field alone, and a value of the wrong type is an error. The parser
  takes the length of the text and two as fuel: a level of nesting costs two units and has an opening
  and a closing byte, a further element costs one and has a comma.
\<close>

section \<open>Encoding\<close>

definition jsonEscape :: "char \<Rightarrow> string" where
  "jsonEscape c = (let n = (of_char c :: nat) in
     if n = 34 then [CHR 0x5C, CHR 0x22]
     else if n = 92 then [CHR 0x5C, CHR 0x5C]
     else if n = 8 then [CHR 0x5C, CHR ''b'']
     else if n = 12 then [CHR 0x5C, CHR ''f'']
     else if n = 10 then [CHR 0x5C, CHR ''n'']
     else if n = 13 then [CHR 0x5C, CHR ''r'']
     else if n = 9 then [CHR 0x5C, CHR ''t'']
     else if n < 32 \<or> n = 60 \<or> n = 62 \<or> n = 38
       then [CHR 0x5C, CHR ''u'', CHR ''0'', CHR ''0'', digitChar (n div 16), digitChar (n mod 16)]
     else [c])"

definition jsonString :: "string \<Rightarrow> string" where
  "jsonString s = CHR 0x22 # concat (map jsonEscape s) @ [CHR 0x22]"

section \<open>Parsing\<close>

datatype jval = JNull | JBool bool | JNum string | JStr string | JArr "jval list" | JObj "(string \<times> jval) list"

fun skipWS :: "string \<Rightarrow> string" where
  "skipWS [] = []"
| "skipWS (c # cs) = (if of_char c \<in> {32, 9, 10, 13 :: nat} then skipWS cs else c # cs)"

text \<open>The bytes of a code point in UTF-8; a lone surrogate becomes U+FFFD.\<close>

definition utf8 :: "nat \<Rightarrow> string" where
  "utf8 n = (if n < 128 then [char_of n]
     else if n < 2048 then [char_of (192 + n div 64), char_of (128 + n mod 64)]
     else if 55296 \<le> n \<and> n < 57344 then [char_of (239::nat), char_of (191::nat), char_of (189::nat)]
     else if n < 65536 then [char_of (224 + n div 4096), char_of (128 + n div 64 mod 64), char_of (128 + n mod 64)]
     else [char_of (240 + n div 262144), char_of (128 + n div 4096 mod 64), char_of (128 + n div 64 mod 64), char_of (128 + n mod 64)])"

definition hex4 :: "string \<Rightarrow> (nat \<times> string) option" where
  "hex4 s = (case s of
      a # b # c # d # rest \<Rightarrow> (case (hexVal a, hexVal b, hexVal c, hexVal d) of
         (Some w, Some x, Some y, Some z) \<Rightarrow> Some (4096 * w + 256 * x + 16 * y + z, rest) | _ \<Rightarrow> None)
    | _ \<Rightarrow> None)"

definition simpleEscape :: "char \<Rightarrow> char option" where
  "simpleEscape c = (let n = (of_char c :: nat) in
     if n = 34 \<or> n = 92 \<or> n = 47 then Some c
     else if n = 98 then Some (char_of (8::nat)) else if n = 102 then Some (char_of (12::nat))
     else if n = 110 then Some (char_of (10::nat)) else if n = 114 then Some (char_of (13::nat))
     else if n = 116 then Some (char_of (9::nat)) else None)"

text \<open>After \<open>\\u\<close>: one code point, from a surrogate pair when there is one.\<close>

definition unicodeEscape :: "string \<Rightarrow> (string \<times> string) option" where
  "unicodeEscape s = (case hex4 s of None \<Rightarrow> None
     | Some (hi, rest) \<Rightarrow>
        (if 55296 \<le> hi \<and> hi < 56320 then
           (case rest of
              c # d # rest' \<Rightarrow>
                (if of_char c = (92::nat) \<and> of_char d = (117::nat) then
                   (case hex4 rest' of
                      Some (lo, rest'') \<Rightarrow>
                        (if 56320 \<le> lo \<and> lo < 57344 then Some (utf8 (65536 + (hi - 55296) * 1024 + (lo - 56320)), rest'')
                         else Some (utf8 hi, rest))
                    | None \<Rightarrow> Some (utf8 hi, rest))
                 else Some (utf8 hi, rest))
            | _ \<Rightarrow> Some (utf8 hi, rest))
         else Some (utf8 hi, rest)))"

text \<open>The body of a string, after the opening quote: its value and the text after the closing quote.\<close>

fun parseStr :: "nat \<Rightarrow> string \<Rightarrow> (string \<times> string) option" where
  "parseStr 0 s = None"
| "parseStr (Suc fuel) [] = None"
| "parseStr (Suc fuel) (c # cs) =
    (if of_char c = (34::nat) then Some ([], cs)
     else if of_char c < (32::nat) then None
     else if of_char c \<noteq> (92::nat) then map_option (\<lambda>(v, rest). (c # v, rest)) (parseStr fuel cs)
     else case cs of [] \<Rightarrow> None
       | d # ds \<Rightarrow>
          (if of_char d = (117::nat) then
             (case unicodeEscape ds of None \<Rightarrow> None
              | Some (v, rest) \<Rightarrow> map_option (\<lambda>(w, rest'). (v @ w, rest')) (parseStr fuel rest))
           else case simpleEscape d of None \<Rightarrow> None
             | Some x \<Rightarrow> map_option (\<lambda>(w, rest'). (x # w, rest')) (parseStr fuel ds)))"

definition isDigit :: "char \<Rightarrow> bool" where
  "isDigit c = (48 \<le> (of_char c :: nat) \<and> (of_char c :: nat) \<le> 57)"

text \<open>A number literal: sign, integer part without leading zeros, fraction, exponent.\<close>

definition numFrac :: "string \<Rightarrow> (string \<times> string) option" where
  "numFrac s = (case s of
      c # cs \<Rightarrow> (if of_char c = (46::nat) then
         (let ds = takeWhile isDigit cs in if ds = [] then None else Some (c # ds, dropWhile isDigit cs)) else Some ([], s))
    | [] \<Rightarrow> Some ([], s))"

definition numExp :: "string \<Rightarrow> (string \<times> string) option" where
  "numExp s = (case s of
      c # cs \<Rightarrow> (if of_char c \<in> {69, 101 :: nat} then
         (let (sg, cs') = (case cs of d # ds \<Rightarrow> if of_char d \<in> {43, 45 :: nat} then ([d], ds) else ([], cs) | [] \<Rightarrow> ([], cs));
              ds = takeWhile isDigit cs'
          in if ds = [] then None else Some (c # sg @ ds, dropWhile isDigit cs')) else Some ([], s))
    | [] \<Rightarrow> Some ([], s))"

definition parseNum :: "string \<Rightarrow> (string \<times> string) option" where
  "parseNum s =
    (let (sg, s1) = (case s of c # cs \<Rightarrow> if of_char c = (45::nat) then ([c], cs) else ([], s) | [] \<Rightarrow> ([], s));
         ds = takeWhile isDigit s1;
         (ip, s2) = (case s1 of c # cs \<Rightarrow> if of_char c = (48::nat) then ([c], cs) else (ds, dropWhile isDigit s1) | [] \<Rightarrow> (ds, s1))
     in if ip = [] then None
        else case numFrac s2 of None \<Rightarrow> None
          | Some (fr, s3) \<Rightarrow> (case numExp s3 of None \<Rightarrow> None | Some (ex, s4) \<Rightarrow> Some (sg @ ip @ fr @ ex, s4)))"

fun parseVal :: "nat \<Rightarrow> string \<Rightarrow> (jval \<times> string) option"
  and parseElems :: "nat \<Rightarrow> string \<Rightarrow> (jval list \<times> string) option"
  and parseMembers :: "nat \<Rightarrow> string \<Rightarrow> ((string \<times> jval) list \<times> string) option" where
  "parseVal 0 s = None"
| "parseVal (Suc n) s =
    (case skipWS s of [] \<Rightarrow> None
     | c # cs \<Rightarrow>
        (if of_char c = (34::nat) then map_option (\<lambda>(v, r). (JStr v, r)) (parseStr (Suc (length cs)) cs)
         else if of_char c = (123::nat) then
           (case skipWS cs of d # ds \<Rightarrow> if of_char d = (125::nat) then Some (JObj [], ds)
                else map_option (\<lambda>(v, r). (JObj v, r)) (parseMembers n cs)
            | [] \<Rightarrow> None)
         else if of_char c = (91::nat) then
           (case skipWS cs of d # ds \<Rightarrow> if of_char d = (93::nat) then Some (JArr [], ds)
                else map_option (\<lambda>(v, r). (JArr v, r)) (parseElems n cs)
            | [] \<Rightarrow> None)
         else if prefix ''null'' (c # cs) then Some (JNull, drop 4 (c # cs))
         else if prefix ''true'' (c # cs) then Some (JBool True, drop 4 (c # cs))
         else if prefix ''false'' (c # cs) then Some (JBool False, drop 5 (c # cs))
         else map_option (\<lambda>(v, r). (JNum v, r)) (parseNum (c # cs))))"
| "parseElems 0 s = None"
| "parseElems (Suc n) s =
    (case parseVal n s of None \<Rightarrow> None
     | Some (v, r) \<Rightarrow>
        (case skipWS r of c # cs \<Rightarrow>
            if of_char c = (44::nat) then map_option (\<lambda>(vs, r'). (v # vs, r')) (parseElems n cs)
            else if of_char c = (93::nat) then Some ([v], cs) else None
         | [] \<Rightarrow> None))"
| "parseMembers 0 s = None"
| "parseMembers (Suc n) s =
    (case skipWS s of c # cs \<Rightarrow>
        (if of_char c \<noteq> (34::nat) then None
         else case parseStr (Suc (length cs)) cs of None \<Rightarrow> None
           | Some (k, r) \<Rightarrow>
             (case skipWS r of d # ds \<Rightarrow>
                (if of_char d \<noteq> (58::nat) then None
                 else case parseVal n ds of None \<Rightarrow> None
                   | Some (v, r') \<Rightarrow>
                     (case skipWS r' of f # fs \<Rightarrow>
                        if of_char f = (44::nat) then map_option (\<lambda>(ms, r''). ((k, v) # ms, r'')) (parseMembers n fs)
                        else if of_char f = (125::nat) then Some ([(k, v)], fs) else None
                      | [] \<Rightarrow> None))
              | [] \<Rightarrow> None))
     | [] \<Rightarrow> None)"

definition parseJson :: "string \<Rightarrow> jval option" where
  "parseJson s = (case parseVal (Suc (Suc (length s))) s of
     Some (v, rest) \<Rightarrow> if skipWS rest = [] then Some v else None | None \<Rightarrow> None)"

section \<open>Decoding into a struct\<close>

text \<open>The decimal value of an integer literal; a fraction or an exponent is no integer.\<close>

fun natValue :: "nat \<Rightarrow> string \<Rightarrow> nat option" where
  "natValue acc [] = Some acc"
| "natValue acc (c # cs) = (if isDigit c then natValue (10 * acc + (of_char c - 48)) cs else None)"

definition intValue :: "string \<Rightarrow> int option" where
  "intValue s = (case (case s of c # cs \<Rightarrow> if of_char c = (45::nat) then map_option (\<lambda>n. - int n) (natValue 0 cs)
       else map_option int (natValue 0 s) | [] \<Rightarrow> None) of
     Some i \<Rightarrow> if - (2^63) \<le> i \<and> i < 2^63 then Some i else None | None \<Rightarrow> None)"

definition sameField :: "string \<Rightarrow> string \<Rightarrow> bool" where
  "sameField a b = (toLower a = toLower b)"

fun strField :: "string \<Rightarrow> (string \<times> jval) list \<Rightarrow> string \<Rightarrow> string option" where
  "strField f [] v = Some v"
| "strField f ((k, x) # ms) v =
    (if sameField f k then (case x of JStr s \<Rightarrow> strField f ms s | JNull \<Rightarrow> strField f ms v | _ \<Rightarrow> None) else strField f ms v)"

fun intField :: "string \<Rightarrow> (string \<times> jval) list \<Rightarrow> int \<Rightarrow> int option" where
  "intField f [] v = Some v"
| "intField f ((k, x) # ms) v =
    (if sameField f k then (case x of JNum s \<Rightarrow> (case intValue s of Some i \<Rightarrow> intField f ms i | None \<Rightarrow> None)
                            | JNull \<Rightarrow> intField f ms v | _ \<Rightarrow> None)
     else intField f ms v)"

text \<open>The members of a decoded object; \<open>null\<close> decodes into an unchanged struct.\<close>

definition objectOf :: "string \<Rightarrow> (string \<times> jval) list option" where
  "objectOf s = (case parseJson s of Some (JObj ms) \<Rightarrow> Some ms | Some JNull \<Rightarrow> Some [] | _ \<Rightarrow> None)"


section \<open>Round trip\<close>

lemma digitChar_byte: "d < 16 \<Longrightarrow> (of_char (digitChar d) :: nat) = (if d < 10 then 48 + d else 87 + d)"
  by (simp add: digitChar_def of_char_of take_bit_eq_mod)

lemma hexVal_digitChar: "d < 16 \<Longrightarrow> hexVal (digitChar d) = Some d"
  by (auto simp: hexVal_def digitChar_byte Let_def)

lemma hexVal_zero: "hexVal CHR ''0'' = Some 0"
  by (simp add: hexVal_def)

lemma hex4_escape: "n < 256 \<Longrightarrow> hex4 (CHR ''0'' # CHR ''0'' # digitChar (n div 16) # digitChar (n mod 16) # rest) = Some (n, rest)"
  by (simp add: hex4_def hexVal_digitChar hexVal_zero)

lemma unicodeEscape_byte:
  "(of_char c :: nat) < 128 \<Longrightarrow>
   unicodeEscape (CHR ''0'' # CHR ''0'' # digitChar (of_char c div 16) # digitChar (of_char c mod 16) # rest) = Some ([c], rest)"
  by (simp add: unicodeEscape_def hex4_escape utf8_def)

lemma char_eqI: "(of_char c :: nat) = n \<Longrightarrow> c = char_of n"
  by (metis char_of_char)

lemma parseStr_escape:
  "parseStr (Suc fuel) (jsonEscape c @ rest) = map_option (\<lambda>(v, r). (c # v, r)) (parseStr fuel rest)"
proof -
  let ?n = "of_char c :: nat"
  consider "?n \<in> {34, 92, 8, 12, 10, 13, 9}" | "?n \<notin> {34, 92, 8, 12, 10, 13, 9}" "?n < 32 \<or> ?n = 60 \<or> ?n = 62 \<or> ?n = 38"
    | "?n \<notin> {34, 92, 8, 12, 10, 13, 9}" "\<not> (?n < 32 \<or> ?n = 60 \<or> ?n = 62 \<or> ?n = 38)" by blast
  then show ?thesis
  proof cases
    case 1
    then have "c \<in> {CHR 0x22, CHR 0x5C, char_of (8::nat), char_of (12::nat), char_of (10::nat), char_of (13::nat), char_of (9::nat)}"
      by (auto dest!: char_eqI simp: char_of_def bit_Suc_0_iff)
    then show ?thesis
      by (elim insertE emptyE) (simp_all add: jsonEscape_def simpleEscape_def)
  next
    case 2
    then have "jsonEscape c = [CHR 0x5C, CHR ''u'', CHR ''0'', CHR ''0'', digitChar (?n div 16), digitChar (?n mod 16)]"
      by (simp add: jsonEscape_def Let_def)
    moreover have "unicodeEscape (CHR ''0'' # CHR ''0'' # digitChar (?n div 16) # digitChar (?n mod 16) # rest) = Some ([c], rest)"
      using 2 by (intro unicodeEscape_byte) auto
    ultimately show ?thesis by simp
  next
    case 3
    then have "jsonEscape c = [c]" by (simp add: jsonEscape_def Let_def)
    with 3 show ?thesis by simp
  qed
qed

lemma parseStr_encoded:
  "length s < fuel \<Longrightarrow> parseStr fuel (concat (map jsonEscape s) @ CHR 0x22 # rest) = Some (s, rest)"
proof (induction s arbitrary: fuel)
  case Nil
  then show ?case by (cases fuel) auto
next
  case (Cons c cs)
  then obtain k where "fuel = Suc k" "length cs < k" by (cases fuel) auto
  with Cons.IH [of k] show ?case by (simp add: parseStr_escape)
qed

lemma length_jsonEscape: "length s \<le> length (concat (map jsonEscape s))"
proof (induction s)
  case (Cons c cs)
  have "1 \<le> length (jsonEscape c)" by (simp add: jsonEscape_def Let_def)
  with Cons show ?case by simp
qed simp

lemma parseStr_jsonString:
  "parseStr (Suc (length (concat (map jsonEscape s) @ CHR 0x22 # rest))) (concat (map jsonEscape s) @ CHR 0x22 # rest) = Some (s, rest)"
  by (rule parseStr_encoded) (use length_jsonEscape [of s] in simp)


end
