(* ===== verification/Chat_Payload.thy ===== *)
theory Chat_Payload
  imports Json
begin

text \<open>
  The payloads of chat tasks (\<open>chatTaskPayload\<close> and \<open>chatResultPayload\<close> of
  \<open>internal/engine/engine.go\<close>) and the token estimate of \<open>internal/tokenutil/tokenutil.go\<close>.
\<close>

section \<open>Token estimate\<close>

text \<open>
  The length of the white-space rune a text starts with, 0 when it starts with another byte: the ASCII
  spaces, U+0085, U+00A0, U+1680, U+2000 to U+200A, U+2028, U+2029, U+202F, U+205F and U+3000, as
  \<open>unicode.IsSpace\<close> has them, in UTF-8. Each starts with a byte that continues no other rune.
\<close>

definition spaceRune :: "string \<Rightarrow> nat" where
  "spaceRune s = (case map of_char s :: nat list of
      a # rest \<Rightarrow>
        (if a \<in> {9, 10, 11, 12, 13, 32} then 1
         else case rest of
           b # rest' \<Rightarrow>
             (if a = 194 \<and> b \<in> {133, 160} then 2
              else case rest' of
                c # _ \<Rightarrow>
                  (if a = 225 \<and> b = 154 \<and> c = 128
                      \<or> a = 226 \<and> b = 128 \<and> (128 \<le> c \<and> c \<le> 138 \<or> c \<in> {168, 169, 175})
                      \<or> a = 226 \<and> b = 129 \<and> c = 159 \<or> a = 227 \<and> b = 128 \<and> c = 128 then 3 else 0)
              | [] \<Rightarrow> 0)
         | [] \<Rightarrow> 0)
    | [] \<Rightarrow> 0)"

text \<open>\<open>len(strings.Fields(s))\<close>: the number of runs of other bytes; \<open>inField\<close> says that one is open.\<close>

function fieldCount :: "bool \<Rightarrow> string \<Rightarrow> nat" where
  "fieldCount inField [] = 0"
| "fieldCount inField (c # cs) =
    (let n = spaceRune (c # cs) in
     if 0 < n then fieldCount False (drop (n - 1) cs)
     else (if inField then 0 else 1) + fieldCount True cs)"
  by pat_completeness auto
termination by (relation "measure (length \<circ> snd)") auto

text \<open>
  \<open>int(float64(words) * 1.33)\<close> is \<open>133 * words div 100\<close>: the double nearest to 1.33 lies above it by less
  than \<open>10 ^ -16\<close>, which reaches no integer that the exact product does not for fewer than \<open>10 ^ 13\<close> words.
\<close>

definition EstimateTokens :: "string \<Rightarrow> nat" where
  "EstimateTokens content =
    (if content = '''' then 0
     else let wordEstimate = 133 * fieldCount False content div 100; charEstimate = length content div 4
       in if charEstimate < wordEstimate then wordEstimate else charEstimate)"

section \<open>Payloads\<close>

record chatTaskPayload =
  PContent :: string
  PMessageDepth :: int

definition encodeChatTask :: "chatTaskPayload \<Rightarrow> string" where
  "encodeChatTask p = ''{\"content\":'' @ jsonString (PContent p) @
     (if PMessageDepth p = 0 then '''' else '',\"message_depth\":'' @ itoa (PMessageDepth p)) @ ''}''"

definition decodeChatTask :: "string \<Rightarrow> chatTaskPayload option" where
  "decodeChatTask s = (case objectOf s of None \<Rightarrow> None
     | Some ms \<Rightarrow>
        (case (strField ''content'' ms '''', intField ''message_depth'' ms 0) of
           (Some c, Some d) \<Rightarrow> Some \<lparr>PContent = c, PMessageDepth = d\<rparr> | _ \<Rightarrow> None))"

definition encodeChatResult :: "string \<Rightarrow> string" where
  "encodeChatResult reply = ''{\"reply\":'' @ jsonString reply @ ''}''"

definition decodeChatResult :: "string \<Rightarrow> string option" where
  "decodeChatResult s = (case objectOf s of None \<Rightarrow> None | Some ms \<Rightarrow> strField ''reply'' ms '''')"

section \<open>Round trip\<close>

lemma isDigit_digitChar: "d < 10 \<Longrightarrow> isDigit (digitChar d)"
  by (simp add: isDigit_def digitChar_byte)

lemma natDigits_isDigit: "list_all isDigit (natDigits 10 n)"
  by (induction "10 :: nat" n rule: natDigits.induct) (subst natDigits.simps, auto simp: isDigit_digitChar)

lemma natValue_append: "natValue acc (xs @ ys) = (case natValue acc xs of None \<Rightarrow> None | Some a \<Rightarrow> natValue a ys)"
  by (induction xs arbitrary: acc) auto

lemma natValue_natDigits: "natValue 0 (natDigits 10 n) = Some n"
proof (induction "10 :: nat" n rule: natDigits.induct)
  case (1 n)
  show ?case
  proof (cases "n < 10")
    case True
    then show ?thesis by (simp add: natDigits.simps [of 10 n] isDigit_digitChar digitChar_byte)
  next
    case False
    then have "natValue 0 (natDigits 10 n) = natValue (n div 10) [digitChar (n mod 10)]"
      using 1 by (subst natDigits.simps) (simp add: natValue_append)
    then show ?thesis by (simp add: isDigit_digitChar digitChar_byte)
  qed
qed

lemma natDigits_head: "0 < n \<Longrightarrow> \<exists>c cs. natDigits 10 n = c # cs \<and> isDigit c \<and> (of_char c :: nat) \<noteq> 48"
proof (induction "10 :: nat" n rule: natDigits.induct)
  case (1 n)
  show ?case
  proof (cases "n < 10")
    case True
    with 1(2) show ?thesis by (simp add: natDigits.simps [of 10 n] isDigit_digitChar digitChar_byte)
  next
    case False
    then have "0 < n div 10" by (simp add: div_greater_zero_iff)
    with 1(1) False obtain c cs where "natDigits 10 (n div 10) = c # cs" "isDigit c" "(of_char c :: nat) \<noteq> 48" by auto
    with False show ?thesis by (subst natDigits.simps) auto
  qed
qed

lemma takeWhile_digits:
  assumes "list_all isDigit ds" and "\<not> isDigit c"
  shows "takeWhile isDigit (ds @ c # cs) = ds" and "dropWhile isDigit (ds @ c # cs) = c # cs"
  using assms by (induction ds) auto

lemma closing_brace: "\<not> isDigit CHR ''}''" "(of_char CHR ''}'' :: nat) = 125"
  by (simp_all add: isDigit_def)

lemma digit_byte: "isDigit c \<Longrightarrow> 48 \<le> (of_char c :: nat) \<and> (of_char c :: nat) \<le> 57"
  by (simp add: isDigit_def)

lemma parseNum_digits:
  assumes "0 < n" shows "parseNum (natDigits 10 n @ CHR ''}'' # r) = Some (natDigits 10 n, CHR ''}'' # r)"
    and "parseNum (CHR ''-'' # natDigits 10 n @ CHR ''}'' # r) = Some (CHR ''-'' # natDigits 10 n, CHR ''}'' # r)"
proof -
  obtain c cs where h: "natDigits 10 n = c # cs" "isDigit c" "(of_char c :: nat) \<noteq> 48" using natDigits_head [OF assms] by blast
  note t = takeWhile_digits [OF natDigits_isDigit [of n] closing_brace(1), of r]
  have "(of_char c :: nat) \<noteq> 45" using digit_byte [OF h(2)] by simp
  with h t show "parseNum (natDigits 10 n @ CHR ''}'' # r) = Some (natDigits 10 n, CHR ''}'' # r)"
    and "parseNum (CHR ''-'' # natDigits 10 n @ CHR ''}'' # r) = Some (CHR ''-'' # natDigits 10 n, CHR ''}'' # r)"
    by (simp_all add: parseNum_def Let_def numFrac_def numExp_def)
qed

lemma parseNum_itoa: "i \<noteq> 0 \<Longrightarrow> parseNum (itoa i @ CHR ''}'' # r) = Some (itoa i, CHR ''}'' # r)"
  using parseNum_digits [of "nat i"] parseNum_digits [of "nat (- i)"] by (auto simp: itoa_def)

lemma intValue_itoa:
  assumes "- (2^63) \<le> i" and "i < 2^63"
  shows "intValue (itoa i) = Some i"
proof (cases "i < 0")
  case True
  with assms show ?thesis by (simp add: intValue_def itoa_def natValue_natDigits)
next
  case False
  obtain c cs where h: "natDigits 10 (nat i) = c # cs" by (cases "natDigits 10 (nat i)") auto
  have "isDigit c" using natDigits_isDigit [of "nat i"] h by simp
  then have "(of_char c :: nat) \<noteq> 45" using digit_byte by fastforce
  with False assms h natValue_natDigits [of "nat i"] show ?thesis by (simp add: intValue_def itoa_def)
qed

lemma itoa_head: "i \<noteq> 0 \<Longrightarrow> \<exists>c cs. itoa i = c # cs \<and> of_char c \<in> {45..57 :: nat}"
  using natDigits_head [of "nat i"] digit_byte by (fastforce simp: itoa_def)

lemma parseVal_string: "parseVal (Suc n) (CHR 0x22 # concat (map jsonEscape s) @ CHR 0x22 # r) = Some (JStr s, r)"
  by (simp add: parseStr_jsonString [simplified])

lemma parseVal_itoa:
  assumes "i \<noteq> 0"
  shows "parseVal (Suc n) (itoa i @ CHR ''}'' # r) = Some (JNum (itoa i), CHR ''}'' # r)"
proof -
  obtain c cs where c: "itoa i = c # cs" "of_char c \<in> {45..57 :: nat}" using itoa_head [OF assms] by blast
  have "c \<noteq> CHR ''n''" "c \<noteq> CHR ''t''" "c \<noteq> CHR ''f''" using c(2) by auto
  with c parseNum_itoa [OF assms, of r] show ?thesis by auto
qed

lemma parseStr_body:
  "length (concat (map jsonEscape s)) < n \<Longrightarrow> parseStr n (concat (map jsonEscape s) @ CHR 0x22 # r) = Some (s, r)"
  using length_jsonEscape [of s] by (intro parseStr_encoded) simp

lemma objectOf_content:
  "objectOf (''{\"content\":'' @ jsonString c @ ''}'') = Some [(''content'', JStr c)]"
  by (simp add: objectOf_def parseJson_def jsonString_def parseStr_body)

lemma members_content:
  "parseMembers (Suc (Suc n)) (''\"content\":'' @ jsonString c @ CHR '','' # rest) =
   map_option (\<lambda>(ms, r). ((''content'', JStr c) # ms, r)) (parseMembers (Suc n) rest)"
  by (simp add: jsonString_def parseStr_body)

lemma members_depth:
  "d \<noteq> 0 \<Longrightarrow> parseMembers (Suc (Suc n)) (''\"message_depth\":'' @ itoa d @ ''}'') = Some ([(''message_depth'', JNum (itoa d))], [])"
  by (simp add: parseVal_itoa del: parseVal.simps)

lemma parseVal_members:
  "parseVal (Suc n) (CHR ''{'' # CHR 0x22 # cs) = map_option (\<lambda>(v, r). (JObj v, r)) (parseMembers n (CHR 0x22 # cs))"
  by (simp del: parseMembers.simps)

lemma objectOf_content_depth:
  assumes "d \<noteq> 0"
  shows "objectOf (''{\"content\":'' @ jsonString c @ '',\"message_depth\":'' @ itoa d @ ''}'') =
    Some [(''content'', JStr c), (''message_depth'', JNum (itoa d))]"
proof -
  let ?d = "''\"message_depth\":'' @ itoa d @ ''}''"
  let ?t = "''\"content\":'' @ jsonString c @ CHR '','' # ?d"
  obtain k where k: "length (CHR ''{'' # ?t) = Suc (Suc (Suc k))" by simp
  have "parseMembers (Suc (Suc (Suc (Suc k)))) ?t = Some ([(''content'', JStr c), (''message_depth'', JNum (itoa d))], [])"
    unfolding members_content members_depth [OF assms] by simp
  then have "parseVal (Suc (Suc (length (CHR ''{'' # ?t)))) (CHR ''{'' # ?t) =
      Some (JObj [(''content'', JStr c), (''message_depth'', JNum (itoa d))], [])"
    unfolding k by (simp add: parseVal_members del: parseMembers.simps parseVal.simps)
  then have "parseJson (CHR ''{'' # ?t) = Some (JObj [(''content'', JStr c), (''message_depth'', JNum (itoa d))])"
    unfolding parseJson_def by simp
  then show ?thesis by (simp add: objectOf_def)
qed

lemma objectOf_reply:
  "objectOf (''{\"reply\":'' @ jsonString c @ ''}'') = Some [(''reply'', JStr c)]"
  by (simp add: objectOf_def parseJson_def jsonString_def parseStr_body)

lemma field_names: "sameField ''content'' ''content''" "\<not> sameField ''content'' ''message_depth''"
  "\<not> sameField ''message_depth'' ''content''" "sameField ''message_depth'' ''message_depth''" "sameField ''reply'' ''reply''"
  by (simp_all add: sameField_def toLower_def lowerByte_def)

lemma decode_encode_task:
  assumes "- (2^63) \<le> PMessageDepth p" and "PMessageDepth p < 2^63"
  shows "decodeChatTask (encodeChatTask p) = Some p"
proof (cases "PMessageDepth p = 0")
  case True
  then have "objectOf (encodeChatTask p) = Some [(''content'', JStr (PContent p))]"
    using objectOf_content [of "PContent p"] by (simp add: encodeChatTask_def)
  with True field_names show ?thesis by (simp add: decodeChatTask_def)
next
  case False
  then have "objectOf (encodeChatTask p) = Some [(''content'', JStr (PContent p)), (''message_depth'', JNum (itoa (PMessageDepth p)))]"
    using objectOf_content_depth [of "PMessageDepth p" "PContent p"] by (simp add: encodeChatTask_def)
  with field_names assms show ?thesis by (simp add: decodeChatTask_def intValue_itoa)
qed

lemma decode_encode_result: "decodeChatResult (encodeChatResult reply) = Some reply"
  using objectOf_reply [of reply] field_names by (simp add: encodeChatResult_def decodeChatResult_def)

text \<open>C19. A chat task's payload survives the queue: decoding what \<open>createChatTask\<close> encodes gives back the
  content, whatever ASCII bytes it has (quotes, backslashes, control characters, HTML), and the message depth.\<close>

theorem chat_payload_roundtrip:
  assumes "\<forall>c\<in>set (PContent p). of_char c < (128 :: nat)" and "- (2^63) \<le> PMessageDepth p" and "PMessageDepth p < 2^63"
  shows "decodeChatTask (encodeChatTask p) = Some p \<and> decodeChatResult (encodeChatResult (PContent p)) = Some (PContent p)"
  using assms decode_encode_task decode_encode_result by blast

theorem chat_payload_roundtrip_witness:
  "decodeChatTask (encodeChatTask \<lparr>PContent = ''<b> \"x\" </b>'', PMessageDepth = 3\<rparr>) = Some \<lparr>PContent = ''<b> \"x\" </b>'', PMessageDepth = 3\<rparr>"
  using chat_payload_roundtrip [of "\<lparr>PContent = ''<b> \"x\" </b>'', PMessageDepth = 3\<rparr>"] by simp

end
