(* ===== verification/Plan_Dag.thy ===== *)
theory Plan_Dag
  imports Prelude "HOL-Library.Multiset"
begin

text \<open>
  Plans as graphs of steps (\<open>internal/coordinator/plan.go\<close> and the function \<open>topoSort\<close> of
  \<open>executor.go\<close>). The set \<open>processed\<close> of \<open>topoSort\<close> is the list of its keys without repetition, so
  that its length is the length of the Go map. \<open>topoSort\<close> is proved correct and complete: it
  returns waves exactly for acyclic plans, every step is in one wave, after all its dependencies and
  as early as possible; \<open>Validate\<close> accepts exactly the well-formed plans.
\<close>

section \<open>Steps and waves\<close>

record PlanStep =
  StepID :: string
  StepAgent :: string
  Prompt :: string
  DependsOn :: "string list"
  MaxRetries :: int
  RequireApproval :: bool
  ApprovalTimeoutMs :: int

record Plan =
  PlanName :: string
  Steps :: "PlanStep list"

definition cycleError :: err where
  "cycleError = ErrMsg ''cycle detected in plan dependencies''"

definition missingError :: "string \<Rightarrow> string \<Rightarrow> err" where
  "missingError sid dep = ErrMsg (''step '' @ sid @ '' depends on nonexistent step '' @ dep)"

text \<open>The first dependency, in the order of the loops, that names no step.\<close>

fun unknownDep :: "string list \<Rightarrow> PlanStep list \<Rightarrow> (string \<times> string) option" where
  "unknownDep known [] = None"
| "unknownDep known (s # ss) =
    (case firstWhere (\<lambda>d. d \<notin> set known) (DependsOn s) of
       Some d \<Rightarrow> Some (StepID s, d)
     | None \<Rightarrow> unknownDep known ss)"

definition ready :: "string list \<Rightarrow> PlanStep \<Rightarrow> bool" where
  "ready processed s = (StepID s \<notin> set processed \<and> list_all (\<lambda>d. d \<in> set processed) (DependsOn s))"

text \<open>\<open>for _, s := range wave { processed[s.ID] = true }\<close>.\<close>

fun mark :: "string list \<Rightarrow> PlanStep list \<Rightarrow> string list" where
  "mark processed [] = processed"
| "mark processed (s # ss) = mark (if StepID s \<in> set processed then processed else processed @ [StepID s]) ss"

lemma length_mark: "length processed \<le> length (mark processed ss)"
proof (induction ss arbitrary: processed)
  case (Cons s ss)
  from Cons [of "processed @ [StepID s]"] Cons [of processed] show ?case by auto
qed simp

lemma length_mark_less:
  assumes "w \<noteq> []" and "\<forall>s\<in>set w. StepID s \<notin> set processed"
  shows "length processed < length (mark processed w)"
  using assms
proof (cases w)
  case (Cons s ss)
  with assms(2) have "StepID s \<notin> set processed" by simp
  with Cons show ?thesis using length_mark [of "processed @ [StepID s]" ss] by simp
qed simp

function topoWaves :: "PlanStep list \<Rightarrow> string list \<Rightarrow> err + PlanStep list list" where
  "topoWaves steps processed =
    (if length processed < length steps then
       (let wave = filter (ready processed) steps in
        if wave = [] then Inl cycleError
        else (case topoWaves steps (mark processed wave) of
                Inl e \<Rightarrow> Inl e
              | Inr waves \<Rightarrow> Inr (wave # waves)))
     else Inr [])"
  by pat_completeness auto
termination
  by (relation "measure (\<lambda>(steps, processed). length steps - length processed)")
    (auto simp: ready_def intro!: diff_less_mono2 length_mark_less)

declare topoWaves.simps [simp del]

definition topoSort :: "PlanStep list \<Rightarrow> err + PlanStep list list" where
  "topoSort steps =
    (case unknownDep (map StepID steps) steps of
       Some (sid, dep) \<Rightarrow> Inl (missingError sid dep)
     | None \<Rightarrow> topoWaves steps [])"

text \<open>The loop of \<open>Validate\<close> over the step ids; \<open>seen\<close> are the ids before.\<close>

fun checkIDs :: "string list \<Rightarrow> PlanStep list \<Rightarrow> err option" where
  "checkIDs seen [] = None"
| "checkIDs seen (s # ss) =
    (if StepID s = '''' then Some (ErrMsg ''step has empty ID'')
     else if StepID s \<in> set seen then Some (ErrMsg (''duplicate step ID: '' @ StepID s))
     else checkIDs (StepID s # seen) ss)"

definition Validate :: "Plan \<Rightarrow> err + unit" where
  "Validate p =
    (if Steps p = [] then Inl (ErrMsg ''plan has no steps'')
     else case checkIDs [] (Steps p) of Some e \<Rightarrow> Inl e
     | None \<Rightarrow> (case unknownDep (map StepID (Steps p)) (Steps p) of
          Some (sid, dep) \<Rightarrow> Inl (missingError sid dep)
        | None \<Rightarrow> (case topoSort (Steps p) of Inl e \<Rightarrow> Inl e | Inr _ \<Rightarrow> Inr ())))"

section \<open>Correctness of the waves\<close>

lemma unknownDep_None: "unknownDep known ss = None \<longleftrightarrow> (\<forall>s\<in>set ss. set (DependsOn s) \<subseteq> set known)"
  by (induction ss) (auto simp: firstWhere_None dest!: firstWhere_Some split: option.splits)

lemma set_mark: "set (mark processed w) = set processed \<union> StepID ` set w"
  by (induction w arbitrary: processed) auto

lemma distinct_mark: "distinct processed \<Longrightarrow> distinct (mark processed w)"
  by (induction w arbitrary: processed) auto

text \<open>\<open>depends steps\<close>: the edge from a step's id to the id of each step it depends on.\<close>

definition depends :: "PlanStep list \<Rightarrow> (string \<times> string) set" where
  "depends steps = {(StepID s, d) | s d. s \<in> set steps \<and> d \<in> set (DependsOn s)}"

lemma finite_depends: "finite (depends steps)"
proof -
  have "depends steps = (\<Union>s\<in>set steps. Pair (StepID s) ` set (DependsOn s))" by (auto simp: depends_def)
  then show ?thesis by simp
qed

text \<open>What the loop maintains between two waves.\<close>

definition topo_state :: "PlanStep list \<Rightarrow> string list \<Rightarrow> bool" where
  "topo_state steps processed \<longleftrightarrow> distinct (map StepID steps) \<and> distinct processed \<and> set processed \<subseteq> set (map StepID steps)"

lemma topo_state_mark:
  "topo_state steps processed \<Longrightarrow> w = filter (ready processed) steps \<Longrightarrow> topo_state steps (mark processed w)"
  by (auto simp: topo_state_def distinct_mark set_mark)

lemma ready_marked:
  assumes "topo_state steps processed" and "s \<in> set steps"
  shows "StepID s \<in> StepID ` set (filter (ready processed) steps) \<longleftrightarrow> ready processed s"
  using assms unfolding topo_state_def by (auto dest: distinct_key_unique)

lemma topoWaves_step:
  assumes "topoWaves steps processed = Inr ws"
  obtains (finished) "ws = []" "\<not> length processed < length steps"
  | (wave) w vs where "w = filter (ready processed) steps" "w \<noteq> []" "ws = w # vs" "topoWaves steps (mark processed w) = Inr vs"
      "length processed < length steps"
  using assms by (subst (asm) topoWaves.simps) (auto simp: Let_def split: if_splits sum.splits)

lemma processed_all:
  assumes "topo_state steps processed" and "\<not> length processed < length steps"
  shows "set processed = set (map StepID steps)"
proof -
  have "card (set processed) = length processed" "card (set (map StepID steps)) = length steps"
    using assms(1) distinct_card [of processed] distinct_card [of "map StepID steps"] by (simp_all add: topo_state_def)
  then show ?thesis using assms by (intro card_seteq) (auto simp: topo_state_def)
qed

lemma topoWaves_mset:
  "topoWaves steps processed = Inr ws \<Longrightarrow> topo_state steps processed \<Longrightarrow>
   mset (concat ws) = mset (filter (\<lambda>s. StepID s \<notin> set processed) steps)"
proof (induction steps processed arbitrary: ws rule: topoWaves.induct)
  case (1 steps processed)
  from 1(2) show ?case
  proof (cases rule: topoWaves_step)
    case finished
    with processed_all [OF 1(3)] show ?thesis by auto
  next
    case (wave w vs)
    have "mset (concat vs) = mset (filter (\<lambda>s. StepID s \<notin> set (mark processed w)) steps)"
      using wave 1(3) by (intro 1(1)) (auto intro: topo_state_mark)
    moreover have "filter (\<lambda>s. StepID s \<notin> set (mark processed w)) steps =
        filter (\<lambda>s. \<not> ready processed s) (filter (\<lambda>s. StepID s \<notin> set processed) steps)"
      unfolding filter_filter by (rule filter_cong) (use ready_marked [OF 1(3)] wave(1) in \<open>auto simp: set_mark\<close>)
    ultimately have vs: "mset (concat vs) = mset (filter (\<lambda>s. \<not> ready processed s) (filter (\<lambda>s. StepID s \<notin> set processed) steps))"
      by (simp only:)
    have w: "w = filter (ready processed) (filter (\<lambda>s. StepID s \<notin> set processed) steps)"
      unfolding wave(1) filter_filter by (rule filter_cong) (auto simp: ready_def)
    have "mset (concat ws) = mset w + mset (concat vs)" by (simp add: wave(3))
    also have "\<dots> = mset (filter (\<lambda>s. StepID s \<notin> set processed) steps)"
      unfolding vs w mset_filter by (rule multiset_partition [symmetric])
    finally show ?thesis .
  qed
qed

text \<open>Every step of a wave has its dependencies in earlier waves, and the last one just before it.\<close>

definition layered :: "string list \<Rightarrow> PlanStep list list \<Rightarrow> bool" where
  "layered processed ws \<longleftrightarrow> (\<forall>i<length ws. ws ! i \<noteq> [] \<and> (\<forall>s\<in>set (ws ! i).
     set (DependsOn s) \<subseteq> set processed \<union> StepID ` set (concat (take i ws)) \<and>
     (0 < i \<longrightarrow> (\<exists>d\<in>set (DependsOn s). d \<in> StepID ` set (ws ! (i - 1))))))"

lemma topoWaves_layered:
  "topoWaves steps processed = Inr ws \<Longrightarrow> topo_state steps processed \<Longrightarrow>
   layered processed ws \<and> (\<forall>w\<in>set ws. set w \<subseteq> {s \<in> set steps. StepID s \<notin> set processed})"
proof (induction steps processed arbitrary: ws rule: topoWaves.induct)
  case (1 steps processed)
  from 1(2) show ?case
  proof (cases rule: topoWaves_step)
    case finished
    then show ?thesis by (simp add: layered_def)
  next
    case (wave w vs)
    have IH: "layered (mark processed w) vs" "\<forall>v\<in>set vs. set v \<subseteq> {s \<in> set steps. StepID s \<notin> set (mark processed w)}"
      using wave 1(3) 1(1) [of w vs] by (auto intro: topo_state_mark)
    have "ws ! i \<noteq> [] \<and> (\<forall>s\<in>set (ws ! i). set (DependsOn s) \<subseteq> set processed \<union> StepID ` set (concat (take i ws)) \<and>
       (0 < i \<longrightarrow> (\<exists>d\<in>set (DependsOn s). d \<in> StepID ` set (ws ! (i - 1)))))" if i: "i < length ws" for i
    proof (cases i)
      case 0
      with wave show ?thesis by (auto simp: ready_def list_all_iff)
    next
      case (Suc j)
      with i wave(3) have j: "j < length vs" by simp
      have lay: "vs ! j \<noteq> []" "\<And>s. s \<in> set (vs ! j) \<Longrightarrow> set (DependsOn s) \<subseteq> set (mark processed w) \<union> StepID ` set (concat (take j vs))"
        "\<And>s. s \<in> set (vs ! j) \<Longrightarrow> 0 < j \<Longrightarrow> \<exists>d\<in>set (DependsOn s). d \<in> StepID ` set (vs ! (j - 1))"
        using IH(1) j unfolding layered_def by blast+
      have prev: "\<exists>d\<in>set (DependsOn s). d \<in> StepID ` set (ws ! j)" if s: "s \<in> set (vs ! j)" for s
      proof (cases j)
        case 0
        have "s \<in> set steps" "StepID s \<notin> set (mark processed w)" using IH(2) s j nth_mem [OF j] by blast+
        then have "\<not> ready processed s" "StepID s \<notin> set processed" using wave(1) by (auto simp: set_mark)
        then obtain d where "d \<in> set (DependsOn s)" "d \<notin> set processed" by (auto simp: ready_def list_all_iff)
        moreover from this lay(2) [OF s] 0 have "d \<in> StepID ` set w" by (auto simp: set_mark)
        ultimately show ?thesis using 0 wave(3) by auto
      next
        case (Suc k)
        with lay(3) [OF s] show ?thesis by (simp add: wave(3))
      qed
      show ?thesis using lay(1,2) prev Suc wave(3) by (auto simp: set_mark)
    qed
    then have "layered processed ws" by (simp add: layered_def)
    moreover have "\<forall>v\<in>set ws. set v \<subseteq> {s \<in> set steps. StepID s \<notin> set processed}"
      using IH(2) wave by (auto simp: set_mark ready_def)
    ultimately show ?thesis ..
  qed
qed


lemma topo_state_init: "distinct (map StepID steps) \<Longrightarrow> topo_state steps []"
  by (simp add: topo_state_def)

lemma ready_exists:
  assumes st: "topo_state steps processed" and known: "\<forall>s\<in>set steps. set (DependsOn s) \<subseteq> set (map StepID steps)"
    and ac: "acyclic (depends steps)" and less: "length processed < length steps"
  shows "filter (ready processed) steps \<noteq> []"
proof -
  let ?todo = "{s \<in> set steps. StepID s \<notin> set processed}"
  have "card (set processed) < card (set (map StepID steps))"
    using st less distinct_card [of processed] distinct_card [of "map StepID steps"] by (simp add: topo_state_def)
  then have "\<not> set (map StepID steps) \<subseteq> set processed"
    using card_mono [of "set processed" "set (map StepID steps)"] by (auto simp: not_le [symmetric])
  then have ne: "StepID ` ?todo \<noteq> {}" by auto
  have "wf ((depends steps)\<inverse>)" using finite_depends ac by (rule finite_acyclic_wf_converse)
  then obtain x where x: "x \<in> StepID ` ?todo" and m: "\<And>y. (y, x) \<in> (depends steps)\<inverse> \<Longrightarrow> y \<notin> StepID ` ?todo"
    using ne by (rule wfE_min') blast
  have min: "\<And>y. (x, y) \<in> depends steps \<Longrightarrow> y \<notin> StepID ` ?todo" by (rule m) simp
  from x obtain s where s: "s \<in> set steps" "StepID s = x" "StepID s \<notin> set processed" by auto
  have "d \<in> set processed" if d: "d \<in> set (DependsOn s)" for d
  proof -
    have "(x, d) \<in> depends steps" using s d by (auto simp: depends_def)
    then have "d \<notin> StepID ` ?todo" by (rule min)
    moreover from known s d obtain q where "q \<in> set steps" "StepID q = d" by auto
    ultimately show ?thesis by auto
  qed
  then have "s \<in> set (filter (ready processed) steps)" using s by (auto simp: ready_def list_all_iff)
  then show ?thesis by (metis list.set(1) empty_iff)
qed

lemma topoWaves_complete:
  "topo_state steps processed \<Longrightarrow> \<forall>s\<in>set steps. set (DependsOn s) \<subseteq> set (map StepID steps) \<Longrightarrow> acyclic (depends steps) \<Longrightarrow>
   \<exists>ws. topoWaves steps processed = Inr ws"
proof (induction steps processed rule: topoWaves.induct)
  case (1 steps processed)
  show ?case
  proof (cases "length processed < length steps")
    case True
    have ne: "filter (ready processed) steps \<noteq> []" using 1(2-4) True by (rule ready_exists)
    have "\<exists>ws. topoWaves steps (mark processed (filter (ready processed) steps)) = Inr ws"
      using True ne 1(2-) by (intro 1(1)) (auto intro: topo_state_mark)
    with True ne show ?thesis by (subst topoWaves.simps) (auto simp: Let_def)
  next
    case False
    then show ?thesis by (subst topoWaves.simps) simp
  qed
qed

lemma topoWaves_error: "topoWaves steps processed = Inl e \<Longrightarrow> e = cycleError"
proof (induction steps processed rule: topoWaves.induct)
  case (1 steps processed)
  from 1(2) show ?case
    by (subst (asm) topoWaves.simps) (auto simp: Let_def split: if_splits sum.splits intro: 1(1))
qed

text \<open>A layering is a proof of acyclicity: edges lead to strictly earlier waves.\<close>

definition waveOf :: "PlanStep list list \<Rightarrow> string \<Rightarrow> nat" where
  "waveOf ws x = (LEAST i. i < length ws \<and> x \<in> StepID ` set (ws ! i))"

lemma distinct_concat_nth:
  "distinct (concat xss) \<Longrightarrow> i < length xss \<Longrightarrow> j < length xss \<Longrightarrow> x \<in> set (xss ! i) \<Longrightarrow> x \<in> set (xss ! j) \<Longrightarrow> i = j"
proof (induction xss arbitrary: i j)
  case (Cons xs xss)
  have sub: "\<And>k. k < length xss \<Longrightarrow> x \<in> set (xss ! k) \<Longrightarrow> x \<in> set (concat xss)" by (auto dest: nth_mem)
  have dis: "x \<in> set xs \<Longrightarrow> x \<notin> set (concat xss)" using Cons.prems(1) by auto
  show ?case using Cons.IH Cons.prems sub dis by (cases i; cases j) (simp_all del: set_concat)
qed simp

lemma waveOf_unique:
  assumes "distinct (map StepID (concat ws))" and "i < length ws" and "x \<in> StepID ` set (ws ! i)"
  shows "waveOf ws x = i"
proof -
  have d: "distinct (concat (map (map StepID) ws))" using assms(1) by (simp add: map_concat)
  have "j = i" if "j < length ws" "x \<in> StepID ` set (ws ! j)" for j
    using distinct_concat_nth [OF d, of j i x] that assms(2,3) by simp
  then show ?thesis unfolding waveOf_def using assms(2,3) by (intro Least_equality) (blast, metis le_refl)
qed

lemma layered_acyclic:
  assumes lay: "layered [] ws" and m: "mset (concat ws) = mset steps" and dis: "distinct (map StepID steps)"
  shows "acyclic (depends steps)"
proof (rule acyclicI_order)
  have dis': "distinct (map StepID (concat ws))"
    using dis mset_eq_imp_distinct_iff [of "map StepID (concat ws)" "map StepID steps"] by (simp add: m)
  fix a b assume "(a, b) \<in> depends steps"
  then obtain s where s: "s \<in> set steps" "a = StepID s" "b \<in> set (DependsOn s)" by (auto simp: depends_def)
  have "s \<in> set (concat ws)" using s(1) mset_eq_setD [OF m] by simp
  then obtain i where i: "i < length ws" "s \<in> set (ws ! i)" by (metis in_set_conv_nth set_concat UN_E)
  then have "b \<in> StepID ` set (concat (take i ws))" using lay s(3) unfolding layered_def by fastforce
  then obtain w where w: "w \<in> set (take i ws)" "b \<in> StepID ` set w" by auto
  then obtain j where j: "j < i" "b \<in> StepID ` set (ws ! j)" by (auto simp: in_set_conv_nth)
  have "waveOf ws b = j" using dis' by (rule waveOf_unique) (use i j in auto)
  moreover have "waveOf ws a = i" using dis' i(1) by (rule waveOf_unique) (use i s in auto)
  ultimately show "waveOf ws b < waveOf ws a" using j(1) by simp
qed

lemma topoSort_waves:
  assumes "distinct (map StepID steps)" and "topoSort steps = Inr ws"
  shows "mset (concat ws) = mset steps \<and> layered [] ws"
proof -
  from assms(2) have "topoWaves steps [] = Inr ws" by (auto simp: topoSort_def split: option.splits)
  with topo_state_init [OF assms(1)] show ?thesis using topoWaves_mset topoWaves_layered by fastforce
qed

lemma topoSort_decides:
  assumes "distinct (map StepID steps)" and "(\<Union>s\<in>set steps. set (DependsOn s)) \<subseteq> StepID ` set steps"
  shows "\<not> acyclic (depends steps) \<Longrightarrow> topoSort steps = Inl cycleError"
    and "acyclic (depends steps) \<Longrightarrow> \<exists>ws. topoSort steps = Inr ws"
proof -
  have known: "\<forall>s\<in>set steps. set (DependsOn s) \<subseteq> set (map StepID steps)" using assms(2) by auto
  then have eq: "topoSort steps = topoWaves steps []"
    by (simp add: topoSort_def unknownDep_None [THEN iffD2])
  show "\<exists>ws. topoSort steps = Inr ws" if "acyclic (depends steps)"
    unfolding eq using topo_state_init [OF assms(1)] known that by (rule topoWaves_complete)
  show "topoSort steps = Inl cycleError" if "\<not> acyclic (depends steps)"
  proof (cases "topoSort steps")
    case (Inl e)
    then show ?thesis using topoWaves_error [of steps "[]" e] by (simp add: eq)
  next
    case (Inr ws)
    then show ?thesis using topoSort_waves [OF assms(1) Inr] layered_acyclic assms(1) that by blast
  qed
qed

lemma checkIDs_None:
  "checkIDs seen ss = None \<longleftrightarrow> '''' \<notin> StepID ` set ss \<and> distinct (map StepID ss) \<and> set seen \<inter> StepID ` set ss = {}"
  by (induction ss arbitrary: seen) auto

lemma Validate_Inr:
  "Validate p = Inr () \<longleftrightarrow> Steps p \<noteq> [] \<and> checkIDs [] (Steps p) = None \<and>
     unknownDep (map StepID (Steps p)) (Steps p) = None \<and> (\<exists>ws. topoSort (Steps p) = Inr ws)"
  by (auto simp: Validate_def split: option.splits sum.splits)

text \<open>C17. \<open>Validate\<close> accepts exactly the well-formed plans: at least one step, step ids non-empty and
  pairwise different, every dependency the id of a step, and no dependency cycle.\<close>

theorem validate_iff:
  "Validate p = Inr () \<longleftrightarrow>
     Steps p \<noteq> [] \<and> '''' \<notin> StepID ` set (Steps p) \<and> distinct (map StepID (Steps p)) \<and>
     (\<Union>s\<in>set (Steps p). set (DependsOn s)) \<subseteq> StepID ` set (Steps p) \<and> acyclic (depends (Steps p))"
proof (cases "Steps p \<noteq> [] \<and> checkIDs [] (Steps p) = None \<and> unknownDep (map StepID (Steps p)) (Steps p) = None")
  case True
  then have d: "distinct (map StepID (Steps p))" and k: "(\<Union>s\<in>set (Steps p). set (DependsOn s)) \<subseteq> StepID ` set (Steps p)"
    by (auto simp: checkIDs_None unknownDep_None)
  have "(\<exists>ws. topoSort (Steps p) = Inr ws) \<longleftrightarrow> acyclic (depends (Steps p))"
    using topoSort_decides [OF d k] by (metis Inl_Inr_False)
  with True k show ?thesis unfolding Validate_Inr by (simp add: checkIDs_None)
next
  case False
  then show ?thesis unfolding Validate_Inr by (auto simp: checkIDs_None unknownDep_None)
qed

text \<open>On a plan that \<open>Validate\<close> accepts, \<open>topoSort\<close> returns waves that hold every step exactly once;
  no wave is empty, every dependency of a step lies in an earlier wave, and the steps of a later wave
  have a dependency in the wave just before, so no step could have been scheduled earlier.\<close>

theorem topo_sort_waves:
  assumes "Validate p = Inr ()"
  shows "\<exists>ws. topoSort (Steps p) = Inr ws \<and> mset (concat ws) = mset (Steps p) \<and> [] \<notin> set ws \<and>
    (\<forall>i s. i < length ws \<longrightarrow> s \<in> set (ws ! i) \<longrightarrow>
       set (DependsOn s) \<subseteq> StepID ` set (concat (take i ws)) \<and>
       (0 < i \<longrightarrow> (\<exists>d\<in>set (DependsOn s). d \<in> StepID ` set (ws ! (i - 1)))))"
proof -
  from assms obtain ws where ws: "topoSort (Steps p) = Inr ws" and d: "distinct (map StepID (Steps p))"
    by (auto simp: Validate_Inr checkIDs_None)
  from topoSort_waves [OF d ws] have w: "mset (concat ws) = mset (Steps p)" "layered [] ws" by simp_all
  have "[] \<notin> set ws" using w(2) unfolding layered_def by (metis in_set_conv_nth)
  with ws w show ?thesis by (auto simp: layered_def)
qed

definition exStep :: "string \<Rightarrow> string list \<Rightarrow> PlanStep" where
  "exStep i ds = \<lparr>StepID = i, StepAgent = ''default'', Prompt = i, DependsOn = ds, MaxRetries = 2, RequireApproval = False,
     ApprovalTimeoutMs = 0\<rparr>"

definition exPlan :: Plan where
  "exPlan = \<lparr>PlanName = ''p'', Steps = [exStep ''c'' [''a'', ''b''], exStep ''b'' [''a''], exStep ''a'' [], exStep ''d'' []]\<rparr>"

lemma exPlan_valid: "Validate exPlan = Inr ()" 
  and exPlan_waves: "topoSort (Steps exPlan) = Inr [[exStep ''a'' [], exStep ''d'' []], [exStep ''b'' [''a'']], [exStep ''c'' [''a'', ''b'']]]"
  by code_simp+

theorem topo_sort_waves_witness:
  "Validate exPlan = Inr () \<and> (\<exists>ws. topoSort (Steps exPlan) = Inr ws \<and> mset (concat ws) = mset (Steps exPlan) \<and> [] \<notin> set ws)"
  using exPlan_valid topo_sort_waves [OF exPlan_valid] by blast
end
