(* ===== verification/Task_Waiter.thy ===== *)
theory Task_Waiter
  imports Task_Lifecycle
begin

text \<open>
  Waiting for tasks to finish (\<open>internal/coordinator/waiter.go\<close>).

  A wait reads the database and never writes it. What it sees is decided by the environment: the list
  of its wake-ups, in order, each with the database as it is at that moment. A wake-up is a tick of the
  polling timer, an event from the subscription, or the closing of the subscription; after the last
  one the context is done. The goroutines of \<open>WaitForAll\<close> each have their own list, and the order in
  which they finish is a list of their positions. A map is the list of its entries with distinct keys.
\<close>

section \<open>Results\<close>

record TaskResult =
  RTaskID :: string
  RStatus :: string
  ROutput :: string
  RPromptTokens :: int
  RCompletionTokens :: int
  RCostUSD :: usd
  RDurationMs :: int
  RError :: string

definition isTerminalStatus :: "TaskStatus \<Rightarrow> bool" where
  "isTerminalStatus st = (st \<in> {TaskStatusSucceeded, TaskStatusFailed, TaskStatusCanceled, TaskStatusDeadLetter})"

text \<open>The instant a timestamp denotes, in nanoseconds, and \<open>Duration.Milliseconds\<close>, which truncates.\<close>

fun tsNanos :: "ts \<Rightarrow> int" where
  "tsNanos (CurTs s) = int s * 10^9"
| "tsNanos (GoTs n) = int n"
| "tsNanos (RfcTs s) = int s * 10^9"

definition milliseconds :: "int \<Rightarrow> int" where
  "milliseconds d = (if d < 0 then - ((- d) div 10^6) else d div 10^6)"

definition taskResult :: "Task \<Rightarrow> TaskResult" where
  "taskResult task = \<lparr>RTaskID = ID task, RStatus = statusString (Status task), ROutput = Result task, RPromptTokens = 0,
     RCompletionTokens = 0, RCostUSD = 0, RDurationMs = milliseconds (tsNanos (UpdatedAt task) - tsNanos (CreatedAt task)),
     RError = Error task\<rparr>"

definition checkTerminal :: "string \<Rightarrow> 'x store_scheme \<Rightarrow> (err + TaskResult option) \<times> 'x store_scheme" where
  "checkTerminal taskID = bindS (wrapS (''get task '' @ taskID) (GetTask taskID))
     (\<lambda>task. if \<not> isTerminalStatus (Status task) then retS None else retS (Some (taskResult task)))"

definition isEventForTask :: "payload Event \<Rightarrow> string \<Rightarrow> bool" where
  "isEventForTask ev taskID =
    (case Payload ev of
       PTaskStateChanged i _ _ _ \<Rightarrow> i = taskID
     | PTaskMetrics i _ _ _ _ \<Rightarrow> i = taskID
     | PTaskTokens i _ _ \<Rightarrow> i = taskID
     | PMap m \<Rightarrow> (case map_of m ''task_id'' of Some (VStr i) \<Rightarrow> i = taskID | _ \<Rightarrow> False)
     | _ \<Rightarrow> False)"

definition extractTaskIDFromEvent :: "payload Event \<Rightarrow> string" where
  "extractTaskIDFromEvent ev =
    (case Payload ev of
       PMap m \<Rightarrow> (case map_of m ''task_id'' of Some (VStr i) \<Rightarrow> i | _ \<Rightarrow> '''')
     | _ \<Rightarrow> '''')"

section \<open>Waiting\<close>

datatype 's wake = Tick 's | Delivered "payload Event" 's | SubClosed

text \<open>The loop of \<open>WaitForTask\<close>; \<open>sub\<close> tells whether there is a live subscription (a nil channel
  never delivers), \<open>ctxErr\<close> is the error of the context when it ends the wait.\<close>

fun waitLoop :: "string \<Rightarrow> err \<Rightarrow> bool \<Rightarrow> 'x store_scheme wake list \<Rightarrow> err + TaskResult" where
  "waitLoop taskID ctxErr sub [] = Inl (ErrWrap (''timeout waiting for task '' @ taskID) ctxErr)"
| "waitLoop taskID ctxErr sub (Tick s # ws) =
    (case fst (checkTerminal taskID s) of
       Inl e \<Rightarrow> Inl e
     | Inr (Some r) \<Rightarrow> Inr r
     | Inr None \<Rightarrow> waitLoop taskID ctxErr sub ws)"
| "waitLoop taskID ctxErr sub (SubClosed # ws) = waitLoop taskID ctxErr False ws"
| "waitLoop taskID ctxErr sub (Delivered ev s # ws) =
    (if sub \<and> isEventForTask ev taskID
     then (case fst (checkTerminal taskID s) of
             Inl e \<Rightarrow> Inl e
           | Inr (Some r) \<Rightarrow> Inr r
           | Inr None \<Rightarrow> waitLoop taskID ctxErr sub ws)
     else waitLoop taskID ctxErr sub ws)"

text \<open>What one goroutine observes: the database at its first check, its wake-ups, the context's error.\<close>

record 's watch =
  first :: 's
  wakes :: "'s wake list"
  ctxErr :: err

definition WaitForTask :: "bool \<Rightarrow> string \<Rightarrow> 'x store_scheme watch \<Rightarrow> err + TaskResult" where
  "WaitForTask hasBus taskID w =
    (case fst (checkTerminal taskID (first w)) of
       Inl e \<Rightarrow> Inl e
     | Inr (Some r) \<Rightarrow> Inr r
     | Inr None \<Rightarrow> waitLoop taskID (ctxErr w) hasBus (wakes w))"

text \<open>\<open>m[k] = v\<close> on the entries of a map.\<close>

definition putEntry :: "'k \<Rightarrow> 'v \<Rightarrow> ('k \<times> 'v) list \<Rightarrow> ('k \<times> 'v) list" where
  "putEntry k v m = (if k \<in> fst ` set m then map (\<lambda>(a, b). if a = k then (a, v) else (a, b)) m else m @ [(k, v)])"

text \<open>One goroutine of \<open>WaitForAll\<close> finishing: its result goes into the map, its error into the channel.\<close>

fun collect :: "(string \<times> (err + TaskResult)) list \<Rightarrow> (string \<times> TaskResult) list \<times> err list \<Rightarrow> (string \<times> TaskResult) list \<times> err list" where
  "collect [] acc = acc"
| "collect ((taskID, r) # rest) (results, errs) =
    (case r of
       Inl e \<Rightarrow> collect rest (results, errs @ [ErrWrap (''task '' @ taskID) e])
     | Inr v \<Rightarrow> collect rest (putEntry taskID v results, errs))"

definition WaitForAll :: "bool \<Rightarrow> string list \<Rightarrow> (nat \<Rightarrow> 'x store_scheme watch) \<Rightarrow> nat list \<Rightarrow>
    (string \<times> TaskResult) list \<times> err option" where
  "WaitForAll hasBus taskIDs watches finishOrder =
    (let (results, errs) = collect (map (\<lambda>k. (taskIDs ! k, WaitForTask hasBus (taskIDs ! k) (watches k))) finishOrder) ([], [])
     in (results, if errs = [] then None
                  else Some (ErrMsg (itoa (int (length errs)) @ '' tasks failed: '' @ errString (hd errs)))))"


section \<open>What a wait returns\<close>

fun wakeStore :: "'s wake \<Rightarrow> 's option" where
  "wakeStore (Tick s) = Some s"
| "wakeStore (Delivered ev s) = Some s"
| "wakeStore SubClosed = None"

text \<open>The databases a wait may look at.\<close>

definition seen :: "'s watch \<Rightarrow> 's set" where
  "seen w = insert (first w) {s. Some s \<in> wakeStore ` set (wakes w)}"

definition finishedRow :: "string \<Rightarrow> 'x store_scheme \<Rightarrow> task_row option" where
  "finishedRow taskID s = (case findTask taskID s of
     Some row \<Rightarrow> if isTerminalStatus (t_status row) then Some row else None | None \<Rightarrow> None)"

lemma scanTask_status [simp]: "Status (scanTask row) = t_status row" "ID (scanTask row) = t_id row"
  by (simp_all add: scanTask_def)

lemma checkTerminal_some:
  assumes "fst (checkTerminal i s) = Inr (Some r)"
  obtains row where "finishedRow i s = Some row" and "r = taskResult (scanTask row)"
proof -
  obtain s' where "checkTerminal i s = (Inr (Some r), s')" using assms by (metis prod.collapse)
  then show thesis unfolding checkTerminal_def GetTask_def bindS_Inr
    by (auto simp: finishedRow_def findTask_def split: if_splits elim!: stmt_elims intro: that)
qed

lemma checkTerminal_clean:
  "faults s = [] \<Longrightarrow> findTask i s = Some row \<Longrightarrow>
   fst (checkTerminal i s) = Inr (map_option (taskResult \<circ> scanTask) (finishedRow i s))"
  by (simp add: checkTerminal_def GetTask_def finishedRow_def tx_eval)

definition reportedBy :: "string \<Rightarrow> 'x store_scheme \<Rightarrow> TaskResult \<Rightarrow> bool" where
  "reportedBy i s r \<longleftrightarrow> (\<exists>row. finishedRow i s = Some row \<and> r = taskResult (scanTask row))"

lemma checkTerminal_reported: "fst (checkTerminal i s) = Inr (Some r) \<Longrightarrow> reportedBy i s r"
  unfolding reportedBy_def by (rule checkTerminal_some) auto

lemma waitLoop_result:
  "waitLoop i c sub ws = Inr r \<Longrightarrow> \<exists>w\<in>set ws. \<exists>s. wakeStore w = Some s \<and> reportedBy i s r"
proof (induction ws arbitrary: sub)
  case (Cons w ws)
  then show ?case
    by (cases w) (auto split: sum.splits option.splits if_splits dest: checkTerminal_reported Cons.IH)
qed simp

lemma WaitForTask_result:
  assumes "WaitForTask hb i w = Inr r"
  obtains s row where "s \<in> seen w" and "finishedRow i s = Some row" and "r = taskResult (scanTask row)"
proof -
  have "\<exists>s\<in>seen w. reportedBy i s r"
  proof (cases "fst (checkTerminal i (first w)) = Inr None")
    case True
    with assms have "waitLoop i (ctxErr w) hb (wakes w) = Inr r" by (simp add: WaitForTask_def)
    from waitLoop_result [OF this] show ?thesis by (force simp: seen_def image_iff)
  next
    case False
    with assms have "fst (checkTerminal i (first w)) = Inr (Some r)"
      by (auto simp: WaitForTask_def split: sum.splits option.splits)
    then show ?thesis using checkTerminal_reported by (auto simp: seen_def)
  qed
  then show thesis unfolding reportedBy_def using that by blast
qed

lemma finishedRow_Some: "finishedRow i s = Some row \<Longrightarrow> row \<in> set (tasks s) \<and> t_id row = i \<and> isTerminalStatus (t_status row)"
  by (auto simp: finishedRow_def dest: findTask_Some split: option.splits if_splits)

text \<open>A database that answers and holds the task.\<close>

definition answers :: "string \<Rightarrow> 'x store_scheme \<Rightarrow> bool" where
  "answers i s \<longleftrightarrow> faults s = [] \<and> hasTask i s"

lemma checkTerminal_answers:
  assumes "answers i s"
  shows "fst (checkTerminal i s) = Inr (map_option (taskResult \<circ> scanTask) (finishedRow i s))"
proof -
  from assms obtain row where "findTask i s = Some row"
    by (cases "findTask i s") (auto simp: answers_def hasTask_def findTask_def firstWhere_None)
  with assms show ?thesis by (simp add: answers_def checkTerminal_clean)
qed

lemma waitLoop_finds:
  assumes "Tick s \<in> set ws" and "finishedRow i s \<noteq> None" and "\<And>t. Some t \<in> wakeStore ` set ws \<Longrightarrow> answers i t"
  shows "\<exists>r. waitLoop i c sub ws = Inr r"
  using assms(1,3)
proof (induction ws arbitrary: sub)
  case (Cons w ws)
  have IH: "\<exists>r. waitLoop i c b ws = Inr r" if "w \<noteq> Tick s" for b
    using Cons that by auto
  show ?case
  proof (cases w)
    case (Tick t)
    have "answers i t" using Cons.prems(2) [of t] Tick by simp
    with IH assms(2) Tick show ?thesis by (cases "t = s") (auto simp: checkTerminal_answers split: option.splits)
  next
    case (Delivered ev t)
    have "answers i t" using Cons.prems(2) [of t] Delivered by simp
    with IH Delivered show ?thesis by (auto simp: checkTerminal_answers split: option.splits)
  next
    case SubClosed
    with IH show ?thesis by simp
  qed
qed simp

lemma WaitForTask_finds:
  assumes "\<And>t. t \<in> seen w \<Longrightarrow> answers i t" and "Tick s \<in> set (wakes w)" and "finishedRow i s \<noteq> None"
  shows "\<exists>r. WaitForTask hasBus i w = Inr r"
proof -
  have "answers i (first w)" using assms(1) by (simp add: seen_def)
  moreover have "\<exists>r. waitLoop i (ctxErr w) hasBus (wakes w) = Inr r"
    using assms(2,3) by (rule waitLoop_finds) (simp add: assms(1) seen_def)
  ultimately show ?thesis by (auto simp: WaitForTask_def checkTerminal_answers split: option.splits)
qed

text \<open>C27. When the database answers and a poll of \<open>WaitForTask\<close> finds the task in a terminal state before the
  context is done, the wait returns a result; it never times out then, whatever events arrive or are lost.\<close>

theorem wait_returns:
  assumes "\<And>t. t \<in> seen w \<Longrightarrow> answers i t" and "Tick s \<in> set (wakes w)" and "finishedRow i s \<noteq> None"
  shows "\<exists>r. WaitForTask hasBus i w = Inr r"
  using assms by (rule WaitForTask_finds)

text \<open>What \<open>WaitForTask\<close> returns is the state of the task in a database it has seen, and it is final: in
  every later state the task is still there with the status that was reported, unless that status is
  \<open>FAILED\<close>, the one finished state the transition table can leave.\<close>

theorem wait_result_final:
  assumes "WaitForTask hasBus i w = Inr r"
    and "\<And>s. s \<in> seen w \<Longrightarrow> store_inv s \<and> store_step\<^sup>*\<^sup>* s t"
  shows "\<exists>q\<in>set (tasks t). t_id q = i \<and> RTaskID r = i \<and>
    (RStatus r \<in> {''SUCCEEDED'', ''CANCELED'', ''DEAD_LETTER''} \<and> RStatus r = statusString (t_status q) \<or> RStatus r = ''FAILED'')"
proof -
  from assms(1) obtain s row where s: "s \<in> seen w" and row: "finishedRow i s = Some row" and r: "r = taskResult (scanTask row)"
    by (rule WaitForTask_result)
  have "good s t" using assms(2) [OF s] good_start by (blast intro: store_steps_good)
  with finishedRow_Some [OF row] obtain q where q: "q \<in> set (tasks t)" "t_id q = i" "canTransition\<^sup>*\<^sup>* (t_status row) (t_status q)"
    by (auto simp: good_def evolves_def)
  have "t_status q = t_status row \<or> t_status row = TaskStatusFailed"
    using q(3) finishedRow_Some [OF row] terminal_stays by (auto simp: isTerminalStatus_def terminal_def)
  then show ?thesis using q finishedRow_Some [OF row] by (intro bexI [OF _ q(1)]) (auto simp: r taskResult_def isTerminalStatus_def)
qed

section \<open>Waiting for several tasks\<close>

lemma map_fst_putEntry: "map fst (putEntry k v m) = (if k \<in> fst ` set m then map fst m else map fst m @ [k])"
  by (auto simp: putEntry_def)

lemma keys_putEntry: "fst ` set (putEntry k v m) = insert k (fst ` set m)"
proof -
  have "set (map fst (putEntry k v m)) = insert k (set (map fst m))" unfolding map_fst_putEntry by auto
  then show ?thesis by simp
qed

lemma distinct_putEntry: "distinct (map fst m) \<Longrightarrow> distinct (map fst (putEntry k v m))"
  unfolding map_fst_putEntry by auto

lemma collect_spec:
  "collect rs (m, es) = (m', es') \<Longrightarrow>
   fst ` set m' = fst ` set m \<union> {i. \<exists>v. (i, Inr v) \<in> set rs} \<and>
   length es' = length es + length (filter (\<lambda>(i, r). \<exists>e. r = Inl e) rs)"
proof (induction rs "(m, es)" arbitrary: m es rule: collect.induct)
  case (2 i r rest m es)
  then show ?case by (cases r) (auto simp: keys_putEntry split: sum.splits)
qed auto

lemma collect_distinct: "collect rs (m, es) = (m', es') \<Longrightarrow> distinct (map fst m) \<Longrightarrow> distinct (map fst m')"
proof (induction rs "(m, es)" arbitrary: m es rule: collect.induct)
  case (2 i r rest m es)
  then show ?case by (cases r) (auto simp: distinct_putEntry split: sum.splits)
qed auto

lemma not_Inl: "(\<forall>e. r \<noteq> Inl e) \<longleftrightarrow> (\<exists>v. r = Inr v)"
  by (cases r) auto

lemma WaitForAll_spec:
  assumes "WaitForAll hasBus ids watches order = (results, e)" and "distinct order" and "set order = {0..<length ids}"
  shows "fst ` set results = {ids ! k | k. k < length ids \<and> (\<exists>r. WaitForTask hasBus (ids ! k) (watches k) = Inr r)} \<and>
    distinct (map fst results) \<and>
    (e = None \<longleftrightarrow> (\<forall>k<length ids. \<exists>r. WaitForTask hasBus (ids ! k) (watches k) = Inr r))"
proof -
  let ?rs = "map (\<lambda>k. (ids ! k, WaitForTask hasBus (ids ! k) (watches k))) order"
  obtain m es where c: "collect ?rs ([], []) = (m, es)" by fastforce
  from assms(1) have m: "results = m" unfolding WaitForAll_def c by simp
  from assms(1) have e: "e = None \<longleftrightarrow> es = []" unfolding WaitForAll_def c by (cases "es = []") auto
  have k: "set order = {k. k < length ids}" by (simp only: assms(3) atLeast0LessThan lessThan_def)
  from collect_spec [OF c] have s: "fst ` set m = {i. \<exists>v. (i, Inr v) \<in> set ?rs}"
    and l: "length es = length (filter (\<lambda>(i, r). \<exists>e. r = Inl e) ?rs)" by simp_all
  have "es = [] \<longleftrightarrow> (\<forall>k<length ids. \<exists>r. WaitForTask hasBus (ids ! k) (watches k) = Inr r)"
    using l k unfolding length_0_conv [symmetric] by (simp add: filter_empty_conv not_Inl)
  moreover have "{i. \<exists>v. (i, Inr v) \<in> set ?rs} = {ids ! k | k. k < length ids \<and> (\<exists>r. WaitForTask hasBus (ids ! k) (watches k) = Inr r)}"
    using k by (auto simp: image_iff) metis+
  ultimately show ?thesis using collect_distinct [OF c] by (simp add: m e s)
qed

text \<open>\<open>WaitForAll\<close> waits for every task and does not stop at the first failure: the tasks that were waited
  for successfully are exactly the keys of the result, each once, and an error is reported exactly
  when one of the waits failed.\<close>

theorem wait_for_all_complete:
  assumes "WaitForAll hasBus ids watches order = (results, e)" and "distinct order" and "set order = {0..<length ids}"
  shows "fst ` set results = {ids ! k | k. k < length ids \<and> (\<exists>r. WaitForTask hasBus (ids ! k) (watches k) = Inr r)} \<and>
    distinct (map fst results) \<and>
    (e = None \<longleftrightarrow> (\<forall>k<length ids. \<exists>r. WaitForTask hasBus (ids ! k) (watches k) = Inr r))"
  using assms by (rule WaitForAll_spec)

section \<open>A small run\<close>

definition exWatch :: "store watch" where
  "exWatch = \<lparr>first = exRunning, wakes = [Delivered \<lparr>Topic = ''task.tokens'', Payload = PTaskTokens ''t1'' 1 1\<rparr> exRunning,
     SubClosed, Tick exDone], ctxErr = ErrMsg ''context deadline exceeded''\<rparr>"

lemma exWatch_seen: "seen exWatch = {exRunning, exDone}"
  by (auto simp: seen_def exWatch_def image_iff)

lemma exDone_eval: "faults exDone = []" "map t_id (tasks exDone) = [''t1'']" "finishedRow ''t1'' exDone = Some (tasks exDone ! 0)"
  by (simp_all add: finishedRow_def isTerminalStatus_def exDone_def emptyStore_def exRunning_eq exTables_def AbortTask_def
      RequestCancel_def publishTask_def tx_eval store_eval exRow_def exEvent_def)

lemma exWatch_answers: "t \<in> seen exWatch \<Longrightarrow> answers ''t1'' t"
proof -
  have "answers ''t1'' exRunning" by (simp add: answers_def hasTask_def exRunning_eq exTables_def emptyStore_def exRow_def)
  moreover have "answers ''t1'' exDone"
    using exDone_eval(1,2) unfolding answers_def hasTask_ids by simp
  ultimately show "t \<in> seen exWatch \<Longrightarrow> answers ''t1'' t" unfolding exWatch_seen by blast
qed

lemma exWatch_tick: "Tick exDone \<in> set (wakes exWatch)" "finishedRow ''t1'' exDone \<noteq> None"
  by (simp_all add: exWatch_def exDone_eval)

theorem wait_returns_witness: "\<exists>r. WaitForTask True ''t1'' exWatch = Inr r"
  using exWatch_answers exWatch_tick by (rule wait_returns)

lemma exWatch_result: "\<exists>r. WaitForTask True ''t1'' exWatch = Inr r"
  using exWatch_answers exWatch_tick by (rule WaitForTask_finds)

lemma exWatch_later: "s \<in> seen exWatch \<Longrightarrow> store_inv s \<and> store_step\<^sup>*\<^sup>* s exDone"
  unfolding exWatch_seen using ex_inv(6) exDone_inv by (auto simp: exDone_def intro!: r_into_rtranclp abort)

theorem wait_result_final_witness:
  "\<exists>r. WaitForTask True ''t1'' exWatch = Inr r \<and> RTaskID r = ''t1''"
proof -
  from exWatch_result obtain r where r: "WaitForTask True ''t1'' exWatch = Inr r" by blast
  from wait_result_final [OF r exWatch_later] r show ?thesis by auto
qed

theorem wait_for_all_complete_witness:
  "fst ` set (fst (WaitForAll True [''t1''] (\<lambda>_. exWatch) [0])) = {''t1''} \<and> snd (WaitForAll True [''t1''] (\<lambda>_. exWatch) [0]) = None"
  using wait_for_all_complete [OF surjective_pairing, of "[0]" "[''t1'']" True "\<lambda>_. exWatch"] exWatch_result by auto
end
