(* ===== verification/Plan_Executor.thy ===== *)
theory Plan_Executor
  imports Plan_Dag Plan_Store Task_Waiter
begin

text \<open>
  Running a plan (\<open>internal/coordinator/executor.go\<close>, \<open>retry.go\<close>, \<open>loader.go\<close>).

  The executor creates the tasks of a wave through a router, waits for them, repeats a failed task
  once with the error in its prompt, records the outcome and goes on with the next wave. The router is
  an interface of the source, so it is an argument here; so are the choices of the environment: the
  clock (one reading per wave), the order in which Go iterates over a map, and what the waiter sees
  while it waits. The \<open>k\<close>-th wait of a wave is \<open>during w k\<close>: what each goroutine observes, the order
  in which they finish, and the database afterwards. The result map is the list of its entries.
\<close>

section \<open>Results and prompts\<close>

record StepResult =
  STaskID :: string
  SStatus :: string
  SOutput :: string
  SError :: string
  SCostUSD :: usd
  SDurationMs :: int

definition noResult :: StepResult where
  "noResult = \<lparr>STaskID = '''', SStatus = '''', SOutput = '''', SError = '''', SCostUSD = 0, SDurationMs = 0\<rparr>"

record ExecutionResult =
  ExecutionID :: string
  StepResults :: "(string \<times> StepResult) list"

definition TotalCost :: "ExecutionResult \<Rightarrow> usd" where
  "TotalCost r = sum_list (map (SCostUSD \<circ> snd) (StepResults r))"

text \<open>\<open>strings.ReplaceAll\<close>: an empty old text matches before every byte and at the end.\<close>

fun replaceFrom :: "string \<Rightarrow> string \<Rightarrow> string \<Rightarrow> string" where
  "replaceFrom old new [] = []"
| "replaceFrom old new (c # cs) =
    (if old \<noteq> [] \<and> prefix old (c # cs) then new @ replaceFrom old new (drop (length old - 1) cs)
     else c # replaceFrom old new cs)"

definition replaceAll :: "string \<Rightarrow> string \<Rightarrow> string \<Rightarrow> string" where
  "replaceAll s old new = (if old = [] then new @ concat (map (\<lambda>c. c # new) s) else replaceFrom old new s)"

text \<open>\<open>entries\<close> are the entries of the map in the order of its iteration.\<close>

definition resolvePrompt :: "string \<Rightarrow> (string \<times> StepResult) list \<Rightarrow> string" where
  "resolvePrompt template entries =
    foldl (\<lambda>resolved (stepID, sr). replaceAll resolved (''{'' @ stepID @ ''.output}'') (SOutput sr)) template entries"

definition nl :: string where
  "nl = [CHR 0x0A]"

definition buildRetryPrompt :: "string \<Rightarrow> string \<Rightarrow> int \<Rightarrow> string" where
  "buildRetryPrompt originalPrompt errorMsg attempt =
    ''Your previous attempt at this task failed.'' @ nl @ nl @ ''Original task: '' @ originalPrompt @ nl @ nl @
    ''Error from attempt '' @ itoa (attempt - 1) @ '':'' @ nl @ errorMsg @ nl @ nl @
    ''Please analyze the error, adjust your approach, and try again.'' @ nl @
    ''Be explicit about what you're changing and why.''"

section \<open>The executor and its environment\<close>

type_synonym 's router = "string \<Rightarrow> string \<Rightarrow> string \<Rightarrow> 's \<Rightarrow> (err + string) \<times> 's"

record 's Executor =
  taskRouter :: "'s router"
  hasWaiter :: bool
  waiterBus :: bool
  hasStore :: bool

record 's waiting =
  watches :: "nat \<Rightarrow> 's watch"
  finishOrder :: "nat list"
  after :: 's

record 's schedule =
  timeOf :: "nat \<Rightarrow> env"
  promptOrder :: "nat \<Rightarrow> nat \<Rightarrow> (string \<times> StepResult) list \<Rightarrow> (string \<times> StepResult) list"
  taskOrder :: "nat \<Rightarrow> (string \<times> TaskResult) list \<Rightarrow> (string \<times> TaskResult) list"
  during :: "nat \<Rightarrow> nat \<Rightarrow> 's \<Rightarrow> 's waiting"

definition RetryWithError :: "'s router \<Rightarrow> string \<Rightarrow> PlanStep \<Rightarrow> string \<Rightarrow> int \<Rightarrow> 's \<Rightarrow> (err + string) \<times> 's" where
  "RetryWithError router sessionID step previousError attempt s =
    (let retryPrompt = buildRetryPrompt (Prompt step) previousError attempt in
     case router (StepAgent step) sessionID retryPrompt s of
       (Inl e, s') \<Rightarrow> (Inl (ErrWrap ''failed to create retry task'' e), s')
     | (Inr taskID, s') \<Rightarrow> (Inr taskID, s'))"

text \<open>\<open>if e.store != nil && e.store.Bus() != nil { e.store.Bus().Publish(...) }\<close>.\<close>

definition publishIf :: "bool \<Rightarrow> string \<Rightarrow> payload \<Rightarrow> 'x plan_store_scheme \<Rightarrow> 'x plan_store_scheme" where
  "publishIf has topic p s = (if has then snd (publishS topic p s) else s)"

section \<open>One wave\<close>

text \<open>The first loop of \<open>executeWave\<close>: one task per step. \<open>k\<close> counts the steps of the wave.\<close>

record creation =
  taskToStep :: "(string \<times> string) list"
  taskIDs :: "string list"

fun createTasks :: "'x plan_store_scheme Executor \<Rightarrow> 'x plan_store_scheme schedule \<Rightarrow> nat \<Rightarrow> string \<Rightarrow> string \<Rightarrow> nat \<Rightarrow>
    PlanStep list \<Rightarrow> creation \<Rightarrow> (string \<times> StepResult) list \<Rightarrow> 'x plan_store_scheme \<Rightarrow>
    (err + creation) \<times> (string \<times> StepResult) list \<times> 'x plan_store_scheme" where
  "createTasks x sch w execID sessionID k [] c result s = (Inr c, result, s)"
| "createTasks x sch w execID sessionID k (step # rest) c result s =
    (let prompt = resolvePrompt (Prompt step) (promptOrder sch w k result) in
     case taskRouter x (StepAgent step) sessionID prompt s of
       (Inl e, s1) \<Rightarrow>
         (Inl (ErrWrap (''step '' @ StepID step @ '': create task'') e),
          putEntry (StepID step) (noResult\<lparr>SStatus := ''FAILED'', SError := ''failed to create task: '' @ errString e\<rparr>) result, s1)
     | (Inr taskID, s1) \<Rightarrow>
         createTasks x sch w execID sessionID (Suc k) rest
           \<lparr>taskToStep = putEntry taskID (StepID step) (taskToStep c), taskIDs = taskIDs c @ [taskID]\<rparr>
           (putEntry (StepID step) (noResult\<lparr>STaskID := taskID, SStatus := ''RUNNING''\<rparr>) result)
           (publishIf (hasStore x) ''plan.step.started'' (PMap [(''execution_id'', VStr execID), (''step_id'', VStr (StepID step)),
              (''task_id'', VStr taskID)]) s1))"

definition zeroStep :: PlanStep where
  "zeroStep = \<lparr>StepID = '''', StepAgent = '''', Prompt = '''', DependsOn = [], MaxRetries = 0, RequireApproval = False, ApprovalTimeoutMs = 0\<rparr>"

text \<open>The retry of a failed task: the local \<open>retryCount\<close> starts at 0 for every task, so the task is
  repeated at most once, as attempt 2, unless \<open>MaxRetries\<close> is negative. \<open>j\<close> numbers the waits of the wave.\<close>

definition retryStep :: "'x plan_store_scheme Executor \<Rightarrow> 'x plan_store_scheme schedule \<Rightarrow> nat \<Rightarrow> string \<Rightarrow> string \<Rightarrow> nat \<Rightarrow>
    PlanStep \<Rightarrow> string \<Rightarrow> TaskResult \<Rightarrow> 'x plan_store_scheme \<Rightarrow> TaskResult \<times> 'x plan_store_scheme" where
  "retryStep x sch w execID sessionID j step stepID tr s =
    (let maxRetries = (if MaxRetries step = 0 then 2 else MaxRetries step); retryCount = (0::int) in
     if RStatus tr = ''FAILED'' \<and> retryCount < maxRetries then
       (case RetryWithError (taskRouter x) sessionID step (RError tr) (retryCount + 2) s of
          (Inl _, s1) \<Rightarrow> (tr, s1)
        | (Inr newTaskID, s1) \<Rightarrow>
            (let d = during sch w j s1;
                 (retryResults, waitErr) = WaitForAll (waiterBus x) [newTaskID] (watches d) (finishOrder d)
             in case (waitErr, map_of retryResults newTaskID) of
                  (None, Some tr') \<Rightarrow> (tr', publishIf (hasStore x) ''plan.step.retry'' (PMap [(''execution_id'', VStr execID),
                     (''step_id'', VStr stepID), (''attempt'', VInt (retryCount + 2)), (''error'', VStr (RError tr'))]) (after d))
                | _ \<Rightarrow> (tr, after d)))
     else (tr, s))"

definition stepResult :: "TaskResult \<Rightarrow> StepResult" where
  "stepResult tr = \<lparr>STaskID = RTaskID tr, SStatus = RStatus tr, SOutput = ROutput tr, SError = RError tr,
     SCostUSD = RCostUSD tr, SDurationMs = RDurationMs tr\<rparr>"

text \<open>The second loop: the results of the wave's tasks, one by one.\<close>

fun settle :: "'x plan_store_scheme Executor \<Rightarrow> 'x plan_store_scheme schedule \<Rightarrow> nat \<Rightarrow> string \<Rightarrow> string \<Rightarrow>
    (string \<times> string) list \<Rightarrow> PlanStep list \<Rightarrow> nat \<Rightarrow> (string \<times> TaskResult) list \<Rightarrow>
    (string \<times> StepResult) list \<Rightarrow> 'x plan_store_scheme \<Rightarrow> (string \<times> StepResult) list \<times> 'x plan_store_scheme" where
  "settle x sch w execID sessionID t2s steps j [] result s = (result, s)"
| "settle x sch w execID sessionID t2s steps j ((taskID, tr0) # rest) result s =
    (let stepID = coalesce (map_of t2s taskID) '''';
         step = coalesce (map_of (rev (map (\<lambda>st. (StepID st, st)) steps)) stepID) zeroStep;
         (tr, s1) = retryStep x sch w execID sessionID (Suc j) step stepID tr0 s;
         s2 = (if hasStore x then snd (RecordStepComplete (timeOf sch w) execID stepID (RStatus tr) (ROutput tr) (RError tr)
                 (RCostUSD tr) s1) else s1)
     in settle x sch w execID sessionID t2s steps (Suc j) rest (putEntry stepID (stepResult tr) result) s2)"

definition executeWave :: "'x plan_store_scheme Executor \<Rightarrow> 'x plan_store_scheme schedule \<Rightarrow> nat \<Rightarrow> string \<Rightarrow> string \<Rightarrow>
    PlanStep list \<Rightarrow> (string \<times> StepResult) list \<Rightarrow> 'x plan_store_scheme \<Rightarrow>
    err option \<times> (string \<times> StepResult) list \<times> 'x plan_store_scheme" where
  "executeWave x sch w execID sessionID steps result s =
    (case createTasks x sch w execID sessionID 0 steps \<lparr>taskToStep = [], taskIDs = []\<rparr> result s of
       (Inl e, result1, s1) \<Rightarrow> (Some e, result1, s1)
     | (Inr c, result1, s1) \<Rightarrow>
        if \<not> hasWaiter x then (None, result1, s1)
        else
          (let d = during sch w 0 s1;
               (taskResults, waitErr) = WaitForAll (waiterBus x) (taskIDs c) (watches d) (finishOrder d);
               (result2, s2) = settle x sch w execID sessionID (taskToStep c) steps 0 (taskOrder sch w taskResults) result1 (after d)
           in (map_option (ErrWrap ''wave execution'') waitErr, result2, s2)))"

section \<open>Execute and Resume\<close>

definition storeIf :: "bool \<Rightarrow> ('s \<Rightarrow> (err + 'a) \<times> 's) \<Rightarrow> 's \<Rightarrow> 's" where
  "storeIf b m s = (if b then snd (m s) else s)"

text \<open>The loop over the waves of \<open>Execute\<close>; \<open>own\<close> is \<open>!callerOwnsDB && e.store != nil\<close>.\<close>

fun runWaves :: "'x plan_store_scheme Executor \<Rightarrow> 'x plan_store_scheme schedule \<Rightarrow> string \<Rightarrow> string \<Rightarrow> bool \<Rightarrow> nat \<Rightarrow>
    PlanStep list list \<Rightarrow> (string \<times> StepResult) list \<Rightarrow> 'x plan_store_scheme \<Rightarrow>
    err option \<times> (string \<times> StepResult) list \<times> 'x plan_store_scheme" where
  "runWaves x sch execID sessionID own w [] result s = (None, result, s)"
| "runWaves x sch execID sessionID own w (wave # waves) result s =
    (if wave = [] then runWaves x sch execID sessionID own (Suc w) waves result s
     else case executeWave x sch w execID sessionID wave result s of
       (Some e, result1, s1) \<Rightarrow>
         (Some (ErrWrap (''wave '' @ itoa (int w) @ '' failed'') e), result1,
          storeIf own (CompletePlanExecution (timeOf sch w) execID ''failed''
            (TotalCost \<lparr>ExecutionID = execID, StepResults = result1\<rparr>)) s1)
     | (None, result1, s1) \<Rightarrow>
         runWaves x sch execID sessionID own (Suc w) waves result1
           (storeIf (hasStore x) (UpdatePlanWave (timeOf sch w) execID (int (Suc w))) s1))"

definition stepRecord :: "nat \<Rightarrow> nat \<Rightarrow> PlanStep \<Rightarrow> PlanExecutionStep" where
  "stepRecord waveNum stepIdx step = \<lparr>XID = '''', XExecutionID = '''', XStepID = StepID step, XStepIndex = int stepIdx,
     XWaveNumber = int waveNum, XAgentID = StepAgent step, XPrompt = Prompt step, XTaskID = '''', XStatus = '''',
     XResult = '''', XError = '''', XCostUSD = 0, XCreatedAt = CurTs 0, XCompletedAt = None\<rparr>"

definition stepRecords :: "PlanStep list list \<Rightarrow> PlanExecutionStep list" where
  "stepRecords order = concat (map (\<lambda>(waveNum, wave). map (\<lambda>(stepIdx, step). stepRecord waveNum stepIdx step) (enumerate 0 wave))
     (enumerate 0 order))"

text \<open>
  \<open>newID\<close> is what \<open>uuid.New()\<close> would draw for the execution and \<open>uuids\<close> what it draws for the step
  records; \<open>e0\<close> is the clock before the first wave. The result is the pair of Go's return values.
\<close>

definition Execute :: "'x plan_store_scheme Executor \<Rightarrow> 'x plan_store_scheme schedule \<Rightarrow> env \<Rightarrow> string \<Rightarrow> (nat \<Rightarrow> string) \<Rightarrow>
    Plan \<Rightarrow> string \<Rightarrow> string \<Rightarrow> 'x plan_store_scheme \<Rightarrow> (ExecutionResult option \<times> err option) \<times> 'x plan_store_scheme" where
  "Execute x sch e0 newID uuids plan sessionID executionID s =
    (case Validate plan of Inl e \<Rightarrow> ((None, Some (ErrWrap ''invalid plan'' e)), s)
     | Inr _ \<Rightarrow>
       (let own = (executionID = '''' \<and> hasStore x);
            execID = (if executionID = '''' then newID else executionID);
            s1 = storeIf own (CreatePlanExecution e0 execID (PlanName plan) sessionID (int (length (Steps plan)))) s
        in case topoSort (Steps plan) of
             Inl e \<Rightarrow> ((None, Some (ErrWrap ''invalid plan'' e)), storeIf own (CompletePlanExecution e0 execID ''failed'' 0) s1)
           | Inr order \<Rightarrow>
              (case (if hasStore x then InitializePlanSteps e0 uuids execID (stepRecords order) s1 else (Inr (), s1)) of
                 (Inl e, s2) \<Rightarrow> ((None, Some (ErrWrap ''initialize step records'' e)),
                                 storeIf own (CompletePlanExecution e0 execID ''failed'' 0) s2)
               | (Inr _, s2) \<Rightarrow>
                  (case runWaves x sch execID sessionID own 0 order [] s2 of
                     (Some e, result, s3) \<Rightarrow> ((Some \<lparr>ExecutionID = execID, StepResults = result\<rparr>, Some e), s3)
                   | (None, result, s3) \<Rightarrow>
                      (let r = \<lparr>ExecutionID = execID, StepResults = result\<rparr>
                       in ((Some r, None), storeIf own (CompletePlanExecution (timeOf sch (length order)) execID ''succeeded'' (TotalCost r)) s3))))))"

text \<open>
  \<open>Resume\<close>. \<open>persisted\<close> is the map \<open>stepMap\<close>: for each step id the last record read. The wave to start
  from is the stored \<open>current_wave\<close>, which only \<open>UpdatePlanWave\<close> writes and which is never negative.
\<close>

definition settled :: "PlanExecutionStep \<Rightarrow> bool" where
  "settled st \<longleftrightarrow> XStatus st = ''succeeded'' \<or> XStatus st = ''failed''"

definition persistedResults :: "PlanExecutionStep list \<Rightarrow> (string \<times> StepResult) list" where
  "persistedResults steps = foldl (\<lambda>m st. if settled st
     then putEntry (XStepID st) (noResult\<lparr>SStatus := XStatus st, SOutput := XResult st, SError := XError st, SCostUSD := XCostUSD st\<rparr>) m
     else m) [] steps"

definition pendingSteps :: "PlanExecutionStep list \<Rightarrow> PlanStep list \<Rightarrow> PlanStep list" where
  "pendingSteps steps wave = filter (\<lambda>step. \<not> (case map_of (rev (map (\<lambda>st. (XStepID st, st)) steps)) (StepID step) of
     Some persisted \<Rightarrow> settled persisted | None \<Rightarrow> False)) wave"

fun resumeWaves :: "'x plan_store_scheme Executor \<Rightarrow> 'x plan_store_scheme schedule \<Rightarrow> string \<Rightarrow> string \<Rightarrow> PlanExecutionStep list \<Rightarrow> nat \<Rightarrow>
    PlanStep list list \<Rightarrow> (string \<times> StepResult) list \<Rightarrow> 'x plan_store_scheme \<Rightarrow>
    err option \<times> (string \<times> StepResult) list \<times> 'x plan_store_scheme" where
  "resumeWaves x sch execID sessionID steps w [] result s = (None, result, s)"
| "resumeWaves x sch execID sessionID steps w (wave # waves) result s =
    (if pendingSteps steps wave = [] then resumeWaves x sch execID sessionID steps (Suc w) waves result s
     else case executeWave x sch w execID sessionID (pendingSteps steps wave) result s of
       (Some e, result1, s1) \<Rightarrow>
         (Some (ErrWrap (''wave '' @ itoa (int w) @ '' failed'') e), result1,
          storeIf (hasStore x) (CompletePlanExecution (timeOf sch w) execID ''failed''
            (TotalCost \<lparr>ExecutionID = execID, StepResults = result1\<rparr>)) s1)
     | (None, result1, s1) \<Rightarrow>
         resumeWaves x sch execID sessionID steps (Suc w) waves result1
           (storeIf (hasStore x) (UpdatePlanWave (timeOf sch w) execID (int (Suc w))) s1))"

definition Resume :: "'x plan_store_scheme Executor \<Rightarrow> 'x plan_store_scheme schedule \<Rightarrow> env \<Rightarrow> string \<Rightarrow> Plan \<Rightarrow>
    'x plan_store_scheme \<Rightarrow> (ExecutionResult option \<times> err option) \<times> 'x plan_store_scheme" where
  "Resume x sch e0 execID plan s =
    (case Validate plan of Inl e \<Rightarrow> ((None, Some (ErrWrap ''invalid plan'' e)), s)
     | Inr _ \<Rightarrow>
       if \<not> hasStore x then ((None, Some (ErrMsg ''cannot resume without store'')), s)
       else (case GetPlanExecution execID s of
          (Inl e, s1) \<Rightarrow> ((None, Some (ErrWrap ''hydrate plan execution'' e)), s1)
        | (Inr exec, s1) \<Rightarrow>
         (case GetPlanSteps execID s1 of
            (Inl e, s2) \<Rightarrow> ((None, Some (ErrWrap ''hydrate plan steps'' e)), s2)
          | (Inr steps, s2) \<Rightarrow>
           (case topoSort (Steps plan) of
              Inl e \<Rightarrow> ((None, Some (ErrWrap ''invalid plan'' e)),
                        storeIf True (CompletePlanExecution e0 execID ''failed''
                          (TotalCost \<lparr>ExecutionID = execID, StepResults = persistedResults steps\<rparr>)) s2)
            | Inr order \<Rightarrow>
              (let currentWave = nat (pe_current_wave exec) in
               case resumeWaves x sch execID (pe_session_id exec) steps currentWave (drop currentWave order) (persistedResults steps) s2 of
                 (Some e, result, s3) \<Rightarrow> ((Some \<lparr>ExecutionID = execID, StepResults = result\<rparr>, Some e), s3)
               | (None, result, s3) \<Rightarrow>
                  (let r = \<lparr>ExecutionID = execID, StepResults = result\<rparr>
                   in ((Some r, None), storeIf True (CompletePlanExecution (timeOf sch (length order)) execID ''succeeded'' (TotalCost r)) s3)))))))"

section \<open>Plans from the configuration\<close>

record PlanStepConfig =
  CStepID :: string
  CStepAgent :: string
  CPrompt :: string
  CDependsOn :: "string list"

record PlanConfig =
  CName :: string
  CSteps :: "PlanStepConfig list"

definition stepOfConfig :: "PlanStepConfig \<Rightarrow> PlanStep" where
  "stepOfConfig sc = zeroStep\<lparr>StepID := CStepID sc, StepAgent := CStepAgent sc, Prompt := CPrompt sc, DependsOn := CDependsOn sc\<rparr>"

fun stepsOfConfig :: "string list \<Rightarrow> string \<Rightarrow> PlanStepConfig list \<Rightarrow> err + PlanStep list" where
  "stepsOfConfig agents name [] = Inr []"
| "stepsOfConfig agents name (sc # rest) =
    (if CStepAgent sc \<notin> set agents
     then Inl (ErrMsg (''plan '' @ name @ '' step '' @ CStepID sc @ '': unknown agent '' @ CStepAgent sc))
     else case stepsOfConfig agents name rest of Inl e \<Rightarrow> Inl e | Inr steps \<Rightarrow> Inr (stepOfConfig sc # steps))"

fun loadPlans :: "string list \<Rightarrow> PlanConfig list \<Rightarrow> (string \<times> Plan) list \<Rightarrow> err + (string \<times> Plan) list" where
  "loadPlans agents [] plans = Inr plans"
| "loadPlans agents (pc # rest) plans =
    (if CName pc = '''' then Inl (ErrMsg ''plan has empty name'')
     else if CName pc \<in> fst ` set plans then Inl (ErrMsg (''duplicate plan name: '' @ CName pc))
     else case stepsOfConfig agents (CName pc) (CSteps pc) of
       Inl e \<Rightarrow> Inl e
     | Inr steps \<Rightarrow>
         (let plan = \<lparr>PlanName = CName pc, Steps = steps\<rparr> in
          case Validate plan of
            Inl e \<Rightarrow> Inl (ErrWrap (''plan '' @ CName pc) e)
          | Inr _ \<Rightarrow> loadPlans agents rest (plans @ [(CName pc, plan)])))"

definition LoadPlansFromConfig :: "PlanConfig list \<Rightarrow> string list \<Rightarrow> err + (string \<times> Plan) list" where
  "LoadPlansFromConfig configs knownAgents = loadPlans knownAgents configs []"

section \<open>What a wave leaves in the result\<close>

lemma map_of_updEntry:
  "map_of (map (\<lambda>(a, b). if a = k then (a, v) else (a, b)) m) j = (if j = k then map_option (\<lambda>_. v) (map_of m j) else map_of m j)"
  by (induction m) auto

lemma map_of_putEntry: "map_of (putEntry k v m) j = (if j = k then Some v else map_of m j)"
proof (cases "map_of m k")
  case None
  then have "k \<notin> fst ` set m" by (simp add: map_of_eq_None_iff)
  with None show ?thesis by (auto simp: putEntry_def map_add_def split: option.splits)
next
  case (Some u)
  then have "k \<in> fst ` set m" using map_of_eq_None_iff [of m k] by auto
  with Some show ?thesis by (simp add: putEntry_def map_of_updEntry)
qed

text \<open>A status a finished task can have.\<close>

definition finishedStatus :: "string \<Rightarrow> bool" where
  "finishedStatus st \<longleftrightarrow> st \<in> {''SUCCEEDED'', ''FAILED'', ''CANCELED'', ''DEAD_LETTER''}"

definition finished :: "(string \<times> StepResult) list \<Rightarrow> string \<Rightarrow> bool" where
  "finished result i \<longleftrightarrow> (\<exists>sr. map_of result i = Some sr \<and> finishedStatus (SStatus sr))"

lemma finished_putEntry: "finished (putEntry k v m) j \<longleftrightarrow> (if j = k then finishedStatus (SStatus v) else finished m j)"
  by (simp add: finished_def map_of_putEntry)

lemma WaitForTask_finished: "WaitForTask hb i w = Inr r \<Longrightarrow> finishedStatus (RStatus r) \<and> RTaskID r = i"
  by (auto elim!: WaitForTask_result dest!: finishedRow_Some simp: taskResult_def finishedStatus_def isTerminalStatus_def)

lemma collect_entries:
  "collect rs (m, es) = (m', es') \<Longrightarrow> (i, v) \<in> set m' \<Longrightarrow> (i, v) \<in> set m \<or> (i, Inr v) \<in> set rs"
proof (induction rs "(m, es)" arbitrary: m es rule: collect.induct)
  case (2 j r rest m es)
  then show ?case by (cases r) (fastforce simp: putEntry_def split: if_splits)+
qed auto

lemma WaitForAll_finished:
  assumes "WaitForAll hb ids ws order = (results, e)" and "(i, tr) \<in> set results"
  shows "finishedStatus (RStatus tr) \<and> RTaskID tr = i"
proof -
  obtain m es where c: "collect (map (\<lambda>k. (ids ! k, WaitForTask hb (ids ! k) (ws k))) order) ([], []) = (m, es)" by fastforce
  with assms(1) have "results = m" by (simp add: WaitForAll_def)
  with assms(2) collect_entries [OF c, of i tr] obtain k where "ids ! k = i" "WaitForTask hb (ids ! k) (ws k) = Inr tr" by auto
  then show ?thesis using WaitForTask_finished by blast
qed

lemma retryStep_finished:
  assumes "retryStep x sch w ex sid j step i tr s = (tr', s')" and "finishedStatus (RStatus tr)"
  shows "finishedStatus (RStatus tr')"
  using assms
  by (auto simp: retryStep_def Let_def split: if_splits prod.splits sum.splits option.splits
      dest!: WaitForAll_finished [OF _ map_of_SomeD])

lemma settle_finished:
  assumes "settle x sch w ex sid t2s steps j rs result s = (result', s')" and "\<forall>(i, tr)\<in>set rs. finishedStatus (RStatus tr)"
  shows "finished result' k \<longleftrightarrow> k \<in> (\<lambda>(i, tr). coalesce (map_of t2s i) '''') ` set rs \<or> finished result k"
  using assms
proof (induction rs arbitrary: j result s)
  case (Cons p rs)
  obtain i tr0 where p: "p = (i, tr0)" by force
  obtain tr s1 where r: "retryStep x sch w ex sid (Suc j) (coalesce (map_of (rev (map (\<lambda>st. (StepID st, st)) steps))
      (coalesce (map_of t2s i) '''')) zeroStep) (coalesce (map_of t2s i) '''') tr0 s = (tr, s1)" by fastforce
  from Cons.prems(2) p have "finishedStatus (RStatus tr0)" by simp
  with r have f: "finishedStatus (RStatus tr)" by (rule retryStep_finished)
  from Cons.prems(1) obtain s2 where "settle x sch w ex sid t2s steps (Suc j) rs
      (putEntry (coalesce (map_of t2s i) '''') (stepResult tr) result) s2 = (result', s')"
    by (simp add: p r Let_def)
  from Cons.IH [OF this] Cons.prems(2) p f show ?case by (auto simp: finished_putEntry stepResult_def)
qed simp

section \<open>The router's contract\<close>

text \<open>
  What the executor relies on: a router that returns an id has created a task under it, which did not
  exist before, and no call of it removes a task.
\<close>

locale chat_router =
  fixes router :: "'x plan_store_scheme router"
  assumes router_new: "router a sid p s = (Inr t, s') \<Longrightarrow> \<not> hasTask t s \<and> hasTask t s'"
    and router_keeps: "hasTask i s \<Longrightarrow> hasTask i (snd (router a sid p s))"
begin

lemma publishIf_hasTask: "hasTask i (publishIf b t p s) = hasTask i s"
  by (simp add: publishIf_def publishS_def hasTask_def split: option.splits)

lemma createTasks_spec:
  assumes "taskRouter x = router" and "createTasks x sch w ex sid k steps c result s = (Inr c', result', s')"
    and "distinct (taskIDs c)" and "\<forall>i\<in>set (taskIDs c). hasTask i s"
  shows "\<exists>new. taskIDs c' = taskIDs c @ new \<and> length new = length steps \<and> distinct (taskIDs c') \<and>
    (\<forall>j<length steps. map_of (taskToStep c') (new ! j) = Some (StepID (steps ! j))) \<and>
    (\<forall>i. i \<notin> set new \<longrightarrow> map_of (taskToStep c') i = map_of (taskToStep c) i) \<and>
    (\<forall>i. i \<notin> StepID ` set steps \<longrightarrow> map_of result' i = map_of result i)"
  using assms(2-)
proof (induction steps arbitrary: k c result s)
  case (Cons step rest)
  let ?pr = "resolvePrompt (Prompt step) (promptOrder sch w k result)"
  obtain t s1 where r: "router (StepAgent step) sid ?pr s = (Inr t, s1)"
    using Cons.prems(1) assms(1) by (auto simp: Let_def split: prod.splits sum.splits)
  let ?c = "\<lparr>taskToStep = putEntry t (StepID step) (taskToStep c), taskIDs = taskIDs c @ [t]\<rparr>"
  let ?s = "publishIf (hasStore x) ''plan.step.started'' (PMap [(''execution_id'', VStr ex), (''step_id'', VStr (StepID step)),
     (''task_id'', VStr t)]) s1"
  let ?res = "putEntry (StepID step) (noResult\<lparr>STaskID := t, SStatus := ''RUNNING''\<rparr>) result"
  have run: "createTasks x sch w ex sid (Suc k) rest ?c ?res ?s = (Inr c', result', s')"
    using Cons.prems(1) assms(1) r by (simp add: Let_def)
  have old: "\<forall>i\<in>set (taskIDs c). hasTask i s1" using Cons.prems(3) router_keeps r by (metis snd_conv)
  have t: "\<not> hasTask t s" "hasTask t s1" using router_new [OF r] by auto
  have d: "distinct (taskIDs ?c)" using Cons.prems(2,3) t(1) by auto
  have h: "\<forall>i\<in>set (taskIDs ?c). hasTask i ?s" using old t(2) by (simp add: publishIf_hasTask)
  from Cons.IH [OF run d h] obtain new where new: "taskIDs c' = taskIDs ?c @ new" "length new = length rest" "distinct (taskIDs c')"
    "\<forall>j<length rest. map_of (taskToStep c') (new ! j) = Some (StepID (rest ! j))"
    "\<forall>i. i \<notin> set new \<longrightarrow> map_of (taskToStep c') i = map_of (taskToStep ?c) i"
    "\<forall>i. i \<notin> StepID ` set rest \<longrightarrow> map_of result' i = map_of ?res i" by blast
  have tn: "t \<notin> set new" using new(1,3) by auto
  show ?case
  proof (intro exI [of _ "t # new"] conjI)
    show "\<forall>j<length (step # rest). map_of (taskToStep c') ((t # new) ! j) = Some (StepID ((step # rest) ! j))"
      using new(4,5) tn by (auto simp: nth_Cons map_of_putEntry split: nat.splits)
    show "\<forall>i. i \<notin> set (t # new) \<longrightarrow> map_of (taskToStep c') i = map_of (taskToStep c) i"
      using new(5) by (auto simp: map_of_putEntry)
    show "\<forall>i. i \<notin> StepID ` set (step # rest) \<longrightarrow> map_of result' i = map_of result i"
      using new(6) by (auto simp: map_of_putEntry)
  qed (use new in auto)
qed simp

end
section \<open>Waves and dependencies\<close>

text \<open>What the environment must respect in wave \<open>w\<close> of \<open>n\<close> steps: all goroutines of a wait finish, each once,
  and a Go map is iterated over completely.\<close>

definition fairWave :: "'s schedule \<Rightarrow> nat \<Rightarrow> nat \<Rightarrow> bool" where
  "fairWave sch w n \<longleftrightarrow>
     (\<forall>s. distinct (finishOrder (during sch w 0 s)) \<and> set (finishOrder (during sch w 0 s)) = {0..<n}) \<and>
     (\<forall>m. set (taskOrder sch w m) = set m)"

context chat_router
begin

lemma executeWave_finished:
  assumes r: "taskRouter x = router" "hasWaiter x" "fairWave sch w (length steps)"
    and ex: "executeWave x sch w ex sid steps result s = (None, result', s')"
  shows "finished result' k \<longleftrightarrow> k \<in> StepID ` set steps \<or> finished result k"
proof -
  let ?c0 = "\<lparr>taskToStep = [], taskIDs = []\<rparr>"
  from ex obtain c result1 s1 where c: "createTasks x sch w ex sid 0 steps ?c0 result s = (Inr c, result1, s1)"
    by (auto simp: executeWave_def split: prod.splits sum.splits)
  let ?d = "during sch w 0 s1"
  obtain rs e where w: "WaitForAll (waiterBus x) (taskIDs c) (watches ?d) (finishOrder ?d) = (rs, e)" by fastforce
  have st: "settle x sch w ex sid (taskToStep c) steps 0 (taskOrder sch w rs) result1 (after ?d) = (result', s')" and e: "e = None"
    using ex c w r(2) by (auto simp: executeWave_def Let_def split: prod.splits)
  from createTasks_spec [OF r(1) c] obtain new where new: "taskIDs c = new" "length new = length steps"
    "\<forall>j<length steps. map_of (taskToStep c) (new ! j) = Some (StepID (steps ! j))"
    "\<forall>i. i \<notin> StepID ` set steps \<longrightarrow> map_of result1 i = map_of result i" by auto
  have ord: "distinct (finishOrder ?d)" "set (finishOrder ?d) = {0..<length (taskIDs c)}" "set (taskOrder sch w rs) = set rs"
    using r(3) new(1,2) by (auto simp: fairWave_def)
  have all: "\<exists>q. WaitForTask (waiterBus x) (taskIDs c ! k) (watches ?d k) = Inr q" if "k < length (taskIDs c)" for k
    using WaitForAll_spec [OF w ord(1,2)] e that by blast
  have keys: "fst ` set rs = set new"
    using WaitForAll_spec [OF w ord(1,2)] all by (auto simp: new(1) in_set_conv_nth) blast
  have img: "(\<lambda>(i, tr). coalesce (map_of (taskToStep c) i) '''') ` set (taskOrder sch w rs) = StepID ` set steps"
  proof -
    have "(\<lambda>(i, tr). coalesce (map_of (taskToStep c) i) '''') ` set (taskOrder sch w rs) =
        (\<lambda>i. coalesce (map_of (taskToStep c) i) '''') ` fst ` set rs" unfolding ord(3) image_image by (rule image_cong) auto
    also have "\<dots> = set (map (\<lambda>i. coalesce (map_of (taskToStep c) i) '''') new)" unfolding keys by simp
    also have "map (\<lambda>i. coalesce (map_of (taskToStep c) i) '''') new = map StepID steps"
      by (rule nth_equalityI) (use new(2,3) in auto)
    finally show ?thesis by simp
  qed
  have fin: "\<forall>(i, tr)\<in>set (taskOrder sch w rs). finishedStatus (RStatus tr)"
    unfolding ord(3) using WaitForAll_finished [OF w] by auto
  show ?thesis using settle_finished [OF st fin, of k] new(4) unfolding img by (auto simp: finished_def)
qed

lemma runWaves_finished:
  assumes "taskRouter x = router" "hasWaiter x" "\<forall>v<length ws. fairWave sch (w + v) (length (ws ! v))"
    and "runWaves x sch ex sid own w ws result s = (None, result', s')"
  shows "finished result' k \<longleftrightarrow> k \<in> StepID ` set (concat ws) \<or> finished result k"
  using assms(3-)
proof (induction ws arbitrary: w result s)
  case (Cons wave ws)
  have fair: "\<forall>v<length ws. fairWave sch (Suc w + v) (length (ws ! v))" using Cons.prems(1) by fastforce
  show ?case
  proof (cases "wave = []")
    case True
    with Cons.prems(2) Cons.IH [OF fair] show ?thesis by simp
  next
    case False
    with Cons.prems(2) obtain result1 s1 where 1: "executeWave x sch w ex sid wave result s = (None, result1, s1)"
      and 2: "runWaves x sch ex sid own (Suc w) ws result1 (storeIf (hasStore x) (UpdatePlanWave (timeOf sch w) ex (int (Suc w))) s1) = (None, result', s')"
      by (auto split: prod.splits option.splits)
    have "fairWave sch w (length wave)" using Cons.prems(1) by (metis add.right_neutral length_Cons nth_Cons_0 zero_less_Suc)
    from executeWave_finished [OF assms(1,2) this 1, of k] Cons.IH [OF fair 2] show ?thesis by auto
  qed
qed simp

end

lemma runWaves_append:
  "runWaves x sch ex sid own w (ws @ vs) result s =
    (case runWaves x sch ex sid own w ws result s of
       (Some e, r) \<Rightarrow> (Some e, r)
     | (None, result', s') \<Rightarrow> runWaves x sch ex sid own (w + length ws) vs result' s')"
  by (induction ws arbitrary: w result s) (auto split: prod.splits option.splits)

section \<open>What reaches the step table\<close>

text \<open>No step of the execution has left the status it was created with.\<close>

definition unrecorded :: "string \<Rightarrow> 'x plan_store_scheme \<Rightarrow> bool" where
  "unrecorded ex s \<longleftrightarrow> (\<forall>r\<in>set (plan_execution_steps s). ps_execution_id r = ex \<longrightarrow> ps_status r = ''pending'')"

interpretation ur: task_frame "unrecorded ex" for ex
  by unfold_locales (auto simp: unrecorded_def split: option.splits)

lemma RecordStepComplete_unrecorded:
  assumes "unrecorded ex s" and "finishedStatus st"
  shows "unrecorded ex (snd (RecordStepComplete e ex j st res er c s))"
proof (cases "RecordStepComplete e ex j st res er c s")
  case (Pair r t)
  show ?thesis
  proof (cases r)
    case (Inl x)
    with Pair have "same_tables s t" by (auto intro: RecordStepComplete_Inl)
    with assms(1) Pair show ?thesis by (simp add: ur.I_same)
  next
    case (Inr u)
    with Pair have "RecordStepComplete e ex j st res er c s = (Inr (), t)" by simp
    then show ?thesis
    proof (rule RecordStepComplete_InrE)
      fix b fs assume t: "t = (updExecutions ex (countStep e) (updSteps ex j (completedStep e st res er c) s))\<lparr>bus := b, faults := fs\<rparr>"
        and "hasStep ex j s \<longrightarrow> st \<in> set stepStatuses"
      then have "\<not> hasStep ex j s" using assms(2) by (auto simp: finishedStatus_def stepStatuses_def)
      then have "updWhere (isStep ex j) (completedStep e st res er c) (plan_execution_steps s) = plan_execution_steps s"
        by (intro updWhere_none) (auto simp: hasStep_def)
      with assms(1) Pair t show ?thesis by (simp add: unrecorded_def updExecutions_def updSteps_def)
    qed
  qed
qed

lemma unrecorded_ops:
  "unrecorded ex s \<Longrightarrow> unrecorded ex (snd (CreatePlanExecution e i pn sid n s))"
  "unrecorded ex s \<Longrightarrow> unrecorded ex (snd (CompletePlanExecution e i st c s))"
  "unrecorded ex s \<Longrightarrow> unrecorded ex (snd (InitializePlanSteps e us i steps s))"
  "unrecorded ex s \<Longrightarrow> unrecorded ex (snd (UpdatePlanWave e i n s))"
  unfolding CreatePlanExecution_def CompletePlanExecution_def InitializePlanSteps_def UpdatePlanWave_def
  by (intro ur.frame_intros ur.execCheckCount_keeps ur.forEachS_keeps;
      auto simp: unrecorded_def updExecutions_def pendingStep_def)+

lemma unrecorded_if: "unrecorded ex s \<Longrightarrow> (\<And>s. unrecorded ex s \<Longrightarrow> unrecorded ex (snd (m s))) \<Longrightarrow> unrecorded ex (storeIf b m s)"
  "unrecorded ex s \<Longrightarrow> unrecorded ex (publishIf b t p s)"
  by (simp_all add: storeIf_def publishIf_def ur.publishS_keeps)

lemma unrecorded_complete: "unrecorded ex s \<Longrightarrow> unrecorded ex (storeIf b (CompletePlanExecution e i st c) s)"
  by (intro unrecorded_if unrecorded_ops)

text \<open>The router and the other goroutines leave the step table alone.\<close>

definition stepsPrivate :: "string \<Rightarrow> 'x plan_store_scheme Executor \<Rightarrow> 'x plan_store_scheme schedule \<Rightarrow> bool" where
  "stepsPrivate ex x sch \<longleftrightarrow>
     (\<forall>a sid p s. unrecorded ex s \<longrightarrow> unrecorded ex (snd (taskRouter x a sid p s))) \<and>
     (\<forall>w k s. unrecorded ex s \<longrightarrow> unrecorded ex (after (during sch w k s)))"

lemma createTasks_unrecorded:
  "stepsPrivate ex x sch \<Longrightarrow> unrecorded ex s \<Longrightarrow> createTasks x sch w ex sid k steps c result s = (r, result', s') \<Longrightarrow> unrecorded ex s'"
proof (induction steps arbitrary: k c result s)
  case (Cons step rest)
  obtain q s1 where q: "taskRouter x (StepAgent step) sid (resolvePrompt (Prompt step) (promptOrder sch w k result)) s = (q, s1)" by fastforce
  have s1: "unrecorded ex s1" using Cons.prems(1,2) q by (metis stepsPrivate_def snd_conv)
  show ?case
  proof (cases q)
    case (Inl e)
    with Cons.prems(3) q s1 show ?thesis by (auto simp: Let_def)
  next
    case (Inr t)
    with Cons.prems q s1 show ?thesis by (auto simp: Let_def intro: Cons.IH unrecorded_if(2))
  qed
qed auto

lemma retryStep_unrecorded:
  assumes "stepsPrivate ex x sch" and "unrecorded ex s" and "retryStep x sch w ex sid j step i tr s = (tr', s')"
  shows "unrecorded ex s'"
proof -
  have r: "unrecorded ex (snd (RetryWithError (taskRouter x) sid step er n s))" for er n
    using assms(1,2) by (auto simp: RetryWithError_def stepsPrivate_def Let_def split: prod.splits sum.splits) (metis snd_conv)+
  have d: "unrecorded ex t \<Longrightarrow> unrecorded ex (after (during sch w k t))" for k t
    using assms(1) by (simp add: stepsPrivate_def)
  show ?thesis using assms(2,3) r [of "RError tr" 2]
    by (auto simp: retryStep_def Let_def split: if_splits prod.splits sum.splits option.splits intro: unrecorded_if(2) d)
qed

lemma settle_unrecorded:
  assumes "stepsPrivate ex x sch" and "\<forall>(i, tr)\<in>set rs. finishedStatus (RStatus tr)"
  shows "unrecorded ex s \<Longrightarrow> settle x sch w ex sid t2s steps j rs result s = (result', s') \<Longrightarrow> unrecorded ex s'"
  using assms(2)
proof (induction rs arbitrary: j result s)
  case (Cons p rs)
  obtain i tr0 where p: "p = (i, tr0)" by force
  obtain tr s1 where r: "retryStep x sch w ex sid (Suc j) (coalesce (map_of (rev (map (\<lambda>st. (StepID st, st)) steps))
      (coalesce (map_of t2s i) '''')) zeroStep) (coalesce (map_of t2s i) '''') tr0 s = (tr, s1)" by fastforce
  have "finishedStatus (RStatus tr)" using r Cons.prems(3) p by (intro retryStep_finished [OF r]) simp
  moreover have "unrecorded ex s1" using assms(1) Cons.prems(1) r by (rule retryStep_unrecorded)
  ultimately have s2: "unrecorded ex (if hasStore x then snd (RecordStepComplete (timeOf sch w) ex (coalesce (map_of t2s i) '''')
      (RStatus tr) (ROutput tr) (RError tr) (RCostUSD tr) s1) else s1)"
    by (auto intro: RecordStepComplete_unrecorded)
  show ?case by (rule Cons.IH [OF s2]) (use Cons.prems(2,3) p r in \<open>auto simp: Let_def\<close>)
qed simp

lemma executeWave_unrecorded:
  assumes "stepsPrivate ex x sch" and "\<forall>w m. set (taskOrder sch w m) = set m" and "unrecorded ex s"
    and e: "executeWave x sch w ex sid steps result s = (r, result', s')"
  shows "unrecorded ex s'"
proof -
  obtain q result1 s1 where c: "createTasks x sch w ex sid 0 steps \<lparr>taskToStep = [], taskIDs = []\<rparr> result s = (q, result1, s1)"
    by (metis prod_cases3)
  have s1: "unrecorded ex s1" using assms(1,3) c by (rule createTasks_unrecorded)
  show ?thesis
  proof (cases q)
    case (Inl er)
    with c e s1 show ?thesis by (simp add: executeWave_def)
  next
    case (Inr cr)
    let ?d = "during sch w 0 s1"
    obtain rs we where w: "WaitForAll (waiterBus x) (taskIDs cr) (watches ?d) (finishOrder ?d) = (rs, we)" by fastforce
    have fin: "\<forall>(i, tr)\<in>set (taskOrder sch w rs). finishedStatus (RStatus tr)"
      using WaitForAll_finished [OF w] by (auto simp: assms(2))
    have d: "unrecorded ex (after ?d)" using assms(1) s1 by (simp add: stepsPrivate_def)
    show ?thesis
      using e c Inr s1 w by (auto simp: executeWave_def Let_def split: if_splits prod.splits intro: settle_unrecorded [OF assms(1) fin d])
  qed
qed

lemma runWaves_unrecorded:
  assumes "stepsPrivate ex x sch" and "\<forall>w m. set (taskOrder sch w m) = set m"
  shows "unrecorded ex s \<Longrightarrow> runWaves x sch ex sid own w ws result s = (r, result', s') \<Longrightarrow> unrecorded ex s'"
proof (induction ws arbitrary: w result s)
  case (Cons wave ws)
  obtain q result1 s1 where q: "executeWave x sch w ex sid wave result s = (q, result1, s1)" by (metis prod_cases3)
  have s1: "unrecorded ex s1" using assms Cons.prems(1) q by (rule executeWave_unrecorded)
  then have s2: "unrecorded ex (storeIf (hasStore x) (UpdatePlanWave (timeOf sch w) ex (1 + int w)) s1)"
    by (intro unrecorded_if unrecorded_ops)
  show ?case using Cons.prems q s1 Cons.IH [OF s2]
    by (cases q) (auto split: if_splits intro: Cons.IH unrecorded_if unrecorded_ops)
qed simp

lemma Execute_unrecorded:
  assumes "stepsPrivate ex x sch" and "\<forall>w m. set (taskOrder sch w m) = set m" and "unrecorded ex s"
    and ex: "ex = (if executionID = '''' then newID else executionID)"
  shows "unrecorded ex (snd (Execute x sch e0 newID uuids plan sid executionID s))"
proof -
  let ?own = "executionID = [] \<and> hasStore x"
  let ?s1 = "storeIf ?own (CreatePlanExecution e0 ex (PlanName plan) sid (int (length (Steps plan)))) s"
  have s1: "unrecorded ex ?s1" using assms(3) by (intro unrecorded_if unrecorded_ops)
  show ?thesis
  proof (cases "topoSort (Steps plan)")
    case (Inl er)
    then show ?thesis using s1 assms(3) unfolding Execute_def Let_def ex [symmetric]
      by (auto split: sum.splits intro: unrecorded_if unrecorded_ops)
  next
    case (Inr ord)
    obtain q s2 where i: "(if hasStore x then InitializePlanSteps e0 uuids ex (stepRecords ord) ?s1 else (Inr (), ?s1)) = (q, s2)"
      by fastforce
    then have s2: "unrecorded ex s2" using s1 unrecorded_ops(3) [OF s1, of e0 uuids ex "stepRecords ord"] by (auto split: if_splits)
    obtain r result s3 where w: "runWaves x sch ex sid ?own 0 ord [] s2 = (r, result, s3)" by (metis prod_cases3)
    have s3: "unrecorded ex s3" using assms(1,2) s2 w by (rule runWaves_unrecorded)
    show ?thesis using assms(3) s2 s3 i w unfolding Execute_def Let_def ex [symmetric] Inr sum.case
      by (auto simp: unrecorded_complete split: sum.splits option.splits)
  qed
qed
end
