(* ===== verification/Engine.thy ===== *)
theory Engine
  imports Side_Store Chat_Payload Plan_Executor
begin

text \<open>
  The execution engine (\<open>internal/engine/engine.go\<close>) and the routing of chat tasks to the engines of
  the running agents (\<open>internal/agent/registry.go\<close>).

  The record \<open>engine_store\<close> is the database together with the memory of one engine. Goroutines run
  beside each other: what the others do between two calls of the store is the function \<open>meanwhile\<close> of
  the turn, what happens while a task is processed is part of the processor. The clock and the request
  context at each call, the identifiers drawn, and what \<open>taskCtx.Err()\<close> returns where the code looks at
  it, are the other choices of a turn. The engine publishes on the bus of the store; the program opens
  both with the same bus.
\<close>

section \<open>Configuration and processor\<close>

record Config =
  CWorkerCount :: int
  CPollInterval :: int
  CTaskTimeout :: int
  CCancelCheckInterval :: int
  CMaxQueueDepth :: int
  CBus :: bool
  CAgentID :: string

text \<open>\<open>Brain\<close> is an interface; \<open>Stream\<close> calls the function it is given for every chunk.\<close>

record 's Brain =
  Respond :: "ctx \<Rightarrow> string \<Rightarrow> string \<Rightarrow> 's \<Rightarrow> (err + string) \<times> 's"
  StreamTo :: "ctx \<Rightarrow> string \<Rightarrow> string \<Rightarrow> (string \<Rightarrow> 's \<Rightarrow> (err + unit) \<times> 's) \<Rightarrow> 's \<Rightarrow> (err + unit) \<times> 's"

text \<open>The function of an \<open>EchoProcessor\<close> gives the error \<open>encoding/json\<close> reports for a text that does not decode.\<close>

datatype 's Processor =
    EchoProcessor "'s Brain option" "string \<Rightarrow> err"
  | OtherProcessor "ctx \<Rightarrow> Task \<Rightarrow> 's \<Rightarrow> (err + string) \<times> 's"

definition echoProcess :: "'s Brain option \<Rightarrow> (string \<Rightarrow> err) \<Rightarrow> ctx \<Rightarrow> Task \<Rightarrow> 's \<Rightarrow> (err + string) \<times> 's" where
  "echoProcess brain jsonError c task =
    (case decodeChatTask (TPayload task) of
       None \<Rightarrow> failS (ErrWrap ''decode payload'' (jsonError (TPayload task)))
     | Some p \<Rightarrow>
        (case brain of
           None \<Rightarrow> failS (ErrMsg ''brain not initialized'')
         | Some b \<Rightarrow> bindS (wrapS ''brain respond'' (Respond b c (TSessionID task) (PContent p)))
                     (\<lambda>reply. retS (encodeChatResult reply))))"

definition Process :: "'s Processor \<Rightarrow> ctx \<Rightarrow> Task \<Rightarrow> 's \<Rightarrow> (err + string) \<times> 's" where
  "Process p = (case p of EchoProcessor b j \<Rightarrow> echoProcess b j | OtherProcessor f \<Rightarrow> f)"

record 's Engine =
  eproc :: "'s Processor"
  hasPolicy :: bool
  config :: Config

definition millisecond :: int where "millisecond = 10^6"

definition NewEngine :: "(string \<Rightarrow> err) \<Rightarrow> 's Processor option \<Rightarrow> Config \<Rightarrow> bool \<Rightarrow> 's Engine" where
  "NewEngine jsonError p cfg pol =
    (let cfg1 = (if CWorkerCount cfg \<le> 0 then cfg\<lparr>CWorkerCount := 4\<rparr> else cfg);
         cfg2 = (if CPollInterval cfg1 \<le> 0 then cfg1\<lparr>CPollInterval := 100 * millisecond\<rparr> else cfg1);
         cfg3 = (if CTaskTimeout cfg2 \<le> 0 then cfg2\<lparr>CTaskTimeout := 600000 * millisecond\<rparr> else cfg2);
         cfg4 = (if CCancelCheckInterval cfg3 \<le> 0 then cfg3\<lparr>CCancelCheckInterval := 10000 * millisecond\<rparr> else cfg3)
     in \<lparr>eproc = (case p of None \<Rightarrow> EchoProcessor None jsonError | Some q \<Rightarrow> q), hasPolicy = pol, config = cfg4\<rparr>)"

abbreviation engineAgent :: "'s Engine \<Rightarrow> string" where
  "engineAgent en \<equiv> CAgentID (config en)"

section \<open>The engine's memory\<close>

text \<open>\<open>cancels\<close> holds the keys of the map of cancel functions.\<close>

record engine_store = side_store +
  cancels :: "string list"
  activeTasks :: int
  lastError :: "string option"

record EngineStatus =
  StAgentID :: string
  StWorkerCount :: int
  StActiveTasks :: int
  StLastError :: string

definition Status_of :: "'s Engine \<Rightarrow> 'x engine_store_scheme \<Rightarrow> EngineStatus" where
  "Status_of en s = \<lparr>StAgentID = engineAgent en, StWorkerCount = CWorkerCount (config en), StActiveTasks = activeTasks s,
     StLastError = coalesce (lastError s) ''''\<rparr>"

definition setLastError :: "err \<Rightarrow> 'x engine_store_scheme \<Rightarrow> 'x engine_store_scheme" where
  "setLastError er s = s\<lparr>lastError := Some (errString er)\<rparr>"

text \<open>\<open>if err := f(); err != nil { e.setLastError(fmt.Errorf("p: %w", err)) }\<close>.\<close>

definition noteError :: "string \<Rightarrow> (err + 'a) \<times> 'x engine_store_scheme \<Rightarrow> 'x engine_store_scheme" where
  "noteError p rs = (case rs of (Inl er, s) \<Rightarrow> setLastError (ErrWrap p er) s | (Inr _, s) \<Rightarrow> s)"

definition publishEvent :: "'s Engine \<Rightarrow> string \<Rightarrow> (string \<times> string) list \<Rightarrow> 'x store_scheme \<Rightarrow> 'x store_scheme" where
  "publishEvent en topic kvs s =
    (if CBus (config en)
     then snd (publishS topic (PStrMap (kvs @ (if engineAgent en \<noteq> '''' then [(''agent_id'', engineAgent en)] else []))) s)
     else s)"

definition taskKeys :: "Task \<Rightarrow> (string \<times> string) list" where
  "taskKeys task = [(''task_id'', ID task), (''session_id'', TSessionID task)]"

section \<open>A turn of a worker\<close>

datatype ctxErr = DeadlineExceeded | Canceled

definition ctxErrValue :: "ctxErr \<Rightarrow> err" where
  "ctxErrValue c = ErrMsg (case c of DeadlineExceeded \<Rightarrow> ''context deadline exceeded'' | Canceled \<Rightarrow> ''context canceled'')"

text \<open>
  \<open>startErr\<close>, \<open>errFirst\<close> and \<open>errSecond\<close> are what \<open>taskCtx.Err()\<close> returns before processing, at the first
  and at the second look after it. Once an error is set it does not change, so a second look that
  follows an error needs no name of its own.
\<close>

record 's turn =
  clock :: "nat \<Rightarrow> env"
  meanwhile :: "nat \<Rightarrow> 's \<Rightarrow> 's"
  leaseID :: string
  traceOf :: string
  runOf :: string
  polVersion :: string
  startErr :: "ctxErr option"
  errFirst :: "ctxErr option"
  errSecond :: "ctxErr option"

text \<open>\<open>bgCtx\<close>: the trace and run ids, and no cancellation.\<close>

definition bgEnv :: "'s turn \<Rightarrow> nat \<Rightarrow> env" where
  "bgEnv t k = (clock t k)\<lparr>ctxOf := WithRunID (WithTraceID background (traceOf t)) (runOf t), ctxDone := (\<lambda>_ _. None)\<rparr>"

definition taskContext :: "'s Engine \<Rightarrow> 's turn \<Rightarrow> Task \<Rightarrow> ctx" where
  "taskContext en t task =
    (let c = WithRunID (WithTraceID (ctxOf (clock t 4)) (traceOf t)) (runOf t);
         c1 = WithSessionID (WithAgentID (WithTaskID c (ID task)) (engineAgent en)) (TSessionID task)
     in case decodeChatTask (TPayload task) of
          Some p \<Rightarrow> if 0 < PMessageDepth p then WithMessageDepth c1 (PMessageDepth p) else c1
        | None \<Rightarrow> c1)"

definition abortRun :: "'x engine_store_scheme turn \<Rightarrow> nat \<Rightarrow> Task \<Rightarrow> 'x engine_store_scheme \<Rightarrow> 'x engine_store_scheme" where
  "abortRun t k task s = snd (AbortTask (bgEnv t k) (ID task) (meanwhile t k s))"

definition failRun :: "'x engine_store_scheme turn \<Rightarrow> Task \<Rightarrow> err \<Rightarrow> 'x engine_store_scheme \<Rightarrow> 'x engine_store_scheme" where
  "failRun t task er s = snd (HandleTaskFailure (bgEnv t 7) (ID task) (errString er) (meanwhile t 7 (setLastError er s)))"

text \<open>The update of the delegation a task belongs to, by \<open>upd\<close>; an error of it is only logged.\<close>

definition updateDelegation :: "'x engine_store_scheme turn \<Rightarrow> Task \<Rightarrow>
    (string \<Rightarrow> 'x engine_store_scheme \<Rightarrow> (err + unit) \<times> 'x engine_store_scheme) \<Rightarrow> 'x engine_store_scheme \<Rightarrow> 'x engine_store_scheme" where
  "updateDelegation t task upd s =
    (case GetDelegationByTaskID (ID task) (meanwhile t 8 s) of
       (Inr d, s1) \<Rightarrow> snd (upd (DelegID d) (meanwhile t 9 s1))
     | (Inl _, s1) \<Rightarrow> s1)"

definition processFailed :: "'x engine_store_scheme Engine \<Rightarrow> 'x engine_store_scheme turn \<Rightarrow> Task \<Rightarrow> err \<Rightarrow>
    'x engine_store_scheme \<Rightarrow> 'x engine_store_scheme" where
  "processFailed en t task er s =
    (if errFirst t = Some DeadlineExceeded then
       publishEvent en ''task.failed'' (taskKeys task)
         (failRun t task (ErrWrap ''task timeout exceeded'' (ctxErrValue DeadlineExceeded)) s)
     else if errSecond t = Some Canceled then abortRun t 7 task s
     else publishEvent en ''task.failed'' (taskKeys task) (failRun t task er s))"

definition recordReply :: "'x engine_store_scheme Engine \<Rightarrow> 'x engine_store_scheme turn \<Rightarrow> Task \<Rightarrow> string \<Rightarrow>
    'x engine_store_scheme \<Rightarrow> 'x engine_store_scheme" where
  "recordReply en t task result s =
    (case decodeChatResult result of
       Some reply \<Rightarrow> if reply \<noteq> '''' then snd (AddHistory (bgEnv t 10) (TSessionID task) (engineAgent en) ''assistant'' reply
           (int (EstimateTokens reply)) (meanwhile t 10 s)) else s
     | None \<Rightarrow> s)"

definition processSucceeded :: "'x engine_store_scheme Engine \<Rightarrow> 'x engine_store_scheme turn \<Rightarrow> Task \<Rightarrow> string \<Rightarrow>
    'x engine_store_scheme \<Rightarrow> 'x engine_store_scheme" where
  "processSucceeded en t task result s =
    (case errFirst t of
       Some Canceled \<Rightarrow> publishEvent en ''task.canceled'' (taskKeys task) (abortRun t 7 task s)
     | Some DeadlineExceeded \<Rightarrow>
        (let er = ErrWrap ''skip complete after context end'' (ctxErrValue DeadlineExceeded) in
         publishEvent en ''task.failed'' (taskKeys task)
           (updateDelegation t task (\<lambda>i. FailDelegation (bgEnv t 9) i (errString er)) (failRun t task er s)))
     | None \<Rightarrow>
        (case CompleteTask (bgEnv t 7) (ID task) result (meanwhile t 7 s) of
           (Inl er, s1) \<Rightarrow> setLastError (ErrWrap ''complete task'' er) s1
         | (Inr _, s1) \<Rightarrow>
            recordReply en t task result
              (publishEvent en ''task.succeeded'' (taskKeys task)
                (updateDelegation t task (\<lambda>i. CompleteDelegation (bgEnv t 9) i result) s1))))"

definition cancelSeen :: "'x engine_store_scheme turn \<Rightarrow> Task \<Rightarrow> 'x engine_store_scheme \<Rightarrow> bool \<times> 'x engine_store_scheme" where
  "cancelSeen t task s =
    (if startErr t \<noteq> None then (True, s)
     else case IsCancelRequested (ID task) (meanwhile t 4 s) of (Inr b, s1) \<Rightarrow> (b, s1) | (Inl _, s1) \<Rightarrow> (False, s1))"

definition runTask :: "'x engine_store_scheme Engine \<Rightarrow> 'x engine_store_scheme turn \<Rightarrow> Task \<Rightarrow>
    'x engine_store_scheme \<Rightarrow> 'x engine_store_scheme" where
  "runTask en t task s =
    (let (cancelled, s1) = cancelSeen t task s in
     if cancelled then publishEvent en ''task.canceled'' (taskKeys task) (abortRun t 5 task s1)
     else case Process (eproc en) (taskContext en t task) task (meanwhile t 6 s1) of
            (Inl er, s2) \<Rightarrow> processFailed en t task er s2
          | (Inr result, s2) \<Rightarrow> processSucceeded en t task result s2)"

definition handleTask :: "'x engine_store_scheme Engine \<Rightarrow> 'x engine_store_scheme turn \<Rightarrow> Task \<Rightarrow>
    'x engine_store_scheme \<Rightarrow> 'x engine_store_scheme" where
  "handleTask en t task s =
    (let s1 = s\<lparr>activeTasks := activeTasks s + 1, cancels := List.insert (ID task) (cancels s)\<rparr>;
         s2 = runTask en t task s1
     in s2\<lparr>cancels := removeAll (ID task) (cancels s2), activeTasks := activeTasks s2 - 1\<rparr>)"

text \<open>A tick of the heartbeat goroutine; \<open>True\<close> when it calls \<open>cancel()\<close> and ends.\<close>

definition heartbeatTick :: "env \<Rightarrow> Task \<Rightarrow> 'x engine_store_scheme \<Rightarrow> bool \<times> 'x engine_store_scheme" where
  "heartbeatTick e task s =
    (case IsCancelRequested (ID task) s of
       (Inr True, s1) \<Rightarrow> (True, s1)
     | (_, s1) \<Rightarrow>
        (case HeartbeatLease e (ID task) (LeaseOwner task) s1 of
           (Inl er, s2) \<Rightarrow> (False, setLastError (ErrWrap ''lease heartbeat'' er) s2)
         | (Inr ok, s2) \<Rightarrow>
            (False, if \<not> ok then setLastError (ErrMsg (''lease heartbeat rejected for task '' @ ID task)) s2 else s2)))"

text \<open>One iteration of the loop of \<open>worker\<close>, after the check that the engine's context is not done.\<close>

definition workerTurn :: "'x engine_store_scheme Engine \<Rightarrow> 'x engine_store_scheme turn \<Rightarrow>
    'x engine_store_scheme \<Rightarrow> 'x engine_store_scheme" where
  "workerTurn en t s =
    (let s1 = noteError ''requeue expired leases'' (RequeueExpiredLeases (clock t 0) (meanwhile t 0 s));
         s2 = noteError ''age queued priorities'' (AgeQueuedPriorities (clock t 1) (30 * second) 10 (meanwhile t 1 s1));
         claimed = (if engineAgent en \<noteq> '''' then ClaimNextPendingTaskForAgent (clock t 2) (leaseID t) (engineAgent en) (meanwhile t 2 s2)
                    else ClaimNextPendingTask (clock t 2) (leaseID t) (meanwhile t 2 s2))
     in case claimed of
          (Inl er, s3) \<Rightarrow> setLastError er s3
        | (Inr None, s3) \<Rightarrow> s3
        | (Inr (Some task), s3) \<Rightarrow>
           (let policyVer = (if hasPolicy en then polVersion t else '''') in
            case StartTaskRun (clock t 3) (ID task) (LeaseOwner task) policyVer (meanwhile t 3 s3) of
              (Inl er, s4) \<Rightarrow> setLastError (ErrWrap ''start task run'' er) s4
            | (Inr _, s4) \<Rightarrow> handleTask en t (task\<lparr>Status := TaskStatusRunning\<rparr>) s4))"

text \<open>The turns of a worker until the engine's context is done, and \<open>Start\<close> with one worker; the turns
  of other workers are part of \<open>meanwhile\<close>.\<close>

definition worker :: "'x engine_store_scheme Engine \<Rightarrow> 'x engine_store_scheme turn list \<Rightarrow>
    'x engine_store_scheme \<Rightarrow> 'x engine_store_scheme" where
  "worker en ts s = foldl (\<lambda>s t. workerTurn en t s) s ts"

definition StartEngine :: "'x engine_store_scheme Engine \<Rightarrow> env \<Rightarrow> (ts \<Rightarrow> ts) \<Rightarrow> 'x engine_store_scheme turn list \<Rightarrow>
    'x engine_store_scheme \<Rightarrow> 'x engine_store_scheme" where
  "StartEngine en e scanText ts s = worker en ts (snd (RecoverRunningTasks e scanText s))"

definition AbortEngineTask :: "env \<Rightarrow> string \<Rightarrow> 'x engine_store_scheme \<Rightarrow> (err + bool) \<times> 'x engine_store_scheme" where
  "AbortEngineTask e taskID s =
    (let ok = taskID \<in> set (cancels s) in
     case AbortTask e taskID s of
       (Inl er, s1) \<Rightarrow> (Inl (ErrWrap ''abort task'' er), setLastError (ErrWrap ''abort task'' er) s1)
     | (Inr aborted, s1) \<Rightarrow> (Inr (aborted \<or> ok), s1))"

section \<open>Intake\<close>

definition ErrQueueSaturated :: err where
  "ErrQueueSaturated = ErrMsg ''queue saturated: backpressure applied''"

definition queueDepthOf :: "string \<Rightarrow> 'x store_scheme \<Rightarrow> (err + nat) \<times> 'x store_scheme" where
  "queueDepthOf agentID = (if agentID \<noteq> '''' then QueueDepthForAgent agentID else QueueDepth)"

definition backpressure :: "int \<Rightarrow> string \<Rightarrow> 'x store_scheme \<Rightarrow> (err + unit) \<times> 'x store_scheme" where
  "backpressure maxDepth agentID =
    (if 0 < maxDepth then
       bindS (wrapS ''check queue depth'' (queueDepthOf agentID))
         (\<lambda>depth. if int depth \<ge> maxDepth then failS ErrQueueSaturated else retS ())
     else retS ())"

definition insertChatTask :: "env \<Rightarrow> string \<Rightarrow> string \<Rightarrow> string \<Rightarrow> chatTaskPayload \<Rightarrow> 'x store_scheme \<Rightarrow> (err + string) \<times> 'x store_scheme" where
  "insertChatTask e newID agentID sessionID p =
    (if agentID \<noteq> '''' then CreateTaskForAgent e newID agentID sessionID (encodeChatTask p)
     else CreateTask e newID sessionID (encodeChatTask p))"

definition createChatTaskWithDepth :: "'s Engine \<Rightarrow> (string \<Rightarrow> err option) \<Rightarrow> env \<Rightarrow> string \<Rightarrow> string \<Rightarrow> string \<Rightarrow> string \<Rightarrow> int \<Rightarrow>
    'x store_scheme \<Rightarrow> (err + string) \<times> 'x store_scheme" where
  "createChatTaskWithDepth en uuidParse e newID agentID sessionID content messageDepth =
    bindS (backpressure (CMaxQueueDepth (config en)) agentID)
    (\<lambda>_. bindS (wrapS ''create chat task: ensure session'' (EnsureSession uuidParse e sessionID))
    (\<lambda>_. bindS (wrapS ''create chat task: add history'' (AddHistory e sessionID agentID ''user'' content (int (EstimateTokens content))))
    (\<lambda>_. insertChatTask e newID agentID sessionID \<lparr>PContent = content, PMessageDepth = messageDepth\<rparr>)))"

definition createChatTask :: "'s Engine \<Rightarrow> (string \<Rightarrow> err option) \<Rightarrow> env \<Rightarrow> string \<Rightarrow> string \<Rightarrow> string \<Rightarrow> string \<Rightarrow>
    'x store_scheme \<Rightarrow> (err + string) \<times> 'x store_scheme" where
  "createChatTask en uuidParse e newID agentID sessionID content = createChatTaskWithDepth en uuidParse e newID agentID sessionID content 0"

definition CreateChatTask :: "'s Engine \<Rightarrow> (string \<Rightarrow> err option) \<Rightarrow> env \<Rightarrow> string \<Rightarrow> string \<Rightarrow> string \<Rightarrow>
    'x store_scheme \<Rightarrow> (err + string) \<times> 'x store_scheme" where
  "CreateChatTask en uuidParse e newID sessionID content = createChatTask en uuidParse e newID (engineAgent en) sessionID content"

definition CreateChatTaskForAgent :: "'s Engine \<Rightarrow> (string \<Rightarrow> err option) \<Rightarrow> env \<Rightarrow> string \<Rightarrow> string \<Rightarrow> string \<Rightarrow> string \<Rightarrow>
    'x store_scheme \<Rightarrow> (err + string) \<times> 'x store_scheme" where
  "CreateChatTaskForAgent en uuidParse e newID agentID sessionID content = createChatTask en uuidParse e newID agentID sessionID content"

definition CreateMessageTaskForAgent :: "'s Engine \<Rightarrow> (string \<Rightarrow> err option) \<Rightarrow> env \<Rightarrow> string \<Rightarrow> string \<Rightarrow> string \<Rightarrow> string \<Rightarrow> int \<Rightarrow>
    'x store_scheme \<Rightarrow> (err + string) \<times> 'x store_scheme" where
  "CreateMessageTaskForAgent en uuidParse e newID agentID sessionID content depth =
    createChatTaskWithDepth en uuidParse e newID agentID sessionID content depth"

section \<open>Streaming\<close>

text \<open>\<open>wrappedOnChunk\<close>: every chunk is also published.\<close>

definition wrappedOnChunk :: "'s Engine \<Rightarrow> string \<Rightarrow> string \<Rightarrow> (string \<Rightarrow> 'x store_scheme \<Rightarrow> (err + unit) \<times> 'x store_scheme) \<Rightarrow>
    string \<Rightarrow> 'x store_scheme \<Rightarrow> (err + unit) \<times> 'x store_scheme" where
  "wrappedOnChunk en taskID agentID onChunk token s =
    onChunk token (if CBus (config en) then snd (publishS ''stream.token'' (PStreamToken taskID agentID token) s) else s)"

text \<open>The part after the task is created; \<open>bg1\<close> is the background context of the call, \<open>c\<close> the task's. \<open>New\<close>
  leaves no engine without a processor, so the code's check for a nil one finds nothing.\<close>

definition streamRun :: "'x engine_store_scheme Engine \<Rightarrow> env \<Rightarrow> ctx \<Rightarrow> string \<Rightarrow> string \<Rightarrow> string \<Rightarrow> string \<Rightarrow>
    (string \<Rightarrow> 'x engine_store_scheme \<Rightarrow> (err + unit) \<times> 'x engine_store_scheme) \<Rightarrow> 'x engine_store_scheme \<Rightarrow>
    (string \<times> err option) \<times> 'x engine_store_scheme" where
  "streamRun en bg1 c taskID agentID sessionID content onChunk s =
    (case (case eproc en of EchoProcessor b _ \<Rightarrow> b | OtherProcessor _ \<Rightarrow> None) of
       None \<Rightarrow> ((taskID, Some (ErrMsg ''brain not available for streaming'')),
                snd (HandleTaskFailure bg1 taskID ''brain not available for streaming'' s))
     | Some b \<Rightarrow>
        (case StreamTo b c sessionID content (wrappedOnChunk en taskID agentID onChunk) s of
           (Inl er, s1) \<Rightarrow> ((taskID, None), snd (HandleTaskFailure bg1 taskID (errString er) s1))
         | (Inr _, s1) \<Rightarrow>
            (let s2 = (if CBus (config en) then snd (publishS ''stream.done'' (PStreamDone taskID agentID) s1) else s1)
             in ((taskID, None), snd (CompleteTask bg1 taskID ''{\"reply\": \"streamed\"}'' s2)))))"

definition streamChatTask :: "'x engine_store_scheme Engine \<Rightarrow> (string \<Rightarrow> err option) \<Rightarrow> env \<Rightarrow> env \<Rightarrow> string \<Rightarrow> string \<Rightarrow> string \<Rightarrow>
    string \<Rightarrow> string \<Rightarrow> string \<Rightarrow> (string \<Rightarrow> 'x engine_store_scheme \<Rightarrow> (err + unit) \<times> 'x engine_store_scheme) \<Rightarrow>
    'x engine_store_scheme \<Rightarrow> (string \<times> err option) \<times> 'x engine_store_scheme" where
  "streamChatTask en uuidParse e e1 newID traceID runID agentID sessionID content onChunk s =
    (case bindS (backpressure (CMaxQueueDepth (config en)) agentID)
          (\<lambda>_. bindS (wrapS ''stream chat task: ensure session'' (EnsureSession uuidParse e sessionID))
          (\<lambda>_. bindS (wrapS ''stream chat task: add history'' (AddHistory e sessionID agentID ''user'' content (int (EstimateTokens content))))
          (\<lambda>_. wrapS ''stream chat task: create task''
                 (insertChatTask e newID agentID sessionID \<lparr>PContent = content, PMessageDepth = 0\<rparr>)))) s of
       (Inl er, s1) \<Rightarrow> (('''', Some er), s1)
     | (Inr taskID, s1) \<Rightarrow>
        (let bg1 = e1\<lparr>ctxOf := WithRunID (WithTraceID background traceID) runID, ctxDone := (\<lambda>_ _. None)\<rparr>;
             c = WithSessionID (WithAgentID (WithTaskID (ctxOf e) taskID) agentID) sessionID
         in streamRun en bg1 c taskID agentID sessionID content onChunk s1))"

definition StreamChatTask :: "'x engine_store_scheme Engine \<Rightarrow> (string \<Rightarrow> err option) \<Rightarrow> env \<Rightarrow> env \<Rightarrow> string \<Rightarrow> string \<Rightarrow> string \<Rightarrow>
    string \<Rightarrow> string \<Rightarrow> (string \<Rightarrow> 'x engine_store_scheme \<Rightarrow> (err + unit) \<times> 'x engine_store_scheme) \<Rightarrow>
    'x engine_store_scheme \<Rightarrow> (string \<times> err option) \<times> 'x engine_store_scheme" where
  "StreamChatTask en uuidParse e e1 newID traceID runID sessionID content onChunk =
    streamChatTask en uuidParse e e1 newID traceID runID (engineAgent en) sessionID content onChunk"

definition StreamChatTaskForAgent :: "'x engine_store_scheme Engine \<Rightarrow> (string \<Rightarrow> err option) \<Rightarrow> env \<Rightarrow> env \<Rightarrow> string \<Rightarrow> string \<Rightarrow> string \<Rightarrow>
    string \<Rightarrow> string \<Rightarrow> string \<Rightarrow> (string \<Rightarrow> 'x engine_store_scheme \<Rightarrow> (err + unit) \<times> 'x engine_store_scheme) \<Rightarrow>
    'x engine_store_scheme \<Rightarrow> (string \<times> err option) \<times> 'x engine_store_scheme" where
  "StreamChatTaskForAgent en uuidParse e e1 newID traceID runID agentID sessionID content onChunk =
    streamChatTask en uuidParse e e1 newID traceID runID agentID sessionID content onChunk"

section \<open>Routing to the running agents\<close>

text \<open>The registry's map from agent ids to running engines.\<close>

type_synonym 's registry = "(string \<times> 's Engine) list"

definition runningNotFound :: "string \<Rightarrow> err" where
  "runningNotFound agentID = ErrMsg (''agent '' @ quoteGo agentID @ '' not found'')"

definition RegistryCreateChatTask :: "'s registry \<Rightarrow> (string \<Rightarrow> err option) \<Rightarrow> env \<Rightarrow> string \<Rightarrow> string \<Rightarrow> string \<Rightarrow> string \<Rightarrow>
    'x store_scheme \<Rightarrow> (err + string) \<times> 'x store_scheme" where
  "RegistryCreateChatTask reg uuidParse e newID agentID sessionID content =
    (case map_of reg agentID of
       None \<Rightarrow> failS (runningNotFound agentID)
     | Some en \<Rightarrow> CreateChatTaskForAgent en uuidParse e newID agentID sessionID content)"

definition RegistryCreateMessageTask :: "'s registry \<Rightarrow> (string \<Rightarrow> err option) \<Rightarrow> env \<Rightarrow> string \<Rightarrow> string \<Rightarrow> string \<Rightarrow> string \<Rightarrow> int \<Rightarrow>
    'x store_scheme \<Rightarrow> (err + string) \<times> 'x store_scheme" where
  "RegistryCreateMessageTask reg uuidParse e newID agentID sessionID content depth =
    (case map_of reg agentID of
       None \<Rightarrow> failS (runningNotFound agentID)
     | Some en \<Rightarrow> CreateMessageTaskForAgent en uuidParse e newID agentID sessionID content depth)"

definition RegistryStreamChatTask :: "'x engine_store_scheme registry \<Rightarrow> (string \<Rightarrow> err option) \<Rightarrow> env \<Rightarrow> env \<Rightarrow> string \<Rightarrow> string \<Rightarrow> string \<Rightarrow>
    string \<Rightarrow> string \<Rightarrow> string \<Rightarrow> (string \<Rightarrow> 'x engine_store_scheme \<Rightarrow> (err + unit) \<times> 'x engine_store_scheme) \<Rightarrow>
    'x engine_store_scheme \<Rightarrow> (string \<times> err option) \<times> 'x engine_store_scheme" where
  "RegistryStreamChatTask reg uuidParse e e1 newID traceID runID agentID sessionID content onChunk s =
    (case map_of reg agentID of
       None \<Rightarrow> (('''', Some (runningNotFound agentID)), s)
     | Some en \<Rightarrow> StreamChatTaskForAgent en uuidParse e e1 newID traceID runID agentID sessionID content onChunk s)"

definition RegistryAgentStatus :: "'s registry \<Rightarrow> string \<Rightarrow> 'x engine_store_scheme \<Rightarrow> err + EngineStatus" where
  "RegistryAgentStatus reg agentID s =
    (case map_of reg agentID of None \<Rightarrow> Inl (runningNotFound agentID) | Some en \<Rightarrow> Inr (Status_of en s))"

text \<open>\<open>AbortTask\<close> of the registry; the task is looked up to find the engine that runs it, and \<open>GetTask\<close>
  reports a missing task as an error. The engine state of the record is the one of that engine.\<close>

definition RegistryAbortTask :: "'s registry \<Rightarrow> env \<Rightarrow> string \<Rightarrow> 'x engine_store_scheme \<Rightarrow> (err + bool) \<times> 'x engine_store_scheme" where
  "RegistryAbortTask reg e taskID =
    bindS (GetTask taskID)
    (\<lambda>task. case map_of reg (TAgentID task) of None \<Rightarrow> AbortTask e taskID | Some _ \<Rightarrow> AbortEngineTask e taskID)"

end
