(* ===== verification/Engine_Run.thy ===== *)
theory Engine_Run
  imports Engine Task_Outcomes
begin

text \<open>
  What the engine guarantees: it moves tasks along the transition table only, completes a task only
  while its context is alive, and accepts chat tasks up to the configured depth.
\<close>

section \<open>What the engine keeps\<close>

text \<open>
  The contract between the engine and a property of the database: the operations of the task queue keep
  it, and it does not depend on delegations, the bus or the engine's memory. Every entry point of the
  engine keeps such a property, provided the processor and the other goroutines do.
\<close>

locale store_property =
  fixes I :: "'x engine_store_scheme \<Rightarrow> bool"
  assumes I_step: "store_step s t \<Longrightarrow> I s \<Longrightarrow> I t"
    and I_delegations: "I (s\<lparr>delegations := ds\<rparr>) \<longleftrightarrow> I s"
    and I_bus: "I (s\<lparr>bus := b\<rparr>) \<longleftrightarrow> I s"
    and I_memory: "I (s\<lparr>cancels := cs\<rparr>) \<longleftrightarrow> I s" "I (s\<lparr>activeTasks := n\<rparr>) \<longleftrightarrow> I s" "I (s\<lparr>lastError := er\<rparr>) \<longleftrightarrow> I s"
begin

sublocale table_invariant I
proof
  fix s fs
  have "I (s\<lparr>faults := fs\<rparr>)" if "I s" for s fs
    using store_step.environment that by (rule I_step)
  from this [of s fs] this [of "s\<lparr>faults := fs\<rparr>" "faults s"] show "I (s\<lparr>faults := fs\<rparr>) \<longleftrightarrow> I s" by auto
qed

text \<open>The other goroutines keep the property, and the processor does.\<close>

definition calm :: "'x engine_store_scheme turn \<Rightarrow> bool" where
  "calm t \<longleftrightarrow> (\<forall>k s. I s \<longrightarrow> I (meanwhile t k s))"

definition careful :: "'x engine_store_scheme Processor \<Rightarrow> bool" where
  "careful p \<longleftrightarrow> (\<forall>c task s. I s \<longrightarrow> I (snd (Process p c task s)))"

lemma calmD: "calm t \<Longrightarrow> I s \<Longrightarrow> I (meanwhile t k s)"
  by (simp add: calm_def)

lemma carefulD: "careful p \<Longrightarrow> I s \<Longrightarrow> I (snd (Process p c task s))"
  by (simp add: careful_def)

lemma publishS_I: "I (snd (publishS topic p s)) \<longleftrightarrow> I s"
  by (simp add: publishS_def I_bus split: option.splits)

lemma publishEvent_I: "I (publishEvent en topic kvs s) \<longleftrightarrow> I s"
  by (simp add: publishEvent_def publishS_I)

lemma setLastError_I: "I (setLastError er s) \<longleftrightarrow> I s"
  by (simp add: setLastError_def I_memory)

lemma noteError_I: "I (noteError p rs) \<longleftrightarrow> I (snd rs)"
  by (cases rs) (simp add: noteError_def setLastError_I split: sum.splits)

lemmas store_ops = I_step [OF store_step.ensure_session] I_step [OF store_step.add_history] I_step [OF store_step.create_task]
  I_step [OF store_step.claim] I_step [OF store_step.start_run] I_step [OF store_step.heartbeat] I_step [OF store_step.requeue_expired]
  I_step [OF store_step.age_priorities] I_step [OF store_step.complete] I_step [OF store_step.handle_failure] I_step [OF store_step.abort]
  I_step [OF store_step.recover]

lemma delegation_ops:
  "I s \<Longrightarrow> I (snd (CompleteDelegation e i r s))" "I s \<Longrightarrow> I (snd (FailDelegation e i r s))"
  unfolding CompleteDelegation_def FailDelegation_def updDelegation_def by (auto intro!: execS_keeps simp: I_delegations)

lemma engine_queries:
  "I s \<Longrightarrow> I (snd (IsCancelRequested i s))" "I s \<Longrightarrow> I (snd (GetDelegationByTaskID i s))"
  "I s \<Longrightarrow> I (snd (queueDepthOf a s))"
  unfolding IsCancelRequested_def GetDelegationByTaskID_def queueDepthOf_def QueueDepth_def QueueDepthForAgent_def
  by (auto intro!: bindS_keeps queryRow_keeps queryS_keeps wrapS_keeps simp: retS_def)

lemma result_I: "m s = (r, s') \<Longrightarrow> I (snd (m s)) \<Longrightarrow> I s'"
  by simp

lemma abortRun_I: "calm t \<Longrightarrow> I s \<Longrightarrow> I (abortRun t k task s)"
  by (simp add: abortRun_def store_ops calmD)

lemma failRun_I: "calm t \<Longrightarrow> I s \<Longrightarrow> I (failRun t task er s)"
  by (simp add: failRun_def store_ops calmD setLastError_I)

lemma updateDelegation_I:
  assumes m: "calm t" and u: "\<And>i s. I s \<Longrightarrow> I (snd (upd i s))" and s: "I s"
  shows "I (updateDelegation t task upd s)"
proof -
  have "I (snd (GetDelegationByTaskID (ID task) (meanwhile t 8 s)))" using m s by (simp add: engine_queries calmD)
  then show ?thesis using m u unfolding updateDelegation_def by (auto simp: calmD split: prod.splits sum.splits)
qed

lemma recordReply_I: "calm t \<Longrightarrow> I s \<Longrightarrow> I (recordReply en t task result s)"
  by (simp add: recordReply_def store_ops calmD split: option.splits)

lemma processFailed_I: "calm t \<Longrightarrow> I s \<Longrightarrow> I (processFailed en t task er s)"
  unfolding processFailed_def by (simp add: publishEvent_I failRun_I abortRun_I)

lemma processSucceeded_I:
  assumes m: "calm t" and s: "I s"
  shows "I (processSucceeded en t task result s)"
proof -
  have "I (snd (CompleteTask (bgEnv t 7) (ID task) result (meanwhile t 7 s)))" using m s by (simp add: store_ops calmD)
  then have "I s1" if "CompleteTask (bgEnv t 7) (ID task) result (meanwhile t 7 s) = (r, s1)" for r s1 using that by simp
  then show ?thesis using m s unfolding processSucceeded_def
    by (auto intro!: updateDelegation_I recordReply_I delegation_ops simp: publishEvent_I setLastError_I failRun_I abortRun_I Let_def
        split: option.splits ctxErr.splits prod.splits sum.splits)
qed

lemma cancelSeen_I:
  assumes m: "calm t" and s: "I s"
  shows "I (snd (cancelSeen t task s))"
proof -
  have "I (snd (IsCancelRequested (ID task) (meanwhile t 4 s)))" using m s by (simp add: engine_queries calmD)
  then show ?thesis using s unfolding cancelSeen_def by (auto split: prod.splits sum.splits)
qed

lemma handleTask_I:
  assumes m: "calm t" and p: "careful (eproc en)" and s: "I s"
  shows "I (handleTask en t task s)"
proof -
  have "I (runTask en t task s)" if s: "I s" for s
  proof (cases "cancelSeen t task s")
    case (Pair b s1)
    with cancelSeen_I [OF m s, of task] have s1: "I s1" by simp
    then have "I (snd (Process (eproc en) (taskContext en t task) task (meanwhile t 6 s1)))"
      using m p by (simp add: carefulD calmD)
    then show ?thesis using s1 m unfolding runTask_def Pair
      by (auto simp: publishEvent_I abortRun_I processFailed_I processSucceeded_I split: prod.splits sum.splits)
  qed
  then show ?thesis using s by (simp add: handleTask_def Let_def I_memory)
qed

lemma workerTurn_I:
  assumes m: "calm t" and p: "careful (eproc en)" and s: "I s"
  shows "I (workerTurn en t s)"
proof -
  let ?s1 = "noteError ''requeue expired leases'' (RequeueExpiredLeases (clock t 0) (meanwhile t 0 s))"
  let ?s2 = "noteError ''age queued priorities'' (AgeQueuedPriorities (clock t 1) (30 * second) 10 (meanwhile t 1 ?s1))"
  let ?c = "if engineAgent en \<noteq> '''' then ClaimNextPendingTaskForAgent (clock t 2) (leaseID t) (engineAgent en) (meanwhile t 2 ?s2)
    else ClaimNextPendingTask (clock t 2) (leaseID t) (meanwhile t 2 ?s2)"
  have s1: "I ?s1" using m s by (simp add: noteError_I store_ops calmD)
  then have "I ?s2" using m by (simp add: noteError_I store_ops calmD)
  then have c: "I (snd ?c)" using m
    by (simp add: ClaimNextPendingTaskForAgent_def ClaimNextPendingTask_def store_ops calmD)
  have st: "I s4" if "I s3" "StartTaskRun e i ow pv (meanwhile t 3 s3) = (r, s4)" for s3 s4 e i ow pv r
  proof -
    have "I (snd (StartTaskRun e i ow pv (meanwhile t 3 s3)))" using m that(1) by (simp add: store_ops calmD)
    with that(2) show ?thesis by simp
  qed
  obtain r s3 where cc: "?c = (r, s3)" by fastforce
  with c have "I s3" by simp
  then show ?thesis
    unfolding workerTurn_def Let_def cc
    by (auto simp: setLastError_I split: sum.splits option.splits prod.splits intro!: handleTask_I m p dest: st)
qed

lemma worker_I:
  assumes "\<forall>t\<in>set ts. calm t" and "careful (eproc en)" and "I s"
  shows "I (worker en ts s)"
  using assms unfolding worker_def by (induction ts arbitrary: s) (simp_all add: workerTurn_I)

lemma backpressure_I: "I s \<Longrightarrow> I (snd (backpressure n a s))"
  unfolding backpressure_def by (auto intro!: bindS_keeps wrapS_keeps engine_queries simp: retS_def failS_def)

lemma insertChatTask_I: "I s \<Longrightarrow> I (snd (insertChatTask e i a sid p s))"
  by (simp add: insertChatTask_def CreateTaskForAgent_def CreateTask_def store_ops)

lemma createChatTaskWithDepth_I: "I s \<Longrightarrow> I (snd (createChatTaskWithDepth en up e i a sid c d s))"
  unfolding createChatTaskWithDepth_def by (intro bindS_keeps wrapS_keeps backpressure_I insertChatTask_I store_ops)

end


section \<open>Tasks move along the transition table only\<close>

lemma good_metrics_frame:
  fixes s :: "'x engine_store_scheme"
  shows "good s0 (s\<lparr>delegations := ds\<rparr>) \<longleftrightarrow> good s0 s" "good s0 (s\<lparr>bus := b\<rparr>) \<longleftrightarrow> good s0 s"
    "good s0 (s\<lparr>cancels := cs\<rparr>) \<longleftrightarrow> good s0 s" "good s0 (s\<lparr>activeTasks := n\<rparr>) \<longleftrightarrow> good s0 s"
    "good s0 (s\<lparr>lastError := er\<rparr>) \<longleftrightarrow> good s0 s"
  by (simp_all add: good_def store_inv_def events_ok_def hasSession_def hasTask_def trail_def evolves_def)

interpretation eh: store_property "good s0" for s0
  by unfold_locales (simp_all add: good_metrics_frame store_step_good)

lemma good_trans: "good a b \<Longrightarrow> good b c \<Longrightarrow> good a c"
  unfolding good_def by (blast intro: evolves_trans)

lemma calm_good: "(\<And>k s. store_inv s \<Longrightarrow> good s (meanwhile t k s)) \<Longrightarrow> eh.calm s0 t"
  unfolding eh.calm_def by (meson good_def good_trans)

lemma careful_good: "(\<And>c task s. store_inv s \<Longrightarrow> good s (snd (Process p c task s))) \<Longrightarrow> eh.careful s0 p"
  unfolding eh.careful_def by (meson good_def good_trans)

text \<open>C4. An engine respects the queue: whatever a worker does in any number of turns, with statements
  failing anywhere and other goroutines acting between its calls, the database keeps its invariant, no
  task is lost, the audit log only grows and the status of every task moves along the transition table,
  provided the processor and the other goroutines respect the queue too.\<close>

theorem worker_history:
  assumes "store_inv s" and "\<And>t k s. t \<in> set ts \<Longrightarrow> store_inv s \<Longrightarrow> good s (meanwhile t k s)"
    and "\<And>c task s. store_inv s \<Longrightarrow> good s (snd (Process (eproc en) c task s))"
  shows "store_inv (worker en ts s) \<and> prefix (task_events s) (task_events (worker en ts s)) \<and>
    (\<forall>r\<in>set (tasks s). \<exists>q\<in>set (tasks (worker en ts s)). t_id q = t_id r \<and> t_session_id q = t_session_id r \<and>
       canTransition\<^sup>*\<^sup>* (t_status r) (t_status q))"
proof -
  have "good s (worker en ts s)"
    using assms by (intro eh.worker_I good_start careful_good ballI calm_good) auto
  then show ?thesis by (simp add: good_def evolves_def)
qed

definition exConfig :: Config where
  "exConfig = \<lparr>CWorkerCount = 1, CPollInterval = 0, CTaskTimeout = 0, CCancelCheckInterval = 0, CMaxQueueDepth = 2, CBus = False, CAgentID = ''''\<rparr>"

definition exBrain :: "'s Brain" where
  "exBrain = \<lparr>Respond = (\<lambda>c sid content s. (Inr (''you said '' @ content), s)), StreamTo = (\<lambda>c sid content chunk s. chunk content s)\<rparr>"

definition exEngine :: "'s Engine" where
  "exEngine = NewEngine ErrMsg (Some (EchoProcessor (Some exBrain) ErrMsg)) exConfig False"

definition exTurn :: "nat \<Rightarrow> 's turn" where
  "exTurn n = \<lparr>clock = (\<lambda>k. exEnv n), meanwhile = (\<lambda>k s. s), leaseID = ''w'', traceOf = ''tr'', runOf = ''rn'', polVersion = '''',
     startErr = None, errFirst = None, errSecond = None\<rparr>"

lemma exEngine_proc: "eproc exEngine = EchoProcessor (Some exBrain) ErrMsg" "config exEngine = exConfig\<lparr>CPollInterval := 100 * millisecond,
    CTaskTimeout := 600000 * millisecond, CCancelCheckInterval := 10000 * millisecond\<rparr>"
  by (simp_all add: exEngine_def NewEngine_def exConfig_def Let_def)

lemma exProcess_state: "snd (Process (eproc exEngine) c task s) = s"
  by (simp add: exEngine_proc Process_def echoProcess_def bindS_def wrapS_def exBrain_def retS_def failS_def split: option.splits)

definition exEngineStore :: "store \<Rightarrow> engine_store" where
  "exEngineStore s = side_store.extend (emptySide (exAgentStore s)) (engine_store.fields [] 0 None)"

lemmas engine_eval = exEngineStore_def exAgentStore_def emptySide_def store.defs plan_store.defs agent_store.defs side_store.defs engine_store.defs

lemma exEngineStore_tables [simp]: "tasks (exEngineStore s) = tasks s" "task_events (exEngineStore s) = task_events s"
  "sessions (exEngineStore s) = sessions s" "faults (exEngineStore s) = faults s" "ev_seq (exEngineStore s) = ev_seq s"
  "messages (exEngineStore s) = messages s" "delegations (exEngineStore s) = []" "activeTasks (exEngineStore s) = 0"
  by (simp_all add: engine_eval)

lemma exEngineStore_inv: "store_inv (exEngineStore s) \<longleftrightarrow> store_inv s"
  by (simp add: store_inv_def events_ok_def trail_def hasTask_def hasSession_def)

theorem worker_history_witness:
  "store_inv (worker exEngine [exTurn 200] (exEngineStore exQueued)) \<and> prefix [exEvent] (task_events (worker exEngine [exTurn 200] (exEngineStore exQueued)))"
proof -
  have "store_inv (exEngineStore exQueued)" using ex_inv(4) by (simp add: exEngineStore_inv)
  from worker_history [OF this, of "[exTurn 200]" exEngine] show ?thesis
    by (simp add: exTurn_def exProcess_state good_def exQueued_eq exTables_def)
qed

section \<open>A task is completed only while its context is alive\<close>

definition unsucceeded :: "string \<Rightarrow> 'x store_scheme \<Rightarrow> bool" where
  "unsucceeded i s \<longleftrightarrow> (\<forall>r\<in>set (tasks s). t_id r = i \<longrightarrow> t_status r \<noteq> TaskStatusSucceeded)"

interpretation us: task_invariant "unsucceeded i" for i
  by unfold_locales (simp_all add: unsucceeded_def)

lemma unsucceeded_updTasks:
  assumes "\<And>r. P r \<Longrightarrow> t_id (f r) = t_id r \<and> (t_status (f r) = t_status r \<or> t_status (f r) \<noteq> TaskStatusSucceeded)" and "unsucceeded i s"
  shows "unsucceeded i (updTasks P f s)"
  unfolding unsucceeded_def
proof (intro ballI impI)
  fix q assume q: "q \<in> set (tasks (updTasks P f s))" "t_id q = i"
  then obtain r where r: "r \<in> set (tasks s)" "q = (if P r then f r else r)" by (auto simp: updTasks_def row_simps)
  then have "t_id r = i" using q(2) assms(1) by (auto split: if_splits)
  with r assms show "t_status q \<noteq> TaskStatusSucceeded" unfolding unsucceeded_def by (metis (full_types))
qed

lemma unsucceeded_insertEvent: "unsucceeded i s \<Longrightarrow> unsucceeded i (insertEvent ev s)"
  by (simp add: unsucceeded_def insertEvent_def)

lemma unsucceeded_transition:
  assumes "to \<noteq> TaskStatusSucceeded" and "unsucceeded i s"
  shows "unsucceeded i (snd (transitionTaskTx e j fs to ty pl res em s))"
  unfolding transitionTaskTx_def appendTaskEventTx_def Let_def
  by (intro us.flow_intros unsucceeded_updTasks unsucceeded_insertEvent assms(2)) (use assms in \<open>auto simp: transitionRow_def\<close>)

lemma unsucceeded_failure: "unsucceeded i s \<Longrightarrow> unsucceeded i (snd (HandleTaskFailure e j msg s))"
  unfolding HandleTaskFailure_def deadLetterTx_def retryTx_def Let_def
  by (intro us.flow_intros unsucceeded_transition unsucceeded_updTasks) (auto simp: failureMeta_def clearLease_def)

lemma unsucceeded_abort: "unsucceeded i s \<Longrightarrow> unsucceeded i (snd (AbortTask e j s))"
  unfolding AbortTask_def RequestCancel_def Let_def
  by (intro us.flow_intros us.publishTask_keeps unsucceeded_transition unsucceeded_updTasks) (auto simp: clearLease_def)

lemma unsucceeded_engine:
  "unsucceeded i (publishEvent en topic kvs s) \<longleftrightarrow> unsucceeded i s"
  "unsucceeded i (setLastError er s') \<longleftrightarrow> unsucceeded i s'"
  by (simp_all add: unsucceeded_def publishEvent_def publishS_def setLastError_def split: option.splits)

lemma unsucceeded_updateDelegation:
  assumes "\<And>k s. unsucceeded i s \<Longrightarrow> unsucceeded i (meanwhile t k s)" and "unsucceeded i s"
  shows "unsucceeded i (updateDelegation t task (\<lambda>d. FailDelegation e d er) s)"
proof -
  have f: "unsucceeded i (snd (FailDelegation e d er s))" if "unsucceeded i s" for d and s :: "'z agent_store_scheme"
    using that unfolding FailDelegation_def by (intro us.execS_keeps) (auto simp: updDelegation_def unsucceeded_def)
  have "unsucceeded i (snd (GetDelegationByTaskID (ID task) (meanwhile t 8 s)))"
    unfolding GetDelegationByTaskID_def using assms by (intro us.queryRow_keeps)
  then show ?thesis unfolding updateDelegation_def
    by (auto simp: f assms(1) split: prod.splits sum.splits)
qed

text \<open>C12. A task is never reported successful once its context has ended or its processor failed: if the
  run's context is cancelled or past its deadline when the processor returns, or the processor returns
  an error, the task does not become SUCCEEDED by this run, whatever statements fail.\<close>

theorem no_success_after_context_end:
  assumes "errFirst t \<noteq> None \<or> (\<forall>c s. isl (fst (Process (eproc en) c task s)))" and "unsucceeded (ID task) s"
    and "\<And>k s. unsucceeded (ID task) s \<Longrightarrow> unsucceeded (ID task) (meanwhile t k s)"
    and "\<And>c s. unsucceeded (ID task) s \<Longrightarrow> unsucceeded (ID task) (snd (Process (eproc en) c task s))"
  shows "unsucceeded (ID task) (handleTask en t task s)"
proof -
  let ?U = "unsucceeded (ID task)"
  have f: "?U (failRun t task er s)" if "?U s" for er s
    unfolding failRun_def using that by (intro unsucceeded_failure assms(3)) (simp add: unsucceeded_engine)
  have a: "?U (abortRun t k task s)" if "?U s" for k s
    unfolding abortRun_def using that by (intro unsucceeded_abort assms(3))
  have pf: "?U (processFailed en t task er s)" if "?U s" for er s
    using that by (simp add: processFailed_def unsucceeded_engine f a)
  have ps: "?U (processSucceeded en t task result s)" if "?U s" "errFirst t \<noteq> None" for result s
    using that unsucceeded_updateDelegation [OF assms(3)]
    by (auto simp: processSucceeded_def unsucceeded_engine f a Let_def split: ctxErr.splits)
  have c: "?U s1" if "?U s" "cancelSeen t task s = (b, s1)" for b s s1
  proof -
    have "?U (snd (IsCancelRequested (ID task) (meanwhile t 4 s)))"
      unfolding IsCancelRequested_def by (intro us.flow_intros assms(3) that(1))
    with that show ?thesis by (auto simp: cancelSeen_def split: if_splits prod.splits sum.splits)
  qed
  have r: "?U (runTask en t task s)" if "?U s" for s
  proof (cases "cancelSeen t task s")
    case (Pair b s1)
    obtain r s2 where p: "Process (eproc en) (taskContext en t task) task (meanwhile t 6 s1) = (r, s2)" by fastforce
    from c [OF that Pair] have s1: "?U s1" .
    with assms(4) [OF assms(3), of s1 "taskContext en t task" 6] p have s2: "?U s2" by simp
    have "errFirst t \<noteq> None \<or> isl r" using assms(1) p by (metis fst_conv)
    then show ?thesis using s1 s2 pf ps a unfolding runTask_def Pair p
      by (auto simp: unsucceeded_engine p split: sum.splits)
  qed
  have "?U (s\<lparr>activeTasks := activeTasks s + 1, cancels := List.insert (ID task) (cancels s)\<rparr>)"
    using assms(2) by (simp add: unsucceeded_def)
  from r [OF this] show ?thesis by (simp add: handleTask_def Let_def unsucceeded_def)
qed

definition exTask :: Task where
  "exTask = scanTask (exRow\<lparr>t_status := TaskStatusRunning\<rparr>)"

theorem no_success_after_context_end_witness:
  "unsucceeded ''t1'' (handleTask exEngine ((exTurn 200)\<lparr>errFirst := Some Canceled\<rparr>) exTask (exEngineStore exRunning))"
proof -
  have i: "ID exTask = ''t1''" by (simp add: exTask_def scanTask_def exRow_def)
  have "unsucceeded ''t1'' (exEngineStore exRunning)" by (simp add: unsucceeded_def exRunning_eq exTables_def exRow_def)
  then show ?thesis
    using no_success_after_context_end [of "(exTurn 200)\<lparr>errFirst := Some Canceled\<rparr>" exEngine exTask "exEngineStore exRunning"]
    by (simp add: i exTurn_def exProcess_state)
qed

section \<open>A run that succeeds\<close>

lemma bus_shape: "\<exists>b. s = s\<lparr>bus := b\<rparr>" "\<exists>b. snd (publishS t p s) = s\<lparr>bus := b\<rparr>"
proof -
  show e: "\<exists>b. s = s\<lparr>bus := b\<rparr>" by (rule exI [of _ "bus s"]) simp
  then show "\<exists>b. snd (publishS t p s) = s\<lparr>bus := b\<rparr>" by (cases "bus s") (auto simp: publishS_def)
qed

lemma publishTask_shape: "faults s = [] \<Longrightarrow> \<exists>b. publishTask i t mk s = (Inr (), s\<lparr>bus := b\<rparr>)"
  using bus_shape(1) [of s] bus_shape(2) [of t _ s]
  by (cases "bus s"; cases "findTask i s") (auto simp: publishTask_def GetTask_def queryRow_def stmt_def publishS_def)

lemma metrics_shape: "\<exists>tm. insertMetrics e i s = s\<lparr>task_metrics := tm\<rparr>"
proof -
  have "\<exists>tm. s = s\<lparr>task_metrics := tm\<rparr>" by (rule exI [of _ "task_metrics s"]) simp
  then show ?thesis by (cases "findTask i s") (auto simp: insertMetrics_def)
qed

lemma RecordTaskMetrics_shape:
  assumes "faults s = []"
  shows "\<exists>b tm. snd (RecordTaskMetrics e i s) = s\<lparr>task_metrics := tm, bus := b\<rparr>"
proof -
  obtain tm where tm: "insertMetrics e i s = s\<lparr>task_metrics := tm\<rparr>" using metrics_shape by blast
  let ?s = "s\<lparr>task_metrics := tm\<rparr>"
  have "snd (RecordTaskMetrics e i s) = ?s \<or> (\<exists>t p. snd (RecordTaskMetrics e i s) = snd (publishS t p ?s))"
    using assms by (cases "findTask i s") (auto simp: RecordTaskMetrics_def queryRow_def stmt_def bindS_def wrapS_def execS_def retS_def tm)
  then have "\<exists>b. snd (RecordTaskMetrics e i s) = ?s\<lparr>bus := b\<rparr>" using bus_shape [where s = ?s] by metis
  then show ?thesis by auto
qed

lemma notify_shape:
  assumes "faults s = []"
  obtains b tm where "snd (bindS (publishTask i t mk) (\<lambda>_. ignoreS (RecordTaskMetrics e i)) s) = s\<lparr>task_metrics := tm, bus := b\<rparr>"
proof -
  from publishTask_shape [OF assms, of i t mk] obtain b where b: "publishTask i t mk s = (Inr (), s\<lparr>bus := b\<rparr>)" by blast
  from RecordTaskMetrics_shape [of "s\<lparr>bus := b\<rparr>" e i] assms obtain b' tm where "snd (RecordTaskMetrics e i (s\<lparr>bus := b\<rparr>)) = s\<lparr>task_metrics := tm, bus := b'\<rparr>"
    by auto
  with b that show thesis by (simp add: bindS_def ignoreS_def)
qed

lemma CompleteTask_shape:
  assumes "faults s = []" and "store_inv s" and "findTask i s = Some r" and "t_status r = TaskStatusRunning"
  obtains ev tm b where "CompleteTask e i res s = (Inr (), (changeTask i (succeededRow e res) ev s)\<lparr>task_metrics := tm, bus := b\<rparr>)"
proof (rule CompleteTask_run [OF assms])
  fix ev assume ev: "CompleteTask e i res s = bindS (publishTask i ''task.completed'' (\<lambda>task. PMap [(''task_id'', VStr i),
       (''session_id'', VStr (TSessionID task)), (''status'', VStatus TaskStatusSucceeded)]))
     (\<lambda>_. ignoreS (RecordTaskMetrics e i)) (changeTask i (succeededRow e res) ev s)"
  have "faults (changeTask i (succeededRow e res) ev s) = []" using assms(1) by simp
  then obtain b tm where "snd (CompleteTask e i res s) = (changeTask i (succeededRow e res) ev s)\<lparr>task_metrics := tm, bus := b\<rparr>"
    unfolding ev by (rule notify_shape)
  moreover have "fst (CompleteTask e i res s) = Inr ()" unfolding ev by (rule notify_Inr)
  ultimately have "CompleteTask e i res s = (Inr (), (changeTask i (succeededRow e res) ev s)\<lparr>task_metrics := tm, bus := b\<rparr>)"
    by (metis prod.collapse)
  then show thesis by (rule that)
qed

definition completedDelegations :: "env \<Rightarrow> string \<Rightarrow> string \<Rightarrow> Delegation list \<Rightarrow> Delegation list" where
  "completedDelegations e taskID result ds = (case firstWhere (\<lambda>d. DelegTaskID d = taskID) ds of
     None \<Rightarrow> ds
   | Some d \<Rightarrow> updWhere (\<lambda>x. DelegID x = DelegID d)
       (\<lambda>x. x\<lparr>DelegStatus := ''completed'', DelegResult := Some result, DelegCompletedAt := Some (GoTs (now e))\<rparr>) ds)"

lemma updateDelegation_run:
  assumes "faults s = []" and "meanwhile t = (\<lambda>k s. s)"
  shows "updateDelegation t task (\<lambda>i. CompleteDelegation e i result) s = s\<lparr>delegations := completedDelegations e (ID task) result (delegations s)\<rparr>"
  using assms by (cases "firstWhere (\<lambda>d. DelegTaskID d = ID task) (delegations s)")
    (simp_all add: updateDelegation_def GetDelegationByTaskID_def queryRow_def stmt_def CompleteDelegation_def execS_def updDelegation_def
      completedDelegations_def)

lemma publishEvent_shape: "\<exists>b. publishEvent en topic kvs s = s\<lparr>bus := b\<rparr>"
  using bus_shape [where s = s] by (auto simp: publishEvent_def)

definition replyMessage :: "'s Engine \<Rightarrow> env \<Rightarrow> Task \<Rightarrow> string \<Rightarrow> nat \<Rightarrow> message_row list" where
  "replyMessage en e task result n = (case decodeChatResult result of
     None \<Rightarrow> []
   | Some reply \<Rightarrow> if reply = '''' then [] else [\<lparr>m_id = Suc n, m_session_id = TSessionID task, m_agent_id = agentOrDefault (engineAgent en),
       m_role = ''assistant'', m_content = reply, m_tokens = int (EstimateTokens reply), m_created_at = CURRENT_TIMESTAMP e, m_archived_at = None\<rparr>])"

lemma recordReply_run:
  assumes "faults s = []" and "meanwhile t = (\<lambda>k s. s)" and "hasSession (TSessionID task) s"
  shows "messages (recordReply en t task result s) = messages s @ replyMessage en (bgEnv t 10) task result (msg_seq s)"
    and "tasks (recordReply en t task result s) = tasks s" and "delegations (recordReply en t task result s) = delegations s"
    and "activeTasks (recordReply en t task result s) = activeTasks s" and "cancels (recordReply en t task result s) = cancels s"
proof -
  have r: "toLower (trimSpace ''assistant'') = ''assistant''" by code_simp
  show "messages (recordReply en t task result s) = messages s @ replyMessage en (bgEnv t 10) task result (msg_seq s)"
    "tasks (recordReply en t task result s) = tasks s" "delegations (recordReply en t task result s) = delegations s"
    "activeTasks (recordReply en t task result s) = activeTasks s" "cancels (recordReply en t task result s) = cancels s"
    using assms by (simp_all add: recordReply_def replyMessage_def AddHistory_def r messageRoles_def wrapS_def execCheck_def stmt_def
        insertMessage_def Let_def split: option.splits)
qed

text \<open>A run that goes well, end to end: when the processor returns a result, the context is alive and no
  statement fails, the running task becomes SUCCEEDED with that result and without a lease, the delegation it
  belongs to is completed with it, the reply is appended to the session's history with its token estimate,
  and the engine forgets the task's cancel function and counts one task less.\<close>

theorem handle_completes:
  assumes "faults s = []" and "store_inv s" and "findTask (ID task) s = Some r" and "t_status r = TaskStatusRunning"
    and "t_cancel_requested r \<noteq> 1" and "TSessionID task = t_session_id r"
    and "meanwhile t = (\<lambda>k s. s)" and "startErr t = None" and "errFirst t = None"
    and "\<And>c s. Process (eproc en) c task s = (Inr result, s)"
  shows "tasks (handleTask en t task s) = updWhere (\<lambda>q. t_id q = ID task) (succeededRow (bgEnv t 7) result) (tasks s)
    \<and> delegations (handleTask en t task s) = completedDelegations (bgEnv t 9) (ID task) result (delegations s)
    \<and> messages (handleTask en t task s) = messages s @ replyMessage en (bgEnv t 10) task result (msg_seq s)
    \<and> activeTasks (handleTask en t task s) = activeTasks s \<and> ID task \<notin> set (cancels (handleTask en t task s))"
proof -
  let ?s = "s\<lparr>activeTasks := activeTasks s + 1, cancels := List.insert (ID task) (cancels s)\<rparr>"
  have f: "faults ?s = []" "findTask (ID task) ?s = Some r" using assms(1,3) by (simp_all add: findTask_def)
  have i: "store_inv ?s" using assms(2) good_metrics_frame(3,4) [of s] by (simp add: store_inv_def events_ok_def hasTask_def hasSession_def trail_def)
  obtain ev tm b where c: "CompleteTask (bgEnv t 7) (ID task) result ?s =
      (Inr (), (changeTask (ID task) (succeededRow (bgEnv t 7) result) ev ?s)\<lparr>task_metrics := tm, bus := b\<rparr>)"
    by (rule CompleteTask_shape [OF f(1) i f(2) assms(4)])
  let ?c = "(changeTask (ID task) (succeededRow (bgEnv t 7) result) ev ?s)\<lparr>task_metrics := tm, bus := b\<rparr>"
  let ?d = "?c\<lparr>delegations := completedDelegations (bgEnv t 9) (ID task) result (delegations ?c)\<rparr>"
  obtain b' where p: "publishEvent en ''task.succeeded'' (taskKeys task) ?d = ?d\<lparr>bus := b'\<rparr>" using publishEvent_shape by blast
  have fc: "faults ?c = []" using assms(1) by (simp add: changeTask_def)
  have sess: "hasSession (TSessionID task) (?d\<lparr>bus := b'\<rparr>)"
    using assms(2,3,6) findTask_Some [of "ID task" s r] by (auto simp: store_inv_def hasSession_def changeTask_def)
  have "cancelSeen t task ?s = (False, ?s)"
    using f assms(5,7,8) by (simp add: cancelSeen_def IsCancelRequested_def bindS_def queryRow_def stmt_def retS_def)
  then have run: "runTask en t task ?s = recordReply en t task result (?d\<lparr>bus := b'\<rparr>)"
    using assms(7,9,10) c p updateDelegation_run [OF fc assms(7)] by (simp add: runTask_def processSucceeded_def)
  have fd: "faults (?d\<lparr>bus := b'\<rparr>) = []" using fc by simp
  show ?thesis
    unfolding handleTask_def Let_def run using recordReply_run [OF fd assms(7) sess, of en result]
    by (simp add: changeTask_def)
qed

definition exReply :: string where
  "exReply = encodeChatResult ''hello''"

definition exResponder :: "'s Processor" where
  "exResponder = OtherProcessor (\<lambda>c task s. (Inr exReply, s))"

theorem handle_completes_witness:
  "map (\<lambda>r. (t_status r, t_result r)) (tasks (handleTask (exEngine\<lparr>eproc := exResponder\<rparr>) (exTurn 200) exTask (exEngineStore exRunning))) =
    [(TaskStatusSucceeded, Some exReply)] \<and>
   activeTasks (handleTask (exEngine\<lparr>eproc := exResponder\<rparr>) (exTurn 200) exTask (exEngineStore exRunning)) = 0"
proof -
  have i: "ID exTask = ''t1''" "TSessionID exTask = ''s''" by (simp_all add: exTask_def scanTask_def exRow_def)
  obtain r where r: "findTask ''t1'' (exEngineStore exRunning) = Some r" "t_status r = TaskStatusRunning" "t_cancel_requested r \<noteq> 1" "t_session_id r = ''s''"
    by (simp add: findTask_def exRunning_eq exTables_def firstWhere_def exRow_def)
  have "store_inv (exEngineStore exRunning)" using ex_inv(6) by (simp add: exEngineStore_inv)
  from handle_completes [of "exEngineStore exRunning" exTask r "exTurn 200" "exEngine\<lparr>eproc := exResponder\<rparr>" exReply] this r
  show ?thesis
    by (simp add: i exTurn_def exResponder_def Process_def exRunning_faults)
      (simp add: exRunning_eq exTables_def exRow_def updWhere_def succeededRow_def)
qed

end
