(* ===== verification/Engine_Intake.thy ===== *)
theory Engine_Intake
  imports Engine_Run Task_Frame
begin

text \<open>
  Intake of the engine: backpressure, the creation of chat tasks, the registry of running agents as the
  router of the plan executor, and streaming.
\<close>

section \<open>Intake\<close>

lemma createTask_InrE:
  assumes "createTask e i a sid pl s = (Inr j, s')"
  shows "j = i" and "\<not> hasTask i s" and "tasks s' = tasks s @ [queuedRow e i sid (agentOrDefault a) pl]" and "messages s' = messages s"
proof -
  from assms obtain t where t: "same_tables s t" and tx: "with_tx (ErrWrap ''begin create task tx'') (\<lambda>_ er. er)
      (let agent = (if a = '''' then ''default'' else a) in
       bindS (wrapS ''create task'' (execCheck (taskInsertCheck i sid)
               (\<lambda>s. s\<lparr>tasks := tasks s @ [queuedRow e i sid agent pl]\<rparr>)))
       (\<lambda>_. bindS (appendTaskEventTx e i sid None TaskStatusQueued ''task.enqueued'' ''{\"reason\":\"create_task\"}'')
       (\<lambda>_. retS (Commit i)))) t = (Inr j, s')"
    unfolding createTask_def by (rule retry_tx_Inr)
  have "j = i \<and> \<not> hasTask i s \<and> tasks s' = tasks s @ [queuedRow e i sid (agentOrDefault a) pl] \<and> messages s' = messages s"
    using tx
  proof (cases rule: with_tx_InrE)
    case (committed s1 s2)
    from same_tables_trans [OF t committed(1)] obtain fs where s1: "s1 = s\<lparr>faults := fs\<rparr>" by (rule same_tables_elim)
    from committed(3) obtain gs where s': "s' = s2\<lparr>faults := gs\<rparr>" by (rule same_tables_elim)
    from committed(2) show ?thesis unfolding s1 s' Let_def appendTaskEventTx_def
      by (auto simp: bindS_Inr agentOrDefault_def taskInsertCheck_def hasTask_def insertEvent_def elim!: stmt_elims split: if_splits)
  qed (auto simp: bindS_Inr Let_def)
  then show "j = i" "\<not> hasTask i s" "tasks s' = tasks s @ [queuedRow e i sid (agentOrDefault a) pl]" "messages s' = messages s" by auto
qed

lemma findTask_new: "\<not> hasTask i s \<Longrightarrow> tasks s' = tasks s @ [r] \<Longrightarrow> t_id r = i \<Longrightarrow> findTask i s' = Some r"
proof -
  assume a: "\<not> hasTask i s" "tasks s' = tasks s @ [r]" "t_id r = i"
  then have "firstWhere (\<lambda>r. t_id r = i) (tasks s) = None" by (simp add: firstWhere_None hasTask_def)
  with a show ?thesis by (simp add: findTask_def firstWhere_append) (simp add: firstWhere_def)
qed

lemma EnsureSession_InrE:
  assumes "EnsureSession up e sid s = (Inr u, s')"
  shows "tasks s' = tasks s" and "messages s' = messages s" and "msg_seq s' = msg_seq s"
  using assms unfolding EnsureSession_def by (auto elim!: execS_InrE split: option.splits if_splits)

lemma AddHistory_InrE:
  assumes "AddHistory e sid a role c n s = (Inr u, s')"
  shows "tasks s' = tasks s" and "messages s' = messages s @ [\<lparr>m_id = Suc (msg_seq s), m_session_id = sid, m_agent_id = agentOrDefault a,
      m_role = toLower (trimSpace role), m_content = c, m_tokens = n, m_created_at = CURRENT_TIMESTAMP e, m_archived_at = None\<rparr>]"
  using assms unfolding AddHistory_def Let_def
  by (auto simp: insertMessage_def elim!: execCheck_InrE split: if_splits)

definition queuedFor :: "string \<Rightarrow> task_row \<Rightarrow> bool" where
  "queuedFor a r \<longleftrightarrow> t_status r = TaskStatusQueued \<and> (a = '''' \<or> t_agent_id r = a)"

lemma queueDepthOf_InrE: "queueDepthOf a s = (Inr n, s') \<Longrightarrow> n = countWhere (queuedFor a) (tasks s) \<and> same_tables s s'"
  unfolding queueDepthOf_def QueueDepth_def QueueDepthForAgent_def
  by (auto simp: taskCount_def statusCount_def countWhere_def queuedFor_def [abs_def] elim!: queryS_InrE split: if_splits)

lemma backpressure_InrE:
  assumes "backpressure n a s = (Inr u, s')"
  shows "same_tables s s'" and "0 < n \<Longrightarrow> int (countWhere (queuedFor a) (tasks s)) < n"
  using assms unfolding backpressure_def by (auto simp: bindS_Inr dest: queueDepthOf_InrE split: if_splits)

lemma createChat_InrE:
  assumes "createChatTaskWithDepth en up e i a sid c d s = (Inr j, s')"
  shows "j = i" and "\<not> hasTask i s"
    and "tasks s' = tasks s @ [queuedRow e i sid (agentOrDefault a) (encodeChatTask \<lparr>PContent = c, PMessageDepth = d\<rparr>)]"
    and "messages s' = messages s @ [\<lparr>m_id = Suc (msg_seq s), m_session_id = sid, m_agent_id = agentOrDefault a,
      m_role = ''user'', m_content = c, m_tokens = int (EstimateTokens c), m_created_at = CURRENT_TIMESTAMP e, m_archived_at = None\<rparr>]"
    and "0 < CMaxQueueDepth (config en) \<Longrightarrow> int (countWhere (queuedFor a) (tasks s)) < CMaxQueueDepth (config en)"
proof -
  have u: "toLower (trimSpace ''user'') = ''user''" by code_simp
  from assms obtain s1 s2 s3 where bp: "backpressure (CMaxQueueDepth (config en)) a s = (Inr (), s1)"
    and es: "EnsureSession up e sid s1 = (Inr (), s2)" and ah: "AddHistory e sid a ''user'' c (int (EstimateTokens c)) s2 = (Inr (), s3)"
    and it: "insertChatTask e i a sid \<lparr>PContent = c, PMessageDepth = d\<rparr> s3 = (Inr j, s')"
    unfolding createChatTaskWithDepth_def by (auto simp: bindS_Inr)
  have ct: "createTask e i a sid (encodeChatTask \<lparr>PContent = c, PMessageDepth = d\<rparr>) s3 = (Inr j, s')"
    using it by (simp add: insertChatTask_def CreateTaskForAgent_def CreateTask_def split: if_splits)
  obtain fs where s1: "s1 = s\<lparr>faults := fs\<rparr>" using backpressure_InrE(1) [OF bp] by (rule same_tables_elim)
  note t = createTask_InrE [OF ct] AddHistory_InrE [OF ah] EnsureSession_InrE [OF es]
  then show "j = i" and "\<not> hasTask i s"
    and "tasks s' = tasks s @ [queuedRow e i sid (agentOrDefault a) (encodeChatTask \<lparr>PContent = c, PMessageDepth = d\<rparr>)]"
    and "messages s' = messages s @ [\<lparr>m_id = Suc (msg_seq s), m_session_id = sid, m_agent_id = agentOrDefault a,
      m_role = ''user'', m_content = c, m_tokens = int (EstimateTokens c), m_created_at = CURRENT_TIMESTAMP e, m_archived_at = None\<rparr>]"
    by (simp_all add: s1 u hasTask_def)
  show "0 < CMaxQueueDepth (config en) \<Longrightarrow> int (countWhere (queuedFor a) (tasks s)) < CMaxQueueDepth (config en)"
    by (rule backpressure_InrE(2) [OF bp])
qed


definition noUuid :: "string \<Rightarrow> err option" where
  "noUuid sid = None"

definition fullQueue :: engine_store where
  "fullQueue = exEngineStore (exQueued\<lparr>tasks := [exRow, exRow\<lparr>t_id := ''t2''\<rparr>]\<rparr>)"


lemma registry_InrE:
  fixes reg :: "'s registry"
  assumes "RegistryCreateChatTask reg up e i a sid c s = (Inr j, s')"
  obtains en :: "'s Engine" where "createChatTaskWithDepth en up e i a sid c 0 s = (Inr j, s')"
  using assms by (auto simp: RegistryCreateChatTask_def CreateChatTaskForAgent_def createChatTask_def split: option.splits)

text \<open>A chat message becomes a task of the agent it is addressed to: when the registry accepts it, the task
  is new, queued under the agent and the session, its payload decodes to the message, and the message is in
  the session's history.\<close>

theorem chat_task_created:
  fixes reg :: "'s registry"
  assumes "RegistryCreateChatTask reg up e i a sid c s = (Inr j, s')" and "\<forall>x\<in>set c. of_char x < (128 :: nat)"
  shows "\<exists>r. \<not> hasTask j s \<and> findTask j s' = Some r \<and> t_status r = TaskStatusQueued \<and> t_agent_id r = agentOrDefault a \<and>
    t_session_id r = sid \<and> decodeChatTask (t_payload r) = Some \<lparr>PContent = c, PMessageDepth = 0\<rparr> \<and>
    (m_role (last (messages s')), m_content (last (messages s'))) = (''user'', c)"
proof -
  from assms(1) obtain en :: "'s Engine" where "createChatTaskWithDepth en up e i a sid c 0 s = (Inr j, s')" by (rule registry_InrE)
  note c = createChat_InrE [OF this]
  let ?r = "queuedRow e i sid (agentOrDefault a) (encodeChatTask \<lparr>PContent = c, PMessageDepth = 0\<rparr>)"
  have "findTask j s' = Some ?r"
    using findTask_new [OF c(2,3)] c(1) by (simp add: queuedRow_def)
  with c show ?thesis by (intro exI [of _ ?r]) (simp add: queuedRow_def decode_encode_task)
qed

definition exRegistry :: "'s registry" where
  "exRegistry = [(''b'', exEngine)]"

lemma exAccepted: "\<exists>s'. RegistryCreateChatTask (exRegistry :: engine_store registry) noUuid (exEnv 200) ''t2'' ''b'' ''s'' c (exEngineStore exQueued) = (Inr ''t2'', s')"
proof -
  have u: "toLower (trimSpace ''user'') = ''user''" by code_simp
  show ?thesis
    by (simp add: exRegistry_def RegistryCreateChatTask_def CreateChatTaskForAgent_def createChatTask_def createChatTaskWithDepth_def u
        backpressure_def exEngine_proc exConfig_def queueDepthOf_def QueueDepthForAgent_def EnsureSession_def noUuid_def AddHistory_def
        messageRoles_def insertChatTask_def CreateTaskForAgent_def createTask_def exQueued_eq exTables_def emptyStore_def
        tx_eval store_eval queryS_def taskCount_def countWhere_def exRow_def insertMessage_def queuedRow_def)
qed

theorem chat_task_created_witness:
  "\<exists>r s'. RegistryCreateChatTask (exRegistry :: engine_store registry) noUuid (exEnv 200) ''t2'' ''b'' ''s'' ''hi'' (exEngineStore exQueued) = (Inr ''t2'', s') \<and>
    findTask ''t2'' s' = Some r \<and> t_agent_id r = ''b'' \<and> decodeChatTask (t_payload r) = Some \<lparr>PContent = ''hi'', PMessageDepth = 0\<rparr>"
proof -
  obtain s' where s': "RegistryCreateChatTask (exRegistry :: engine_store registry) noUuid (exEnv 200) ''t2'' ''b'' ''s'' ''hi'' (exEngineStore exQueued) = (Inr ''t2'', s')"
    using exAccepted by blast
  from chat_task_created [OF this] s' show ?thesis by (auto simp: agentOrDefault_def)
qed

interpretation ht: task_invariant "hasTask i" for i
  by unfold_locales (simp_all add: hasTask_def)

lemma hasTask_createTask: "hasTask i s \<Longrightarrow> hasTask i (snd (createTask e j a sid pl s))"
  unfolding createTask_def appendTaskEventTx_def Let_def
  by (intro ht.flow_intros) (auto simp: hasTask_def insertEvent_def)

lemma hasTask_intake: "hasTask i s \<Longrightarrow> hasTask i (snd (createChatTaskWithDepth en up e j a sid c d s))"
  unfolding createChatTaskWithDepth_def backpressure_def queueDepthOf_def QueueDepth_def QueueDepthForAgent_def EnsureSession_def
    AddHistory_def insertChatTask_def CreateTaskForAgent_def CreateTask_def Let_def
  by (intro ht.flow_intros hasTask_createTask) (auto simp: hasTask_def insertMessage_def)

text \<open>The registry of running agents is a router as the plan executor needs it, whatever ids and times it is given.\<close>

lemma registry_new:
  assumes "RegistryCreateChatTask reg up e i a sid c s = (Inr j, s')"
  shows "\<not> hasTask j s \<and> hasTask j s'"
  using assms by (rule registry_InrE) (frule createChat_InrE(1), frule createChat_InrE(2), drule createChat_InrE(3), simp add: hasTask_def queuedRow_def)

lemma registry_keeps: "hasTask i s \<Longrightarrow> hasTask i (snd (RegistryCreateChatTask reg up e j a sid c s))"
  by (auto simp: RegistryCreateChatTask_def CreateChatTaskForAgent_def createChatTask_def failS_def hasTask_intake split: option.splits)

interpretation rt: chat_router "\<lambda>a sid c s. RegistryCreateChatTask reg up (envOf s) (newID s) a sid c s" for reg up envOf newID
  by unfold_locales (rule registry_new, assumption, rule registry_keeps)

section \<open>Streaming\<close>

definition idle :: "string \<Rightarrow> 'x store_scheme \<Rightarrow> bool" where
  "idle i s \<longleftrightarrow> (\<forall>r\<in>set (tasks s). t_id r = i \<longrightarrow> t_status r \<noteq> TaskStatusRunning)"

lemma idle_find: "idle i s \<Longrightarrow> findTask i (s\<lparr>faults := fs\<rparr>) = Some r \<Longrightarrow> t_status r \<noteq> TaskStatusRunning"
  unfolding idle_def findTask_def by (auto dest: firstWhere_Some)

lemma idle_transition:
  assumes "idle i s" and "transitionTaskTx e i [TaskStatusRunning] to ty pl res em s = (Inr b, s')"
  shows "\<not> b"
proof -
  from assms(2) obtain row s1 where q: "noRowsAsNone (queryRow (\<lambda>s. map_option (\<lambda>r. (t_status r, t_session_id r)) (findTask i s))) s = (Inr row, s1)"
    and rest: "row = None \<Longrightarrow> \<not> b" "\<And>st sid. row = Some (st, sid) \<Longrightarrow> st \<noteq> TaskStatusRunning \<Longrightarrow> \<not> b"
    by (force simp: transitionTaskTx_def bindS_Inr)
  from q obtain fs where "s1 = s\<lparr>faults := fs\<rparr>" "row = None \<or> row = map_option (\<lambda>r. (t_status r, t_session_id r)) (findTask i s1)"
    by (rule noRows_InrE)
  with rest idle_find [OF assms(1), of fs] show ?thesis by (cases row; cases "findTask i s1") auto
qed

lemma idle_complete:
  assumes "idle i s"
  shows "tasks (snd (CompleteTask e i res s)) = tasks s"
proof -
  obtain q s1 where tx: "with_tx (ErrWrap ''begin complete task tx'') (\<lambda>_. ErrWrap ''commit complete task tx'')
      (bindS (wrapS ''complete task transition'' (transitionTaskTx e i [TaskStatusRunning] TaskStatusSucceeded
                ''task.succeeded'' ''{\"reason\":\"processor_success\"}'' (Some res) None))
       (\<lambda>ok. if \<not> ok then failS ErrNoRows
          else bindS (wrapS ''clear lease on complete'' (execS (updTasks (taskAt i TaskStatusSucceeded)
                   (\<lambda>r. (clearLease e r)\<lparr>t_error := None\<rparr>)))) (\<lambda>_. retS (Commit ())))) s = (q, s1)" (is "with_tx ?b ?c ?body s = _") by fastforce
  have i: "idle i t" if "same_tables s t" for t
    using assms same_tables_fields(1) [OF that] by (simp add: idle_def)
  have "isl q"
  proof (rule ccontr)
    assume "\<not> isl q"
    then obtain a where "q = Inr a" by (cases q) auto
    with tx have "with_tx ?b ?c ?body s = (Inr a, s1)" by simp
    then show False by (cases rule: with_tx_InrE) (auto simp: bindS_Inr dest!: idle_transition [OF i] split: if_splits)
  qed
  then obtain er where q: "q = Inl er" by (auto simp: isl_def)
  with tx have "CompleteTask e i res s = (Inl er, s1)" by (simp add: CompleteTask_def bindS_def [of "with_tx _ _ _"])
  moreover have "tasks s1 = tasks s" using with_tx_error_rolls_back [OF tx [unfolded q]] by (rule same_tables_fields)
  ultimately show ?thesis by simp
qed

lemma idle_failure:
  assumes "idle i s"
  shows "tasks (snd (HandleTaskFailure e i msg s)) = tasks s"
proof -
  obtain q s1 where tx: "HandleTaskFailure e i msg s = (q, s1)" by fastforce
  have i: "idle i t" if "same_tables s t" for t
    using assms same_tables_fields(1) [OF that] by (simp add: idle_def)
  have "isl q"
  proof (rule ccontr)
    assume "\<not> isl q"
    then obtain a where "q = Inr a" by (cases q) auto
    with tx have "HandleTaskFailure e i msg s = (Inr a, s1)" by simp
    then show False unfolding HandleTaskFailure_def
      by (cases rule: with_tx_InrE) (auto simp: bindS_Inr elim!: stmt_elims dest!: idle_find [OF i] split: option.splits if_splits)
  qed
  then obtain er where q: "q = Inl er" by (auto simp: isl_def)
  with tx have "same_tables s s1" unfolding HandleTaskFailure_def by (simp add: with_tx_error_rolls_back)
  then show ?thesis unfolding tx by (simp add: same_tables_fields(1))
qed

text \<open>A streamed chat stays in the queue: \<open>streamChatTask\<close> answers the caller directly, but the task it
  created is still QUEUED when it returns, because completing or failing a task needs it to be RUNNING and
  the error is dropped; a worker of the agent claims it and answers it again.\<close>

theorem streamed_task_stays_queued:
  fixes s :: "'x engine_store_scheme"
  assumes "streamChatTask en up e e1 i tr rn a sid c onChunk s = ((j, None), s')"
    and "\<And>b j x y z f s. eproc en = EchoProcessor (Some b) j \<Longrightarrow> (\<And>tok s. tasks (snd (f tok s)) = tasks s) \<Longrightarrow>
      tasks (snd (StreamTo b x y z f s)) = tasks s"
    and "\<And>tok s. tasks (snd (onChunk tok s)) = tasks s"
    and "now e div 10^9 \<le> now e2 div 10^9"
  shows "\<exists>r. findTask j s' = Some r \<and> t_status r = TaskStatusQueued \<and> claimable e2 (agentOrDefault a) r"
proof -
  let ?r = "queuedRow e i sid (agentOrDefault a) (encodeChatTask \<lparr>PContent = c, PMessageDepth = 0\<rparr>)"
  let ?m = "bindS (backpressure (CMaxQueueDepth (config en)) a)
    (\<lambda>_. bindS (wrapS ''stream chat task: ensure session'' (EnsureSession up e sid))
    (\<lambda>_. bindS (wrapS ''stream chat task: add history'' (AddHistory e sid a ''user'' c (int (EstimateTokens c))))
    (\<lambda>_. wrapS ''stream chat task: create task'' (insertChatTask e i a sid \<lparr>PContent = c, PMessageDepth = 0\<rparr>))))"
  from assms(1) obtain k s1 where m: "?m s = (Inr k, s1)"
    by (auto simp: streamChatTask_def split: prod.splits sum.splits)
  then have m': "createChatTaskWithDepth en up e i a sid c 0 s = (Inr k, s1)"
    by (auto simp: bindS_Inr createChatTaskWithDepth_def)
  note c = createChat_InrE [OF this]
  have id: "idle i s1" using c(2,3) by (auto simp: idle_def hasTask_def queuedRow_def)
  have idp: "idle i t" if "tasks t = tasks s1" for t :: "'x engine_store_scheme" using id that by (simp add: idle_def)
  obtain bg x where run: "streamRun en bg x i a sid c onChunk s1 = ((j, None), s')"
    using assms(1) m c(1) by (simp add: streamChatTask_def Let_def)
  then obtain b je where b: "eproc en = EchoProcessor (Some b) je"
    by (auto simp: streamRun_def split: Processor.splits option.splits)
  obtain q s2 where st: "StreamTo b x sid c (wrappedOnChunk en i a onChunk) s1 = (q, s2)" by fastforce
  have "tasks (snd (wrappedOnChunk en i a onChunk tok s)) = tasks s" for tok s
    using assms(3) by (simp add: wrappedOnChunk_def publishS_def split: option.splits)
  then have s2: "tasks s2 = tasks s1" using assms(2) [OF b, of "wrappedOnChunk en i a onChunk" x sid c s1] st by simp
  have "tasks s' = tasks s1 \<and> j = i"
    using run b st s2 idle_complete [OF idp] idle_failure [OF idp]
    by (auto simp: streamRun_def Let_def publishS_def split: option.splits sum.splits if_splits)
  moreover have "findTask i s1 = Some ?r"
    using findTask_new [OF c(2,3)] by (simp add: queuedRow_def)
  ultimately have "findTask j s' = Some ?r" by (simp add: findTask_def)
  moreover have "claimable e2 (agentOrDefault a) ?r"
    using assms(4) by (simp add: claimable_def queuedRow_def CURRENT_TIMESTAMP_def)
  ultimately show ?thesis by (auto simp: queuedRow_def)
qed

theorem streamed_task_stays_queued_witness:
  "\<exists>r s'. streamChatTask exEngine noUuid (exEnv 200) (exEnv 201) ''t2'' ''tr'' ''rn'' ''b'' ''s'' ''hi'' (\<lambda>tok s. (Inr (), s)) (exEngineStore exQueued) =
      ((''t2'', None), s') \<and> findTask ''t2'' s' = Some r \<and> t_status r = TaskStatusQueued \<and> claimable (exEnv 202) ''b'' r"
proof -
  have u: "toLower (trimSpace ''user'') = ''user''" by code_simp
  have "\<exists>s'. streamChatTask exEngine noUuid (exEnv 200) (exEnv 201) ''t2'' ''tr'' ''rn'' ''b'' ''s'' ''hi'' (\<lambda>tok s. (Inr (), s)) (exEngineStore exQueued) =
      ((''t2'', None), s')"
    by (simp add: streamChatTask_def streamRun_def exBrain_def wrappedOnChunk_def u
        backpressure_def exEngine_proc exConfig_def queueDepthOf_def QueueDepthForAgent_def EnsureSession_def noUuid_def AddHistory_def
        messageRoles_def insertChatTask_def CreateTaskForAgent_def createTask_def exQueued_eq exTables_def emptyStore_def
        tx_eval store_eval queryS_def taskCount_def countWhere_def exRow_def insertMessage_def queuedRow_def)
  then obtain s' where s': "streamChatTask exEngine noUuid (exEnv 200) (exEnv 201) ''t2'' ''tr'' ''rn'' ''b'' ''s'' ''hi'' (\<lambda>tok s. (Inr (), s)) (exEngineStore exQueued) =
      ((''t2'', None), s')" by blast
  have "\<exists>r. findTask ''t2'' s' = Some r \<and> t_status r = TaskStatusQueued \<and> claimable (exEnv 202) (agentOrDefault ''b'') r"
    using s' by (rule streamed_task_stays_queued) (auto simp: exEngine_proc exBrain_def exEnv_def)
  then obtain r where "findTask ''t2'' s' = Some r" "t_status r = TaskStatusQueued" "claimable (exEnv 202) ''b'' r"
    by (auto simp: agentOrDefault_def)
  with s' show ?thesis by blast
qed

end
