(* ===== verification/Plan_Approval.thy ===== *)
theory Plan_Approval
  imports Plan_Executor
begin

text \<open>
  The approval gate of a plan step (\<open>internal/coordinator/executor.go\<close>: \<open>executeStepWithApproval\<close>,
  \<open>waitForApproval\<close>) on the event bus. The actions of the environment are a list: publications of
  other goroutines and the moments at which the waiting goroutine's \<open>select\<close> looks at its channel;
  after the last one the deadline has passed. \<open>before\<close> lists what others publish between the request
  and the subscription.
\<close>

datatype busAct = Other string payload | Look

definition topicRequested :: string where
  "topicRequested = ''hitl.approval.requested''"

definition topicResponse :: string where
  "topicResponse = ''hitl.approval.response''"

fun awaitResponse :: "string \<Rightarrow> string \<Rightarrow> nat \<Rightarrow> busAct list \<Rightarrow> payload Bus \<Rightarrow> (StepResult \<times> err option) \<times> payload Bus" where
  "awaitResponse requestID stepID i [] b =
    ((noResult\<lparr>SStatus := ''FAILED'', SError := ''approval timeout''\<rparr>, Some (ErrMsg (''approval timeout for step '' @ stepID))),
     Publish b topicResponse (PApprovalResponse requestID ''auto-reject'' ''approval timeout''))"
| "awaitResponse requestID stepID i (Other topic p # acts) b = awaitResponse requestID stepID i acts (Publish b topic p)"
| "awaitResponse requestID stepID i (Look # acts) b =
    (case Recv b i of
       (None, b1) \<Rightarrow> awaitResponse requestID stepID i acts b1
     | (Some ev, b1) \<Rightarrow>
        (case Payload ev of
           PApprovalResponse rid action reason \<Rightarrow>
             (if rid \<noteq> requestID then awaitResponse requestID stepID i acts b1
              else if action = ''approve''
              then ((noResult\<lparr>SStatus := ''APPROVED'', SOutput := ''approval granted''\<rparr>, None), b1)
              else if action = ''reject''
              then ((noResult\<lparr>SStatus := ''FAILED'', SError := ''approval rejected: '' @ reason\<rparr>,
                     Some (ErrMsg (''approval rejected: '' @ reason))), b1)
              else awaitResponse requestID stepID i acts b1)
         | _ \<Rightarrow> awaitResponse requestID stepID i acts b1))"

definition waitForApproval :: "string \<Rightarrow> string \<Rightarrow> busAct list \<Rightarrow> payload Bus option \<Rightarrow>
    (StepResult \<times> err option) \<times> payload Bus option" where
  "waitForApproval requestID stepID acts bo =
    (case bo of
       None \<Rightarrow> ((noResult\<lparr>SStatus := ''WAITING_APPROVAL'', SError := ''event bus not available''\<rparr>, None), None)
     | Some b \<Rightarrow>
        (let (sub, b1) = Subscribe b topicResponse;
             (r, b2) = awaitResponse requestID stepID (sub_id sub) acts b1
         in (r, Some (Unsubscribe b2 (Some (sub_id sub))))))"

definition publishAll :: "(string \<times> payload) list \<Rightarrow> payload Bus \<Rightarrow> payload Bus" where
  "publishAll ps b = foldl (\<lambda>b (t, p). Publish b t p) b ps"

definition executeStepWithApproval :: "string \<Rightarrow> string \<Rightarrow> PlanStep \<Rightarrow> (string \<times> payload) list \<Rightarrow> busAct list \<Rightarrow>
    payload Bus option \<Rightarrow> (StepResult option \<times> err option) \<times> payload Bus option" where
  "executeStepWithApproval requestID execID step before acts bo =
    (if \<not> RequireApproval step then ((None, Some (ErrMsg ''step does not require approval'')), bo)
     else
       (let bo1 = map_option (\<lambda>b. publishAll before (Publish b topicRequested
                    (PApprovalRequest requestID execID (StepID step) (Prompt step) (ApprovalTimeoutMs step)))) bo;
            ((r, e), bo2) = waitForApproval requestID (StepID step) acts bo1
        in ((Some r, e), bo2)))"


section \<open>Approval\<close>

text \<open>What a waiter can see of a bus: the fields its own channel depends on.\<close>

definition sameChannel :: "nat \<Rightarrow> payload Bus \<Rightarrow> payload Bus \<Rightarrow> bool" where
  "sameChannel i b c \<longleftrightarrow> firstWhere (\<lambda>x. sub_id x = i) (subs b) = firstWhere (\<lambda>x. sub_id x = i) (subs c)"

lemma sameChannel_Publish: "sameChannel i b c \<Longrightarrow> sameChannel i (Publish b t p) (Publish c t p)"
  by (simp add: sameChannel_def Publish_spec firstWhere_map_id)

lemma sameChannel_Recv: "sameChannel i b c \<Longrightarrow> fst (Recv b i) = fst (Recv c i) \<and> sameChannel i (snd (Recv b i)) (snd (Recv c i))"
  by (auto simp: sameChannel_def Recv_def firstWhere_upd split: option.splits list.splits)

lemma awaitResponse_channel: "sameChannel i b c \<Longrightarrow> fst (awaitResponse rid st i acts b) = fst (awaitResponse rid st i acts c)"
proof (induction acts arbitrary: b c)
  case (Cons act acts)
  show ?case
  proof (cases act)
    case (Other t p)
    with Cons.IH [OF sameChannel_Publish [OF Cons.prems]] show ?thesis by simp
  next
    case Look
    from sameChannel_Recv [OF Cons.prems] obtain ev b1 c1 where "Recv b i = (ev, b1)" "Recv c i = (ev, c1)" "sameChannel i b1 c1"
      by (metis prod.collapse)
    with Look Cons.IH [of b1 c1] show ?thesis by (auto split: option.splits payload.splits)
  qed
qed simp

lemma publishAll_nextID: "nextID (publishAll ps b) = nextID b"
  unfolding publishAll_def by (induction ps arbitrary: b) (auto simp: Publish_spec)

lemma publishAll_inv: "bus_inv b \<Longrightarrow> bus_inv (publishAll ps b)"
  unfolding publishAll_def by (induction ps arbitrary: b) (auto simp: bus_inv_Publish)

lemma bus_inv_ids: "bus_inv b \<Longrightarrow> \<forall>x\<in>set (subs b). sub_id x \<le> nextID b"
  by (simp add: bus_inv_def)

lemma fresh_channel:
  assumes "\<forall>x\<in>set (subs b). sub_id x \<le> nextID b"
  shows "firstWhere (\<lambda>x. sub_id x = Suc (nextID b)) (subs (snd (Subscribe b t))) = Some \<lparr>sub_id = Suc (nextID b), sub_prefix = t, ch = []\<rparr>"
proof -
  have "firstWhere (\<lambda>x. sub_id x = Suc (nextID b)) (subs b) = None" using assms by (auto simp: firstWhere_None)
  then show ?thesis by (simp add: Subscribe_def Let_def firstWhere_app) (simp add: firstWhere_def)
qed

text \<open>An answer that comes early is lost: whatever is published between the approval request and the
  executor's subscription, the approval or rejection of that very request included, the outcome is the one
  without it; a prompt answer makes the step time out and fail.\<close>

theorem early_answers_are_lost:
  assumes "bus_inv b"
  shows "fst (executeStepWithApproval rid ex step before acts (Some b)) = fst (executeStepWithApproval rid ex step [] acts (Some b))"
proof -
  let ?req = "Publish b topicRequested (PApprovalRequest rid ex (StepID step) (Prompt step) (ApprovalTimeoutMs step))"
  have inv: "bus_inv ?req" by (rule bus_inv_Publish [OF assms])
  let ?b = "publishAll before ?req"
  have n: "nextID ?b = nextID ?req" by (rule publishAll_nextID)
  have "\<forall>x\<in>set (subs ?req). sub_id x \<le> nextID ?req" using inv by (rule bus_inv_ids)
  moreover have "\<forall>x\<in>set (subs ?b). sub_id x \<le> nextID ?b" using publishAll_inv [OF inv] by (rule bus_inv_ids)
  ultimately have "sameChannel (Suc (nextID ?req)) (snd (Subscribe ?b topicResponse)) (snd (Subscribe ?req topicResponse))"
    unfolding sameChannel_def using fresh_channel [of ?b topicResponse] fresh_channel [of ?req topicResponse] n by simp
  from awaitResponse_channel [OF this, of rid "StepID step" acts] show ?thesis
    by (auto simp: executeStepWithApproval_def waitForApproval_def publishAll_def [of "[]"] Let_def Subscribe_def n split: prod.splits)
qed

definition exGated :: PlanStep where
  "exGated = (exStep ''a'' [])\<lparr>RequireApproval := True\<rparr>"

theorem early_answers_are_lost_witness:
  "fst (executeStepWithApproval ''r1'' ''e1'' exGated [(topicResponse, PApprovalResponse ''r1'' ''approve'' '''')] [Look, Look] (Some New)) =
   (Some (noResult\<lparr>SStatus := ''FAILED'', SError := ''approval timeout''\<rparr>), Some (ErrMsg ''approval timeout for step a''))"
proof -
  have "bus_inv New" unfolding New_def by (rule bus_inv_New)
  note early_answers_are_lost [OF this, of "''r1''" "''e1''" exGated
    "[(topicResponse, PApprovalResponse ''r1'' ''approve'' '''')]" "[Look, Look]"]
  also have "fst (executeStepWithApproval ''r1'' ''e1'' exGated [] [Look, Look] (Some New)) =
     (Some (noResult\<lparr>SStatus := ''FAILED'', SError := ''approval timeout''\<rparr>), Some (ErrMsg ''approval timeout for step a''))"
    by (simp add: executeStepWithApproval_def waitForApproval_def publishAll_def Let_def Subscribe_def New_def NewWithLogger_def Publish_def
        exGated_def exStep_def Recv_def firstWhere_def)
  finally show ?thesis .
qed

text \<open>The subscription of the wait, with the events it holds.\<close>

definition holding :: "nat \<Rightarrow> payload Event list \<Rightarrow> payload Bus \<Rightarrow> bool" where
  "holding i evs b \<longleftrightarrow> firstWhere (\<lambda>x. sub_id x = i) (subs b) = Some \<lparr>sub_id = i, sub_prefix = topicResponse, ch = evs\<rparr>"

lemma holding_Publish:
  "holding i evs b \<Longrightarrow> length evs < defaultBufferSize \<Longrightarrow>
   holding i (if prefix topicResponse t then evs @ [\<lparr>Topic = t, Payload = p\<rparr>] else evs) (Publish b t p)"
  by (simp add: holding_def Publish_spec firstWhere_map_id delivered_def matches_def hasRoom_def topicResponse_def)

lemma holding_Recv: "holding i (ev # evs) b \<Longrightarrow> \<exists>b1. Recv b i = (Some ev, b1) \<and> holding i evs b1"
  by (auto simp: holding_def Recv_def firstWhere_upd)

text \<open>An event that is no decision about the request.\<close>

definition irrelevant :: "string \<Rightarrow> payload \<Rightarrow> bool" where
  "irrelevant rid p = (case p of PApprovalResponse r action _ \<Rightarrow> r \<noteq> rid \<or> action \<notin> {''approve'', ''reject''} | _ \<Rightarrow> True)"

lemma awaitResponse_publishes:
  assumes "holding i evs b" and "length evs + length ps \<le> defaultBufferSize"
  shows "\<exists>b' tail_evs. awaitResponse rid st i (map (\<lambda>(t, p). Other t p) ps @ acts) b = awaitResponse rid st i acts b' \<and> holding i (evs @ tail_evs) b' \<and>
    tail_evs = map (\<lambda>(t, p). \<lparr>Topic = t, Payload = p\<rparr>) (filter (\<lambda>(t, p). prefix topicResponse t) ps)"
  using assms
proof (induction ps arbitrary: evs b)
  case (Cons q ps)
  obtain t p where q: "q = (t, p)" by force
  have "length evs < defaultBufferSize" using Cons.prems(2) by simp
  from holding_Publish [OF Cons.prems(1) this, of t p] Cons.IH Cons.prems(2) q show ?case by (fastforce split: if_splits)
qed auto

lemma awaitResponse_looks:
  assumes "holding i (evs @ [\<lparr>Topic = t, Payload = PApprovalResponse rid action reason\<rparr>] @ tail_evs) b" and "\<forall>ev\<in>set evs. irrelevant rid (Payload ev)"
    and "length evs \<le> n" and "action = ''approve'' \<or> action = ''reject''"
  shows "fst (awaitResponse rid st i (replicate (Suc n) Look @ acts) b) =
    (if action = ''approve'' then (noResult\<lparr>SStatus := ''APPROVED'', SOutput := ''approval granted''\<rparr>, None)
     else (noResult\<lparr>SStatus := ''FAILED'', SError := ''approval rejected: '' @ reason\<rparr>, Some (ErrMsg (''approval rejected: '' @ reason))))"
  using assms(1-3)
proof (induction evs arbitrary: b n)
  case Nil
  from holding_Recv [of i _ _ b] Nil.prems(1) obtain b1 where "Recv b i = (Some \<lparr>Topic = t, Payload = PApprovalResponse rid action reason\<rparr>, b1)" by auto
  with assms(4) show ?case by auto
next
  case (Cons ev evs)
  then obtain m where n: "n = Suc m" by (cases n) auto
  from holding_Recv [of i ev _ b] Cons.prems(1) obtain b1 where b1: "Recv b i = (Some ev, b1)"
    "holding i (evs @ [\<lparr>Topic = t, Payload = PApprovalResponse rid action reason\<rparr>] @ tail_evs) b1" by auto
  have ir: "irrelevant rid (Payload ev)" using Cons.prems(2) by simp
  have "fst (awaitResponse rid st i (replicate (Suc n) Look @ acts) b) = fst (awaitResponse rid st i (replicate (Suc m) Look @ acts) b1)"
    using b1(1) ir by (auto simp: n irrelevant_def split: payload.splits)
  with Cons.IH [OF b1(2)] Cons.prems(2,3) n show ?case by simp
qed

text \<open>An answer that comes in time decides: among up to a hundred events published after the subscription, the
  first decision about the request ends the wait, whatever events of other topics or about other requests come before
  it; an approval gives APPROVED and no error, a rejection FAILED with the reason.\<close>

theorem timely_answer_decides:
  assumes "bus_inv b" and "RequireApproval step" and "\<forall>(t, p)\<in>set ps. irrelevant rid p" and "length ps < 100"
    and "action = ''approve'' \<or> action = ''reject''"
  shows "fst (executeStepWithApproval rid ex step before
      (map (\<lambda>(t, p). Other t p) (ps @ [(topicResponse, PApprovalResponse rid action reason)]) @ replicate (Suc (length ps)) Look @ acts) (Some b)) =
    (if action = ''approve'' then (Some (noResult\<lparr>SStatus := ''APPROVED'', SOutput := ''approval granted''\<rparr>), None)
     else (Some (noResult\<lparr>SStatus := ''FAILED'', SError := ''approval rejected: '' @ reason\<rparr>), Some (ErrMsg (''approval rejected: '' @ reason))))"
proof -
  let ?req = "Publish b topicRequested (PApprovalRequest rid ex (StepID step) (Prompt step) (ApprovalTimeoutMs step))"
  let ?b = "publishAll before ?req"
  let ?qs = "ps @ [(topicResponse, PApprovalResponse rid action reason)]"
  let ?looks = "replicate (Suc (length ps)) Look @ acts"
  let ?sub = "snd (Subscribe ?b topicResponse)"
  have "\<forall>x\<in>set (subs ?b). sub_id x \<le> nextID ?b"
    using publishAll_inv [OF bus_inv_Publish [OF assms(1)]] by (rule bus_inv_ids)
  then have h: "holding (Suc (nextID ?b)) [] ?sub" unfolding holding_def by (rule fresh_channel)
  have len: "length ([] :: payload Event list) + length ?qs \<le> defaultBufferSize" using assms(4) by (simp add: defaultBufferSize_def)
  from awaitResponse_publishes [OF h len, of rid "StepID step" ?looks] obtain b' where
    b': "awaitResponse rid (StepID step) (Suc (nextID ?b)) (map (\<lambda>(t, p). Other t p) ?qs @ ?looks) ?sub =
      awaitResponse rid (StepID step) (Suc (nextID ?b)) ?looks b'"
    "holding (Suc (nextID ?b)) (map (\<lambda>(t, p). \<lparr>Topic = t, Payload = p\<rparr>) (filter (\<lambda>(t, p). prefix topicResponse t) ps) @
       [\<lparr>Topic = topicResponse, Payload = PApprovalResponse rid action reason\<rparr>] @ []) b'"
    by auto
  have ir: "\<forall>ev\<in>set (map (\<lambda>(t, p). \<lparr>Topic = t, Payload = p\<rparr>) (filter (\<lambda>(t, p). prefix topicResponse t) ps)). irrelevant rid (Payload ev)"
    using assms(3) by auto
  have "length (map (\<lambda>(t, p). \<lparr>Topic = t, Payload = p\<rparr>) (filter (\<lambda>(t, p). prefix topicResponse t) ps)) \<le> length ps" by simp
  from awaitResponse_looks [OF b'(2) ir this assms(5), of "StepID step" acts]
  have "fst (awaitResponse rid (StepID step) (Suc (nextID ?b)) (map (\<lambda>(t, p). Other t p) ?qs @ ?looks) ?sub) =
    (if action = ''approve'' then (noResult\<lparr>SStatus := ''APPROVED'', SOutput := ''approval granted''\<rparr>, None)
     else (noResult\<lparr>SStatus := ''FAILED'', SError := ''approval rejected: '' @ reason\<rparr>, Some (ErrMsg (''approval rejected: '' @ reason))))"
    unfolding b'(1) .
  moreover have "Subscribe ?b topicResponse = (fst (Subscribe ?b topicResponse), ?sub)" "sub_id (fst (Subscribe ?b topicResponse)) = Suc (nextID ?b)"
    by (simp_all add: Subscribe_def Let_def)
  ultimately show ?thesis using assms(2)
    by (simp add: executeStepWithApproval_def waitForApproval_def Let_def case_prod_beta)
qed

theorem timely_answer_decides_witness:
  "fst (executeStepWithApproval ''r1'' ''e1'' exGated []
     [Other topicResponse (PApprovalResponse ''r0'' ''reject'' ''no''), Other topicResponse (PApprovalResponse ''r1'' ''approve'' ''''), Look, Look] (Some New)) =
   (Some (noResult\<lparr>SStatus := ''APPROVED'', SOutput := ''approval granted''\<rparr>), None)"
proof -
  have "bus_inv New" unfolding New_def by (rule bus_inv_New)
  from timely_answer_decides [OF this, of exGated "[(topicResponse, PApprovalResponse ''r0'' ''reject'' ''no'')]" "''r1''" "''approve''" "''e1''" "[]" "''''" "[]"]
  show ?thesis by (simp add: exGated_def irrelevant_def)
qed

section \<open>The approval flag\<close>

definition ungated :: "PlanStep \<Rightarrow> PlanStep" where
  "ungated st = st\<lparr>RequireApproval := False, ApprovalTimeoutMs := 0\<rparr>"

lemma ungated_fields [simp]: "StepID (ungated st) = StepID st" "StepAgent (ungated st) = StepAgent st" "Prompt (ungated st) = Prompt st"
  "DependsOn (ungated st) = DependsOn st" "MaxRetries (ungated st) = MaxRetries st"
  by (simp_all add: ungated_def)

lemma ungated_ids [simp]: "StepID \<circ> ungated = StepID"
  by (simp add: fun_eq_iff)

lemma ready_ungated: "filter (ready processed) (map ungated steps) = map ungated (filter (ready processed) steps)"
  by (induction steps) (auto simp: ready_def)

lemma mark_ungated: "mark processed (map ungated w) = mark processed w"
  by (induction w arbitrary: processed) auto

lemma topoWaves_ungated: "topoWaves (map ungated steps) processed = map_sum id (map (map ungated)) (topoWaves steps processed)"
proof (induction steps processed rule: topoWaves.induct)
  case (1 steps processed)
  show ?case using 1
    by (subst (1 2) topoWaves.simps) (auto simp: Let_def ready_ungated mark_ungated split: sum.splits)
qed

lemma unknownDep_ungated: "unknownDep known (map ungated steps) = unknownDep known steps"
  by (induction steps) (auto split: option.splits)

lemma topoSort_ungated: "topoSort (map ungated steps) = map_sum id (map (map ungated)) (topoSort steps)"
  by (auto simp: topoSort_def unknownDep_ungated topoWaves_ungated split: option.splits)

lemma checkIDs_ungated: "checkIDs known (map ungated steps) = checkIDs known steps"
  by (induction steps arbitrary: known) auto

lemma Validate_ungated: "Validate (p\<lparr>Steps := map ungated (Steps p)\<rparr>) = Validate p"
  by (auto simp: Validate_def checkIDs_ungated unknownDep_ungated topoSort_ungated split: option.splits sum.splits)

lemma createTasks_ungated:
  "createTasks x sch w ex sid k (map ungated steps) c result s = createTasks x sch w ex sid k steps c result s"
  by (induction steps arbitrary: k c result s) (simp_all add: Let_def split: prod.splits sum.splits)

lemma lookup_ungated: "coalesce (map_of (rev (map (\<lambda>st. (StepID st, st)) (map ungated steps))) i) zeroStep =
    ungated (coalesce (map_of (rev (map (\<lambda>st. (StepID st, st)) steps)) i) zeroStep)"
proof -
  have m: "map_of (map (\<lambda>st. (StepID st, st)) (map ungated xs)) i = map_option ungated (map_of (map (\<lambda>st. (StepID st, st)) xs) i)" for xs
    by (induction xs) auto
  have "ungated zeroStep = zeroStep" by (simp add: ungated_def zeroStep_def)
  with m [of "rev steps"] show ?thesis
    unfolding rev_map [symmetric] by (cases "map_of (map (\<lambda>st. (StepID st, st)) (rev steps)) i") (simp_all add: rev_map)
qed

lemma retryStep_ungated: "retryStep x sch w ex sid j (ungated st) i tr s = retryStep x sch w ex sid j st i tr s"
  unfolding retryStep_def RetryWithError_def ungated_fields by (rule refl)

lemma settle_ungated:
  "settle x sch w ex sid t2s (map ungated steps) j rs result s = settle x sch w ex sid t2s steps j rs result s"
  by (induction rs arbitrary: j result s) (simp, auto simp only: settle.simps Let_def lookup_ungated retryStep_ungated split: prod.splits)

lemma executeWave_ungated: "executeWave x sch w ex sid (map ungated steps) result s = executeWave x sch w ex sid steps result s"
  by (simp add: executeWave_def createTasks_ungated settle_ungated Let_def cong: prod.case_cong sum.case_cong if_cong)

lemma runWaves_ungated: "runWaves x sch ex sid own w (map (map ungated) ws) result s = runWaves x sch ex sid own w ws result s"
  by (induction ws arbitrary: w result s) (auto simp: executeWave_ungated split: prod.splits option.splits)

lemma stepRecords_ungated: "stepRecords (map (map ungated) order) = stepRecords order"
proof -
  have "map (\<lambda>(k, st). stepRecord n k st) (enumerate m (map ungated wave)) = map (\<lambda>(k, st). stepRecord n k st) (enumerate m wave)" for n m wave
    by (induction wave arbitrary: m) (simp_all add: stepRecord_def)
  then have "map (\<lambda>(n, wave). map (\<lambda>(k, st). stepRecord n k st) (enumerate 0 wave)) (enumerate m (map (map ungated) order)) =
      map (\<lambda>(n, wave). map (\<lambda>(k, st). stepRecord n k st) (enumerate 0 wave)) (enumerate m order)" for m
    by (induction order arbitrary: m) simp_all
  then show ?thesis unfolding stepRecords_def by simp
qed

text \<open>The executor never asks: a step's approval flag and timeout have no influence on \<open>Execute\<close>. Running a plan
  gives the same results, errors and database as running it with every flag cleared, so a step that requires
  approval is carried out without one.\<close>

theorem approval_flag_ignored:
  "Execute x sch e0 newID uuids (plan\<lparr>Steps := map ungated (Steps plan)\<rparr>) sid exid s = Execute x sch e0 newID uuids plan sid exid s"
proof (cases "Validate plan")
  case (Inl e)
  then show ?thesis by (simp add: Execute_def Validate_ungated)
next
  case (Inr u)
  then obtain order where "topoSort (Steps plan) = Inr order" by (auto simp: Validate_Inr)
  with Inr show ?thesis
    unfolding Execute_def Validate_ungated by (simp add: topoSort_ungated Let_def stepRecords_ungated)
      (simp only: runWaves_ungated length_map, simp)
qed

end
