(* ===== verification/Plan_Runs.thy ===== *)
theory Plan_Runs
  imports Engine_Intake Plan_Approval
begin

text \<open>
  Plans executed on the engines: the executor of \<open>internal/coordinator\<close> with the registry of running
  agents as its router. What holds of every run: all steps finish, in dependency order; what the
  run leaves in the step table; and what the configuration can load.
\<close>

section \<open>A plan that is executed without an error\<close>

lemma Execute_None:
  assumes "Execute x sch e0 newID uuids plan sid exid s = ((Some r, None), s')"
  obtains order s1 s2 where "Validate plan = Inr ()" and "topoSort (Steps plan) = Inr order"
    and "runWaves x sch (ExecutionID r) sid (exid = '''' \<and> hasStore x) 0 order [] s1 = (None, StepResults r, s2)"
  using assms by (auto simp: Execute_def Let_def split: sum.splits prod.splits option.splits if_splits)

lemma Validate_distinct: "Validate plan = Inr () \<Longrightarrow> distinct (map StepID (Steps plan))"
  by (auto simp: Validate_Inr checkIDs_None)

lemma wave_order:
  assumes "Validate plan = Inr ()" and "topoSort (Steps plan) = Inr order"
  shows "set (concat order) = set (Steps plan)" and "layered [] order"
  using topoSort_waves [OF Validate_distinct [OF assms(1)] assms(2)] by (metis mset_eq_setD, simp)

section \<open>Example: a plan of two steps\<close>

definition twoPlan :: Plan where
  "twoPlan = \<lparr>PlanName = ''p'', Steps = [(exStep ''b'' [''a''])\<lparr>StepAgent := ''b''\<rparr>, (exStep ''a'' [])\<lparr>StepAgent := ''b''\<rparr>]\<rparr>"

text \<open>The environment of the example: every task is dead-lettered when it is looked at, and the database of
  the next wave is the one of the first.\<close>

definition exDeadRow :: "string \<Rightarrow> task_row" where
  "exDeadRow i = exRow\<lparr>t_id := i, t_status := TaskStatusDeadLetter, t_error := Some ''boom''\<rparr>"

definition exRouter :: "engine_store router" where
  "exRouter = (\<lambda>a sid c s. RegistryCreateChatTask (exRegistry :: engine_store registry) noUuid (exEnv 200) ''t2'' a sid c s)"

definition exExecutor :: "engine_store Executor" where
  "exExecutor = \<lparr>taskRouter = exRouter, hasWaiter = True, waiterBus = False, hasStore = False\<rparr>"

definition exSchedule :: "engine_store schedule" where
  "exSchedule = \<lparr>timeOf = (\<lambda>w. exEnv 200), promptOrder = (\<lambda>w k m. m), taskOrder = (\<lambda>w m. m),
     during = (\<lambda>w k s. \<lparr>watches = (\<lambda>j. \<lparr>first = exEngineStore (exQueued\<lparr>tasks := [exDeadRow ''t2'']\<rparr>), wakes = [], ctxErr = ErrMsg ''''\<rparr>),
        finishOrder = [0], after = exEngineStore exQueued\<rparr>)\<rparr>"

definition exRun :: "(ExecutionResult option \<times> err option) \<times> engine_store" where
  "exRun = Execute exExecutor exSchedule (exEnv 200) ''e1'' (\<lambda>_. ''u'') twoPlan ''s'' '''' (exEngineStore exQueued)"

lemma twoPlan_waves: "Validate twoPlan = Inr ()"
  "topoSort (Steps twoPlan) = Inr [[(exStep ''a'' [])\<lparr>StepAgent := ''b''\<rparr>], [(exStep ''b'' [''a''])\<lparr>StepAgent := ''b''\<rparr>]]"
  by code_simp+

lemma exWait: "\<exists>tr. RStatus tr = ''DEAD_LETTER'' \<and>
  WaitForTask False ''t2'' \<lparr>first = exEngineStore (exQueued\<lparr>tasks := [exDeadRow ''t2'']\<rparr>), wakes = [], ctxErr = ErrMsg ''''\<rparr> = Inr tr"
  by (simp add: WaitForTask_def checkTerminal_def GetTask_def tx_eval findTask_def firstWhere_def exDeadRow_def scanTask_def
      isTerminalStatus_def exQueued_eq exTables_def emptyStore_def taskResult_def)

lemma exRun_result:
  obtains r s' where "exRun = ((Some r, None), s')" "map (\<lambda>(i, sr). (i, SStatus sr)) (StepResults r) = [(''a'', ''DEAD_LETTER''), (''b'', ''DEAD_LETTER'')]"
proof -
  obtain s1 where s1: "RegistryCreateChatTask (exRegistry :: engine_store registry) noUuid (exEnv 200) ''t2'' ''b'' ''s'' ''a'' (exEngineStore exQueued) = (Inr ''t2'', s1)"
    using exAccepted by blast
  obtain tr where tr: "RStatus tr = ''DEAD_LETTER''"
    "WaitForTask False ''t2'' \<lparr>first = exEngineStore (exQueued\<lparr>tasks := [exDeadRow ''t2'']\<rparr>), wakes = [], ctxErr = ErrMsg ''''\<rparr> = Inr tr"
    using exWait by blast
  have p: "resolvePrompt ''b'' [(''a'', stepResult tr)] = ''b''" "resolvePrompt ''a'' [] = ''a''"
    by (simp_all add: resolvePrompt_def replaceAll_def)
  obtain s2 where s2: "RegistryCreateChatTask (exRegistry :: engine_store registry) noUuid (exEnv 200) ''t2'' ''b'' ''s'' ''b'' (exEngineStore exQueued) = (Inr ''t2'', s2)"
    using exAccepted by blast
  have "exRun = ((Some \<lparr>ExecutionID = ''e1'', StepResults = [(''a'', stepResult tr), (''b'', stepResult tr)]\<rparr>, None), exEngineStore exQueued)"
    unfolding exRun_def Execute_def twoPlan_waves
    by (simp add: Let_def exExecutor_def exRouter_def exSchedule_def storeIf_def executeWave_def p exStep_def s1 s2 publishIf_def
        WaitForAll_def tr putEntry_def retryStep_def)
  then show thesis by (rule that) (simp add: stepResult_def tr)
qed

lemma exFair: "topoSort (Steps twoPlan) = Inr order \<Longrightarrow> v < length order \<Longrightarrow> fairWave exSchedule v (length (order ! v))"
  by (auto simp: twoPlan_waves fairWave_def exSchedule_def less_Suc_eq)

section \<open>What a run guarantees\<close>

text \<open>C8. A plan that ends without an error has finished every step: through the registry of running agents,
  and whatever order tasks finish in, each step of the plan has a result whose task reached a terminal
  status.\<close>

theorem execute_finishes_steps:
  assumes "taskRouter x = (\<lambda>a sid c s. RegistryCreateChatTask reg up (envOf s) (newTask s) a sid c s)" and "hasWaiter x"
    and "\<And>order v. topoSort (Steps plan) = Inr order \<Longrightarrow> v < length order \<Longrightarrow> fairWave sch v (length (order ! v))"
    and "Execute x sch e0 newID uuids plan sid exid s = ((Some r, None), s')" and "step \<in> set (Steps plan)"
  shows "finished (StepResults r) (StepID step)"
proof -
  from assms(4) obtain order s1 s2 where o: "Validate plan = Inr ()" "topoSort (Steps plan) = Inr order"
    "runWaves x sch (ExecutionID r) sid (exid = '''' \<and> hasStore x) 0 order [] s1 = (None, StepResults r, s2)" by (rule Execute_None)
  have f: "\<forall>v<length order. fairWave sch (0 + v) (length (order ! v))" using assms(3) [OF o(2)] by simp
  from rt.runWaves_finished [OF assms(1,2) f o(3), of "StepID step"] wave_order(1) [OF o(1,2)] assms(5) show ?thesis by blast
qed

text \<open>The plan of the example ends without an error although its tasks were dead-lettered.\<close>

theorem execute_finishes_steps_witness:
  "\<exists>r s'. exRun = ((Some r, None), s') \<and> finished (StepResults r) ''a'' \<and>
     map (\<lambda>(i, sr). (i, SStatus sr)) (StepResults r) = [(''a'', ''DEAD_LETTER''), (''b'', ''DEAD_LETTER'')]"
proof (rule exRun_result)
  fix r s' assume r: "exRun = ((Some r, None), s')" "map (\<lambda>(i, sr). (i, SStatus sr)) (StepResults r) = [(''a'', ''DEAD_LETTER''), (''b'', ''DEAD_LETTER'')]"
  have "finished (StepResults r) (StepID ((exStep ''a'' [])\<lparr>StepAgent := ''b''\<rparr>))"
    by (rule execute_finishes_steps [OF _ _ exFair r(1) [unfolded exRun_def]])
      (auto simp: exExecutor_def exRouter_def twoPlan_def)
  with r show ?thesis by (auto simp: exStep_def)
qed




section \<open>Nothing about the outcome of a step is recorded\<close>

lemma intake_unrecorded: "unrecorded ex s \<Longrightarrow> unrecorded ex (snd (RegistryCreateChatTask reg up e j a sid c s))"
  unfolding RegistryCreateChatTask_def CreateChatTaskForAgent_def createChatTask_def createChatTaskWithDepth_def backpressure_def
    queueDepthOf_def QueueDepth_def QueueDepthForAgent_def EnsureSession_def AddHistory_def insertChatTask_def CreateTaskForAgent_def
    CreateTask_def Let_def
  by (intro ur.frame_intros ur.createTask_frame) (auto simp: unrecorded_def)

text \<open>The executor records no step outcome: the statuses it hands to \<open>RecordStepComplete\<close> are the upper-case
  ones of tasks, the table refuses them and the error is dropped, so after \<open>Execute\<close> every step row of the
  execution still says pending and a \<open>Resume\<close> finds no result to start from.\<close>

theorem step_outcomes_not_recorded:
  assumes "taskRouter x = (\<lambda>a sid c s. RegistryCreateChatTask reg up (envOf s) (newTask s) a sid c s)"
    and "\<And>w k s. unrecorded ex s \<Longrightarrow> unrecorded ex (after (during sch w k s))" and "\<And>w m. set (taskOrder sch w m) = set m"
    and "unrecorded ex s" and "ex = (if exid = '''' then newID else exid)"
    and "Execute x sch e0 newID uuids plan sid exid s = (r, s')"
  shows "unrecorded ex s' \<and> (case fst (GetPlanSteps ex s') of Inr steps \<Rightarrow> persistedResults steps = [] | Inl _ \<Rightarrow> True)"
proof -
  have "stepsPrivate ex x sch" using assms(1,2) by (simp add: stepsPrivate_def intake_unrecorded)
  then have "unrecorded ex (snd (Execute x sch e0 newID uuids plan sid exid s))"
    using assms(3,4,5) by (intro Execute_unrecorded) auto
  with assms(6) have u: "unrecorded ex s'" by simp
  have p: "\<forall>st\<in>set steps. XStatus st = ''pending''" if "GetPlanSteps ex s' = (Inr steps, s'')" for steps s''
    using that u unfolding GetPlanSteps_def by (auto simp: unrecorded_def scanStep_def elim!: queryS_InrE)
  have n: "\<forall>st\<in>set steps. XStatus st = ''pending'' \<Longrightarrow> persistedResults steps = []" for steps
    unfolding persistedResults_def by (induction steps) (auto simp: settled_def)
  show ?thesis using u p n by (cases "GetPlanSteps ex s'") (auto split: sum.splits)
qed

definition exKeeping :: "engine_store schedule" where
  "exKeeping = exSchedule\<lparr>during := (\<lambda>w k s. (during exSchedule w k s)\<lparr>after := s\<rparr>)\<rparr>"

theorem step_outcomes_not_recorded_witness:
  "unrecorded ''e1'' (snd (Execute (exExecutor\<lparr>hasStore := True\<rparr>) exKeeping (exEnv 200) ''e1'' (\<lambda>_. ''u'') twoPlan ''s'' '''' (exEngineStore exQueued)))"
proof -
  obtain r s' where r: "Execute (exExecutor\<lparr>hasStore := True\<rparr>) exKeeping (exEnv 200) ''e1'' (\<lambda>_. ''u'') twoPlan ''s'' '''' (exEngineStore exQueued) = (r, s')"
    by fastforce
  have "unrecorded ''e1'' s' \<and> (case fst (GetPlanSteps ''e1'' s') of Inr steps \<Rightarrow> persistedResults steps = [] | Inl _ \<Rightarrow> True)"
    by (rule step_outcomes_not_recorded [OF _ _ _ _ _ r, of "exRegistry :: engine_store registry" noUuid "\<lambda>_. exEnv 200" "\<lambda>_. ''t2''"])
      (auto simp: exExecutor_def exRouter_def exKeeping_def exSchedule_def unrecorded_def engine_eval)
  with r show ?thesis by simp
qed

section \<open>Plans from the configuration\<close>

lemma stepsOfConfig_Inr:
  "stepsOfConfig known name scs = Inr steps \<Longrightarrow> steps = map stepOfConfig scs \<and> (\<forall>st\<in>set steps. StepAgent st \<in> set known)"
  by (induction scs arbitrary: steps) (auto simp: stepOfConfig_def split: if_splits sum.splits)

lemma loadPlans_Inr:
  assumes "loadPlans known cfgs acc = Inr plans" and "distinct (map fst acc)"
  shows "\<exists>new. plans = acc @ new \<and> distinct (map fst plans) \<and> map fst new = map CName cfgs \<and>
    (\<forall>(n, p)\<in>set new. n \<noteq> '''' \<and> PlanName p = n \<and> Validate p = Inr () \<and> (\<forall>st\<in>set (Steps p). StepAgent st \<in> set known))"
  using assms
proof (induction cfgs arbitrary: acc)
  case (Cons pc rest)
  from Cons.prems(1) obtain steps where n: "CName pc \<noteq> ''''" "CName pc \<notin> fst ` set acc" and st: "stepsOfConfig known (CName pc) (CSteps pc) = Inr steps"
    and v: "Validate \<lparr>PlanName = CName pc, Steps = steps\<rparr> = Inr ()"
    and l: "loadPlans known rest (acc @ [(CName pc, \<lparr>PlanName = CName pc, Steps = steps\<rparr>)]) = Inr plans"
    by (auto simp: Let_def split: if_splits sum.splits)
  have "distinct (map fst (acc @ [(CName pc, \<lparr>PlanName = CName pc, Steps = steps\<rparr>)]))" using n(2) Cons.prems(2) by auto
  from Cons.IH [OF l this] n(1) v stepsOfConfig_Inr [OF st] show ?case by fastforce
qed simp

text \<open>What the configuration loads can be run: if \<open>LoadPlansFromConfig\<close> succeeds, it returns one plan per entry
  under the entry's name, the names are distinct and not empty, every plan passes \<open>Validate\<close> and every step
  names a known agent.\<close>

theorem loaded_plans_valid:
  assumes "LoadPlansFromConfig cfgs known = Inr plans"
  shows "map fst plans = map CName cfgs \<and> distinct (map fst plans) \<and>
    (\<forall>(n, p)\<in>set plans. n \<noteq> '''' \<and> PlanName p = n \<and> Validate p = Inr () \<and> (\<forall>st\<in>set (Steps p). StepAgent st \<in> set known))"
  using loadPlans_Inr [of known cfgs "[]" plans] assms unfolding LoadPlansFromConfig_def by (simp, metis)

definition exConfigs :: "PlanConfig list" where
  "exConfigs = [\<lparr>CName = ''p'', CSteps = [\<lparr>CStepID = ''a'', CStepAgent = ''b'', CPrompt = ''x'', CDependsOn = []\<rparr>]\<rparr>]"

lemma exConfigs_load: "\<exists>plans. LoadPlansFromConfig exConfigs [''b''] = Inr plans"
proof -
  have "isl (LoadPlansFromConfig exConfigs [''b'']) = False" by code_simp
  then show ?thesis by (cases "LoadPlansFromConfig exConfigs [''b'']") auto
qed

theorem loaded_plans_valid_witness: "\<exists>plans. LoadPlansFromConfig exConfigs [''b''] = Inr plans \<and> map fst plans = [''p'']"
proof -
  obtain plans where p: "LoadPlansFromConfig exConfigs [''b''] = Inr plans" using exConfigs_load by blast
  from loaded_plans_valid [OF p] p show ?thesis by (simp add: exConfigs_def)
qed

end
