(* ===== verification/Go_Net.thy ===== *)
theory Go_Net
  imports Prelude
begin

text \<open>
  What the policy uses of Go's packages \<open>net/url\<close> and \<open>net/netip\<close> (Go 1.24): \<open>url.Parse\<close> with the
  scheme and the host it finds, \<open>URL.Hostname\<close>, \<open>netip.ParseAddr\<close> and the classes of addresses.
  Errors are \<open>None\<close>; their texts are not used.
\<close>

section \<open>Bytes\<close>

definition byteOf :: "char \<Rightarrow> nat" where
  "byteOf c = of_char c"

definition isLetter :: "char \<Rightarrow> bool" where
  "isLetter c = (let n = byteOf c in 65 \<le> n \<and> n \<le> 90 \<or> 97 \<le> n \<and> n \<le> 122)"

definition isDecimal :: "char \<Rightarrow> bool" where
  "isDecimal c = (48 \<le> byteOf c \<and> byteOf c \<le> 57)"

text \<open>\<open>strings.Cut\<close> at one byte: the text before, the text after, and whether it occurs.\<close>

fun cut :: "char \<Rightarrow> string \<Rightarrow> string \<times> string \<times> bool" where
  "cut sep [] = ([], [], False)"
| "cut sep (c # cs) = (if c = sep then ([], cs, True) else (case cut sep cs of (a, b, f) \<Rightarrow> (c # a, b, f)))"

text \<open>\<open>strings.LastIndex\<close> of one byte: the text before its last occurrence and the text after it.\<close>

definition cutLast :: "char \<Rightarrow> string \<Rightarrow> (string \<times> string) option" where
  "cutLast sep s = (if sep \<in> set s
     then Some (rev (tl (dropWhile (\<lambda>c. c \<noteq> sep) (rev s))), rev (takeWhile (\<lambda>c. c \<noteq> sep) (rev s))) else None)"

definition hasPrefix :: "string \<Rightarrow> string \<Rightarrow> bool" where
  "hasPrefix s p = prefix p s"

definition hasSuffix :: "string \<Rightarrow> string \<Rightarrow> bool" where
  "hasSuffix s p = suffix p s"

section \<open>URLs\<close>

datatype encoding = EncodePath | EncodeHost | EncodeZone | EncodeUserPassword | EncodeFragment

text \<open>\<open>shouldEscape\<close> for the modes in which \<open>unescape\<close> asks for it: a host or a zone.\<close>

definition hostByte :: "char \<Rightarrow> bool" where
  "hostByte c = (isLetter c \<or> isDecimal c \<or>
     c \<in> set [CHR ''!'', CHR ''$'', CHR ''&'', CHR 0x27, CHR ''('', CHR '')'', CHR ''*'', CHR ''+'', CHR '','', CHR '';'', CHR ''='',
       CHR '':'', CHR ''['', CHR '']'', CHR ''<'', CHR ''>'', CHR 0x22, CHR ''-'', CHR ''_'', CHR ''.'', CHR ''~''])"

fun unescape :: "encoding \<Rightarrow> string \<Rightarrow> string option" where
  "unescape mode [] = Some []"
| "unescape mode (c # cs) =
    (if c = CHR ''%'' then
       (case cs of a # b # rest \<Rightarrow>
          (case (hexVal a, hexVal b) of
             (Some x, Some y) \<Rightarrow>
               (let v = char_of (16 * x + y) :: char in
                if mode = EncodeHost \<and> x < 8 \<and> \<not> (a = CHR ''2'' \<and> b = CHR ''5'') then None
                else if mode = EncodeZone \<and> \<not> (a = CHR ''2'' \<and> b = CHR ''5'') \<and> v \<noteq> CHR '' '' \<and> \<not> hostByte v then None
                else map_option (\<lambda>r. v # r) (unescape mode rest))
           | _ \<Rightarrow> None)
        | _ \<Rightarrow> None)
     else if (mode = EncodeHost \<or> mode = EncodeZone) \<and> byteOf c < 128 \<and> \<not> hostByte c then None
     else map_option (\<lambda>r. c # r) (unescape mode cs))"

text \<open>\<open>getScheme\<close>: the scheme, empty when there is none, and the rest; a leading colon is an error.\<close>

fun schemeEnd :: "bool \<Rightarrow> string \<Rightarrow> (string \<times> string) option option" where
  "schemeEnd first [] = Some None"
| "schemeEnd first (c # cs) =
    (if isLetter c then map_option (map_option (\<lambda>(a, b). (c # a, b))) (schemeEnd False cs)
     else if isDecimal c \<or> c \<in> {CHR ''+'', CHR ''-'', CHR ''.''} then
       (if first then Some None else map_option (map_option (\<lambda>(a, b). (c # a, b))) (schemeEnd False cs))
     else if c = CHR '':'' then (if first then None else Some (Some ([], cs)))
     else Some None)"

definition getScheme :: "string \<Rightarrow> (string \<times> string) option" where
  "getScheme raw = map_option (\<lambda>r. case r of None \<Rightarrow> ('''', raw) | Some sr \<Rightarrow> sr) (schemeEnd True raw)"

definition validOptionalPort :: "string \<Rightarrow> bool" where
  "validOptionalPort port = (case port of [] \<Rightarrow> True | c # cs \<Rightarrow> c = CHR '':'' \<and> list_all isDecimal cs)"

text \<open>\<open>strings.Index(s, "%25")\<close>.\<close>

fun cutZone :: "string \<Rightarrow> (string \<times> string) option" where
  "cutZone [] = None"
| "cutZone (c # cs) = (if prefix ''%25'' (c # cs) then Some ([], c # cs) else map_option (\<lambda>(a, b). (c # a, b)) (cutZone cs))"

definition parseHost :: "string \<Rightarrow> string option" where
  "parseHost host =
    (if hasPrefix host ''['' then
       (case cutLast (CHR '']'') host of None \<Rightarrow> None
        | Some (inside, colonPort) \<Rightarrow>
           if \<not> validOptionalPort colonPort then None
           else (case cutZone inside of
               Some (host1, host2) \<Rightarrow>
                 (case (unescape EncodeHost host1, unescape EncodeZone host2, unescape EncodeHost (CHR '']'' # colonPort)) of
                    (Some a, Some b, Some c) \<Rightarrow> Some (a @ b @ c) | _ \<Rightarrow> None)
             | None \<Rightarrow> unescape EncodeHost host))
     else if (case cutLast (CHR '':'') host of None \<Rightarrow> False | Some (_, p) \<Rightarrow> \<not> validOptionalPort (CHR '':'' # p)) then None
     else unescape EncodeHost host)"

definition validUserinfo :: "string \<Rightarrow> bool" where
  "validUserinfo s = list_all (\<lambda>c. isLetter c \<or> isDecimal c \<or>
     c \<in> set [CHR ''-'', CHR ''.'', CHR ''_'', CHR '':'', CHR ''~'', CHR ''!'', CHR ''$'', CHR ''&'', CHR 0x27, CHR ''('', CHR '')'',
       CHR ''*'', CHR ''+'', CHR '','', CHR '';'', CHR ''='', CHR ''%'', CHR ''@'']) s"

definition parseAuthority :: "string \<Rightarrow> string option" where
  "parseAuthority authority =
    (case cutLast (CHR ''@'') authority of
       None \<Rightarrow> parseHost authority
     | Some (userinfo, h) \<Rightarrow>
        (case parseHost h of None \<Rightarrow> None
         | Some host \<Rightarrow>
            if \<not> validUserinfo userinfo then None
            else (case cut (CHR '':'') userinfo of (user, pass, _) \<Rightarrow>
               if unescape EncodeUserPassword user = None \<or> unescape EncodeUserPassword pass = None then None else Some host)))"

definition isControl :: "char \<Rightarrow> bool" where
  "isControl c = (byteOf c < 32 \<or> byteOf c = 127)"

text \<open>The path and the query behind a scheme: the host, empty when there is none.\<close>

definition parseRest :: "string \<Rightarrow> string \<Rightarrow> string option" where
  "parseRest scheme r0 =
    (let rest = fst (cut (CHR ''?'') r0) in
     if \<not> hasPrefix rest ''/'' then
       (if scheme \<noteq> '''' then Some ''''
        else if CHR '':'' \<in> set (fst (cut (CHR ''/'') rest)) then None
        else map_option (\<lambda>_. '''') (unescape EncodePath rest))
     else if (scheme \<noteq> '''' \<or> \<not> hasPrefix rest ''///'') \<and> hasPrefix rest ''//'' then
       (let authority = takeWhile (\<lambda>c. c \<noteq> CHR ''/'') (drop 2 rest);
            path = dropWhile (\<lambda>c. c \<noteq> CHR ''/'') (drop 2 rest)
        in case parseAuthority authority of None \<Rightarrow> None
           | Some host \<Rightarrow> map_option (\<lambda>_. host) (unescape EncodePath path))
     else map_option (\<lambda>_. '''') (unescape EncodePath rest))"

text \<open>\<open>url.Parse\<close>: the scheme in lower case and the field \<open>Host\<close>.\<close>

definition urlParse :: "string \<Rightarrow> (string \<times> string) option" where
  "urlParse raw =
    (case cut (CHR ''#'') raw of (u, frag, _) \<Rightarrow>
      (if list_ex isControl u then None
       else if u = ''*'' then map_option (\<lambda>_. ('''', '''')) (unescape EncodeFragment frag)
       else case getScheme u of None \<Rightarrow> None
         | Some (s, rest) \<Rightarrow>
            (case parseRest (toLower s) rest of None \<Rightarrow> None
             | Some host \<Rightarrow> map_option (\<lambda>_. (toLower s, host)) (unescape EncodeFragment frag))))"

text \<open>\<open>URL.Hostname\<close>: the host without its port and without the brackets of an IPv6 address.\<close>

definition stripPort :: "string \<Rightarrow> string" where
  "stripPort hostPort =
    (case cutLast (CHR '':'') hostPort of
       Some (host, p) \<Rightarrow> if validOptionalPort (CHR '':'' # p) then host else hostPort
     | None \<Rightarrow> hostPort)"

definition Hostname :: "string \<Rightarrow> string" where
  "Hostname hostPort =
    (let host = stripPort hostPort in
     if hasPrefix host ''['' \<and> hasSuffix host '']'' then butlast (tl host) else host)"

section \<open>Addresses\<close>

text \<open>An IPv4 address as its four bytes, an IPv6 address as its eight groups of 16 bits and its zone.\<close>

datatype addr = Addr4 "nat list" | Addr6 "nat list" string

fun splitAt :: "char \<Rightarrow> string \<Rightarrow> string list" where
  "splitAt sep [] = [[]]"
| "splitAt sep (c # cs) = (if c = sep then [] # splitAt sep cs
     else (case splitAt sep cs of [] \<Rightarrow> [[c]] | f # fs \<Rightarrow> (c # f) # fs))"

definition decimalValue :: "string \<Rightarrow> nat" where
  "decimalValue s = foldl (\<lambda>n c. n * 10 + (byteOf c - 48)) 0 s"

text \<open>A field of an IPv4 address: at most 255, no leading zero.\<close>

definition parseOctet :: "string \<Rightarrow> nat option" where
  "parseOctet s =
    (if s = [] \<or> \<not> list_all isDecimal s then None
     else if hd s = CHR ''0'' \<and> 1 < length s then None
     else if 3 < length s \<or> 255 < decimalValue s then None
     else Some (decimalValue s))"

definition allSome :: "'a option list \<Rightarrow> 'a list option" where
  "allSome xs = (if None \<in> set xs then None else Some (map the xs))"

definition parseIPv4 :: "string \<Rightarrow> nat list option" where
  "parseIPv4 s = (let fs = splitAt (CHR ''.'') s in if length fs = 4 then allSome (map parseOctet fs) else None)"

definition parseGroup :: "string \<Rightarrow> nat option" where
  "parseGroup s = (if s = [] \<or> 4 < length s then None else parseHex s)"

text \<open>Groups separated by colons; the last may be an IPv4 address, which counts as two.\<close>

definition parseGroups :: "string \<Rightarrow> nat list option" where
  "parseGroups s =
    (if s = [] then Some []
     else (let fs = splitAt (CHR '':'') s in
       if CHR ''.'' \<in> set (last fs)
       then (case (allSome (map parseGroup (butlast fs)), parseIPv4 (last fs)) of
               (Some gs, Some [a, b, c, d]) \<Rightarrow> Some (gs @ [256 * a + b, 256 * c + d]) | _ \<Rightarrow> None)
       else allSome (map parseGroup fs)))"

text \<open>The text around the first \<open>::\<close>.\<close>

fun cutEllipsis :: "string \<Rightarrow> (string \<times> string) option" where
  "cutEllipsis (a # b # cs) =
    (if a = CHR '':'' \<and> b = CHR '':'' then Some ([], cs) else map_option (\<lambda>(x, y). (a # x, y)) (cutEllipsis (b # cs)))"
| "cutEllipsis _ = None"

definition parseIPv6Groups :: "string \<Rightarrow> nat list option" where
  "parseIPv6Groups s =
    (case cutEllipsis s of
       Some (l, r) \<Rightarrow>
         (case (if CHR ''.'' \<in> set l then None else parseGroups l, parseGroups r) of
            (Some a, Some b) \<Rightarrow> if length a + length b < 8 then Some (a @ replicate (8 - length a - length b) 0 @ b) else None
          | _ \<Rightarrow> None)
     | None \<Rightarrow> (case parseGroups s of Some a \<Rightarrow> if length a = 8 then Some a else None | None \<Rightarrow> None))"

definition parseIPv6 :: "string \<Rightarrow> addr option" where
  "parseIPv6 s =
    (case cut (CHR ''%'') s of (a, zone, hasZone) \<Rightarrow>
      (if hasZone \<and> zone = '''' then None else map_option (\<lambda>gs. Addr6 gs zone) (parseIPv6Groups a)))"

text \<open>\<open>netip.ParseAddr\<close> decides by the first of the bytes \<open>.\<close>, \<open>:\<close> and \<open>%\<close>.\<close>

fun ParseAddrFrom :: "string \<Rightarrow> string \<Rightarrow> addr option" where
  "ParseAddrFrom s [] = None"
| "ParseAddrFrom s (c # cs) =
    (if c = CHR ''.'' then map_option Addr4 (parseIPv4 s)
     else if c = CHR '':'' then parseIPv6 s
     else if c = CHR ''%'' then None
     else ParseAddrFrom s cs)"

definition ParseAddr :: "string \<Rightarrow> addr option" where
  "ParseAddr s = ParseAddrFrom s s"

text \<open>\<open>Unmap\<close>: the IPv4 address inside \<open>::ffff:a.b.c.d\<close>, which the classes look at.\<close>

definition Unmap :: "addr \<Rightarrow> addr" where
  "Unmap a = (case a of
      Addr6 [0, 0, 0, 0, 0, m, x, y] z \<Rightarrow> if m = 0xffff then Addr4 [x div 256, x mod 256, y div 256, y mod 256] else a
    | _ \<Rightarrow> a)"

definition IsLoopback :: "addr \<Rightarrow> bool" where
  "IsLoopback a = (case Unmap a of Addr4 bs \<Rightarrow> hd bs = 127 | Addr6 gs _ \<Rightarrow> gs = [0, 0, 0, 0, 0, 0, 0, 1])"

definition IsPrivate :: "addr \<Rightarrow> bool" where
  "IsPrivate a = (case Unmap a of
      Addr4 bs \<Rightarrow> bs ! 0 = 10 \<or> bs ! 0 = 172 \<and> bs ! 1 div 16 = 1 \<or> bs ! 0 = 192 \<and> bs ! 1 = 168
    | Addr6 gs _ \<Rightarrow> gs ! 0 div 512 = 0xfc div 2)"

definition IsLinkLocalUnicast :: "addr \<Rightarrow> bool" where
  "IsLinkLocalUnicast a = (case Unmap a of
      Addr4 bs \<Rightarrow> bs ! 0 = 169 \<and> bs ! 1 = 254
    | Addr6 gs _ \<Rightarrow> gs ! 0 div 64 = 0xfe80 div 64)"

definition IsLinkLocalMulticast :: "addr \<Rightarrow> bool" where
  "IsLinkLocalMulticast a = (case Unmap a of
      Addr4 bs \<Rightarrow> bs ! 0 = 224 \<and> bs ! 1 = 0 \<and> bs ! 2 = 0
    | Addr6 gs _ \<Rightarrow> gs ! 0 div 256 = 0xff \<and> gs ! 0 mod 16 = 2)"

definition IsUnspecified :: "addr \<Rightarrow> bool" where
  "IsUnspecified a = (a = Addr4 [0, 0, 0, 0] \<or> a = Addr6 [0, 0, 0, 0, 0, 0, 0, 0] '''')"

lemmas url_defs = urlParse_def parseRest_def parseAuthority_def parseHost_def getScheme_def Hostname_def stripPort_def cutLast_def
  validOptionalPort_def validUserinfo_def hasPrefix_def hasSuffix_def isControl_def isLetter_def isDecimal_def byteOf_def hostByte_def

lemmas addr_defs = ParseAddr_def parseIPv4_def parseOctet_def decimalValue_def allSome_def parseIPv6_def parseIPv6Groups_def
  parseGroups_def parseGroup_def isDecimal_def byteOf_def

end
