(* ===== verification/Go_Path.thy ===== *)
theory Go_Path
  imports Go_Net
begin

text \<open>
  What the program uses of Go's package \<open>path/filepath\<close> on Unix: \<open>Clean\<close>, \<open>Join\<close>, \<open>Dir\<close>, \<open>Base\<close> and
  \<open>Abs\<close>. \<open>cleaned\<close> are the paths \<open>Clean\<close> gives for absolute paths, and \<open>comps\<close> their components.
\<close>

definition slash :: char where
  "slash = CHR ''/''"

definition joinWith :: "char \<Rightarrow> string list \<Rightarrow> string" where
  "joinWith sep parts = (case parts of [] \<Rightarrow> [] | p # ps \<Rightarrow> p @ concat (map (\<lambda>q. sep # q) ps))"

text \<open>The stack of \<open>Clean\<close>, last component first.\<close>

definition cleanStep :: "bool \<Rightarrow> string list \<Rightarrow> string \<Rightarrow> string list" where
  "cleanStep rooted stack p =
    (if p = '''' \<or> p = ''.'' then stack
     else if p = ''..'' then
       (case stack of [] \<Rightarrow> if rooted then [] else [''..'']
        | q # qs \<Rightarrow> if q = ''..'' then ''..'' # stack else qs)
     else p # stack)"

definition Clean :: "string \<Rightarrow> string" where
  "Clean path =
    (if path = '''' then ''.''
     else (let rooted = (hd path = slash);
               parts = rev (foldl (cleanStep rooted) [] (splitAt slash path))
           in if rooted then slash # joinWith slash parts
              else if parts = [] then ''.'' else joinWith slash parts))"

definition JoinPath :: "string \<Rightarrow> string \<Rightarrow> string" where
  "JoinPath a b = (if a = '''' \<and> b = '''' then '''' else if a = '''' then Clean b else if b = '''' then Clean a
     else Clean (a @ [slash] @ b))"

definition Dir :: "string \<Rightarrow> string" where
  "Dir path = Clean (case cutLast slash path of None \<Rightarrow> '''' | Some (d, _) \<Rightarrow> d @ [slash])"

definition Base :: "string \<Rightarrow> string" where
  "Base path =
    (if path = '''' then ''.''
     else (let p = rev (dropWhile (\<lambda>c. c = slash) (rev path)) in
       if p = '''' then [slash]
       else (case cutLast slash p of None \<Rightarrow> p | Some (_, b) \<Rightarrow> b)))"

text \<open>\<open>getwd\<close> is the working directory, or \<open>None\<close> when it cannot be read.\<close>

definition AbsPath :: "string option \<Rightarrow> string \<Rightarrow> string option" where
  "AbsPath getwd path =
    (if path \<noteq> '''' \<and> hd path = slash then Some (Clean path)
     else map_option (\<lambda>wd. JoinPath wd path) getwd)"

section \<open>Components\<close>

definition plain :: "string \<Rightarrow> bool" where
  "plain p \<longleftrightarrow> p \<noteq> '''' \<and> p \<noteq> ''.'' \<and> p \<noteq> ''..'' \<and> slash \<notin> set p"

definition absolute :: "string list \<Rightarrow> string" where
  "absolute ps = slash # joinWith slash ps"

definition comps :: "string \<Rightarrow> string list" where
  "comps path = filter (\<lambda>p. p \<noteq> '''') (splitAt slash path)"

lemma splitAt_nonempty [simp]: "splitAt sep s \<noteq> []"
  by (induction s) (auto split: list.splits)

lemma splitAt_free: "p \<in> set (splitAt sep s) \<Longrightarrow> sep \<notin> set p"
proof (induction s arbitrary: p)
  case (Cons c cs)
  obtain f fs where s: "splitAt sep cs = f # fs" by (cases "splitAt sep cs") auto
  then have f: "sep \<notin> set f" "\<And>q. q \<in> set fs \<Longrightarrow> sep \<notin> set q" using Cons.IH by auto
  with Cons.prems s show ?case by (cases "c = sep") auto
qed simp

lemma splitAt_append: "sep \<notin> set p \<Longrightarrow> splitAt sep (p @ sep # s) = p # splitAt sep s"
  by (induction p) auto

lemma splitAt_single: "sep \<notin> set p \<Longrightarrow> splitAt sep p = [p]"
  by (induction p) auto

lemma splitAt_join: "(\<And>q. q \<in> set ps \<Longrightarrow> sep \<notin> set q) \<Longrightarrow> ps \<noteq> [] \<Longrightarrow> splitAt sep (joinWith sep ps) = ps"
proof (induction ps rule: induct_list012)
  case (2 x)
  then show ?case by (simp add: joinWith_def splitAt_single)
next
  case (3 x y zs)
  have "joinWith sep (x # y # zs) = x @ sep # joinWith sep (y # zs)" by (simp add: joinWith_def)
  with 3 show ?case by (simp add: splitAt_append)
qed simp

lemma comps_absolute:
  assumes "list_all plain ps"
  shows "comps (absolute ps) = ps"
proof (cases "ps = []")
  case True
  then show ?thesis by (simp add: absolute_def comps_def joinWith_def)
next
  case False
  have "splitAt slash (absolute ps) = '''' # ps"
    using assms False splitAt_join [of ps slash] splitAt_append [of slash "''''"]
    by (auto simp: absolute_def list_all_iff plain_def)
  then show ?thesis using assms by (auto simp: comps_def list_all_iff plain_def intro!: filter_True)
qed

text \<open>An absolute path is cleaned to a path of plain components.\<close>

lemma cleanStep_plain: "list_all plain st \<Longrightarrow> slash \<notin> set p \<Longrightarrow> list_all plain (cleanStep True st p)"
  by (auto simp: cleanStep_def plain_def split: list.splits)

lemma cleanSteps_plain:
  "list_all plain st \<Longrightarrow> (\<And>p. p \<in> set ps \<Longrightarrow> slash \<notin> set p) \<Longrightarrow> list_all plain (foldl (cleanStep True) st ps)"
  by (induction ps arbitrary: st) (auto intro: cleanStep_plain)

lemma Clean_rooted:
  assumes "path \<noteq> ''''" and "hd path = slash"
  obtains ps where "Clean path = absolute ps" and "list_all plain ps"
proof -
  let ?ps = "rev (foldl (cleanStep True) [] (splitAt slash path))"
  have "list_all plain (foldl (cleanStep True) [] (splitAt slash path))"
    by (rule cleanSteps_plain) (auto dest: splitAt_free)
  then have "list_all plain ?ps" by (simp add: list_all_iff)
  moreover have "Clean path = absolute ?ps" using assms by (simp add: Clean_def absolute_def)
  ultimately show ?thesis using that by blast
qed

text \<open>Inside a directory: the components begin with those of the directory.\<close>

lemma inside_iff:
  assumes "list_all plain ps" and "list_all plain qs" and "ps \<noteq> []"
  shows "absolute qs = absolute ps \<or> prefix (absolute ps @ [slash]) (absolute qs) \<longleftrightarrow> prefix ps qs"
proof
  assume "absolute qs = absolute ps \<or> prefix (absolute ps @ [slash]) (absolute qs)"
  then show "prefix ps qs"
  proof
    assume "absolute qs = absolute ps"
    then show ?thesis using comps_absolute assms by (metis prefix_order.refl)
  next
    assume "prefix (absolute ps @ [slash]) (absolute qs)"
    then obtain r where r: "absolute qs = absolute ps @ slash # r" by (auto simp: prefix_def)
    have split: "splitAt slash (a @ slash # b) = splitAt slash a @ splitAt slash b" for a b
      by (induction a) (auto split: list.splits)
    have "comps (absolute qs) = comps (absolute ps) @ comps r" unfolding r comps_def split by simp
    then show ?thesis using comps_absolute assms by simp
  qed
next
  assume "prefix ps qs"
  then obtain rs where qs: "qs = ps @ rs" by (auto simp: prefix_def)
  obtain x xs where ps: "ps = x # xs" using assms(3) by (cases ps) auto
  show "absolute qs = absolute ps \<or> prefix (absolute ps @ [slash]) (absolute qs)"
    by (cases rs) (auto simp: qs ps absolute_def joinWith_def)
qed

end
