(* ===== verification/Policy.thy ===== *)
theory Policy
  imports Go_Path Backoff
begin

text \<open>
  The security policy (\<open>internal/policy/policy.go\<close>): which URLs, capabilities, paths and MCP tools are
  allowed, the version of a policy, and the policy that changes at run time and is written back to its
  file. What the operating system answers (symbolic links, the working directory, reading and writing
  the file) and the YAML package are arguments.
\<close>

section \<open>The policy\<close>

record MCPRule =
  RAgent :: string
  RServer :: string
  RTools :: "string list"

record MCPPolicyConfig =
  MDefault :: string
  MRules :: "MCPRule list"

record Policy =
  AllowDomains :: "string list"
  AllowPaths :: "string list"
  AllowCapabilities :: "string list"
  AllowLoopback :: bool
  MCP :: MCPPolicyConfig

definition DefaultPolicy :: Policy where
  "DefaultPolicy = \<lparr>AllowDomains = [], AllowPaths = [], AllowCapabilities = [], AllowLoopback = False,
     MCP = \<lparr>MDefault = '''', MRules = []\<rparr>\<rparr>"

definition knownCapabilities :: "string list" where
  "knownCapabilities = [''acp.read'', ''acp.mutate'', ''tools.web_search'', ''tools.read_url'', ''tools.read_file'', ''tools.write_file'',
     ''tools.exec'', ''tools.spawn_task'', ''tools.delegate_task'', ''tools.delegate_task_async'', ''tools.send_message'',
     ''tools.read_messages'', ''tools.memory_read'', ''tools.memory_write'', ''tools.send_alert'', ''wasm.http.get'', ''wasm.kv.set'',
     ''legacy.run'', ''legacy.dangerous'', ''skill.inject'', ''tools.mcp'', ''agent.create'', ''agent.remove'', ''tools.price_comparison'']"

text \<open>\<open>strings.ToLower(strings.TrimSpace(s))\<close>.\<close>

definition norm :: "string \<Rightarrow> string" where
  "norm s = toLower (trimSpace s)"

fun unknownCapability :: "string list \<Rightarrow> string option" where
  "unknownCapability [] = None"
| "unknownCapability (c # cs) =
    (if norm c = '''' then unknownCapability cs
     else if norm c \<notin> set knownCapabilities then Some c else unknownCapability cs)"

definition validatePolicy :: "Policy \<Rightarrow> err + unit" where
  "validatePolicy p = (case unknownCapability (AllowCapabilities p) of
      Some c \<Rightarrow> Inl (ErrMsg (''unknown capability '' @ quoteGo c)) | None \<Rightarrow> Inr ())"

text \<open>What \<open>os.ReadFile\<close> answers.\<close>

datatype file_read = FileMissing | FileError err | FileData string

definition LoadPolicy :: "(string \<Rightarrow> file_read) \<Rightarrow> (string \<Rightarrow> err + Policy) \<Rightarrow> string \<Rightarrow> err + Policy" where
  "LoadPolicy readFile unmarshal path =
    (if path = '''' then Inr DefaultPolicy
     else case readFile path of
       FileMissing \<Rightarrow> Inr DefaultPolicy
     | FileError e \<Rightarrow> Inl (ErrWrap ''read policy'' e)
     | FileData data \<Rightarrow>
        (if data = '''' then Inr DefaultPolicy
         else case unmarshal data of
           Inl e \<Rightarrow> Inl (ErrWrap ''parse policy'' e)
         | Inr p \<Rightarrow> (case validatePolicy p of Inl e \<Rightarrow> Inl e | Inr _ \<Rightarrow> Inr p)))"

section \<open>URLs\<close>

definition isBlockedHost :: "string \<Rightarrow> bool \<Rightarrow> bool" where
  "isBlockedHost host allowLoopback =
    (if host = ''localhost'' then \<not> allowLoopback
     else case ParseAddr host of None \<Rightarrow> False
     | Some ip \<Rightarrow>
        if allowLoopback \<and> IsLoopback ip then False
        else IsLoopback ip \<or> IsPrivate ip \<or> IsLinkLocalUnicast ip \<or> IsLinkLocalMulticast ip \<or> IsUnspecified ip)"

fun domainListed :: "string \<Rightarrow> string list \<Rightarrow> bool" where
  "domainListed host [] = False"
| "domainListed host (d # ds) =
    (if norm d = '''' then domainListed host ds
     else if host = norm d \<or> hasSuffix host (''.'' @ norm d) then True
     else domainListed host ds)"

definition AllowHTTPURL :: "Policy \<Rightarrow> string \<Rightarrow> bool" where
  "AllowHTTPURL p raw =
    (case urlParse raw of None \<Rightarrow> False
     | Some (scheme0, h) \<Rightarrow>
        if Hostname h = '''' then False
        else (let scheme = norm scheme0 in
          if scheme \<noteq> ''http'' \<and> scheme \<noteq> ''https'' then False
          else (let host = toLower (Hostname h) in
            if isBlockedHost host (AllowLoopback p) then False else domainListed host (AllowDomains p))))"

section \<open>Capabilities\<close>

definition containsNormalized :: "string list \<Rightarrow> string \<Rightarrow> bool" where
  "containsNormalized xs v = list_ex (\<lambda>s. norm s = v) xs"

definition AllowCapability :: "Policy \<Rightarrow> string \<Rightarrow> bool" where
  "AllowCapability p capability0 =
    (let capability = norm capability0 in
     if capability = '''' then False else containsNormalized (AllowCapabilities p) capability)"

section \<open>Paths\<close>

record os =
  evalSymlinks :: "string \<Rightarrow> string option"
  getwd :: "string option"

definition resolvePath :: "os \<Rightarrow> string \<Rightarrow> string option" where
  "resolvePath o' path =
    (case evalSymlinks o' path of
       Some r \<Rightarrow> AbsPath (getwd o') r
     | None \<Rightarrow> (case evalSymlinks o' (Dir path) of
         None \<Rightarrow> None
       | Some d \<Rightarrow> AbsPath (getwd o') (JoinPath d (Base path))))"

text \<open>The root an entry of \<open>allow_paths\<close> stands for.\<close>

definition allowedRoot :: "os \<Rightarrow> string \<Rightarrow> string option" where
  "allowedRoot o' allowed0 =
    (let allowed = trimSpace allowed0 in
     if allowed = '''' then None
     else map_option (\<lambda>a. coalesce (evalSymlinks o' a) a) (AbsPath (getwd o') allowed))"

definition withinRoot :: "string \<Rightarrow> string \<Rightarrow> bool" where
  "withinRoot resolved root' = (resolved = root' \<or> hasPrefix resolved (root' @ [slash]))"

definition AllowPath :: "os \<Rightarrow> Policy \<Rightarrow> string \<Rightarrow> bool" where
  "AllowPath o' p path =
    (if AllowPaths p = [] then True
     else case resolvePath o' path of None \<Rightarrow> False
     | Some resolved \<Rightarrow> list_ex (\<lambda>allowed. case allowedRoot o' allowed of None \<Rightarrow> False
         | Some root' \<Rightarrow> withinRoot resolved root') (AllowPaths p))"

section \<open>MCP tools\<close>

definition toolListed :: "string \<Rightarrow> MCPRule \<Rightarrow> bool" where
  "toolListed tool rule = list_ex (\<lambda>t. norm t = ''*'' \<or> norm t = tool) (RTools rule)"

text \<open>The score of a rule whose agent and server match, and of a rule that is considered.\<close>

definition ruleScore :: "string \<Rightarrow> string \<Rightarrow> MCPRule \<Rightarrow> int option" where
  "ruleScore agentID serverName rule =
    (case (if norm (RAgent rule) = agentID then Some 4 else if norm (RAgent rule) = ''*'' then Some 1 else None) of
       None \<Rightarrow> None
     | Some score \<Rightarrow>
        if norm (RServer rule) = serverName then Some (score + 2)
        else if norm (RServer rule) = ''*'' then Some (score + 0) else None)"

definition ruleApplies :: "string \<Rightarrow> string \<Rightarrow> string \<Rightarrow> MCPRule \<Rightarrow> int option" where
  "ruleApplies agentID serverName toolName rule =
    (case ruleScore agentID serverName rule of None \<Rightarrow> None
     | Some score \<Rightarrow> if \<not> toolListed toolName rule \<and> 0 < length (RTools rule) then None else Some score)"

fun bestRule :: "string \<Rightarrow> string \<Rightarrow> string \<Rightarrow> (MCPRule \<times> int) option \<Rightarrow> MCPRule list \<Rightarrow> MCPRule option" where
  "bestRule a s t best [] = map_option fst best"
| "bestRule a s t best (rule # rules) =
    (case ruleApplies a s t rule of None \<Rightarrow> bestRule a s t best rules
     | Some score \<Rightarrow>
        (case best of None \<Rightarrow> bestRule a s t (Some (rule, score)) rules
         | Some (_, bestScore) \<Rightarrow>
            if score > bestScore then bestRule a s t (Some (rule, score)) rules else bestRule a s t best rules))"

definition AllowMCPTool :: "Policy \<Rightarrow> string \<Rightarrow> string \<Rightarrow> string \<Rightarrow> bool" where
  "AllowMCPTool p agentID serverName toolName =
    (let defaultAllow = (norm (MDefault (MCP p)) = ''allow'') in
     case bestRule (norm agentID) (norm serverName) (norm toolName) None (MRules (MCP p)) of
       Some rule \<Rightarrow> toolListed (norm toolName) rule
     | None \<Rightarrow> defaultAllow)"

section \<open>The version\<close>

definition policyVersionFor :: "Policy \<Rightarrow> string" where
  "policyVersionFor p =
    (let entries = concat (map (\<lambda>v. norm v @ ''|'') (AllowDomains p)) @
           concat (map (\<lambda>v. norm v @ ''|'') (AllowPaths p)) @
           concat (map (\<lambda>v. norm v @ ''|'') (AllowCapabilities p)) @
           (if AllowLoopback p then ''allow_loopback=true|'' else '''')
     in ''policy-'' @ formatHex (unat (fnv64a 14695981039346656037 entries)))"

section \<open>The live policy\<close>

text \<open>\<open>stored\<close> is the content of the policy file.\<close>

record LivePolicy =
  lpdata :: Policy
  lppath :: string
  stored :: "string option"

text \<open>The YAML encoder, and a failing write of the file with the content it leaves there.\<close>

record persistence =
  marshal :: "Policy \<Rightarrow> err + string"
  writeError :: "string \<Rightarrow> (err \<times> string option) option"

definition NewLivePolicy :: "Policy \<Rightarrow> string \<Rightarrow> string option \<Rightarrow> LivePolicy" where
  "NewLivePolicy initial path content = \<lparr>lpdata = initial, lppath = path, stored = content\<rparr>"

definition persist :: "persistence \<Rightarrow> LivePolicy \<Rightarrow> (err + unit) \<times> LivePolicy" where
  "persist io lp =
    (if lppath lp = '''' then (Inr (), lp)
     else case marshal io (lpdata lp) of
       Inl e \<Rightarrow> (Inl (ErrWrap ''marshal policy'' e), lp)
     | Inr out \<Rightarrow> (case writeError io out of Some (e, left) \<Rightarrow> (Inl e, lp\<lparr>stored := left\<rparr>) | None \<Rightarrow> (Inr (), lp\<lparr>stored := Some out\<rparr>)))"

definition AllowDomain :: "persistence \<Rightarrow> string \<Rightarrow> LivePolicy \<Rightarrow> (err + unit) \<times> LivePolicy" where
  "AllowDomain io domain0 lp =
    (let domain = norm domain0 in
     if domain = '''' then (Inl (ErrMsg ''empty domain''), lp)
     else if containsNormalized (AllowDomains (lpdata lp)) domain then (Inr (), lp)
     else persist io (lp\<lparr>lpdata := (lpdata lp)\<lparr>AllowDomains := AllowDomains (lpdata lp) @ [domain]\<rparr>\<rparr>))"

definition AddCapability :: "persistence \<Rightarrow> string \<Rightarrow> LivePolicy \<Rightarrow> (err + unit) \<times> LivePolicy" where
  "AddCapability io cap0 lp =
    (let cap = norm cap0 in
     if cap = '''' then (Inl (ErrMsg ''empty capability''), lp)
     else if cap \<notin> set knownCapabilities then (Inl (ErrMsg (''unknown capability '' @ quoteGo cap)), lp)
     else if containsNormalized (AllowCapabilities (lpdata lp)) cap then (Inr (), lp)
     else persist io (lp\<lparr>lpdata := (lpdata lp)\<lparr>AllowCapabilities := AllowCapabilities (lpdata lp) @ [cap]\<rparr>\<rparr>))"

definition Reload :: "Policy \<Rightarrow> LivePolicy \<Rightarrow> LivePolicy" where
  "Reload p lp = lp\<lparr>lpdata := p\<rparr>"

definition ReloadFromFile :: "(string \<Rightarrow> file_read) \<Rightarrow> (string \<Rightarrow> err + Policy) \<Rightarrow> string \<Rightarrow> LivePolicy \<Rightarrow> (err + unit) \<times> LivePolicy" where
  "ReloadFromFile readFile unmarshal path lp =
    (case LoadPolicy readFile unmarshal path of Inl e \<Rightarrow> (Inl e, lp) | Inr p \<Rightarrow> (Inr (), Reload p lp))"

definition Snapshot :: "LivePolicy \<Rightarrow> Policy" where
  "Snapshot lp = lpdata lp"


section \<open>The most specific rule decides\<close>

text \<open>\<open>bestRule\<close> keeps the first of the rules with the highest score.\<close>

definition leads :: "('r \<Rightarrow> int option) \<Rightarrow> 'r list \<Rightarrow> nat \<Rightarrow> bool" where
  "leads score rules i \<longleftrightarrow> i < length rules \<and> (\<exists>n. score (rules ! i) = Some n \<and>
     (\<forall>j<length rules. \<forall>m. score (rules ! j) = Some m \<longrightarrow> m \<le> n \<and> (m = n \<longrightarrow> i \<le> j)))"

lemma leads_snoc_lower:
  assumes "leads score rs i" and "\<And>n m. score (rs ! i) = Some n \<Longrightarrow> score r = Some m \<Longrightarrow> m \<le> n"
  shows "leads score (rs @ [r]) i"
  using assms unfolding leads_def by (auto simp: nth_append less_Suc_eq)

lemma leads_snoc_higher:
  assumes "score r = Some m" and "\<And>j n. j < length rs \<Longrightarrow> score (rs ! j) = Some n \<Longrightarrow> n < m"
  shows "leads score (rs @ [r]) (length rs)"
  using assms unfolding leads_def by (fastforce simp: nth_append less_Suc_eq)

text \<open>What the loop knows after the rules \<open>before\<close>.\<close>

definition bestSoFar :: "('r \<Rightarrow> int option) \<Rightarrow> 'r list \<Rightarrow> ('r \<times> int) option \<Rightarrow> bool" where
  "bestSoFar score before best \<longleftrightarrow> (case best of
      None \<Rightarrow> \<forall>r\<in>set before. score r = None
    | Some (r, n) \<Rightarrow> \<exists>i. leads score before i \<and> before ! i = r \<and> score r = Some n)"

lemma bestSoFar_None: "score r = None \<Longrightarrow> bestSoFar score before best \<Longrightarrow> bestSoFar score (before @ [r]) best"
  unfolding bestSoFar_def
  by (auto split: option.splits intro!: exI leads_snoc_lower simp: nth_append leads_def)

lemma bestSoFar_keep:
  assumes "score r = Some m" and "m \<le> n" and "bestSoFar score before (Some (q, n))"
  shows "bestSoFar score (before @ [r]) (Some (q, n))"
proof -
  obtain i where i: "leads score before i" "before ! i = q" "score q = Some n" using assms(3) by (auto simp: bestSoFar_def)
  from i(1) have "i < length before" by (simp add: leads_def)
  moreover have "leads score (before @ [r]) i" using assms(1,2) i by (intro leads_snoc_lower) auto
  ultimately show ?thesis using i by (auto simp: bestSoFar_def nth_append)
qed

lemma bestSoFar_first: "score r = Some m \<Longrightarrow> bestSoFar score before None \<Longrightarrow> bestSoFar score (before @ [r]) (Some (r, m))"
  by (auto simp: bestSoFar_def intro!: exI [of _ "length before"] leads_snoc_higher)

lemma bestSoFar_replace:
  assumes "score r = Some m" and "n < m" and "bestSoFar score before (Some (q, n))"
  shows "bestSoFar score (before @ [r]) (Some (r, m))"
proof -
  obtain i where i: "leads score before i" "before ! i = q" "score q = Some n" using assms(3) by (auto simp: bestSoFar_def)
  have "leads score (before @ [r]) (length before)"
    using assms(1,2) i by (intro leads_snoc_higher) (fastforce simp: leads_def)+
  with assms(1) show ?thesis by (auto simp: bestSoFar_def intro!: exI [of _ "length before"])
qed

lemma bestRule_spec:
  "bestSoFar (ruleApplies a s t) before best \<Longrightarrow>
   (case bestRule a s t best rules of
      None \<Rightarrow> \<forall>r\<in>set (before @ rules). ruleApplies a s t r = None
    | Some r \<Rightarrow> \<exists>i. leads (ruleApplies a s t) (before @ rules) i \<and> (before @ rules) ! i = r)"
proof (induction rules arbitrary: before best)
  case Nil
  then show ?case by (auto simp: bestSoFar_def split: option.splits)
next
  case (Cons r rules)
  show ?case
  proof (cases "ruleApplies a s t r")
    case None
    from Cons.IH [OF bestSoFar_None [of "ruleApplies a s t", OF None Cons.prems]] None show ?thesis
      by (simp split: option.splits)
  next
    case score: (Some m)
    show ?thesis
    proof (cases best)
      case None
      from Cons.IH [OF bestSoFar_first [of "ruleApplies a s t", OF score Cons.prems [unfolded None]]] None score show ?thesis
        by (simp split: option.splits)
    next
      case (Some qn)
      obtain q n where b: "best = Some (q, n)" using Some by (cases qn) auto
      show ?thesis
      proof (cases "n < m")
        case True
        from Cons.IH [OF bestSoFar_replace [of "ruleApplies a s t", OF score True Cons.prems [unfolded b]]] b score True show ?thesis
          by (simp split: option.splits)
      next
        case False
        then have "m \<le> n" by simp
        from Cons.IH [OF bestSoFar_keep [of "ruleApplies a s t", OF score this Cons.prems [unfolded b]]] b score False show ?thesis
          by (simp split: option.splits)
      qed
    qed
  qed
qed

text \<open>An agent may use a tool of an MCP server exactly when the first of the most specific rules that
  apply lists the tool, and when the default is \<open>allow\<close> if no rule applies.\<close>

theorem mcp_most_specific:
  "AllowMCPTool p agentID serverName toolName \<longleftrightarrow>
    (let rules = MRules (MCP p); score = ruleApplies (norm agentID) (norm serverName) (norm toolName) in
     (\<exists>i. leads score rules i \<and> toolListed (norm toolName) (rules ! i)) \<or>
     list_all (\<lambda>r. score r = None) rules \<and> norm (MDefault (MCP p)) = ''allow'')"
proof -
  let ?score = "ruleApplies (norm agentID) (norm serverName) (norm toolName)"
  let ?rules = "MRules (MCP p)"
  have unique: "i = j" if "leads ?score ?rules i" "leads ?score ?rules j" for i j
    using that unfolding leads_def by (metis order.antisym)
  have none: "\<not> leads ?score ?rules i" if "\<forall>r\<in>set ?rules. ?score r = None" for i
    using that by (auto simp: leads_def)
  have "bestSoFar ?score [] None" by (simp add: bestSoFar_def)
  from bestRule_spec [OF this, of ?rules] unique none show ?thesis
    by (auto simp: AllowMCPTool_def Let_def list_all_iff leads_def split: option.splits)
qed


section \<open>Paths stay inside the allowed roots\<close>

definition sane :: "os \<Rightarrow> bool" where
  "sane o' \<longleftrightarrow> (\<forall>wd. getwd o' = Some wd \<longrightarrow> prefix [slash] wd) \<and>
     (\<forall>p r. prefix [slash] p \<longrightarrow> evalSymlinks o' p = Some r \<longrightarrow> (\<exists>ps. r = absolute ps \<and> list_all plain ps))"

definition isAbsolute :: "string \<Rightarrow> bool" where
  "isAbsolute r \<longleftrightarrow> (\<exists>ps. r = absolute ps \<and> list_all plain ps)"

lemma Clean_absolute: "prefix [slash] s \<Longrightarrow> isAbsolute (Clean s)"
  by (rule Clean_rooted [of s]) (auto simp: isAbsolute_def prefix_def)

lemma JoinPath_absolute: "prefix [slash] wd \<Longrightarrow> isAbsolute (JoinPath wd p)"
  by (auto simp: JoinPath_def prefix_def intro!: Clean_absolute)

lemma AbsPath_absolute: "sane o' \<Longrightarrow> AbsPath (getwd o') p = Some r \<Longrightarrow> isAbsolute r"
  by (cases p) (auto simp: AbsPath_def sane_def intro!: JoinPath_absolute Clean_absolute split: if_splits)

lemma resolvePath_absolute: "sane o' \<Longrightarrow> resolvePath o' p = Some r \<Longrightarrow> isAbsolute r"
  by (auto simp: resolvePath_def split: option.splits intro: AbsPath_absolute)

lemma allowedRoot_absolute:
  assumes "sane o'" and "allowedRoot o' p = Some r"
  shows "isAbsolute r"
proof -
  obtain a where a: "AbsPath (getwd o') (trimSpace p) = Some a" "r = coalesce (evalSymlinks o' a) a"
    using assms(2) by (auto simp: allowedRoot_def Let_def split: if_splits)
  have "isAbsolute a" using assms(1) a(1) by (rule AbsPath_absolute)
  moreover have "prefix [slash] a" using \<open>isAbsolute a\<close> by (auto simp: isAbsolute_def absolute_def)
  ultimately show ?thesis using a(2) assms(1) by (cases "evalSymlinks o' a") (auto simp: sane_def isAbsolute_def)
qed

lemma withinRoot_comps:
  assumes "isAbsolute r" and "isAbsolute root'"
  shows "withinRoot r root' \<longleftrightarrow> prefix (comps root') (comps r) \<and> (comps root' = [] \<longrightarrow> comps r = [])"
proof -
  obtain ps qs where p: "root' = absolute ps" "list_all plain ps" and q: "r = absolute qs" "list_all plain qs"
    using assms by (auto simp: isAbsolute_def)
  show ?thesis
  proof (cases ps)
    case Nil
    have "\<not> prefix [slash, slash] (absolute qs)"
    proof (cases qs)
      case (Cons a as)
      with q(2) have "a \<noteq> ''''" "slash \<notin> set a" by (simp_all add: plain_def)
      then show ?thesis by (cases a) (auto simp: Cons absolute_def joinWith_def)
    qed (simp add: absolute_def joinWith_def)
    moreover have "absolute qs = [slash] \<longleftrightarrow> qs = []"
      using q(2) by (cases qs) (auto simp: absolute_def joinWith_def plain_def)
    moreover have "absolute [] = [slash]" by (simp add: absolute_def joinWith_def)
    ultimately show ?thesis using comps_absolute [OF q(2)] comps_absolute [OF p(2)]
      by (simp add: withinRoot_def hasPrefix_def p(1) q(1) Nil)
  next
    case (Cons x xs)
    then show ?thesis using inside_iff [OF p(2) q(2)] comps_absolute [OF q(2)] comps_absolute [OF p(2)]
      by (simp add: withinRoot_def hasPrefix_def p(1) q(1))
  qed
qed


definition exOs :: os where
  "exOs = \<lparr>evalSymlinks = (\<lambda>p. if p = ''/w'' then Some ''/w'' else if p = ''/w/a'' then Some ''/w/a'' else if p = ''/web'' then Some ''/web''
     else None), getwd = Some ''/''\<rparr>"

lemma exOs_absolute: "isAbsolute ''/w''" "isAbsolute ''/w/a''" "isAbsolute ''/web''"
  unfolding isAbsolute_def
  by (rule exI [of _ "[''w'']"], simp add: absolute_def joinWith_def plain_def slash_def)
    (rule exI [of _ "[''w'', ''a'']"], simp add: absolute_def joinWith_def plain_def slash_def,
     rule exI [of _ "[''web'']"], simp add: absolute_def joinWith_def plain_def slash_def)

lemma exOs_sane: "sane exOs"
  using exOs_absolute by (auto simp: sane_def exOs_def isAbsolute_def [symmetric] slash_def split: if_splits)


section \<open>The live policy and its file\<close>

datatype grant = GrantDomain string | GrantCapability string

definition applyGrant :: "persistence \<Rightarrow> grant \<Rightarrow> LivePolicy \<Rightarrow> (err + unit) \<times> LivePolicy" where
  "applyGrant io g = (case g of GrantDomain d \<Rightarrow> AllowDomain io d | GrantCapability c \<Rightarrow> AddCapability io c)"

fun applyGrants :: "persistence \<Rightarrow> grant list \<Rightarrow> LivePolicy \<Rightarrow> (err + unit) \<times> LivePolicy" where
  "applyGrants io [] lp = (Inr (), lp)"
| "applyGrants io (g # gs) lp = (case applyGrant io g lp of (Inl e, lp1) \<Rightarrow> (Inl e, lp1) | (Inr _, lp1) \<Rightarrow> applyGrants io gs lp1)"

text \<open>The file holds the policy in memory, and every capability of it is known.\<close>

definition synced :: "persistence \<Rightarrow> LivePolicy \<Rightarrow> bool" where
  "synced io lp \<longleftrightarrow> lppath lp \<noteq> '''' \<and> unknownCapability (AllowCapabilities (lpdata lp)) = None \<and>
     (\<exists>out. marshal io (lpdata lp) = Inr out \<and> stored lp = Some out)"

lemma unknownCapability_append: "unknownCapability xs = None \<Longrightarrow> norm c \<in> set knownCapabilities \<Longrightarrow> unknownCapability (xs @ [c]) = None"
  by (induction xs) (auto split: if_splits)

lemma persist_synced:
  "persist io lp = (Inr (), lp') \<Longrightarrow> lppath lp \<noteq> '''' \<Longrightarrow> unknownCapability (AllowCapabilities (lpdata lp)) = None \<Longrightarrow> synced io lp'"
  by (auto simp: persist_def synced_def split: sum.splits option.splits prod.splits)

lemma norm_known:
  assumes "norm c \<in> set knownCapabilities"
  shows "norm (norm c) \<in> set knownCapabilities"
proof -
  have "list_all (\<lambda>k. norm k = k) knownCapabilities"
    by (simp add: knownCapabilities_def norm_def trimSpace_def isSpaceByte_def toLower_def lowerByte_def)
  with assms show ?thesis by (simp add: list_all_iff)
qed

lemma AllowDomain_synced: "AllowDomain io d lp = (Inr (), lp') \<Longrightarrow> synced io lp \<Longrightarrow> synced io lp'"
  unfolding AllowDomain_def Let_def by (auto simp: synced_def [of io lp] intro: persist_synced split: if_splits) (auto simp: synced_def)

lemma AddCapability_synced:
  assumes "AddCapability io c lp = (Inr (), lp')" and "synced io lp"
  shows "synced io lp'"
proof (cases "containsNormalized (AllowCapabilities (lpdata lp)) (norm c)")
  case False
  let ?lp = "lp\<lparr>lpdata := (lpdata lp)\<lparr>AllowCapabilities := AllowCapabilities (lpdata lp) @ [norm c]\<rparr>\<rparr>"
  have k: "norm c \<in> set knownCapabilities" "persist io ?lp = (Inr (), lp')"
    using assms(1) False by (simp_all add: AddCapability_def Let_def split: if_splits)
  have "unknownCapability (AllowCapabilities (lpdata ?lp)) = None"
    using assms(2) norm_known [OF k(1)] by (simp add: synced_def unknownCapability_append)
  with k(2) assms(2) show ?thesis by (intro persist_synced [of io ?lp]) (simp_all add: synced_def)
qed (use assms in \<open>simp add: AddCapability_def Let_def split: if_splits\<close>)

lemma applyGrant_synced: "applyGrant io g lp = (Inr (), lp') \<Longrightarrow> synced io lp \<Longrightarrow> synced io lp'"
  by (cases g) (auto simp: applyGrant_def intro: AllowDomain_synced AddCapability_synced)

lemma applyGrants_synced: "applyGrants io gs lp = (Inr (), lp') \<Longrightarrow> synced io lp \<Longrightarrow> synced io lp'"
  by (induction gs arbitrary: lp) (auto split: prod.splits sum.splits dest: applyGrant_synced)

text \<open>Grants survive a restart: when the file holds the policy and every grant of a sequence succeeds,
  loading the file gives the policy in memory, provided the YAML package reads back what it wrote.\<close>

theorem grants_survive_restart:
  assumes "synced io lp" and "applyGrants io gs lp = (Inr (), lp')"
    and "\<And>q out. marshal io q = Inr out \<Longrightarrow> out \<noteq> '''' \<and> unmarshal out = Inr q"
    and "\<And>c. stored lp' = Some c \<Longrightarrow> readFile path = FileData c" and "path \<noteq> ''''"
  shows "ReloadFromFile readFile unmarshal path lp' = (Inr (), lp')"
proof -
  have "synced io lp'" using assms(2,1) by (rule applyGrants_synced)
  then obtain out where o: "marshal io (lpdata lp') = Inr out" "stored lp' = Some out" "validatePolicy (lpdata lp') = Inr ()"
    by (auto simp: synced_def validatePolicy_def)
  with assms(3) [OF o(1)] assms(4) [OF o(2)] assms(5) show ?thesis
    by (simp add: ReloadFromFile_def LoadPolicy_def Reload_def)
qed

text \<open>A file format for the example: the capabilities, one per line; the other fields are empty.\<close>

definition exMarshal :: "Policy \<Rightarrow> err + string" where
  "exMarshal p = (if p = DefaultPolicy\<lparr>AllowCapabilities := [''tools.exec'']\<rparr> then Inr ''x''
     else if p = DefaultPolicy then Inr ''d'' else Inl (ErrMsg ''unsupported''))"

definition exUnmarshal :: "string \<Rightarrow> err + Policy" where
  "exUnmarshal s = (if s = ''x'' then Inr (DefaultPolicy\<lparr>AllowCapabilities := [''tools.exec'']\<rparr>)
     else if s = ''d'' then Inr DefaultPolicy else Inl (ErrMsg ''bad yaml''))"

definition exIo :: persistence where
  "exIo = \<lparr>marshal = exMarshal, writeError = (\<lambda>_. None)\<rparr>"

lemma norm_exec: "norm '' Tools.Exec'' = ''tools.exec''"
  by code_simp

lemma exGrant: "applyGrants exIo [GrantCapability '' Tools.Exec''] (NewLivePolicy DefaultPolicy ''p'' (Some ''d'')) =
    (Inr (), NewLivePolicy (DefaultPolicy\<lparr>AllowCapabilities := [''tools.exec'']\<rparr>) ''p'' (Some ''x''))"
  by (simp add: applyGrant_def AddCapability_def norm_exec Let_def knownCapabilities_def NewLivePolicy_def DefaultPolicy_def
      containsNormalized_def persist_def exIo_def exMarshal_def)

theorem grants_survive_restart_witness:
  "ReloadFromFile (\<lambda>_. FileData ''x'') exUnmarshal ''p''
      (NewLivePolicy (DefaultPolicy\<lparr>AllowCapabilities := [''tools.exec'']\<rparr>) ''p'' (Some ''x'')) =
    (Inr (), NewLivePolicy (DefaultPolicy\<lparr>AllowCapabilities := [''tools.exec'']\<rparr>) ''p'' (Some ''x''))"
proof (rule grants_survive_restart [OF _ exGrant])
  show "synced exIo (NewLivePolicy DefaultPolicy ''p'' (Some ''d''))"
    by (simp add: synced_def NewLivePolicy_def exIo_def exMarshal_def DefaultPolicy_def)
  show "out \<noteq> '''' \<and> exUnmarshal out = Inr q" if "marshal exIo q = Inr out" for q out
    using that by (auto simp: exIo_def exMarshal_def exUnmarshal_def split: if_splits)
qed (simp_all add: NewLivePolicy_def)

text \<open>A grant whose write fails is reported as an error and is active all the same.\<close>

lemma failed_write_keeps_grant:
  assumes "norm c \<in> set knownCapabilities" and "\<not> AllowCapability (lpdata lp) c" and "lppath lp \<noteq> ''''"
    and "marshal io ((lpdata lp)\<lparr>AllowCapabilities := AllowCapabilities (lpdata lp) @ [norm c]\<rparr>) = Inl e"
  shows "\<exists>lp'. AddCapability io c lp = (Inl (ErrWrap ''marshal policy'' e), lp') \<and> AllowCapability (lpdata lp') c"
proof -
  have idem: "norm (norm c) = norm c"
  proof -
    have "list_all (\<lambda>k. norm k = k \<and> k \<noteq> '''') knownCapabilities"
      by (simp add: knownCapabilities_def norm_def trimSpace_def isSpaceByte_def toLower_def lowerByte_def)
    with assms(1) show ?thesis by (simp add: list_all_iff)
  qed
  have "norm c \<noteq> ''''" using assms(1) by (auto simp: knownCapabilities_def)
  with assms idem show ?thesis
    by (simp add: AddCapability_def AllowCapability_def Let_def persist_def containsNormalized_def)
qed

end
