(* ===== verification/Tool_Calls.thy ===== *)
theory Tool_Calls
  imports Engine Policy
begin

text \<open>
  The tools by which an agent involves other agents (\<open>internal/tools/delegate.go\<close>, \<open>spawn.go\<close>,
  \<open>messaging.go\<close>, \<open>alert.go\<close>) and the listener that wakes an agent for a message
  (\<open>cmd/goclaw/main.go\<close>). A tool runs inside the processing of a task; the record \<open>toolEnv\<close> holds what it
  sees of its surroundings: the request context, the clock at each call of the store, the identifiers
  drawn, the wait for a child task and the context's error after it. \<open>audit_calls\<close> are the calls of
  \<open>audit.Record\<close>, in order.
\<close>

section \<open>Surroundings\<close>

record audit_call =
  AuDecision :: string
  AuCapability :: string
  AuReason :: string
  AuVersion :: string
  AuSubject :: string

record tool_store = engine_store +
  audit_calls :: "audit_call list"

text \<open>The interface \<open>policy.Checker\<close>, as far as these tools use it.\<close>

record Checker =
  chkCapability :: "string \<Rightarrow> bool"
  chkVersion :: string

definition policyChecker :: "Policy \<Rightarrow> Checker" where
  "policyChecker p = \<lparr>chkCapability = AllowCapability p, chkVersion = policyVersionFor p\<rparr>"

record 's toolEnv =
  tctx :: ctx
  tat :: "nat \<Rightarrow> env"
  uuidParse :: "string \<Rightarrow> err option"
  newSession :: string
  newTaskID :: string
  newDelegID :: string
  waitChild :: "int \<Rightarrow> 's \<Rightarrow> 's watch \<times> 's"
  ctxErrAfter :: "ctxErr option"

definition recordAudit :: "string \<Rightarrow> string \<Rightarrow> string \<Rightarrow> string \<Rightarrow> string \<Rightarrow> 'x tool_store_scheme \<Rightarrow> (err + unit) \<times> 'x tool_store_scheme" where
  "recordAudit decision capability reason version subject s =
    (Inr (), s\<lparr>audit_calls := audit_calls s @ [\<lparr>AuDecision = decision, AuCapability = capability, AuReason = reason,
       AuVersion = version, AuSubject = subject\<rparr>]\<rparr>)"

text \<open>The check every tool begins with; it returns the version of the policy.\<close>

definition policyGate :: "Checker option \<Rightarrow> string \<Rightarrow> string \<Rightarrow> 'x tool_store_scheme \<Rightarrow> (err + string) \<times> 'x tool_store_scheme" where
  "policyGate pol capability tool =
    (case pol of
       None \<Rightarrow> bindS (recordAudit ''deny'' capability ''missing_capability'' '''' tool)
                 (\<lambda>_. failS (ErrMsg (''policy denied capability '' @ quoteGo capability)))
     | Some chk \<Rightarrow>
        if \<not> chkCapability chk capability
        then bindS (recordAudit ''deny'' capability ''missing_capability'' (chkVersion chk) tool)
               (\<lambda>_. failS (ErrMsg (''policy denied capability '' @ quoteGo capability)))
        else retS (chkVersion chk))"

definition grantedGate :: "Checker option \<Rightarrow> string \<Rightarrow> string \<Rightarrow> 'x tool_store_scheme \<Rightarrow> (err + string) \<times> 'x tool_store_scheme" where
  "grantedGate pol capability tool =
    bindS (policyGate pol capability tool)
    (\<lambda>pv. bindS (recordAudit ''allow'' capability ''capability_granted'' pv tool) (\<lambda>_. retS pv))"

section \<open>Delegation\<close>

definition capDelegateTask :: string where "capDelegateTask = ''tools.delegate_task''"
definition capDelegateTaskAsync :: string where "capDelegateTaskAsync = ''tools.delegate_task_async''"

record DelegateTaskInput =
  InTarget :: string
  InCapability :: string
  InPrompt :: string
  InSession :: string
  InTimeoutSec :: int

record DelegateTaskOutput =
  OutTaskID :: string
  OutStatus :: string
  OutResult :: string
  OutError :: string

text \<open>\<open>json.Marshal(chatPayload{Content: prompt})\<close>.\<close>

definition encodeChatPayload :: "string \<Rightarrow> string" where
  "encodeChatPayload prompt = ''{\"content\":'' @ jsonString prompt @ ''}''"

definition sessionFor :: "'s toolEnv \<Rightarrow> string \<Rightarrow> string" where
  "sessionFor t given = (if uuidParse t given = None then given
     else if SessionID (tctx t) \<noteq> '''' then SessionID (tctx t) else newSession t)"

definition resolveTarget :: "DelegateTaskInput \<Rightarrow> 'x agent_store_scheme \<Rightarrow> (err + string) \<times> 'x agent_store_scheme" where
  "resolveTarget input =
    (if InTarget input = '''' \<and> InCapability input \<noteq> '''' then
       bindS (wrapS (''delegate_task: list agents for capability '' @ quoteGo (InCapability input)) ListAgents)
       (\<lambda>as. case as of [] \<Rightarrow> failS (ErrMsg (''delegate_task: no agents available for capability '' @ quoteGo (InCapability input)))
          | a # _ \<Rightarrow> retS (AgentRecID a))
     else retS (InTarget input))"

definition delegateTimeout :: "int \<Rightarrow> int" where
  "delegateTimeout sec =
    (let timeout = sint (word_of_int (sec * int second) :: 64 word);
         timeout = (if timeout \<le> 0 then 120 * int second else timeout)
     in if timeout > 300 * int second then 300 * int second else timeout)"

text \<open>The target, the hop count and the existence of the agent: the checks before anything is written.\<close>

definition admitTarget :: "string \<Rightarrow> ctx \<Rightarrow> int \<Rightarrow> string \<Rightarrow> 'x agent_store_scheme \<Rightarrow> (err + unit) \<times> 'x agent_store_scheme" where
  "admitTarget tool c maxHops target =
    (if AgentID c \<noteq> '''' \<and> AgentID c = target
     then failS (ErrMsg (tool @ '': cannot delegate to yourself ('' @ quoteGo (AgentID c) @ '')''))
     else if DelegationHop c \<ge> maxHops
     then failS (ErrMsg (tool @ '': max delegation depth exceeded ('' @ itoa maxHops @ '' hops)''))
     else bindS (wrapS (tool @ '': check target agent'') (GetAgent target))
       (\<lambda>agent. if agent = None then failS (ErrMsg (tool @ '': target agent '' @ quoteGo target @ '' not found'')) else retS ()))"

text \<open>The wait for the child task. The context it is given carries the next hop count, which a wait never
  reads.\<close>

definition awaitChild :: "'x tool_store_scheme toolEnv \<Rightarrow> int \<Rightarrow> string \<Rightarrow> 'x tool_store_scheme \<Rightarrow>
    (err + DelegateTaskOutput) \<times> 'x tool_store_scheme" where
  "awaitChild t timeout taskID s =
    (let (w, s1) = waitChild t timeout s in
     case WaitForTask False taskID w of
       Inl er \<Rightarrow>
         (let s2 = snd (AbortTask ((tat t 5)\<lparr>ctxOf := background\<rparr>) taskID s1) in
          case ctxErrAfter t of
            Some c \<Rightarrow> (Inr \<lparr>OutTaskID = taskID, OutStatus = ''CANCELED'', OutResult = '''', OutError = errString (ctxErrValue c)\<rparr>, s2)
          | None \<Rightarrow> (Inl er, s2))
     | Inr r \<Rightarrow>
         (Inr \<lparr>OutTaskID = RTaskID r, OutStatus = RStatus r, OutResult = ROutput r, OutError = RError r\<rparr>,
          snd (publishS ''delegation.completed'' (PMap [(''child_task_id'', VStr taskID), (''status'', VStr (RStatus r))]) s1)))"

definition delegateTask :: "'x tool_store_scheme toolEnv \<Rightarrow> Checker option \<Rightarrow> int \<Rightarrow> DelegateTaskInput \<Rightarrow> 'x tool_store_scheme \<Rightarrow>
    (err + DelegateTaskOutput) \<times> 'x tool_store_scheme" where
  "delegateTask t pol maxHops input =
    bindS (grantedGate pol capDelegateTask ''delegate_task'')
    (\<lambda>_. if InTarget input = '''' \<and> InCapability input = ''''
       then failS (ErrMsg ''delegate_task: either target_agent or capability must be provided'')
     else if InPrompt input = '''' then failS (ErrMsg ''delegate_task: prompt must be non-empty'')
     else bindS (resolveTarget input)
    (\<lambda>target. bindS (admitTarget ''delegate_task'' (tctx t) maxHops target)
    (\<lambda>_. let sid = sessionFor t (InSession input); callerTask = TaskID (tctx t) in
       bindS (wrapS ''delegate_task: ensure session'' (EnsureSession (uuidParse t) (tat t 2) sid))
    (\<lambda>_. bindS (wrapS ''delegate_task: create task''
              (CreateTaskForAgent (tat t 3) (newTaskID t) target sid (encodeChatPayload (InPrompt input))))
    (\<lambda>taskID. bindS (publishS ''delegation.started'' (PMap [(''parent_task_id'', VStr callerTask), (''child_task_id'', VStr taskID),
              (''target_agent'', VStr target), (''hop_count'', VInt (DelegationHop (tctx t)))]))
    (\<lambda>_. bindS (if callerTask \<noteq> '''' then ignoreS (SetParentTask taskID callerTask) else retS ())
    (\<lambda>_. awaitChild t (delegateTimeout (InTimeoutSec input)) taskID)))))))"

definition hopsOf :: "int \<Rightarrow> int" where
  "hopsOf configured = (if configured \<le> 0 then 2 else configured)"

record AsyncDelegateTaskInput =
  AsTarget :: string
  AsPrompt :: string
  AsSession :: string

text \<open>The last step draws \<open>gap\<close>: what other goroutines do between the creation of the task and the
  insertion of the delegation record.\<close>

definition delegateTaskAsync :: "'x tool_store_scheme toolEnv \<Rightarrow> ('x tool_store_scheme \<Rightarrow> 'x tool_store_scheme) \<Rightarrow> Checker option \<Rightarrow> int \<Rightarrow>
    AsyncDelegateTaskInput \<Rightarrow> 'x tool_store_scheme \<Rightarrow> (err + string) \<times> 'x tool_store_scheme" where
  "delegateTaskAsync t gap pol maxHops input =
    bindS (grantedGate pol capDelegateTaskAsync ''delegate_task_async'')
    (\<lambda>_. if AsTarget input = '''' then failS (ErrMsg ''delegate_task_async: target_agent must be provided'')
     else if AsPrompt input = '''' then failS (ErrMsg ''delegate_task_async: prompt must be non-empty'')
     else bindS (admitTarget ''delegate_task_async'' (tctx t) maxHops (AsTarget input))
    (\<lambda>_. let sid = sessionFor t (AsSession input) in
       bindS (wrapS ''delegate_task_async: ensure session'' (EnsureSession (uuidParse t) (tat t 2) sid))
    (\<lambda>_. bindS (wrapS ''delegate_task_async: create task''
              (CreateTaskForAgent (tat t 3) (newTaskID t) (AsTarget input) sid (encodeChatPayload (AsPrompt input))))
    (\<lambda>taskID s. bindS (wrapS ''delegate_task_async: create delegation'' (CreateDelegation (newDelegID t)
              \<lparr>DelegID = '''', DelegTaskID = taskID, ParentAgent = AgentID (tctx t), ChildAgent = AsTarget input,
               DelegPrompt = AsPrompt input, DelegStatus = ''queued'', DelegResult = None, DelegError = None,
               DelegCreatedAt = GoTs (now (tat t 4)), DelegCompletedAt = None, Injected = False\<rparr>))
    (\<lambda>_. bindS (publishS ''delegation.started'' (PMap [(''delegation_id'', VStr (newDelegID t)), (''child_task_id'', VStr taskID),
              (''target_agent'', VStr (AsTarget input)), (''hop_count'', VInt (DelegationHop (tctx t)))]))
    (\<lambda>_. retS (newDelegID t))) (gap s)))))"

section \<open>Spawning\<close>

definition capSpawnTask :: string where "capSpawnTask = ''tools.spawn_task''"

record SpawnTaskInput =
  SpDescription :: string
  SpPayload :: string
  SpPriority :: int
  SpParent :: string
  SpSession :: string
  SpTarget :: string

definition spawnTask :: "'x tool_store_scheme toolEnv \<Rightarrow> Checker option \<Rightarrow> SpawnTaskInput \<Rightarrow> 'x tool_store_scheme \<Rightarrow>
    (err + string \<times> string) \<times> 'x tool_store_scheme" where
  "spawnTask t pol input =
    bindS (grantedGate pol capSpawnTask ''spawn_task'')
    (\<lambda>pv. if SpDescription input = '''' then failS (ErrMsg ''spawn_task: description must be non-empty'')
     else if SpPayload input = '''' then failS (ErrMsg ''spawn_task: payload must be non-empty'')
     else if SpParent input = '''' then failS (ErrMsg ''spawn_task: parent_task_id must be non-empty'')
     else if SpSession input = '''' then failS (ErrMsg ''spawn_task: session_id must be non-empty'')
     else if SpTarget input \<noteq> '''' then
       bindS (wrapS ''spawn_task for agent'' (CreateTaskForAgent (tat t 0) (newTaskID t) (SpTarget input) (SpSession input) (SpPayload input)))
       (\<lambda>taskID. bindS (recordAudit ''allow'' capSpawnTask ''task_for_agent_created'' pv taskID)
       (\<lambda>_. retS (taskID, ''QUEUED'')))
     else
       bindS (wrapS ''spawn_task'' (CreateSubtask (tat t 0) (newTaskID t) (SpParent input) (SpSession input) (SpPayload input) (SpPriority input)))
       (\<lambda>taskID. bindS (recordAudit ''allow'' capSpawnTask ''subtask_created'' pv taskID)
       (\<lambda>_. retS (taskID, ''QUEUED''))))"

section \<open>Messages\<close>

definition capSendMessage :: string where "capSendMessage = ''tools.send_message''"
definition capReadMessages :: string where "capReadMessages = ''tools.read_messages''"

definition callerOrDefault :: "ctx \<Rightarrow> string" where
  "callerOrDefault c = (if AgentID c = '''' then ''default'' else AgentID c)"

definition sendMessage :: "'x tool_store_scheme toolEnv \<Rightarrow> Checker option \<Rightarrow> string \<Rightarrow> string \<Rightarrow> 'x tool_store_scheme \<Rightarrow>
    (err + string) \<times> 'x tool_store_scheme" where
  "sendMessage t pol toAgent content =
    bindS (policyGate pol capSendMessage ''send_message'')
    (\<lambda>pv. let from = callerOrDefault (tctx t) in
     if toAgent = '''' then failS (ErrMsg ''send_message: to_agent must be non-empty'')
     else if trimSpace content = '''' then failS (ErrMsg ''send_message: content must be non-empty'')
     else if from = toAgent then failS (ErrMsg ''send_message: cannot send a message to yourself'')
     else bindS (wrapS ''send_message: check target agent'' (GetAgent toAgent))
    (\<lambda>agent. if agent = None then failS (ErrMsg (''send_message: target agent '' @ quoteGo toAgent @ '' not found''))
     else bindS (wrapS ''send_message'' (SendAgentMessage (tat t 1) from toAgent content))
    (\<lambda>_. bindS (publishS ''agent.message'' (PAgentMessage from toAgent content (MessageDepth (tctx t))))
    (\<lambda>_. bindS (recordAudit ''allow'' capSendMessage ''message_sent'' pv (from @ ''->'' @ toAgent))
    (\<lambda>_. retS ''sent'')))))"

text \<open>A message as the tool shows it; the time is shown as text, which is left out.\<close>

definition messageEntry :: "agent_message_row \<Rightarrow> string \<times> string \<times> ts" where
  "messageEntry m = (am_from m, am_content m, am_created_at m)"

definition readLimit :: "int \<Rightarrow> int" where
  "readLimit given = (let n = (if given \<le> 0 then 10 else given) in if n > 100 then 100 else n)"

definition readMessages :: "'x tool_store_scheme toolEnv \<Rightarrow> Checker option \<Rightarrow> int \<Rightarrow> 'x tool_store_scheme \<Rightarrow>
    (err + (string \<times> string \<times> ts) list \<times> nat) \<times> 'x tool_store_scheme" where
  "readMessages t pol given =
    bindS (policyGate pol capReadMessages ''read_messages'')
    (\<lambda>pv. let a = callerOrDefault (tctx t) in
     bindS (wrapS ''read_messages'' (ReadAgentMessages (tat t 1) a (readLimit given)))
    (\<lambda>msgs. bindS (recordAudit ''allow'' capReadMessages ''messages_read'' pv (''agent='' @ a @ '' count='' @ itoa (int (length msgs))))
    (\<lambda>_. retS (map messageEntry msgs, length msgs))))"

text \<open>The listener of \<open>main.go\<close>; \<open>newSHA1\<close> is \<open>uuid.NewSHA1\<close> in the namespace of object identifiers.\<close>

definition maxMessageDepth :: int where "maxMessageDepth = 5"

definition messageSession :: "(string \<Rightarrow> string) \<Rightarrow> string \<Rightarrow> string \<Rightarrow> string" where
  "messageSession newSHA1 from to =
    (let (a, b) = (if from > to then (to, from) else (from, to)) in newSHA1 (''agent-msg:'' @ a @ '':'' @ b))"

definition onAgentMessage :: "'s registry \<Rightarrow> (string \<Rightarrow> err option) \<Rightarrow> (string \<Rightarrow> string) \<Rightarrow> env \<Rightarrow> string \<Rightarrow> payload Event \<Rightarrow>
    'x store_scheme \<Rightarrow> (err + string) option \<times> 'x store_scheme" where
  "onAgentMessage reg up newSHA1 e newID evt s =
    (case Payload evt of
       PAgentMessage from to content depth \<Rightarrow>
         if depth \<ge> maxMessageDepth then (None, s)
         else (case RegistryCreateMessageTask reg up e newID to (messageSession newSHA1 from to)
                 (''[Message from @'' @ from @ '']: '' @ content) (depth + 1) s of (r, s1) \<Rightarrow> (Some r, s1))
     | _ \<Rightarrow> (None, s))"

section \<open>Alerts\<close>

definition capSendAlert :: string where "capSendAlert = ''tools.send_alert''"

definition sendAlert :: "'x tool_store_scheme toolEnv \<Rightarrow> Checker option \<Rightarrow> string \<Rightarrow> string \<Rightarrow> 'x tool_store_scheme \<Rightarrow>
    (err + string) \<times> 'x tool_store_scheme" where
  "sendAlert t pol severity body =
    bindS (grantedGate pol capSendAlert ''send_alert'')
    (\<lambda>_. if severity \<notin> set [''info'', ''warning'', ''critical'']
     then failS (ErrMsg (''invalid severity '' @ [CHR 0x22] @ severity @ [CHR 0x22] @ '': must be one of '' @ quoteGo ''info'' @ '', '' @
       quoteGo ''warning'' @ '', '' @ quoteGo ''critical''))
     else bindS (publishS ''agent.alert'' (PAgentAlert '''' '''' severity body))
    (\<lambda>_. retS (AgentID (tctx t) @ ''_alert'')))"

end
