(* ===== verification/Tool_Runs.thy ===== *)
theory Tool_Runs
  imports Tool_Calls Engine_Intake
begin

text \<open>
  What the tools guarantee when the engine runs them: a refused call changes nothing, a delegation
  reports what the child did, chains of messages end, and three gaps between the tools and the engine.
\<close>

section \<open>Refused calls\<close>

definition denied :: "Checker option \<Rightarrow> string \<Rightarrow> bool" where
  "denied pol capability \<longleftrightarrow> (case pol of None \<Rightarrow> True | Some chk \<Rightarrow> \<not> chkCapability chk capability)"

definition refusal :: "Checker option \<Rightarrow> string \<Rightarrow> string \<Rightarrow> 'x tool_store_scheme \<Rightarrow> (err + 'a) \<times> 'x tool_store_scheme" where
  "refusal pol capability tool s = (Inl (ErrMsg (''policy denied capability '' @ quoteGo capability)),
     s\<lparr>audit_calls := audit_calls s @ [\<lparr>AuDecision = ''deny'', AuCapability = capability, AuReason = ''missing_capability'',
       AuVersion = (case pol of None \<Rightarrow> '''' | Some chk \<Rightarrow> chkVersion chk), AuSubject = tool\<rparr>]\<rparr>)"

lemma gate_denied: "denied pol capability \<Longrightarrow> policyGate pol capability tool s = refusal pol capability tool s"
  by (auto simp: denied_def policyGate_def refusal_def recordAudit_def bindS_def failS_def split: option.splits)

lemma refusal_bind: "bindS (refusal pol c tool) f s = refusal pol c tool s"
  by (simp add: bindS_def refusal_def)

lemma gated: "denied pol c \<Longrightarrow> bindS (policyGate pol c tool) f s = refusal pol c tool s"
  by (simp add: bindS_def gate_denied) (simp add: refusal_def)

lemma granted_gated: "denied pol c \<Longrightarrow> bindS (grantedGate pol c tool) f s = refusal pol c tool s"
  unfolding grantedGate_def by (subst bindS_def) (simp add: gated, simp add: refusal_def)

text \<open>Without the capability a tool does nothing: the call is an error, one deny is recorded with the
  version of the policy, and the database, the bus and the engine are untouched.\<close>

theorem refused_tools_change_nothing:
  assumes "\<forall>capability. denied pol capability"
  shows "delegateTask t pol hops dinput s = refusal pol capDelegateTask ''delegate_task'' s \<and>
    delegateTaskAsync t gap pol hops ainput s = refusal pol capDelegateTaskAsync ''delegate_task_async'' s \<and>
    spawnTask t pol sinput s = refusal pol capSpawnTask ''spawn_task'' s \<and>
    sendMessage t pol to content s = refusal pol capSendMessage ''send_message'' s \<and>
    readMessages t pol n s = refusal pol capReadMessages ''read_messages'' s \<and>
    sendAlert t pol severity body s = refusal pol capSendAlert ''send_alert'' s"
  using assms unfolding delegateTask_def delegateTaskAsync_def spawnTask_def sendMessage_def readMessages_def sendAlert_def
  by (simp add: gated granted_gated)

section \<open>The hop limit of delegations\<close>

lemma taskContext_hop: "DelegationHop (taskContext en t task) = DelegationHop (ctxOf (clock t 4))"
  by (simp add: taskContext_def ctx_defs Let_def split: option.splits)

lemma admitTarget_first_hop: "DelegationHop c = 0 \<Longrightarrow> 0 < m \<Longrightarrow> admitTarget tool c m target = admitTarget tool c 1 target"
  by (simp add: admitTarget_def)

text \<open>The limit on delegation hops has no effect: the engine starts every task, also a delegated one, with
  hop count 0, because the count is only put into the context of the wait. Whatever the limit is, a tool call
  made while a task runs behaves as with the limit 1, so agents may delegate to each other without end.\<close>

theorem hop_limit_ineffective:
  assumes "tctx te = taskContext en t task" and "ctxHop (ctxOf (clock t 4)) = None"
  shows "delegateTask te pol (hopsOf m) input s = delegateTask te pol 1 input s \<and>
    delegateTaskAsync te gap pol (hopsOf m) ainput s = delegateTaskAsync te gap pol 1 ainput s"
proof -
  have "DelegationHop (tctx te) = 0" using assms taskContext_hop [of en t task] by (simp add: DelegationHop_def)
  moreover have "0 < hopsOf m" by (simp add: hopsOf_def)
  ultimately have h: "admitTarget tool (tctx te) (hopsOf m) target = admitTarget tool (tctx te) 1 target" for tool target
    by (rule admitTarget_first_hop)
  show ?thesis unfolding delegateTask_def delegateTaskAsync_def h by simp
qed

section \<open>What a delegation reports\<close>

definition outputOf :: "TaskResult \<Rightarrow> DelegateTaskOutput" where
  "outputOf r = \<lparr>OutTaskID = RTaskID r, OutStatus = RStatus r, OutResult = ROutput r, OutError = RError r\<rparr>"

lemma awaitChild_Inr:
  assumes "awaitChild t n i s = (Inr out, s')"
  shows "(\<exists>st row. st \<in> seen (fst (waitChild t n s)) \<and> finishedRow i st = Some row \<and> out = outputOf (taskResult (scanTask row))) \<or>
    (\<exists>c. ctxErrAfter t = Some c \<and> out = \<lparr>OutTaskID = i, OutStatus = ''CANCELED'', OutResult = '''', OutError = errString (ctxErrValue c)\<rparr>)"
proof -
  obtain w s1 where w: "waitChild t n s = (w, s1)" by (cases "waitChild t n s")
  show ?thesis
  proof (cases "WaitForTask False i w")
    case (Inr r)
    then obtain st row where "st \<in> seen w" "finishedRow i st = Some row" "r = taskResult (scanTask row)" by (rule WaitForTask_result)
    with assms w Inr show ?thesis by (auto simp: awaitChild_def outputOf_def)
  qed (use assms w in \<open>auto simp: awaitChild_def Let_def split: option.splits\<close>)
qed

text \<open>The child's row as the delegation leaves it before it waits.\<close>

definition delegated :: "string \<Rightarrow> string \<Rightarrow> string \<Rightarrow> 'x store_scheme \<Rightarrow> bool" where
  "delegated i target prompt s \<longleftrightarrow> (\<exists>r\<in>set (tasks s). t_id r = i \<and> t_status r = TaskStatusQueued \<and> t_agent_id r = agentOrDefault target \<and>
     decodeChatTask (t_payload r) = Some \<lparr>PContent = prompt, PMessageDepth = 0\<rparr>)"

lemma encodeChatPayload_task: "encodeChatPayload p = encodeChatTask \<lparr>PContent = p, PMessageDepth = 0\<rparr>"
  by (simp add: encodeChatPayload_def encodeChatTask_def)

lemma createTask_delegated:
  assumes "CreateTaskForAgent e i a sid (encodeChatPayload p) s = (Inr j, s')"
  shows "j = i" and "delegated i a p s'"
proof -
  note c = createTask_InrE [OF assms [unfolded CreateTaskForAgent_def]]
  show "j = i" by (rule c(1))
  show "delegated i a p s'" unfolding delegated_def c(3)
    by (simp add: queuedRow_def encodeChatPayload_task decode_encode_task)
qed

lemma publishS_Inr: "publishS topic x s = (Inr u, s') \<longleftrightarrow> s' = snd (publishS topic x s)"
  by (auto simp: publishS_def)

lemma ignoreS_Inr: "ignoreS m s = (Inr u, s') \<longleftrightarrow> s' = snd (m s)"
  by (auto simp: ignoreS_def)

lemma delegated_publish: "delegated i a p (snd (publishS topic x s)) = delegated i a p s"
  by (simp add: delegated_def publishS_def split: option.splits)

lemma delegated_parent:
  assumes "delegated i a p s"
  shows "delegated i a p (snd (SetParentTask j q s))"
proof -
  let ?f = "\<lambda>r :: task_row. r\<lparr>t_parent_task_id := Some q\<rparr>"
  have "tasks (snd (SetParentTask j q s)) = tasks s \<or> tasks (snd (SetParentTask j q s)) = updWhere (\<lambda>r. t_id r = j) ?f (tasks s)"
    by (simp add: SetParentTask_def wrapS_def execS_def stmt_def updTasks_def split: list.splits option.splits)
  then show ?thesis
  proof
    assume u: "tasks (snd (SetParentTask j q s)) = updWhere (\<lambda>r. t_id r = j) ?f (tasks s)"
    from assms obtain r where r: "r \<in> set (tasks s)" "t_id r = i" "t_status r = TaskStatusQueued" "t_agent_id r = agentOrDefault a"
      "decodeChatTask (t_payload r) = Some \<lparr>PContent = p, PMessageDepth = 0\<rparr>" by (auto simp: delegated_def)
    let ?r = "if t_id r = j then ?f r else r"
    have "?r \<in> set (updWhere (\<lambda>r. t_id r = j) ?f (tasks s))" using r(1) by (auto simp: updWhere_def)
    with r u show ?thesis unfolding delegated_def by (intro bexI [of _ ?r]) auto
  qed (use assms in \<open>simp add: delegated_def\<close>)
qed

text \<open>A delegation that returns a result reports the child task it created: the child was queued for
  the target agent, an existing other agent than the caller, with the prompt as its message; and the result
  is the final status, the output and the error of that task as a read of the database during the wait
  showed them, or \<open>CANCELED\<close> when the caller's own context had ended.\<close>

theorem delegate_reports_child:
  fixes s :: "'x tool_store_scheme"
  assumes "delegateTask t pol hops input s = (Inr out, s')" and "InTarget input \<noteq> ''''"
  shows "\<exists>s1. delegated (newTaskID t) (InTarget input) (InPrompt input) s1 \<and> InTarget input \<noteq> AgentID (tctx t) \<and>
    ((\<exists>st row. st \<in> seen (fst (waitChild t (delegateTimeout (InTimeoutSec input)) s1)) \<and> finishedRow (newTaskID t) st = Some row \<and>
        out = outputOf (taskResult (scanTask row))) \<or>
     (\<exists>c. ctxErrAfter t = Some c \<and>
        out = \<lparr>OutTaskID = newTaskID t, OutStatus = ''CANCELED'', OutResult = '''', OutError = errString (ctxErrValue c)\<rparr>))"
proof -
  let ?a = "InTarget input" and ?i = "newTaskID t"
  let ?sid = "sessionFor t (InSession input)"
  obtain s1 s2 s3 s4 s5 :: "'x tool_store_scheme" and i where
    admit: "admitTarget ''delegate_task'' (tctx t) hops ?a s1 = (Inr (), s2)" and
    create: "CreateTaskForAgent (tat t 3) ?i ?a ?sid (encodeChatPayload (InPrompt input)) s3 = (Inr i, s4)" and
    wait: "awaitChild t (delegateTimeout (InTimeoutSec input)) i s5 = (Inr out, s')" and
    last: "delegated ?i ?a (InPrompt input) s4 \<longrightarrow> delegated ?i ?a (InPrompt input) s5"
    using assms
    by (cases "TaskID (tctx t) = ''''"; clarsimp simp: delegateTask_def bindS_Inr resolveTarget_def Let_def ignoreS_Inr publishS_Inr
        split: if_splits; blast intro: that delegated_parent delegated_publish [THEN iffD2])
  have "?a \<noteq> AgentID (tctx t)" using admit assms(2) by (auto simp: admitTarget_def split: if_splits)
  moreover have "i = ?i" "delegated ?i ?a (InPrompt input) s5" using createTask_delegated [OF create] last by auto
  ultimately show ?thesis using awaitChild_Inr [OF wait] by blast
qed


section \<open>Chains of messages end\<close>

lemma same_bus:
  "policyGate pol c tool s = (Inr v, s') \<Longrightarrow> bus s' = bus s"
  "GetAgent a s = (Inr v', s') \<Longrightarrow> bus s' = bus s"
  "SendAgentMessage e from to content s = (Inr u, s') \<Longrightarrow> bus s' = bus s"
  by (auto simp: policyGate_def bindS_Inr GetAgent_def SendAgentMessage_def elim!: execS_InrE noRows_InrE split: option.splits if_splits)

lemma sendMessage_publishes:
  fixes s :: "'x tool_store_scheme"
  assumes "sendMessage t pol to content s = (Inr r, s')"
  shows "bus s' = map_option (\<lambda>b. Publish b ''agent.message'' (PAgentMessage (callerOrDefault (tctx t)) to content (MessageDepth (tctx t)))) (bus s)"
proof -
  obtain s1 s2 s3 :: "'x tool_store_scheme" and pv a where
    "policyGate pol capSendMessage ''send_message'' s = (Inr pv, s1)" "GetAgent to s1 = (Inr a, s2)"
    "SendAgentMessage (tat t 1) (callerOrDefault (tctx t)) to content s2 = (Inr (), s3)" and
    p: "bus s' = bus (snd (publishS ''agent.message'' (PAgentMessage (callerOrDefault (tctx t)) to content (MessageDepth (tctx t))) s3))"
    using assms by (clarsimp simp: sendMessage_def bindS_Inr Let_def publishS_Inr recordAudit_def split: if_splits)
  then have "bus s3 = bus s" using same_bus by metis
  with p show ?thesis by (simp add: publishS_def split: option.splits)
qed

lemma taskContext_depth:
  assumes "decodeChatTask (TPayload task) = Some p" and "0 < PMessageDepth p"
  shows "MessageDepth (taskContext en t task) = PMessageDepth p"
  using assms by (simp add: taskContext_def ctx_defs Let_def)

text \<open>\<open>n\<close> answers: each is sent by the tool while the task runs that the listener created for the message
  before.\<close>

inductive message_chain :: "'x tool_store_scheme registry \<Rightarrow> (string \<Rightarrow> err option) \<Rightarrow> (string \<Rightarrow> string) \<Rightarrow> nat \<Rightarrow>
    payload Event \<Rightarrow> payload Event \<Rightarrow> bool" for reg up h where
  message: "message_chain reg up h 0 ev ev"
| answer: "message_chain reg up h n ev ev1 \<Longrightarrow> onAgentMessage reg up h e newID ev1 (s :: 'x tool_store_scheme) = (Some (Inr i), s1) \<Longrightarrow>
    findTask i s1 = Some row \<Longrightarrow> TPayload task = t_payload row \<Longrightarrow>
    tctx te = taskContext en (t :: 'x tool_store_scheme turn) task \<Longrightarrow>
    sendMessage (te :: 'x tool_store_scheme toolEnv) pol to content s2 = (Inr ok, s3) \<Longrightarrow>
    ev2 = \<lparr>Topic = ''agent.message'', Payload = PAgentMessage (callerOrDefault (tctx te)) to content (MessageDepth (tctx te))\<rparr> \<Longrightarrow>
    message_chain reg up h (Suc n) ev ev2"

lemma listener_task:
  fixes reg :: "'s registry"
  assumes "onAgentMessage reg up h e newID ev s = (Some (Inr i), s1)" and "findTask i s1 = Some row"
    and "Payload ev = PAgentMessage from to content d" and "0 \<le> d" and "TPayload task = t_payload row"
  shows "d < maxMessageDepth \<and> MessageDepth (taskContext en t task) = d + 1"
proof -
  have d: "d < maxMessageDepth" using assms(1,3) by (auto simp: onAgentMessage_def split: if_splits)
  obtain en' :: "'s Engine" where c: "createChatTaskWithDepth en' up e newID to (messageSession h from to) (''[Message from @'' @ from @ '']: '' @ content) (d + 1) s
      = (Inr i, s1)"
    using assms(1,3) d by (auto simp: onAgentMessage_def RegistryCreateMessageTask_def CreateMessageTaskForAgent_def failS_def
        split: option.splits prod.splits)
  note t = createChat_InrE [OF c]
  from findTask_new [OF t(2,3)] t(1) assms(2)
  have "t_payload row = encodeChatTask \<lparr>PContent = ''[Message from @'' @ from @ '']: '' @ content, PMessageDepth = d + 1\<rparr>"
    by (auto simp: queuedRow_def)
  then have "decodeChatTask (TPayload task) = Some \<lparr>PContent = ''[Message from @'' @ from @ '']: '' @ content, PMessageDepth = d + 1\<rparr>"
    using assms(4,5) d by (simp add: decode_encode_task maxMessageDepth_def)
  from taskContext_depth [OF this] assms(4) d show ?thesis by simp
qed

text \<open>Agents that answer each other's messages stop: in a chain of answers that starts with a message
  sent outside of such a task, the \<open>n\<close>-th answer carries depth \<open>n\<close>, and there are at most
  \<open>maxMessageDepth\<close> answers.\<close>

theorem message_chain_ends:
  assumes "message_chain reg up h n ev ev'" and "Payload ev = PAgentMessage from to content 0"
  shows "int n \<le> maxMessageDepth \<and> (\<exists>a b c. Payload ev' = PAgentMessage a b c (int n))"
  using assms
proof (induction rule: message_chain.induct)
  case (message ev)
  then show ?case by (simp add: maxMessageDepth_def)
next
  case (answer n ev ev1 e newID s i s1 row task te en t pol to content s2 ok s3 ev2)
  then obtain a b c where p: "Payload ev1 = PAgentMessage a b c (int n)" by blast
  from listener_task [OF answer.hyps(2,3) p _ answer.hyps(4), of en t] answer.hyps(5,7) show ?case by simp
qed

section \<open>Spawned prompts\<close>

text \<open>The tool \<open>spawn_task\<close> stores the payload it is given as it is, where the engine expects a JSON
  object: a payload that is a plain prompt, as the tool's description asks for, makes every run of the
  spawned task fail with a decoding error before the model is called.\<close>

theorem spawned_prompt_fails:
  fixes s :: "'x tool_store_scheme"
  assumes "spawnTask t pol input s = (Inr (i, st), s')" and "decodeChatTask (SpPayload input) = None"
  shows "\<exists>r. findTask i s' = Some r \<and> t_status r = TaskStatusQueued \<and>
    (\<forall>task c s2. TPayload task = t_payload r \<longrightarrow>
       Process (EchoProcessor b j) c task s2 = (Inl (ErrWrap ''decode payload'' (j (SpPayload input))), s2))"
proof -
  have "\<exists>r. findTask i s' = Some r \<and> t_status r = TaskStatusQueued \<and> t_payload r = SpPayload input"
  proof (cases "SpTarget input = ''''")
    case True
    then obtain s1 s2 :: "'x tool_store_scheme" where "CreateSubtask (tat t 0) (newTaskID t) (SpParent input) (SpSession input) (SpPayload input) (SpPriority input) s1 = (Inr i, s2)"
      "tasks s' = tasks s2" using assms(1)
      by (auto simp: spawnTask_def bindS_Inr recordAudit_def split: if_splits)
    then show ?thesis
      by (auto simp: CreateSubtask_def bindS_Inr taskInsertCheck_def queuedRow_def elim!: execCheck_InrE split: if_splits
          intro!: exI findTask_new)
  next
    case False
    then obtain s1 s2 :: "'x tool_store_scheme" where c: "createTask (tat t 0) (newTaskID t) (SpTarget input) (SpSession input) (SpPayload input) s1 = (Inr i, s2)"
      "tasks s' = tasks s2" using assms(1)
      by (auto simp: spawnTask_def bindS_Inr recordAudit_def CreateTaskForAgent_def split: if_splits)
    note t = createTask_InrE [OF c(1)]
    from findTask_new [OF t(2,3)] t(1) c(2) show ?thesis by (auto simp: queuedRow_def findTask_def)
  qed
  with assms(2) show ?thesis by (auto simp: Process_def echoProcess_def failS_def)
qed

section \<open>A delegation record that comes too late\<close>

text \<open>\<open>delegate_task_async\<close> inserts the delegation record after the task: when the target agent finishes
  the task in between, the engine finds no record to complete, and the record that is then inserted says
  \<open>queued\<close> for a finished task and is never delivered to the parent.\<close>

theorem late_delegation_record:
  fixes s :: "'x tool_store_scheme"
  assumes "delegateTaskAsync t gap pol hops input s = (Inr i, s')"
    and "\<And>s1. hasTask (newTaskID t) s1 \<Longrightarrow> finishedRow (newTaskID t) (gap s1) \<noteq> None"
  shows "\<exists>d\<in>set (delegations s'). DelegID d = i \<and> DelegTaskID d = newTaskID t \<and> DelegStatus d = ''queued'' \<and>
    \<not> deliverable (ParentAgent d) d \<and> finishedRow (newTaskID t) s' \<noteq> None"
proof -
  obtain s1 s2 s3 s4 :: "'x tool_store_scheme" and j where
    create: "CreateTaskForAgent (tat t 3) (newTaskID t) (AsTarget input) (sessionFor t (AsSession input)) (encodeChatPayload (AsPrompt input)) s1 = (Inr j, s2)" and
    del: "CreateDelegation (newDelegID t)
              \<lparr>DelegID = '''', DelegTaskID = j, ParentAgent = AgentID (tctx t), ChildAgent = AsTarget input,
               DelegPrompt = AsPrompt input, DelegStatus = ''queued'', DelegResult = None, DelegError = None,
               DelegCreatedAt = GoTs (now (tat t 4)), DelegCompletedAt = None, Injected = False\<rparr> (gap s2) = (Inr (), s3)" and
    fin: "i = newDelegID t" "tasks s' = tasks s3" "delegations s' = delegations s3"
    using assms(1)
    by (clarsimp simp: delegateTaskAsync_def bindS_Inr Let_def publishS_Inr split: if_splits)
      (rule that, assumption, assumption, simp_all add: publishS_def split: option.splits)
  note c = createTask_InrE [OF create [unfolded CreateTaskForAgent_def]]
  have "hasTask (newTaskID t) s2" using c(1,3) by (simp add: hasTask_def queuedRow_def)
  then have "finishedRow (newTaskID t) (gap s2) \<noteq> None" by (rule assms(2))
  moreover have "tasks s3 = tasks (gap s2)" using del by (auto simp: CreateDelegation_def Let_def elim!: execCheck_InrE)
  ultimately have "finishedRow (newTaskID t) s' \<noteq> None" using fin(2) by (simp add: finishedRow_def findTask_def)
  with del c(1) fin show ?thesis
    by (auto simp: CreateDelegation_def Let_def deliverable_def elim!: execCheck_InrE)
qed


section \<open>Examples\<close>

definition exToolStore :: tool_store where
  "exToolStore = engine_store.extend (exEngineStore exQueued) (tool_store.fields [])"

definition finishAll :: "'x tool_store_scheme \<Rightarrow> 'x tool_store_scheme" where
  "finishAll s = s\<lparr>tasks := map (\<lambda>r. r\<lparr>t_status := TaskStatusSucceeded, t_result := Some ''ok''\<rparr>) (tasks s)\<rparr>"

definition exToolEnv :: "ctx \<Rightarrow> tool_store toolEnv" where
  "exToolEnv c = \<lparr>tctx = c, tat = (\<lambda>k. exEnv 200), uuidParse = noUuid, newSession = ''n'', newTaskID = ''t2'', newDelegID = ''d1'',
     waitChild = (\<lambda>n s. (\<lparr>first = finishAll s, wakes = [], ctxErr = ErrMsg ''''\<rparr>, finishAll s)), ctxErrAfter = None\<rparr>"

definition exCaller :: ctx where
  "exCaller = WithAgentID (WithTaskID background ''t1'') ''b''"

definition allowAll :: "Checker option" where
  "allowAll = Some \<lparr>chkCapability = (\<lambda>_. True), chkVersion = ''v''\<rparr>"

lemma exToolStore_tables: "tasks exToolStore = [exRow]" "task_events exToolStore = [exEvent]" "agents exToolStore = [exAgent]"
  "faults exToolStore = []" "bus exToolStore = None" "delegations exToolStore = []" "sessions exToolStore = sessions exQueued"
  "ev_seq exToolStore = ev_seq exQueued" "audit_calls exToolStore = []"
  by (simp_all add: exToolStore_def tool_store.defs engine_eval exQueued_eq exTables_def emptyStore_def)

lemmas tool_eval = exToolEnv_def exCaller_def allowAll_def grantedGate_def policyGate_def recordAudit_def admitTarget_def GetAgent_def
  exAgent_def sessionFor_def noUuid_def EnsureSession_def CreateTaskForAgent_def createTask_def exToolStore_tables exQueued_eq
  exTables_def emptyStore_def tx_eval store_eval exRow_def queuedRow_def publishS_def SetParentTask_def Let_def

theorem refused_tools_change_nothing_witness:
  "delegateTask (exToolEnv exCaller) None 2 \<lparr>InTarget = ''default'', InCapability = '''', InPrompt = ''hi'', InSession = ''s'', InTimeoutSec = 0\<rparr> exToolStore =
     refusal None capDelegateTask ''delegate_task'' exToolStore \<and> tasks (snd (refusal None capDelegateTask ''delegate_task'' exToolStore)) = [exRow]"
proof -
  have "\<forall>capability. denied None capability" by (simp add: denied_def)
  from refused_tools_change_nothing [OF this, THEN conjunct1]
  have "delegateTask (exToolEnv exCaller) None 2 \<lparr>InTarget = ''default'', InCapability = '''', InPrompt = ''hi'', InSession = ''s'', InTimeoutSec = 0\<rparr> exToolStore =
     refusal None capDelegateTask ''delegate_task'' exToolStore" .
  moreover have "tasks (snd (refusal None capDelegateTask ''delegate_task'' exToolStore)) = [exRow]" by (simp add: refusal_def exToolStore_tables)
  ultimately show ?thesis by blast
qed

definition exTaskCtx :: "Task \<Rightarrow> ctx" where
  "exTaskCtx task = taskContext (exEngine :: tool_store Engine) (exTurn 200) task"

definition exDelegation :: DelegateTaskInput where
  "exDelegation = \<lparr>InTarget = ''default'', InCapability = '''', InPrompt = ''hi'', InSession = ''s'', InTimeoutSec = 0\<rparr>"

theorem hop_limit_ineffective_witness:
  "delegateTask (exToolEnv (exTaskCtx (scanTask exRow))) allowAll (hopsOf 7) exDelegation exToolStore =
   delegateTask (exToolEnv (exTaskCtx (scanTask exRow))) allowAll 1 exDelegation exToolStore"
proof -
  have "tctx (exToolEnv (exTaskCtx (scanTask exRow))) = taskContext (exEngine :: tool_store Engine) (exTurn 200) (scanTask exRow)"
    by (simp add: exToolEnv_def exTaskCtx_def)
  moreover have "ctxHop (ctxOf (clock (exTurn 200 :: tool_store turn) 4)) = None" by (simp add: exTurn_def exEnv_def background_def)
  ultimately show ?thesis using hop_limit_ineffective by blast
qed

lemma exDelegate: "\<exists>s'. delegateTask (exToolEnv exCaller) allowAll 2 exDelegation exToolStore =
    (Inr \<lparr>OutTaskID = ''t2'', OutStatus = ''SUCCEEDED'', OutResult = ''ok'', OutError = ''''\<rparr>, s')"
  by (simp add: delegateTask_def exDelegation_def resolveTarget_def tool_eval awaitChild_def WaitForTask_def checkTerminal_def GetTask_def
      finishAll_def isTerminalStatus_def taskResult_def)

theorem delegate_reports_child_witness:
  "\<exists>s1 :: tool_store. delegated ''t2'' ''default'' ''hi'' s1"
proof -
  obtain s' where "delegateTask (exToolEnv exCaller) allowAll 2 exDelegation exToolStore =
    (Inr \<lparr>OutTaskID = ''t2'', OutStatus = ''SUCCEEDED'', OutResult = ''ok'', OutError = ''''\<rparr>, s')" using exDelegate by blast
  from delegate_reports_child [OF this] show ?thesis by (auto simp: exDelegation_def exToolEnv_def)
qed

definition exSpawn :: SpawnTaskInput where
  "exSpawn = \<lparr>SpDescription = ''d'', SpPayload = ''Hello'', SpPriority = 0, SpParent = ''t1'', SpSession = ''s'', SpTarget = ''''\<rparr>"

lemma exSpawned: "\<exists>s'. spawnTask (exToolEnv exCaller) allowAll exSpawn exToolStore = (Inr (''t2'', ''QUEUED''), s')"
  by (simp add: spawnTask_def exSpawn_def tool_eval CreateSubtask_def)

theorem spawned_prompt_fails_witness:
  "\<exists>r s'. spawnTask (exToolEnv exCaller) allowAll exSpawn exToolStore = (Inr (''t2'', ''QUEUED''), s') \<and> findTask ''t2'' s' = Some r \<and>
     fst (Process (EchoProcessor (Some exBrain) ErrMsg) background (scanTask r) exToolStore) =
       Inl (ErrWrap ''decode payload'' (ErrMsg ''Hello''))"
proof -
  obtain s' where s': "spawnTask (exToolEnv exCaller) allowAll exSpawn exToolStore = (Inr (''t2'', ''QUEUED''), s')" using exSpawned by blast
  have p: "SpPayload exSpawn = ''Hello''" by (simp only: exSpawn_def SpawnTaskInput.select_convs)
  have "decodeChatTask ''Hello'' = None" by (simp add: decodeChatTask_def objectOf_def parseJson_def parseNum_def isDigit_def Let_def)
  then have "decodeChatTask (SpPayload exSpawn) = None" by (simp only: p)
  note all = spawned_prompt_fails [OF s' this, of "Some exBrain" ErrMsg]
  then obtain r where f: "findTask ''t2'' s' = Some r"
    and r: "\<forall>task c (s2 :: tool_store). TPayload task = t_payload r \<longrightarrow>
       Process (EchoProcessor (Some exBrain) ErrMsg) c task s2 = (Inl (ErrWrap ''decode payload'' (ErrMsg (SpPayload exSpawn))), s2)"
    by (elim exE conjE) (rule that)
  have "TPayload (scanTask r) = t_payload r" by (simp only: scanTask_def Task.select_convs)
  from r [rule_format, OF this, of background exToolStore]
  have "fst (Process (EchoProcessor (Some exBrain) ErrMsg) background (scanTask r) exToolStore) =
      Inl (ErrWrap ''decode payload'' (ErrMsg ''Hello''))" by (simp only: p fst_conv)
  with s' f show ?thesis by (intro exI conjI)
qed

definition exAsync :: AsyncDelegateTaskInput where
  "exAsync = \<lparr>AsTarget = ''default'', AsPrompt = ''hi'', AsSession = ''s''\<rparr>"

lemma finishAll_finished: "hasTask i s \<Longrightarrow> finishedRow i (finishAll s) \<noteq> None"
proof -
  assume "hasTask i s"
  then have "\<exists>r\<in>set (tasks (finishAll s)). t_id r = i" by (auto simp: hasTask_def finishAll_def)
  then obtain r where r: "findTask i (finishAll s) = Some r" by (cases "findTask i (finishAll s)") (auto simp: findTask_def firstWhere_None)
  then have "r \<in> set (tasks (finishAll s))" by (auto dest: findTask_Some)
  with r show ?thesis by (auto simp: finishedRow_def finishAll_def isTerminalStatus_def)
qed

lemma exAsynced: "\<exists>s'. delegateTaskAsync (exToolEnv exCaller) finishAll allowAll 2 exAsync exToolStore = (Inr ''d1'', s')"
  by (simp add: delegateTaskAsync_def exAsync_def tool_eval finishAll_def CreateDelegation_def)

theorem late_delegation_record_witness:
  "\<exists>s' d. delegateTaskAsync (exToolEnv exCaller) finishAll allowAll 2 exAsync exToolStore = (Inr ''d1'', s') \<and> d \<in> set (delegations s') \<and>
     DelegStatus d = ''queued'' \<and> finishedRow ''t2'' s' \<noteq> None"
proof -
  obtain s' where s': "delegateTaskAsync (exToolEnv exCaller) finishAll allowAll 2 exAsync exToolStore = (Inr ''d1'', s')" using exAsynced by blast
  from late_delegation_record [OF s' finishAll_finished] s' show ?thesis by (auto simp: exToolEnv_def)
qed

definition exMessage :: "payload Event" where
  "exMessage = \<lparr>Topic = ''agent.message'', Payload = PAgentMessage ''default'' ''b'' ''ping'' 0\<rparr>"

lemma exListened: "\<exists>s1 row. onAgentMessage (exRegistry :: tool_store registry) noUuid (\<lambda>x. ''s'') (exEnv 200) ''t2'' exMessage exToolStore = (Some (Inr ''t2''), s1) \<and>
    findTask ''t2'' s1 = Some row"
proof -
  have u: "toLower (trimSpace ''user'') = ''user''" by code_simp
  show ?thesis
    by (simp add: onAgentMessage_def exMessage_def maxMessageDepth_def exRegistry_def RegistryCreateMessageTask_def CreateMessageTaskForAgent_def
        createChatTaskWithDepth_def u backpressure_def exEngine_proc exConfig_def queueDepthOf_def QueueDepthForAgent_def AddHistory_def
        messageRoles_def insertChatTask_def tool_eval insertMessage_def messageSession_def)
qed

theorem message_chain_ends_witness:
  "\<exists>ev'. message_chain (exRegistry :: tool_store registry) noUuid (\<lambda>x. ''s'') 1 exMessage ev' \<and> (\<exists>a b c. Payload ev' = PAgentMessage a b c 1)"
proof -
  obtain s1 row where l: "onAgentMessage (exRegistry :: tool_store registry) noUuid (\<lambda>x. ''s'') (exEnv 200) ''t2'' exMessage exToolStore = (Some (Inr ''t2''), s1)"
    "findTask ''t2'' s1 = Some row" using exListened by blast
  let ?te = "exToolEnv (exTaskCtx (scanTask row))"
  have a: "AgentID (exTaskCtx (scanTask row)) = ''''"
    by (simp add: exTaskCtx_def taskContext_def ctx_defs Let_def exEngine_proc exConfig_def split: option.splits)
  have "\<exists>r s3. sendMessage ?te allowAll ''b'' ''pong'' (exToolStore\<lparr>agents := [exAgent\<lparr>AgentRecID := ''b''\<rparr>]\<rparr>) = (Inr r, s3)"
    by (simp add: sendMessage_def callerOrDefault_def a exToolEnv_def allowAll_def policyGate_def recordAudit_def GetAgent_def SendAgentMessage_def
        tx_eval publishS_def exToolStore_tables firstWhere_def trimSpace_def isSpaceByte_def exAgent_def Let_def)
  then obtain r s3 where m: "sendMessage ?te allowAll ''b'' ''pong'' (exToolStore\<lparr>agents := [exAgent\<lparr>AgentRecID := ''b''\<rparr>]\<rparr>) = (Inr r, s3)" by blast
  have "message_chain (exRegistry :: tool_store registry) noUuid (\<lambda>x. ''s'') (Suc 0) exMessage
      \<lparr>Topic = ''agent.message'', Payload = PAgentMessage (callerOrDefault (tctx ?te)) ''b'' ''pong'' (MessageDepth (tctx ?te))\<rparr>" (is "message_chain _ _ _ _ _ ?ev")
    by (rule answer [OF message l _ _ m refl, where task = "scanTask row" and t = "exTurn 200" and en = exEngine])
      (simp_all add: scanTask_def exToolEnv_def exTaskCtx_def)
  from message_chain_ends [OF this] this show ?thesis by (auto simp: exMessage_def intro!: exI [of _ ?ev])
qed

end
