(* ===== verification/Go_Duration.thy ===== *)
theory Go_Duration
  imports Prelude
begin

text \<open>
  \<open>time.ParseDuration\<close> of Go's standard library, which reads the durations of the configuration. A
  \<open>time.Duration\<close> is a signed count of nanoseconds of 64 bits. A fraction is scaled exactly and
  rounded down, where the library computes in \<open>float64\<close>.
\<close>

definition isDigitByte :: "char \<Rightarrow> bool" where
  "isDigitByte c = (let n = (of_char c :: nat) in 48 \<le> n \<and> n \<le> 57)"

definition digitByte :: "char \<Rightarrow> nat" where
  "digitByte c = (of_char c :: nat) - 48"

text \<open>\<open>leadingInt\<close>: the number before the first other byte; more than \<open>1 << 63\<close> is an error.\<close>

fun leadingInt :: "nat \<Rightarrow> string \<Rightarrow> (nat \<times> string) option" where
  "leadingInt x [] = Some (x, [])"
| "leadingInt x (c # cs) =
    (if \<not> isDigitByte c then Some (x, c # cs)
     else if x > 2^63 div 10 then None
     else let x1 = x * 10 + digitByte c in if x1 > 2^63 then None else leadingInt x1 cs)"

text \<open>\<open>leadingFraction\<close>: digits that no longer fit are skipped.\<close>

fun leadingFraction :: "nat \<Rightarrow> nat \<Rightarrow> bool \<Rightarrow> string \<Rightarrow> nat \<times> nat \<times> string" where
  "leadingFraction x scale overflow [] = (x, scale, [])"
| "leadingFraction x scale overflow (c # cs) =
    (if \<not> isDigitByte c then (x, scale, c # cs)
     else if overflow \<or> x > (2^63 - 1) div 10 then leadingFraction x scale True cs
     else let y = x * 10 + digitByte c in
       if y > 2^63 then leadingFraction x scale True cs else leadingFraction y (scale * 10) False cs)"

definition unitMap :: "string \<Rightarrow> nat option" where
  "unitMap u =
    (if u = ''ns'' then Some 1
     else if u = ''us'' \<or> u = [CHR 0xC2, CHR 0xB5, CHR ''s''] \<or> u = [CHR 0xCE, CHR 0xBC, CHR ''s''] then Some (10^3)
     else if u = ''ms'' then Some (10^6)
     else if u = ''s'' then Some (10^9)
     else if u = ''m'' then Some (60 * 10^9)
     else if u = ''h'' then Some (3600 * 10^9) else None)"

definition unitByte :: "char \<Rightarrow> bool" where
  "unitByte c = (c \<noteq> CHR ''.'' \<and> \<not> isDigitByte c)"

definition fractionPart :: "string \<Rightarrow> nat \<times> nat \<times> bool \<times> string" where
  "fractionPart s =
    (case s of [] \<Rightarrow> (0, 1, False, [])
     | c # cs \<Rightarrow> if c \<noteq> CHR ''.'' then (0, 1, False, s)
        else (case leadingFraction 0 1 False cs of (f, scale, r) \<Rightarrow> (f, scale, length r \<noteq> length cs, r)))"

definition startsNumber :: "string \<Rightarrow> bool" where
  "startsNumber s = (case s of [] \<Rightarrow> False | c # _ \<Rightarrow> c = CHR ''.'' \<or> isDigitByte c)"

text \<open>One number with its unit, and the text behind it.\<close>

definition durationPart :: "string \<Rightarrow> (nat \<times> string) option" where
  "durationPart s =
    (if \<not> startsNumber s then None else
     case leadingInt 0 s of None \<Rightarrow> None
     | Some (v, s1) \<Rightarrow>
        (case fractionPart s1 of (f, scale, post, s2) \<Rightarrow>
          (if length s1 = length s \<and> \<not> post then None
           else if takeWhile unitByte s2 = [] then None
           else case unitMap (takeWhile unitByte s2) of None \<Rightarrow> None
             | Some unit \<Rightarrow>
                (if v > 2^63 div unit then None
                 else if v * unit + (f * unit) div scale > 2^63 then None
                 else Some (v * unit + (f * unit) div scale, dropWhile unitByte s2)))))"

fun durationParts :: "nat \<Rightarrow> nat \<Rightarrow> string \<Rightarrow> nat option" where
  "durationParts fuel d [] = Some d"
| "durationParts 0 d (c # cs) = None"
| "durationParts (Suc fuel) d (c # cs) =
    (case durationPart (c # cs) of None \<Rightarrow> None
     | Some (v, rest) \<Rightarrow> if d + v > 2^63 then None else durationParts fuel (d + v) rest)"

text \<open>Every part takes at least one byte, so the length of the text is enough fuel.\<close>

definition ParseDuration :: "string \<Rightarrow> int option" where
  "ParseDuration s =
    (let neg = (case s of c # _ \<Rightarrow> c = CHR ''-'' | [] \<Rightarrow> False);
         s1 = (case s of c # cs \<Rightarrow> if c = CHR ''-'' \<or> c = CHR ''+'' then cs else s | [] \<Rightarrow> s)
     in if s1 = ''0'' then Some 0
        else if s1 = [] then None
        else case durationParts (length s1) 0 s1 of None \<Rightarrow> None
          | Some d \<Rightarrow> if neg then Some (- int d) else if d > 2^63 - 1 then None else Some (int d))"

section \<open>The fuel is enough\<close>

lemma leadingInt_length: "leadingInt x s = Some (v, r) \<Longrightarrow> length r \<le> length s"
  by (induction x s rule: leadingInt.induct) (auto simp: Let_def split: if_splits)

lemma leadingFraction_length: "leadingFraction x sc ov s = (f, sc', r) \<Longrightarrow> length r \<le> length s"
  by (induction x sc ov s rule: leadingFraction.induct) (auto simp: Let_def split: if_splits)

lemma dropWhile_shorter: "takeWhile P s \<noteq> [] \<Longrightarrow> length (dropWhile P s) < length s"
  by (cases s) (auto simp: le_imp_less_Suc length_dropWhile_le split: if_splits)

lemma fractionPart_length: "fractionPart s = (f, sc, post, r) \<Longrightarrow> length r \<le> length s"
  by (auto simp: fractionPart_def split: list.splits if_splits prod.splits dest!: leadingFraction_length)

lemma durationPart_shorter:
  assumes "durationPart s = Some (v, r)"
  shows "length r < length s"
proof -
  obtain w s1 where l: "leadingInt 0 s = Some (w, s1)"
    using assms by (auto simp: durationPart_def split: if_splits option.splits)
  obtain f sc post s2 where p: "fractionPart s1 = (f, sc, post, s2)" by (metis prod_cases4)
  have "takeWhile unitByte s2 \<noteq> []" "r = dropWhile unitByte s2"
    using assms by (simp_all add: durationPart_def l p split: if_splits option.splits)
  then show ?thesis
    using leadingInt_length [OF l] fractionPart_length [OF p] dropWhile_shorter [of unitByte s2] by simp
qed

text \<open>More fuel changes nothing once it covers the length of the text.\<close>

lemma durationParts_fuel:
  "length s \<le> m \<Longrightarrow> length s \<le> n \<Longrightarrow> durationParts m d s = durationParts n d s"
proof (induction s arbitrary: m n d rule: length_induct)
  case (1 s)
  show ?case
  proof (cases s)
    case (Cons c cs)
    then obtain m' n' where mn: "m = Suc m'" "n = Suc n'" using 1(2,3) by (cases m; cases n) auto
    show ?thesis
    proof (cases "durationPart s")
      case (Some vr)
      obtain v r where vr: "vr = (v, r)" by (cases vr)
      have sh: "length r < length s" using Some vr by (auto dest: durationPart_shorter)
      then have "length r \<le> m'" "length r \<le> n'" using 1(2,3) mn by auto
      with 1(1) sh have "durationParts m' (d + v) r = durationParts n' (d + v) r" by blast
      with Some vr show ?thesis by (simp add: Cons mn)
    qed (simp add: Cons mn)
  qed simp
qed

end
