(* ===== verification/Memory_Store.thy ===== *)
theory Memory_Store
  imports Side_Store
begin

text \<open>
  What agents remember and share: \<open>internal/persistence/memories.go\<close>, \<open>pins.go\<close> and \<open>shares.go\<close>. These
  operations return the error of the driver as it is. Numbers of rows count up without the gaps that a
  conflicting insert may leave. Text matching follows SQLite's \<open>LIKE\<close>, for patterns up to its limit.
\<close>

section \<open>Memories\<close>

definition isMemory :: "string \<Rightarrow> string \<Rightarrow> AgentMemory \<Rightarrow> bool" where
  "isMemory agentID key m \<longleftrightarrow> MemAgentID m = agentID \<and> MemKey m = key"

definition SetMemory :: "env \<Rightarrow> string \<Rightarrow> string \<Rightarrow> string \<Rightarrow> string \<Rightarrow> 'x side_store_scheme \<Rightarrow> (err + unit) \<times> 'x side_store_scheme" where
  "SetMemory e agentID key value source = execS (\<lambda>s.
     s\<lparr>agent_memories := upsertRow (isMemory agentID key)
         (\<lambda>m. m\<lparr>MemValue := value, MemSource := source, RelevanceScore := 1, MemUpdatedAt := CURRENT_TIMESTAMP e,
            LastAccessed := CURRENT_TIMESTAMP e\<rparr>)
         \<lparr>MemID = Suc (mem_seq s), MemAgentID = agentID, MemKey = key, MemValue = value, MemSource = source, RelevanceScore = 1,
          AccessCount = 0, MemCreatedAt = CURRENT_TIMESTAMP e, MemUpdatedAt = CURRENT_TIMESTAMP e, LastAccessed = CURRENT_TIMESTAMP e\<rparr>
         (agent_memories s),
       mem_seq := Suc (mem_seq s)\<rparr>)"

definition GetMemory :: "string \<Rightarrow> string \<Rightarrow> 'x side_store_scheme \<Rightarrow> (err + AgentMemory) \<times> 'x side_store_scheme" where
  "GetMemory agentID key = queryRow (\<lambda>s. firstWhere (isMemory agentID key) (agent_memories s))"

text \<open>\<open>ORDER BY relevance_score DESC, updated_at DESC\<close>.\<close>

definition newestFirst :: "('a \<Rightarrow> ts) \<Rightarrow> 'a list \<Rightarrow> 'a list" where
  "newestFirst k xs = rev (sort_key k (rev xs))"

definition byRelevance :: "AgentMemory list \<Rightarrow> AgentMemory list" where
  "byRelevance rows = sort_key (\<lambda>m. - RelevanceScore m) (newestFirst MemUpdatedAt rows)"

definition ListMemories :: "string \<Rightarrow> 'x side_store_scheme \<Rightarrow> (err + AgentMemory list) \<times> 'x side_store_scheme" where
  "ListMemories agentID = queryS (\<lambda>s. byRelevance (filter (\<lambda>m. MemAgentID m = agentID) (agent_memories s)))"

text \<open>A negative \<open>LIMIT\<close> is none.\<close>

definition limitTo :: "int \<Rightarrow> 'a list \<Rightarrow> 'a list" where
  "limitTo n xs = (if n < 0 then xs else take (nat n) xs)"

definition ListTopMemories :: "string \<Rightarrow> int \<Rightarrow> 'x side_store_scheme \<Rightarrow> (err + AgentMemory list) \<times> 'x side_store_scheme" where
  "ListTopMemories agentID limit = queryS (\<lambda>s. limitTo limit (byRelevance (filter (\<lambda>m. MemAgentID m = agentID) (agent_memories s))))"

definition DeleteMemory :: "string \<Rightarrow> string \<Rightarrow> 'x side_store_scheme \<Rightarrow> (err + unit) \<times> 'x side_store_scheme" where
  "DeleteMemory agentID key = execS (\<lambda>s. s\<lparr>agent_memories := delWhere (isMemory agentID key) (agent_memories s)\<rparr>)"

text \<open>\<open>LIKE\<close>: \<open>%\<close> stands for any text, \<open>_\<close> for one UTF-8 character, letters match regardless of ASCII case.\<close>

definition continuationByte :: "char \<Rightarrow> bool" where
  "continuationByte c \<longleftrightarrow> 128 \<le> (of_char c :: nat) \<and> (of_char c :: nat) < 192"

definition dropChar :: "string \<Rightarrow> string" where
  "dropChar s = (case s of [] \<Rightarrow> [] | c # cs \<Rightarrow> if 192 \<le> (of_char c :: nat) then dropWhile continuationByte cs else cs)"

fun suffixesOf :: "'a list \<Rightarrow> 'a list list" where
  "suffixesOf [] = [[]]"
| "suffixesOf (x # xs) = (x # xs) # suffixesOf xs"

fun like :: "string \<Rightarrow> string \<Rightarrow> bool" where
  "like [] s = (s = [])"
| "like (p # ps) s =
    (if p = CHR ''%'' then list_ex (like ps) (suffixesOf s)
     else if p = CHR ''_'' then s \<noteq> [] \<and> like ps (dropChar s)
     else (case s of [] \<Rightarrow> False | c # cs \<Rightarrow> toLower [c] = toLower [p] \<and> like ps cs))"

definition SearchMemories :: "string \<Rightarrow> string \<Rightarrow> 'x side_store_scheme \<Rightarrow> (err + AgentMemory list) \<times> 'x side_store_scheme" where
  "SearchMemories agentID query = (let likeQuery = ''%'' @ query @ ''%'' in queryS (\<lambda>s. byRelevance
     (filter (\<lambda>m. MemAgentID m = agentID \<and> (like likeQuery (MemKey m) \<or> like likeQuery (MemValue m))) (agent_memories s))))"

definition updMemories :: "(AgentMemory \<Rightarrow> bool) \<Rightarrow> (AgentMemory \<Rightarrow> AgentMemory) \<Rightarrow> 'x side_store_scheme \<Rightarrow> 'x side_store_scheme" where
  "updMemories P f s = s\<lparr>agent_memories := updWhere P f (agent_memories s)\<rparr>"

definition TouchMemory :: "env \<Rightarrow> string \<Rightarrow> string \<Rightarrow> 'x side_store_scheme \<Rightarrow> (err + unit) \<times> 'x side_store_scheme" where
  "TouchMemory e agentID key = execS (updMemories (isMemory agentID key)
     (\<lambda>m. m\<lparr>AccessCount := AccessCount m + 1, LastAccessed := CURRENT_TIMESTAMP e,
        RelevanceScore := min 1 (RelevanceScore m + 5 / 100)\<rparr>))"

definition DecayMemories :: "string \<Rightarrow> rat \<Rightarrow> 'x side_store_scheme \<Rightarrow> (err + unit) \<times> 'x side_store_scheme" where
  "DecayMemories agentID factor = execS (updMemories (\<lambda>m. MemAgentID m = agentID)
     (\<lambda>m. m\<lparr>RelevanceScore := RelevanceScore m * factor\<rparr>))"

definition DeleteAgentMemories :: "string \<Rightarrow> 'x side_store_scheme \<Rightarrow> (err + unit) \<times> 'x side_store_scheme" where
  "DeleteAgentMemories agentID = execS (\<lambda>s. s\<lparr>agent_memories := delWhere (\<lambda>m. MemAgentID m = agentID) (agent_memories s)\<rparr>)"

section \<open>Pins\<close>

definition isPin :: "string \<Rightarrow> string \<Rightarrow> AgentPin \<Rightarrow> bool" where
  "isPin agentID source p \<longleftrightarrow> PinAgentID p = agentID \<and> PinSource p = source"

definition pinTokens :: "string \<Rightarrow> int" where
  "pinTokens content = (int (length content) + 3) div 4"

text \<open>A conflict keeps the type, the modification time and the creation time of the row.\<close>

definition AddPin :: "env \<Rightarrow> string \<Rightarrow> string \<Rightarrow> string \<Rightarrow> string \<Rightarrow> bool \<Rightarrow> 'x side_store_scheme \<Rightarrow> (err + unit) \<times> 'x side_store_scheme" where
  "AddPin e agentID pinType source content shared = execS (\<lambda>s.
     s\<lparr>agent_pins := upsertRow (isPin agentID source)
         (\<lambda>p. p\<lparr>PinContent := content, TokenCount := pinTokens content, PinShared := shared, LastRead := CURRENT_TIMESTAMP e\<rparr>)
         \<lparr>PinID = Suc (pin_seq s), PinAgentID = agentID, PinType = pinType, PinSource = source, PinContent = content,
          TokenCount = pinTokens content, PinShared = shared, LastRead = CURRENT_TIMESTAMP e, FileMtime = '''',
          PinCreatedAt = CURRENT_TIMESTAMP e\<rparr>
         (agent_pins s),
       pin_seq := Suc (pin_seq s)\<rparr>)"

definition RemovePin :: "string \<Rightarrow> string \<Rightarrow> 'x side_store_scheme \<Rightarrow> (err + unit) \<times> 'x side_store_scheme" where
  "RemovePin agentID source = execS (\<lambda>s. s\<lparr>agent_pins := delWhere (isPin agentID source) (agent_pins s)\<rparr>)"

definition ListPins :: "string \<Rightarrow> 'x side_store_scheme \<Rightarrow> (err + AgentPin list) \<times> 'x side_store_scheme" where
  "ListPins agentID = queryS (\<lambda>s. newestFirst PinCreatedAt (filter (\<lambda>p. PinAgentID p = agentID) (agent_pins s)))"

definition GetPin :: "string \<Rightarrow> string \<Rightarrow> 'x side_store_scheme \<Rightarrow> (err + AgentPin) \<times> 'x side_store_scheme" where
  "GetPin agentID source = queryRow (\<lambda>s. firstWhere (isPin agentID source) (agent_pins s))"

definition UpdatePinContent :: "env \<Rightarrow> string \<Rightarrow> string \<Rightarrow> string \<Rightarrow> string \<Rightarrow> 'x side_store_scheme \<Rightarrow> (err + unit) \<times> 'x side_store_scheme" where
  "UpdatePinContent e agentID source content mtime = execS (\<lambda>s. s\<lparr>agent_pins := updWhere (isPin agentID source)
     (\<lambda>p. p\<lparr>PinContent := content, TokenCount := pinTokens content, FileMtime := mtime, LastRead := CURRENT_TIMESTAMP e\<rparr>)
     (agent_pins s)\<rparr>)"

text \<open>The agent the pins are meant for is not looked at.\<close>

definition GetSharedPins :: "string \<Rightarrow> 'x side_store_scheme \<Rightarrow> (err + AgentPin list) \<times> 'x side_store_scheme" where
  "GetSharedPins targetAgentID = queryS (\<lambda>s. newestFirst PinCreatedAt (filter PinShared (agent_pins s)))"

section \<open>Shares\<close>

definition isShare :: "string \<Rightarrow> string \<Rightarrow> string \<Rightarrow> string \<Rightarrow> AgentShare \<Rightarrow> bool" where
  "isShare source target ty key x \<longleftrightarrow> SourceAgentID x = source \<and> TargetAgentID x = target \<and> ShareType x = ty \<and> ItemKey x = key"

definition AddShare :: "env \<Rightarrow> string \<Rightarrow> string \<Rightarrow> string \<Rightarrow> string \<Rightarrow> 'x side_store_scheme \<Rightarrow> (err + unit) \<times> 'x side_store_scheme" where
  "AddShare e source target ty key = execS (\<lambda>s.
     s\<lparr>agent_shares := upsertRow (isShare source target ty key) id
         \<lparr>ShareID = Suc (share_seq s), SourceAgentID = source, TargetAgentID = target, ShareType = ty, ItemKey = key,
          ShareCreatedAt = CURRENT_TIMESTAMP e\<rparr> (agent_shares s),
       share_seq := Suc (share_seq s)\<rparr>)"

definition RemoveShare :: "string \<Rightarrow> string \<Rightarrow> string \<Rightarrow> string \<Rightarrow> 'x side_store_scheme \<Rightarrow> (err + unit) \<times> 'x side_store_scheme" where
  "RemoveShare source target ty key = execS (\<lambda>s. s\<lparr>agent_shares := delWhere (isShare source target ty key) (agent_shares s)\<rparr>)"

definition ListSharesFor :: "string \<Rightarrow> 'x side_store_scheme \<Rightarrow> (err + AgentShare list) \<times> 'x side_store_scheme" where
  "ListSharesFor target = queryS (\<lambda>s. newestFirst ShareCreatedAt (filter (\<lambda>x. TargetAgentID x = target) (agent_shares s)))"

text \<open>The subquery of the shared-knowledge queries: the agents that share this kind of item with the target.\<close>

definition sharesWith :: "string \<Rightarrow> string \<Rightarrow> 'x side_store_scheme \<Rightarrow> string \<Rightarrow> bool" where
  "sharesWith ty target s source \<longleftrightarrow> (\<exists>x\<in>set (agent_shares s). SourceAgentID x = source \<and>
     (TargetAgentID x = target \<or> TargetAgentID x = ''*'') \<and> (ShareType x = ty \<or> ShareType x = ''all''))"

definition GetSharedMemories :: "string \<Rightarrow> 'x side_store_scheme \<Rightarrow> (err + AgentMemory list) \<times> 'x side_store_scheme" where
  "GetSharedMemories target = queryS (\<lambda>s. sort_key (\<lambda>m. (MemAgentID m, - RelevanceScore m))
     (filter (\<lambda>m. sharesWith ''memory'' target s (MemAgentID m)) (agent_memories s)))"

definition GetSharedPinsForAgent :: "string \<Rightarrow> 'x side_store_scheme \<Rightarrow> (err + AgentPin list) \<times> 'x side_store_scheme" where
  "GetSharedPinsForAgent target = queryS (\<lambda>s. sort_key PinAgentID (newestFirst PinCreatedAt
     (filter (\<lambda>p. sharesWith ''pin'' target s (PinAgentID p)) (agent_pins s))))"

text \<open>
  \<open>GetSharedMemoriesByKey\<close> scans the text columns of the times straight into \<open>time.Time\<close> fields, which
  \<open>database/sql\<close> refuses: the first row is an error.
\<close>

definition scanTimeError :: err where
  "scanTimeError = ErrMsg ''sql: Scan error on column index 7, name \"created_at\": unsupported Scan, storing driver.Value type string into type *time.Time''"

definition GetSharedMemoriesByKey :: "string \<Rightarrow> string \<Rightarrow> 'x side_store_scheme \<Rightarrow> (err + AgentMemory list) \<times> 'x side_store_scheme" where
  "GetSharedMemoriesByKey target key =
    bindS (queryS (\<lambda>s. filter (\<lambda>m. MemKey m = key \<and> (\<exists>x\<in>set (agent_shares s). SourceAgentID x = MemAgentID m \<and>
       TargetAgentID x = target \<and> (ShareType x = ''memory'' \<or> ShareType x = ''all''))) (agent_memories s)))
    (\<lambda>rows. if rows = [] then retS [] else failS scanTimeError)"

definition grants :: "string \<Rightarrow> string \<Rightarrow> string \<Rightarrow> string \<Rightarrow> AgentShare \<Rightarrow> bool" where
  "grants ty source target key x \<longleftrightarrow> SourceAgentID x = source \<and> (TargetAgentID x = target \<or> TargetAgentID x = ''*'') \<and>
     (ShareType x = ty \<and> ItemKey x = '''' \<or> ShareType x = ty \<and> ItemKey x = key \<or> ShareType x = ''all'')"

definition IsMemoryShared :: "string \<Rightarrow> string \<Rightarrow> string \<Rightarrow> 'x side_store_scheme \<Rightarrow> (err + bool) \<times> 'x side_store_scheme" where
  "IsMemoryShared source target key = queryS (\<lambda>s. 0 < countWhere (grants ''memory'' source target key) (agent_shares s))"

definition IsPinShared :: "string \<Rightarrow> string \<Rightarrow> string \<Rightarrow> 'x side_store_scheme \<Rightarrow> (err + bool) \<times> 'x side_store_scheme" where
  "IsPinShared source target key = queryS (\<lambda>s. 0 < countWhere (grants ''pin'' source target key) (agent_shares s))"

section \<open>Relevance and keys\<close>

text \<open>Every score lies between 0 and 1 and an agent has one memory per key.\<close>

definition memories_inv :: "'x side_store_scheme \<Rightarrow> bool" where
  "memories_inv s \<longleftrightarrow> (\<forall>m\<in>set (agent_memories s). 0 \<le> RelevanceScore m \<and> RelevanceScore m \<le> 1) \<and>
     distinct (map (\<lambda>m. (MemAgentID m, MemKey m)) (agent_memories s))"

inductive memory_step :: "'x side_store_scheme \<Rightarrow> 'x side_store_scheme \<Rightarrow> bool" where
  set_memory: "memory_step s (snd (SetMemory e a k v src s))"
| touch_memory: "memory_step s (snd (TouchMemory e a k s))"
| decay_memories: "0 \<le> f \<Longrightarrow> f \<le> 1 \<Longrightarrow> memory_step s (snd (DecayMemories a f s))"
| delete_memory: "memory_step s (snd (DeleteMemory a k s))"
| delete_agent_memories: "memory_step s (snd (DeleteAgentMemories a s))"
| other_operation: "agent_memories s' = agent_memories s \<Longrightarrow> memory_step s s'"

interpretation mm: table_invariant memories_inv
  by unfold_locales (simp add: memories_inv_def)

lemma distinct_map_delWhere: "distinct (map k xs) \<Longrightarrow> distinct (map k (delWhere P xs))"
  by (induction xs) (auto simp: delWhere_def)

lemma updMemories_inv:
  assumes "memories_inv s" and "\<And>m. MemAgentID (f m) = MemAgentID m \<and> MemKey (f m) = MemKey m"
    and "\<And>m. m \<in> set (agent_memories s) \<Longrightarrow> 0 \<le> RelevanceScore m \<Longrightarrow> RelevanceScore m \<le> 1 \<Longrightarrow>
      0 \<le> RelevanceScore (f m) \<and> RelevanceScore (f m) \<le> 1"
  shows "memories_inv (updMemories P f s)"
proof -
  have "map (\<lambda>m. (MemAgentID m, MemKey m)) (updWhere P f (agent_memories s)) = map (\<lambda>m. (MemAgentID m, MemKey m)) (agent_memories s)"
    using assms(2) by (intro map_updWhere) simp
  moreover have "0 \<le> RelevanceScore x \<and> RelevanceScore x \<le> 1" if "x \<in> set (updWhere P f (agent_memories s))" for x
    using that assms(1,3) by (auto simp: updWhere_def memories_inv_def)
  ultimately show ?thesis using assms(1) by (simp add: memories_inv_def updMemories_def)
qed

lemma SetMemory_inv: "memories_inv s \<Longrightarrow> memories_inv (snd (SetMemory e a k v src s))"
  unfolding SetMemory_def
proof (rule mm.execS_keeps)
  fix s :: "'a side_store_scheme"
  let ?f = "\<lambda>m. m\<lparr>MemValue := v, MemSource := src, RelevanceScore := 1, MemUpdatedAt := CURRENT_TIMESTAMP e, LastAccessed := CURRENT_TIMESTAMP e\<rparr>"
  let ?r = "\<lparr>MemID = Suc (mem_seq s), MemAgentID = a, MemKey = k, MemValue = v, MemSource = src, RelevanceScore = 1,
      AccessCount = 0, MemCreatedAt = CURRENT_TIMESTAMP e, MemUpdatedAt = CURRENT_TIMESTAMP e, LastAccessed = CURRENT_TIMESTAMP e\<rparr>"
  assume inv: "memories_inv s"
  have "distinct (map (\<lambda>m. (MemAgentID m, MemKey m)) (upsertRow (isMemory a k) ?f ?r (agent_memories s)))"
    using inv by (intro upsertRow_keys) (auto simp: isMemory_def memories_inv_def)
  moreover have "\<forall>m\<in>set (upsertRow (isMemory a k) ?f ?r (agent_memories s)). 0 \<le> RelevanceScore m \<and> RelevanceScore m \<le> 1"
    using inv by (auto simp: upsertRow_def updWhere_def memories_inv_def)
  ultimately show "memories_inv (s\<lparr>agent_memories := upsertRow (isMemory a k) ?f ?r (agent_memories s), mem_seq := Suc (mem_seq s)\<rparr>)"
    by (simp add: memories_inv_def)
qed

lemma memory_step_inv: "memory_step s s' \<Longrightarrow> memories_inv s \<Longrightarrow> memories_inv s'"
proof (induction rule: memory_step.induct)
  case (set_memory s e a k v src)
  then show ?case by (rule SetMemory_inv)
next
  case (touch_memory s e a k)
  then show ?case unfolding TouchMemory_def by (intro mm.execS_keeps updMemories_inv) auto
next
  case (decay_memories f s a)
  then show ?case unfolding DecayMemories_def by (intro mm.execS_keeps updMemories_inv) (auto intro: mult_le_one)
next
  case (delete_memory s a k)
  then show ?case unfolding DeleteMemory_def
    by (intro mm.execS_keeps; auto simp: memories_inv_def distinct_map_delWhere; auto simp: delWhere_def)
next
  case (delete_agent_memories s a)
  then show ?case unfolding DeleteAgentMemories_def
    by (intro mm.execS_keeps; auto simp: memories_inv_def distinct_map_delWhere; auto simp: delWhere_def)
next
  case (other_operation s' s)
  then show ?case by (simp add: memories_inv_def)
qed

text \<open>Scores stay between 0 and 1 and keys stay unique: from an empty table, whatever operations run, with
  decay factors between 0 and 1 and any failures of the database.\<close>

theorem memory_scores_bounded:
  assumes "agent_memories s = []" and "memory_step\<^sup>*\<^sup>* s s'"
  shows "(\<forall>m\<in>set (agent_memories s'). 0 \<le> RelevanceScore m \<and> RelevanceScore m \<le> 1) \<and>
    distinct (map (\<lambda>m. (MemAgentID m, MemKey m)) (agent_memories s'))"
proof -
  from assms(2) have "memories_inv s'"
    by (induction rule: rtranclp_induct) (use assms(1) in \<open>auto simp: memories_inv_def [of s] dest: memory_step_inv\<close>)
  then show ?thesis by (simp add: memories_inv_def)
qed

section \<open>What is written is read back\<close>

definition memValue :: "string \<times> string \<Rightarrow> 'x side_store_scheme \<Rightarrow> string" where
  "memValue = (\<lambda>(a, k) s. case fst (GetMemory a k s) of Inr m \<Rightarrow> MemValue m | Inl _ \<Rightarrow> '''')"

lemma memValue_find: "faults s = [] \<Longrightarrow> memValue (a, k) s =
    (case firstWhere (isMemory a k) (agent_memories s) of None \<Rightarrow> '''' | Some m \<Rightarrow> MemValue m)"
  by (simp add: memValue_def GetMemory_def queryRow_def stmt_no_faults split: option.split)

lemma isMemory_key: "isMemory a k = (\<lambda>m. (MemAgentID m, MemKey m) = (a, k))"
  by (auto simp: isMemory_def)

lemma firstWhere_memory:
  assumes "\<And>m. MemAgentID (f m) = MemAgentID m \<and> MemKey (f m) = MemKey m" and "MemAgentID r = a" and "MemKey r = k"
  shows "firstWhere (isMemory b l) (upsertRow (isMemory a k) f r xs) = (if (b, l) = (a, k)
    then Some (case firstWhere (isMemory a k) xs of Some x \<Rightarrow> f x | None \<Rightarrow> r) else firstWhere (isMemory b l) xs)"
  unfolding upsertRow_def isMemory_key
  by (rule firstWhere_upsert [of "\<lambda>m. (MemAgentID m, MemKey m)"]) (use assms in auto)

lemma memValue_Set:
  assumes "faults s = []"
  shows "memValue (b, l) (snd (SetMemory e a k v src s)) = (if (b, l) = (a, k) then v else memValue (b, l) s)"
proof -
  have "faults (snd (SetMemory e a k v src s)) = []" using assms by (simp add: SetMemory_def execS_def stmt_no_faults)
  note find = memValue_find [OF this, of b l] memValue_find [OF assms, of b l]
  have rows: "agent_memories (snd (SetMemory e a k v src s)) = upsertRow (isMemory a k)
      (\<lambda>m. m\<lparr>MemValue := v, MemSource := src, RelevanceScore := 1, MemUpdatedAt := CURRENT_TIMESTAMP e, LastAccessed := CURRENT_TIMESTAMP e\<rparr>)
      \<lparr>MemID = Suc (mem_seq s), MemAgentID = a, MemKey = k, MemValue = v, MemSource = src, RelevanceScore = 1,
       AccessCount = 0, MemCreatedAt = CURRENT_TIMESTAMP e, MemUpdatedAt = CURRENT_TIMESTAMP e, LastAccessed = CURRENT_TIMESTAMP e\<rparr>
      (agent_memories s)" (is "_ = upsertRow _ ?f ?r _")
    using assms by (simp add: SetMemory_def execS_def stmt_no_faults)
  have "firstWhere (isMemory b l) (agent_memories (snd (SetMemory e a k v src s))) = (if (b, l) = (a, k)
      then Some (case firstWhere (isMemory a k) (agent_memories s) of Some x \<Rightarrow> ?f x | None \<Rightarrow> ?r)
      else firstWhere (isMemory b l) (agent_memories s))"
    unfolding rows by (rule firstWhere_memory) simp_all
  then show ?thesis unfolding find by (simp split: option.split)
qed

interpretation mv: kv_table "\<lambda>s :: 'x side_store_scheme. faults s = []"
  "\<lambda>(a, k) v s. snd (SetMemory e a k v src s)" memValue for e src
proof
  fix s :: "'x side_store_scheme" and j i :: "string \<times> string" and v
  assume ok: "faults s = []"
  show "faults ((case j of (a, k) \<Rightarrow> \<lambda>v s. snd (SetMemory e a k v src s)) v s) = []"
    using ok by (cases j) (simp add: SetMemory_def execS_def stmt_no_faults)
  show "memValue i ((case j of (a, k) \<Rightarrow> \<lambda>v s. snd (SetMemory e a k v src s)) v s) = (if i = j then v else memValue i s)"
    using memValue_Set [OF ok] by (cases i; cases j) simp
qed

text \<open>A read returns the last value written: after any list of writes to any agents and keys, the memory of
  an agent under a key has the value of the last of them that named both, or its old value.\<close>

theorem memories_last_write:
  assumes "faults s = []"
  shows "memValue (a, k) (foldl (\<lambda>s ((b, l), v). snd (SetMemory e b l v src s)) s kvs) =
    (case map_of (rev kvs) (a, k) of Some v \<Rightarrow> v | None \<Rightarrow> memValue (a, k) s)"
  using mv.get_puts [OF assms, where e = e and src = src and k = "(a, k)" and kvs = kvs]
  by (simp only: mv.puts_def) (simp add: case_prod_unfold)

section \<open>Examples\<close>

definition exMemStore :: side_store where
  "exMemStore = emptySide (exAgentStore emptyStore)"

lemma exMemStore_tables: "faults exMemStore = []" "agent_memories exMemStore = []" "agent_shares exMemStore = []" "mem_seq exMemStore = 0"
  by (simp_all add: exMemStore_def emptySide_def side_store.defs agent_eval)

lemma memories_last_write_witness:
  "memValue (''ana'', ''lang'') (foldl (\<lambda>s ((b, l), v). snd (SetMemory (exEnv 100) b l v ''user'' s)) exMemStore
     [((''ana'', ''lang''), ''go''), ((''bob'', ''lang''), ''c''), ((''ana'', ''lang''), ''rust'')]) = ''rust''"
  by (subst memories_last_write) (simp_all add: exMemStore_tables memValue_find firstWhere_def)

lemma memory_scores_bounded_witness:
  "\<exists>s'. memory_step\<^sup>*\<^sup>* exMemStore s' \<and> map RelevanceScore (agent_memories s') = [55 / 100] \<and>
     (\<forall>m\<in>set (agent_memories s'). RelevanceScore m \<le> 1)"
proof -
  let ?s0 = "exMemStore"
  let ?s1 = "snd (SetMemory (exEnv 100) ''ana'' ''lang'' ''go'' ''user'' ?s0)"
  let ?s2 = "snd (DecayMemories ''ana'' (1 / 2) ?s1)"
  let ?s3 = "snd (TouchMemory (exEnv 100) ''ana'' ''lang'' ?s2)"
  have "memory_step ?s0 ?s1" by (rule memory_step.set_memory)
  moreover have "memory_step ?s1 ?s2" by (rule memory_step.decay_memories) simp_all
  moreover have "memory_step ?s2 ?s3" by (rule memory_step.touch_memory)
  ultimately have steps: "memory_step\<^sup>*\<^sup>* ?s0 ?s3" by (meson r_into_rtranclp rtranclp_trans)
  moreover have "agent_memories ?s0 = []" by (simp add: exMemStore_tables)
  ultimately have "\<forall>m\<in>set (agent_memories ?s3). RelevanceScore m \<le> 1" using memory_scores_bounded by blast
  moreover have "map RelevanceScore (agent_memories ?s3) = [55 / 100]"
    by (simp add: SetMemory_def DecayMemories_def TouchMemory_def execS_def stmt_no_faults exMemStore_tables updMemories_def
        upsertRow_def updWhere_def isMemory_def)
  ultimately show ?thesis using steps by (intro exI conjI)
qed

section \<open>Sharing one key\<close>

lemma upsert_fresh: "\<forall>x\<in>set rs. \<not> P x \<Longrightarrow> upsertRow P f r rs = rs @ [r]"
  by (auto simp: upsertRow_def)

text \<open>Sharing one memory hands out all of them: after an agent shares a single key with another, the only share
  in the database, the shared memories of the other are all the memories of the first, although
  \<open>IsMemoryShared\<close> answers yes for that key alone.\<close>

theorem share_of_one_key_exposes_all:
  assumes "faults s = []" and "agent_shares s = []" and "key \<noteq> ''''" and "target \<noteq> ''*''"
    and "s' = snd (AddShare e source target ''memory'' key s)"
  shows "(\<exists>rows. fst (GetSharedMemories target s') = Inr rows \<and>
      set rows = {m \<in> set (agent_memories s). MemAgentID m = source}) \<and>
    fst (IsMemoryShared source target k s') = Inr (k = key)"
proof -
  have "faults s' = []" and [simp]: "agent_memories s' = agent_memories s"
    and [simp]: "agent_shares s' = [\<lparr>ShareID = Suc (share_seq s), SourceAgentID = source, TargetAgentID = target,
      ShareType = ''memory'', ItemKey = key, ShareCreatedAt = CURRENT_TIMESTAMP e\<rparr>]"
    using assms by (simp_all add: AddShare_def execS_def stmt_no_faults upsert_fresh)
  then show ?thesis using assms(3)
    by (auto simp: GetSharedMemories_def IsMemoryShared_def queryS_def stmt_no_faults sharesWith_def grants_def countWhere_def)
qed

lemma share_of_one_key_exposes_all_witness:
  "let s = snd (SetMemory (exEnv 100) ''ana'' ''pin code'' ''1234'' ''user'' (snd (SetMemory (exEnv 100) ''ana'' ''lang'' ''go'' ''user''
         exMemStore)));
       s' = snd (AddShare (exEnv 100) ''ana'' ''bob'' ''memory'' ''lang'' s) in
   fst (IsMemoryShared ''ana'' ''bob'' ''pin code'' s') = Inr False"
proof -
  let ?s = "snd (SetMemory (exEnv 100) ''ana'' ''pin code'' ''1234'' ''user'' (snd (SetMemory (exEnv 100) ''ana'' ''lang'' ''go'' ''user''
         exMemStore)))"
  have f: "faults ?s = []" by (simp add: SetMemory_def execS_def stmt_no_faults exMemStore_tables)
  have sh: "agent_shares ?s = []" by (simp add: SetMemory_def execS_def stmt_no_faults exMemStore_tables)
  show ?thesis
    using share_of_one_key_exposes_all [where key = "''lang''" and target = "''bob''" and k = "''pin code''" and source = "''ana''"
      and e = "exEnv 100", OF f sh _ _ refl] by simp
qed

text \<open>Only memories of agents that share something with the target, or with everybody, are returned.\<close>

lemma GetSharedMemories_sources:
  "faults s = [] \<Longrightarrow> fst (GetSharedMemories target s) = Inr rows \<Longrightarrow> m \<in> set rows \<Longrightarrow>
    m \<in> set (agent_memories s) \<and> (\<exists>x\<in>set (agent_shares s). SourceAgentID x = MemAgentID m \<and>
      TargetAgentID x \<in> {target, ''*''} \<and> ShareType x \<in> {''memory'', ''all''})"
  by (auto simp: GetSharedMemories_def queryS_def stmt_no_faults sharesWith_def)

text \<open>\<open>GetSharedMemoriesByKey\<close> fails whenever there is a row to return.\<close>

lemma GetSharedMemoriesByKey_rows: "fst (GetSharedMemoriesByKey target key s) = Inr rows \<Longrightarrow> rows = []"
  by (auto simp: GetSharedMemoriesByKey_def bindS_def retS_def failS_def split: sum.splits prod.splits if_splits)
end
