(* ===== verification/Schedules.thy ===== *)
theory Schedules
  imports Side_Store
begin

text \<open>
  Schedules (\<open>internal/persistence/store.go\<close>) and the scheduler that fires them
  (\<open>internal/cron/scheduler.go\<close>). The parser of cron expressions is a package outside the
  repository: \<open>nextRun expr t\<close> is its answer, an error or the next instant after \<open>t\<close> in nanoseconds
  since the epoch (an expression that no instant satisfies yields the zero time, here 0). A tick
  reads the clock once and fires the due schedules one after the other; \<open>ev k\<close> and \<open>ids k\<close> are the
  environment and the task identifier of the \<open>k\<close>-th of them.
\<close>

section \<open>The table\<close>

definition InsertSchedule :: "env \<Rightarrow> string \<Rightarrow> Schedule \<Rightarrow> 'x side_store_scheme \<Rightarrow> (err + unit) \<times> 'x side_store_scheme" where
  "InsertSchedule e newID sched0 =
    (let sched = (if SchID sched0 = '''' then sched0\<lparr>SchID := newID\<rparr> else sched0) in
     wrapS ''insert schedule'' (execCheck
       (\<lambda>s. if SchID sched \<in> SchID ` set (schedules s) then Some (uniqueError ''schedules.id'') else None)
       (\<lambda>s. s\<lparr>schedules := schedules s @ [sched\<lparr>SchLastRunAt := None, SchCreatedAt := CURRENT_TIMESTAMP e,
          SchUpdatedAt := CURRENT_TIMESTAMP e\<rparr>]\<rparr>)))"

definition updSchedules :: "string \<Rightarrow> (Schedule \<Rightarrow> Schedule) \<Rightarrow> 'x side_store_scheme \<Rightarrow> 'x side_store_scheme" where
  "updSchedules i f s = s\<lparr>schedules := updWhere (\<lambda>r. SchID r = i) f (schedules s)\<rparr>"

definition DeleteSchedule :: "string \<Rightarrow> 'x side_store_scheme \<Rightarrow> (err + unit) \<times> 'x side_store_scheme" where
  "DeleteSchedule i =
    bindS (wrapS ''delete schedule'' (execCount (\<lambda>s. countWhere (\<lambda>r. SchID r = i) (schedules s))
             (\<lambda>s. s\<lparr>schedules := delWhere (\<lambda>r. SchID r = i) (schedules s)\<rparr>)))
    (\<lambda>rows. if rows = 0 then failS (ErrMsg (''schedule not found: '' @ i)) else retS ())"

definition ListSchedules :: "'x side_store_scheme \<Rightarrow> (err + Schedule list) \<times> 'x side_store_scheme" where
  "ListSchedules = wrapS ''list schedules'' (queryS (\<lambda>s. sort_key SchName (schedules s)))"

definition UpdateScheduleRun :: "env \<Rightarrow> string \<Rightarrow> nat \<Rightarrow> nat \<Rightarrow> 'x side_store_scheme \<Rightarrow> (err + unit) \<times> 'x side_store_scheme" where
  "UpdateScheduleRun e i lastRun nextRunAt = wrapS ''update schedule run'' (execS (updSchedules i
     (\<lambda>r. r\<lparr>SchLastRunAt := Some (GoTs lastRun), SchNextRunAt := Some (GoTs nextRunAt), SchUpdatedAt := CURRENT_TIMESTAMP e\<rparr>)))"

definition EnableSchedule :: "env \<Rightarrow> string \<Rightarrow> bool \<Rightarrow> 'x side_store_scheme \<Rightarrow> (err + unit) \<times> 'x side_store_scheme" where
  "EnableSchedule e i enabled = wrapS ''enable schedule'' (execS (updSchedules i
     (\<lambda>r. r\<lparr>SchEnabled := enabled, SchUpdatedAt := CURRENT_TIMESTAMP e\<rparr>)))"

text \<open>A comparison with a missing \<open>next_run_at\<close> is not true.\<close>

definition isDue :: "nat \<Rightarrow> Schedule \<Rightarrow> bool" where
  "isDue t r \<longleftrightarrow> SchEnabled r \<and> (case SchNextRunAt r of None \<Rightarrow> False | Some n \<Rightarrow> n \<le> GoTs t)"

definition dueAt :: "nat \<Rightarrow> 'x side_store_scheme \<Rightarrow> Schedule list" where
  "dueAt t s = sort_key (\<lambda>r. coalesce (SchNextRunAt r) (GoTs 0)) (filter (isDue t) (schedules s))"

definition DueSchedules :: "nat \<Rightarrow> 'x side_store_scheme \<Rightarrow> (err + Schedule list) \<times> 'x side_store_scheme" where
  "DueSchedules t = wrapS ''due schedules'' (queryS (dueAt t))"

section \<open>The scheduler\<close>

type_synonym cron = "string \<Rightarrow> nat \<Rightarrow> err + nat"

text \<open>The interval of the ticker, in nanoseconds.\<close>

definition NewScheduler :: "int \<Rightarrow> int" where
  "NewScheduler interval = (if interval \<le> 0 then 60 * int second else interval)"

definition fire :: "cron \<Rightarrow> nat \<Rightarrow> env \<Rightarrow> string \<Rightarrow> Schedule \<Rightarrow> 'x side_store_scheme \<Rightarrow> 'x side_store_scheme" where
  "fire nextRun t e newID sched s =
    (case CreateTask e newID (SchSessionID sched) (SchPayload sched) s of
       (Inl _, s1) \<Rightarrow> s1
     | (Inr _, s1) \<Rightarrow>
        (case nextRun (SchCronExpr sched) t of
           Inl _ \<Rightarrow> s1
         | Inr n \<Rightarrow> snd (UpdateScheduleRun e (SchID sched) t n s1)))"

fun fireAll :: "cron \<Rightarrow> nat \<Rightarrow> (nat \<Rightarrow> env) \<Rightarrow> (nat \<Rightarrow> string) \<Rightarrow> nat \<Rightarrow> Schedule list \<Rightarrow>
    'x side_store_scheme \<Rightarrow> 'x side_store_scheme" where
  "fireAll nextRun t ev ids k [] s = s"
| "fireAll nextRun t ev ids k (r # rs) s = fireAll nextRun t ev ids (Suc k) rs (fire nextRun t (ev k) (ids k) r s)"

definition tick :: "cron \<Rightarrow> nat \<Rightarrow> (nat \<Rightarrow> env) \<Rightarrow> (nat \<Rightarrow> string) \<Rightarrow> 'x side_store_scheme \<Rightarrow> 'x side_store_scheme" where
  "tick nextRun t ev ids s =
    (case DueSchedules t s of
       (Inl _, s1) \<Rightarrow> s1
     | (Inr due, s1) \<Rightarrow> fireAll nextRun t ev ids 0 due s1)"

section \<open>One tick\<close>

text \<open>The store after a task was enqueued.\<close>

definition enqueued :: "env \<Rightarrow> string \<Rightarrow> string \<Rightarrow> string \<Rightarrow> string \<Rightarrow> 'x store_scheme \<Rightarrow> 'x store_scheme" where
  "enqueued e i agent sid payload s = s\<lparr>tasks := tasks s @ [queuedRow e i sid agent payload],
     task_events := task_events s @ [\<lparr>e_id = Suc (ev_seq s), e_task_id = i, e_session_id = sid,
       e_run_id = nullif (RunID (ctxOf e)), e_trace_id = Some (if TraceID (ctxOf e) = ''-'' then sid else TraceID (ctxOf e)),
       e_type = ''task.enqueued'', e_state_from = None, e_state_to = TaskStatusQueued,
       e_payload = ''{\"reason\":\"create_task\"}'', e_created_at = CURRENT_TIMESTAMP e\<rparr>],
     ev_seq := Suc (ev_seq s)\<rparr>"

lemma createTask_run:
  assumes "faults s = []" and "\<not> hasTask i s" and "hasSession sid s"
  shows "createTask e i a sid pl s = (Inr i, enqueued e i (agentOrDefault a) sid pl s)"
  unfolding createTask_def using assms
  by (subst retryOnBusy_once)
    (simp_all add: with_tx_def execS_def stmt_def bindS_def wrapS_def retS_def execCheck_def taskInsertCheck_def hasTask_def
      hasSession_def appendTaskEventTx_def insertEvent_def Let_def busyOutcome_def enqueued_def agentOrDefault_def queuedRow_def)

text \<open>The row of a schedule after it fired.\<close>

definition fired :: "cron \<Rightarrow> nat \<Rightarrow> env \<Rightarrow> Schedule \<Rightarrow> Schedule" where
  "fired nextRun t e r = (case nextRun (SchCronExpr r) t of Inl _ \<Rightarrow> r
     | Inr n \<Rightarrow> r\<lparr>SchLastRunAt := Some (GoTs t), SchNextRunAt := Some (GoTs n), SchUpdatedAt := CURRENT_TIMESTAMP e\<rparr>)"

lemma fired_id [simp]: "SchID (fired nr t e r) = SchID r"
  by (simp add: fired_def split: sum.split)

lemma updSchedules_simps [simp]:
  "faults (updSchedules i f s) = faults s" "tasks (updSchedules i f s) = tasks s" "sessions (updSchedules i f s) = sessions s"
  by (simp_all add: updSchedules_def)

lemma enqueued_simps [simp]:
  fixes s :: "'x side_store_scheme"
  shows "faults (enqueued e i a sid pl s) = faults s" "sessions (enqueued e i a sid pl s) = sessions s"
    "schedules (enqueued e i a sid pl s) = schedules s" "tasks (enqueued e i a sid pl s) = tasks s @ [queuedRow e i sid a pl]"
  by (simp_all add: enqueued_def)

lemma updWhere_cong: "(\<And>x. x \<in> set xs \<Longrightarrow> P x \<Longrightarrow> f x = g x) \<Longrightarrow> updWhere P f xs = updWhere P g xs"
  by (simp add: updWhere_def)

lemma fire_run:
  fixes s :: "'x side_store_scheme"
  assumes "faults s = []" and "\<not> hasTask i s" and "hasSession (SchSessionID r) s"
    and "distinct (map SchID (schedules s))" and "r \<in> set (schedules s)"
  shows "tasks (fire nr t e i r s) = tasks s @ [queuedRow e i (SchSessionID r) ''default'' (SchPayload r)]"
    and "schedules (fire nr t e i r s) = updWhere (\<lambda>x. SchID x = SchID r) (fired nr t e) (schedules s)"
    and "faults (fire nr t e i r s) = []" and "sessions (fire nr t e i r s) = sessions s"
proof -
  have c: "CreateTask e i (SchSessionID r) (SchPayload r) s = (Inr i, enqueued e i ''default'' (SchSessionID r) (SchPayload r) s)"
    using createTask_run [OF assms(1-3), of e "''''" "SchPayload r"] by (simp add: CreateTask_def agentOrDefault_def)
  have only: "x = r" if "x \<in> set (schedules s)" "SchID x = SchID r" for x
    using assms(4,5) that by (auto simp: distinct_map dest: inj_onD)
  have u: "updWhere (\<lambda>x. SchID x = SchID r) (fired nr t e) (schedules s) = (case nr (SchCronExpr r) t of Inl _ \<Rightarrow> schedules s
      | Inr n \<Rightarrow> updWhere (\<lambda>x. SchID x = SchID r) (\<lambda>x. x\<lparr>SchLastRunAt := Some (GoTs t), SchNextRunAt := Some (GoTs n),
          SchUpdatedAt := CURRENT_TIMESTAMP e\<rparr>) (schedules s))"
  proof (cases "nr (SchCronExpr r) t")
    case (Inl er)
    then have "fired nr t e x = x" if "x \<in> set (schedules s)" "SchID x = SchID r" for x
      using only [OF that] by (simp add: fired_def)
    then show ?thesis using Inl by (simp add: updWhere_def map_idI)
  next
    case (Inr n)
    then show ?thesis by (auto intro!: updWhere_cong simp: fired_def dest: only)
  qed
  show "tasks (fire nr t e i r s) = tasks s @ [queuedRow e i (SchSessionID r) ''default'' (SchPayload r)]"
    "faults (fire nr t e i r s) = []" "sessions (fire nr t e i r s) = sessions s"
    "schedules (fire nr t e i r s) = updWhere (\<lambda>x. SchID x = SchID r) (fired nr t e) (schedules s)"
    using assms(1) unfolding u
    by (simp_all add: fire_def c UpdateScheduleRun_def wrapS_def execS_def stmt_no_faults updSchedules_def split: sum.split)
qed

lemma GoTs_le_GoTs [simp]: "GoTs a \<le> GoTs b \<longleftrightarrow> a \<le> b"
proof -
  define k :: nat where "k = 10^9"
  have key: "a div k < b div k \<or> a div k = b div k \<and> a mod k \<le> b mod k \<longleftrightarrow> a \<le> b" by (rule div_mod_le_iff)
  have "(a div k) div 86400 < (b div k) div 86400 \<or> (a div k) div 86400 = (b div k) div 86400 \<and> (a div k) mod 86400 < (b div k) mod 86400 \<longleftrightarrow>
      a div k < b div k" by (rule div_mod_less_iff)
  moreover have "(a div k) div 86400 = (b div k) div 86400 \<and> (a div k) mod 86400 = (b div k) mod 86400 \<longleftrightarrow> a div k = b div k"
    by (auto intro: div_mod_eq_nat)
  ultimately show ?thesis unfolding less_eq_ts_def ts_key.simps less_eq_prod_simp k_def [symmetric] using key by auto
qed

text \<open>What a run over the schedules \<open>rs\<close>, numbered from \<open>k\<close>, does to a row.\<close>

fun firedIn :: "cron \<Rightarrow> nat \<Rightarrow> (nat \<Rightarrow> env) \<Rightarrow> nat \<Rightarrow> Schedule list \<Rightarrow> Schedule \<Rightarrow> Schedule" where
  "firedIn nr t ev k [] x = x"
| "firedIn nr t ev k (r # rs) x = (if SchID x = SchID r then fired nr t (ev k) x else firedIn nr t ev (Suc k) rs x)"

lemma firedIn_id [simp]: "SchID (firedIn nr t ev k rs x) = SchID x"
  by (induction rs arbitrary: k) simp_all

lemma firedIn_other: "SchID x \<notin> SchID ` set rs \<Longrightarrow> firedIn nr t ev k rs x = x"
  by (induction rs arbitrary: k) auto

definition taskOf :: "(nat \<Rightarrow> env) \<Rightarrow> (nat \<Rightarrow> string) \<Rightarrow> nat \<times> Schedule \<Rightarrow> task_row" where
  "taskOf ev ids = (\<lambda>(k, r). queuedRow (ev k) (ids k) (SchSessionID r) ''default'' (SchPayload r))"

lemma fireAll_run:
  fixes s :: "'x side_store_scheme"
  assumes "faults s = []" and "distinct (map SchID (schedules s))" and "distinct rs" and "set rs \<subseteq> set (schedules s)"
    and "\<forall>r\<in>set rs. hasSession (SchSessionID r) s" and "inj ids" and "\<forall>j\<ge>k. \<not> hasTask (ids j) s"
  shows "tasks (fireAll nr t ev ids k rs s) = tasks s @ map (taskOf ev ids) (enumerate k rs) \<and>
    schedules (fireAll nr t ev ids k rs s) = map (firedIn nr t ev k rs) (schedules s)"
  using assms
proof (induction rs arbitrary: k s)
  case Nil
  then show ?case by simp
next
  case (Cons r rs)
  let ?s = "fire nr t (ev k) (ids k) r s"
  have "\<not> hasTask (ids k) s" "hasSession (SchSessionID r) s" "r \<in> set (schedules s)" using Cons.prems by auto
  note run = fire_run [OF Cons.prems(1) this(1,2) Cons.prems(2) this(3), of nr t "ev k"]
  have ids: "map SchID (schedules ?s) = map SchID (schedules s)" unfolding run(2) by (rule map_updWhere) simp
  have key: "x = y" if "SchID x = SchID y" "x \<in> set (schedules s)" "y \<in> set (schedules s)" for x y
    using Cons.prems(2) that by (auto simp: distinct_map dest: inj_onD)
  have r: "SchID r \<notin> SchID ` set rs" using Cons.prems(3,4) key by fastforce
  have "set rs \<subseteq> set (schedules ?s)"
  proof
    fix x assume x: "x \<in> set rs"
    then have "SchID x \<noteq> SchID r" using r by (metis imageI)
    with x Cons.prems(4) show "x \<in> set (schedules ?s)" by (auto simp: run(2) updWhere_def image_iff)
  qed
  moreover have "\<forall>j\<ge>Suc k. \<not> hasTask (ids j) ?s"
    using Cons.prems(6,7) by (auto simp: hasTask_def run(1) queuedRow_def dest: injD)
  moreover have "\<forall>r\<in>set rs. hasSession (SchSessionID r) ?s" using Cons.prems(5) by (simp add: hasSession_def run(4))
  ultimately have IH: "tasks (fireAll nr t ev ids (Suc k) rs ?s) = tasks ?s @ map (taskOf ev ids) (enumerate (Suc k) rs) \<and>
    schedules (fireAll nr t ev ids (Suc k) rs ?s) = map (firedIn nr t ev (Suc k) rs) (schedules ?s)"
    using Cons.IH [of ?s "Suc k"] Cons.prems run(3) ids by simp
  have "map (firedIn nr t ev (Suc k) rs) (schedules ?s) = map (firedIn nr t ev k (r # rs)) (schedules s)"
    unfolding run(2) updWhere_def map_map by (rule map_cong) (use r in \<open>auto simp: firedIn_other\<close>)
  with IH show ?case by (simp add: run(1) taskOf_def)
qed

lemma tick_run:
  assumes "faults s = []"
  shows "tick nr t ev ids s = fireAll nr t ev ids 0 (dueAt t s) s"
  using assms by (simp add: tick_def DueSchedules_def wrapS_def queryS_def stmt_no_faults)

lemma set_dueAt: "set (dueAt t s) = {r \<in> set (schedules s). isDue t r}"
  by (auto simp: dueAt_def)

lemma distinct_dueAt: "distinct (map SchID (schedules s)) \<Longrightarrow> distinct (dueAt t s)"
  unfolding dueAt_def distinct_sort by (auto simp: distinct_map intro: distinct_filter)

lemma fired_due:
  assumes "nr (SchCronExpr r) t = Inr n" and "t < n"
  shows "\<not> isDue t (firedIn nr t ev k rs r) \<or> SchID r \<notin> SchID ` set rs"
proof (induction rs arbitrary: k)
  case (Cons x rs)
  show ?case using Cons [of "Suc k"] assms by (auto simp: fired_def isDue_def)
qed simp

text \<open>Every due schedule fires exactly once per tick: on a working database, with cron expressions that
  parse and have a later instant, a tick appends one queued task per due schedule, in the order of the
  instants, changes no row of a schedule that was not due, and leaves no schedule due.\<close>

theorem due_schedules_fire_once:
  fixes s :: "'x side_store_scheme"
  assumes "faults s = []" and "distinct (map SchID (schedules s))" and "inj ids" and "\<forall>j. \<not> hasTask (ids j) s"
    and "\<forall>r\<in>set (schedules s). isDue t r \<longrightarrow> hasSession (SchSessionID r) s \<and> (\<exists>n>t. nr (SchCronExpr r) t = Inr n)"
  shows "tasks (tick nr t ev ids s) = tasks s @ map (taskOf ev ids) (enumerate 0 (dueAt t s)) \<and>
    map SchID (schedules (tick nr t ev ids s)) = map SchID (schedules s) \<and>
    filter (isDue t) (schedules (tick nr t ev ids s)) = [] \<and>
    (\<forall>r\<in>set (schedules s). \<not> isDue t r \<longrightarrow> r \<in> set (schedules (tick nr t ev ids s)))"
proof -
  let ?due = "dueAt t s"
  have run: "tasks (tick nr t ev ids s) = tasks s @ map (taskOf ev ids) (enumerate 0 ?due) \<and>
      schedules (tick nr t ev ids s) = map (firedIn nr t ev 0 ?due) (schedules s)"
    unfolding tick_run [OF assms(1)]
    by (rule fireAll_run) (use assms in \<open>auto simp: set_dueAt distinct_dueAt\<close>)
  have key: "x = y" if "SchID x = SchID y" "x \<in> set (schedules s)" "y \<in> set (schedules s)" for x y
    using assms(2) that by (auto simp: distinct_map dest: inj_onD)
  have same: "firedIn nr t ev 0 ?due x = x" if "x \<in> set (schedules s)" "\<not> isDue t x" for x
  proof (rule firedIn_other)
    show "SchID x \<notin> SchID ` set ?due" using that key by (fastforce simp: set_dueAt)
  qed
  have none: "\<not> isDue t (firedIn nr t ev 0 ?due x)" if x: "x \<in> set (schedules s)" for x
  proof (cases "isDue t x")
    case True
    with x assms(5) obtain n where "nr (SchCronExpr x) t = Inr n" "t < n" by blast
    then have "\<not> isDue t (firedIn nr t ev 0 ?due x) \<or> SchID x \<notin> SchID ` set ?due" by (rule fired_due)
    with True x show ?thesis by (auto simp: set_dueAt)
  next
    case False
    with same [OF x False] show ?thesis by simp
  qed
  have "r \<in> set (map (firedIn nr t ev 0 ?due) (schedules s))" if "r \<in> set (schedules s)" "\<not> isDue t r" for r
    using same [OF that] that(1) by force
  then show ?thesis using run none by (auto simp: filter_empty_conv)
qed

text \<open>A schedule whose expression has no next instant fires on every tick: it stays as it is, so it is due
  again at every later instant.\<close>

theorem failed_next_run_refires:
  fixes s :: "'x side_store_scheme"
  assumes "faults s = []" and "\<not> hasTask i s" and "hasSession (SchSessionID r) s" and "distinct (map SchID (schedules s))"
    and "r \<in> set (schedules s)" and "isDue t r" and "nr (SchCronExpr r) t = Inl er" and "t \<le> u"
  shows "tasks (fire nr t e i r s) = tasks s @ [queuedRow e i (SchSessionID r) ''default'' (SchPayload r)] \<and>
    r \<in> set (dueAt u (fire nr t e i r s))"
proof -
  note run = fire_run [OF assms(1-5), of nr t e]
  have "fired nr t e r = r" using assms(7) by (simp add: fired_def)
  with assms(5) have "r \<in> set (schedules (fire nr t e i r s))"
    unfolding run(2) by (auto simp: updWhere_def image_iff intro!: bexI [of _ r])
  moreover have "isDue u r" using assms(6,8) GoTs_le_GoTs by (fastforce simp: isDue_def intro: order_trans split: option.splits)
  ultimately show ?thesis by (simp add: run(1) set_dueAt)
qed

section \<open>Schedules without a next instant\<close>

text \<open>The steps that touch the table: the operations of the store and ticks, with any failures of the database.\<close>

inductive schedule_step :: "'x side_store_scheme \<Rightarrow> 'x side_store_scheme \<Rightarrow> bool" where
  insert_schedule: "SchNextRunAt r = None \<Longrightarrow> schedule_step s (snd (InsertSchedule e i r s))"
| delete_schedule: "schedule_step s (snd (DeleteSchedule i s))"
| enable_schedule: "schedule_step s (snd (EnableSchedule e i b s))"
| tick_schedules: "schedule_step s (tick nr t ev ids s)"
| other_operation: "schedules s' = schedules s \<Longrightarrow> schedule_step s s'"

definition unscheduled :: "'x side_store_scheme \<Rightarrow> bool" where
  "unscheduled s \<longleftrightarrow> (\<forall>r\<in>set (schedules s). SchNextRunAt r = None)"

interpretation un: table_invariant unscheduled
  by unfold_locales (simp add: unscheduled_def)

lemma unscheduled_none_due: "unscheduled s \<Longrightarrow> dueAt t s = []"
  by (auto simp: unscheduled_def dueAt_def isDue_def filter_empty_conv)

lemma queryS_value: "queryS q s = (Inr y, s') \<Longrightarrow> y = q s' \<and> (\<exists>fs. s' = s\<lparr>faults := fs\<rparr>)"
  by (auto elim: queryS_InrE)

lemma unscheduled_step: "schedule_step s s' \<Longrightarrow> unscheduled s \<Longrightarrow> unscheduled s'"
proof (induction rule: schedule_step.induct)
  case (insert_schedule r s e i)
  then show ?case unfolding InsertSchedule_def Let_def
    by (intro un.wrapS_keeps un.execCheck_keeps) (auto simp: unscheduled_def)
next
  case (delete_schedule s i)
  then show ?case unfolding DeleteSchedule_def
    by (intro un.bindS_keeps un.wrapS_keeps un.execCount_keeps) (auto simp: unscheduled_def delWhere_def failS_def retS_def)
next
  case (enable_schedule s e i b)
  then show ?case unfolding EnableSchedule_def
    by (intro un.wrapS_keeps un.execS_keeps) (auto simp: unscheduled_def updSchedules_def updWhere_def)
next
  case (tick_schedules s nr t ev ids)
  have "unscheduled (snd (DueSchedules t s))" unfolding DueSchedules_def using tick_schedules by (intro un.wrapS_keeps un.queryS_keeps)
  moreover have "x = []" if "DueSchedules t s = (Inr x, s1)" for x s1
    using that tick_schedules by (auto simp: DueSchedules_def dest!: queryS_value) (simp add: unscheduled_none_due unscheduled_def)
  ultimately show ?case by (auto simp: tick_def split: prod.split sum.split)
next
  case (other_operation s' s)
  then show ?case by (simp add: unscheduled_def)
qed

lemma unscheduled_tick: "unscheduled s \<Longrightarrow> tasks (tick nr t ev ids s) = tasks s"
proof -
  assume u: "unscheduled s"
  have "tasks (snd (DueSchedules t s)) = tasks s"
    by (auto simp: DueSchedules_def wrapS_def queryS_def stmt_def split: list.split option.split)
  moreover have "x = []" if "DueSchedules t s = (Inr x, s1)" for x s1
    using that u by (auto simp: DueSchedules_def dest!: queryS_value) (simp add: unscheduled_none_due unscheduled_def)
  ultimately show ?thesis by (auto simp: tick_def split: prod.split sum.split)
qed

section \<open>Examples\<close>

definition exSchedule :: Schedule where
  "exSchedule = \<lparr>SchID = ''c1'', SchName = ''daily'', SchCronExpr = ''0 9 * * *'', SchPayload = ''p'', SchSessionID = ''s'',
     SchEnabled = True, SchNextRunAt = Some (GoTs 100), SchLastRunAt = None, SchCreatedAt = CurTs 0, SchUpdatedAt = CurTs 0\<rparr>"

definition exScheduleStore :: "Schedule list \<Rightarrow> side_store" where
  "exScheduleStore rs = (emptySide (exAgentStore exSession))\<lparr>schedules := rs\<rparr>"

lemma exScheduleStore_tables: "schedules (exScheduleStore rs) = rs" "faults (exScheduleStore rs) = []"
  "tasks (exScheduleStore rs) = []" "hasSession ''s'' (exScheduleStore rs)"
  by (simp_all add: exScheduleStore_def emptySide_def side_store.defs agent_eval exSession_eq hasSession_def)

definition exIDs :: "nat \<Rightarrow> string" where
  "exIDs k = replicate k (CHR ''t'')"

lemma exIDs_inj: "inj exIDs"
  unfolding inj_def exIDs_def by (metis length_replicate)

theorem due_schedules_fire_once_witness:
  "length (tasks (tick (\<lambda>_ t. Inr (t + 1)) 200 exEnv exIDs (exScheduleStore [exSchedule]))) = 1"
proof -
  have "tasks (tick (\<lambda>_ t. Inr (t + 1)) 200 exEnv exIDs (exScheduleStore [exSchedule])) =
      tasks (exScheduleStore [exSchedule]) @ map (taskOf exEnv exIDs) (enumerate 0 (dueAt 200 (exScheduleStore [exSchedule])))"
    by (rule due_schedules_fire_once [THEN conjunct1])
      (simp_all add: exScheduleStore_tables exIDs_inj hasTask_def exSchedule_def)
  also have "dueAt 200 (exScheduleStore [exSchedule]) = [exSchedule]"
    by (simp add: dueAt_def exScheduleStore_tables isDue_def exSchedule_def)
  finally show ?thesis by (simp add: exScheduleStore_tables)
qed

end
