(* ===== verification/Audit_Trail.thy ===== *)
theory Audit_Trail
  imports Side_Store
begin

text \<open>
  The audit log (\<open>internal/audit/audit.go\<close>), redaction records and the purge of a session, the export
  of an incident (\<open>internal/persistence/store.go\<close>) and the retention job
  (\<open>internal/persistence/retention_store.go\<close>). \<open>redact\<close> is \<open>shared.Redact\<close>, whose regular expressions
  are not modelled. The copy of the audit log that goes to a file is left out. The trace identifiers
  of an incident are the keys of a Go map, visited in any order: \<open>order\<close> is that order.
\<close>

section \<open>The audit log\<close>

text \<open>\<open>audit.Record\<close>: a failing insert is ignored, the count of denials grows all the same.\<close>

definition Record :: "(string \<Rightarrow> string) \<Rightarrow> env \<Rightarrow> string \<Rightarrow> string \<Rightarrow> string \<Rightarrow> string \<Rightarrow> string \<Rightarrow> 'x side_store_scheme \<Rightarrow> 'x side_store_scheme" where
  "Record redact e decision capability reason policyVersion subject s =
    (let s1 = (if decision = ''deny'' then s\<lparr>denyCount := Suc (denyCount s)\<rparr> else s) in
     snd (execS (\<lambda>s. s\<lparr>audit_log := audit_log s @ [\<lparr>AudID = Suc (audit_seq s), AudTraceID = '''', AudSubject = redact subject,
        AudAction = capability, AudDecision = decision, AudReason = redact reason, AudPolicyVersion = policyVersion,
        AudCreatedAt = CURRENT_TIMESTAMP e\<rparr>], audit_seq := Suc (audit_seq s)\<rparr>) s1))"

section \<open>Redactions\<close>

definition insertRedaction :: "env \<Rightarrow> string \<Rightarrow> string \<Rightarrow> string \<Rightarrow> string \<Rightarrow> string \<Rightarrow> string \<Rightarrow> 'x side_store_scheme \<Rightarrow> 'x side_store_scheme" where
  "insertRedaction e entityType entityID fieldName reason policyVersion redactedBy s =
    s\<lparr>data_redactions := data_redactions s @ [\<lparr>RedID = Suc (red_seq s), RedEntityType = entityType, RedEntityID = entityID,
        RedFieldName = fieldName, RedReason = reason, RedPolicyVersion = policyVersion, RedBy = redactedBy,
        RedCreatedAt = CURRENT_TIMESTAMP e\<rparr>], red_seq := Suc (red_seq s)\<rparr>"

definition RecordRedaction :: "env \<Rightarrow> string \<Rightarrow> string \<Rightarrow> string \<Rightarrow> string \<Rightarrow> string \<Rightarrow> string \<Rightarrow> 'x side_store_scheme \<Rightarrow> (err + unit) \<times> 'x side_store_scheme" where
  "RecordRedaction e entityType entityID fieldName reason policyVersion redactedBy =
    wrapS ''record redaction'' (execS (insertRedaction e entityType entityID fieldName reason policyVersion
      (if redactedBy = '''' then ''system'' else redactedBy)))"

definition ListRedactions :: "string \<Rightarrow> string \<Rightarrow> 'x side_store_scheme \<Rightarrow> (err + DataRedaction list) \<times> 'x side_store_scheme" where
  "ListRedactions entityType entityID = wrapS ''list redactions'' (queryS (\<lambda>s. sort_key RedCreatedAt
     (filter (\<lambda>r. RedEntityType r = entityType \<and> RedEntityID r = entityID) (data_redactions s))))"

record PurgeResult =
  MessagesDeleted :: nat
  TaskPayloadsTombed :: nat
  TaskEventsTombed :: nat
  RedactionsRecorded :: nat

definition tombTask :: "env \<Rightarrow> task_row \<Rightarrow> task_row" where
  "tombTask e r = r\<lparr>t_payload := ''[REDACTED]'',
     t_result := (case t_result r of None \<Rightarrow> None | Some x \<Rightarrow> if x \<noteq> '''' then Some ''[REDACTED]'' else Some x),
     t_updated_at := CURRENT_TIMESTAMP e\<rparr>"

definition ofSession :: "string \<Rightarrow> 'x store_scheme \<Rightarrow> task_row list" where
  "ofSession sid s = filter (\<lambda>r. t_session_id r = sid) (tasks s)"

definition PurgeSessionPII :: "env \<Rightarrow> string \<Rightarrow> string \<Rightarrow> string \<Rightarrow> 'x side_store_scheme \<Rightarrow> (err + PurgeResult) \<times> 'x side_store_scheme" where
  "PurgeSessionPII e sid policyVersion actor0 =
    (let actor = (if actor0 = '''' then ''system'' else actor0) in
     with_tx (ErrWrap ''begin purge tx'') (\<lambda>_. ErrWrap ''commit purge tx'')
       (bindS (wrapS ''select messages for purge'' (queryS (\<lambda>s. map m_id (filter (\<lambda>m. m_session_id m = sid) (messages s)))))
       (\<lambda>msgIDs. bindS (wrapS ''delete messages'' (execCount (\<lambda>s. countWhere (\<lambda>m. m_session_id m = sid) (messages s))
           (\<lambda>s. s\<lparr>messages := delWhere (\<lambda>m. m_session_id m = sid) (messages s)\<rparr>)))
       (\<lambda>deleted. bindS (forEachS (\<lambda>mid. wrapS ''record message redaction''
           (execS (insertRedaction e ''message'' (itoa (int mid)) ''content'' ''pii_purge'' policyVersion actor))) msgIDs)
       (\<lambda>_. bindS (wrapS ''tombstone task payloads'' (execCount (\<lambda>s. length (ofSession sid s))
           (updTasks (\<lambda>r. t_session_id r = sid) (tombTask e))))
       (\<lambda>tombed. bindS (wrapS ''select tasks for redaction records'' (queryS (\<lambda>s. map t_id (ofSession sid s))))
       (\<lambda>taskIDs. bindS (forEachS (\<lambda>tid. wrapS ''record task redaction''
           (execS (insertRedaction e ''task'' tid ''payload'' ''pii_purge'' policyVersion actor))) taskIDs)
       (\<lambda>_. bindS (wrapS ''tombstone task_events'' (execCount (\<lambda>s. countWhere (\<lambda>x. e_session_id x = sid) (task_events s))
           (\<lambda>s. s\<lparr>task_events := updWhere (\<lambda>x. e_session_id x = sid) (\<lambda>x. x\<lparr>e_payload := ''[REDACTED]''\<rparr>) (task_events s)\<rparr>)))
       (\<lambda>evs. retS (Commit \<lparr>MessagesDeleted = deleted, TaskPayloadsTombed = tombed, TaskEventsTombed = evs,
           RedactionsRecorded = length msgIDs + length taskIDs\<rparr>))))))))))"

section \<open>Incidents\<close>

record IncidentBundle =
  InTaskID :: string
  InTask :: Task
  InEvents :: "TaskEvent list"
  InAuditTrail :: "AuditEntry list"
  InConfigHash :: string
  InExportedAt :: nat

definition taskEvents :: "string \<Rightarrow> 'x store_scheme \<Rightarrow> TaskEvent list" where
  "taskEvents taskID s = map scanEvent (take 1000 (sort_key e_id (filter (\<lambda>x. e_task_id x = taskID) (task_events s))))"

definition traceIDs :: "TaskEvent list \<Rightarrow> string list" where
  "traceIDs events = remdups (filter (\<lambda>t. t \<noteq> '''') (map ETraceID events))"

text \<open>The entries of one trace; a failing query is skipped.\<close>

fun collectAudit :: "string list \<Rightarrow> 'x side_store_scheme \<Rightarrow> AuditEntry list \<times> 'x side_store_scheme" where
  "collectAudit [] s = ([], s)"
| "collectAudit (t # ts) s =
    (case queryS (\<lambda>s. take 200 (sort_key AudID (filter (\<lambda>a. AudTraceID a = t) (audit_log s)))) s of
       (Inl _, s1) \<Rightarrow> collectAudit ts s1
     | (Inr as, s1) \<Rightarrow> (case collectAudit ts s1 of (rest, s2) \<Rightarrow> (as @ rest, s2)))"

definition ExportIncident :: "(string list \<Rightarrow> string list) \<Rightarrow> env \<Rightarrow> string \<Rightarrow> string \<Rightarrow> 'x side_store_scheme \<Rightarrow>
    (err + IncidentBundle) \<times> 'x side_store_scheme" where
  "ExportIncident order e taskID configHash =
    bindS (wrapS ''export incident: get task'' (GetTask taskID))
    (\<lambda>task. bindS (wrapS ''export incident: list events'' (queryS (taskEvents taskID)))
    (\<lambda>events s. case collectAudit (order (traceIDs events)) s of (found, s1) \<Rightarrow>
       (Inr \<lparr>InTaskID = taskID, InTask = task, InEvents = events, InAuditTrail = found, InConfigHash = configHash,
          InExportedAt = now e\<rparr>, s1)))"

section \<open>Retention\<close>

record RetentionResult =
  PurgedTaskEvents :: nat
  PurgedAuditLogs :: nat
  PurgedMessages :: nat
  PurgedAgentMessages :: nat

text \<open>\<open>time.Now().UTC().AddDate(0, 0, -days)\<close>; an instant before the epoch is the epoch here.\<close>

definition cutoff :: "env \<Rightarrow> int \<Rightarrow> ts" where
  "cutoff e days = GoTs (now e - nat days * 86400 * second)"

definition purgeTable :: "string \<Rightarrow> int \<Rightarrow> (ts \<Rightarrow> 'x side_store_scheme \<Rightarrow> nat) \<Rightarrow> (ts \<Rightarrow> 'x side_store_scheme \<Rightarrow> 'x side_store_scheme) \<Rightarrow>
    env \<Rightarrow> 'x side_store_scheme \<Rightarrow> (err + nat) \<times> 'x side_store_scheme" where
  "purgeTable msg days cnt del e = (if days > 0 then wrapS msg (execCount (cnt (cutoff e days)) (del (cutoff e days))) else retS 0)"

definition RunRetention :: "env \<Rightarrow> int \<Rightarrow> int \<Rightarrow> int \<Rightarrow> 'x side_store_scheme \<Rightarrow> (err + RetentionResult) \<times> 'x side_store_scheme" where
  "RunRetention e taskEventDays auditLogDays messageDays =
    bindS (purgeTable ''purge task_events'' taskEventDays (\<lambda>c s. countWhere (\<lambda>x. e_created_at x < c) (task_events s))
             (\<lambda>c s. s\<lparr>task_events := delWhere (\<lambda>x. e_created_at x < c) (task_events s)\<rparr>) e)
    (\<lambda>evs. bindS (purgeTable ''purge audit_log'' auditLogDays (\<lambda>c s. countWhere (\<lambda>a. AudCreatedAt a < c) (audit_log s))
             (\<lambda>c s. s\<lparr>audit_log := delWhere (\<lambda>a. AudCreatedAt a < c) (audit_log s)\<rparr>) e)
    (\<lambda>logs. bindS (purgeTable ''purge messages'' messageDays (\<lambda>c s. countWhere (\<lambda>m. m_created_at m < c) (messages s))
             (\<lambda>c s. s\<lparr>messages := delWhere (\<lambda>m. m_created_at m < c) (messages s)\<rparr>) e)
    (\<lambda>msgs. bindS (purgeTable ''purge agent_messages'' messageDays
             (\<lambda>c s. countWhere (\<lambda>m. am_read_at m \<noteq> None \<and> am_created_at m < c) (agent_messages s))
             (\<lambda>c s. s\<lparr>agent_messages := delWhere (\<lambda>m. am_read_at m \<noteq> None \<and> am_created_at m < c) (agent_messages s)\<rparr>) e)
    (\<lambda>ams. retS \<lparr>PurgedTaskEvents = evs, PurgedAuditLogs = logs, PurgedMessages = msgs, PurgedAgentMessages = ams\<rparr>))))"

section \<open>Purged sessions\<close>

lemma forEach_redactions:
  "forEachS (\<lambda>x. wrapS m (execS (insertRedaction e ty (f x) fn rs pv by))) xs s = (Inr (), s') \<Longrightarrow>
    \<exists>fs rows n. s' = s\<lparr>faults := fs, data_redactions := data_redactions s @ rows, red_seq := n\<rparr> \<and>
      map RedEntityID rows = map f xs \<and> (\<forall>r\<in>set rows. RedEntityType r = ty)"
proof (induction xs arbitrary: s)
  case Nil
  then show ?case by (intro exI [of _ "faults s"] exI [of _ "[]"] exI [of _ "red_seq s"]) simp
next
  case (Cons x xs)
  then obtain s1 where "execS (insertRedaction e ty (f x) fn rs pv by) s = (Inr (), s1)"
    and rest: "forEachS (\<lambda>x. wrapS m (execS (insertRedaction e ty (f x) fn rs pv by))) xs s1 = (Inr (), s')"
    by (auto simp: bindS_Inr)
  then obtain gs where s1: "s1 = insertRedaction e ty (f x) fn rs pv by (s\<lparr>faults := gs\<rparr>)" by (auto elim: execS_InrE)
  from Cons.IH [OF rest] obtain fs rows n where "s' = s1\<lparr>faults := fs, data_redactions := data_redactions s1 @ rows, red_seq := n\<rparr>"
    "map RedEntityID rows = map f xs" "\<forall>r\<in>set rows. RedEntityType r = ty" by blast
  then show ?case unfolding s1 insertRedaction_def
    by (intro exI [of _ fs] exI [of _ n] exI [of _ "\<lparr>RedID = Suc (red_seq s), RedEntityType = ty, RedEntityID = f x, RedFieldName = fn,
        RedReason = rs, RedPolicyVersion = pv, RedBy = by, RedCreatedAt = CURRENT_TIMESTAMP e\<rparr> # rows"]) simp
qed

text \<open>The effect of a purge on the tables.\<close>

definition purged :: "env \<Rightarrow> string \<Rightarrow> 'x side_store_scheme \<Rightarrow> 'x side_store_scheme \<Rightarrow> bool" where
  "purged e sid s s' \<longleftrightarrow>
    messages s' = delWhere (\<lambda>m. m_session_id m = sid) (messages s) \<and>
    tasks s' = updWhere (\<lambda>r. t_session_id r = sid) (tombTask e) (tasks s) \<and>
    task_events s' = updWhere (\<lambda>x. e_session_id x = sid) (\<lambda>x. x\<lparr>e_payload := ''[REDACTED]''\<rparr>) (task_events s) \<and>
    (\<exists>rows. data_redactions s' = data_redactions s @ rows \<and>
      map RedEntityID rows = map (\<lambda>m. itoa (int (m_id m))) (filter (\<lambda>m. m_session_id m = sid) (messages s)) @ map t_id (ofSession sid s))"

lemma filter_tomb:
  "map t_id (filter (\<lambda>r. t_session_id r = sid) (updWhere (\<lambda>r. t_session_id r = sid) (tombTask e) xs)) =
     map t_id (filter (\<lambda>r. t_session_id r = sid) xs)"
  "length (filter (\<lambda>r. t_session_id r = sid) (updWhere (\<lambda>r. t_session_id r = sid) (tombTask e) xs)) =
     length (filter (\<lambda>r. t_session_id r = sid) xs)"
  by (induction xs) (simp_all add: updWhere_def tombTask_def)

lemma PurgeSessionPII_InrE:
  fixes s :: "'x side_store_scheme"
  assumes "PurgeSessionPII e sid pv ac s = (Inr r, s')"
  shows "purged e sid s s'" and "RedactionsRecorded r = length (filter (\<lambda>m. m_session_id m = sid) (messages s)) + length (ofSession sid s)"
proof -
  from assms have "purged e sid s s' \<and> RedactionsRecorded r = length (filter (\<lambda>m. m_session_id m = sid) (messages s)) + length (ofSession sid s)"
    unfolding PurgeSessionPII_def Let_def
  proof (cases rule: with_tx_InrE)
    case (committed s1 s2)
    from committed(1) obtain fs where s1: "s1 = s\<lparr>faults := fs\<rparr>" by (rule same_tables_elim)
    from committed(3) obtain gs where s': "s' = s2\<lparr>faults := gs\<rparr>" by (rule same_tables_elim)
    show ?thesis using committed(2)
      by (auto simp: bindS_Inr s1 s' purged_def filter_tomb updTasks_def ofSession_def elim!: stmt_elims dest!: forEach_redactions)
  next
    case (abandoned s1 s2)
    then show ?thesis by (auto simp: bindS_Inr)
  qed
  then show "purged e sid s s'" and "RedactionsRecorded r = length (filter (\<lambda>m. m_session_id m = sid) (messages s)) + length (ofSession sid s)"
    by simp_all
qed

lemma in_updWhere: "x \<in> set (updWhere P f xs) \<Longrightarrow> (\<exists>y\<in>set xs. P y \<and> x = f y) \<or> \<not> P x"
  by (auto simp: updWhere_def)

lemma tombed_task:
  assumes "t \<in> set (updWhere (\<lambda>r. t_session_id r = sid) (tombTask e) xs)" and "t_session_id t = sid"
  shows "t_payload t = ''[REDACTED]'' \<and> t_result t \<in> {None, Some '''', Some ''[REDACTED]''}"
proof -
  from in_updWhere [OF assms(1)] assms(2) obtain r where t: "t = tombTask e r" by blast
  show ?thesis unfolding t by (cases "t_result r") (simp_all add: tombTask_def)
qed

lemma tombed_event:
  assumes "x \<in> set (updWhere (\<lambda>x. e_session_id x = sid) (\<lambda>x. x\<lparr>e_payload := v\<rparr>) xs)" and "e_session_id x = sid"
  shows "e_payload x = v"
proof -
  from in_updWhere [OF assms(1)] assms(2) obtain y where "x = y\<lparr>e_payload := v\<rparr>" by blast
  then show ?thesis by simp
qed


text \<open>The error text of a task is not purged.\<close>

lemma purge_keeps_error_text:
  assumes "PurgeSessionPII e sid pv ac s = (Inr r, s')"
  shows "map t_error (tasks s') = map t_error (tasks s)"
  using PurgeSessionPII_InrE(1) [OF assms] by (auto simp: purged_def tombTask_def map_updWhere)

section \<open>Incidents have no audit trail\<close>

text \<open>Every way the audit log changes: a recorded decision, the retention job, and operations that leave it alone.\<close>

inductive audit_step :: "'x side_store_scheme \<Rightarrow> 'x side_store_scheme \<Rightarrow> bool" where
  record_decision: "audit_step s (Record redact e d c rs pv sub s)"
| retention: "audit_step s (snd (RunRetention e n1 n2 n3 s))"
| other_operation: "audit_log s' = audit_log s \<Longrightarrow> audit_step s s'"

definition untraced :: "'x side_store_scheme \<Rightarrow> bool" where
  "untraced s \<longleftrightarrow> (\<forall>a\<in>set (audit_log s). AudTraceID a = '''')"

interpretation ut: table_invariant untraced
  by unfold_locales (simp add: untraced_def)

lemma purgeTable_keeps: "(\<And>c s. untraced s \<Longrightarrow> untraced (del c s)) \<Longrightarrow> untraced s \<Longrightarrow> untraced (snd (purgeTable m d cnt del e s))"
  unfolding purgeTable_def by (auto simp: retS_def intro!: ut.wrapS_keeps ut.execCount_keeps)

lemma untraced_step: "audit_step s s' \<Longrightarrow> untraced s \<Longrightarrow> untraced s'"
proof (induction rule: audit_step.induct)
  case (record_decision s redact e d c rs pv sub)
  have "untraced (if d = ''deny'' then s\<lparr>denyCount := Suc (denyCount s)\<rparr> else s)" using record_decision by (simp add: untraced_def)
  then show ?case unfolding Record_def Let_def by (rule ut.execS_keeps [rotated]) (auto simp: untraced_def)
next
  case (retention s e n1 n2 n3)
  then show ?case unfolding RunRetention_def
    by (intro ut.bindS_keeps purgeTable_keeps) (auto simp: untraced_def delWhere_def retS_def)
next
  case (other_operation s' s)
  then show ?case by (simp add: untraced_def)
qed

lemma collectAudit_untraced:
  "untraced s \<Longrightarrow> '''' \<notin> set ts \<Longrightarrow> fst (collectAudit ts s) = []"
proof (induction ts arbitrary: s)
  case (Cons t ts)
  have keep: "untraced (snd (queryS q s))" for q :: "'a side_store_scheme \<Rightarrow> AuditEntry list" using Cons.prems(1) by (rule ut.queryS_keeps)
  have "as = []" if "queryS (\<lambda>s. take 200 (sort_key AudID (filter (\<lambda>a. AudTraceID a = t) (audit_log s)))) s = (Inr as, s1)" for as s1
    using that Cons.prems by (auto elim!: queryS_InrE simp: untraced_def filter_empty_conv)
  then show ?case using Cons keep
    by (auto split: prod.split sum.split) (metis fst_conv snd_conv)+
qed simp

text \<open>The audit trail of an incident is empty: \<open>Record\<close> stores every decision without a trace
  identifier, and the export looks for entries with the trace identifiers of the task's events; so in every
  database whose audit log was written by the program, every exported incident has no audit entry.\<close>

theorem incident_without_audit_trail:
  fixes s s' :: "'x side_store_scheme"
  assumes "audit_log s = []" and "audit_step\<^sup>*\<^sup>* s s'" and "\<And>ts. set (order ts) = set ts"
    and "ExportIncident order e i h s' = (Inr b, s'')"
  shows "InAuditTrail b = []"
proof -
  from assms(2) have u: "untraced s'"
    by (induction rule: rtranclp_induct) (use assms(1) in \<open>auto simp: untraced_def dest: untraced_step\<close>)
  from assms(4) obtain evs and t :: "'x side_store_scheme" where "InAuditTrail b = fst (collectAudit (order (traceIDs evs)) t)" and "untraced t"
  proof -
    from assms(4) obtain task evs and s1 s2 :: "'x side_store_scheme" where "GetTask i s' = (Inr task, s1)" and q: "queryS (taskEvents i) s1 = (Inr evs, s2)"
      and b: "(case collectAudit (order (traceIDs evs)) s2 of (found, s3) \<Rightarrow> (Inr \<lparr>InTaskID = i, InTask = task, InEvents = evs,
          InAuditTrail = found, InConfigHash = h, InExportedAt = now e\<rparr>, s3)) = ((Inr b :: err + IncidentBundle), s'')"
      by (auto simp: ExportIncident_def bindS_Inr)
    have "untraced (snd (GetTask i s'))" unfolding GetTask_def using u by (rule ut.queryRow_keeps)
    then have "untraced (snd (queryS (taskEvents i) s1))" using \<open>GetTask i s' = _\<close> by (intro ut.queryS_keeps) simp
    then have "untraced s2" using q by simp
    have "InAuditTrail b = fst (collectAudit (order (traceIDs evs)) s2)" using b by (auto split: prod.splits)
    then show thesis using \<open>untraced s2\<close> by (rule that)
  qed
  moreover have "'''' \<notin> set (order (traceIDs evs))" for evs using assms(3) by (auto simp: traceIDs_def)
  ultimately show ?thesis using collectAudit_untraced by metis
qed

section \<open>The retention job\<close>

text \<open>The rows a retention window of \<open>days\<close> days keeps; a window that is not positive keeps everything.\<close>

definition kept :: "env \<Rightarrow> int \<Rightarrow> ('a \<Rightarrow> ts) \<Rightarrow> 'a list \<Rightarrow> 'a list" where
  "kept e days created rows = filter (\<lambda>x. days \<le> 0 \<or> cutoff e days \<le> created x) rows"

lemma purgeTable_run:
  assumes "faults s = []"
  shows "purgeTable m d cnt del e s = (if d > 0 then (Inr (cnt (cutoff e d) s), del (cutoff e d) s) else (Inr 0, s))"
  using assms by (simp add: purgeTable_def wrapS_def execCount_def stmt_no_faults retS_def)

definition retained :: "env \<Rightarrow> int \<Rightarrow> int \<Rightarrow> int \<Rightarrow> 'x side_store_scheme \<Rightarrow> 'x side_store_scheme" where
  "retained e d1 d2 d3 s = s\<lparr>task_events := kept e d1 e_created_at (task_events s), audit_log := kept e d2 AudCreatedAt (audit_log s),
     messages := kept e d3 m_created_at (messages s),
     agent_messages := filter (\<lambda>m. d3 \<le> 0 \<or> am_read_at m = None \<or> cutoff e d3 \<le> am_created_at m) (agent_messages s)\<rparr>"

lemma delWhere_kept: "delWhere (\<lambda>x. k x < c) xs = filter (\<lambda>x. c \<le> k x) xs" for k :: "'a \<Rightarrow> ts"
  by (simp add: delWhere_def not_less)

lemma RunRetention_run:
  fixes s :: "'x side_store_scheme"
  assumes "faults s = []"
  shows "\<exists>r. RunRetention e d1 d2 d3 s = (Inr r, retained e d1 d2 d3 s) \<and>
    PurgedTaskEvents r = length (task_events s) - length (kept e d1 e_created_at (task_events s)) \<and>
    PurgedAuditLogs r = length (audit_log s) - length (kept e d2 AudCreatedAt (audit_log s)) \<and>
    PurgedMessages r = length (messages s) - length (kept e d3 m_created_at (messages s))"
proof -
  have cnt: "countWhere (\<lambda>x. k x < c) xs = length xs - length (filter (\<lambda>x. c \<le> k x) xs)" for k :: "'b \<Rightarrow> ts" and c xs
    using sum_length_filter_compl [of "\<lambda>x. c \<le> k x" xs] by (simp add: countWhere_def not_le)
  show ?thesis unfolding RunRetention_def
    by (simp add: bindS_def purgeTable_run assms retS_def retained_def kept_def cnt delWhere_kept delWhere_def not_less disj_imp)
qed

text \<open>The retention job deletes exactly what is older than its windows: it keeps, in order, the task
  events, audit entries and messages that are not older, everything when a window is not positive, and every
  message between agents that was not read; it reports what it deleted, and a second run at the same time
  deletes nothing.\<close>

theorem retention_exact:
  fixes s :: "'x side_store_scheme"
  assumes "faults s = []"
  shows "\<exists>r. RunRetention e d1 d2 d3 s = (Inr r, retained e d1 d2 d3 s) \<and>
    length (task_events s) = length (kept e d1 e_created_at (task_events s)) + PurgedTaskEvents r \<and>
    filter (\<lambda>m. am_read_at m = None) (agent_messages (retained e d1 d2 d3 s)) = filter (\<lambda>m. am_read_at m = None) (agent_messages s) \<and>
    (\<exists>r2. RunRetention e d1 d2 d3 (retained e d1 d2 d3 s) = (Inr r2, retained e d1 d2 d3 s) \<and>
      PurgedTaskEvents r2 = 0 \<and> PurgedAuditLogs r2 = 0 \<and> PurgedMessages r2 = 0)"
proof -
  let ?s = "retained e d1 d2 d3 s"
  from RunRetention_run [OF assms] obtain r where r: "RunRetention e d1 d2 d3 s = (Inr r, ?s)"
    "PurgedTaskEvents r = length (task_events s) - length (kept e d1 e_created_at (task_events s))" by blast
  have kept: "kept e d k (kept e d k xs) = kept e d k xs" for d and k :: "'b \<Rightarrow> ts" and xs by (simp add: kept_def)
  have again: "retained e d1 d2 d3 ?s = ?s" unfolding retained_def by (simp add: kept)
  have "faults ?s = []" using assms by (simp add: retained_def)
  from RunRetention_run [OF this, of e d1 d2 d3] obtain r2 where r2: "RunRetention e d1 d2 d3 ?s = (Inr r2, ?s)"
    "PurgedTaskEvents r2 = 0" "PurgedAuditLogs r2 = 0" "PurgedMessages r2 = 0"
    by (auto simp: again) (simp add: retained_def kept)
  have le: "length (kept e d1 e_created_at (task_events s)) \<le> length (task_events s)" by (simp add: kept_def)
  have "filter (\<lambda>m. am_read_at m = None) (agent_messages ?s) = filter (\<lambda>m. am_read_at m = None) (agent_messages s)"
    by (auto simp: retained_def intro: filter_cong)
  with r r2 le show ?thesis by (intro exI [of _ r] exI [of _ r2] conjI) simp_all
qed

section \<open>Examples\<close>

definition exSide :: side_store where
  "exSide = emptySide (exAgentStore exQueued)"

lemmas side_eval = exSide_def emptySide_def side_store.defs agent_eval exQueued_eq

lemma exPurged: "\<exists>r s'. PurgeSessionPII (exEnv 200) ''s'' ''v'' ''user'' exSide = (Inr r, s') \<and> tasks s' = [tombTask (exEnv 200) exRow]"
  by (simp add: PurgeSessionPII_def side_eval with_tx_def execS_def queryS_def execCount_def stmt_def bindS_def wrapS_def retS_def
      ofSession_def insertRedaction_def updTasks_def updWhere_def exRow_def tombTask_def exEvent_def Let_def)


lemma exExport: "\<exists>b s'. ExportIncident id (exEnv 200) ''t1'' ''h'' (Record id (exEnv 199) ''deny'' ''tools.exec'' ''missing_capability'' ''v'' ''x'' exSide) = (Inr b, s')"
  by (simp add: ExportIncident_def Record_def side_eval execS_def queryRow_def queryS_def stmt_def bindS_def wrapS_def GetTask_def
      findTask_def firstWhere_def exRow_def taskEvents_def traceIDs_def scanEvent_def exEvent_def coalesce_def Let_def split: prod.split)

theorem incident_without_audit_trail_witness:
  "\<exists>b s'. ExportIncident id (exEnv 200) ''t1'' ''h'' (Record id (exEnv 199) ''deny'' ''tools.exec'' ''missing_capability'' ''v'' ''x'' exSide) = (Inr b, s') \<and>
     InAuditTrail b = []"
proof -
  obtain b s' where b: "ExportIncident id (exEnv 200) ''t1'' ''h'' (Record id (exEnv 199) ''deny'' ''tools.exec'' ''missing_capability'' ''v'' ''x'' exSide) = (Inr b, s')"
    using exExport by blast
  have "audit_log exSide = []" by (simp add: side_eval)
  moreover have "audit_step\<^sup>*\<^sup>* exSide (Record id (exEnv 199) ''deny'' ''tools.exec'' ''missing_capability'' ''v'' ''x'' exSide)"
    by (rule r_into_rtranclp) (rule record_decision)
  moreover have "set (id ts) = set ts" for ts :: "string list" by simp
  ultimately have "InAuditTrail b = []" using b by (rule incident_without_audit_trail)
  with b show ?thesis by blast
qed

theorem retention_exact_witness:
  "\<exists>r. RunRetention (exEnv 200) 1 1 0 exSide = (Inr r, retained (exEnv 200) 1 1 0 exSide) \<and>
     length (task_events exSide) = length (kept (exEnv 200) 1 e_created_at (task_events exSide)) + PurgedTaskEvents r"
proof -
  have "faults exSide = []" by (simp add: side_eval)
  from retention_exact [OF this, of "exEnv 200" 1 1 0] show ?thesis by (elim exE conjE) (intro exI conjI)
qed

end
