(* ===== verification/Config_File.thy ===== *)
theory Config_File
  imports Plan_Executor Policy "HOL-Library.AList"
begin

text \<open>
  The configuration (\<open>internal/config/config.go\<close>, \<open>starters.go\<close>, \<open>models.go\<close>): the struct, its
  defaults, the overrides from the environment, the normalization and the validation of \<open>Load\<close>, the
  resolution of the language-model settings, and the edits of \<open>config.yaml\<close>. A Go map is a list of
  pairs with one entry per key; a nil map and an empty one are the same here, since every reader treats
  them alike. The YAML library, the environment and the file system are the record \<open>cfgIO\<close>.
\<close>

section \<open>The struct\<close>

record ModelDef =
  ModelID :: string
  ModelDesc :: string

definition BuiltinModels :: "(string \<times> ModelDef list) list" where
  "BuiltinModels =
    [(''google'', [\<lparr>ModelID = ''gemini-3-pro-preview'', ModelDesc = ''Most capable, advanced reasoning''\<rparr>,
       \<lparr>ModelID = ''gemini-3-flash-preview'', ModelDesc = ''Balanced speed + frontier intelligence''\<rparr>,
       \<lparr>ModelID = ''gemini-2.5-pro'', ModelDesc = ''Strong reasoning, complex STEM tasks''\<rparr>,
       \<lparr>ModelID = ''gemini-2.5-flash'', ModelDesc = ''Fast, cost-effective''\<rparr>,
       \<lparr>ModelID = ''gemini-2.5-flash-lite'', ModelDesc = ''Ultra-fast, lowest cost''\<rparr>]),
     (''anthropic'', [\<lparr>ModelID = ''claude-opus-4-6'', ModelDesc = ''Most capable''\<rparr>,
       \<lparr>ModelID = ''claude-sonnet-4-5-20250929'', ModelDesc = ''Balanced performance''\<rparr>,
       \<lparr>ModelID = ''claude-haiku-4-5-20251001'', ModelDesc = ''Fast, cost-effective''\<rparr>]),
     (''openai'', [\<lparr>ModelID = ''o3'', ModelDesc = ''Advanced reasoning''\<rparr>,
       \<lparr>ModelID = ''o4-mini'', ModelDesc = ''Fast reasoning''\<rparr>,
       \<lparr>ModelID = ''gpt-4o'', ModelDesc = ''Versatile, multimodal''\<rparr>,
       \<lparr>ModelID = ''gpt-4o-mini'', ModelDesc = ''Fast, cost-effective''\<rparr>]),
     (''openrouter'', [\<lparr>ModelID = ''anthropic/claude-sonnet-4-5-20250929'', ModelDesc = ''Claude Sonnet (via OpenRouter)''\<rparr>,
       \<lparr>ModelID = ''openai/gpt-4o'', ModelDesc = ''GPT-4o (via OpenRouter)''\<rparr>,
       \<lparr>ModelID = ''meta-llama/llama-3.1-70b-instruct'', ModelDesc = ''Llama 3.1 70B''\<rparr>,
       \<lparr>ModelID = ''mistralai/mistral-large-latest'', ModelDesc = ''Mistral Large''\<rparr>]),
     (''ollama'', [\<lparr>ModelID = ''qwen3:8b'', ModelDesc = ''Fast reasoning, multilingual''\<rparr>,
       \<lparr>ModelID = ''llama3.1:8b'', ModelDesc = ''Meta Llama 3.1''\<rparr>,
       \<lparr>ModelID = ''gemma3:12b'', ModelDesc = ''Google Gemma 3''\<rparr>,
       \<lparr>ModelID = ''mistral:7b'', ModelDesc = ''Mistral 7B''\<rparr>,
       \<lparr>ModelID = ''deepseek-r1:8b'', ModelDesc = ''DeepSeek R1 reasoning''\<rparr>])]"

record ProviderConfig =
  PvAPIKey :: string
  PvBaseURL :: string
  PvModels :: "string list"

record LLMProviderConfig =
  LProvider :: string
  LGeminiModel :: string
  LAnthropicModel :: string
  LOpenAIModel :: string
  LCompatibleProvider :: string
  LCompatibleBaseURL :: string
  LFallbackProviders :: "string list"
  LFailoverThreshold :: int
  LFailoverCooldownSeconds :: int

record SkillsConfig =
  ProjectDir :: string
  ExtraDirs :: "string list"
  LegacyMode :: bool

record ShellConfig =
  ShSandbox :: bool
  ShImage :: string
  ShMemory :: int
  ShNetwork :: string

record TelegramConfig =
  TgToken :: string
  TgAllowedIDs :: "int list"
  TgEnabled :: bool

record MCPServerConfig =
  McpName :: string
  McpCommand :: string
  McpArgs :: "string list"
  McpEnv :: "(string \<times> string) list"
  McpURL :: string
  McpTransport :: string
  McpTimeout :: string
  McpEnabled :: bool

record AgentMCPRef =
  RefName :: string
  RefCommand :: string
  RefArgs :: "string list"
  RefURL :: string
  RefTransport :: string
  RefEnv :: "(string \<times> string) list"
  RefTimeout :: string

record LoopConfig =
  LoEnabled :: bool
  LoMaxSteps :: int
  LoMaxTokens :: int
  LoMaxDuration :: string
  LoCheckpointInterval :: int
  LoKeyword :: string

record StructuredOutputConfig =
  SoSchema :: string
  SoSchemaFile :: string
  SoMaxRetries :: int
  SoStrictMode :: bool

record StreamingConfig =
  StrEnabled :: bool
  StrBufferSize :: int

record TelemetryConfig =
  TelEnabled :: bool
  TelExporter :: string
  TelEndpoint :: string
  TelServiceName :: string
  TelSampleRate :: rat
  TelMetricsEnabled :: "bool option"

record APIKeyEntry =
  KeyText :: string
  KeyDescription :: string
  KeyAgentIDs :: "string list"
  KeyRateLimit :: int

record AuthConfig =
  AuthEnabled :: bool
  AuthKeys :: "APIKeyEntry list"

record RateLimitConfig =
  RateEnabled :: bool
  RequestsPerMinute :: int
  BurstSize :: int

record CORSConfig =
  CorsEnabled :: bool
  AllowedOrigins :: "string list"
  AllowedMethods :: "string list"
  AllowedHeaders :: "string list"
  MaxAge :: int

record GatewaySecurityConfig =
  GsAuth :: AuthConfig
  GsRateLimit :: RateLimitConfig
  GsCORS :: CORSConfig
  GsMaxRequestSize :: int

record AgentConfigEntry =
  EntAgentID :: string
  EntDisplayName :: string
  EntProvider :: string
  EntModel :: string
  EntAPIKeyEnv :: string
  EntSoul :: string
  EntSoulFile :: string
  EntWorkerCount :: int
  EntTaskTimeoutSeconds :: int
  EntMaxQueueDepth :: int
  EntSkillsFilter :: "string list"
  EntPreferredSearch :: string
  EntCapabilities :: "string list"
  EntMCPServers :: "AgentMCPRef list"
  EntLoop :: LoopConfig
  EntStructuredOutput :: "StructuredOutputConfig option"

text \<open>\<open>ToolsConfig\<close>, \<open>ChannelsConfig\<close>, \<open>MCPConfig\<close> and \<open>A2AConfig\<close> have one field each, which stands for them.\<close>

record AppConfig =
  CfgHomeDir :: string
  CfgWorkerCount :: int
  CfgTaskTimeoutSeconds :: int
  CfgBindAddr :: string
  CfgLogLevel :: string
  CfgLLM :: LLMProviderConfig
  CfgLLMProvider :: string
  CfgGeminiModel :: string
  CfgGeminiAPIKey :: string
  CfgAPIKeys :: "(string \<times> string) list"
  CfgProviders :: "(string \<times> ProviderConfig) list"
  CfgAgentName :: string
  CfgAgentEmoji :: string
  CfgSOUL :: string
  CfgAGENTS :: string
  CfgPreferredSearch :: string
  CfgAllowOrigins :: "string list"
  CfgMaxQueueDepth :: int
  CfgDrainTimeoutSeconds :: int
  CfgRetentionTaskEventsDays :: int
  CfgRetentionAuditLogDays :: int
  CfgRetentionMessagesDays :: int
  CfgHeartbeatIntervalMinutes :: int
  CfgDelegationTimeoutSeconds :: int
  CfgEngineTickSeconds :: int
  CfgApprovalTimeoutSeconds :: int
  CfgDelegationMaxHops :: int
  CfgContextLimits :: "(string \<times> int) list"
  CfgSkills :: SkillsConfig
  CfgShell :: ShellConfig
  CfgTelegram :: TelegramConfig
  CfgMCPServers :: "MCPServerConfig list"
  CfgAgents :: "AgentConfigEntry list"
  CfgPlans :: "PlanConfig list"
  CfgA2AEnabled :: "bool option"
  CfgStreaming :: StreamingConfig
  CfgTelemetry :: TelemetryConfig
  CfgGateway :: GatewaySecurityConfig
  CfgNeedsGenesis :: bool

section \<open>Zero values and defaults\<close>

definition zeroLLM :: LLMProviderConfig where
  "zeroLLM = \<lparr>LProvider = '''', LGeminiModel = '''', LAnthropicModel = '''', LOpenAIModel = '''', LCompatibleProvider = '''',
     LCompatibleBaseURL = '''', LFallbackProviders = [], LFailoverThreshold = 0, LFailoverCooldownSeconds = 0\<rparr>"

definition zeroGateway :: GatewaySecurityConfig where
  "zeroGateway = \<lparr>GsAuth = \<lparr>AuthEnabled = False, AuthKeys = []\<rparr>,
     GsRateLimit = \<lparr>RateEnabled = False, RequestsPerMinute = 0, BurstSize = 0\<rparr>,
     GsCORS = \<lparr>CorsEnabled = False, AllowedOrigins = [], AllowedMethods = [], AllowedHeaders = [], MaxAge = 0\<rparr>,
     GsMaxRequestSize = 0\<rparr>"

definition zeroLoop :: LoopConfig where
  "zeroLoop = \<lparr>LoEnabled = False, LoMaxSteps = 0, LoMaxTokens = 0, LoMaxDuration = '''', LoCheckpointInterval = 0, LoKeyword = ''''\<rparr>"

definition zeroEntry :: AgentConfigEntry where
  "zeroEntry = \<lparr>EntAgentID = '''', EntDisplayName = '''', EntProvider = '''', EntModel = '''', EntAPIKeyEnv = '''', EntSoul = '''',
     EntSoulFile = '''', EntWorkerCount = 0, EntTaskTimeoutSeconds = 0, EntMaxQueueDepth = 0, EntSkillsFilter = [],
     EntPreferredSearch = '''', EntCapabilities = [], EntMCPServers = [], EntLoop = zeroLoop, EntStructuredOutput = None\<rparr>"

definition defaultConfig :: AppConfig where
  "defaultConfig = \<lparr>CfgHomeDir = '''', CfgWorkerCount = 16, CfgTaskTimeoutSeconds = 600, CfgBindAddr = ''127.0.0.1:18789'',
     CfgLogLevel = ''info'', CfgLLM = zeroLLM, CfgLLMProvider = '''', CfgGeminiModel = '''', CfgGeminiAPIKey = '''', CfgAPIKeys = [],
     CfgProviders = [], CfgAgentName = '''', CfgAgentEmoji = '''', CfgSOUL = '''', CfgAGENTS = '''', CfgPreferredSearch = '''',
     CfgAllowOrigins = [], CfgMaxQueueDepth = 100, CfgDrainTimeoutSeconds = 5, CfgRetentionTaskEventsDays = 90,
     CfgRetentionAuditLogDays = 365, CfgRetentionMessagesDays = 90, CfgHeartbeatIntervalMinutes = 30,
     CfgDelegationTimeoutSeconds = 120, CfgEngineTickSeconds = 10, CfgApprovalTimeoutSeconds = 60, CfgDelegationMaxHops = 0,
     CfgContextLimits = [], CfgSkills = \<lparr>ProjectDir = ''./skills'', ExtraDirs = [], LegacyMode = False\<rparr>,
     CfgShell = \<lparr>ShSandbox = False, ShImage = '''', ShMemory = 0, ShNetwork = ''''\<rparr>,
     CfgTelegram = \<lparr>TgToken = '''', TgAllowedIDs = [], TgEnabled = False\<rparr>, CfgMCPServers = [], CfgAgents = [], CfgPlans = [],
     CfgA2AEnabled = None, CfgStreaming = \<lparr>StrEnabled = False, StrBufferSize = 0\<rparr>,
     CfgTelemetry = \<lparr>TelEnabled = False, TelExporter = '''', TelEndpoint = '''', TelServiceName = '''', TelSampleRate = 0, TelMetricsEnabled = None\<rparr>,
     CfgGateway = zeroGateway, CfgNeedsGenesis = False\<rparr>"

definition StarterAgents :: "AgentConfigEntry list" where
  "StarterAgents =
    [zeroEntry\<lparr>EntAgentID := ''coder'', EntDisplayName := ''Coder'', 
       EntSoul := ''You are a senior software engineer. You write clean, idiomatic code with clear error handling. When asked to fix bugs, you first reproduce the issue, then explain the root cause, then provide a minimal fix. You prefer simple solutions over clever ones. When reviewing code, you check for: correctness, edge cases, error handling, naming clarity, and unnecessary complexity. You know Go, Python, TypeScript, Rust, and shell scripting well. You always explain your reasoning.'',
       EntCapabilities := [''coding'', ''debugging'', ''code-review'', ''refactoring'']\<rparr>,
     zeroEntry\<lparr>EntAgentID := ''researcher'', EntDisplayName := ''Researcher'', 
       EntSoul := ''You are a thorough research assistant. When asked to investigate a topic, you search for primary sources, cross-reference claims, and clearly distinguish between established facts and speculation. You cite your sources. You present findings in a structured way: summary first, then details, then open questions. When comparing options, you use tables and clear criteria. You flag when information might be outdated.'',
       EntCapabilities := [''research'', ''search'', ''analysis'', ''comparison'']\<rparr>,
     zeroEntry\<lparr>EntAgentID := ''writer'', EntDisplayName := ''Writer'', 
       EntSoul := ''You are a skilled technical writer. You write clear, concise documentation that respects the reader's time. You adapt your style to the format: READMEs are scannable with examples, API docs are precise with types, blog posts have personality and narrative flow, commit messages are imperative and specific. You ask about the target audience when it's unclear. You avoid jargon unless writing for specialists.'',
       EntCapabilities := [''writing'', ''documentation'', ''editing'', ''communication'']\<rparr>]"

section \<open>Settings derived from the struct\<close>

definition DelegationTimeout :: "AppConfig \<Rightarrow> int" where
  "DelegationTimeout c =
    (let s = CfgDelegationTimeoutSeconds c; s1 = (if s \<le> 0 then 120 else s); s2 = (if s1 > 300 then 300 else s1) in s2 * int second)"

text \<open>\<open>time.Duration(s) * time.Second\<close> is a product of 64-bit integers, which wraps.\<close>

definition seconds64 :: "int \<Rightarrow> int" where
  "seconds64 s = sint (word_of_int (s * int second) :: 64 word)"

definition EngineTickInterval :: "AppConfig \<Rightarrow> int" where
  "EngineTickInterval c = (let s = CfgEngineTickSeconds c; s1 = (if s \<le> 0 then 10 else s) in seconds64 s1)"

definition ApprovalTimeout :: "AppConfig \<Rightarrow> int" where
  "ApprovalTimeout c = (let s = CfgApprovalTimeoutSeconds c; s1 = (if s \<le> 0 then 60 else s) in seconds64 s1)"

definition envOr :: "(string \<Rightarrow> string) \<Rightarrow> (string \<times> string) list \<Rightarrow> string \<Rightarrow> string \<Rightarrow> string" where
  "envOr getenv envMap name other =
    (case map_of envMap name of None \<Rightarrow> other | Some var \<Rightarrow> if getenv var \<noteq> '''' then getenv var else other)"

definition APIKey :: "(string \<Rightarrow> string) \<Rightarrow> AppConfig \<Rightarrow> string \<Rightarrow> string" where
  "APIKey getenv c name =
    envOr getenv [(''brave_search'', ''BRAVE_API_KEY''), (''perplexity_search'', ''PERPLEXITY_API_KEY'')] name
      (coalesce (map_of (CfgAPIKeys c) name) '''')"

text \<open>\<open>os.Getenv\<close> of the empty name is the empty text.\<close>

definition llmKeyVars :: "(string \<times> string) list" where
  "llmKeyVars = [(''google'', ''GOOGLE_API_KEY''), (''anthropic'', ''ANTHROPIC_API_KEY''), (''openai'', ''OPENAI_API_KEY''),
     (''openrouter'', ''OPENROUTER_API_KEY''), (''openai_compatible'', ''OPENAI_API_KEY''), (''ollama'', '''')]"

definition LLMProviderAPIKey :: "(string \<Rightarrow> string) \<Rightarrow> AppConfig \<Rightarrow> string \<Rightarrow> string" where
  "LLMProviderAPIKey getenv c provider = envOr getenv llmKeyVars provider
     (let rest = (if (provider = ''google'' \<or> provider = ''openai_compatible'') \<and> CfgGeminiAPIKey c \<noteq> '''' then CfgGeminiAPIKey c
                  else if provider = ''ollama'' then ''ollama'' else '''')
      in case map_of (CfgProviders c) provider of
           None \<Rightarrow> rest
         | Some p \<Rightarrow> if PvAPIKey p \<noteq> '''' then PvAPIKey p else rest)"

definition ProviderAPIKey :: "(string \<Rightarrow> string) \<Rightarrow> AppConfig \<Rightarrow> string \<Rightarrow> string" where
  "ProviderAPIKey getenv c provider =
    envOr getenv [(''google'', ''GEMINI_API_KEY''), (''anthropic'', ''ANTHROPIC_API_KEY''), (''openai'', ''OPENAI_API_KEY''),
      (''openrouter'', ''OPENROUTER_API_KEY'')] provider
      (case map_of (CfgProviders c) provider of
         Some p \<Rightarrow> PvAPIKey p
       | None \<Rightarrow> if provider = ''google'' then CfgGeminiAPIKey c else if provider = ''ollama'' then ''ollama'' else '''')"

definition resolveProvider :: "AppConfig \<Rightarrow> string" where
  "resolveProvider c = (if LProvider (CfgLLM c) \<noteq> '''' then LProvider (CfgLLM c)
     else if CfgLLMProvider c \<noteq> '''' then CfgLLMProvider c else ''google'')"

definition resolveModel :: "AppConfig \<Rightarrow> string \<Rightarrow> string" where
  "resolveModel c provider =
    (if provider = ''anthropic'' then LAnthropicModel (CfgLLM c)
     else if provider \<in> {''openai'', ''openai_compatible'', ''openrouter'', ''ollama''} then LOpenAIModel (CfgLLM c)
     else if provider = ''google'' then (if LGeminiModel (CfgLLM c) \<noteq> '''' then LGeminiModel (CfgLLM c) else CfgGeminiModel c)
     else '''')"

definition ResolveLLMConfig :: "(string \<Rightarrow> string) \<Rightarrow> AppConfig \<Rightarrow> string \<times> string \<times> string" where
  "ResolveLLMConfig getenv c =
    (let provider = resolveProvider c in (provider, resolveModel c provider, LLMProviderAPIKey getenv c provider))"

text \<open>\<open>%v\<close> of a list of strings.\<close>

definition showStrings :: "string list \<Rightarrow> string" where
  "showStrings xs = ''['' @ concat (case xs of [] \<Rightarrow> [] | y # ys \<Rightarrow> y # map (\<lambda>z. '' '' @ z) ys) @ '']''"

definition Fingerprint :: "AppConfig \<Rightarrow> string" where
  "Fingerprint c = ''cfg-'' @ formatHex (unat (fnv64a 14695981039346656037
     (''workers='' @ itoa (CfgWorkerCount c) @ ''|timeout='' @ itoa (CfgTaskTimeoutSeconds c) @ ''|bind='' @ CfgBindAddr c @
      ''|log='' @ CfgLogLevel c @ ''|model='' @ CfgGeminiModel c @ ''|origins='' @ showStrings (CfgAllowOrigins c))))"

definition AvailableModels :: "(string \<Rightarrow> string) \<Rightarrow> string list" where
  "AvailableModels getenv =
    (let models = (if getenv ''GEMINI_API_KEY'' \<noteq> '''' then [''gemini-2.5-pro'', ''gemini-2.5-flash''] else []) @
           (if getenv ''ANTHROPIC_API_KEY'' \<noteq> '''' then [''claude-sonnet-4-5'', ''claude-haiku-4-5''] else []) @
           (if getenv ''OPENAI_API_KEY'' \<noteq> '''' then [''gpt-4o'', ''gpt-4o-mini''] else []) @
           (if getenv ''OPENROUTER_API_KEY'' \<noteq> '''' then [''openrouter/auto''] else [])
     in if length models = 0 then [''default''] else models)"

section \<open>Loading\<close>

text \<open>\<open>strconv.Atoi\<close>: an optional sign and digits, within 64 bits.\<close>

definition atoiDigits :: "string \<Rightarrow> nat option" where
  "atoiDigits ds = (if ds \<noteq> '''' \<and> list_all (\<lambda>c. 48 \<le> (of_char c :: nat) \<and> (of_char c :: nat) \<le> 57) ds
     then Some (foldl (\<lambda>n c. 10 * n + (of_char c - 48)) 0 ds) else None)"

definition Atoi :: "string \<Rightarrow> int option" where
  "Atoi s =
    (let v = (case s of
           [] \<Rightarrow> None
         | c # cs \<Rightarrow> if c = CHR ''-'' then map_option (\<lambda>n. - int n) (atoiDigits cs)
             else if c = CHR ''+'' then map_option int (atoiDigits cs) else map_option int (atoiDigits s))
     in case v of None \<Rightarrow> None | Some i \<Rightarrow> if - (2 ^ 63) \<le> i \<and> i < 2 ^ 63 then Some i else None)"

definition envText :: "(string \<Rightarrow> string) \<Rightarrow> string \<Rightarrow> (string \<Rightarrow> AppConfig \<Rightarrow> AppConfig) \<Rightarrow> AppConfig \<Rightarrow> AppConfig" where
  "envText getenv var put c = (if getenv var \<noteq> '''' then put (getenv var) c else c)"

definition envInt :: "(string \<Rightarrow> string) \<Rightarrow> string \<Rightarrow> (int \<Rightarrow> AppConfig \<Rightarrow> AppConfig) \<Rightarrow> AppConfig \<Rightarrow> AppConfig" where
  "envInt getenv var put c = (case Atoi (getenv var) of None \<Rightarrow> c | Some v \<Rightarrow> put v c)"

definition setKey :: "string \<Rightarrow> string \<Rightarrow> AppConfig \<Rightarrow> AppConfig" where
  "setKey name v c = c\<lparr>CfgAPIKeys := AList.update name v (CfgAPIKeys c)\<rparr>"

definition applyEnvOverrides :: "(string \<Rightarrow> string) \<Rightarrow> AppConfig \<Rightarrow> AppConfig" where
  "applyEnvOverrides getenv c0 =
    (let c1 = envInt getenv ''GOCLAW_WORKER_COUNT'' (\<lambda>v c. c\<lparr>CfgWorkerCount := v\<rparr>) c0;
         c2 = envInt getenv ''GOCLAW_TASK_TIMEOUT_SECONDS'' (\<lambda>v c. c\<lparr>CfgTaskTimeoutSeconds := v\<rparr>) c1;
         c3 = envText getenv ''GOCLAW_BIND_ADDR'' (\<lambda>v c. c\<lparr>CfgBindAddr := v\<rparr>) c2;
         c4 = envText getenv ''GOCLAW_LOG_LEVEL'' (\<lambda>v c. c\<lparr>CfgLogLevel := v\<rparr>) c3;
         c5 = envInt getenv ''GOCLAW_DRAIN_TIMEOUT_SECONDS'' (\<lambda>v c. c\<lparr>CfgDrainTimeoutSeconds := v\<rparr>) c4;
         c6 = envInt getenv ''GOCLAW_HEARTBEAT_INTERVAL_MINUTES'' (\<lambda>v c. c\<lparr>CfgHeartbeatIntervalMinutes := v\<rparr>) c5;
         c7 = envText getenv ''GEMINI_API_KEY'' (\<lambda>v c. c\<lparr>CfgGeminiAPIKey := v\<rparr>) c6;
         c8 = envText getenv ''GEMINI_MODEL'' (\<lambda>v c. c\<lparr>CfgGeminiModel := v\<rparr>) c7;
         c9 = envText getenv ''GOCLAW_AGENT_NAME'' (\<lambda>v c. c\<lparr>CfgAgentName := v\<rparr>) c8;
         c10 = envText getenv ''GOCLAW_AGENT_EMOJI'' (\<lambda>v c. c\<lparr>CfgAgentEmoji := v\<rparr>) c9;
         c11 = envText getenv ''BRAVE_API_KEY'' (setKey ''brave_search'') c10;
         c12 = envText getenv ''PERPLEXITY_API_KEY'' (setKey ''perplexity_search'') c11;
         c13 = envText getenv ''OPENROUTER_API_KEY'' (setKey ''openrouter'') c12
     in envText getenv ''TELEGRAM_TOKEN'' (\<lambda>v c. c\<lparr>CfgTelegram := (CfgTelegram c)\<lparr>TgToken := v\<rparr>\<rparr>) c13)"

definition NormalizeProviderName :: "string \<Rightarrow> string" where
  "NormalizeProviderName name = (if name = ''gemini'' \<or> name = ''googleai'' then ''google'' else name)"

definition zeroProvider :: ProviderConfig where
  "zeroProvider = \<lparr>PvAPIKey = '''', PvBaseURL = '''', PvModels = []\<rparr>"

definition inheritGeminiKey :: "AppConfig \<Rightarrow> AppConfig" where
  "inheritGeminiKey c =
    (if CfgGeminiAPIKey c = '''' then c
     else let p = coalesce (map_of (CfgProviders c) ''google'') zeroProvider in
       if PvAPIKey p = '''' then c\<lparr>CfgProviders := AList.update ''google'' (p\<lparr>PvAPIKey := CfgGeminiAPIKey c\<rparr>) (CfgProviders c)\<rparr> else c)"

definition orElse :: "string \<Rightarrow> string \<Rightarrow> string" where
  "orElse v dflt = (if v = '''' then dflt else v)"

definition normalizeConfig :: "AppConfig \<Rightarrow> AppConfig" where
  "normalizeConfig c0 =
    (let c = inheritGeminiKey (c0
           \<lparr>CfgWorkerCount := (if CfgWorkerCount c0 \<le> 0 then 4 else CfgWorkerCount c0),
            CfgTaskTimeoutSeconds := (if CfgTaskTimeoutSeconds c0 \<le> 0 then 600 else CfgTaskTimeoutSeconds c0),
            CfgBindAddr := orElse (CfgBindAddr c0) ''127.0.0.1:18789'',
            CfgLogLevel := orElse (CfgLogLevel c0) ''info'',
            CfgLLMProvider := NormalizeProviderName (orElse (CfgLLMProvider c0) ''google''),
            CfgGeminiModel := orElse (CfgGeminiModel c0)
              (case map_of BuiltinModels ''google'' of Some (m # _) \<Rightarrow> ModelID m | _ \<Rightarrow> ''gemini-2.5-flash''),
            CfgSkills := (CfgSkills c0)\<lparr>ProjectDir := (if trimSpace (ProjectDir (CfgSkills c0)) = '''' then ''./skills''
              else ProjectDir (CfgSkills c0))\<rparr>\<rparr>)
     in if length (CfgAgents c) = 0 then c\<lparr>CfgAgents := StarterAgents\<rparr> else c)"

definition defaultHops :: "AppConfig \<Rightarrow> AppConfig" where
  "defaultHops c =
    (if CfgDelegationMaxHops c = 0 then
       (let maxSafe = CfgWorkerCount c - 1; m1 = (if maxSafe < 1 then 1 else maxSafe); m2 = (if m1 > 2 then 2 else m1)
        in c\<lparr>CfgDelegationMaxHops := m2\<rparr>)
     else c)"

definition entryWorkers :: "AppConfig \<Rightarrow> AgentConfigEntry \<Rightarrow> int" where
  "entryWorkers c a = (if EntWorkerCount a = 0 then CfgWorkerCount c else EntWorkerCount a)"

fun checkAgents :: "AppConfig \<Rightarrow> AgentConfigEntry list \<Rightarrow> err option" where
  "checkAgents c [] = None"
| "checkAgents c (a # as) =
    (if CfgDelegationMaxHops c > entryWorkers c a - 1
     then Some (ErrMsg (''delegation_max_hops ('' @ itoa (CfgDelegationMaxHops c) @ '') must be <= worker_count-1 ('' @
            itoa (entryWorkers c a - 1) @ '') for agent '' @ EntAgentID a @ '' to prevent deadlock''))
     else checkAgents c as)"

text \<open>The struct is changed through the pointer whether or not there is an error.\<close>

definition validateDelegation :: "AppConfig \<Rightarrow> err option \<times> AppConfig" where
  "validateDelegation c0 =
    (let c = defaultHops c0 in
     case checkAgents c (CfgAgents c) of
       Some e \<Rightarrow> (Some e, c)
     | None \<Rightarrow>
        if CfgDelegationMaxHops c > CfgWorkerCount c - 1
        then (Some (ErrMsg (''delegation_max_hops ('' @ itoa (CfgDelegationMaxHops c) @ '') must be <= default worker_count-1 ('' @
               itoa (CfgWorkerCount c - 1) @ '') to prevent deadlock'')), c)
        else (None, c))"

record cfgIO =
  getenv_of :: "string \<Rightarrow> string"
  userHome :: "string option"
  mkdirError :: "string \<Rightarrow> err option"
  fileRead :: "string \<Rightarrow> file_read"
  decodeConfig :: "string \<Rightarrow> AppConfig \<Rightarrow> err option \<times> AppConfig"

definition HomeDir :: "cfgIO \<Rightarrow> string" where
  "HomeDir io = (if getenv_of io ''GOCLAW_HOME'' \<noteq> '''' then getenv_of io ''GOCLAW_HOME''
     else JoinPath (case userHome io of None \<Rightarrow> ''.'' | Some h \<Rightarrow> if h = '''' then ''.'' else h) ''.goclaw'')"

definition readText :: "cfgIO \<Rightarrow> string \<Rightarrow> string \<Rightarrow> string" where
  "readText io path old = (case fileRead io path of FileData d \<Rightarrow> d | _ \<Rightarrow> old)"

definition loadTextFiles :: "cfgIO \<Rightarrow> AppConfig \<Rightarrow> AppConfig" where
  "loadTextFiles io c =
    c\<lparr>CfgSOUL := readText io (JoinPath (CfgHomeDir c) ''SOUL.md'') (CfgSOUL c),
      CfgAGENTS := readText io (JoinPath (CfgHomeDir c) ''AGENTS.md'') (CfgAGENTS c)\<rparr>"

definition finishLoad :: "cfgIO \<Rightarrow> AppConfig \<Rightarrow> err option \<times> AppConfig" where
  "finishLoad io c = validateDelegation (normalizeConfig (loadTextFiles io (applyEnvOverrides (getenv_of io) c)))"

definition Load :: "cfgIO \<Rightarrow> err option \<times> AppConfig" where
  "Load io =
    (let c = defaultConfig\<lparr>CfgHomeDir := HomeDir io\<rparr> in
     case mkdirError io (CfgHomeDir c) of
       Some e \<Rightarrow> (Some (ErrWrap ''create goclaw home'' e), c)
     | None \<Rightarrow>
        (case fileRead io (JoinPath (CfgHomeDir c) ''config.yaml'') of
           FileMissing \<Rightarrow> finishLoad io (c\<lparr>CfgNeedsGenesis := True\<rparr>)
         | FileError e \<Rightarrow> (Some (ErrWrap ''read config.yaml'' e), c)
         | FileData data \<Rightarrow>
            if length data > 0
            then (case decodeConfig io data c of
                    (Some e, c1) \<Rightarrow> (Some (ErrWrap ''parse config.yaml'' e), c1)
                  | (None, c1) \<Rightarrow> finishLoad io c1)
            else finishLoad io c))"

section \<open>Editing the file\<close>

text \<open>A YAML document as \<open>map[string]interface{}\<close>; \<open>YOther\<close> is any value these functions only carry along.\<close>

datatype yval = YStr string | YMap "(string \<times> yval) list" | YOther string

text \<open>The YAML codec, and a failing write with the content it leaves in the file.\<close>

record rawIO =
  rawRead :: "string \<Rightarrow> file_read"
  decodeRaw :: "string \<Rightarrow> err + (string \<times> yval) list"
  encodeRaw :: "(string \<times> yval) list \<Rightarrow> err + string"
  rawWriteError :: "string \<Rightarrow> (err \<times> file_read) option"

definition ConfigPath :: "string \<Rightarrow> string" where
  "ConfigPath homeDir = JoinPath homeDir ''config.yaml''"

definition loadRawConfig :: "rawIO \<Rightarrow> string \<Rightarrow> err + (string \<times> yval) list" where
  "loadRawConfig io path =
    (case rawRead io path of
       FileError e \<Rightarrow> Inl (ErrWrap ''read config.yaml'' e)
     | FileMissing \<Rightarrow> Inr []
     | FileData data \<Rightarrow>
        if length data > 0 then (case decodeRaw io data of Inl e \<Rightarrow> Inl (ErrWrap ''parse config.yaml'' e) | Inr raw \<Rightarrow> Inr raw) else Inr [])"

definition writeFile :: "rawIO \<Rightarrow> string \<Rightarrow> string \<Rightarrow> (err + unit) \<times> rawIO" where
  "writeFile io path out =
    (case rawWriteError io path of
       Some (e, left) \<Rightarrow> (Inl e, io\<lparr>rawRead := (rawRead io)(path := left)\<rparr>)
     | None \<Rightarrow> (Inr (), io\<lparr>rawRead := (rawRead io)(path := FileData out)\<rparr>))"

definition saveRawConfig :: "rawIO \<Rightarrow> string \<Rightarrow> (string \<times> yval) list \<Rightarrow> (err + unit) \<times> rawIO" where
  "saveRawConfig io path raw =
    (case encodeRaw io raw of Inl e \<Rightarrow> (Inl (ErrWrap ''marshal config.yaml'' e), io) | Inr out \<Rightarrow> writeFile io path out)"

definition SetModel :: "rawIO \<Rightarrow> string \<Rightarrow> string \<Rightarrow> string \<Rightarrow> (err + unit) \<times> rawIO" where
  "SetModel io homeDir provider model =
    (case loadRawConfig io (ConfigPath homeDir) of
       Inl e \<Rightarrow> (Inl e, io)
     | Inr raw \<Rightarrow> saveRawConfig io (ConfigPath homeDir)
         (AList.update ''gemini_model'' (YStr model) (AList.update ''llm_provider'' (YStr provider) raw)))"

definition rawKeys :: "(string \<times> yval) list \<Rightarrow> (string \<times> yval) list" where
  "rawKeys raw = (case map_of raw ''api_keys'' of Some (YMap m) \<Rightarrow> m | _ \<Rightarrow> [])"

definition SetAPIKey :: "rawIO \<Rightarrow> string \<Rightarrow> string \<Rightarrow> string \<Rightarrow> (err + unit) \<times> rawIO" where
  "SetAPIKey io homeDir name value =
    (case loadRawConfig io (ConfigPath homeDir) of
       Inl e \<Rightarrow> (Inl e, io)
     | Inr raw \<Rightarrow> saveRawConfig io (ConfigPath homeDir)
         (AList.update ''api_keys'' (YMap (AList.update name (YStr value) (rawKeys raw))) raw))"

text \<open>\<open>AppendAgent\<close> decodes into a zero struct, so it writes back the fields the YAML tags name, each with the
  value read or its zero value. \<open>encode\<close> and \<open>decode\<close> are the codec on the struct.\<close>

definition zeroConfig :: AppConfig where
  "zeroConfig = defaultConfig\<lparr>CfgWorkerCount := 0, CfgTaskTimeoutSeconds := 0, CfgBindAddr := '''', CfgLogLevel := '''',
     CfgMaxQueueDepth := 0, CfgDrainTimeoutSeconds := 0, CfgRetentionTaskEventsDays := 0, CfgRetentionAuditLogDays := 0,
     CfgRetentionMessagesDays := 0, CfgHeartbeatIntervalMinutes := 0, CfgDelegationTimeoutSeconds := 0, CfgEngineTickSeconds := 0,
     CfgApprovalTimeoutSeconds := 0, CfgSkills := \<lparr>ProjectDir = '''', ExtraDirs = [], LegacyMode = False\<rparr>\<rparr>"

definition AppendAgent :: "rawIO \<Rightarrow> (string \<Rightarrow> AppConfig \<Rightarrow> err option \<times> AppConfig) \<Rightarrow> (AppConfig \<Rightarrow> err + string) \<Rightarrow> string \<Rightarrow>
    AgentConfigEntry \<Rightarrow> (err + unit) \<times> rawIO" where
  "AppendAgent io decode encode path agent =
    (case (case rawRead io path of FileData d \<Rightarrow> if length d > 0 then decode d zeroConfig else (None, zeroConfig) | _ \<Rightarrow> (None, zeroConfig)) of
       (Some e, _) \<Rightarrow> (Inl (ErrWrap ''parse config'' e), io)
     | (None, c) \<Rightarrow>
        if EntAgentID agent \<in> EntAgentID ` set (CfgAgents c)
        then (Inl (ErrMsg (''agent @'' @ EntAgentID agent @ '' already exists '' @ map char_of [226, 128, 148 :: nat] @
                '' use a different ID or remove the existing agent first'')), io)
        else case encode (c\<lparr>CfgAgents := CfgAgents c @ [agent]\<rparr>) of
               Inl e \<Rightarrow> (Inl (ErrWrap ''marshal config'' e), io)
             | Inr out \<Rightarrow> writeFile io path out)"

section \<open>The delegation depth is safe\<close>

lemma checkAgents_None: "checkAgents c as = None \<longleftrightarrow> (\<forall>a\<in>set as. CfgDelegationMaxHops c \<le> entryWorkers c a - 1)"
  by (induction as) auto

lemma defaultHops_nonzero: "CfgDelegationMaxHops (defaultHops c) \<noteq> 0"
  by (simp add: defaultHops_def Let_def)

lemma validateDelegation_None:
  assumes "validateDelegation c0 = (None, c)"
  shows "CfgDelegationMaxHops c \<le> CfgWorkerCount c - 1" and "\<forall>a\<in>set (CfgAgents c). CfgDelegationMaxHops c \<le> entryWorkers c a - 1"
    and "CfgDelegationMaxHops c \<noteq> 0"
proof -
  have c: "c = defaultHops c0" and ch: "checkAgents c (CfgAgents c) = None" and "\<not> CfgDelegationMaxHops c > CfgWorkerCount c - 1"
    using assms by (auto simp: validateDelegation_def Let_def split: option.splits if_splits)
  then show "CfgDelegationMaxHops c \<le> CfgWorkerCount c - 1" by simp
  show "\<forall>a\<in>set (CfgAgents c). CfgDelegationMaxHops c \<le> entryWorkers c a - 1" using ch by (simp add: checkAgents_None)
  show "CfgDelegationMaxHops c \<noteq> 0" unfolding c by (rule defaultHops_nonzero)
qed

lemma Load_finish: "Load io = (None, c) \<Longrightarrow> \<exists>c0. finishLoad io c0 = (None, c)"
  unfolding Load_def by (auto simp: Let_def split: option.splits file_read.splits prod.splits if_splits)

lemma Load_None:
  assumes "Load io = (None, c)"
  shows "CfgDelegationMaxHops c \<le> CfgWorkerCount c - 1" and "\<forall>a\<in>set (CfgAgents c). CfgDelegationMaxHops c \<le> entryWorkers c a - 1"
    and "CfgDelegationMaxHops c \<noteq> 0"
proof -
  obtain c0 where "validateDelegation c0 = (None, c)" using Load_finish [OF assms] by (auto simp: finishLoad_def)
  note v = validateDelegation_None [OF this]
  show "CfgDelegationMaxHops c \<le> CfgWorkerCount c - 1" by (rule v(1))
  show "\<forall>a\<in>set (CfgAgents c). CfgDelegationMaxHops c \<le> entryWorkers c a - 1" by (rule v(2))
  show "CfgDelegationMaxHops c \<noteq> 0" by (rule v(3))
qed


definition exIO :: "string \<Rightarrow> cfgIO" where
  "exIO workers = \<lparr>getenv_of = (\<lambda>v. if v = ''GOCLAW_WORKER_COUNT'' then workers else ''''), userHome = Some ''/home/u'',
     mkdirError = (\<lambda>_. None), fileRead = (\<lambda>_. FileMissing), decodeConfig = (\<lambda>_ c. (None, c))\<rparr>"

lemma exLoad_workers:
  "CfgWorkerCount (snd (Load (exIO ''3''))) = 3" "CfgDelegationMaxHops (snd (Load (exIO ''3''))) = 2" "fst (Load (exIO ''3'')) = None"
  by code_simp+


text \<open>With one worker and no limit of its own a configuration is refused: the default limit is raised to 1, which
  the check that follows rejects.\<close>

lemma single_worker_rejected:
  assumes "CfgWorkerCount c = 1" and "CfgDelegationMaxHops c = 0"
  shows "fst (validateDelegation c) \<noteq> None"
proof
  assume "fst (validateDelegation c) = None"
  then have "validateDelegation c = (None, snd (validateDelegation c))" by (metis prod.collapse)
  note v = validateDelegation_None [OF this]
  have "snd (validateDelegation c) = defaultHops c" by (simp add: validateDelegation_def Let_def split: option.split)
  with v(1) assms show False by (simp add: defaultHops_def Let_def)
qed

text \<open>An agent that states no number of workers is checked against the default agent's, but runs with 4.\<close>

lemma unstated_workers_pass:
  "validateDelegation (defaultConfig\<lparr>CfgDelegationMaxHops := 10, CfgAgents := StarterAgents\<rparr>) =
     (None, defaultConfig\<lparr>CfgDelegationMaxHops := 10, CfgAgents := StarterAgents\<rparr>)"
  by (simp add: validateDelegation_def defaultHops_def StarterAgents_def defaultConfig_def entryWorkers_def zeroEntry_def)

section \<open>Normalization\<close>

lemma inherit_shape: "\<exists>ps. inheritGeminiKey c = c\<lparr>CfgProviders := ps\<rparr>"
proof (cases "CfgGeminiAPIKey c = ''''")
  case True
  then show ?thesis by (intro exI [of _ "CfgProviders c"]) (simp add: inheritGeminiKey_def)
next
  case False
  then show ?thesis
    by (cases "PvAPIKey (coalesce (map_of (CfgProviders c) ''google'') zeroProvider) = ''''")
      (auto simp: inheritGeminiKey_def Let_def intro: exI [of _ "CfgProviders c"])
qed

lemma inherit_fields:
  "CfgWorkerCount (inheritGeminiKey c) = CfgWorkerCount c" "CfgTaskTimeoutSeconds (inheritGeminiKey c) = CfgTaskTimeoutSeconds c"
  "CfgBindAddr (inheritGeminiKey c) = CfgBindAddr c" "CfgLogLevel (inheritGeminiKey c) = CfgLogLevel c"
  "CfgLLMProvider (inheritGeminiKey c) = CfgLLMProvider c" "CfgGeminiModel (inheritGeminiKey c) = CfgGeminiModel c"
  "CfgSkills (inheritGeminiKey c) = CfgSkills c" "CfgAgents (inheritGeminiKey c) = CfgAgents c"
  using inherit_shape [of c] by auto

lemma inherit_agents: "inheritGeminiKey (x\<lparr>CfgAgents := as\<rparr>) = (inheritGeminiKey x)\<lparr>CfgAgents := as\<rparr>"
  by (simp add: inheritGeminiKey_def Let_def)

lemma inherit_twice: "inheritGeminiKey (inheritGeminiKey c) = inheritGeminiKey c"
  by (cases "map_of (CfgProviders c) ''google''") (simp_all add: inheritGeminiKey_def Let_def coalesce_def update_conv')

definition normalized :: "AppConfig \<Rightarrow> bool" where
  "normalized c \<longleftrightarrow> 0 < CfgWorkerCount c \<and> 0 < CfgTaskTimeoutSeconds c \<and> CfgBindAddr c \<noteq> '''' \<and> CfgLogLevel c \<noteq> '''' \<and>
     CfgLLMProvider c \<notin> {'''', ''gemini'', ''googleai''} \<and> CfgGeminiModel c \<noteq> '''' \<and>
     trimSpace (ProjectDir (CfgSkills c)) \<noteq> '''' \<and> CfgAgents c \<noteq> []"

lemma default_skills: "trimSpace ''./skills'' \<noteq> ''''"
  by code_simp

lemma normalize_normalized: "normalized (normalizeConfig c)"
  using default_skills
  by (simp add: normalized_def normalizeConfig_def Let_def inherit_fields orElse_def NormalizeProviderName_def BuiltinModels_def
      StarterAgents_def)

lemma orElse_id: "v \<noteq> '''' \<Longrightarrow> orElse v d = v"
  by (simp add: orElse_def)

lemma provider_id: "v \<notin> {''gemini'', ''googleai''} \<Longrightarrow> NormalizeProviderName v = v"
  by (simp add: NormalizeProviderName_def)

lemma normalize_keeps:
  assumes "normalized c" shows "normalizeConfig c = inheritGeminiKey c"
proof -
  have n: "\<not> CfgWorkerCount c \<le> 0" "\<not> CfgTaskTimeoutSeconds c \<le> 0" "orElse (CfgBindAddr c) a = CfgBindAddr c"
    "orElse (CfgLogLevel c) a = CfgLogLevel c" "NormalizeProviderName (orElse (CfgLLMProvider c) a) = CfgLLMProvider c"
    "orElse (CfgGeminiModel c) a = CfgGeminiModel c" "trimSpace (ProjectDir (CfgSkills c)) \<noteq> ''''" "CfgAgents c \<noteq> []" for a
    using assms by (simp_all add: normalized_def orElse_id provider_id)
  show ?thesis
    unfolding normalizeConfig_def Let_def n if_not_P [OF n(1)] if_not_P [OF n(2)] if_not_P [OF n(7)] by (simp add: inherit_fields n(8))
qed

lemma normalize_inherits: "inheritGeminiKey (normalizeConfig c) = normalizeConfig c"
  unfolding normalizeConfig_def Let_def by (simp only: if_distrib [of inheritGeminiKey] inherit_agents inherit_twice)

text \<open>Normalization is complete in one pass: whatever it is given, the workers and the timeout are positive, the
  address, the log level, the provider, the model, the project directory and the agents are set, the provider has its
  canonical name, and normalizing again changes nothing.\<close>

theorem normalize_idempotent:
  "normalizeConfig (normalizeConfig c) = normalizeConfig c \<and> normalized (normalizeConfig c)"
  using normalize_keeps [OF normalize_normalized, of c] normalize_inherits [of c] normalize_normalized [of c] by simp

section \<open>Edits keep the rest\<close>

text \<open>The value at a path of keys, when it is no map.\<close>

fun ylookup :: "(string \<times> yval) list \<Rightarrow> string list \<Rightarrow> yval option" where
  "ylookup m [] = None"
| "ylookup m [k] = (case map_of m k of Some (YMap _) \<Rightarrow> None | v \<Rightarrow> v)"
| "ylookup m (k # ks) = (case map_of m k of Some (YMap m') \<Rightarrow> ylookup m' ks | _ \<Rightarrow> None)"

text \<open>What the YAML library documents: what it writes, it reads back as the same document.\<close>

definition yamlRoundTrip :: "rawIO \<Rightarrow> bool" where
  "yamlRoundTrip io \<longleftrightarrow> (\<forall>raw out. encodeRaw io raw = Inr out \<longrightarrow> out \<noteq> '''' \<and>
     (\<exists>raw'. decodeRaw io out = Inr raw' \<and> (\<forall>p. ylookup raw' p = ylookup raw p)))"

lemma saveRaw_load:
  assumes "yamlRoundTrip io" and "saveRawConfig io path raw = (Inr (), io')"
  shows "\<exists>raw'. loadRawConfig io' path = Inr raw' \<and> (\<forall>p. ylookup raw' p = ylookup raw p)"
    and "other \<noteq> path \<Longrightarrow> rawRead io' other = rawRead io other"
proof -
  from assms(2) obtain out where out: "encodeRaw io raw = Inr out" and io': "io' = io\<lparr>rawRead := (rawRead io)(path := FileData out)\<rparr>"
    by (auto simp: saveRawConfig_def writeFile_def split: sum.splits option.splits prod.splits)
  from assms(1) out show "\<exists>raw'. loadRawConfig io' path = Inr raw' \<and> (\<forall>p. ylookup raw' p = ylookup raw p)"
    unfolding yamlRoundTrip_def io' by (fastforce simp: loadRawConfig_def)
  show "other \<noteq> path \<Longrightarrow> rawRead io' other = rawRead io other" unfolding io' by simp
qed

lemma ylookup_update_other: "k \<noteq> k' \<Longrightarrow> ylookup (AList.update k v m) (k' # p) = ylookup m (k' # p)"
  by (cases p) (auto simp: update_conv' split: option.splits)

lemma ylookup_rawKeys: "ylookup raw [''api_keys'', n] = ylookup (rawKeys raw) [n]"
  by (auto simp: rawKeys_def split: option.splits yval.splits)

text \<open>Saving an API key changes that key and nothing else: when it succeeds, the file read again has the new value
  under the key, every other setting and every other key as before, and other files are untouched.\<close>

theorem set_key_preserves:
  assumes "yamlRoundTrip io" and "loadRawConfig io (ConfigPath home) = Inr raw" and "SetAPIKey io home name value = (Inr (), io')"
  shows "\<exists>raw'. loadRawConfig io' (ConfigPath home) = Inr raw' \<and> ylookup raw' [''api_keys'', name] = Some (YStr value) \<and>
    (\<forall>n. n \<noteq> name \<longrightarrow> ylookup raw' [''api_keys'', n] = ylookup raw [''api_keys'', n]) \<and>
    (\<forall>k p. k \<noteq> ''api_keys'' \<longrightarrow> ylookup raw' (k # p) = ylookup raw (k # p)) \<and>
    (\<forall>other. other \<noteq> ConfigPath home \<longrightarrow> rawRead io' other = rawRead io other)"
proof -
  let ?new = "AList.update ''api_keys'' (YMap (AList.update name (YStr value) (rawKeys raw))) raw"
  from assms(2,3) have save: "saveRawConfig io (ConfigPath home) ?new = (Inr (), io')" by (simp add: SetAPIKey_def)
  obtain raw' where raw': "loadRawConfig io' (ConfigPath home) = Inr raw'" "\<And>p. ylookup raw' p = ylookup ?new p"
    using saveRaw_load(1) [OF assms(1) save] by blast
  have keys: "ylookup ?new [''api_keys'', n] = ylookup (AList.update name (YStr value) (rawKeys raw)) [n]" for n
    by (simp add: update_conv')
  show ?thesis
    by (intro exI [of _ raw'] conjI allI impI)
      (simp_all only: raw' keys ylookup_rawKeys [of raw] ylookup_update_other saveRaw_load(2) [OF assms(1) save] not_False_eq_True,
       simp_all add: update_conv')
qed

definition exRaw :: "(string \<times> yval) list" where
  "exRaw = [(''log_level'', YStr ''debug''), (''api_keys'', YMap [(''brave_search'', YStr ''b''), (''openrouter'', YStr ''o'')])]"

definition exSaved :: "(string \<times> yval) list" where
  "exSaved = [(''log_level'', YStr ''debug''), (''api_keys'', YMap [(''brave_search'', YStr ''new''), (''openrouter'', YStr ''o'')])]"

definition exRawIO :: rawIO where
  "exRawIO = \<lparr>rawRead = (\<lambda>p. if p = ''/h/config.yaml'' then FileData ''old'' else FileMissing),
     decodeRaw = (\<lambda>d. if d = ''old'' then Inr exRaw else if d = ''saved'' then Inr exSaved else Inl (ErrMsg ''yaml'')),
     encodeRaw = (\<lambda>raw. if raw = exSaved then Inr ''saved'' else Inl (ErrMsg ''yaml'')), rawWriteError = (\<lambda>_. None)\<rparr>"

lemma exConfigPath: "ConfigPath ''/h'' = ''/h/config.yaml''"
  by code_simp

lemma set_key_preserves_witness:
  "\<exists>io' raw'. SetAPIKey exRawIO ''/h'' ''brave_search'' ''new'' = (Inr (), io') \<and> loadRawConfig io' (ConfigPath ''/h'') = Inr raw' \<and>
     ylookup raw' [''api_keys'', ''brave_search''] = Some (YStr ''new'')"
proof -
  have rt: "yamlRoundTrip exRawIO" by (auto simp: yamlRoundTrip_def exRawIO_def)
  have load: "loadRawConfig exRawIO (ConfigPath ''/h'') = Inr exRaw" by (simp add: exConfigPath loadRawConfig_def exRawIO_def)
  have set: "SetAPIKey exRawIO ''/h'' ''brave_search'' ''new'' =
      (Inr (), exRawIO\<lparr>rawRead := (rawRead exRawIO)(ConfigPath ''/h'' := FileData ''saved'')\<rparr>)" (is "_ = (_, ?io)")
    by (simp add: SetAPIKey_def load saveRawConfig_def writeFile_def rawKeys_def)
      (simp add: exRawIO_def exRaw_def exSaved_def writeFile_def)
  from set_key_preserves [OF rt load set] obtain raw' where
    "loadRawConfig ?io (ConfigPath ''/h'') = Inr raw'" "ylookup raw' [''api_keys'', ''brave_search''] = Some (YStr ''new'')" by (elim exE conjE)
  with set show ?thesis by (intro exI [of _ ?io] exI [of _ raw'] conjI)
qed

section \<open>Providers and fingerprints\<close>

text \<open>The model that \<open>SetModel\<close> stores is only read for Google: for another provider whose own model is not set,
  the resolved model is empty.\<close>

lemma model_of_other_provider:
  assumes "LProvider (CfgLLM c) = ''''" and "CfgLLMProvider c = provider" and "provider \<notin> {'''', ''google''}"
    and "LAnthropicModel (CfgLLM c) = ''''" and "LOpenAIModel (CfgLLM c) = ''''"
  shows "fst (snd (ResolveLLMConfig getenv (c\<lparr>CfgGeminiModel := model\<rparr>))) = ''''"
  using assms by (auto simp: ResolveLLMConfig_def resolveProvider_def resolveModel_def Let_def)

text \<open>The fingerprint sees six settings: any two configurations that agree on them have the same one.\<close>

lemma Fingerprint_cong:
  assumes "CfgWorkerCount c = CfgWorkerCount d" and "CfgTaskTimeoutSeconds c = CfgTaskTimeoutSeconds d" and "CfgBindAddr c = CfgBindAddr d"
    and "CfgLogLevel c = CfgLogLevel d" and "CfgGeminiModel c = CfgGeminiModel d" and "CfgAllowOrigins c = CfgAllowOrigins d"
  shows "Fingerprint c = Fingerprint d"
  using assms by (simp add: Fingerprint_def)

lemma DelegationTimeout_bounds: "1 * int second \<le> DelegationTimeout c \<and> DelegationTimeout c \<le> 300 * int second"
  by (auto simp: DelegationTimeout_def Let_def second_def)
end
