(* ===== verification/Gateway_State.thy ===== *)
theory Gateway_State
  imports Engine Schedules Audit_Trail Config_File
begin

text \<open>
  The state of the gateway (\<open>Server\<close> and \<open>client\<close> in \<open>internal/gateway/gateway.go\<close>) beside the database:
  connected clients, approval requests, the configuration it edits; the approval broker; and the
  forwarding of task events to subscribed clients. \<open>outbox\<close> lists every frame the server writes to a
  connection, in order, with the connection's number. A failing write is only logged. The maps of the
  source are lists; the order in which Go visits a map shows only in the order of \<open>approval.list\<close> and of
  the connections of a broadcast.
\<close>

section \<open>State\<close>

record approvalRequest =
  AppID :: string
  AppAction :: string
  AppDetails :: string
  AppStatus :: string
  AppCreatedAt :: nat
  AppDone :: bool

datatype notification =
    ApprovalRequired string string string string nat
  | ApprovalUpdated string string
  | SessionEvent TaskEvent
  | Backpressure string nat nat
  | StreamChunk string
  | ToolsUpdated string

datatype frame = Notify notification | Closed string

text \<open>\<open>busSub\<close> is the number of the client's subscription to the bus.\<close>

record client =
  ClID :: nat
  handshaken :: bool
  subscribedSes :: "(string \<times> nat) list"
  busSub :: "nat option"

record gateway = engine_store +
  clients :: "client list"
  approvals :: "approvalRequest list"
  outbox :: "(nat \<times> frame) list"
  livePolicy :: "LivePolicy option"
  appCfg :: "AppConfig option"
  configFile :: rawIO
  planSummaries :: "(string \<times> nat \<times> string list) list"
  plansMap :: "(string \<times> Plan) list"

text \<open>\<open>broadcast\<close>: one frame to every connected client. \<open>sendTo\<close> is \<open>c.write\<close>.\<close>

definition broadcast :: "notification \<Rightarrow> 'x gateway_scheme \<Rightarrow> 'x gateway_scheme" where
  "broadcast n s = s\<lparr>outbox := outbox s @ map (\<lambda>c. (ClID c, Notify n)) (clients s)\<rparr>"

definition sendTo :: "nat \<Rightarrow> frame list \<Rightarrow> 'x gateway_scheme \<Rightarrow> 'x gateway_scheme" where
  "sendTo c fs s = s\<lparr>outbox := outbox s @ map (Pair c) fs\<rparr>"

definition addClient :: "nat \<Rightarrow> 'x gateway_scheme \<Rightarrow> 'x gateway_scheme" where
  "addClient c s = s\<lparr>clients := clients s @ [\<lparr>ClID = c, handshaken = False, subscribedSes = [], busSub = None\<rparr>]\<rparr>"

definition clientOf :: "nat \<Rightarrow> 'x gateway_scheme \<Rightarrow> client option" where
  "clientOf c s = firstWhere (\<lambda>x. ClID x = c) (clients s)"

definition updClient :: "nat \<Rightarrow> (client \<Rightarrow> client) \<Rightarrow> 'x gateway_scheme \<Rightarrow> 'x gateway_scheme" where
  "updClient c f s = s\<lparr>clients := updWhere (\<lambda>x. ClID x = c) f (clients s)\<rparr>"

definition removeClient :: "nat \<Rightarrow> 'x gateway_scheme \<Rightarrow> 'x gateway_scheme" where
  "removeClient c s =
    (let s1 = (case clientOf c s of Some x \<Rightarrow> (case bus s of Some b \<Rightarrow> s\<lparr>bus := Some (Unsubscribe b (busSub x))\<rparr> | None \<Rightarrow> s) | None \<Rightarrow> s)
     in s1\<lparr>clients := delWhere (\<lambda>x. ClID x = c) (clients s1)\<rparr>)"

definition markHandshaken :: "nat \<Rightarrow> 'x gateway_scheme \<Rightarrow> 'x gateway_scheme" where
  "markHandshaken c = updClient c (\<lambda>x. x\<lparr>handshaken := True\<rparr>)"

definition isHandshaken :: "nat \<Rightarrow> 'x gateway_scheme \<Rightarrow> bool" where
  "isHandshaken c s = (case clientOf c s of Some x \<Rightarrow> handshaken x | None \<Rightarrow> False)"

definition consumeToolEvent :: "string \<Rightarrow> 'x gateway_scheme \<Rightarrow> 'x gateway_scheme" where
  "consumeToolEvent name = broadcast (ToolsUpdated name)"

definition UpdatePlans :: "(string \<times> nat \<times> string list) list \<Rightarrow> (string \<times> Plan) list \<Rightarrow> 'x gateway_scheme \<Rightarrow> 'x gateway_scheme" where
  "UpdatePlans summaries plans s = s\<lparr>planSummaries := summaries, plansMap := plans\<rparr>"

section \<open>Approvals\<close>

definition newApproval :: "string \<Rightarrow> string \<Rightarrow> string \<Rightarrow> nat \<Rightarrow> approvalRequest" where
  "newApproval i action details t =
    \<lparr>AppID = i, AppAction = action, AppDetails = details, AppStatus = ''PENDING'', AppCreatedAt = t, AppDone = False\<rparr>"

text \<open>The first half of \<open>RequestApproval\<close> and of the method \<open>approval.request\<close>: the record and the broadcast. The
  identifier is a fresh UUID.\<close>

definition openApproval :: "string \<Rightarrow> string \<Rightarrow> string \<Rightarrow> nat \<Rightarrow> 'x gateway_scheme \<Rightarrow> 'x gateway_scheme" where
  "openApproval i action details t s =
    broadcast (ApprovalRequired i action details ''PENDING'' t)
      (s\<lparr>approvals := delWhere (\<lambda>a. AppID a = i) (approvals s) @ [newApproval i action details t]\<rparr>)"

definition findApproval :: "string \<Rightarrow> 'x gateway_scheme \<Rightarrow> approvalRequest option" where
  "findApproval i s = firstWhere (\<lambda>a. AppID a = i) (approvals s)"

text \<open>The new status, and the closing of the channel \<open>done\<close> unless it is closed already.\<close>

definition decideApproval :: "string \<Rightarrow> string \<Rightarrow> 'x gateway_scheme \<Rightarrow> 'x gateway_scheme" where
  "decideApproval i status s =
    s\<lparr>approvals := updWhere (\<lambda>a. AppID a = i) (\<lambda>a. a\<lparr>AppStatus := status, AppDone := True\<rparr>) (approvals s)\<rparr>"

definition decisionOf :: "string \<Rightarrow> string option" where
  "decisionOf text = (let d = toLower (trimSpace text) in
     if d = ''approve'' then Some ''APPROVED'' else if d = ''deny'' then Some ''DENIED'' else None)"

definition RespondToApproval :: "string \<Rightarrow> string \<Rightarrow> 'x gateway_scheme \<Rightarrow> (err + unit) \<times> 'x gateway_scheme" where
  "RespondToApproval i decision s =
    (case decisionOf decision of
       None \<Rightarrow> (Inl (ErrMsg ''decision must be approve or deny''), s)
     | Some status \<Rightarrow>
        (case findApproval i s of
           None \<Rightarrow> (Inl (ErrMsg (''approval request '' @ quoteGo i @ '' not found'')), s)
         | Some _ \<Rightarrow> (Inr (), broadcast (ApprovalUpdated i status) (decideApproval i status s))))"

definition approvalTimeout :: "int \<Rightarrow> int" where
  "approvalTimeout configured = (if configured > 0 then configured else 60 * int second)"

text \<open>\<open>approvalTimeoutDeny\<close>, after its sleep.\<close>

definition approvalTimeoutDeny :: "(string \<Rightarrow> string) \<Rightarrow> env \<Rightarrow> string \<Rightarrow> 'x gateway_scheme \<Rightarrow> 'x gateway_scheme" where
  "approvalTimeoutDeny redact e i s =
    (case findApproval i s of
       None \<Rightarrow> s
     | Some a \<Rightarrow>
        if AppStatus a \<noteq> ''PENDING'' then s
        else broadcast (ApprovalUpdated i ''DENIED'')
               (Record redact e ''deny'' ''approval.timeout'' ''approval_timeout_default_deny'' '''' i (decideApproval i ''DENIED'' s)))"

text \<open>The second half of \<open>RequestApproval\<close>: \<open>cancelled\<close> is the context's error when it ends the wait. \<open>None\<close> is the
  wait going on. The pointer of the goroutine and the entry of the map are the same record.\<close>

definition awaitApproval :: "(string \<Rightarrow> string) \<Rightarrow> env \<Rightarrow> err option \<Rightarrow> string \<Rightarrow> 'x gateway_scheme \<Rightarrow> (err + bool) option \<times> 'x gateway_scheme" where
  "awaitApproval redact e cancelled i s =
    (case cancelled of
       Some er \<Rightarrow> (Some (Inl er), s)
     | None \<Rightarrow>
        (case findApproval i s of
           None \<Rightarrow> (None, s)
         | Some a \<Rightarrow>
            if \<not> AppDone a then (None, s)
            else if AppStatus a = ''APPROVED''
            then (Some (Inr True), Record redact e ''allow'' ''approval.decided'' ''approved'' '''' i s)
            else (Some (Inr False), Record redact e ''deny'' ''approval.decided'' ''denied'' '''' i s)))"

definition PendingApprovals :: "'x gateway_scheme \<Rightarrow> approvalRequest list" where
  "PendingApprovals s = filter (\<lambda>a. AppStatus a = ''PENDING'') (approvals s)"

section \<open>Live events\<close>

definition subscribeClientToSession :: "nat \<Rightarrow> string \<Rightarrow> nat \<Rightarrow> 'x gateway_scheme \<Rightarrow> 'x gateway_scheme" where
  "subscribeClientToSession c sessionID lastEventID s =
    (case bus s of
       None \<Rightarrow> s
     | Some b \<Rightarrow>
        (let s1 = updClient c (\<lambda>x. x\<lparr>subscribedSes := AList.update sessionID lastEventID (subscribedSes x)\<rparr>) s in
         case clientOf c s1 of
           Some x \<Rightarrow>
             (if busSub x = None
              then (case Subscribe b ''task.'' of (sub, b1) \<Rightarrow> updClient c (\<lambda>x. x\<lparr>busSub := Some (sub_id sub)\<rparr>) (s1\<lparr>bus := Some b1\<rparr>))
              else s1)
         | None \<Rightarrow> s1))"

definition eventSession :: "payload Event \<Rightarrow> string" where
  "eventSession ev = (case Payload ev of PStrMap m \<Rightarrow> coalesce (map_of m ''session_id'') '''' | _ \<Rightarrow> '''')"

definition lastForwarded :: "nat \<Rightarrow> string \<Rightarrow> 'x gateway_scheme \<Rightarrow> nat option" where
  "lastForwarded c sid s = (case clientOf c s of Some x \<Rightarrow> map_of (subscribedSes x) sid | None \<Rightarrow> None)"

text \<open>One iteration of \<open>forwardBusEvents\<close> on an event received from the bus.\<close>

definition forwardEvent :: "nat \<Rightarrow> payload Event \<Rightarrow> 'x gateway_scheme \<Rightarrow> 'x gateway_scheme" where
  "forwardEvent c ev s =
    (let sessID = eventSession ev in
     if sessID = '''' then s
     else case lastForwarded c sessID s of
       None \<Rightarrow> s
     | Some lastID \<Rightarrow>
        (case ListTaskEventsFrom sessID lastID 100 s of
           (Inl _, s1) \<Rightarrow> s1
         | (Inr events, s1) \<Rightarrow>
            if events = [] then s1
            else let s2 = sendTo c (map (Notify \<circ> SessionEvent) events) s1;
                     maxSent = foldl max 0 (map EventID events)
              in if maxSent > 0 then updClient c (\<lambda>x. x\<lparr>subscribedSes := AList.update sessID
                       (max maxSent (coalesce (map_of (subscribedSes x) sessID) 0)) (subscribedSes x)\<rparr>) s2
                 else s2))"

end
