(* ===== verification/Agent_Registry.thy ===== *)
theory Agent_Registry
  imports Engine_Intake Config_File Task_Outcomes
begin

text \<open>
  The registry of running agents (\<open>internal/agent/registry.go\<close>): creation, removal, restoration from the
  database, and the agent settings built from the configuration file (\<open>buildAgentConfig\<close> and
  \<open>agentConfigEqual\<close> of \<open>cmd/goclaw/main.go\<close>). The registry is a list with one entry per agent. The
  brain of an agent is a parameter, since it is an interface over a third-party library, and so is the hook
  that provisions a new agent with skills. \<open>gap\<close> is what other goroutines do, among them the workers of
  the engine that was just started, before the second look at the registry. The turns of the new engine's
  workers come afterwards and are those of \<open>Engine\<close>.
\<close>

section \<open>Settings of an agent\<close>

record AgentConfig =
  AcAgentID :: string
  AcDisplayName :: string
  AcProvider :: string
  AcModel :: string
  AcAPIKey :: string
  AcAPIKeyEnv :: string
  AcSoul :: string
  AcAgentEmoji :: string
  AcWorkerCount :: int
  AcTaskTimeoutSeconds :: int
  AcMaxQueueDepth :: int
  AcSkillsFilter :: "string list"
  AcPolicyOverrides :: "Policy option"
  AcPreferredSearch :: string
  AcCompatProvider :: string
  AcCompatBaseURL :: string

record 's RunningAgent =
  RaConfig :: AgentConfig
  RaEngine :: "'s Engine"

type_synonym 's agents_map = "(string \<times> 's RunningAgent) list"

definition engines :: "'s agents_map \<Rightarrow> 's registry" where
  "engines reg = map (\<lambda>(i, ra). (i, RaEngine ra)) reg"

text \<open>\<open>buildAgentConfig\<close>: \<open>os.Getenv("")\<close> is the empty text.\<close>

definition buildAgentConfig :: "cfgIO \<Rightarrow> AgentConfigEntry \<Rightarrow> AppConfig \<Rightarrow> AgentConfig" where
  "buildAgentConfig io a c =
    (case ResolveLLMConfig (getenv_of io) c of (provider, model, globalKey) \<Rightarrow>
      \<lparr>AcAgentID = EntAgentID a, AcDisplayName = EntDisplayName a,
       AcProvider = (if EntProvider a = '''' then provider else EntProvider a),
       AcModel = (if EntModel a = '''' then model else EntModel a),
       AcAPIKey = (if getenv_of io (EntAPIKeyEnv a) = '''' then globalKey else getenv_of io (EntAPIKeyEnv a)),
       AcAPIKeyEnv = EntAPIKeyEnv a,
       AcSoul = (if EntSoulFile a \<noteq> '''' then readText io (JoinPath (CfgHomeDir c) (EntSoulFile a)) (EntSoul a) else EntSoul a),
       AcAgentEmoji = '''', AcWorkerCount = EntWorkerCount a, AcTaskTimeoutSeconds = EntTaskTimeoutSeconds a,
       AcMaxQueueDepth = EntMaxQueueDepth a, AcSkillsFilter = EntSkillsFilter a, AcPolicyOverrides = None,
       AcPreferredSearch = EntPreferredSearch a,
       AcCompatProvider = (if EntProvider a = '''' then LCompatibleProvider (CfgLLM c) else ''''),
       AcCompatBaseURL = (if EntProvider a = '''' then LCompatibleBaseURL (CfgLLM c) else '''')\<rparr>)"

definition agentConfigEqual :: "AgentConfigEntry \<Rightarrow> AgentConfigEntry \<Rightarrow> bool" where
  "agentConfigEqual a b \<longleftrightarrow> EntAgentID a = EntAgentID b \<and> EntDisplayName a = EntDisplayName b \<and> EntProvider a = EntProvider b \<and>
     EntModel a = EntModel b \<and> EntAPIKeyEnv a = EntAPIKeyEnv b \<and> EntSoul a = EntSoul b \<and> EntSoulFile a = EntSoulFile b \<and>
     EntWorkerCount a = EntWorkerCount b \<and> EntTaskTimeoutSeconds a = EntTaskTimeoutSeconds b \<and>
     EntMaxQueueDepth a = EntMaxQueueDepth b \<and> EntPreferredSearch a = EntPreferredSearch b"

section \<open>Creation\<close>

record 's createEnv =
  newBrain :: "AgentConfig \<Rightarrow> string \<Rightarrow> 's Brain"
  jsonErr :: "string \<Rightarrow> err"
  crGetenv :: "string \<Rightarrow> string"
  crBus :: bool
  crPolicy :: bool
  crAt :: "nat \<Rightarrow> env"
  crScan :: "ts \<Rightarrow> ts"
  provision :: "'s RunningAgent \<Rightarrow> 's \<Rightarrow> 's"

definition agentDefaults :: "AgentConfig \<Rightarrow> AgentConfig" where
  "agentDefaults c = c\<lparr>AcWorkerCount := (if AcWorkerCount c \<le> 0 then 4 else AcWorkerCount c),
     AcTaskTimeoutSeconds := (if AcTaskTimeoutSeconds c \<le> 0 then 600 else AcTaskTimeoutSeconds c)\<rparr>"

definition keyOf :: "(string \<Rightarrow> string) \<Rightarrow> AgentConfig \<Rightarrow> string" where
  "keyOf getenv c = (if AcAPIKey c = '''' \<and> AcAPIKeyEnv c \<noteq> '''' then getenv (AcAPIKeyEnv c) else AcAPIKey c)"

definition engineFor :: "'s createEnv \<Rightarrow> AgentConfig \<Rightarrow> 's Engine" where
  "engineFor k c = NewEngine (jsonErr k) (Some (EchoProcessor (Some (newBrain k c (keyOf (crGetenv k) c))) (jsonErr k)))
     \<lparr>CWorkerCount = AcWorkerCount c, CPollInterval = 50 * millisecond, CTaskTimeout = seconds64 (AcTaskTimeoutSeconds c),
      CCancelCheckInterval = 0, CMaxQueueDepth = AcMaxQueueDepth c, CBus = crBus k, CAgentID = AcAgentID c\<rparr>
     (AcPolicyOverrides c \<noteq> None \<or> crPolicy k)"

definition recordOf :: "AgentConfig \<Rightarrow> AgentRecord" where
  "recordOf c = \<lparr>AgentRecID = AcAgentID c, DisplayName = AcDisplayName c, Provider = AcProvider c, Model = AcModel c,
     Soul = AcSoul c, WorkerCount = AcWorkerCount c, TaskTimeoutSeconds = AcTaskTimeoutSeconds c, MaxQueueDepth = AcMaxQueueDepth c,
     SkillsFilter = '''', PolicyOverrides = '''', APIKeyEnv = AcAPIKeyEnv c, AgentEmoji = AcAgentEmoji c,
     PreferredSearch = AcPreferredSearch c, AgentStatus = ''active'', AgentCreatedAt = GoTs 0, AgentUpdatedAt = GoTs 0\<rparr>"

definition alreadyExists :: "string \<Rightarrow> string \<Rightarrow> err" where
  "alreadyExists i why = ErrMsg (''agent '' @ quoteGo i @ '' already exists'' @ why)"

text \<open>The last part: the second look at the map and the insertion.\<close>

definition registerAgent :: "'s createEnv \<Rightarrow> AgentConfig \<Rightarrow> 's agents_map \<times> 's \<Rightarrow> err option \<times> 's agents_map \<times> 's" where
  "registerAgent k c rs =
    (case rs of (reg, s) \<Rightarrow>
       if map_of reg (AcAgentID c) \<noteq> None then (Some (alreadyExists (AcAgentID c) '' (concurrent create)''), reg, s)
       else let ra = \<lparr>RaConfig = c, RaEngine = engineFor k c\<rparr> in (None, (AcAgentID c, ra) # reg, provision k ra s))"

definition CreateAgentIn :: "'x engine_store_scheme createEnv \<Rightarrow>
    ('x engine_store_scheme agents_map \<times> 'x engine_store_scheme \<Rightarrow> 'x engine_store_scheme agents_map \<times> 'x engine_store_scheme) \<Rightarrow>
    AgentConfig \<Rightarrow> 'x engine_store_scheme agents_map \<times> 'x engine_store_scheme \<Rightarrow>
    err option \<times> 'x engine_store_scheme agents_map \<times> 'x engine_store_scheme" where
  "CreateAgentIn k gap c0 rs =
    (case rs of (reg, s) \<Rightarrow>
       if AcAgentID c0 = '''' then (Some (ErrMsg ''agent_id must be non-empty''), reg, s)
       else if map_of reg (AcAgentID c0) \<noteq> None then (Some (alreadyExists (AcAgentID c0) ''''), reg, s)
       else let c = agentDefaults c0; s1 = snd (RecoverRunningTasks (crAt k 0) (crScan k) s) in
         (case CreateAgent (crAt k 1) (recordOf c) s1 of
            (Inr _, s2) \<Rightarrow> registerAgent k c (gap (reg, s2))
          | (Inl er, s2) \<Rightarrow>
             if contains (errString er) ''UNIQUE constraint''
             then registerAgent k c (gap (reg, snd (UpdateAgentStatus (crAt k 2) (AcAgentID c) ''active'' s2)))
             else (Some (ErrWrap ''create agent record'' er), reg, s2)))"

definition RemoveAgentFrom :: "env \<Rightarrow> string \<Rightarrow> 'x engine_store_scheme agents_map \<times> 'x engine_store_scheme \<Rightarrow>
    err option \<times> 'x engine_store_scheme agents_map \<times> 'x engine_store_scheme" where
  "RemoveAgentFrom e i rs =
    (case rs of (reg, s) \<Rightarrow>
       if i = ''default'' then (Some (ErrMsg ''cannot remove default agent''), reg, s)
       else if map_of reg i = None then (Some (runningNotFound i), reg, s)
       else (None, AList.delete i reg, snd (UpdateAgentStatus e i ''stopped'' s)))"

text \<open>\<open>ListAgents\<close>, in any order.\<close>

definition ListRunning :: "'s agents_map \<Rightarrow> AgentConfig list" where
  "ListRunning reg = map (RaConfig \<circ> snd) reg"

definition configOf :: "AgentRecord \<Rightarrow> AgentConfig" where
  "configOf r = \<lparr>AcAgentID = AgentRecID r, AcDisplayName = DisplayName r, AcProvider = Provider r, AcModel = Model r,
     AcAPIKey = '''', AcAPIKeyEnv = APIKeyEnv r, AcSoul = Soul r, AcAgentEmoji = AgentEmoji r, AcWorkerCount = WorkerCount r,
     AcTaskTimeoutSeconds = TaskTimeoutSeconds r, AcMaxQueueDepth = MaxQueueDepth r, AcSkillsFilter = [], AcPolicyOverrides = None,
     AcPreferredSearch = PreferredSearch r, AcCompatProvider = '''', AcCompatBaseURL = ''''\<rparr>"

fun restoreAll :: "(nat \<Rightarrow> 'x engine_store_scheme createEnv) \<Rightarrow>
    ('x engine_store_scheme agents_map \<times> 'x engine_store_scheme \<Rightarrow> 'x engine_store_scheme agents_map \<times> 'x engine_store_scheme) \<Rightarrow>
    AgentRecord list \<Rightarrow> 'x engine_store_scheme agents_map \<times> 'x engine_store_scheme \<Rightarrow>
    err list \<times> 'x engine_store_scheme agents_map \<times> 'x engine_store_scheme" where
  "restoreAll k gap [] rs = ([], rs)"
| "restoreAll k gap (r # recs) rs =
    (if AgentStatus r \<noteq> ''active'' \<or> map_of (fst rs) (AgentRecID r) \<noteq> None then restoreAll k gap recs rs
     else case CreateAgentIn (k (length recs)) gap (configOf r) rs of (er, rs1) \<Rightarrow>
       (case restoreAll k gap recs rs1 of (errs, rs2) \<Rightarrow>
          ((case er of None \<Rightarrow> [] | Some x \<Rightarrow> [ErrWrap (''restore '' @ quoteGo (AgentRecID r)) x]) @ errs, rs2)))"

text \<open>\<open>%v\<close> of the list of errors.\<close>

definition restoreErrors :: "err list \<Rightarrow> err" where
  "restoreErrors errs = ErrMsg (''some agents failed to restore: '' @ showStrings (map errString errs))"

definition RestorePersistedAgents :: "(nat \<Rightarrow> 'x engine_store_scheme createEnv) \<Rightarrow>
    ('x engine_store_scheme agents_map \<times> 'x engine_store_scheme \<Rightarrow> 'x engine_store_scheme agents_map \<times> 'x engine_store_scheme) \<Rightarrow>
    'x engine_store_scheme agents_map \<times> 'x engine_store_scheme \<Rightarrow> err option \<times> 'x engine_store_scheme agents_map \<times> 'x engine_store_scheme" where
  "RestorePersistedAgents k gap rs =
    (case rs of (reg, s) \<Rightarrow>
       (case ListAgents s of
          (Inl er, s1) \<Rightarrow> (Some (ErrWrap ''list persisted agents'' er), reg, s1)
        | (Inr recs, s1) \<Rightarrow>
           (case restoreAll k gap recs (reg, s1) of (errs, rs2) \<Rightarrow>
              (if length errs > 0 then Some (restoreErrors errs) else None, rs2))))"

section \<open>The map of running agents\<close>

definition registry_inv :: "'s agents_map \<Rightarrow> bool" where
  "registry_inv reg \<longleftrightarrow> distinct (map fst reg) \<and> (\<forall>(i, ra)\<in>set reg. i \<noteq> '''' \<and> AcAgentID (RaConfig ra) = i \<and>
     engineAgent (RaEngine ra) = i \<and> 0 < AcWorkerCount (RaConfig ra) \<and> CWorkerCount (config (RaEngine ra)) = AcWorkerCount (RaConfig ra))"

lemma agentDefaults_fields: "AcAgentID (agentDefaults c) = AcAgentID c" "0 < AcWorkerCount (agentDefaults c)"
  by (simp_all add: agentDefaults_def)

lemma engineFor_fields: "engineAgent (engineFor k c) = AcAgentID c" "0 < AcWorkerCount c \<Longrightarrow> CWorkerCount (config (engineFor k c)) = AcWorkerCount c"
  by (simp_all add: engineFor_def NewEngine_def Let_def)

lemma registerAgent_inv:
  assumes "registry_inv (fst rs)" and "AcAgentID c \<noteq> ''''" and "0 < AcWorkerCount c"
  shows "registry_inv (fst (snd (registerAgent k c rs)))"
proof -
  obtain reg s where rs: "rs = (reg, s)" by (cases rs) auto
  show ?thesis
  proof (cases "map_of reg (AcAgentID c)")
    case None
    then have "AcAgentID c \<notin> fst ` set reg" by (simp add: map_of_eq_None_iff)
    with assms None show ?thesis by (auto simp: rs registerAgent_def Let_def registry_inv_def engineFor_fields)
  next
    case (Some ra)
    with assms(1) show ?thesis by (simp add: rs registerAgent_def)
  qed
qed

lemma CreateAgentIn_inv:
  assumes "registry_inv (fst rs)" and "\<And>x. registry_inv (fst x) \<Longrightarrow> registry_inv (fst (gap x))"
  shows "registry_inv (fst (snd (CreateAgentIn k gap c rs)))"
proof -
  obtain reg s where rs: "rs = (reg, s)" by (cases rs) auto
  have "registry_inv (fst (snd (registerAgent k (agentDefaults c) (gap (reg, t)))))" if "AcAgentID c \<noteq> ''''" for t
    using that assms rs by (intro registerAgent_inv) (simp_all add: agentDefaults_fields)
  with assms(1) show ?thesis unfolding rs CreateAgentIn_def
    by (simp add: Let_def split: prod.split sum.split)
qed

lemma RemoveAgentFrom_inv: "registry_inv (fst rs) \<Longrightarrow> registry_inv (fst (snd (RemoveAgentFrom e i rs)))"
  by (cases rs) (auto simp: RemoveAgentFrom_def registry_inv_def AList.delete_eq distinct_map_filter)

inductive registry_step :: "'x engine_store_scheme agents_map \<times> 'x engine_store_scheme \<Rightarrow> 'x engine_store_scheme agents_map \<times> 'x engine_store_scheme \<Rightarrow> bool" where
  create: "registry_step rs (snd (CreateAgentIn k id c rs))"
| remove: "registry_step rs (snd (RemoveAgentFrom e i rs))"
| store_moves: "registry_step (reg, s) (reg, s')"

lemma registry_step_inv: "registry_step rs rs' \<Longrightarrow> registry_inv (fst rs) \<Longrightarrow> registry_inv (fst rs')"
  by (induction rule: registry_step.induct) (auto intro: CreateAgentIn_inv RemoveAgentFrom_inv)

lemma RemoveAgentFrom_default: "''default'' \<in> fst ` set (fst rs) \<Longrightarrow> ''default'' \<in> fst ` set (fst (snd (RemoveAgentFrom e i rs)))"
  by (cases rs) (auto simp: RemoveAgentFrom_def AList.delete_eq image_iff)

lemma registry_step_default: "registry_step rs rs' \<Longrightarrow> ''default'' \<in> fst ` set (fst rs) \<Longrightarrow> ''default'' \<in> fst ` set (fst rs')"
proof (induction rule: registry_step.induct)
  case (create rs k c)
  then show ?case
    by (cases rs) (auto simp: CreateAgentIn_def registerAgent_def Let_def image_iff split: prod.split sum.split)
next
  case (remove rs e i)
  then show ?case by (rule RemoveAgentFrom_default)
next
  case (store_moves reg s s')
  then show ?case by simp
qed


section \<open>Restoration\<close>

text \<open>What an agent keeps over a restart: the settings restored from the row that was written are the ones the agent
  ran with, except that the key given in memory, the filter of skills, the policy of its own and the
  compatible endpoint are gone. An agent without those is restored exactly.\<close>

theorem restored_settings:
  "configOf (recordOf (agentDefaults c)) = (agentDefaults c)\<lparr>AcAPIKey := '''', AcSkillsFilter := [], AcPolicyOverrides := None,
     AcCompatProvider := '''', AcCompatBaseURL := ''''\<rparr> \<and>
   agentDefaults (configOf (recordOf (agentDefaults c))) = configOf (recordOf (agentDefaults c))"
  by (simp add: configOf_def recordOf_def agentDefaults_def)

text \<open>The row of an agent that is removed and created again keeps the settings of the first time.\<close>

lemma CreateAgent_unique:
  assumes "faults s = []" and "hasAgent (AgentRecID r) s"
  shows "CreateAgent e r s = (Inl (ErrWrap ''create agent'' (ErrMsg ''UNIQUE constraint failed: agents.agent_id'')), s)"
  using assms by (simp add: CreateAgent_def wrapS_def execCheck_def stmt_def agentInsertCheck_def)

lemma unique_text: "contains (errString (ErrWrap ''create agent'' (ErrMsg ''UNIQUE constraint failed: agents.agent_id''))) ''UNIQUE constraint''"
  by code_simp

section \<open>Creating an agent disturbs the others\<close>

interpretation ag: task_frame "\<lambda>s :: 'x agent_store_scheme. agents s = A" for A
  by unfold_locales simp_all


section \<open>Examples\<close>

definition exAgentConfig :: "string \<Rightarrow> AgentConfig" where
  "exAgentConfig i = \<lparr>AcAgentID = i, AcDisplayName = '''', AcProvider = ''google'', AcModel = ''m'', AcAPIKey = ''k'', AcAPIKeyEnv = '''',
     AcSoul = '''', AcAgentEmoji = '''', AcWorkerCount = 0, AcTaskTimeoutSeconds = 0, AcMaxQueueDepth = 0, AcSkillsFilter = [''web''],
     AcPolicyOverrides = None, AcPreferredSearch = '''', AcCompatProvider = '''', AcCompatBaseURL = ''''\<rparr>"

definition exCreateEnv :: "'s createEnv" where
  "exCreateEnv = \<lparr>newBrain = (\<lambda>_ _. exBrain), jsonErr = ErrMsg, crGetenv = (\<lambda>_. ''''), crBus = True, crPolicy = True, crAt = (\<lambda>k. exEnv 200),
     crScan = id, provision = (\<lambda>_ s. s)\<rparr>"



text \<open>The comparison that decides whether a hot reload recreates an agent does not see its skills, its servers, its
  capabilities, its loop and its output schema.\<close>

lemma agentConfigEqual_blind:
  "agentConfigEqual a (a\<lparr>EntSkillsFilter := sf, EntCapabilities := cs, EntMCPServers := refs, EntLoop := lo, EntStructuredOutput := so\<rparr>)"
  by (simp add: agentConfigEqual_def)
end
