(* ===== verification/Gateway_Rpc.thy ===== *)
theory Gateway_Rpc
  imports Gateway_State Agent_Registry Tool_Calls
begin

text \<open>
  The JSON-RPC interface of the gateway (\<open>handleRPC\<close> of \<open>internal/gateway/gateway.go\<close>): the check of the
  request, the handshake, the policy gate with its audit, and every method, as a function of the running
  agents, the database and the memory of the server. The record \<open>gwEnv\<close> holds what a call draws from its
  surroundings: clocks, identifiers, the policy, the masking of secrets, the order of a map, the outcome of
  a write to the connection, the answers of the engines' \<open>Status\<close>. The fields of a result are the
  arguments of its constructor; the memory statistics, the clock and the skill catalogue in
  \<open>system.status\<close> are left out.
\<close>

section \<open>Requests and responses\<close>

definition ErrCodeInvalidRequest :: int where "ErrCodeInvalidRequest = -32600"
definition ErrCodeMethodNotFound :: int where "ErrCodeMethodNotFound = -32601"
definition ErrCodeInternal :: int where "ErrCodeInternal = -32603"
definition ErrCodeInvalid :: int where "ErrCodeInvalid = 1000"
definition ErrCodeBackpressure :: int where "ErrCodeBackpressure = 4290"
definition ErrCodeLLM :: int where "ErrCodeLLM = 4000"

definition maxReplayEventsPerSubscribe :: nat where
  "maxReplayEventsPerSubscribe = 64"

record rpcRequest =
  RqVersion :: string
  RqID :: string
  RqMethod :: string
  RqParams :: string

record rpcError =
  ECode :: int
  EMessage :: string

record agentEntry =
  AeConfig :: AgentConfig
  AeActiveTasks :: "int option"

datatype rpcResult =
    RHello
  | RTaskCreated string
  | RAborted bool
  | RHistory "HistoryItem list"
  | RSubscribed nat nat
  | RSessions "SessionRec list"
  | RApproval string string
  | RApprovals "approvalRequest list"
  | RSystemStatus nat nat int int string "agentEntry list"
  | RPurged string PurgeResult
  | RSchedules "Schedule list"
  | RScheduleID string
  | RScheduleDeleted
  | RScheduleEnabled
  | RScheduleDisabled
  | RSubtasks "Task list"
  | RAgentActive string
  | RAgentRemoved string
  | RIncident IncidentBundle
  | RAPIKeys "(string \<times> string) list"
  | RKeySaved string
  | RModelSaved string string
  | RDomainAllowed string
  | RAgents "agentEntry list"
  | RAgentStatus string int int string

record rpcResponse =
  RpID :: jval
  RpBody :: "rpcError + rpcResult"

datatype rpcOutcome = RpcSilent | RpcFail rpcError | RpcDone rpcResult

text \<open>\<open>decodeID\<close>: no identifier, or one that is no JSON, makes a notification.\<close>

definition decodeID :: "string \<Rightarrow> jval option" where
  "decodeID raw = (if length raw = 0 then None else parseJson raw)"

text \<open>\<open>authorize\<close>, given the header \<open>Authorization\<close>.\<close>

definition authorize :: "string \<Rightarrow> string \<Rightarrow> bool" where
  "authorize authToken header =
    (if authToken = '''' then False
     else let authz = trimSpace header in
       if authz = '''' then False
       else if \<not> prefix ''Bearer '' authz then False
       else let token = trimSpace (drop 7 authz) in token \<noteq> '''' \<and> token = authToken)"

definition isMutatingMethod :: "string \<Rightarrow> bool" where
  "isMutatingMethod m \<longleftrightarrow> m \<in> {''agent.chat'', ''agent.chat.stream'', ''agent.abort'', ''session.purge'', ''agent.create'', ''agent.remove''}"

definition requiredCapabilityForMethod :: "string \<Rightarrow> string" where
  "requiredCapabilityForMethod m =
    (if m \<in> {''agent.chat'', ''agent.chat.stream'', ''agent.abort'', ''approval.request'', ''approval.respond'', ''session.purge''}
     then ''acp.mutate''
     else if m \<in> {''session.history'', ''session.list'', ''session.events.subscribe'', ''system.status'', ''approval.list'',
        ''cron.list'', ''subtask.list'', ''agent.list'', ''agent.status'', ''incident.export'', ''config.list''}
     then ''acp.read''
     else if m \<in> {''cron.add'', ''cron.remove'', ''cron.enable'', ''cron.disable'', ''subtask.create'', ''agent.create'', ''agent.remove'',
        ''config.set'', ''config.model.set'', ''policy.domain.add''}
     then ''acp.mutate'' else '''')"

record 's gwEnv =
  gAt :: "nat \<Rightarrow> env"
  gUuid :: "string \<Rightarrow> err option"
  gNewID :: "nat \<Rightarrow> string"
  gTraceID :: string
  gRunID :: string
  gRedact :: "string \<Rightarrow> string"
  gOrder :: "string list \<Rightarrow> string list"
  gChecker :: "'s \<Rightarrow> Checker option"
  gFingerprint :: string
  gHomeDir :: string
  gPersist :: persistence
  gWriteErr :: "err option"
  gCreate :: "'s createEnv"
  gGap :: "'s agents_map \<times> 's \<Rightarrow> 's agents_map \<times> 's"
  gStatus :: "string \<Rightarrow> 's \<Rightarrow> EngineStatus"

section \<open>Parameters\<close>

definition paramStr :: "string \<Rightarrow> string \<Rightarrow> string option" where
  "paramStr f raw = (case objectOf raw of None \<Rightarrow> None | Some mems \<Rightarrow> strField f mems '''')"

definition paramInt :: "string \<Rightarrow> string \<Rightarrow> int option" where
  "paramInt f raw = (case objectOf raw of None \<Rightarrow> None | Some mems \<Rightarrow> intField f mems 0)"

text \<open>A field of type \<open>[]string\<close>; a \<open>null\<close> element is the empty text.\<close>

fun strElems :: "jval list \<Rightarrow> string list option" where
  "strElems [] = Some []"
| "strElems (JStr s # vs) = map_option (Cons s) (strElems vs)"
| "strElems (JNull # vs) = map_option (Cons '''') (strElems vs)"
| "strElems (_ # vs) = None"

fun strsField :: "string \<Rightarrow> (string \<times> jval) list \<Rightarrow> string list \<Rightarrow> string list option" where
  "strsField f [] v = Some v"
| "strsField f ((k, x) # mems) v =
    (if sameField f k then (case x of JArr vs \<Rightarrow> (case strElems vs of Some w \<Rightarrow> strsField f mems w | None \<Rightarrow> None)
                            | JNull \<Rightarrow> strsField f mems [] | _ \<Rightarrow> None)
     else strsField f mems v)"

definition paramStrs :: "string \<Rightarrow> string \<Rightarrow> string list option" where
  "paramStrs f raw = (case objectOf raw of None \<Rightarrow> None | Some mems \<Rightarrow> strsField f mems [])"

section \<open>Methods\<close>

definition failRpc :: "int \<Rightarrow> string \<Rightarrow> 's \<Rightarrow> rpcOutcome \<times> 's" where
  "failRpc code msg s = (RpcFail \<lparr>ECode = code, EMessage = msg\<rparr>, s)"

text \<open>A call whose error becomes an internal error of the protocol.\<close>

definition onStore :: "('s \<Rightarrow> (err + 'a) \<times> 's) \<Rightarrow> ('a \<Rightarrow> 's \<Rightarrow> rpcOutcome \<times> 's) \<Rightarrow> 's \<Rightarrow> rpcOutcome \<times> 's" where
  "onStore m k s = (case m s of (Inl e, s1) \<Rightarrow> failRpc ErrCodeInternal (errString e) s1 | (Inr a, s1) \<Rightarrow> k a s1)"

definition replyWith :: "('a \<Rightarrow> rpcResult) \<Rightarrow> 'a \<Rightarrow> 's \<Rightarrow> rpcOutcome \<times> 's" where
  "replyWith r a s = (RpcDone (r a), s)"

text \<open>\<open>errors.Is(err, engine.ErrQueueSaturated)\<close>.\<close>

fun isSaturated :: "err \<Rightarrow> bool" where
  "isSaturated (ErrWrap p e) = isSaturated e"
| "isSaturated e = (e = ErrQueueSaturated)"

definition chatFailed :: "err \<Rightarrow> 's \<Rightarrow> rpcOutcome \<times> 's" where
  "chatFailed er = (if isSaturated er then failRpc ErrCodeBackpressure ''queue saturated; retry later'' else failRpc ErrCodeLLM (errString er))"

text \<open>The parameters of the two chat methods: agent, session, content.\<close>

definition chatParams :: "'s gwEnv \<Rightarrow> string \<Rightarrow> string + string \<times> string \<times> string" where
  "chatParams g raw =
    (case (paramStr ''session_id'' raw, paramStr ''content'' raw, paramStr ''text'' raw, paramStr ''agent_id'' raw) of
       (Some sid, Some content, Some text, Some agent) \<Rightarrow>
         (let content1 = (if content = '''' \<and> text \<noteq> '''' then text else content) in
          if gUuid g sid \<noteq> None \<or> content1 = '''' then Inl ''session_id must be uuid and content must be non-empty''
          else Inr (if agent = '''' then ''default'' else agent, sid, content1))
     | _ \<Rightarrow> Inl ''invalid params'')"

definition tracedEnv :: "'s gwEnv \<Rightarrow> nat \<Rightarrow> env" where
  "tracedEnv g k = (gAt g k)\<lparr>ctxOf := WithTraceID (ctxOf (gAt g k)) (gTraceID g)\<rparr>"

definition rpcChat :: "('x gateway_scheme) gwEnv \<Rightarrow> 'x gateway_scheme agents_map \<Rightarrow> string \<Rightarrow> 'x gateway_scheme \<Rightarrow> rpcOutcome \<times> 'x gateway_scheme" where
  "rpcChat g reg raw s =
    (case chatParams g raw of
       Inl msg \<Rightarrow> failRpc ErrCodeInvalid msg s
     | Inr (agent, sid, content) \<Rightarrow>
        (case RegistryCreateChatTask (engines reg) (gUuid g) (tracedEnv g 1) (gNewID g 0) agent sid content s of
           (Inl er, s1) \<Rightarrow> chatFailed er s1
         | (Inr taskID, s1) \<Rightarrow> (RpcDone (RTaskCreated taskID), s1)))"

definition rpcChatStream :: "('x gateway_scheme) gwEnv \<Rightarrow> nat \<Rightarrow> 'x gateway_scheme agents_map \<Rightarrow> string \<Rightarrow> 'x gateway_scheme \<Rightarrow>
    rpcOutcome \<times> 'x gateway_scheme" where
  "rpcChatStream g c reg raw s =
    (case chatParams g raw of
       Inl msg \<Rightarrow> failRpc ErrCodeInvalid msg s
     | Inr (agent, sid, content) \<Rightarrow>
        (case RegistryStreamChatTask (engines reg) (gUuid g) (tracedEnv g 1) (gAt g 2) (gNewID g 0) (gTraceID g) (gRunID g) agent sid content
                (\<lambda>chunk s. (case gWriteErr g of None \<Rightarrow> Inr () | Some e \<Rightarrow> Inl e, sendTo c [Notify (StreamChunk chunk)] s)) s of
           ((_, Some er), s1) \<Rightarrow> chatFailed er s1
         | ((taskID, None), s1) \<Rightarrow> (RpcDone (RTaskCreated taskID), s1)))"

definition rpcAbort :: "('x gateway_scheme) gwEnv \<Rightarrow> 'x gateway_scheme agents_map \<Rightarrow> string \<Rightarrow> 'x gateway_scheme \<Rightarrow> rpcOutcome \<times> 'x gateway_scheme" where
  "rpcAbort g reg raw =
    (case paramStr ''task_id'' raw of
       None \<Rightarrow> failRpc ErrCodeInvalid ''invalid params''
     | Some i \<Rightarrow> if i = '''' then failRpc ErrCodeInvalid ''invalid params''
         else onStore (RegistryAbortTask (engines reg) (gAt g 1) i) (replyWith RAborted))"

definition rpcHistory :: "string \<Rightarrow> 'x gateway_scheme \<Rightarrow> rpcOutcome \<times> 'x gateway_scheme" where
  "rpcHistory raw =
    (case (paramStr ''session_id'' raw, paramInt ''limit'' raw) of
       (Some sid, Some limit) \<Rightarrow>
         (if sid = '''' then failRpc ErrCodeInvalid ''invalid params''
          else onStore (ListHistory sid '''' (if limit \<le> 0 \<or> limit > 100 then 100 else limit)) (replyWith RHistory))
     | _ \<Rightarrow> failRpc ErrCodeInvalid ''invalid params'')"

text \<open>Too long a replay closes the connection and answers nothing.\<close>

definition replayEvents :: "nat \<Rightarrow> string \<Rightarrow> nat \<Rightarrow> TaskEvent list \<Rightarrow> 'x gateway_scheme \<Rightarrow> rpcOutcome \<times> 'x gateway_scheme" where
  "replayEvents c sid maxEventID events s =
    (if length events > maxReplayEventsPerSubscribe
     then (RpcSilent, sendTo c [Notify (Backpressure sid maxReplayEventsPerSubscribe (length events)), Closed ''backpressure''] s)
     else (RpcDone (RSubscribed (length events) maxEventID),
           subscribeClientToSession c sid maxEventID (sendTo c (map (Notify \<circ> SessionEvent) events) s)))"

definition rpcSubscribe :: "nat \<Rightarrow> string \<Rightarrow> 'x gateway_scheme \<Rightarrow> rpcOutcome \<times> 'x gateway_scheme" where
  "rpcSubscribe c raw =
    (case (paramStr ''session_id'' raw, paramInt ''from_event_id'' raw) of
       (Some sid, Some from0) \<Rightarrow>
         (if sid = '''' then failRpc ErrCodeInvalid ''invalid params''
          else onStore (TaskEventBounds sid) (\<lambda>(minEventID, maxEventID).
            if from0 > 0 \<and> minEventID > 0 \<and> from0 < int minEventID - 1 then failRpc ErrCodeInvalid ''replay_gap''
            else onStore (ListTaskEventsFrom sid (nat from0) 1000) (replayEvents c sid maxEventID)))
     | _ \<Rightarrow> failRpc ErrCodeInvalid ''invalid params'')"

definition rpcSessions :: "string \<Rightarrow> 'x gateway_scheme \<Rightarrow> rpcOutcome \<times> 'x gateway_scheme" where
  "rpcSessions raw = onStore (ListSessions (case paramInt ''limit'' raw of None \<Rightarrow> 20 | Some l \<Rightarrow> l)) (replyWith RSessions)"

definition rpcApprovalRequest :: "('x gateway_scheme) gwEnv \<Rightarrow> string \<Rightarrow> 'x gateway_scheme \<Rightarrow> rpcOutcome \<times> 'x gateway_scheme" where
  "rpcApprovalRequest g raw s =
    (case (paramStr ''action'' raw, paramStr ''details'' raw) of
       (Some action, Some details) \<Rightarrow>
         (if trimSpace action = '''' then failRpc ErrCodeInvalid ''invalid params'' s
          else (RpcDone (RApproval (gNewID g 0) ''PENDING''),
                openApproval (gNewID g 0) (trimSpace action) (trimSpace details) (now (gAt g 1)) s))
     | _ \<Rightarrow> failRpc ErrCodeInvalid ''invalid params'' s)"

definition rpcApprovalRespond :: "string \<Rightarrow> 'x gateway_scheme \<Rightarrow> rpcOutcome \<times> 'x gateway_scheme" where
  "rpcApprovalRespond raw s =
    (case (paramStr ''approval_id'' raw, paramStr ''decision'' raw) of
       (Some i, Some decision) \<Rightarrow>
         (if i = '''' then failRpc ErrCodeInvalid ''invalid params'' s
          else case decisionOf decision of
            None \<Rightarrow> failRpc ErrCodeInvalid ''decision must be approve or deny'' s
          | Some status \<Rightarrow>
             (case findApproval i s of
                None \<Rightarrow> failRpc ErrCodeInvalid ''approval request not found'' s
              | Some _ \<Rightarrow> (RpcDone (RApproval i status), broadcast (ApprovalUpdated i status) (decideApproval i status s))))
     | _ \<Rightarrow> failRpc ErrCodeInvalid ''invalid params'' s)"

definition entryFor :: "('x gateway_scheme) gwEnv \<Rightarrow> 'x gateway_scheme agents_map \<Rightarrow> 'x gateway_scheme \<Rightarrow> AgentConfig \<Rightarrow> agentEntry" where
  "entryFor g reg s c = \<lparr>AeConfig = c, AeActiveTasks = (if map_of reg (AcAgentID c) = None then None
     else Some (StActiveTasks (gStatus g (AcAgentID c) s)))\<rparr>"

definition lastErrorOf :: "EngineStatus list \<Rightarrow> string" where
  "lastErrorOf sts = foldl (\<lambda>le st. if StLastError st \<noteq> '''' then StLastError st else le) '''' sts"

definition rpcSystemStatus :: "('x gateway_scheme) gwEnv \<Rightarrow> 'x gateway_scheme agents_map \<Rightarrow> 'x gateway_scheme \<Rightarrow> rpcOutcome \<times> 'x gateway_scheme" where
  "rpcSystemStatus g reg = onStore TaskCounts (\<lambda>(pending, running) s.
     (let sts = map (\<lambda>(i, _). gStatus g i s) reg
      in (RpcDone (RSystemStatus pending running (sum_list (map StActiveTasks sts)) (sum_list (map StWorkerCount sts)) (lastErrorOf sts)
            (map (entryFor g reg s) (ListRunning reg))), s)))"

definition versionOf :: "Checker option \<Rightarrow> string" where
  "versionOf pol = (case pol of None \<Rightarrow> '''' | Some k \<Rightarrow> chkVersion k)"

definition rpcPurge :: "('x gateway_scheme) gwEnv \<Rightarrow> string \<Rightarrow> 'x gateway_scheme \<Rightarrow> rpcOutcome \<times> 'x gateway_scheme" where
  "rpcPurge g raw s =
    (case paramStr ''session_id'' raw of
       None \<Rightarrow> failRpc ErrCodeInvalid ''invalid params: session_id required'' s
     | Some sid \<Rightarrow>
        if sid = '''' then failRpc ErrCodeInvalid ''invalid params: session_id required'' s
        else onStore (PurgeSessionPII (gAt g 1) sid (versionOf (gChecker g s)) ''user'') (replyWith (RPurged sid)) s)"

definition rpcCronAdd :: "('x gateway_scheme) gwEnv \<Rightarrow> string \<Rightarrow> 'x gateway_scheme \<Rightarrow> rpcOutcome \<times> 'x gateway_scheme" where
  "rpcCronAdd g raw s =
    (case (paramStr ''name'' raw, paramStr ''cron_expr'' raw, paramStr ''payload'' raw, paramStr ''session_id'' raw) of
       (Some name, Some expr, Some pl, Some sid0) \<Rightarrow>
         (if name = '''' \<or> expr = '''' then failRpc ErrCodeInvalid ''name and cron_expr required'' s
          else let sid = (if sid0 = '''' then gNewID g 0 else sid0) in
            case EnsureSession (gUuid g) (gAt g 1) sid s of
              (Inl er, s1) \<Rightarrow> failRpc ErrCodeInternal (''session init: '' @ errString er) s1
            | (Inr _, s1) \<Rightarrow>
                onStore (InsertSchedule (gAt g 2) (gNewID g 2) \<lparr>SchID = gNewID g 1, SchName = name, SchCronExpr = expr, SchPayload = pl,
                    SchSessionID = sid, SchEnabled = True, SchNextRunAt = None, SchLastRunAt = None, SchCreatedAt = GoTs 0, SchUpdatedAt = GoTs 0\<rparr>)
                  (\<lambda>_ s. (RpcDone (RScheduleID (gNewID g 1)), s)) s1)
     | _ \<Rightarrow> failRpc ErrCodeInvalid ''name and cron_expr required'' s)"

text \<open>The three methods that name a schedule.\<close>

definition onSchedule :: "string \<Rightarrow> (string \<Rightarrow> 's \<Rightarrow> (err + unit) \<times> 's) \<Rightarrow> rpcResult \<Rightarrow> 's \<Rightarrow> rpcOutcome \<times> 's" where
  "onSchedule raw f r =
    (case paramStr ''schedule_id'' raw of
       None \<Rightarrow> failRpc ErrCodeInvalid ''schedule_id required''
     | Some i \<Rightarrow> if i = '''' then failRpc ErrCodeInvalid ''schedule_id required'' else onStore (f i) (\<lambda>_ s. (RpcDone r, s)))"

definition rpcSubtaskList :: "string \<Rightarrow> 'x gateway_scheme \<Rightarrow> rpcOutcome \<times> 'x gateway_scheme" where
  "rpcSubtaskList raw =
    (case paramStr ''parent_task_id'' raw of
       None \<Rightarrow> failRpc ErrCodeInvalid ''parent_task_id required''
     | Some i \<Rightarrow> if i = '''' then failRpc ErrCodeInvalid ''parent_task_id required'' else onStore (GetSubtasks i) (replyWith RSubtasks))"

definition rpcSubtaskCreate :: "('x gateway_scheme) gwEnv \<Rightarrow> string \<Rightarrow> 'x gateway_scheme \<Rightarrow> rpcOutcome \<times> 'x gateway_scheme" where
  "rpcSubtaskCreate g raw s =
    (case (paramStr ''parent_task_id'' raw, paramStr ''session_id'' raw, paramStr ''payload'' raw, paramInt ''priority'' raw) of
       (Some par, Some sid0, Some pl, Some prio) \<Rightarrow>
         (if par = '''' \<or> pl = '''' then failRpc ErrCodeInvalid ''parent_task_id and payload required'' s
          else let sid = (if sid0 = '''' then gNewID g 0 else sid0) in
            case EnsureSession (gUuid g) (gAt g 1) sid s of
              (Inl er, s1) \<Rightarrow> failRpc ErrCodeInternal (''session init: '' @ errString er) s1
            | (Inr _, s1) \<Rightarrow> onStore (CreateSubtask (gAt g 2) (gNewID g 1) par sid pl prio) (replyWith RTaskCreated) s1)
     | _ \<Rightarrow> failRpc ErrCodeInvalid ''parent_task_id and payload required'' s)"

definition agentParams :: "string \<Rightarrow> AgentConfig option" where
  "agentParams raw =
    (case (paramStr ''agent_id'' raw, paramStr ''display_name'' raw, paramStr ''provider'' raw, paramStr ''model'' raw) of
       (Some i, Some dn, Some pr, Some mo) \<Rightarrow>
         (case (paramStr ''api_key'' raw, paramStr ''api_key_env'' raw, paramStr ''soul'' raw, paramInt ''worker_count'' raw,
                paramInt ''task_timeout_seconds'' raw, paramInt ''max_queue_depth'' raw, paramStrs ''skills_filter'' raw) of
            (Some key, Some kenv, Some so, Some wc, Some tt, Some mq, Some sf) \<Rightarrow>
              Some \<lparr>AcAgentID = i, AcDisplayName = dn, AcProvider = pr, AcModel = mo, AcAPIKey = key, AcAPIKeyEnv = kenv, AcSoul = so,
                AcAgentEmoji = '''', AcWorkerCount = wc, AcTaskTimeoutSeconds = tt, AcMaxQueueDepth = mq, AcSkillsFilter = sf,
                AcPolicyOverrides = None, AcPreferredSearch = '''', AcCompatProvider = '''', AcCompatBaseURL = ''''\<rparr>
          | _ \<Rightarrow> None)
     | _ \<Rightarrow> None)"

definition rpcAgentCreate :: "('x gateway_scheme) gwEnv \<Rightarrow> string \<Rightarrow> 'x gateway_scheme agents_map \<times> 'x gateway_scheme \<Rightarrow>
    rpcOutcome \<times> 'x gateway_scheme agents_map \<times> 'x gateway_scheme" where
  "rpcAgentCreate g raw rs =
    (case agentParams raw of
       None \<Rightarrow> (RpcFail \<lparr>ECode = ErrCodeInvalid, EMessage = ''agent_id is required''\<rparr>, rs)
     | Some c \<Rightarrow>
        if AcAgentID c = '''' then (RpcFail \<lparr>ECode = ErrCodeInvalid, EMessage = ''agent_id is required''\<rparr>, rs)
        else (case CreateAgentIn (gCreate g) (gGap g) c rs of
                (Some er, rs1) \<Rightarrow> (RpcFail \<lparr>ECode = ErrCodeInternal, EMessage = errString er\<rparr>, rs1)
              | (None, rs1) \<Rightarrow> (RpcDone (RAgentActive (AcAgentID c)), rs1)))"

definition rpcAgentRemove :: "('x gateway_scheme) gwEnv \<Rightarrow> string \<Rightarrow> 'x gateway_scheme agents_map \<times> 'x gateway_scheme \<Rightarrow>
    rpcOutcome \<times> 'x gateway_scheme agents_map \<times> 'x gateway_scheme" where
  "rpcAgentRemove g raw rs =
    (case paramStr ''agent_id'' raw of
       None \<Rightarrow> (RpcFail \<lparr>ECode = ErrCodeInvalid, EMessage = ''agent_id is required''\<rparr>, rs)
     | Some i \<Rightarrow>
        if i = '''' then (RpcFail \<lparr>ECode = ErrCodeInvalid, EMessage = ''agent_id is required''\<rparr>, rs)
        else (case RemoveAgentFrom (gAt g 1) i rs of
                (Some er, rs1) \<Rightarrow> (RpcFail \<lparr>ECode = ErrCodeInternal, EMessage = errString er\<rparr>, rs1)
              | (None, rs1) \<Rightarrow> (RpcDone (RAgentRemoved i), rs1)))"

definition rpcIncident :: "('x gateway_scheme) gwEnv \<Rightarrow> string \<Rightarrow> 'x gateway_scheme \<Rightarrow> rpcOutcome \<times> 'x gateway_scheme" where
  "rpcIncident g raw =
    (case paramStr ''task_id'' raw of
       None \<Rightarrow> failRpc ErrCodeInvalid ''task_id is required''
     | Some i \<Rightarrow> if i = '''' then failRpc ErrCodeInvalid ''task_id is required''
         else onStore (ExportIncident (gOrder g) (gAt g 1) i (gFingerprint g)) (replyWith RIncident))"

definition maskKey :: "string \<Rightarrow> string" where
  "maskKey v = (if length v > 4 then take 4 v @ ''****'' else ''****'')"

definition rpcConfigList :: "'x gateway_scheme \<Rightarrow> rpcOutcome \<times> 'x gateway_scheme" where
  "rpcConfigList s = (RpcDone (RAPIKeys (case appCfg s of None \<Rightarrow> [] | Some c \<Rightarrow> map (\<lambda>(k, v). (k, maskKey v)) (CfgAPIKeys c))), s)"

definition rpcConfigSet :: "('x gateway_scheme) gwEnv \<Rightarrow> string \<Rightarrow> 'x gateway_scheme \<Rightarrow> rpcOutcome \<times> 'x gateway_scheme" where
  "rpcConfigSet g raw s =
    (case (paramStr ''key'' raw, paramStr ''value'' raw) of
       (Some key, Some v) \<Rightarrow>
         (if key = '''' \<or> v = '''' then failRpc ErrCodeInvalid ''key and value are required'' s
          else if gHomeDir g = '''' then failRpc ErrCodeInternal ''home dir not configured'' s
          else case SetAPIKey (configFile s) (gHomeDir g) key v of
                 (Inl er, io) \<Rightarrow> failRpc ErrCodeInternal (errString er) (s\<lparr>configFile := io\<rparr>)
               | (Inr _, io) \<Rightarrow> (RpcDone (RKeySaved key), s\<lparr>configFile := io, appCfg := map_option (setKey key v) (appCfg s)\<rparr>))
     | _ \<Rightarrow> failRpc ErrCodeInvalid ''key and value are required'' s)"

definition rpcModelSet :: "('x gateway_scheme) gwEnv \<Rightarrow> string \<Rightarrow> 'x gateway_scheme \<Rightarrow> rpcOutcome \<times> 'x gateway_scheme" where
  "rpcModelSet g raw s =
    (case (paramStr ''provider'' raw, paramStr ''model'' raw) of
       (Some provider0, Some model) \<Rightarrow>
         (if model = '''' then failRpc ErrCodeInvalid ''model is required'' s
          else if gHomeDir g = '''' then failRpc ErrCodeInternal ''home dir not configured'' s
          else let provider = (if provider0 = '''' then ''google'' else provider0) in
            case SetModel (configFile s) (gHomeDir g) provider model of
              (Inl er, io) \<Rightarrow> failRpc ErrCodeInternal (errString er) (s\<lparr>configFile := io\<rparr>)
            | (Inr _, io) \<Rightarrow> (RpcDone (RModelSaved provider model), s\<lparr>configFile := io,
                appCfg := map_option (\<lambda>c. c\<lparr>CfgLLMProvider := provider, CfgGeminiModel := model\<rparr>) (appCfg s)\<rparr>))
     | _ \<Rightarrow> failRpc ErrCodeInvalid ''model is required'' s)"

definition rpcDomainAdd :: "('x gateway_scheme) gwEnv \<Rightarrow> string \<Rightarrow> 'x gateway_scheme \<Rightarrow> rpcOutcome \<times> 'x gateway_scheme" where
  "rpcDomainAdd g raw s =
    (case paramStr ''domain'' raw of
       None \<Rightarrow> failRpc ErrCodeInvalid ''domain is required'' s
     | Some d \<Rightarrow>
        if d = '''' then failRpc ErrCodeInvalid ''domain is required'' s
        else (case livePolicy s of
                None \<Rightarrow> failRpc ErrCodeInternal ''policy not available'' s
              | Some lp \<Rightarrow>
                 (case AllowDomain (gPersist g) d lp of
                    (Inl er, lp1) \<Rightarrow> failRpc ErrCodeInternal (errString er) (s\<lparr>livePolicy := Some lp1\<rparr>)
                  | (Inr _, lp1) \<Rightarrow> (RpcDone (RDomainAllowed d), s\<lparr>livePolicy := Some lp1\<rparr>))))"

definition rpcAgentStatus :: "('x gateway_scheme) gwEnv \<Rightarrow> 'x gateway_scheme agents_map \<Rightarrow> string \<Rightarrow> 'x gateway_scheme \<Rightarrow> rpcOutcome \<times> 'x gateway_scheme" where
  "rpcAgentStatus g reg raw s =
    (case paramStr ''agent_id'' raw of
       None \<Rightarrow> failRpc ErrCodeInvalid ''agent_id is required'' s
     | Some i \<Rightarrow>
        if i = '''' then failRpc ErrCodeInvalid ''agent_id is required'' s
        else if map_of reg i = None then failRpc ErrCodeInternal (errString (runningNotFound i)) s
        else let st = gStatus g i s in (RpcDone (RAgentStatus i (StWorkerCount st) (StActiveTasks st) (StLastError st)), s))"

section \<open>Dispatch\<close>

text \<open>The methods that leave the map of running agents alone.\<close>

definition dispatch :: "('x gateway_scheme) gwEnv \<Rightarrow> nat \<Rightarrow> 'x gateway_scheme agents_map \<Rightarrow> string \<Rightarrow> string \<Rightarrow> 'x gateway_scheme \<Rightarrow>
    rpcOutcome \<times> 'x gateway_scheme" where
  "dispatch g c reg m raw =
    (if m = ''system.hello'' then (\<lambda>s. (RpcDone RHello, markHandshaken c s))
     else if m = ''agent.chat'' then rpcChat g reg raw
     else if m = ''agent.chat.stream'' then rpcChatStream g c reg raw
     else if m = ''agent.abort'' then rpcAbort g reg raw
     else if m = ''session.history'' then rpcHistory raw
     else if m = ''session.events.subscribe'' then rpcSubscribe c raw
     else if m = ''session.list'' then rpcSessions raw
     else if m = ''approval.request'' then rpcApprovalRequest g raw
     else if m = ''approval.respond'' then rpcApprovalRespond raw
     else if m = ''approval.list'' then (\<lambda>s. (RpcDone (RApprovals (approvals s)), s))
     else if m = ''system.status'' then rpcSystemStatus g reg
     else if m = ''session.purge'' then rpcPurge g raw
     else if m = ''cron.list'' then onStore ListSchedules (replyWith RSchedules)
     else if m = ''cron.add'' then rpcCronAdd g raw
     else if m = ''cron.remove'' then onSchedule raw DeleteSchedule RScheduleDeleted
     else if m = ''cron.enable'' then onSchedule raw (\<lambda>i. EnableSchedule (gAt g 1) i True) RScheduleEnabled
     else if m = ''cron.disable'' then onSchedule raw (\<lambda>i. EnableSchedule (gAt g 1) i False) RScheduleDisabled
     else if m = ''subtask.list'' then rpcSubtaskList raw
     else if m = ''subtask.create'' then rpcSubtaskCreate g raw
     else if m = ''incident.export'' then rpcIncident g raw
     else if m = ''config.list'' then rpcConfigList
     else if m = ''config.set'' then rpcConfigSet g raw
     else if m = ''config.model.set'' then rpcModelSet g raw
     else if m = ''policy.domain.add'' then rpcDomainAdd g raw
     else if m = ''agent.list'' then (\<lambda>s. (RpcDone (RAgents (map (entryFor g reg s) (ListRunning reg))), s))
     else if m = ''agent.status'' then rpcAgentStatus g reg raw
     else failRpc ErrCodeMethodNotFound (''method not found: '' @ m))"

definition runMethod :: "('x gateway_scheme) gwEnv \<Rightarrow> nat \<Rightarrow> string \<Rightarrow> string \<Rightarrow> 'x gateway_scheme agents_map \<times> 'x gateway_scheme \<Rightarrow>
    rpcOutcome \<times> 'x gateway_scheme agents_map \<times> 'x gateway_scheme" where
  "runMethod g c m raw rs =
    (if m = ''agent.create'' then rpcAgentCreate g raw rs
     else if m = ''agent.remove'' then rpcAgentRemove g raw rs
     else case rs of (reg, s) \<Rightarrow> (case dispatch g c reg m raw s of (out, s1) \<Rightarrow> (out, reg, s1)))"

text \<open>The gate: the required capability, and its audit. The text is the refusal.\<close>

definition methodGate :: "('x gateway_scheme) gwEnv \<Rightarrow> string \<Rightarrow> 'x gateway_scheme \<Rightarrow> string option \<times> 'x gateway_scheme" where
  "methodGate g m s =
    (let cap = requiredCapabilityForMethod m in
     if cap = '''' then (None, s)
     else case gChecker g s of
       Some k \<Rightarrow>
         if chkCapability k cap then (None, Record (gRedact g) (gAt g 0) ''allow'' cap ''capability_granted'' (chkVersion k) m s)
         else (Some (''policy denied capability '' @ quoteGo cap), Record (gRedact g) (gAt g 0) ''deny'' cap ''missing_capability'' (chkVersion k) m s)
     | None \<Rightarrow> (Some (''policy denied capability '' @ quoteGo cap), Record (gRedact g) (gAt g 0) ''deny'' cap ''missing_capability'' '''' m s))"

definition respond :: "jval option \<Rightarrow> rpcOutcome \<Rightarrow> rpcResponse option" where
  "respond i out = (case i of None \<Rightarrow> None
    | Some v \<Rightarrow> (case out of RpcSilent \<Rightarrow> None | RpcFail e \<Rightarrow> Some \<lparr>RpID = v, RpBody = Inl e\<rparr> | RpcDone r \<Rightarrow> Some \<lparr>RpID = v, RpBody = Inr r\<rparr>))"

definition handleRPC :: "('x gateway_scheme) gwEnv \<Rightarrow> nat \<Rightarrow> rpcRequest \<Rightarrow> 'x gateway_scheme agents_map \<times> 'x gateway_scheme \<Rightarrow>
    rpcResponse option \<times> 'x gateway_scheme agents_map \<times> 'x gateway_scheme" where
  "handleRPC g c req rs =
    (let i = decodeID (RqID req) in
     if RqVersion req \<noteq> ''2.0'' \<or> RqMethod req = ''''
     then (respond i (RpcFail \<lparr>ECode = ErrCodeInvalidRequest, EMessage = ''invalid JSON-RPC request''\<rparr>), rs)
     else if isMutatingMethod (RqMethod req) \<and> \<not> isHandshaken c (snd rs)
     then (respond i (RpcFail \<lparr>ECode = ErrCodeInvalidRequest, EMessage = ''system.hello required before mutating calls''\<rparr>), rs)
     else case methodGate g (RqMethod req) (snd rs) of
       (Some msg, s1) \<Rightarrow> (respond i (RpcFail \<lparr>ECode = ErrCodeInvalid, EMessage = msg\<rparr>), fst rs, s1)
     | (None, s1) \<Rightarrow> (case runMethod g c (RqMethod req) (RqParams req) (fst rs, s1) of (out, rs1) \<Rightarrow> (respond i out, rs1)))"

end
