(* ===== verification/Gateway_Http.thy ===== *)
theory Gateway_Http
  imports Gateway_Rpc Plan_Executor
begin

text \<open>
  The HTTP side of the gateway (\<open>internal/gateway/gateway.go\<close>, \<open>auth.go\<close>, \<open>ratelimit.go\<close>, \<open>cors.go\<close>,
  \<open>a2a.go\<close>): the middleware, the routes and the REST handlers. A request is a record of the parts of
  \<open>http.Request\<close> the handlers read (the first value of a header or a query parameter, the empty text when
  there is none); a response is its status and a body that holds the values the handler encodes. The
  memory statistics and the WASM host in the metrics, and the third-party toolchain in \<open>/healthz\<close>, are
  left out. The goroutine of \<open>handleExecutePlan\<close> is the third part of its result, and \<open>runLaunched\<close> runs
  it. Tokens of a bucket are exact rationals; clocks count nanoseconds.
\<close>

section \<open>Requests and responses\<close>

record httpRequest =
  HMethod :: string
  HPath :: string
  HAuthorization :: string
  HApiKey :: string
  HOrigin :: string
  HQuery :: "string \<Rightarrow> string"
  HBody :: string
  HContentLength :: int
  HRemoteAddr :: string

record A2ASkill =
  A2AID :: string
  A2AName :: string
  A2ATags :: "string list"

record healthPayload =
  HpDbOK :: bool
  HpPolicyVersion :: string
  HpReplayBacklog :: nat
  HpAgentCount :: nat
  HpBusDropped :: nat

record metricsPayload =
  MpCounts :: MetricsCountsRec
  MpActiveLanes :: int
  MpPolicyDenyRate :: nat
  MpAgentCount :: nat
  MpAgentMessages :: nat
  MpDelegations :: nat
  MpBusDropped :: nat
  MpAgents :: "EngineStatus list"

datatype httpBody =
    BEmpty
  | BText string
  | BTasks "Task list" nat
  | BTask Task
  | BSessions "SessionRec list"
  | BMessages "HistoryItem list"
  | BSkills "string list"
  | BConfig string string
  | BPlans "(string \<times> nat \<times> string list) list"
  | BExecution string string string
  | BHealth healthPayload
  | BMetrics metricsPayload
  | BCard "A2ASkill list"

record httpResponse =
  HStatus :: nat
  HPayload :: httpBody
  HHeaders :: "(string \<times> string) list"

definition httpError :: "nat \<Rightarrow> string \<Rightarrow> httpResponse" where
  "httpError status msg = \<lparr>HStatus = status, HPayload = BText msg, HHeaders = []\<rparr>"

definition httpOK :: "httpBody \<Rightarrow> httpResponse" where
  "httpOK b = \<lparr>HStatus = 200, HPayload = b, HHeaders = [(''Content-Type'', ''application/json'')]\<rparr>"

definition trimPrefix :: "string \<Rightarrow> string \<Rightarrow> string" where
  "trimPrefix p s = (if prefix p s then drop (length p) s else s)"

definition trimSuffix :: "string \<Rightarrow> string \<Rightarrow> string" where
  "trimSuffix p s = (if suffix p s then take (length s - length p) s else s)"

section \<open>API keys\<close>

definition NewAuthMiddleware :: "AuthConfig \<Rightarrow> (string \<times> APIKeyEntry) list" where
  "NewAuthMiddleware cfg = rev (map (\<lambda>k. (KeyText k, k)) (AuthKeys cfg))"

definition ExtractAPIKey :: "httpRequest \<Rightarrow> string" where
  "ExtractAPIKey r =
    (if prefix ''Bearer '' (HAuthorization r) then trimPrefix ''Bearer '' (HAuthorization r)
     else if HApiKey r \<noteq> '''' then HApiKey r else HQuery r ''api_key'')"

definition openPath :: "string \<Rightarrow> bool" where
  "openPath p \<longleftrightarrow> p = ''/healthz'' \<or> p = ''/metrics'' \<or> p = ''/metrics/prometheus''"

definition authWrap :: "AuthConfig \<Rightarrow> (httpRequest \<Rightarrow> 's \<Rightarrow> httpResponse \<times> 's) \<Rightarrow> httpRequest \<Rightarrow> 's \<Rightarrow> httpResponse \<times> 's" where
  "authWrap cfg next r s =
    (if \<not> AuthEnabled cfg \<or> openPath (HPath r) then next r s
     else let key = ExtractAPIKey r in
       if key = '''' then (httpError 401 ''{\"error\":\"missing API key\"}'', s)
       else if map_of (NewAuthMiddleware cfg) key = None then (httpError 403 ''{\"error\":\"invalid API key\"}'', s)
       else next r s)"

section \<open>Rate limits\<close>

record TokenBucket =
  tokens :: rat
  maxTokens :: rat
  refillRate :: rat
  lastRefill :: nat
  lastAccess :: nat

definition NewTokenBucket :: "nat \<Rightarrow> int \<Rightarrow> int \<Rightarrow> TokenBucket" where
  "NewTokenBucket t requestsPerMinute burstSize =
    \<lparr>tokens = of_int burstSize, maxTokens = of_int burstSize, refillRate = of_int requestsPerMinute / 60, lastRefill = t, lastAccess = t\<rparr>"

definition refill :: "nat \<Rightarrow> TokenBucket \<Rightarrow> rat" where
  "refill t tb = min (maxTokens tb) (tokens tb + (of_nat t - of_nat (lastRefill tb)) / 10^9 * refillRate tb)"

definition Allow :: "nat \<Rightarrow> TokenBucket \<Rightarrow> bool \<times> TokenBucket" where
  "Allow t tb =
    (let n = refill t tb in
     (n \<ge> 1, tb\<lparr>tokens := (if n \<ge> 1 then n - 1 else n), lastRefill := t, lastAccess := t\<rparr>))"

type_synonym buckets = "(string \<times> TokenBucket) list"

definition NewRateLimitMiddleware :: "RateLimitConfig \<Rightarrow> RateLimitConfig" where
  "NewRateLimitMiddleware cfg =
    \<lparr>RateEnabled = RateEnabled cfg,
     RequestsPerMinute = (if RequestsPerMinute cfg = 0 then 60 else RequestsPerMinute cfg),
     BurstSize = (if BurstSize cfg = 0 then 10 else BurstSize cfg)\<rparr>"

definition EvictStale :: "nat \<Rightarrow> nat \<Rightarrow> buckets \<Rightarrow> buckets" where
  "EvictStale t maxAge bs = filter (\<lambda>(k, tb). \<not> lastAccess tb + maxAge < t) bs"

definition getBucket :: "RateLimitConfig \<Rightarrow> nat \<Rightarrow> string \<Rightarrow> buckets \<Rightarrow> TokenBucket" where
  "getBucket cfg t key bs = (case map_of bs key of Some tb \<Rightarrow> tb | None \<Rightarrow> NewTokenBucket t (RequestsPerMinute cfg) (BurstSize cfg))"

definition rateKey :: "httpRequest \<Rightarrow> string" where
  "rateKey r = (if ExtractAPIKey r = '''' then HRemoteAddr r else ExtractAPIKey r)"

definition takeToken :: "RateLimitConfig \<Rightarrow> nat \<Rightarrow> string \<Rightarrow> buckets \<Rightarrow> bool \<times> buckets" where
  "takeToken cfg t key bs = (case Allow t (getBucket cfg t key bs) of (ok, tb) \<Rightarrow> (ok, AList.update key tb bs))"

definition limitWrap :: "RateLimitConfig \<Rightarrow> nat \<Rightarrow> (httpRequest \<Rightarrow> 's \<Rightarrow> httpResponse \<times> 's) \<Rightarrow>
    httpRequest \<Rightarrow> buckets \<times> 's \<Rightarrow> httpResponse \<times> buckets \<times> 's" where
  "limitWrap cfg0 t next r bs =
    (let cfg = NewRateLimitMiddleware cfg0 in
     if \<not> RateEnabled cfg \<or> openPath (HPath r) then (case next r (snd bs) of (resp, s1) \<Rightarrow> (resp, fst bs, s1))
     else case takeToken cfg t (rateKey r) (fst bs) of
       (False, b1) \<Rightarrow> ((httpError 429 ''{\"error\":\"rate limit exceeded\"}'')\<lparr>HHeaders := [(''Retry-After'', ''1'')]\<rparr>, b1, snd bs)
     | (True, b1) \<Rightarrow> (case next r (snd bs) of (resp, s1) \<Rightarrow> (resp, b1, s1)))"

section \<open>Origins and sizes\<close>

fun joinComma :: "string list \<Rightarrow> string" where
  "joinComma [] = ''''"
| "joinComma [x] = x"
| "joinComma (x # y # ys) = x @ '', '' @ joinComma (y # ys)"

definition corsHeaders :: "CORSConfig \<Rightarrow> string \<Rightarrow> (string \<times> string) list" where
  "corsHeaders cfg origin =
    (if origin \<noteq> '''' \<and> (''*'' \<in> set (AllowedOrigins cfg) \<or> origin \<in> set (AllowedOrigins cfg)) then
      [(''Access-Control-Allow-Origin'', origin),
       (''Access-Control-Allow-Methods'', joinComma (if AllowedMethods cfg = [] then [''GET'', ''POST'', ''OPTIONS''] else AllowedMethods cfg)),
       (''Access-Control-Allow-Headers'',
         joinComma (if AllowedHeaders cfg = [] then [''Content-Type'', ''Authorization'', ''X-API-Key''] else AllowedHeaders cfg)),
       (''Access-Control-Max-Age'', itoa (if MaxAge cfg = 0 then 3600 else MaxAge cfg))]
     else [])"

definition corsWrap :: "CORSConfig \<Rightarrow> (httpRequest \<Rightarrow> 's \<Rightarrow> httpResponse \<times> 's) \<Rightarrow> httpRequest \<Rightarrow> 's \<Rightarrow> httpResponse \<times> 's" where
  "corsWrap cfg next r s =
    (if \<not> CorsEnabled cfg then next r s
     else if HMethod r = ''OPTIONS'' then (\<lparr>HStatus = 204, HPayload = BEmpty, HHeaders = corsHeaders cfg (HOrigin r)\<rparr>, s)
     else case next r s of (resp, s1) \<Rightarrow> (resp\<lparr>HHeaders := corsHeaders cfg (HOrigin r) @ HHeaders resp\<rparr>, s1))"

text \<open>\<open>http.MaxBytesReader\<close>: what a handler can read of the body; a value cut off by it does not decode.\<close>

definition sizeWrap :: "int \<Rightarrow> (httpRequest \<Rightarrow> 's \<Rightarrow> httpResponse \<times> 's) \<Rightarrow> httpRequest \<Rightarrow> 's \<Rightarrow> httpResponse \<times> 's" where
  "sizeWrap maxBytes0 next r =
    (let maxBytes = (if maxBytes0 \<le> 0 then 10 * 1024 * 1024 else maxBytes0) in next (r\<lparr>HBody := take (nat maxBytes) (HBody r)\<rparr>))"

text \<open>\<open>buildHandler\<close>: the size first, then origins, keys and rates.\<close>

definition buildHandler :: "GatewaySecurityConfig \<Rightarrow> nat \<Rightarrow> (httpRequest \<Rightarrow> 's \<Rightarrow> httpResponse \<times> 's) \<Rightarrow>
    httpRequest \<Rightarrow> buckets \<times> 's \<Rightarrow> httpResponse \<times> buckets \<times> 's" where
  "buildHandler cfg t mux =
    sizeWrap (GsMaxRequestSize cfg) (corsWrap (GsCORS cfg) (authWrap (GsAuth cfg) (limitWrap (GsRateLimit cfg) t mux)))"

section \<open>Handlers\<close>

record 's httpEnv =
  heGw :: "'s gwEnv"
  heToken :: string
  heSkillsStatus :: "('s \<Rightarrow> err + string list) option"
  heExecutor :: "'s Executor option"

text \<open>What a handler starts in the background: a plan, its session and its execution.\<close>

record launch =
  LaPlan :: Plan
  LaSession :: string
  LaExecution :: string

definition getOnly :: "string \<Rightarrow> httpRequest \<Rightarrow> ('s \<Rightarrow> httpResponse \<times> 's) \<Rightarrow> 's \<Rightarrow> httpResponse \<times> 's" where
  "getOnly token r h s =
    (if HMethod r \<noteq> ''GET'' then (httpError 405 ''method not allowed'', s)
     else if \<not> authorize token (HAuthorization r) then (httpError 401 ''unauthorized'', s)
     else h s)"

definition withStore :: "nat \<Rightarrow> ('s \<Rightarrow> (err + 'a) \<times> 's) \<Rightarrow> ('a \<Rightarrow> httpBody) \<Rightarrow> 's \<Rightarrow> httpResponse \<times> 's" where
  "withStore status m k s = (case m s of (Inl e, s1) \<Rightarrow> (httpError status (errString e), s1) | (Inr a, s1) \<Rightarrow> (httpOK (k a), s1))"

text \<open>A number of the query that is at least \<open>least\<close>, or the default.\<close>

definition queryInt :: "httpRequest \<Rightarrow> string \<Rightarrow> int \<Rightarrow> int \<Rightarrow> int" where
  "queryInt r f least d = (if HQuery r f = '''' then d else case Atoi (HQuery r f) of None \<Rightarrow> d | Some n \<Rightarrow> if n \<ge> least then n else d)"

definition handleAPITasks :: "string \<Rightarrow> httpRequest \<Rightarrow> 'x gateway_scheme \<Rightarrow> httpResponse \<times> 'x gateway_scheme" where
  "handleAPITasks token r = getOnly token r
    (withStore 500 (ListTasksPaginated (HQuery r ''status'') (queryInt r ''limit'' 1 20) (queryInt r ''offset'' 0 0)) (\<lambda>(ts, total). BTasks ts total))"

definition handleAPITaskByID :: "string \<Rightarrow> httpRequest \<Rightarrow> 'x gateway_scheme \<Rightarrow> httpResponse \<times> 'x gateway_scheme" where
  "handleAPITaskByID token r = getOnly token r
    (let taskID = trimPrefix ''/api/tasks/'' (HPath r) in
     if taskID = '''' then Pair (httpError 400 ''task_id required'') else withStore 404 (GetTask taskID) BTask)"

definition handleAPISessions :: "string \<Rightarrow> httpRequest \<Rightarrow> 'x gateway_scheme \<Rightarrow> httpResponse \<times> 'x gateway_scheme" where
  "handleAPISessions token r = getOnly token r (withStore 500 (ListSessions (queryInt r ''limit'' 1 20)) BSessions)"

definition slashByte :: char where
  "slashByte = CHR ''/''"

text \<open>\<open>strings.SplitN(path, "/", 2)\<close>: the text before the first slash and, if there is one, the text after it.\<close>

definition handleAPISessionMessages :: "string \<Rightarrow> httpRequest \<Rightarrow> 'x gateway_scheme \<Rightarrow> httpResponse \<times> 'x gateway_scheme" where
  "handleAPISessionMessages token r = getOnly token r
    (let path = trimPrefix ''/api/sessions/'' (HPath r); sid = takeWhile (\<lambda>c. c \<noteq> slashByte) path; rest = dropWhile (\<lambda>c. c \<noteq> slashByte) path in
     if rest \<noteq> slashByte # ''messages'' \<or> sid = '''' then Pair (httpError 400 ''invalid path: expected /api/sessions/{id}/messages'')
     else withStore 500 (ListHistory sid '''' (queryInt r ''limit'' 1 100)) BMessages)"

definition handleAPISkills :: "'x gateway_scheme httpEnv \<Rightarrow> httpRequest \<Rightarrow> 'x gateway_scheme \<Rightarrow> httpResponse \<times> 'x gateway_scheme" where
  "handleAPISkills h r = getOnly (heToken h) r
    (case heSkillsStatus h of None \<Rightarrow> Pair (httpOK (BSkills []))
     | Some st \<Rightarrow> withStore 500 (\<lambda>s. (st s, s)) BSkills)"

definition handleAPIConfig :: "'x gateway_scheme httpEnv \<Rightarrow> httpRequest \<Rightarrow> 'x gateway_scheme \<Rightarrow> httpResponse \<times> 'x gateway_scheme" where
  "handleAPIConfig h r = getOnly (heToken h) r
    (\<lambda>s. (httpOK (BConfig (gFingerprint (heGw h)) (versionOf (gChecker (heGw h) s))), s))"

definition handleAPIPlans :: "string \<Rightarrow> httpRequest \<Rightarrow> 'x gateway_scheme \<Rightarrow> httpResponse \<times> 'x gateway_scheme" where
  "handleAPIPlans token r s =
    (if \<not> authorize token (HAuthorization r) then (httpError 401 ''unauthorized'', s) else (httpOK (BPlans (planSummaries s)), s))"

text \<open>\<open>json.NewDecoder(r.Body).Decode\<close>: the first value of the body; what follows is not read.\<close>

definition decodeFirst :: "string \<Rightarrow> (string \<times> jval) list option" where
  "decodeFirst s = (case parseVal (Suc (Suc (length s))) s of Some (JObj mems, _) \<Rightarrow> Some mems | Some (JNull, _) \<Rightarrow> Some [] | _ \<Rightarrow> None)"

definition planRequest :: "httpRequest \<Rightarrow> string option" where
  "planRequest r =
    (if HContentLength r > 0 then (case decodeFirst (HBody r) of None \<Rightarrow> None | Some mems \<Rightarrow> strField ''session_id'' mems '''') else Some '''')"

definition planNameOf :: "httpRequest \<Rightarrow> string" where
  "planNameOf r = trimSuffix ''/execute'' (trimPrefix ''/api/plans/'' (HPath r))"

definition handleExecutePlan :: "'x gateway_scheme httpEnv \<Rightarrow> httpRequest \<Rightarrow> 'x gateway_scheme \<Rightarrow>
    httpResponse \<times> launch option \<times> 'x gateway_scheme" where
  "handleExecutePlan h r s =
    (let g = heGw h; planName = planNameOf r; executionID = gNewID g 1 in
     if \<not> authorize (heToken h) (HAuthorization r) then (httpError 401 ''unauthorized'', None, s)
     else if planName = '''' then (httpError 400 ''plan name required'', None, s)
     else case planRequest r of
       None \<Rightarrow> (httpError 400 ''invalid request body'', None, s)
     | Some sid0 \<Rightarrow>
        (let sid = (if sid0 = '''' then gNewID g 0 else sid0) in
         case map_of (plansMap s) planName of
           None \<Rightarrow> (httpError 404 (''plan '' @ quoteGo planName @ '' not found''), None, s)
         | Some plan \<Rightarrow>
            if heExecutor h = None then (httpError 503 ''plan executor unavailable'', None, s)
            else case EnsureSession (gUuid g) (gAt g 1) sid s of
              (Inl _, s1) \<Rightarrow> (httpError 500 ''failed to start plan execution'', None, s1)
            | (Inr _, s1) \<Rightarrow>
               (case CreatePlanExecution (gAt g 2) executionID planName sid (int (length (Steps plan))) s1 of
                  (Inl _, s2) \<Rightarrow> (httpError 500 ''failed to start plan execution'', None, s2)
                | (Inr _, s2) \<Rightarrow> ((httpOK (BExecution executionID sid planName))\<lparr>HStatus := 202\<rparr>,
                    Some \<lparr>LaPlan = plan, LaSession = sid, LaExecution = executionID\<rparr>, s2))))"

text \<open>The goroutine: the execution, and the end of its row; the error of the latter is dropped.\<close>

definition runLaunched :: "'x gateway_scheme Executor \<Rightarrow> 'x gateway_scheme schedule \<Rightarrow> env \<Rightarrow> env \<Rightarrow> string \<Rightarrow> (nat \<Rightarrow> string) \<Rightarrow>
    launch \<Rightarrow> 'x gateway_scheme \<Rightarrow> 'x gateway_scheme" where
  "runLaunched x sch e0 e1 newID uuids l s =
    (case Execute x sch e0 newID uuids (LaPlan l) (LaSession l) (LaExecution l) s of
       ((res, Some er), s1) \<Rightarrow> snd (CompletePlanExecution e1 (LaExecution l) ''failed'' 0 s1)
     | ((res, None), s1) \<Rightarrow> snd (CompletePlanExecution e1 (LaExecution l) ''succeeded'' (case res of None \<Rightarrow> 0 | Some r \<Rightarrow> TotalCost r) s1))"

definition handleAPIPlansRoute :: "'x gateway_scheme httpEnv \<Rightarrow> httpRequest \<Rightarrow> 'x gateway_scheme \<Rightarrow>
    httpResponse \<times> launch option \<times> 'x gateway_scheme" where
  "handleAPIPlansRoute h r s =
    (if (HPath r = ''/api/plans'' \<or> HPath r = ''/api/plans/'') \<and> HMethod r = ''GET''
     then (case handleAPIPlans (heToken h) r s of (resp, s1) \<Rightarrow> (resp, None, s1))
     else if suffix ''/execute'' (HPath r) \<and> HMethod r = ''POST'' then handleExecutePlan h r s
     else (httpError 404 ''not found'', None, s))"

definition valueOr :: "'a \<Rightarrow> (err + 'a) \<times> 's \<Rightarrow> 'a" where
  "valueOr d m = (case fst m of Inl _ \<Rightarrow> d | Inr a \<Rightarrow> a)"

definition droppedEventsOf :: "'x store_scheme \<Rightarrow> nat" where
  "droppedEventsOf s = (case bus s of None \<Rightarrow> 0 | Some b \<Rightarrow> DroppedEventCount b)"

definition handleHealthz :: "'x gateway_scheme httpEnv \<Rightarrow> 'x gateway_scheme agents_map \<Rightarrow> 'x gateway_scheme \<Rightarrow> httpResponse \<times> 'x gateway_scheme" where
  "handleHealthz h reg s =
    (case TaskCounts s of (counts, s1) \<Rightarrow>
      (case TotalEventCount s1 of (backlog, s2) \<Rightarrow>
        (let dbOK = \<not> isl counts; b = BHealth \<lparr>HpDbOK = dbOK, HpPolicyVersion = versionOf (gChecker (heGw h) s),
              HpReplayBacklog = (case backlog of Inl _ \<Rightarrow> 0 | Inr n \<Rightarrow> n), HpAgentCount = length reg, HpBusDropped = droppedEventsOf s2\<rparr>
         in ((httpOK b)\<lparr>HStatus := (if dbOK then 200 else 503)\<rparr>, s2))))"

definition zeroCounts :: MetricsCountsRec where
  "zeroCounts = \<lparr>Pending = 0, Running = 0, RetryWaiting = 0, DeadLetters = 0, LeaseExpiries = 0\<rparr>"

definition handleMetrics :: "'x gateway_scheme httpEnv \<Rightarrow> 'x gateway_scheme agents_map \<Rightarrow> httpRequest \<Rightarrow> 'x gateway_scheme \<Rightarrow>
    httpResponse \<times> 'x gateway_scheme" where
  "handleMetrics h reg r s =
    (if \<not> authorize (heToken h) (HAuthorization r) then (httpError 401 ''unauthorized'', s)
     else let g = heGw h; q1 = MetricsCounts (gAt g 0) s; q2 = TotalAgentMessageCount (snd q1); q3 = TotalDelegationCount (snd q2);
              sts = map (\<lambda>(i, _). gStatus g i s) reg in
       (httpOK (BMetrics \<lparr>MpCounts = valueOr zeroCounts q1, MpActiveLanes = sum_list (map StActiveTasks sts), MpPolicyDenyRate = denyCount s,
          MpAgentCount = length reg, MpAgentMessages = valueOr 0 q2, MpDelegations = valueOr 0 q3, MpBusDropped = droppedEventsOf s,
          MpAgents = sts\<rparr>), snd q3))"

definition handleAgentCard :: "'x gateway_scheme agents_map \<Rightarrow> httpRequest \<Rightarrow> 'x gateway_scheme \<Rightarrow> httpResponse \<times> 'x gateway_scheme" where
  "handleAgentCard reg r s =
    (if HMethod r \<noteq> ''GET'' then (httpError 405 ''Method not allowed'', s)
     else if (case appCfg s of None \<Rightarrow> False | Some c \<Rightarrow> CfgA2AEnabled c = Some False) then (httpError 404 ''404 page not found'', s)
     else (\<lparr>HStatus = 200, HPayload = BCard (map (\<lambda>c. \<lparr>A2AID = AcAgentID c, A2AName = AcDisplayName c, A2ATags = AcSkillsFilter c\<rparr>) (ListRunning reg)),
            HHeaders = [(''Content-Type'', ''application/json''), (''Cache-Control'', ''public, max-age=300'')]\<rparr>, s))"

section \<open>Routes\<close>

text \<open>The routes of the REST interface among those of \<open>Handler\<close>; the mux takes the longest pattern that is the path
  or, when it ends in a slash, begins it. \<open>None\<close>: a route of another interface.\<close>

definition restRoute :: "'x gateway_scheme httpEnv \<Rightarrow> 'x gateway_scheme agents_map \<Rightarrow> httpRequest \<Rightarrow> 'x gateway_scheme \<Rightarrow>
    (httpResponse \<times> launch option \<times> 'x gateway_scheme) option" where
  "restRoute h reg r s =
    (let p = HPath r; plain = (\<lambda>(resp, s1). Some (resp, None, s1)) in
     if p = ''/ws'' \<or> p = ''/metrics/prometheus'' \<or> p = ''/api/v1/task/stream'' \<or> p = ''/v1/chat/completions'' \<or> p = ''/v1/models'' then None
     else if p = ''/metrics'' then plain (handleMetrics h reg r s)
     else if p = ''/healthz'' then plain (handleHealthz h reg s)
     else if p = ''/api/tasks'' then plain (handleAPITasks (heToken h) r s)
     else if prefix ''/api/tasks/'' p then plain (handleAPITaskByID (heToken h) r s)
     else if p = ''/api/sessions'' then plain (handleAPISessions (heToken h) r s)
     else if prefix ''/api/sessions/'' p then plain (handleAPISessionMessages (heToken h) r s)
     else if p = ''/api/skills'' then plain (handleAPISkills h r s)
     else if p = ''/api/config'' then plain (handleAPIConfig h r s)
     else if p = ''/api/plans'' \<or> prefix ''/api/plans/'' p then Some (handleAPIPlansRoute h r s)
     else if p = ''/.well-known/agent.json'' then plain (handleAgentCard reg r s)
     else Some (httpError 404 ''404 page not found'', None, s))"

end
