(* ===== verification/Gateway_Live.thy ===== *)
theory Gateway_Live
  imports Gateway_State Engine_Intake
begin

text \<open>
  What the approval broker and the event forwarding of the gateway promise.
\<close>

section \<open>Approvals\<close>

datatype approvalOp = AOpen string string string nat | ARespond string string | ATimeout string

fun applyOp :: "(string \<Rightarrow> string) \<Rightarrow> env \<Rightarrow> approvalOp \<Rightarrow> 'x gateway_scheme \<Rightarrow> 'x gateway_scheme" where
  "applyOp redact e (AOpen i action details t) s = openApproval i action details t s"
| "applyOp redact e (ARespond i decision) s = snd (RespondToApproval i decision s)"
| "applyOp redact e (ATimeout i) s = approvalTimeoutDeny redact e i s"

definition applyOps :: "(string \<Rightarrow> string) \<Rightarrow> env \<Rightarrow> approvalOp list \<Rightarrow> 'x gateway_scheme \<Rightarrow> 'x gateway_scheme" where
  "applyOps redact e ops s = foldl (\<lambda>s op. applyOp redact e op s) s ops"

text \<open>The abstract broker: the status of one request.\<close>

fun statusStep :: "string \<Rightarrow> string option \<Rightarrow> approvalOp \<Rightarrow> string option" where
  "statusStep i st (AOpen j _ _ _) = (if j = i then Some ''PENDING'' else st)"
| "statusStep i st (ARespond j d) = (if j = i \<and> st \<noteq> None then (case decisionOf d of Some x \<Rightarrow> Some x | None \<Rightarrow> st) else st)"
| "statusStep i st (ATimeout j) = (if j = i \<and> st = Some ''PENDING'' then Some ''DENIED'' else st)"

definition statusOf :: "string \<Rightarrow> 'x gateway_scheme \<Rightarrow> string option" where
  "statusOf i s = map_option AppStatus (findApproval i s)"

lemma broadcast_fields: "approvals (broadcast n s) = approvals s" "clients (broadcast n s) = clients s" "task_events (broadcast n s) = task_events s"
  by (simp_all add: broadcast_def)

lemma Record_fields: "approvals (Record redact e d c r v x s) = approvals s" "outbox (Record redact e d c r v x s) = outbox s"
  "clients (Record redact e d c r v x s) = clients s" "task_events (Record redact e d c r v x s) = task_events s"
  by (auto simp: Record_def Let_def execS_def stmt_def split: list.split option.split)

lemma findApproval_eq: "approvals s' = approvals s \<Longrightarrow> findApproval i s' = findApproval i s"
  by (simp add: findApproval_def)

lemma findApproval_decide: "findApproval i (decideApproval j st s) = (if i = j then map_option (\<lambda>a. a\<lparr>AppStatus := st, AppDone := True\<rparr>) (findApproval i s)
    else findApproval i s)"
proof -
  have "List.find (\<lambda>a. AppID a = i) (updWhere (\<lambda>a. AppID a = j) (\<lambda>a. a\<lparr>AppStatus := st, AppDone := True\<rparr>) xs) =
      (if i = j then map_option (\<lambda>a. a\<lparr>AppStatus := st, AppDone := True\<rparr>) (List.find (\<lambda>a. AppID a = i) xs)
       else List.find (\<lambda>a. AppID a = i) xs)" for xs
    by (induction xs) (auto simp: updWhere_def)
  from this [of "approvals s"] show ?thesis by (auto simp: findApproval_def decideApproval_def firstWhere_def)
qed

lemma findApproval_open: "findApproval i (openApproval j a d t s) = (if i = j then Some (newApproval i a d t) else findApproval i s)"
proof -
  have "List.find (\<lambda>x. AppID x = i) (delWhere (\<lambda>x. AppID x = j) xs @ [newApproval j a d t]) =
      (if i = j then Some (newApproval i a d t) else List.find (\<lambda>x. AppID x = i) xs)" for xs
    by (induction xs) (auto simp: delWhere_def newApproval_def)
  from this [of "approvals s"] show ?thesis by (auto simp: findApproval_def openApproval_def broadcast_fields firstWhere_def)
qed

lemma statusOf_step: "statusOf i (applyOp redact e op s) = statusStep i (statusOf i s) op"
proof (cases op)
  case (AOpen j a d t)
  then show ?thesis by (simp add: statusOf_def findApproval_open newApproval_def)
next
  case (ARespond j d)
  then show ?thesis
    by (auto simp: RespondToApproval_def statusOf_def findApproval_eq [OF broadcast_fields(1)] findApproval_decide split: option.splits)
next
  case (ATimeout j)
  have "findApproval i (approvalTimeoutDeny redact e j s) = (case findApproval j s of None \<Rightarrow> findApproval i s
     | Some a \<Rightarrow> if AppStatus a \<noteq> ''PENDING'' then findApproval i s else findApproval i (decideApproval j ''DENIED'' s))"
    by (simp add: approvalTimeoutDeny_def findApproval_eq [OF broadcast_fields(1)] findApproval_eq [OF Record_fields(1)] split: option.split)
  with ATimeout show ?thesis by (auto simp: statusOf_def findApproval_decide split: option.splits)
qed

lemma applyOps_snoc: "applyOps redact e (ops @ [op]) s = applyOp redact e op (applyOps redact e ops s)"
  by (simp add: applyOps_def)

lemma approvals_refine: "statusOf i (applyOps redact e ops s) = foldl (statusStep i) (statusOf i s) ops"
  by (induction ops rule: rev_induct) (simp add: applyOps_def, simp add: applyOps_snoc statusOf_step)

text \<open>A decided request has its channel closed, and an undecided one has it open.\<close>

definition approvals_inv :: "'x gateway_scheme \<Rightarrow> bool" where
  "approvals_inv s \<longleftrightarrow> (\<forall>a\<in>set (approvals s). AppDone a \<longleftrightarrow> AppStatus a \<noteq> ''PENDING'')"

lemma decisionOf_decided: "decisionOf d = Some st \<Longrightarrow> st \<in> {''APPROVED'', ''DENIED''}"
  by (auto simp: decisionOf_def Let_def split: if_splits)

lemma decide_inv: "approvals_inv s \<Longrightarrow> st \<noteq> ''PENDING'' \<Longrightarrow> approvals_inv (decideApproval i st s)"
  by (auto simp: approvals_inv_def decideApproval_def updWhere_def)

lemma applyOp_inv: "approvals_inv s \<Longrightarrow> approvals_inv (applyOp redact e op s)"
proof (cases op)
  case (AOpen j a d t)
  assume "approvals_inv s"
  with AOpen show ?thesis
    by (auto simp: approvals_inv_def openApproval_def broadcast_fields newApproval_def delWhere_def)
next
  case (ARespond j d)
  assume inv: "approvals_inv s"
  have "approvals_inv (broadcast n t) = approvals_inv t" for n and t :: "'a gateway_scheme" by (simp add: approvals_inv_def broadcast_fields)
  moreover have "approvals_inv (decideApproval j st s)" if "decisionOf d = Some st" for st
    using decide_inv [OF inv] decisionOf_decided [OF that] by auto
  ultimately show ?thesis using inv ARespond by (auto simp: RespondToApproval_def split: option.split)
next
  case (ATimeout j)
  assume inv: "approvals_inv s"
  have "approvals_inv (decideApproval j ''DENIED'' s)" by (rule decide_inv [OF inv]) simp
  then show ?thesis using inv ATimeout
    by (auto simp: approvalTimeoutDeny_def approvals_inv_def broadcast_fields Record_fields split: option.split)
qed

lemma applyOps_inv: "approvals_inv s \<Longrightarrow> approvals_inv (applyOps redact e ops s)"
  by (induction ops rule: rev_induct) (simp add: applyOps_def, simp add: applyOps_snoc applyOp_inv)

definition answersTo :: "string \<Rightarrow> approvalOp list \<Rightarrow> string list" where
  "answersTo i ops = List.map_filter (\<lambda>op. case op of ARespond j d \<Rightarrow> if j = i then decisionOf d else None | _ \<Rightarrow> None) ops"

definition opens :: "string \<Rightarrow> approvalOp \<Rightarrow> bool" where
  "opens i op = (case op of AOpen j _ _ _ \<Rightarrow> j = i | _ \<Rightarrow> False)"

definition lastWord :: "string \<Rightarrow> approvalOp list \<Rightarrow> string" where
  "lastWord i ops = (if answersTo i ops \<noteq> [] then last (answersTo i ops) else if ATimeout i \<in> set ops then ''DENIED'' else ''PENDING'')"

lemma answersTo_snoc: "answersTo i (ops @ [op]) = answersTo i ops @ (case op of ARespond j d \<Rightarrow> (if j = i then
    (case decisionOf d of Some st \<Rightarrow> [st] | None \<Rightarrow> []) else []) | _ \<Rightarrow> [])"
  by (simp add: answersTo_def List.map_filter_def split: approvalOp.split option.split)

lemma answersTo_decided: "st \<in> set (answersTo i ops) \<Longrightarrow> st \<in> {''APPROVED'', ''DENIED''}"
proof (induction ops rule: rev_induct)
  case Nil
  then show ?case by (simp add: answersTo_def List.map_filter_def)
next
  case (snoc op ops)
  have "st \<in> set (answersTo i ops) \<or> (\<exists>d. decisionOf d = Some st)"
  proof (cases op)
    case (ARespond j d)
    with snoc.prems show ?thesis unfolding answersTo_snoc by (cases "j = i"; cases "decisionOf d") auto
  qed (use snoc.prems in \<open>simp_all add: answersTo_snoc\<close>)
  with snoc.IH decisionOf_decided show ?case by blast
qed

lemma lastWord_snoc:
  assumes "\<not> opens i op"
  shows "Some (lastWord i (ops @ [op])) = statusStep i (Some (lastWord i ops)) op"
proof (cases "answersTo i ops = []")
  case True
  with assms show ?thesis by (cases op) (auto simp: lastWord_def answersTo_snoc opens_def split: option.split)
next
  case False
  with answersTo_decided [of "last (answersTo i ops)" i ops] have "last (answersTo i ops) \<noteq> ''PENDING''" by auto
  with False assms show ?thesis by (cases op) (auto simp: lastWord_def answersTo_snoc opens_def split: option.split)
qed

lemma statusSteps_lastWord: "\<forall>op\<in>set ops. \<not> opens i op \<Longrightarrow> foldl (statusStep i) (Some ''PENDING'') ops = Some (lastWord i ops)"
  by (induction ops rule: rev_induct) (simp add: lastWord_def answersTo_def List.map_filter_def, simp add: lastWord_snoc)

text \<open>The last answer decides: after a request is opened, whatever requests, answers and timeouts follow in whatever
  order, its status is the last valid answer to it, \<open>DENIED\<close> when there is none and its time ran out, and
  \<open>PENDING\<close> otherwise. A waiting caller goes on exactly when it is decided, and is told yes exactly when
  the last answer was approval; so nothing is approved without an answer, and an answer that comes after the
  timeout still turns the denial around.\<close>

theorem approval_last_word:
  fixes s s' :: "'x gateway_scheme"
  assumes "approvals_inv s" and "\<forall>op\<in>set ops. \<not> opens i op"
    and s'_def: "s' = applyOps redact e ops (openApproval i action details t s)"
  shows "statusOf i s' = Some (lastWord i ops) \<and>
    fst (awaitApproval redact e None i s') = (if lastWord i ops = ''PENDING'' then None else Some (Inr (lastWord i ops = ''APPROVED'')))"
proof -
  have "statusOf i (openApproval i action details t s) = Some ''PENDING''" by (simp add: statusOf_def findApproval_open newApproval_def)
  then have st: "statusOf i s' = Some (lastWord i ops)"
    unfolding s'_def approvals_refine by (simp add: statusSteps_lastWord [OF assms(2)])
  have "approvals_inv (openApproval i action details t s)" using applyOp_inv [OF assms(1), of redact e "AOpen i action details t"] by simp
  then have inv: "approvals_inv s'" unfolding s'_def by (rule applyOps_inv)
  from st obtain a where a: "findApproval i s' = Some a" "AppStatus a = lastWord i ops" by (auto simp: statusOf_def)
  have "a \<in> set (approvals s')" using a(1) unfolding findApproval_def by (simp add: firstWhere_Some)
  with inv have "AppDone a \<longleftrightarrow> AppStatus a \<noteq> ''PENDING''" by (simp add: approvals_inv_def)
  with a st show ?thesis by (simp add: awaitApproval_def)
qed

section \<open>Live events\<close>

text \<open>The task events of a session that have been written to a client.\<close>

definition sentTo :: "nat \<Rightarrow> string \<Rightarrow> 'x gateway_scheme \<Rightarrow> TaskEvent list" where
  "sentTo c sid s = List.map_filter (\<lambda>(d, f). case f of
     Notify (SessionEvent te) \<Rightarrow> if d = c \<and> ESessionID te = sid then Some te else None | _ \<Rightarrow> None) (outbox s)"

definition eventsOf :: "string \<Rightarrow> nat \<Rightarrow> nat \<Rightarrow> event_row list \<Rightarrow> event_row list" where
  "eventsOf sid lo hi xs = filter (\<lambda>x. e_session_id x = sid \<and> lo < e_id x \<and> e_id x \<le> hi) xs"

definition events_sorted :: "'x store_scheme \<Rightarrow> bool" where
  "events_sorted s \<longleftrightarrow> sorted_wrt (<) (map e_id (task_events s)) \<and> (\<forall>x\<in>set (task_events s). e_id x \<le> ev_seq s)"

text \<open>What happens between two iterations: events are appended under new numbers, and nothing else that concerns
  this client and session.\<close>

definition grows :: "nat \<Rightarrow> string \<Rightarrow> 'x gateway_scheme \<Rightarrow> 'x gateway_scheme \<Rightarrow> bool" where
  "grows c sid s s' \<longleftrightarrow> (\<exists>new. task_events s' = task_events s @ new \<and> (\<forall>x\<in>set new. ev_seq s < e_id x)) \<and> events_sorted s' \<and>
     ev_seq s \<le> ev_seq s' \<and> lastForwarded c sid s' = lastForwarded c sid s \<and> sentTo c sid s' = sentTo c sid s"

inductive live_step :: "nat \<Rightarrow> string \<Rightarrow> 'x gateway_scheme \<Rightarrow> 'x gateway_scheme \<Rightarrow> bool" for c sid where
  forward: "live_step c sid s (forwardEvent c ev s)"
| meanwhile: "grows c sid s s' \<Longrightarrow> live_step c sid s s'"

lemma take_below_last:
  fixes k :: "'a \<Rightarrow> nat"
  assumes "sorted_wrt (<) (map k ys)" and "take n ys \<noteq> []"
  shows "filter (\<lambda>x. k x \<le> k (last (take n ys))) ys = take n ys"
proof -
  have split: "ys = butlast (take n ys) @ [last (take n ys)] @ drop n ys" using assms(2) by (metis append_assoc append_butlast_last_id append_take_drop_id)
  have "sorted_wrt (<) (map k (butlast (take n ys) @ [last (take n ys)] @ drop n ys))" using assms(1) split by simp
  then have "\<forall>x\<in>set (butlast (take n ys)). k x \<le> k (last (take n ys))" "\<forall>x\<in>set (drop n ys). \<not> k x \<le> k (last (take n ys))"
    by (auto simp: sorted_wrt_append less_imp_le)
  then have "filter (\<lambda>x. k x \<le> k (last (take n ys))) (butlast (take n ys) @ [last (take n ys)] @ drop n ys) = butlast (take n ys) @ [last (take n ys)]"
    by (simp add: filter_id_conv filter_empty_conv)
  then show ?thesis using split assms(2) by (metis append_butlast_last_id)
qed

lemma foldl_max_last: "sorted_wrt (<) (ks :: nat list) \<Longrightarrow> ks \<noteq> [] \<Longrightarrow> foldl max 0 ks = last ks"
proof (induction ks rule: rev_induct)
  case (snoc k ks)
  then have "last ks \<le> k" if "ks \<noteq> []" using that by (auto simp: sorted_wrt_append less_imp_le)
  with snoc show ?case by (cases "ks = []") (auto simp: sorted_wrt_append)
qed simp

lemma eventsOf_split:
  assumes "sorted_wrt (<) (map e_id xs)" and "lo \<le> mid" and "mid \<le> hi"
  shows "eventsOf sid lo hi xs = eventsOf sid lo mid xs @ eventsOf sid mid hi xs"
  using assms(1)
proof (induction xs)
  case (Cons x xs)
  show ?case
  proof (cases "e_id x \<le> mid")
    case True
    with Cons assms(2,3) show ?thesis by (auto simp: eventsOf_def)
  next
    case False
    with Cons.prems have "\<forall>y\<in>set (x # xs). mid < e_id y" by auto
    then have "eventsOf sid lo mid (x # xs) = []" and "eventsOf sid lo hi (x # xs) = eventsOf sid mid hi (x # xs)"
      using assms(2) by (auto simp: eventsOf_def filter_empty_conv intro!: filter_cong)
    then show ?thesis by simp
  qed
qed (simp add: eventsOf_def)

lemma sorted_filter: "sorted_wrt (<) (map e_id xs) \<Longrightarrow> sorted_wrt (<) (map e_id (filter P xs))"
  by (induction xs) auto

text \<open>The events an iteration reads are the next ones of the session, without a gap.\<close>

lemma next_events:
  fixes s :: "'x gateway_scheme"
  assumes "events_sorted s" and "ListTaskEventsFrom sid l 100 s = (Inr events, s1)" and "events \<noteq> []"
  defines "m \<equiv> foldl max 0 (map EventID events)"
  shows "events = map scanEvent (eventsOf sid l m (task_events s))" and "l < m" and "m \<le> ev_seq s"
proof -
  let ?F = "filter (\<lambda>x. e_session_id x = sid \<and> l < e_id x) (task_events s)"
  have srt: "sorted_wrt (<) (map e_id (task_events s))" using assms(1) by (simp add: events_sorted_def)
  have sF: "sorted_wrt (<) (map e_id ?F)" by (rule sorted_filter) (rule srt)
  have "sort_key e_id ?F = ?F" by (rule sort_key_id_if_sorted) (rule strict_sorted_imp_sorted, rule sF)
  then have ev: "events = map scanEvent (take 100 ?F)"
    using assms(2) by (auto simp: ListTaskEventsFrom_def clampLimit_def elim!: queryS_InrE)
  have ne: "take 100 ?F \<noteq> []" using ev assms(3) by auto
  have ids: "map EventID events = map e_id (take 100 ?F)" unfolding ev by (simp add: scanEvent_def)
  have "sorted_wrt (<) (take 100 (map e_id ?F))" by (rule sorted_wrt_take) (rule sF)
  then have "sorted_wrt (<) (map e_id (take 100 ?F))" by (simp only: take_map)
  then have m: "m = e_id (last (take 100 ?F))"
    unfolding m_def ids using ne by (subst foldl_max_last) (simp_all add: last_map)
  have "last (take 100 ?F) \<in> set ?F" using ne by (meson in_set_takeD last_in_set)
  with m assms(1) show "l < m" "m \<le> ev_seq s" by (auto simp: events_sorted_def)
  have "take 100 ?F = filter (\<lambda>x. e_id x \<le> m) ?F" unfolding m using take_below_last [OF sF ne] by simp
  also have "\<dots> = eventsOf sid l m (task_events s)" by (simp add: eventsOf_def conj_ac)
  finally show "events = map scanEvent (eventsOf sid l m (task_events s))" unfolding ev by simp
qed

lemma clientOf_updClient: "(\<And>x. ClID (f x) = ClID x) \<Longrightarrow> clientOf c (updClient d f s) = (if c = d then map_option f (clientOf c s) else clientOf c s)"
proof -
  assume f: "\<And>x. ClID (f x) = ClID x"
  have "List.find (\<lambda>x. ClID x = c) (updWhere (\<lambda>x. ClID x = d) f xs) =
      (if c = d then map_option f (List.find (\<lambda>x. ClID x = c) xs) else List.find (\<lambda>x. ClID x = c) xs)" for xs
    using f by (induction xs) (auto simp: updWhere_def)
  from this [of "clients s"] show ?thesis by (simp add: clientOf_def updClient_def firstWhere_def)
qed

lemma sentTo_send:
  assumes "\<forall>te\<in>set events. ESessionID te = sid'"
  shows "sentTo c sid (sendTo d (map (Notify \<circ> SessionEvent) events) s) = sentTo c sid s @ (if c = d \<and> sid = sid' then events else [])"
proof -
  have "List.map_filter (\<lambda>(d, f). case f of Notify (SessionEvent te) \<Rightarrow> if d = c \<and> ESessionID te = sid then Some te else None | _ \<Rightarrow> None)
      (map (Pair d \<circ> (Notify \<circ> SessionEvent)) events) = (if c = d \<and> sid = sid' then events else [])"
    using assms by (induction events) (auto simp: List.map_filter_def)
  then show ?thesis by (simp add: sentTo_def sendTo_def List.map_filter_def)
qed

lemma lastForwarded_faults: "lastForwarded c sid (s\<lparr>faults := fs\<rparr>) = lastForwarded c sid s" "sentTo c sid (s\<lparr>faults := fs\<rparr>) = sentTo c sid s"
  by (simp_all add: lastForwarded_def clientOf_def sentTo_def)

lemma lastForwarded_send: "lastForwarded c sid (sendTo d fs s) = lastForwarded c sid s" "sentTo c sid (updClient d f s) = sentTo c sid s"
  by (simp_all add: lastForwarded_def clientOf_def sentTo_def sendTo_def updClient_def)

lemma forwardEvent_unread:
  "task_events (forwardEvent c ev s) = task_events s \<and> ev_seq (forwardEvent c ev s) = ev_seq s"
  unfolding forwardEvent_def Let_def
  by (auto simp: ListTaskEventsFrom_def wrapS_def queryS_def stmt_def sendTo_def updClient_def split: option.split list.split prod.split sum.split)

lemma ListTaskEventsFrom_state: "snd (ListTaskEventsFrom sid l n s) = s\<lparr>faults := tl (faults s)\<rparr>"
  by (cases "faults s") (auto simp: ListTaskEventsFrom_def wrapS_def queryS_def stmt_def split: option.split)

text \<open>One iteration, on an event of this session and on another.\<close>

lemma forward_this:
  assumes "events_sorted s" and "lastForwarded c sid s = Some l" and "eventSession ev = sid" and "sid \<noteq> ''''"
  shows "\<exists>m\<ge>l. (m \<le> ev_seq s \<or> m = l) \<and> lastForwarded c sid (forwardEvent c ev s) = Some m \<and>
    sentTo c sid (forwardEvent c ev s) = sentTo c sid s @ map scanEvent (eventsOf sid l m (task_events s))"
proof -
  have none: "eventsOf sid l l xs = []" for xs by (auto simp: eventsOf_def filter_empty_conv)
  obtain r s1 where q: "ListTaskEventsFrom sid l 100 s = (r, s1)" by fastforce
  have s1: "s1 = s\<lparr>faults := tl (faults s)\<rparr>" using ListTaskEventsFrom_state [of sid l 100 s] q by simp
  show ?thesis
  proof (cases "r = Inr [] \<or> isl r")
    case True
    then have "forwardEvent c ev s = s1" using assms q by (cases r) (simp_all add: forwardEvent_def Let_def)
    then show ?thesis using assms(2) none by (intro exI [of _ l]) (simp add: s1 lastForwarded_faults)
  next
    case False
    then obtain events where r: "r = Inr events" and ne: "events \<noteq> []" by (cases r) auto
    let ?m = "foldl max 0 (map EventID events)"
    note nx = next_events [OF assms(1) q [unfolded r] ne]
    obtain m where "events = map scanEvent (eventsOf sid l m (task_events s))" using nx(1) by blast
    then have ses: "\<forall>te\<in>set events. ESessionID te = sid" by (auto simp: scanEvent_def eventsOf_def)
    have cl: "\<exists>x. clientOf c s = Some x \<and> map_of (subscribedSes x) sid = Some l"
      using assms(2) by (auto simp: lastForwarded_def split: option.splits)
    let ?f = "\<lambda>x. x\<lparr>subscribedSes := AList.update sid (max ?m (coalesce (map_of (subscribedSes x) sid) 0)) (subscribedSes x)\<rparr>"
    have fw: "forwardEvent c ev s = updClient c ?f (sendTo c (map (Notify \<circ> SessionEvent) events) s1)"
      using assms q r ne nx(2) by (simp add: forwardEvent_def)
    have "clientOf c (sendTo c (map (Notify \<circ> SessionEvent) events) s1) = clientOf c s" by (simp add: clientOf_def sendTo_def s1)
    then have "lastForwarded c sid (forwardEvent c ev s) = Some (max ?m l)"
      using cl unfolding fw by (auto simp: lastForwarded_def clientOf_updClient update_conv' coalesce_def)
    moreover have "max ?m l = ?m" using nx(2) by simp
    ultimately have "lastForwarded c sid (forwardEvent c ev s) = Some ?m" by simp
    moreover have "sentTo c sid (forwardEvent c ev s) = sentTo c sid s @ events"
      unfolding fw by (simp add: lastForwarded_send sentTo_send [OF ses] s1 lastForwarded_faults)
    ultimately show ?thesis using nx(2,3) by (intro exI [of _ ?m]) (simp only: nx(1) [symmetric], simp)
  qed
qed

lemma forward_other:
  assumes "eventSession ev \<noteq> sid"
  shows "lastForwarded c sid (forwardEvent c ev s) = lastForwarded c sid s \<and> sentTo c sid (forwardEvent c ev s) = sentTo c sid s"
proof (cases "eventSession ev = '''' \<or> lastForwarded c (eventSession ev) s = None")
  case True
  then have "forwardEvent c ev s = s" by (elim disjE) (simp_all add: forwardEvent_def Let_def)
  then show ?thesis by simp
next
  case False
  then obtain l where l: "eventSession ev \<noteq> ''''" "lastForwarded c (eventSession ev) s = Some l" by auto
  obtain r s1 where q: "ListTaskEventsFrom (eventSession ev) l 100 s = (r, s1)" by fastforce
  have s1: "s1 = s\<lparr>faults := tl (faults s)\<rparr>" using ListTaskEventsFrom_state [of "eventSession ev" l 100 s] q by simp
  have ses: "\<forall>te\<in>set events. ESessionID te = eventSession ev" if "r = Inr events" for events
    using q that by (auto simp: ListTaskEventsFrom_def scanEvent_def elim!: queryS_InrE dest!: in_set_takeD)
  have upd: "lastForwarded c sid (updClient c (\<lambda>x. x\<lparr>subscribedSes := AList.update (eventSession ev) (g x) (subscribedSes x)\<rparr>) t) = lastForwarded c sid t"
    for g and t :: "'a gateway_scheme"
    using assms by (auto simp: lastForwarded_def clientOf_updClient update_conv' split: option.split)
  show ?thesis
  proof (cases r)
    case (Inl e)
    then show ?thesis using l q by (simp add: forwardEvent_def s1 lastForwarded_faults)
  next
    case (Inr events)
    show ?thesis
      using l q Inr assms sentTo_send [OF ses [OF Inr], of c sid c s1]
      by (auto simp: forwardEvent_def Let_def upd lastForwarded_send s1 lastForwarded_faults)
  qed
qed

text \<open>C11. Live events reach a subscriber exactly once, in order and without a gap: from a subscription at event
  \<open>l0\<close> on, whatever arrives on the bus, whichever events the bus drops, and whatever the database appends or
  refuses in between, the events of the session written to the client are those numbered after \<open>l0\<close> up to
  the mark the gateway keeps, each once and in the order of their numbers.\<close>

theorem forwarded_exactly_once:
  fixes s0 s :: "'x gateway_scheme"
  assumes "events_sorted s0" and "lastForwarded c sid s0 = Some l0" and "l0 \<le> ev_seq s0" and "sid \<noteq> ''''"
    and "(live_step c sid)\<^sup>*\<^sup>* s0 s"
  shows "\<exists>l\<ge>l0. lastForwarded c sid s = Some l \<and> sentTo c sid s = sentTo c sid s0 @ map scanEvent (eventsOf sid l0 l (task_events s))"
proof -
  have "events_sorted s \<and> (\<exists>l\<ge>l0. l \<le> ev_seq s \<and> lastForwarded c sid s = Some l \<and>
      sentTo c sid s = sentTo c sid s0 @ map scanEvent (eventsOf sid l0 l (task_events s)))"
    using assms(5)
  proof (induction rule: rtranclp_induct)
    case base
    have "eventsOf sid l0 l0 (task_events s0) = []" by (auto simp: eventsOf_def filter_empty_conv)
    with assms show ?case by auto
  next
    case (step t s)
    then obtain l where l: "events_sorted t" "l0 \<le> l" "l \<le> ev_seq t" "lastForwarded c sid t = Some l"
      "sentTo c sid t = sentTo c sid s0 @ map scanEvent (eventsOf sid l0 l (task_events t))" by blast
    from step.hyps(2) show ?case
    proof cases
      case (forward ev)
      note same = forwardEvent_unread [of c ev t]
      show ?thesis
      proof (cases "eventSession ev = sid")
        case True
        from forward_this [OF l(1,4) True assms(4)] obtain m where m: "l \<le> m" "m \<le> ev_seq t \<or> m = l"
          "lastForwarded c sid s = Some m" "sentTo c sid s = sentTo c sid t @ map scanEvent (eventsOf sid l m (task_events t))"
          unfolding forward by blast
        have "eventsOf sid l0 m (task_events t) = eventsOf sid l0 l (task_events t) @ eventsOf sid l m (task_events t)"
          using l(1,2) m(1) by (intro eventsOf_split) (simp_all add: events_sorted_def)
        with m l same show ?thesis unfolding forward by (auto simp: events_sorted_def intro!: exI [of _ m])
      next
        case False
        from forward_other [OF False, of c t] l same show ?thesis unfolding forward by (auto simp: events_sorted_def)
      qed
    next
      case meanwhile
      then obtain new where new: "task_events s = task_events t @ new" "\<forall>x\<in>set new. ev_seq t < e_id x" and
        g: "events_sorted s" "ev_seq t \<le> ev_seq s" "lastForwarded c sid s = lastForwarded c sid t" "sentTo c sid s = sentTo c sid t"
        by (auto simp: grows_def)
      have "eventsOf sid l0 l (task_events s) = eventsOf sid l0 l (task_events t)"
        using new l(3) by (auto simp: eventsOf_def filter_empty_conv)
      with g l show ?thesis by auto
    qed
  qed
  then show ?thesis by blast
qed

section \<open>Examples\<close>

definition exGateway :: "store \<Rightarrow> client list \<Rightarrow> gateway" where
  "exGateway s cs = engine_store.extend (exEngineStore s) (gateway.fields cs [] [] None None exRawIO [] [])"

lemma exGateway_tables [simp]: "approvals (exGateway s cs) = []" "clients (exGateway s cs) = cs" "outbox (exGateway s cs) = []"
  "task_events (exGateway s cs) = task_events s" "ev_seq (exGateway s cs) = ev_seq s" "faults (exGateway s cs) = faults s"
  "tasks (exGateway s cs) = tasks s" "sessions (exGateway s cs) = sessions s" "messages (exGateway s cs) = messages s" "schedules (exGateway s cs) = []"
  by (simp_all add: exGateway_def engine_eval gateway.defs)

lemma exDecisions: "decisionOf '' Approve'' = Some ''APPROVED''" "decisionOf ''maybe'' = None"
  by code_simp+

lemma approval_last_word_witness:
  "fst (awaitApproval id (exEnv 100) None ''a1'' (applyOps id (exEnv 100) [ATimeout ''a1'', ARespond ''a1'' ''maybe'', ARespond ''a1'' '' Approve'']
     (openApproval ''a1'' ''exec'' ''rm'' 7 (exGateway emptyStore [])))) = Some (Inr True)"
proof -
  let ?ops = "[ATimeout ''a1'', ARespond ''a1'' ''maybe'', ARespond ''a1'' '' Approve'']"
  have "approvals_inv (exGateway emptyStore [])" by (simp add: approvals_inv_def)
  moreover have "\<forall>op\<in>set ?ops. \<not> opens ''a1'' op" by (simp add: opens_def)
  moreover have "lastWord ''a1'' ?ops = ''APPROVED''" by (simp add: lastWord_def answersTo_def List.map_filter_def exDecisions)
  ultimately show ?thesis
    using approval_last_word [where i = "''a1''" and ops = ?ops and s = "exGateway emptyStore []" and redact = id and e = "exEnv 100"
      and action = "''exec''" and details = "''rm''" and t = 7, OF _ _ refl] by simp
qed

definition exSubscriber :: client where
  "exSubscriber = \<lparr>ClID = 1, handshaken = True, subscribedSes = [(''s'', 0)], busSub = Some 1\<rparr>"

lemma forwarded_exactly_once_witness:
  "\<exists>l. lastForwarded 1 ''s'' (forwardEvent 1 \<lparr>Topic = ''task.succeeded'', Payload = PStrMap [(''session_id'', ''s'')]\<rparr> (exGateway exQueued [exSubscriber])) = Some l \<and>
     sentTo 1 ''s'' (forwardEvent 1 \<lparr>Topic = ''task.succeeded'', Payload = PStrMap [(''session_id'', ''s'')]\<rparr> (exGateway exQueued [exSubscriber])) =
       map scanEvent (eventsOf ''s'' 0 l [exEvent])"
proof -
  let ?s0 = "exGateway exQueued [exSubscriber]"
  let ?ev = "\<lparr>Topic = ''task.succeeded'', Payload = PStrMap [(''session_id'', ''s'')]\<rparr> :: payload Event"
  have "events_sorted ?s0" and evs: "task_events ?s0 = [exEvent]" by (simp_all add: events_sorted_def exQueued_eq exTables_def exEvent_def)
  moreover have "lastForwarded 1 ''s'' ?s0 = Some 0" and "sentTo 1 ''s'' ?s0 = []"
    by (simp_all add: lastForwarded_def clientOf_def firstWhere_def exSubscriber_def sentTo_def List.map_filter_def)
  moreover have "(live_step 1 ''s'')\<^sup>*\<^sup>* ?s0 (forwardEvent 1 ?ev ?s0)" by (intro r_into_rtranclp live_step.forward)
  ultimately show ?thesis using forwarded_exactly_once [of ?s0 1 "''s''" 0 "forwardEvent 1 ?ev ?s0"] forwardEvent_unread [of 1 ?ev ?s0] by auto
qed
end
