(* ===== verification/Gateway_Gate.thy ===== *)
theory Gateway_Gate
  imports Gateway_Rpc Gateway_Live
begin

text \<open>
  What the gate of \<open>handleRPC\<close> guarantees: nothing without the capability, nothing of the gated kind before
  the handshake, no change by a method that reads; and what becomes of the schedules that \<open>cron.add\<close> makes.
\<close>

section \<open>The gate\<close>

definition granted :: "('x gateway_scheme) gwEnv \<Rightarrow> string \<Rightarrow> 'x gateway_scheme \<Rightarrow> bool" where
  "granted g cap s = (case gChecker g s of None \<Rightarrow> False | Some k \<Rightarrow> chkCapability k cap)"

definition succeeded :: "rpcResponse option \<Rightarrow> bool" where
  "succeeded resp = (case resp of None \<Rightarrow> False | Some r \<Rightarrow> \<not> isl (RpBody r))"

text \<open>The audit log, its counters and the faults of the connection are all that differs.\<close>

definition only_audit :: "'x gateway_scheme \<Rightarrow> 'x gateway_scheme \<Rightarrow> bool" where
  "only_audit s s' \<longleftrightarrow> s' = s\<lparr>faults := faults s', audit_log := audit_log s', audit_seq := audit_seq s', denyCount := denyCount s'\<rparr>"

lemma only_audit_refl: "only_audit s s"
  by (simp add: only_audit_def)

lemma Record_only_audit: "only_audit s (Record redact e d c r v x s)"
  by (cases "faults s") (auto simp: only_audit_def Record_def Let_def execS_def stmt_def split: option.split)

lemma methodGate_denied:
  assumes "requiredCapabilityForMethod m \<noteq> ''''" and "\<not> granted g (requiredCapabilityForMethod m) s"
  shows "\<exists>msg s'. methodGate g m s = (Some msg, s') \<and> only_audit s s'"
  using assms by (auto simp: methodGate_def granted_def Let_def Record_only_audit split: option.splits)

text \<open>C3. A method whose capability the policy does not grant does nothing: whatever the request, and whoever sends it,
  the agents and everything stored stay as they are, save for the entry in the audit log, and no request is
  answered with success.\<close>

theorem rpc_needs_capability:
  assumes "requiredCapabilityForMethod (RqMethod req) \<noteq> ''''"
    and "\<not> granted g (requiredCapabilityForMethod (RqMethod req)) s"
  shows "\<exists>resp s'. handleRPC g c req (reg, s) = (resp, reg, s') \<and> only_audit s s' \<and> \<not> succeeded resp"
proof -
  obtain msg s' where "methodGate g (RqMethod req) s = (Some msg, s')" "only_audit s s'" using methodGate_denied [OF assms] by blast
  then show ?thesis
    by (auto simp: handleRPC_def Let_def only_audit_refl succeeded_def respond_def split: option.split)
qed

text \<open>The six methods that chat, abort, purge, create and remove are refused before the handshake, without any
  effect at all, not even an audit entry.\<close>

theorem rpc_needs_handshake:
  assumes "isMutatingMethod (RqMethod req)" and "\<not> isHandshaken c s"
  shows "\<exists>resp. handleRPC g c req (reg, s) = (resp, reg, s) \<and> \<not> succeeded resp"
  using assms by (auto simp: handleRPC_def Let_def succeeded_def respond_def split: option.split)

text \<open>The methods that write and are let through before the handshake.\<close>

lemma writes_without_handshake:
  "requiredCapabilityForMethod m = ''acp.mutate'' \<and> \<not> isMutatingMethod m \<longleftrightarrow>
   m \<in> {''approval.request'', ''approval.respond'', ''cron.add'', ''cron.remove'', ''cron.enable'', ''cron.disable'', ''subtask.create'',
     ''config.set'', ''config.model.set'', ''policy.domain.add''}"
  by (auto simp: requiredCapabilityForMethod_def isMutatingMethod_def)

section \<open>Reading changes nothing\<close>

text \<open>All tables, the memory of the engine and of the server agree, but for the connections, what was sent to them,
  the bus, the audit log and the faults.\<close>

definition same_data :: "'x gateway_scheme \<Rightarrow> 'x gateway_scheme \<Rightarrow> bool" where
  "same_data s s' \<longleftrightarrow> tasks s' = tasks s \<and> task_events s' = task_events s \<and> ev_seq s' = ev_seq s \<and> sessions s' = sessions s \<and>
     messages s' = messages s \<and> msg_seq s' = msg_seq s \<and> kv_store s' = kv_store s \<and> tool_call_dedup s' = tool_call_dedup s \<and>
     task_metrics s' = task_metrics s \<and> task_context s' = task_context s \<and> policy_versions s' = policy_versions s \<and>
     plan_executions s' = plan_executions s \<and> plan_execution_steps s' = plan_execution_steps s \<and> agents s' = agents s \<and>
     agent_messages s' = agent_messages s \<and> delegations s' = delegations s \<and> schedules s' = schedules s \<and>
     data_redactions s' = data_redactions s \<and> agent_memories s' = agent_memories s \<and> agent_pins s' = agent_pins s \<and>
     agent_shares s' = agent_shares s \<and> loop_checkpoints s' = loop_checkpoints s \<and> skill_registry s' = skill_registry s \<and>
     team_plans s' = team_plans s \<and> team_plan_steps s' = team_plan_steps s \<and> experiments s' = experiments s \<and>
     experiment_samples s' = experiment_samples s \<and> cancels s' = cancels s \<and> activeTasks s' = activeTasks s \<and> lastError s' = lastError s \<and>
     approvals s' = approvals s \<and> livePolicy s' = livePolicy s \<and> appCfg s' = appCfg s \<and> configFile s' = configFile s \<and>
     planSummaries s' = planSummaries s \<and> plansMap s' = plansMap s"

interpretation sd: table_invariant "same_data s0" for s0
  by unfold_locales (simp add: same_data_def)

lemma same_data_refl: "same_data s s"
  by (simp add: same_data_def)

lemma same_data_audit:
  assumes "only_audit s s'"
  shows "same_data s s'"
proof -
  obtain fs al sq dc where "s' = s\<lparr>faults := fs, audit_log := al, audit_seq := sq, denyCount := dc\<rparr>"
    using assms unfolding only_audit_def by blast
  then show ?thesis by (simp add: same_data_def)
qed

lemma same_data_trans: "same_data s t \<Longrightarrow> same_data t u \<Longrightarrow> same_data s u"
  by (simp add: same_data_def)

lemma methodGate_data: "same_data s (snd (methodGate g m s))"
  by (simp add: methodGate_def Let_def same_data_refl same_data_audit [OF Record_only_audit] split: option.split)

lemma onStore_keeps:
  assumes "same_data s0 (snd (m s))" and "\<And>a t. same_data s0 t \<Longrightarrow> same_data s0 (snd (k a t))"
  shows "same_data s0 (snd (onStore m k s))"
  using assms by (cases "m s"; cases "fst (m s)") (auto simp: onStore_def failRpc_def)

lemma failRpc_keeps: "same_data s0 s \<Longrightarrow> same_data s0 (snd (failRpc c m s))"
  by (simp add: failRpc_def)

lemma replyWith_keeps: "same_data s0 s \<Longrightarrow> same_data s0 (snd (replyWith r a s))"
  by (simp add: replyWith_def)

lemma sendTo_keeps: "same_data s0 (sendTo c fs s) \<longleftrightarrow> same_data s0 s"
  by (simp add: same_data_def sendTo_def)

lemma updClient_keeps: "same_data s0 (updClient c f s) \<longleftrightarrow> same_data s0 s"
  by (simp add: same_data_def updClient_def)

lemma bus_keeps: "same_data s0 (s\<lparr>bus := b\<rparr>) \<longleftrightarrow> same_data s0 s"
  by (simp add: same_data_def)

lemma subscribe_keeps: "same_data s0 s \<Longrightarrow> same_data s0 (subscribeClientToSession c sid l s)"
  by (auto simp: subscribeClientToSession_def Let_def updClient_keeps bus_keeps split: option.split prod.split)

lemma replayEvents_keeps: "same_data s0 s \<Longrightarrow> same_data s0 (snd (replayEvents c sid m evs s))"
  by (simp add: replayEvents_def sendTo_keeps subscribe_keeps)

lemma collectAudit_keeps: "same_data s0 s \<Longrightarrow> same_data s0 (snd (collectAudit ts s))"
proof (induction ts arbitrary: s)
  case (Cons t ts)
  let ?q = "queryS (\<lambda>s. take 200 (sort_key AudID (filter (\<lambda>a. AudTraceID a = t) (audit_log s))))"
  have "same_data s0 (snd (?q s))" using Cons.prems by (rule sd.queryS_keeps)
  with Cons.IH [of "snd (?q s)"] show ?case by (auto split: prod.split sum.split)
qed simp

lemmas query_keeps = sd.bindS_keeps sd.wrapS_keeps sd.queryS_keeps sd.queryRow_keeps

lemma ExportIncident_keeps: "same_data s0 s \<Longrightarrow> same_data s0 (snd (ExportIncident ord e i h s))"
proof -
  have "same_data s0 (snd (case collectAudit ts t of (found, s1) \<Rightarrow> (Inr (b found) :: err + IncidentBundle, s1)))" if "same_data s0 t" for ts t b
    using collectAudit_keeps [OF that, of ts] by (cases "collectAudit ts t") simp
  then show "same_data s0 s \<Longrightarrow> same_data s0 (snd (ExportIncident ord e i h s))"
    unfolding ExportIncident_def GetTask_def by (intro query_keeps)
qed

lemma dispatch_reads:
  "dispatch g c reg ''session.history'' raw = rpcHistory raw"
  "dispatch g c reg ''session.list'' raw = rpcSessions raw"
  "dispatch g c reg ''session.events.subscribe'' raw = rpcSubscribe c raw"
  "dispatch g c reg ''system.status'' raw = rpcSystemStatus g reg"
  "dispatch g c reg ''approval.list'' raw = (\<lambda>s. (RpcDone (RApprovals (approvals s)), s))"
  "dispatch g c reg ''agent.list'' raw = (\<lambda>s. (RpcDone (RAgents (map (entryFor g reg s) (ListRunning reg))), s))"
  "dispatch g c reg ''config.list'' raw = rpcConfigList"
  "dispatch g c reg ''cron.list'' raw = onStore ListSchedules (replyWith RSchedules)"
  "dispatch g c reg ''subtask.list'' raw = rpcSubtaskList raw"
  "dispatch g c reg ''agent.status'' raw = rpcAgentStatus g reg raw"
  "dispatch g c reg ''incident.export'' raw = rpcIncident g raw"
  by (simp_all add: dispatch_def)

lemma rpcHistory_keeps: "same_data s0 s \<Longrightarrow> same_data s0 (snd (rpcHistory raw s))"
  unfolding rpcHistory_def ListHistory_def
  by (simp split: option.split) (intro impI allI conjI failRpc_keeps onStore_keeps replyWith_keeps query_keeps)

lemma rpcSessions_keeps: "same_data s0 s \<Longrightarrow> same_data s0 (snd (rpcSessions raw s))"
  unfolding rpcSessions_def ListSessions_def by (intro onStore_keeps replyWith_keeps query_keeps)

lemma query_ops_keep:
  "same_data s0 s \<Longrightarrow> same_data s0 (snd (TaskEventBounds sid s))"
  "same_data s0 s \<Longrightarrow> same_data s0 (snd (ListTaskEventsFrom sid n l s))"
  "same_data s0 s \<Longrightarrow> same_data s0 (snd (ListSchedules s))"
  "same_data s0 s \<Longrightarrow> same_data s0 (snd (GetSubtasks i s))"
  unfolding TaskEventBounds_def ListTaskEventsFrom_def ListSchedules_def GetSubtasks_def by (intro query_keeps; assumption)+

lemma rpcSubscribe_keeps: "same_data s0 s \<Longrightarrow> same_data s0 (snd (rpcSubscribe c raw s))"
proof -
  have "same_data s0 (snd ((\<lambda>(lo, hi). if from0 > 0 \<and> lo > 0 \<and> from0 < int lo - 1 then failRpc ErrCodeInvalid ''replay_gap''
            else onStore (ListTaskEventsFrom sid (nat from0) 1000) (replayEvents c sid hi)) bounds t))" if "same_data s0 t" for from0 sid bounds t
    using that by (cases bounds) (simp add: failRpc_keeps onStore_keeps query_ops_keep replayEvents_keeps)
  then show "same_data s0 s \<Longrightarrow> same_data s0 (snd (rpcSubscribe c raw s))"
    unfolding rpcSubscribe_def by (simp split: option.split) (intro impI allI conjI failRpc_keeps onStore_keeps query_ops_keep; assumption)
qed

lemma rpcSystemStatus_keeps: "same_data s0 s \<Longrightarrow> same_data s0 (snd (rpcSystemStatus g reg s))"
proof -
  have "same_data s0 (snd (TaskCounts t))" if "same_data s0 t" for t
    unfolding TaskCounts_def using that by (intro query_keeps) (simp_all add: retS_def)
  then show "same_data s0 s \<Longrightarrow> same_data s0 (snd (rpcSystemStatus g reg s))"
    unfolding rpcSystemStatus_def by (intro onStore_keeps) (auto simp: Let_def)
qed

lemma rpcSubtaskList_keeps: "same_data s0 s \<Longrightarrow> same_data s0 (snd (rpcSubtaskList raw s))"
  unfolding rpcSubtaskList_def
  by (simp split: option.split) (intro impI allI conjI failRpc_keeps onStore_keeps replyWith_keeps query_ops_keep; assumption)

lemma rpcIncident_keeps: "same_data s0 s \<Longrightarrow> same_data s0 (snd (rpcIncident g raw s))"
  unfolding rpcIncident_def
  by (simp split: option.split) (intro impI allI conjI failRpc_keeps onStore_keeps replyWith_keeps ExportIncident_keeps; assumption)

lemma rpcAgentStatus_keeps: "same_data s0 s \<Longrightarrow> same_data s0 (snd (rpcAgentStatus g reg raw s))"
  unfolding rpcAgentStatus_def Let_def by (simp add: failRpc_keeps split: option.split)

lemma read_methods:
  "requiredCapabilityForMethod m = ''acp.read'' \<longleftrightarrow>
   m \<in> {''session.history'', ''session.list'', ''session.events.subscribe'', ''system.status'', ''approval.list'',
        ''cron.list'', ''subtask.list'', ''agent.list'', ''agent.status'', ''incident.export'', ''config.list''}"
  by (auto simp: requiredCapabilityForMethod_def)

lemma reads_keep:
  assumes "requiredCapabilityForMethod m = ''acp.read''" and "same_data s0 s"
  shows "same_data s0 (snd (dispatch g c reg m raw s))"
proof -
  have lists: "same_data s0 (snd (onStore ListSchedules (replyWith RSchedules) s))" "same_data s0 (snd (rpcConfigList s))"
    using assms(2) by (simp_all add: onStore_keeps replyWith_keeps query_ops_keep rpcConfigList_def)
  from assms(1) show ?thesis unfolding read_methods insert_iff empty_iff
    by (elim disjE FalseE; simp only: dispatch_reads snd_conv)
      (intro lists assms(2) rpcHistory_keeps rpcSessions_keeps rpcSubscribe_keeps rpcSystemStatus_keeps rpcSubtaskList_keeps
        rpcIncident_keeps rpcAgentStatus_keeps)+
qed

text \<open>C31. A request of a method that reads leaves the running agents and everything stored as they are, whatever its
  parameters and whatever fails: all tables but the audit log, the approvals, the policy, the configuration in
  memory and on disk.\<close>

theorem reads_change_nothing:
  assumes "requiredCapabilityForMethod (RqMethod req) = ''acp.read''" and "handleRPC g c req (reg, s) = (resp, reg', s')"
  shows "reg' = reg \<and> same_data s s'"
proof -
  have gate: "same_data s (snd (methodGate g (RqMethod req) s))" by (rule methodGate_data)
  have "RqMethod req \<noteq> ''agent.create'' \<and> RqMethod req \<noteq> ''agent.remove''" using assms(1) by (auto simp: requiredCapabilityForMethod_def)
  then have run: "runMethod g c (RqMethod req) (RqParams req) (reg, t) =
      (case dispatch g c reg (RqMethod req) (RqParams req) t of (out, t') \<Rightarrow> (out, reg, t'))" for t by (simp add: runMethod_def)
  have data: "fst (snd (handleRPC g c req (reg, s))) = reg \<and> same_data s (snd (snd (handleRPC g c req (reg, s))))"
  proof (cases "methodGate g (RqMethod req) s")
    case (Pair r s1)
    with gate have "same_data s s1" by simp
    then have "same_data s (snd (dispatch g c reg (RqMethod req) (RqParams req) s1))" by (rule reads_keep [OF assms(1)])
    with Pair \<open>same_data s s1\<close> show ?thesis
      by (cases "dispatch g c reg (RqMethod req) (RqParams req) s1")
        (simp add: handleRPC_def Let_def run same_data_refl split: option.split)
  qed
  show ?thesis using data unfolding assms(2) by simp
qed

section \<open>Schedules made over the interface\<close>

text \<open>What happens to the table of schedules in the running server: the four methods that touch it, the ticks of
  the scheduler, and everything else.\<close>

inductive cron_step :: "('x gateway_scheme) agents_map \<times> 'x gateway_scheme \<Rightarrow> ('x gateway_scheme) agents_map \<times> 'x gateway_scheme \<Rightarrow> bool" where
  cron_rpc: "RqMethod req \<in> {''cron.add'', ''cron.remove'', ''cron.enable'', ''cron.disable''} \<Longrightarrow> cron_step rs (snd (handleRPC g c req rs))"
| cron_tick: "cron_step (reg, s) (reg, tick nr t ev ids s)"
| cron_other: "schedules s' = schedules s \<Longrightarrow> cron_step (reg, s) (reg', s')"

lemma EnsureSession_schedules: "schedules (snd (EnsureSession up e i s)) = schedules s"
  by (cases "faults s") (auto simp: EnsureSession_def failS_def wrapS_def execS_def stmt_def split: option.split)

lemma unscheduled_onStore:
  assumes "unscheduled (snd (m s))" and "\<And>a t. unscheduled t \<Longrightarrow> unscheduled (snd (k a t))"
  shows "unscheduled (snd (onStore m k s))"
  using assms by (cases "m s"; cases "fst (m s)") (auto simp: onStore_def failRpc_def)

lemma unscheduled_failRpc: "unscheduled s \<Longrightarrow> unscheduled (snd (failRpc c m s))"
  by (simp add: failRpc_def)

lemma unscheduled_after:
  assumes "unscheduled (snd (m s))" and "\<And>t. unscheduled t \<Longrightarrow> unscheduled (snd (k t))"
  shows "unscheduled (snd (case m s of (Inl er, s1) \<Rightarrow> failRpc c (p er) s1 | (Inr _, s1) \<Rightarrow> k s1))"
  using assms by (cases "m s"; cases "fst (m s)") (auto simp: failRpc_def)

lemma rpcCronAdd_unscheduled: "unscheduled s \<Longrightarrow> unscheduled (snd (rpcCronAdd g raw s))"
proof -
  assume u: "unscheduled s"
  have ins: "unscheduled (snd (onStore (InsertSchedule e i r) (\<lambda>_ s. (RpcDone x, s)) t))" if "SchNextRunAt r = None" "unscheduled t"
    for e i r x and t :: "'a gateway_scheme"
    using that by (intro unscheduled_onStore unscheduled_step [OF insert_schedule]) simp_all
  have es: "unscheduled (snd (EnsureSession up e i s))" for up e i using u by (simp add: unscheduled_def EnsureSession_schedules)
  show ?thesis unfolding rpcCronAdd_def Let_def
    by (simp only: prod.case split: option.split if_split)
      (intro impI allI conjI unscheduled_failRpc [OF u] unscheduled_after es ins; simp)
qed

lemma onSchedule_unscheduled:
  "(\<And>i. unscheduled (snd (f i s))) \<Longrightarrow> unscheduled s \<Longrightarrow> unscheduled (snd (onSchedule raw f r s))"
  unfolding onSchedule_def by (simp split: option.split) (intro impI allI conjI unscheduled_failRpc unscheduled_onStore; simp)

lemma dispatch_cron:
  "dispatch g c reg ''cron.add'' raw = rpcCronAdd g raw"
  "dispatch g c reg ''cron.remove'' raw = onSchedule raw DeleteSchedule RScheduleDeleted"
  "dispatch g c reg ''cron.enable'' raw = onSchedule raw (\<lambda>i. EnableSchedule (gAt g 1) i True) RScheduleEnabled"
  "dispatch g c reg ''cron.disable'' raw = onSchedule raw (\<lambda>i. EnableSchedule (gAt g 1) i False) RScheduleDisabled"
  by (simp_all add: dispatch_def)

lemma dispatch_unscheduled:
  assumes "m \<in> {''cron.add'', ''cron.remove'', ''cron.enable'', ''cron.disable''}" and "unscheduled s"
  shows "unscheduled (snd (dispatch g c reg m raw s))"
  using assms(1) unfolding insert_iff empty_iff
  by (elim disjE FalseE; simp only: dispatch_cron)
    (intro rpcCronAdd_unscheduled onSchedule_unscheduled unscheduled_step [OF delete_schedule] unscheduled_step [OF enable_schedule] assms(2))+

lemma cron_step_unscheduled: "cron_step rs rs' \<Longrightarrow> unscheduled (snd rs) \<Longrightarrow> unscheduled (snd rs')"
proof (induction rule: cron_step.induct)
  case (cron_rpc req rs g c)
  obtain reg s where rs: "rs = (reg, s)" by (cases rs)
  obtain r s1 where gate: "methodGate g (RqMethod req) s = (r, s1)" by (cases "methodGate g (RqMethod req) s")
  have "same_data s (snd (methodGate g (RqMethod req) s))" by (rule methodGate_data)
  then have u: "unscheduled s1" using cron_rpc.prems by (simp add: gate rs same_data_def unscheduled_def)
  have "RqMethod req \<noteq> ''agent.create'' \<and> RqMethod req \<noteq> ''agent.remove''" using cron_rpc.hyps by auto
  then show ?case using dispatch_unscheduled [OF cron_rpc.hyps u, of g c reg "RqParams req"] u cron_rpc.prems
    by (cases "dispatch g c reg (RqMethod req) (RqParams req) s1")
      (simp add: handleRPC_def Let_def rs gate runMethod_def split: option.split)
next
  case (cron_tick reg s nr t ev ids)
  then show ?case using unscheduled_step [OF tick_schedules] by simp
next
  case (cron_other s' s reg reg')
  then show ?case by (simp add: unscheduled_def)
qed


section \<open>Examples\<close>

definition exGwEnv :: "string list \<Rightarrow> gateway gwEnv" where
  "exGwEnv caps = \<lparr>gAt = (\<lambda>k. exEnv 100), gUuid = (\<lambda>_. None), gNewID = (\<lambda>k. replicate (Suc k) (CHR ''n'')), gTraceID = ''tr'', gRunID = ''rn'',
     gRedact = id, gOrder = id, gChecker = (\<lambda>_. Some (policyChecker (DefaultPolicy\<lparr>AllowCapabilities := caps\<rparr>))), gFingerprint = ''fp'',
     gHomeDir = '''', gPersist = \<lparr>marshal = (\<lambda>_. Inr ''''), writeError = (\<lambda>_. None)\<rparr>, gWriteErr = None, gCreate = exCreateEnv, gGap = id,
     gStatus = (\<lambda>i _. \<lparr>StAgentID = i, StWorkerCount = 4, StActiveTasks = 0, StLastError = ''''\<rparr>)\<rparr>"

definition exRequest :: "string \<Rightarrow> string \<Rightarrow> rpcRequest" where
  "exRequest m params = \<lparr>RqVersion = ''2.0'', RqID = ''1'', RqMethod = m, RqParams = params\<rparr>"

lemma exRequest_method [simp]: "RqMethod (exRequest m params) = m"
  by (simp add: exRequest_def)

lemma exGranted: "granted (exGwEnv [''acp.read'']) ''acp.read'' s" "\<not> granted (exGwEnv [''acp.read'']) ''acp.mutate'' s"
  by (simp_all add: granted_def exGwEnv_def policyChecker_def AllowCapability_def DefaultPolicy_def containsNormalized_def norm_def trimSpace_def
      isSpaceByte_def toLower_def lowerByte_def)

theorem rpc_needs_capability_witness:
  "\<exists>resp s'. handleRPC (exGwEnv [''acp.read'']) 1 (exRequest ''cron.add'' '''') ([], exGateway emptyStore []) = (resp, [], s') \<and> \<not> succeeded resp"
proof -
  have cap: "requiredCapabilityForMethod (RqMethod (exRequest ''cron.add'' '''')) = ''acp.mutate''"
    by (simp add: requiredCapabilityForMethod_def)
  show ?thesis
    using rpc_needs_capability [of "exRequest ''cron.add'' ''''" "exGwEnv [''acp.read'']" "exGateway emptyStore []" 1 "[]"]
    unfolding cap by (auto simp: exGranted)
qed

theorem rpc_needs_handshake_witness:
  "\<exists>resp. handleRPC (exGwEnv [''acp.mutate'']) 1 (exRequest ''agent.chat'' '''') ([], exGateway emptyStore []) = (resp, [], exGateway emptyStore []) \<and>
     \<not> succeeded resp"
proof -
  have "isMutatingMethod (RqMethod (exRequest ''agent.chat'' ''''))" by (simp add: isMutatingMethod_def)
  moreover have "\<not> isHandshaken 1 (exGateway emptyStore [])" by (simp add: isHandshaken_def clientOf_def firstWhere_def)
  ultimately show ?thesis by (rule rpc_needs_handshake)
qed

theorem reads_change_nothing_witness:
  "same_data (exGateway exQueued []) (snd (snd (handleRPC (exGwEnv [''acp.read'']) 1 (exRequest ''session.list'' '''') ([], exGateway exQueued []))))"
proof -
  have "requiredCapabilityForMethod (RqMethod (exRequest ''session.list'' '''')) = ''acp.read''"
    by (simp add: requiredCapabilityForMethod_def)
  from reads_change_nothing [OF this] show ?thesis by (metis prod.collapse)
qed


end
