(* ===== verification/Gateway_Rest.thy ===== *)
theory Gateway_Rest
  imports Gateway_Http Gateway_Gate
begin

text \<open>
  What the HTTP side guarantees: the rate of granted requests, the keys that get through the middleware and
  the handlers, reads that change nothing, and the execution of plans, which no capability guards.
\<close>

section \<open>The rate of granted requests\<close>

text \<open>The limiter on a sequence of requests, given by their times and keys; the answers in order.\<close>

fun grants :: "RateLimitConfig \<Rightarrow> (nat \<times> string) list \<Rightarrow> buckets \<Rightarrow> bool list" where
  "grants cfg [] bs = []"
| "grants cfg ((t, key) # reqs) bs = (case takeToken cfg t key bs of (ok, b1) \<Rightarrow> ok # grants cfg reqs b1)"

definition grantedTo :: "string \<Rightarrow> RateLimitConfig \<Rightarrow> (nat \<times> string) list \<Rightarrow> buckets \<Rightarrow> nat" where
  "grantedTo key cfg reqs bs = length (filter (\<lambda>((t, k), ok). k = key \<and> ok) (zip reqs (grants cfg reqs bs)))"

lemma grantedTo_simps [simp]:
  "grantedTo key cfg [] bs = 0"
  "grantedTo key cfg ((t, k) # reqs) bs =
    (case takeToken cfg t k bs of (ok, b1) \<Rightarrow> (if k = key \<and> ok then 1 else 0) + grantedTo key cfg reqs b1)"
  by (auto simp: grantedTo_def split: prod.split)

lemma map_of_update: "map_of (AList.update k v bs) j = (if j = k then Some v else map_of bs j)"
  by (simp add: update_conv')

lemma takeToken_other: "k \<noteq> key \<Longrightarrow> map_of (snd (takeToken cfg t k bs)) key = map_of bs key"
  by (simp add: takeToken_def map_of_update split: prod.split)

lemma takeToken_this: "map_of (snd (takeToken cfg t key bs)) key = Some (snd (Allow t (getBucket cfg t key bs)))"
  by (simp add: takeToken_def map_of_update split: prod.split)

text \<open>A bucket never holds more than what is left of its allowance since an instant \<open>t0\<close>.\<close>

definition paid :: "nat \<Rightarrow> TokenBucket \<Rightarrow> nat \<Rightarrow> bool" where
  "paid t0 tb n \<longleftrightarrow> t0 \<le> lastRefill tb \<and> 0 \<le> refillRate tb \<and>
     of_nat n + tokens tb \<le> maxTokens tb + (of_nat (lastRefill tb) - of_nat t0) / 10^9 * refillRate tb"

lemma Allow_pays:
  assumes "paid t0 tb n" and "lastRefill tb \<le> t" and "Allow t tb = (ok, tb')"
  shows "paid t0 tb' (n + (if ok then 1 else 0)) \<and> lastRefill tb' = t \<and> maxTokens tb' = maxTokens tb \<and> refillRate tb' = refillRate tb \<and>
    (0 \<le> tokens tb \<longrightarrow> 0 \<le> maxTokens tb \<longrightarrow> 0 \<le> tokens tb')"
proof -
  let ?d = "(of_nat t - of_nat (lastRefill tb)) / 10^9 * refillRate tb"
  have r: "refill t tb \<le> tokens tb + ?d" by (simp add: refill_def)
  have d: "0 \<le> ?d" using assms(1,2) by (simp add: paid_def)
  have split: "(of_nat t - of_nat t0) / 10^9 * refillRate tb = (of_nat (lastRefill tb) - of_nat t0) / 10^9 * refillRate tb + ?d"
    by (simp add: field_simps)
  have tb': "tb' = tb\<lparr>tokens := (if refill t tb \<ge> 1 then refill t tb - 1 else refill t tb), lastRefill := t, lastAccess := t\<rparr>"
    and ok: "ok = (refill t tb \<ge> 1)" using assms(3) by (auto simp: Allow_def Let_def)
  have "0 \<le> tokens tb \<longrightarrow> 0 \<le> maxTokens tb \<longrightarrow> 0 \<le> refill t tb" using d by (simp add: refill_def)
  moreover have "of_nat n + refill t tb \<le> maxTokens tb + (of_nat t - of_nat t0) / 10^9 * refillRate tb"
    using r split assms(1) unfolding paid_def by linarith
  moreover have "t0 \<le> t" "0 \<le> refillRate tb" using assms(1,2) by (auto simp: paid_def)
  ultimately show ?thesis unfolding paid_def tb' ok by simp
qed

lemma grantedTo_bounded:
  assumes "map_of bs key = Some tb" and "paid t0 tb n" and "0 \<le> tokens tb" and "0 \<le> maxTokens tb"
    and "sorted (lastRefill tb # map fst reqs)" and "\<forall>x\<in>set reqs. fst x \<le> T" and "lastRefill tb \<le> T"
  shows "of_nat (n + grantedTo key cfg reqs bs) \<le> maxTokens tb + (of_nat T - of_nat t0) / 10^9 * refillRate tb"
  using assms
proof (induction reqs arbitrary: bs tb n)
  case Nil
  have "(of_nat (lastRefill tb) - of_nat t0) / 10^9 * refillRate tb \<le> (of_nat T - of_nat t0) / 10^9 * refillRate tb"
    using Nil.prems(2,7) by (intro mult_right_mono divide_right_mono) (simp_all add: paid_def)
  then show ?case using Nil.prems(2,3) by (simp add: paid_def)
next
  case (Cons x reqs)
  obtain t k where x: "x = (t, k)" by (cases x)
  obtain ok b1 where tk: "takeToken cfg t k bs = (ok, b1)" by (cases "takeToken cfg t k bs")
  show ?case
  proof (cases "k = key")
    case False
    then have "map_of b1 key = Some tb" using takeToken_other [OF False, of cfg t bs] tk Cons.prems(1) by simp
    moreover have "sorted (lastRefill tb # map fst reqs)" using Cons.prems(5) x by (auto simp: sorted_wrt.simps)
    ultimately show ?thesis using Cons.IH [of b1 tb n] Cons.prems False x tk by simp
  next
    case True
    obtain tb' where al: "Allow t tb = (ok, tb')"
      using tk True Cons.prems(1) by (cases "Allow t tb") (simp add: takeToken_def getBucket_def)
    have b1: "map_of b1 key = Some tb'" using takeToken_this [of cfg t key bs] tk True Cons.prems(1) al by (simp add: getBucket_def)
    have le: "lastRefill tb \<le> t" "t \<le> T" using Cons.prems(5,6) x by auto
    note pay = Allow_pays [OF Cons.prems(2) le(1) al]
    have "of_nat (n + (if ok then 1 else 0) + grantedTo key cfg reqs b1) \<le> maxTokens tb' + (of_nat T - of_nat t0) / 10^9 * refillRate tb'"
      using Cons.prems pay le x b1 by (intro Cons.IH) auto
    then show ?thesis using True x tk pay by (simp add: add.assoc)
  qed
qed

text \<open>An eviction forgets what a key has spent: its next request finds a full bucket.\<close>

lemma eviction_restores_burst:
  assumes "distinct (map fst bs)" and "(key, tb) \<in> set bs" and "lastAccess tb + maxAge < t"
  shows "getBucket cfg t key (EvictStale t maxAge bs) = NewTokenBucket t (RequestsPerMinute cfg) (BurstSize cfg)"
proof -
  have "map_of (EvictStale t maxAge bs) key = None"
    using assms by (auto simp: EvictStale_def map_of_eq_None_iff dest: eq_key_imp_eq_value)
  then show ?thesis by (simp add: getBucket_def)
qed


section \<open>Reads\<close>

lemma withStore_keeps: "same_data s0 (snd (m s)) \<Longrightarrow> same_data s0 (snd (withStore st m k s))"
  by (cases "m s"; cases "fst (m s)") (auto simp: withStore_def)

lemma getOnly_keeps: "(same_data s0 s \<Longrightarrow> same_data s0 (snd (f s))) \<Longrightarrow> same_data s0 s \<Longrightarrow> same_data s0 (snd (getOnly token r f s))"
  by (simp add: getOnly_def)

lemma rest_ops_keep:
  "same_data s0 s \<Longrightarrow> same_data s0 (snd (ListTasksPaginated st li off s))"
  "same_data s0 s \<Longrightarrow> same_data s0 (snd (GetTask i s))"
  "same_data s0 s \<Longrightarrow> same_data s0 (snd (ListSessions li s))"
  "same_data s0 s \<Longrightarrow> same_data s0 (snd (ListHistory sid a li s))"
  "same_data s0 s \<Longrightarrow> same_data s0 (snd (TaskCounts s))"
  "same_data s0 s \<Longrightarrow> same_data s0 (snd (TotalEventCount s))"
  "same_data s0 s \<Longrightarrow> same_data s0 (snd (MetricsCounts e s))"
  "same_data s0 s \<Longrightarrow> same_data s0 (snd (TotalAgentMessageCount s))"
  "same_data s0 s \<Longrightarrow> same_data s0 (snd (TotalDelegationCount s))"
  unfolding ListTasksPaginated_def Let_def GetTask_def ListSessions_def ListHistory_def TaskCounts_def TotalEventCount_def MetricsCounts_def
    TotalAgentMessageCount_def TotalDelegationCount_def
  by (intro query_keeps; simp add: retS_def)+

definition keeps :: "('x gateway_scheme \<Rightarrow> httpResponse \<times> 'x gateway_scheme) \<Rightarrow> bool" where
  "keeps f \<longleftrightarrow> (\<forall>s t. same_data s t \<longrightarrow> same_data s (snd (f t)))"

lemma keepsI: "(\<And>s t. same_data s t \<Longrightarrow> same_data s (snd (f t))) \<Longrightarrow> keeps f"
  by (simp add: keeps_def)

text \<open>What each route does: a read behind \<open>getOnly\<close>, the plans, one of the open paths or the 404.\<close>

lemma restRoute_E:
  assumes "restRoute h reg r s = Some (resp, l, s')"
  obtains (metrics) "HPath r = ''/metrics''" "handleMetrics h reg r s = (resp, s')" "l = None"
  | (health) "HPath r = ''/healthz''" "handleHealthz h reg s = (resp, s')" "l = None"
  | (reading) f where "getOnly (heToken h) r f s = (resp, s')" "l = None" "keeps f"
  | (plans) "handleAPIPlansRoute h r s = (resp, l, s')"
  | (card) "HPath r = ''/.well-known/agent.json''" "handleAgentCard reg r s = (resp, s')" "l = None"
  | (missing) "resp = httpError 404 ''404 page not found''" "l = None" "s' = s"
proof -
  have plain: "(case m of (a, b) \<Rightarrow> Some (a, None, b)) = Some (resp, l, s') \<longleftrightarrow> m = (resp, s') \<and> l = None" for m
    by (cases m) auto
  have k: "keeps (withStore 500 (ListTasksPaginated a b c) f1)" "keeps (withStore 404 (GetTask a) f2)" "keeps (withStore 500 (ListSessions b) f3)"
      "keeps (withStore 500 (ListHistory a d b) f4)" "keeps (Pair x)" "keeps (withStore 500 (\<lambda>t. (st t, t)) f5)" "keeps (\<lambda>s. (g s, s))"
    for a b c d f1 f2 f3 f4 f5 x st g
    by (intro keepsI; simp add: withStore_keeps rest_ops_keep)+
  have t: "keeps (if b then f else g)" if "keeps f" "keeps g" for b f g using that by simp
  have sk: "keeps (case q of None \<Rightarrow> Pair x | Some st \<Rightarrow> withStore 500 (\<lambda>t. (st t, t)) f5)" for q x f5
    using k(5,6) by (cases q) simp_all
  note reads = k t sk
  show thesis
    using assms unfolding restRoute_def Let_def plain
    apply (simp only: plain split: if_split_asm)
               apply simp
              apply (erule conjE, rule metrics; assumption)
             apply (erule conjE, rule health; assumption)
            apply (erule conjE, unfold handleAPITasks_def, erule reading, assumption, rule reads)
           apply (erule conjE, unfold handleAPITaskByID_def Let_def, erule reading, assumption, intro reads)
          apply (erule conjE, unfold handleAPISessions_def, erule reading, assumption, rule reads)
         apply (erule conjE, unfold handleAPISessionMessages_def Let_def, erule reading, assumption, intro reads)
        apply (erule conjE, unfold handleAPISkills_def, erule reading, assumption, rule reads)
       apply (erule conjE, unfold handleAPIConfig_def, erule reading, assumption, rule reads)
      apply (rule plans, simp)
     apply (erule conjE, rule card; assumption)
    apply (rule missing; simp)
    done
qed

section \<open>Keys and tokens\<close>

definition cardPath :: string where
  "cardPath = ''/.well-known/agent.json''"

text \<open>The mux with its background work; \<open>other\<close> serves the routes of the other interfaces.\<close>

definition restMux :: "'x gateway_scheme httpEnv \<Rightarrow> 'x gateway_scheme agents_map \<Rightarrow>
    (httpRequest \<Rightarrow> launch list \<times> 'x gateway_scheme \<Rightarrow> httpResponse \<times> launch list \<times> 'x gateway_scheme) \<Rightarrow>
    httpRequest \<Rightarrow> launch list \<times> 'x gateway_scheme \<Rightarrow> httpResponse \<times> launch list \<times> 'x gateway_scheme" where
  "restMux h reg other r ls =
    (case restRoute h reg r (snd ls) of None \<Rightarrow> other r ls
     | Some (resp, l, s1) \<Rightarrow> (resp, fst ls @ (case l of None \<Rightarrow> [] | Some x \<Rightarrow> [x]), s1))"

lemma authorize_token:
  "authorize token hdr \<Longrightarrow> trimSpace hdr = hdr \<Longrightarrow> prefix ''Bearer '' hdr \<and> trimSpace (drop 7 hdr) = token \<and> token \<noteq> ''''"
  by (auto simp: authorize_def Let_def split: if_splits)

lemma getOnly_refuses: "\<not> authorize token (HAuthorization r) \<Longrightarrow> \<exists>st msg. st \<in> {401, 405} \<and> getOnly token r f s = (httpError st msg, s)"
  by (auto simp: getOnly_def)

lemma handleAPIPlansRoute_refuses:
  assumes "\<not> authorize (heToken h) (HAuthorization r)" and "handleAPIPlansRoute h r s = (resp, l, s')"
  shows "HStatus resp \<in> {401, 404} \<and> l = None \<and> s' = s"
  using assms unfolding handleAPIPlansRoute_def handleAPIPlans_def handleExecutePlan_def Let_def
  by (simp add: httpError_def split: if_split_asm) auto

lemma rest_refuses:
  assumes "\<not> authorize (heToken h) (HAuthorization r)" and "\<not> openPath (HPath r)" and "HPath r \<noteq> cardPath"
    and "restRoute h reg r s = Some (resp, l, s')"
  shows "HStatus resp \<in> {401, 404, 405} \<and> l = None \<and> s' = s"
  using assms(4)
proof (cases rule: restRoute_E)
  case (reading f)
  then show ?thesis using assms(1) by (auto simp: getOnly_def httpError_def split: if_splits)
next
  case plans
  then show ?thesis using handleAPIPlansRoute_refuses [OF assms(1)] by blast
qed (use assms(2,3) in \<open>simp_all add: openPath_def cardPath_def httpError_def\<close>)

text \<open>C29. With API keys enabled, a request reaches the REST interface only with a key that is the token of the server:
  if any of its routes, but for the health check, the metrics and the agent card, answers with success, then
  the configured keys contain one that is, but for blanks around it, the token itself. (The key check and the handlers read
  the same header; every other configured key is refused by one or the other.)\<close>

theorem api_key_must_be_token:
  assumes "AuthEnabled (GsAuth cfg)" and "trimSpace (HAuthorization r) = HAuthorization r"
    and "\<not> openPath (HPath r)" and "HPath r \<noteq> cardPath" and "restRoute h reg (r\<lparr>HBody := b\<rparr>) s \<noteq> None"
    and "b = take (nat (if GsMaxRequestSize cfg \<le> 0 then 10 * 1024 * 1024 else GsMaxRequestSize cfg)) (HBody r)"
    and "fst (buildHandler cfg t (restMux h reg other) r (bs, ls, s)) = resp" and "HStatus resp \<in> {200, 202}"
  shows "\<exists>k\<in>set (AuthKeys (GsAuth cfg)). trimSpace (KeyText k) = heToken h"
proof -
  let ?r = "r\<lparr>HBody := b\<rparr>"
  have resp: "resp = fst (corsWrap (GsCORS cfg) (authWrap (GsAuth cfg) (limitWrap (GsRateLimit cfg) t (restMux h reg other))) ?r (bs, ls, s))"
    using assms(6,7) by (simp add: buildHandler_def sizeWrap_def)
  let ?auth = "authWrap (GsAuth cfg) (limitWrap (GsRateLimit cfg) t (restMux h reg other)) ?r (bs, ls, s)"
  have "HStatus (fst ?auth) \<in> {200, 202}" using assms(8) unfolding resp by (auto simp: corsWrap_def split: if_splits prod.splits)
  then have key: "map_of (NewAuthMiddleware (GsAuth cfg)) (ExtractAPIKey ?r) \<noteq> None"
    and lim: "HStatus (fst (limitWrap (GsRateLimit cfg) t (restMux h reg other) ?r (bs, ls, s))) \<in> {200, 202}"
    using assms(1,3) by (auto simp: authWrap_def Let_def httpError_def split: if_splits)
  obtain rr l s' where rt: "restRoute h reg ?r s = Some (rr, l, s')" using assms(5) by (metis option.exhaust prod_cases3)
  have "HStatus rr \<in> {200, 202}" using lim assms(3) rt
    by (auto simp: limitWrap_def Let_def restMux_def httpError_def split: if_splits prod.splits bool.splits)
  then have "authorize (heToken h) (HAuthorization r)" using rest_refuses [OF _ _ _ rt] assms(3,4) by fastforce
  then have "prefix ''Bearer '' (HAuthorization r)" "trimSpace (drop 7 (HAuthorization r)) = heToken h"
    using authorize_token assms(2) by simp_all
  then have "trimSpace (ExtractAPIKey ?r) = heToken h" by (simp add: ExtractAPIKey_def trimPrefix_def eval_nat_numeral)
  moreover have "ExtractAPIKey ?r \<in> KeyText ` set (AuthKeys (GsAuth cfg))"
    using key by (auto simp: NewAuthMiddleware_def map_of_eq_None_iff image_iff)
  ultimately show ?thesis by auto
qed

section \<open>Reads and the plans\<close>

lemma handleMetrics_keeps: "same_data s (snd (handleMetrics h reg r s))"
  unfolding handleMetrics_def Let_def by (auto simp: same_data_refl intro!: rest_ops_keep)

lemma handleHealthz_keeps: "same_data s (snd (handleHealthz h reg s))"
proof -
  have "same_data s (snd (TotalEventCount (snd (TaskCounts s))))" by (intro rest_ops_keep same_data_refl)
  then show ?thesis by (cases "TaskCounts s"; cases "TotalEventCount (snd (TaskCounts s))") (simp add: handleHealthz_def Let_def)
qed

text \<open>Over HTTP only a POST changes anything: a request with any other method leaves every table, the queue, the
  engine, the approvals and the plans as they were and starts nothing in the background, whatever its path and whoever
  sends it.\<close>

theorem rest_reads_change_nothing:
  assumes "HMethod r \<noteq> ''POST''" and "restRoute h reg r s = Some (resp, l, s')"
  shows "l = None \<and> same_data s s'"
  using assms(2)
proof (cases rule: restRoute_E)
  case metrics
  then show ?thesis using handleMetrics_keeps [of s h reg r] by simp
next
  case health
  then show ?thesis using handleHealthz_keeps [of s h reg] by simp
next
  case (reading f)
  then show ?thesis using getOnly_keeps [of s s f "heToken h" r] by (simp add: keeps_def same_data_refl)
next
  case plans
  then show ?thesis using assms(1) by (auto simp: handleAPIPlansRoute_def handleAPIPlans_def same_data_refl split: if_splits)
next
  case card
  then show ?thesis by (auto simp: handleAgentCard_def same_data_refl split: if_splits)
qed (simp add: same_data_refl)

lemma planNameOf_path: "HPath r = ''/api/plans/'' @ p @ ''/execute'' \<Longrightarrow> planNameOf r = p"
  by (simp add: planNameOf_def trimPrefix_def trimSuffix_def suffix_def)

lemma EnsureSession_ok:
  assumes "up sid = None" and "faults s = []"
  shows "\<exists>ss. EnsureSession up e sid s = (Inr (), s\<lparr>sessions := ss\<rparr>) \<and> (\<exists>x\<in>set ss. s_id x = sid)"
proof (cases "hasSession sid s")
  case True
  then show ?thesis using assms
    by (intro exI [of _ "sessions s"]) (simp add: EnsureSession_def wrapS_def execS_def stmt_def hasSession_def)
next
  case False
  let ?ss = "sessions s @ [\<lparr>s_id = sid, s_soul_hash = None, s_created_at = CURRENT_TIMESTAMP e, s_updated_at = CURRENT_TIMESTAMP e\<rparr>]"
  show ?thesis using assms False by (intro exI [of _ ?ss]) (simp add: EnsureSession_def wrapS_def execS_def stmt_def)
qed

lemma publishS_bus: "publishS t p s = (Inr (), s\<lparr>bus := (case bus s of None \<Rightarrow> None | Some b \<Rightarrow> Some (Publish b t p))\<rparr>)"
  by (cases s; cases "bus s") (simp_all add: publishS_def)

lemma CreatePlanExecution_ok:
  assumes "faults s = []" and "\<not> hasExecution i s" and "hasSession sid s"
  shows "\<exists>b. CreatePlanExecution e i pn sid n s = (Inr (), s\<lparr>plan_executions := plan_executions s @
    [\<lparr>pe_id = i, pe_plan_name = pn, pe_session_id = sid, pe_status = ''running'', pe_total_steps = n, pe_completed_steps = 0,
      pe_current_wave = 0, pe_total_cost = 0, pe_created_at = CURRENT_TIMESTAMP e, pe_completed_at = None, pe_updated_at = CURRENT_TIMESTAMP e\<rparr>],
    bus := b\<rparr>)"
  using assms
  by (auto simp: CreatePlanExecution_def bindS_def with_tx_def wrapS_def execCheck_def execS_def stmt_def retS_def publishS_bus
      planExecutionCheck_def)


section \<open>Examples\<close>

definition exLimit :: RateLimitConfig where
  "exLimit = \<lparr>RateEnabled = True, RequestsPerMinute = 60, BurstSize = 2\<rparr>"

definition exBucket :: "rat \<Rightarrow> nat \<Rightarrow> TokenBucket" where
  "exBucket n t = \<lparr>tokens = n, maxTokens = 2, refillRate = 1, lastRefill = t, lastAccess = t\<rparr>"

lemma exAllow: "Allow t (exBucket n t0) = (let m = min 2 (n + (of_nat t - of_nat t0) / 10^9) in (1 \<le> m, exBucket (if 1 \<le> m then m - 1 else m) t))"
  by (simp add: Allow_def refill_def exBucket_def Let_def)

lemma exTake: "takeToken exLimit t ''k'' [(''k'', exBucket n t0)] = (case Allow t (exBucket n t0) of (ok, b) \<Rightarrow> (ok, [(''k'', b)]))"
  "takeToken exLimit t ''k'' [] = (case Allow t (exBucket 2 t) of (ok, b) \<Rightarrow> (ok, [(''k'', b)]))"
  by (simp_all add: takeToken_def getBucket_def exLimit_def exBucket_def NewTokenBucket_def split: prod.split)

definition exHttpEnv :: "gateway httpEnv" where
  "exHttpEnv = \<lparr>heGw = exGwEnv [], heToken = ''tok'', heSkillsStatus = None,
     heExecutor = Some \<lparr>taskRouter = (\<lambda>_ _ _ s. (Inl (ErrMsg ''no agent''), s)), hasWaiter = False, waiterBus = False, hasStore = False\<rparr>\<rparr>"

definition exGet :: "string \<Rightarrow> string \<Rightarrow> httpRequest" where
  "exGet path key = \<lparr>HMethod = ''GET'', HPath = path, HAuthorization = ''Bearer '' @ key, HApiKey = '''', HOrigin = '''', HQuery = (\<lambda>_. ''''),
     HBody = '''', HContentLength = 0, HRemoteAddr = ''1.2.3.4:5''\<rparr>"

definition exSecurity :: "string list \<Rightarrow> GatewaySecurityConfig" where
  "exSecurity keys =
    \<lparr>GsAuth = \<lparr>AuthEnabled = True, AuthKeys = map (\<lambda>k. \<lparr>KeyText = k, KeyDescription = '''', KeyAgentIDs = [], KeyRateLimit = 0\<rparr>) keys\<rparr>,
     GsRateLimit = exLimit\<lparr>RateEnabled := False\<rparr>,
     GsCORS = \<lparr>CorsEnabled = False, AllowedOrigins = [], AllowedMethods = [], AllowedHeaders = [], MaxAge = 0\<rparr>,
     GsMaxRequestSize = 0\<rparr>"


abbreviation exServe :: "string list \<Rightarrow> string \<Rightarrow> httpResponse" where
  "exServe keys key \<equiv> fst (buildHandler (exSecurity keys) 0 (restMux exHttpEnv [] (\<lambda>r s. (httpError 404 '''', s))) (exGet ''/api/config'' key)
     ([], [], exGateway emptyStore []))"

lemma exServe_passed:
  "fst (buildHandler (exSecurity [c # cs]) 0 mux (exGet p (c # cs)) (bs, ls)) = fst (mux (exGet p (c # cs)) ls)"
  by (simp add: buildHandler_def sizeWrap_def corsWrap_def authWrap_def limitWrap_def NewRateLimitMiddleware_def exSecurity_def exGet_def exLimit_def
      ExtractAPIKey_def trimPrefix_def NewAuthMiddleware_def split: prod.split)

lemma restMux_config:
  "HPath r = ''/api/config'' \<Longrightarrow> restMux h reg other r (ls, s) = (fst (handleAPIConfig h r s), ls, snd (handleAPIConfig h r s))"
  by (simp add: restMux_def restRoute_def Let_def split: prod.split)

lemma exConfig:
  "HStatus (fst (handleAPIConfig exHttpEnv (exGet ''/api/config'' ''tok'') s)) = 200"
  "HStatus (fst (handleAPIConfig exHttpEnv (exGet ''/api/config'' ''key'') s)) = 401"
  by (simp_all add: handleAPIConfig_def getOnly_def authorize_def exGet_def exHttpEnv_def httpOK_def httpError_def trimSpace_def isSpaceByte_def)

lemma exGet_path [simp]: "HPath (exGet p key) = p"
  by (simp add: exGet_def)

lemma exServe_own: "exServe [c # cs] (c # cs) = fst (handleAPIConfig exHttpEnv (exGet ''/api/config'' (c # cs)) (exGateway emptyStore []))"
  by (simp add: exServe_passed restMux_config)

lemma exServe_status: "HStatus (exServe [''tok''] ''tok'') = 200" "HStatus (exServe [''key''] ''key'') = 401" "HStatus (exServe [''key''] ''tok'') = 403"
proof -
  show "HStatus (exServe [''tok''] ''tok'') = 200" "HStatus (exServe [''key''] ''key'') = 401" by (simp_all only: exServe_own exConfig)
  show "HStatus (exServe [''key''] ''tok'') = 403"
    by (simp add: buildHandler_def sizeWrap_def corsWrap_def authWrap_def openPath_def exSecurity_def exGet_def ExtractAPIKey_def trimPrefix_def
        NewAuthMiddleware_def httpError_def)
qed

theorem api_key_must_be_token_witness:
  "HStatus (exServe [''tok''] ''tok'') = 200 \<and> (\<exists>k\<in>set (AuthKeys (GsAuth (exSecurity [''tok'']))). trimSpace (KeyText k) = heToken exHttpEnv) \<and>
   HStatus (exServe [''key''] ''key'') = 401 \<and> HStatus (exServe [''key''] ''tok'') = 403"
proof -
  let ?r = "exGet ''/api/config'' ''tok''"
  have "\<exists>k\<in>set (AuthKeys (GsAuth (exSecurity [''tok'']))). trimSpace (KeyText k) = heToken exHttpEnv"
  proof (rule api_key_must_be_token [of _ ?r "exHttpEnv" "[]" "''''" "exGateway emptyStore []" 0 "\<lambda>r s. (httpError 404 '''', s)" "[]" "[]", OF _ _ _ _ _ _ refl])
    show "restRoute exHttpEnv [] (?r\<lparr>HBody := ''''\<rparr>) (exGateway emptyStore []) \<noteq> None"
      by (simp add: exGet_def restRoute_def Let_def split: prod.split)
    show "HStatus (exServe [''tok''] ''tok'') \<in> {200, 202}" by (simp only: exServe_status) simp
  qed (simp_all add: exSecurity_def exGet_def openPath_def cardPath_def trimSpace_def isSpaceByte_def)
  then show ?thesis using exServe_status by blast
qed

theorem rest_reads_change_nothing_witness:
  "\<exists>resp s'. restRoute exHttpEnv [] (exGet ''/api/plans/p/execute'' ''tok'') (exGateway exQueued []) = Some (resp, None, s') \<and>
     same_data (exGateway exQueued []) s'"
proof -
  have "restRoute exHttpEnv [] (exGet ''/api/plans/p/execute'' ''tok'') (exGateway exQueued []) \<noteq> None"
    by (simp add: exGet_def restRoute_def Let_def)
  then obtain resp l s' where r: "restRoute exHttpEnv [] (exGet ''/api/plans/p/execute'' ''tok'') (exGateway exQueued []) = Some (resp, l, s')" by auto
  have "l = None \<and> same_data (exGateway exQueued []) s'" by (rule rest_reads_change_nothing [OF _ r]) (simp add: exGet_def)
  with r show ?thesis by blast
qed

definition exExecute :: httpRequest where
  "exExecute = (exGet ''/api/plans/p/execute'' ''tok'')\<lparr>HMethod := ''POST'', HBody := ''{\"session_id\":\"s\"}'', HContentLength := 18\<rparr>"

lemma exExecute_session: "planRequest exExecute = Some ''s''"
  by code_simp


end
