(* ===== verification/Skill_Registry.thy ===== *)
theory Skill_Registry
  imports Schedules
begin

text \<open>
  The registry of WASM skills (\<open>internal/persistence/skills_store.go\<close>): registration, faults, quarantine,
  and the provenance rows of the installer, which share the table. A row without \<open>installed_at\<close> was made
  by \<open>UpsertSkill\<close>. The abstract specification counts the faults of a skill since its last reset; the
  operations of the table refine it.
\<close>

section \<open>Operations\<close>

record SkillRecord =
  SkillID :: string
  SkVersion :: string
  ABIVersion :: string
  SkState :: string
  FaultCount :: int

record InstalledSkillRecord =
  InsSkillID :: string
  InsSource :: string
  InsSourceURL :: string
  InsRef :: string
  InstalledAt :: "ts option"

definition DefaultQuarantineThreshold :: int where
  "DefaultQuarantineThreshold = 5"

definition isSkill :: "string \<Rightarrow> skill_row \<Rightarrow> bool" where
  "isSkill i r \<longleftrightarrow> sk_id r = i"

definition updSkills :: "(skill_row list \<Rightarrow> skill_row list) \<Rightarrow> 'x side_store_scheme \<Rightarrow> 'x side_store_scheme" where
  "updSkills f s = s\<lparr>skill_registry := f (skill_registry s)\<rparr>"

definition ListSkills :: "'x side_store_scheme \<Rightarrow> (err + SkillRecord list) \<times> 'x side_store_scheme" where
  "ListSkills = wrapS ''list skills'' (queryS (\<lambda>s.
     map (\<lambda>r. \<lparr>SkillID = sk_id r, SkVersion = sk_version r, ABIVersion = sk_abi_version r, SkState = sk_state r, FaultCount = sk_fault_count r\<rparr>)
       (sort_key sk_id (filter (\<lambda>r. sk_abi_version r \<noteq> ''n/a'') (skill_registry s)))))"

definition UpsertSkill :: "env \<Rightarrow> string \<Rightarrow> string \<Rightarrow> string \<Rightarrow> string \<Rightarrow> 'x side_store_scheme \<Rightarrow> (err + unit) \<times> 'x side_store_scheme" where
  "UpsertSkill e i version abiVersion contentHash =
    wrapS ''upsert skill'' (execS (updSkills (upsertRow (isSkill i)
      (\<lambda>r. r\<lparr>sk_version := version, sk_abi_version := abiVersion, sk_content_hash := contentHash, sk_state := ''active'',
         sk_fault_count := 0, sk_updated_at := CURRENT_TIMESTAMP e\<rparr>)
      \<lparr>sk_id = i, sk_version = version, sk_abi_version = abiVersion, sk_content_hash = contentHash, sk_state = ''active'',
       sk_source = ''local'', sk_source_url = '''', sk_ref = '''', sk_installed_at = None, sk_last_fault_at = None, sk_fault_count = 0,
       sk_created_at = CURRENT_TIMESTAMP e, sk_updated_at = CURRENT_TIMESTAMP e\<rparr>)))"

definition RegisterInstalledSkill :: "env \<Rightarrow> string \<Rightarrow> string \<Rightarrow> string \<Rightarrow> string \<Rightarrow> 'x side_store_scheme \<Rightarrow>
    (err + unit) \<times> 'x side_store_scheme" where
  "RegisterInstalledSkill e i source0 sourceURL ref =
    (if trimSpace i = '''' then failS (ErrMsg ''empty skillID'')
     else let source = (if trimSpace source0 = '''' then ''local'' else source0) in
       wrapS ''register installed skill'' (execS (updSkills (upsertRow (isSkill i)
         (\<lambda>r. r\<lparr>sk_source := source, sk_source_url := sourceURL, sk_ref := ref, sk_installed_at := Some (CURRENT_TIMESTAMP e),
            sk_updated_at := CURRENT_TIMESTAMP e\<rparr>)
         \<lparr>sk_id = i, sk_version = ''installed'', sk_abi_version = ''n/a'', sk_content_hash = '''', sk_state = ''active'',
          sk_source = source, sk_source_url = sourceURL, sk_ref = ref, sk_installed_at = Some (CURRENT_TIMESTAMP e),
          sk_last_fault_at = None, sk_fault_count = 0, sk_created_at = CURRENT_TIMESTAMP e, sk_updated_at = CURRENT_TIMESTAMP e\<rparr>))))"

definition ListInstalledSkills :: "'x side_store_scheme \<Rightarrow> (err + InstalledSkillRecord list) \<times> 'x side_store_scheme" where
  "ListInstalledSkills = wrapS ''list installed skills'' (queryS (\<lambda>s.
     map (\<lambda>r. \<lparr>InsSkillID = sk_id r, InsSource = sk_source r, InsSourceURL = sk_source_url r, InsRef = sk_ref r, InstalledAt = sk_installed_at r\<rparr>)
       (sort_key sk_id (filter (\<lambda>r. sk_installed_at r \<noteq> None) (skill_registry s)))))"

definition RemoveInstalledSkill :: "string \<Rightarrow> 'x side_store_scheme \<Rightarrow> (err + unit) \<times> 'x side_store_scheme" where
  "RemoveInstalledSkill i =
    (if trimSpace i = '''' then failS (ErrMsg ''empty skillID'')
     else bindS (wrapS ''remove installed skill'' (execCount
            (\<lambda>s. countWhere (\<lambda>r. isSkill i r \<and> sk_installed_at r \<noteq> None) (skill_registry s))
            (updSkills (delWhere (\<lambda>r. isSkill i r \<and> sk_installed_at r \<noteq> None)))))
       (\<lambda>rows. if rows = 0 then failS (ErrMsg (''installed skill not found: '' @ i)) else retS ()))"

text \<open>\<open>UPDATE ... RETURNING state\<close> answers the new state of the row, or no row.\<close>

definition faultedSkill :: "env \<Rightarrow> int \<Rightarrow> skill_row \<Rightarrow> skill_row" where
  "faultedSkill e threshold r = r\<lparr>sk_fault_count := sk_fault_count r + 1, sk_last_fault_at := Some (CURRENT_TIMESTAMP e),
     sk_state := (if sk_fault_count r + 1 \<ge> threshold then ''quarantined'' else sk_state r), sk_updated_at := CURRENT_TIMESTAMP e\<rparr>"

definition IncrementSkillFault :: "env \<Rightarrow> string \<Rightarrow> int \<Rightarrow> 'x side_store_scheme \<Rightarrow> (err + bool) \<times> 'x side_store_scheme" where
  "IncrementSkillFault e i threshold0 =
    (let threshold = (if threshold0 \<le> 0 then DefaultQuarantineThreshold else threshold0) in
     bindS (wrapS ''increment skill fault'' (noRowsAsNone (stmt (\<lambda>s. case firstWhere (isSkill i) (skill_registry s) of
           None \<Rightarrow> (Inl ErrNoRows, s)
         | Some r \<Rightarrow> (Inr (sk_state (faultedSkill e threshold r)), updSkills (updWhere (isSkill i) (faultedSkill e threshold)) s)))))
     (\<lambda>state. retS (state = Some ''quarantined'')))"

definition IsSkillQuarantined :: "string \<Rightarrow> 'x side_store_scheme \<Rightarrow> (err + bool) \<times> 'x side_store_scheme" where
  "IsSkillQuarantined i =
    bindS (wrapS ''check skill quarantine'' (noRowsAsNone (queryRow (\<lambda>s. map_option sk_state (firstWhere (isSkill i) (skill_registry s))))))
    (\<lambda>state. retS (state = Some ''quarantined''))"

definition ReenableSkill :: "env \<Rightarrow> string \<Rightarrow> 'x side_store_scheme \<Rightarrow> (err + unit) \<times> 'x side_store_scheme" where
  "ReenableSkill e i = wrapS ''reenable skill'' (execS (updSkills (updWhere (isSkill i)
     (\<lambda>r. r\<lparr>sk_state := ''active'', sk_fault_count := 0, sk_updated_at := CURRENT_TIMESTAMP e\<rparr>))))"

section \<open>Specification\<close>

text \<open>What the table is to remember of a skill: its faults since the last reset and whether it was installed.\<close>

datatype skillOp = OpUpsert string | OpRegister string | OpRemove string | OpFault string | OpReenable string

fun skillStep :: "string \<Rightarrow> (nat \<times> bool) option \<Rightarrow> skillOp \<Rightarrow> (nat \<times> bool) option" where
  "skillStep i a (OpUpsert j) = (if i = j then Some (0, case a of None \<Rightarrow> False | Some (n, b) \<Rightarrow> b) else a)"
| "skillStep i a (OpRegister j) = (if i = j \<and> trimSpace j \<noteq> '''' then Some (case a of None \<Rightarrow> 0 | Some (n, b) \<Rightarrow> n, True) else a)"
| "skillStep i a (OpRemove j) = (if i = j \<and> trimSpace j \<noteq> '''' then (case a of Some (n, False) \<Rightarrow> a | _ \<Rightarrow> None) else a)"
| "skillStep i a (OpFault j) = (if i = j then map_option (\<lambda>(n, b). (Suc n, b)) a else a)"
| "skillStep i a (OpReenable j) = (if i = j then map_option (\<lambda>(n, b). (0, b)) a else a)"

definition skillQuarantined :: "nat \<Rightarrow> (nat \<times> bool) option \<Rightarrow> bool" where
  "skillQuarantined threshold a = (case a of None \<Rightarrow> False | Some (n, b) \<Rightarrow> threshold \<le> n)"

text \<open>The operations on the table, with one threshold throughout and whatever other arguments.\<close>

fun runSkillOp :: "env \<Rightarrow> int \<Rightarrow> skillOp \<times> string \<times> string \<times> string \<Rightarrow> 'x side_store_scheme \<Rightarrow> 'x side_store_scheme" where
  "runSkillOp e th (OpUpsert j, x, y, z) s = snd (UpsertSkill e j x y z s)"
| "runSkillOp e th (OpRegister j, x, y, z) s = snd (RegisterInstalledSkill e j x y z s)"
| "runSkillOp e th (OpRemove j, x, y, z) s = snd (RemoveInstalledSkill j s)"
| "runSkillOp e th (OpFault j, x, y, z) s = snd (IncrementSkillFault e j th s)"
| "runSkillOp e th (OpReenable j, x, y, z) s = snd (ReenableSkill e j s)"

definition runSkillOps :: "env \<Rightarrow> int \<Rightarrow> (skillOp \<times> string \<times> string \<times> string) list \<Rightarrow> 'x side_store_scheme \<Rightarrow> 'x side_store_scheme" where
  "runSkillOps e th ops s = fold (runSkillOp e th) ops s"

section \<open>Refinement\<close>

definition skillOf :: "string \<Rightarrow> 'x side_store_scheme \<Rightarrow> (nat \<times> bool) option" where
  "skillOf i s = map_option (\<lambda>r. (nat (sk_fault_count r), sk_installed_at r \<noteq> None)) (firstWhere (isSkill i) (skill_registry s))"

definition skillRow :: "int \<Rightarrow> skill_row \<Rightarrow> bool" where
  "skillRow th r \<longleftrightarrow> 0 \<le> sk_fault_count r \<and> (sk_state r = ''quarantined'' \<longleftrightarrow> th \<le> sk_fault_count r)"

definition skills_inv :: "int \<Rightarrow> 'x side_store_scheme \<Rightarrow> bool" where
  "skills_inv th s \<longleftrightarrow> faults s = [] \<and> distinct (map sk_id (skill_registry s)) \<and> (\<forall>r\<in>set (skill_registry s). skillRow th r)"

lemma updSkills_simps [simp]: "skill_registry (updSkills f s) = f (skill_registry s)" "faults (updSkills f s) = faults s"
  by (simp_all add: updSkills_def)

lemma find_upd:
  assumes "\<And>r. sk_id (f r) = sk_id r"
  shows "firstWhere (isSkill i) (updWhere (isSkill j) f rs) =
    (if i = j then map_option f (firstWhere (isSkill i) rs) else firstWhere (isSkill i) rs)"
  using assms by (induction rs) (auto simp: firstWhere_def updWhere_def isSkill_def)

lemma find_upsert:
  assumes "\<And>r. sk_id (f r) = sk_id r" and "sk_id r0 = j"
  shows "firstWhere (isSkill i) (upsertRow (isSkill j) f r0 rs) =
    (if i = j then Some (case firstWhere (isSkill i) rs of None \<Rightarrow> r0 | Some r \<Rightarrow> f r) else firstWhere (isSkill i) rs)"
proof (cases "i = j")
  case True
  have "isSkill j r0" "\<And>x. isSkill j x \<Longrightarrow> isSkill j (f x)" using assms by (simp_all add: isSkill_def)
  from upsertRow_find [of "isSkill j" r0 f rs, OF this] True show ?thesis by simp
next
  case False
  have "firstWhere (isSkill i) (rs @ [r0]) = firstWhere (isSkill i) rs"
    using False assms(2) by (induction rs) (auto simp: firstWhere_def isSkill_def)
  with False find_upd [of f i j rs] assms(1) show ?thesis by (simp add: upsertRow_def)
qed

lemma find_del:
  assumes "distinct (map sk_id rs)"
  shows "firstWhere (isSkill i) (delWhere (\<lambda>r. isSkill j r \<and> P r) rs) =
    (if i = j then (case firstWhere (isSkill i) rs of None \<Rightarrow> None | Some r \<Rightarrow> if P r then None else Some r) else firstWhere (isSkill i) rs)"
  using assms
proof (induction rs)
  case (Cons r rs)
  have none: "firstWhere (isSkill i) (delWhere (\<lambda>r. isSkill j r \<and> P r) rs) = None" if "sk_id r = i"
  proof -
    have "sk_id q \<noteq> i" if "q \<in> set rs" for q using Cons.prems that \<open>sk_id r = i\<close> by (metis distinct.simps(2) image_eqI list.map(2) set_map)
    then show ?thesis by (simp add: firstWhere_None delWhere_def isSkill_def)
  qed
  have keep: "delWhere Q (r # rs) = (if Q r then delWhere Q rs else r # delWhere Q rs)" for Q :: "skill_row \<Rightarrow> bool"
    by (simp add: delWhere_def)
  have hit: "firstWhere (isSkill k) (r # xs) = (if sk_id r = k then Some r else firstWhere (isSkill k) xs)" for k xs
    by (simp add: firstWhere_def isSkill_def)
  have at_j: "isSkill j r \<longleftrightarrow> sk_id r = j" by (simp add: isSkill_def)
  have IH: "firstWhere (isSkill i) (delWhere (\<lambda>r. isSkill j r \<and> P r) rs) =
    (if i = j then (case firstWhere (isSkill i) rs of None \<Rightarrow> None | Some r \<Rightarrow> if P r then None else Some r) else firstWhere (isSkill i) rs)"
    using Cons by simp
  show ?case unfolding keep hit at_j using none IH by (cases "sk_id r = i"; cases "i = j") (auto simp: hit)
qed (simp add: firstWhere_def delWhere_def)

lemma skills_inv_found: "skills_inv th s \<Longrightarrow> firstWhere (isSkill i) (skill_registry s) = Some r \<Longrightarrow> skillRow th r"
  by (auto simp: skills_inv_def dest: firstWhere_Some)

lemma inv_upd:
  assumes "skills_inv th s" and "\<And>r. sk_id (f r) = sk_id r" and "\<And>r. skillRow th r \<Longrightarrow> skillRow th (f r)"
  shows "skills_inv th (updSkills (updWhere P f) s)"
proof -
  have "map sk_id (updWhere P f (skill_registry s)) = map sk_id (skill_registry s)" by (rule map_updWhere) (rule assms(2))
  with assms(1,3) show ?thesis by (auto simp: skills_inv_def row_simps)
qed

lemma inv_upsert:
  assumes "skills_inv th s" and "\<And>r. sk_id (f r) = sk_id r" and "\<And>r. skillRow th r \<Longrightarrow> skillRow th (f r)"
    and "sk_id r0 = j" and "skillRow th r0"
  shows "skills_inv th (updSkills (upsertRow (isSkill j) f r0) s)"
proof -
  have "distinct (map sk_id (upsertRow (isSkill j) f r0 (skill_registry s)))"
    using assms(1,2,4) by (intro upsertRow_keys) (simp_all add: isSkill_def skills_inv_def)
  moreover have "\<forall>r\<in>set (upsertRow (isSkill j) f r0 (skill_registry s)). skillRow th r"
    using assms(1,3,5) by (auto simp: upsertRow_def skills_inv_def row_simps)
  ultimately show ?thesis using assms(1) by (simp add: skills_inv_def)
qed

lemma inv_del: "skills_inv th s \<Longrightarrow> skills_inv th (updSkills (delWhere P) s)"
  by (auto simp: skills_inv_def delWhere_def intro: distinct_map_filter)

lemma skillOf_upd: "skillOf i (updSkills f s) = map_option (\<lambda>r. (nat (sk_fault_count r), sk_installed_at r \<noteq> None)) (firstWhere (isSkill i) (f (skill_registry s)))"
  by (simp add: skillOf_def)

lemma fault_runs:
  assumes "faults s = []"
  shows "snd (IncrementSkillFault e j th s) =
    updSkills (updWhere (isSkill j) (faultedSkill e (if th \<le> 0 then DefaultQuarantineThreshold else th))) s"
proof (cases "firstWhere (isSkill j) (skill_registry s)")
  case None
  then have "updWhere (isSkill j) (faultedSkill e t) (skill_registry s) = skill_registry s" for t
    by (intro updWhere_none) (simp add: firstWhere_None)
  with assms None show ?thesis
    by (simp add: IncrementSkillFault_def Let_def bindS_def wrapS_def noRowsAsNone_def stmt_no_faults retS_def updSkills_def)
next
  case (Some r)
  with assms show ?thesis
    by (simp add: IncrementSkillFault_def Let_def bindS_def wrapS_def noRowsAsNone_def stmt_no_faults retS_def)
qed

lemma quarantined_runs:
  "faults s = [] \<Longrightarrow> IsSkillQuarantined i s = (Inr (map_option sk_state (firstWhere (isSkill i) (skill_registry s)) = Some ''quarantined''), s)"
  by (auto simp: IsSkillQuarantined_def bindS_def wrapS_def noRowsAsNone_def queryRow_def stmt_no_faults retS_def split: option.split)

lemma runSkillOp_refines:
  assumes inv: "skills_inv th s" and th: "0 < th"
  shows "skills_inv th (runSkillOp e th (op, x, y, z) s) \<and> skillOf i (runSkillOp e th (op, x, y, z) s) = skillStep i (skillOf i s) op"
proof -
  have f: "faults s = []" and d: "distinct (map sk_id (skill_registry s))" using inv by (simp_all add: skills_inv_def)
  show ?thesis
  proof (cases op)
    case (OpUpsert j)
    have "runSkillOp e th (op, x, y, z) s = snd (UpsertSkill e j x y z s)" by (simp add: OpUpsert)
    then show ?thesis using th f inv unfolding OpUpsert
      by (simp add: UpsertSkill_def wrapS_def execS_def stmt_no_faults inv_upsert skillRow_def skillOf_upd find_upsert)
        (simp add: skillOf_def split: option.split)
  next
    case (OpRegister j)
    show ?thesis
    proof (cases "trimSpace j = ''''")
      case True
      then show ?thesis using inv unfolding OpRegister by (simp add: RegisterInstalledSkill_def failS_def)
    next
      case False
      define src where "src = (if trimSpace x = '''' then ''local'' else x)"
      let ?f = "\<lambda>r. r\<lparr>sk_source := src, sk_source_url := y, sk_ref := z, sk_installed_at := Some (CURRENT_TIMESTAMP e),
            sk_updated_at := CURRENT_TIMESTAMP e\<rparr>"
      let ?r = "\<lparr>sk_id = j, sk_version = ''installed'', sk_abi_version = ''n/a'', sk_content_hash = '''', sk_state = ''active'',
          sk_source = src, sk_source_url = y, sk_ref = z, sk_installed_at = Some (CURRENT_TIMESTAMP e),
          sk_last_fault_at = None, sk_fault_count = 0, sk_created_at = CURRENT_TIMESTAMP e, sk_updated_at = CURRENT_TIMESTAMP e\<rparr>"
      have run: "snd (RegisterInstalledSkill e j x y z s) = updSkills (upsertRow (isSkill j) ?f ?r) s" using False f
        by (simp add: RegisterInstalledSkill_def Let_def src_def [symmetric] wrapS_def execS_def stmt_no_faults)
      have "skills_inv th (updSkills (upsertRow (isSkill j) ?f ?r) s)" using th
        by (intro inv_upsert [OF inv]) (simp_all add: skillRow_def)
      moreover have "skillOf i (updSkills (upsertRow (isSkill j) ?f ?r) s) = skillStep i (skillOf i s) (OpRegister j)" using False
        by (simp add: skillOf_upd find_upsert) (simp add: skillOf_def split: option.split)
      ultimately have "skills_inv th (snd (RegisterInstalledSkill e j x y z s)) \<and>
          skillOf i (snd (RegisterInstalledSkill e j x y z s)) = skillStep i (skillOf i s) (OpRegister j)" unfolding run by (rule conjI)
      then show ?thesis by (simp only: OpRegister runSkillOp.simps)
    qed
  next
    case (OpRemove j)
    show ?thesis
    proof (cases "trimSpace j = ''''")
      case True
      then show ?thesis using inv unfolding OpRemove by (simp add: RemoveInstalledSkill_def failS_def)
    next
      case False
      then have "snd (RemoveInstalledSkill j s) = updSkills (delWhere (\<lambda>r. isSkill j r \<and> sk_installed_at r \<noteq> None)) s"
        using f by (simp add: RemoveInstalledSkill_def bindS_def wrapS_def execCount_def stmt_no_faults failS_def retS_def)
      with False d inv show ?thesis unfolding OpRemove
        by (simp add: inv_del skillOf_upd find_del) (auto simp: skillOf_def split: option.split bool.split)
    qed
  next
    case (OpFault j)
    have row: "skillRow th (faultedSkill e th r)" if "skillRow th r" for r using that th by (auto simp: skillRow_def faultedSkill_def)
    have "nat (sk_fault_count r + 1) = Suc (nat (sk_fault_count r))" if "firstWhere (isSkill i) (skill_registry s) = Some r" for r
      using skills_inv_found [OF inv that] by (simp add: skillRow_def Suc_nat_eq_nat_zadd1 add.commute)
    moreover have id: "sk_id (faultedSkill e th r) = sk_id r" for r by (simp add: faultedSkill_def)
    moreover have fields: "sk_fault_count (faultedSkill e th r) = sk_fault_count r + 1" "sk_installed_at (faultedSkill e th r) = sk_installed_at r"
      for r by (simp_all add: faultedSkill_def)
    ultimately have "skillOf i (updSkills (updWhere (isSkill j) (faultedSkill e th)) s) = skillStep i (skillOf i s) (OpFault j)"
      by (cases "i = j"; cases "firstWhere (isSkill j) (skill_registry s)") (simp_all add: skillOf_upd find_upd skillOf_def)
    moreover have "skills_inv th (updSkills (updWhere (isSkill j) (faultedSkill e th)) s)" by (rule inv_upd [OF inv id row])
    moreover have "snd (IncrementSkillFault e j th s) = updSkills (updWhere (isSkill j) (faultedSkill e th)) s"
      using th fault_runs [OF f, of e j th] by simp
    ultimately show ?thesis by (simp add: OpFault)
  next
    case (OpReenable j)
    then show ?thesis using th f inv
      by (simp add: ReenableSkill_def wrapS_def execS_def stmt_no_faults inv_upd skillRow_def skillOf_upd find_upd)
        (cases "firstWhere (isSkill j) (skill_registry s)"; simp add: skillOf_def)
  qed
qed

lemma runSkillOps_refines:
  assumes "skills_inv th s" and "0 < th"
  shows "skills_inv th (runSkillOps e th ops s) \<and> skillOf i (runSkillOps e th ops s) = fold (\<lambda>op a. skillStep i a op) (map fst ops) (skillOf i s)"
  using assms(1)
proof (induction ops arbitrary: s)
  case (Cons o1 ops)
  obtain op x y z where o1: "o1 = (op, x, y, z)" by (cases o1) auto
  from Cons.IH [of "runSkillOp e th o1 s"] runSkillOp_refines [OF Cons.prems assms(2), of e op x y z] show ?case
    by (simp add: o1 runSkillOps_def)
qed (simp add: runSkillOps_def)

text \<open>C23. A skill is quarantined exactly when it has failed as often as the threshold since it was last registered or
  enabled again: after any sequence of registrations, installations, removals, faults and re-enablings of any
  skills, the check answers what the count of the specification says. (A skill without a row never is; a removal
  followed by an installation forgets the faults.)\<close>

theorem quarantine_counts_faults:
  assumes "faults s = []" and "skill_registry s = []" and "0 < th"
  shows "fst (IsSkillQuarantined i (runSkillOps e th ops s)) =
    Inr (skillQuarantined (nat th) (fold (\<lambda>op a. skillStep i a op) (map fst ops) None))"
proof -
  have "skills_inv th s" using assms(1,2) by (simp add: skills_inv_def)
  note ref = runSkillOps_refines [OF this assms(3), of e ops i]
  let ?t = "runSkillOps e th ops s"
  have "skillOf i s = None" using assms(2) by (simp add: skillOf_def firstWhere_def)
  with ref have abs: "skillOf i ?t = fold (\<lambda>op a. skillStep i a op) (map fst ops) None" by simp
  have "map_option sk_state (firstWhere (isSkill i) (skill_registry ?t)) = Some ''quarantined'' \<longleftrightarrow> skillQuarantined (nat th) (skillOf i ?t)"
    using skills_inv_found [OF ref [THEN conjunct1]] by (cases "firstWhere (isSkill i) (skill_registry ?t)")
      (auto simp: skillQuarantined_def skillOf_def skillRow_def nat_le_eq_zle)
  with ref show ?thesis by (simp add: quarantined_runs skills_inv_def abs)
qed

theorem quarantine_counts_faults_witness:
  "fst (IsSkillQuarantined ''k'' (runSkillOps (exEnv 100) 2 [(OpUpsert ''k'', ''1'', ''a'', ''h''), (OpFault ''k'', '''', '''', ''''),
     (OpRegister ''k'', '''', '''', ''''), (OpFault ''k'', '''', '''', '''')] (exScheduleStore []))) = Inr True \<and>
   fst (IsSkillQuarantined ''k'' (runSkillOps (exEnv 100) 2 [(OpFault ''k'', '''', '''', ''''), (OpFault ''k'', '''', '''', '''')]
     (exScheduleStore []))) = Inr False"
proof -
  have "skill_registry (exScheduleStore []) = []" by (simp add: exScheduleStore_def emptySide_def side_store.defs agent_eval exSession_eq)
  note q = quarantine_counts_faults [OF exScheduleStore_tables(2) this, of 2]
  have "trimSpace ''k'' \<noteq> ''''" by (simp add: trimSpace_def isSpaceByte_def)
  then show ?thesis by (simp add: q skillQuarantined_def)
qed

end
