(* ===== verification/Agent_Loop.thy ===== *)
theory Agent_Loop
  imports Schedules Config_File Go_Duration
begin

text \<open>
  Agent loops: the checkpoints of \<open>internal/persistence/loops.go\<close> and \<open>LoopRunner\<close> of \<open>internal/engine/loop.go\<close>,
  which lets an agent continue until it says a keyword or a budget of steps, tokens or time is spent, and
  which resumes a loop from its last checkpoint. The brain is a parameter: \<open>lrStream cb sid prompt\<close> runs the
  callback \<open>cb\<close> on every chunk, threading the reply and the database. The loop is the iteration of
  \<open>loopStep\<close>; it ends because every iteration that goes on takes a step.
\<close>

section \<open>Checkpoints\<close>

definition isLoop :: "string \<Rightarrow> loop_row \<Rightarrow> bool" where
  "isLoop i r \<longleftrightarrow> LoopID (lr_checkpoint r) = i"

definition runningFor :: "string \<Rightarrow> loop_row \<Rightarrow> bool" where
  "runningFor taskID r \<longleftrightarrow> LoopTaskID (lr_checkpoint r) = taskID \<and> LoopStatus (lr_checkpoint r) = ''running''"

definition SaveLoopCheckpoint :: "env \<Rightarrow> LoopCheckpoint \<Rightarrow> 'x side_store_scheme \<Rightarrow> (err + unit) \<times> 'x side_store_scheme" where
  "SaveLoopCheckpoint e cp = execS (\<lambda>s. s\<lparr>loop_checkpoints := upsertRow (isLoop (LoopID cp))
     (\<lambda>r. r\<lparr>lr_checkpoint := (lr_checkpoint r)\<lparr>CurrentStep := CurrentStep cp, TokensUsed := TokensUsed cp, LoopStatus := LoopStatus cp,
        LoopMessages := LoopMessages cp\<rparr>, lr_updated_at := CURRENT_TIMESTAMP e\<rparr>)
     \<lparr>lr_checkpoint = cp, lr_created_at = CURRENT_TIMESTAMP e, lr_updated_at = CURRENT_TIMESTAMP e\<rparr> (loop_checkpoints s)\<rparr>)"

text \<open>\<open>ORDER BY updated_at DESC LIMIT 1\<close>.\<close>

definition latestLoop :: "loop_row list \<Rightarrow> LoopCheckpoint option" where
  "latestLoop rs = (case rev (sort_key lr_updated_at (rev rs)) of [] \<Rightarrow> None | r # _ \<Rightarrow> Some (lr_checkpoint r))"

definition LoadLoopCheckpoint :: "string \<Rightarrow> 'x side_store_scheme \<Rightarrow> (err + LoopCheckpoint) \<times> 'x side_store_scheme" where
  "LoadLoopCheckpoint taskID = queryRow (\<lambda>s. latestLoop (filter (runningFor taskID) (loop_checkpoints s)))"

text \<open>The modifier of \<open>datetime\<close> is \<open>-N seconds\<close>; with a negative \<open>N\<close> it is no modifier, the comparison is
  with \<open>NULL\<close> and no row is removed.\<close>

definition CleanupCompletedLoops :: "env \<Rightarrow> int \<Rightarrow> 'x side_store_scheme \<Rightarrow> (err + nat) \<times> 'x side_store_scheme" where
  "CleanupCompletedLoops e olderThan =
    (let secs = sgn olderThan * (\<bar>olderThan\<bar> div 10^9);
         old = (\<lambda>r. LoopStatus (lr_checkpoint r) \<noteq> ''running'' \<and> secs \<ge> 0 \<and> lr_updated_at r < CurTs (now e div 10^9 - nat secs)) in
     execCount (\<lambda>s. countWhere old (loop_checkpoints s)) (\<lambda>s. s\<lparr>loop_checkpoints := delWhere old (loop_checkpoints s)\<rparr>))"

section \<open>The runner\<close>

record LoopResult =
  LrStatus :: string
  LrSteps :: int
  LrTokensUsed :: int
  LrResponse :: string
  LrError :: "err option"

record 's LoopRunner =
  lrStream :: "(string \<Rightarrow> string \<times> 's \<Rightarrow> string \<times> 's) \<Rightarrow> string \<Rightarrow> string \<Rightarrow> string \<times> 's \<Rightarrow> err option \<times> string \<times> 's"
  lrHasStore :: bool
  lrConfig :: LoopConfig
  lrAgentID :: string
  lrSessionID :: string

text \<open>What the run reads of the world: the clock of every write, the fresh identifier, the clock at the start and
  before every step, and the cancellation of the context of the caller before every step.\<close>

record loopEnv =
  leAt :: "int \<Rightarrow> env"
  leNewID :: string
  leStart :: nat
  leClock :: "int \<Rightarrow> nat"
  leCancelled :: "int \<Rightarrow> err option"

record loopBudget =
  LbMaxSteps :: int
  LbMaxTokens :: int
  LbMaxDur :: int
  LbInterval :: int
  LbKeyword :: string

definition parseLoopDuration :: "string \<Rightarrow> int" where
  "parseLoopDuration s = (if s = '''' then 30 * 60 * 10^9 else case ParseDuration s of None \<Rightarrow> 30 * 60 * 10^9 | Some d \<Rightarrow> d)"

definition loopBudgetOf :: "LoopConfig \<Rightarrow> loopBudget" where
  "loopBudgetOf c = \<lparr>LbMaxSteps = (if LoMaxSteps c = 0 then 25 else LoMaxSteps c), LbMaxTokens = (if LoMaxTokens c = 0 then 100000 else LoMaxTokens c),
     LbMaxDur = parseLoopDuration (LoMaxDuration c), LbInterval = (if LoCheckpointInterval c = 0 then 1 else LoCheckpointInterval c),
     LbKeyword = (if LoKeyword c = '''' then ''TASK_COMPLETE'' else LoKeyword c)\<rparr>"

text \<open>What is fixed during a run, and what an iteration changes beside the database.\<close>

record 's loopRun =
  LxRunner :: "'s LoopRunner"
  LxEnv :: loopEnv
  LxTaskID :: string
  LxLoopID :: string
  LxStartedAt :: nat

record loopPos =
  LpStep :: int
  LpTokens :: int
  LpLast :: string

definition budgetOf :: "'s loopRun \<Rightarrow> loopBudget" where
  "budgetOf x = loopBudgetOf (lrConfig (LxRunner x))"

definition saveCheckpoint :: "'x side_store_scheme loopRun \<Rightarrow> loopPos \<Rightarrow> string \<Rightarrow> 'x side_store_scheme \<Rightarrow> 'x side_store_scheme" where
  "saveCheckpoint x p status s =
    (if \<not> lrHasStore (LxRunner x) then s
     else snd (SaveLoopCheckpoint (leAt (LxEnv x) (LpStep p))
       \<lparr>LoopID = LxLoopID x, LoopTaskID = LxTaskID x, LoopAgentID = lrAgentID (LxRunner x), CurrentStep = LpStep p, MaxSteps = LbMaxSteps (budgetOf x),
        TokensUsed = LpTokens p, MaxTokens = LbMaxTokens (budgetOf x), StartedAt = LxStartedAt x, MaxDuration = LbMaxDur (budgetOf x),
        LoopStatus = status, LoopMessages = ''[]''\<rparr> s))"

definition loopEvent :: "'x side_store_scheme loopRun \<Rightarrow> string \<Rightarrow> int \<Rightarrow> int \<Rightarrow> string \<Rightarrow> 'x side_store_scheme \<Rightarrow> 'x side_store_scheme" where
  "loopEvent x topic step maxSteps status s =
    snd (publishS topic (PLoopEvent (LxLoopID x) (LxTaskID x) (lrAgentID (LxRunner x)) step maxSteps status) s)"

text \<open>A return of the loop: the checkpoint, the event and the result.\<close>

definition endLoop :: "'x side_store_scheme loopRun \<Rightarrow> string \<Rightarrow> string \<Rightarrow> err option \<Rightarrow> loopPos \<Rightarrow> 'x side_store_scheme \<Rightarrow> LoopResult \<times> 'x side_store_scheme" where
  "endLoop x status topic er p s =
    (\<lparr>LrStatus = status, LrSteps = LpStep p, LrTokensUsed = LpTokens p, LrResponse = LpLast p, LrError = er\<rparr>,
     loopEvent x topic (LpStep p) 0 status (saveCheckpoint x p status s))"

definition newline :: string where
  "newline = [CHR 0x0A]"

definition loopSuffix :: "loopBudget \<Rightarrow> int \<Rightarrow> int \<Rightarrow> string" where
  "loopSuffix b step used = newline @ newline @ ''[Loop step '' @ itoa step @ ''/'' @ itoa (LbMaxSteps b) @ '' | tokens ~'' @ itoa used @ ''/'' @
     itoa (LbMaxTokens b) @ '' | Include '' @ [CHR 0x22] @ LbKeyword b @ [CHR 0x22] @ '' when done]''"

definition onChunk :: "'x side_store_scheme loopRun \<Rightarrow> string \<Rightarrow> string \<times> 'x side_store_scheme \<Rightarrow> string \<times> 'x side_store_scheme" where
  "onChunk x chunk bs = (fst bs @ chunk, snd (publishS ''stream.token''
     (PStrMap [(''task_id'', LxTaskID x), (''agent_id'', lrAgentID (LxRunner x)), (''chunk'', chunk)]) (snd bs)))"

text \<open>The context of the loop: the caller's, with the deadline of the loop.\<close>

definition loopCtxErr :: "'s loopRun \<Rightarrow> int \<Rightarrow> err option" where
  "loopCtxErr x step =
    (case leCancelled (LxEnv x) step of Some e \<Rightarrow> Some e
     | None \<Rightarrow> if int (LxStartedAt x) + LbMaxDur (budgetOf x) \<le> int (leClock (LxEnv x) step) then Some (ErrMsg ''context deadline exceeded'') else None)"

text \<open>One iteration: the result of the run, or the position and the database it goes on with.\<close>

definition loopStep :: "'x side_store_scheme loopRun \<Rightarrow> loopPos \<Rightarrow> 'x side_store_scheme \<Rightarrow>
    (LoopResult \<times> 'x side_store_scheme) + (loopPos \<times> 'x side_store_scheme)" where
  "loopStep x p s =
    (let b = budgetOf x; step = LpStep p; used = LpTokens p in
     if step \<ge> LbMaxSteps b then
       Inl (endLoop x ''budget_exceeded'' ''loop.budget_exceeded'' (Some (ErrMsg (''max steps reached: '' @ itoa (LbMaxSteps b)))) p s)
     else if LbMaxTokens b > 0 \<and> used \<ge> LbMaxTokens b then
       Inl (endLoop x ''budget_exceeded'' ''loop.budget_exceeded''
         (Some (ErrMsg (''token budget exhausted: '' @ itoa used @ ''/'' @ itoa (LbMaxTokens b)))) p s)
     else case loopCtxErr x step of
       Some e \<Rightarrow> Inl (endLoop x ''timeout'' ''loop.timeout'' (Some e) p s)
     | None \<Rightarrow>
        (case lrStream (LxRunner x) (onChunk x) (lrSessionID (LxRunner x)) (''Continue working on the task.'' @ loopSuffix b (step + 1) used)
            ('''', loopEvent x ''loop.step'' (step + 1) 0 '''' s) of
           (Some e, reply, s1) \<Rightarrow> Inl (endLoop x ''failed'' ''loop.failed'' (Some e) (p\<lparr>LpStep := step + 1\<rparr>) s1)
         | (None, reply, s1) \<Rightarrow>
            (let p1 = \<lparr>LpStep = step + 1, LpTokens = used + int (length reply) div 4, LpLast = reply\<rparr> in
             if contains reply (LbKeyword b) then Inl (endLoop x ''completed'' ''loop.completed'' None p1 s1)
             else Inr (p1, if (step + 1) mod LbInterval b = 0 then saveCheckpoint x p1 ''running'' s1 else s1))))"

lemma loopStep_advances:
  "loopStep x p s = Inr (p', s') \<Longrightarrow> LpStep p < LbMaxSteps (budgetOf x) \<and> LpStep p' = LpStep p + 1"
  by (auto simp: loopStep_def Let_def split: if_splits option.splits prod.splits)

function runSteps :: "'x side_store_scheme loopRun \<Rightarrow> loopPos \<Rightarrow> 'x side_store_scheme \<Rightarrow> LoopResult \<times> 'x side_store_scheme" where
  "runSteps x p s = (case loopStep x p s of Inl out \<Rightarrow> out | Inr (p', s') \<Rightarrow> runSteps x p' s')"
  by auto
termination
  by (relation "measure (\<lambda>(x, p, s). nat (LbMaxSteps (budgetOf x) - LpStep p))") (auto dest!: loopStep_advances)

declare runSteps.simps [simp del]

text \<open>\<open>LoopRunner.Run\<close>. A checkpoint that is not found is no error.\<close>

definition Run :: "'x side_store_scheme LoopRunner \<Rightarrow> loopEnv \<Rightarrow> string \<Rightarrow> 'x side_store_scheme \<Rightarrow> (err + LoopResult) \<times> 'x side_store_scheme" where
  "Run lr le taskID s =
    (case (if lrHasStore lr then noRowsAsNone (LoadLoopCheckpoint taskID) s else (Inr None, s)) of
       (Inl e, s1) \<Rightarrow> (Inl (ErrWrap ''load checkpoint'' e), s1)
     | (Inr cp, s1) \<Rightarrow>
        (let x = \<lparr>LxRunner = lr, LxEnv = le, LxTaskID = taskID, LxLoopID = (case cp of None \<Rightarrow> leNewID le | Some c \<Rightarrow> LoopID c),
               LxStartedAt = (case cp of None \<Rightarrow> leStart le | Some c \<Rightarrow> StartedAt c)\<rparr>;
             p = (case cp of None \<Rightarrow> \<lparr>LpStep = 0, LpTokens = 0, LpLast = ''''\<rparr>
                  | Some c \<Rightarrow> \<lparr>LpStep = CurrentStep c, LpTokens = TokensUsed c, LpLast = ''''\<rparr>)
         in case runSteps x p (loopEvent x ''loop.started'' (LpStep p) (LbMaxSteps (budgetOf x)) '''' s1) of (r, s2) \<Rightarrow> (Inr r, s2)))"

section \<open>The checkpoint of a run\<close>

definition runCheckpoint :: "string \<Rightarrow> 'x side_store_scheme \<Rightarrow> LoopCheckpoint option" where
  "runCheckpoint taskID s = latestLoop (filter (runningFor taskID) (loop_checkpoints s))"

text \<open>The run \<open>x\<close> is the only one of its task whose rows run, and its row is its own; the database answers.\<close>

definition lone :: "'x side_store_scheme loopRun \<Rightarrow> 'x side_store_scheme \<Rightarrow> bool" where
  "lone x s \<longleftrightarrow> faults s = [] \<and> distinct (map (LoopID \<circ> lr_checkpoint) (loop_checkpoints s)) \<and>
     (\<forall>r\<in>set (loop_checkpoints s). runningFor (LxTaskID x) r \<longrightarrow> isLoop (LxLoopID x) r) \<and>
     (\<forall>r\<in>set (loop_checkpoints s). isLoop (LxLoopID x) r \<longrightarrow>
        LoopTaskID (lr_checkpoint r) = LxTaskID x \<and> StartedAt (lr_checkpoint r) = LxStartedAt x)"

definition untouched :: "'x side_store_scheme \<Rightarrow> 'x side_store_scheme \<Rightarrow> bool" where
  "untouched s t \<longleftrightarrow> loop_checkpoints t = loop_checkpoints s \<and> faults t = faults s"

lemma untouched_trans: "untouched s t \<Longrightarrow> untouched t u \<Longrightarrow> untouched s u"
  by (simp add: untouched_def)

lemma lone_untouched: "untouched s t \<Longrightarrow> lone x t = lone x s"
  by (simp add: untouched_def lone_def)

lemma runCheckpoint_untouched: "untouched s t \<Longrightarrow> runCheckpoint i t = runCheckpoint i s"
  by (simp add: untouched_def runCheckpoint_def)

lemma untouched_loopEvent: "untouched s (loopEvent x topic step m st s)"
  by (simp add: untouched_def loopEvent_def publishS_def split: option.split)

text \<open>What is asked of the brain: it keeps the checkpoints and meets no fault when its callback does.\<close>

definition brainKeeps :: "'x side_store_scheme LoopRunner \<Rightarrow> bool" where
  "brainKeeps lr \<longleftrightarrow> (\<forall>cb sid prompt buf s. (\<forall>c b t. untouched t (snd (cb c (b, t)))) \<longrightarrow>
     untouched s (snd (snd (lrStream lr cb sid prompt (buf, s)))))"

lemma untouched_onChunk: "untouched t (snd (onChunk x c (b, t)))"
  by (simp add: untouched_def onChunk_def publishS_def split: option.split)

lemma untouched_stream:
  assumes "brainKeeps (LxRunner x)" and "lrStream (LxRunner x) (onChunk x) sid prompt (buf, loopEvent x topic step m st s) = (e, reply, s1)"
  shows "untouched s s1"
proof -
  have "untouched (loopEvent x topic step m st s) (snd (snd (lrStream (LxRunner x) (onChunk x) sid prompt (buf, loopEvent x topic step m st s))))"
    using assms(1) untouched_onChunk [of _ x] unfolding brainKeeps_def by blast
  with assms(2) show ?thesis using untouched_trans [OF untouched_loopEvent] by simp
qed

lemma filter_key:
  "distinct (map k xs) \<Longrightarrow> filter (\<lambda>r. k r = i) xs = (case firstWhere (\<lambda>r. k r = i) xs of None \<Rightarrow> [] | Some r \<Rightarrow> [r])"
proof (induction xs)
  case (Cons y ys)
  have "filter (\<lambda>r. k r = i) ys = []" if "k y = i" using Cons.prems that by (auto simp: filter_empty_conv image_iff)
  with Cons show ?case by (simp add: firstWhere_def)
qed (simp add: firstWhere_def)

lemma saveCheckpoint_saves:
  assumes "lone x s" and "lrHasStore (LxRunner x)"
  shows "lone x (saveCheckpoint x p st s)"
    and "case runCheckpoint (LxTaskID x) (saveCheckpoint x p st s) of None \<Rightarrow> st \<noteq> ''running''
      | Some c \<Rightarrow> st = ''running'' \<and> LoopID c = LxLoopID x \<and> StartedAt c = LxStartedAt x \<and> CurrentStep c = LpStep p \<and> TokensUsed c = LpTokens p"
proof -
  define cp where "cp = \<lparr>LoopID = LxLoopID x, LoopTaskID = LxTaskID x, LoopAgentID = lrAgentID (LxRunner x), CurrentStep = LpStep p,
    MaxSteps = LbMaxSteps (budgetOf x), TokensUsed = LpTokens p, MaxTokens = LbMaxTokens (budgetOf x), StartedAt = LxStartedAt x,
    MaxDuration = LbMaxDur (budgetOf x), LoopStatus = st, LoopMessages = ''[]''\<rparr>"
  define t where "t = CURRENT_TIMESTAMP (leAt (LxEnv x) (LpStep p))"
  define f where "f = (\<lambda>r :: loop_row. r\<lparr>lr_checkpoint := (lr_checkpoint r)\<lparr>CurrentStep := LpStep p, TokensUsed := LpTokens p, LoopStatus := st,
    LoopMessages := ''[]''\<rparr>, lr_updated_at := t\<rparr>)"
  define rows where "rows = upsertRow (isLoop (LxLoopID x)) f \<lparr>lr_checkpoint = cp, lr_created_at = t, lr_updated_at = t\<rparr> (loop_checkpoints s)"
  have s: "saveCheckpoint x p st s = s\<lparr>loop_checkpoints := rows\<rparr>"
    using assms by (simp add: saveCheckpoint_def SaveLoopCheckpoint_def execS_def stmt_def lone_def rows_def f_def t_def cp_def)
  have new: "r \<in> set rows \<Longrightarrow> (r \<in> set (loop_checkpoints s) \<and> \<not> isLoop (LxLoopID x) r) \<or> r = \<lparr>lr_checkpoint = cp, lr_created_at = t, lr_updated_at = t\<rparr> \<or>
      (\<exists>q\<in>set (loop_checkpoints s). isLoop (LxLoopID x) q \<and> r = f q)" for r
    by (auto simp: rows_def upsertRow_def updWhere_def split: if_splits)
  have d: "distinct (map (LoopID \<circ> lr_checkpoint) rows)"
    unfolding rows_def using assms(1) by (intro upsertRow_keys) (simp_all add: lone_def isLoop_def cp_def f_def)
  show lone: "lone x (saveCheckpoint x p st s)"
    using assms(1) d new unfolding s lone_def by (fastforce simp: isLoop_def runningFor_def cp_def f_def)
  obtain q where q: "firstWhere (isLoop (LxLoopID x)) rows = Some q" "LoopStatus (lr_checkpoint q) = st" "LoopTaskID (lr_checkpoint q) = LxTaskID x"
      "LoopID (lr_checkpoint q) = LxLoopID x" "StartedAt (lr_checkpoint q) = LxStartedAt x" "CurrentStep (lr_checkpoint q) = LpStep p"
      "TokensUsed (lr_checkpoint q) = LpTokens p"
  proof -
    have found: "firstWhere (isLoop (LxLoopID x)) rows = Some (case firstWhere (isLoop (LxLoopID x)) (loop_checkpoints s) of
        None \<Rightarrow> \<lparr>lr_checkpoint = cp, lr_created_at = t, lr_updated_at = t\<rparr> | Some r \<Rightarrow> f r)"
      unfolding rows_def by (rule upsertRow_find) (simp_all add: isLoop_def cp_def f_def)
    show thesis
    proof (cases "firstWhere (isLoop (LxLoopID x)) (loop_checkpoints s)")
      case None
      show thesis by (rule that [OF found]) (simp_all add: None cp_def)
    next
      case (Some r)
      then have "r \<in> set (loop_checkpoints s)" "isLoop (LxLoopID x) r" by (auto simp: firstWhere_def find_Some_iff)
      then show thesis using assms(1) by (intro that [OF found]) (simp_all add: Some f_def lone_def isLoop_def)
    qed
  qed
  have own: "filter (isLoop (LxLoopID x)) rows = [q]" using filter_key [OF d, of "LxLoopID x"] q(1) by (simp add: isLoop_def [abs_def])
  have "filter (runningFor (LxTaskID x)) rows = filter (runningFor (LxTaskID x)) (filter (isLoop (LxLoopID x)) rows)"
    using lone unfolding s lone_def by (auto intro!: filter_cong)
  then have "filter (runningFor (LxTaskID x)) rows = (if st = ''running'' then [q] else [])" using q unfolding own by (simp add: runningFor_def)
  then show "case runCheckpoint (LxTaskID x) (saveCheckpoint x p st s) of None \<Rightarrow> st \<noteq> ''running''
      | Some c \<Rightarrow> st = ''running'' \<and> LoopID c = LxLoopID x \<and> StartedAt c = LxStartedAt x \<and> CurrentStep c = LpStep p \<and> TokensUsed c = LpTokens p"
    using q by (simp add: s runCheckpoint_def latestLoop_def)
qed

section \<open>Interrupted runs\<close>

text \<open>\<open>n\<close> iterations that go on; the process then dies.\<close>

fun iterLoop :: "nat \<Rightarrow> 'x side_store_scheme loopRun \<Rightarrow> loopPos \<Rightarrow> 'x side_store_scheme \<Rightarrow> (loopPos \<times> 'x side_store_scheme) option" where
  "iterLoop 0 x p s = Some (p, s)"
| "iterLoop (Suc n) x p s = (case loopStep x p s of Inl _ \<Rightarrow> None | Inr (p', s') \<Rightarrow> iterLoop n x p' s')"

definition atCheckpoint :: "'x side_store_scheme loopRun \<Rightarrow> loopPos \<Rightarrow> 'x side_store_scheme \<Rightarrow> bool" where
  "atCheckpoint x p s \<longleftrightarrow> (\<exists>c. runCheckpoint (LxTaskID x) s = Some c \<and> LoopID c = LxLoopID x \<and> StartedAt c = LxStartedAt x \<and>
     CurrentStep c = LpStep p \<and> TokensUsed c = LpTokens p)"

lemma loopStep_saves:
  assumes "lone x s" and "brainKeeps (LxRunner x)" and "loopStep x p s = Inr (p', s')"
  shows "lone x s'" and "lrHasStore (LxRunner x) \<Longrightarrow> LbInterval (budgetOf x) = 1 \<Longrightarrow> atCheckpoint x p' s'"
proof -
  obtain prompt reply s1 where str: "lrStream (LxRunner x) (onChunk x) (lrSessionID (LxRunner x)) prompt
      ('''', loopEvent x ''loop.step'' (LpStep p + 1) 0 '''' s) = (None, reply, s1)"
    and s': "s' = (if LpStep p' mod LbInterval (budgetOf x) = 0 then saveCheckpoint x p' ''running'' s1 else s1)"
    using assms(3) by (auto simp: loopStep_def Let_def split: if_splits option.splits prod.splits)
  have l1: "lone x s1" using assms(1) lone_untouched untouched_stream [OF assms(2) str] by blast
  show "lone x s'"
  proof (cases "lrHasStore (LxRunner x)")
    case False
    then show ?thesis using l1 by (simp add: s' saveCheckpoint_def)
  next
    case True
    then show ?thesis using l1 saveCheckpoint_saves(1) [OF l1 True, where p = p' and st = "''running''"] by (simp add: s')
  qed
  show "atCheckpoint x p' s'" if "lrHasStore (LxRunner x)" "LbInterval (budgetOf x) = 1"
    using saveCheckpoint_saves(2) [OF l1 that(1), where p = p' and st = "''running''"] that(2)
    by (simp add: s' atCheckpoint_def split: option.splits)
qed

lemma iterLoop_saves:
  assumes "iterLoop n x p s = Some (p', s')" and "lone x s" and "brainKeeps (LxRunner x)" and "lrHasStore (LxRunner x)" and "LbInterval (budgetOf x) = 1"
  shows "lone x s' \<and> (0 < n \<longrightarrow> atCheckpoint x p' s')"
  using assms
proof (induction n arbitrary: p s)
  case (Suc n)
  obtain p1 s1 where st: "loopStep x p s = Inr (p1, s1)" and it: "iterLoop n x p1 s1 = Some (p', s')"
    using Suc.prems(1) by (auto split: sum.splits)
  note l1 = loopStep_saves [OF Suc.prems(2,3) st]
  have "lone x s' \<and> (0 < n \<longrightarrow> atCheckpoint x p' s')" by (rule Suc.IH [OF it l1(1) Suc.prems(3-5)])
  then show ?case using l1(2) [OF Suc.prems(4,5)] it by (cases n) auto
qed simp

lemma runSteps_iter: "iterLoop n x p s = Some (p', s') \<Longrightarrow> runSteps x p s = runSteps x p' s'"
proof (induction n arbitrary: p s)
  case (Suc n)
  then show ?case by (subst runSteps.simps) (auto split: sum.splits)
qed simp

lemma load_checkpoint:
  assumes "faults s = []"
  shows "noRowsAsNone (LoadLoopCheckpoint taskID) s = (Inr (runCheckpoint taskID s), s)"
  using assms by (simp add: noRowsAsNone_def LoadLoopCheckpoint_def queryRow_def stmt_def runCheckpoint_def split: option.split)

text \<open>C10. A loop survives a crash: with a checkpoint after every step, a run that dies after some steps is taken up by the next
  \<open>Run\<close> for its task where it stopped. The result and the database are those of the same loop (its identifier and its
  deadline) going on from the step and the tokens it had reached, as if it had not stopped, but for one more event
  and for the last reply, which no checkpoint holds. (The brain is to leave the checkpoints alone.)\<close>

theorem loop_resumes:
  assumes "brainKeeps lr" and "lrHasStore lr" and "LbInterval (loopBudgetOf (lrConfig lr)) = 1"
    and "x = \<lparr>LxRunner = lr, LxEnv = le, LxTaskID = taskID, LxLoopID = i, LxStartedAt = t0\<rparr>" and "lone x s"
    and "iterLoop (Suc n) x p s = Some (p', s')" and "x' = x\<lparr>LxEnv := le'\<rparr>"
  shows "Run lr le' taskID s' =
    (let out = runSteps x' (p'\<lparr>LpLast := ''''\<rparr>) (loopEvent x' ''loop.started'' (LpStep p') (LbMaxSteps (budgetOf x)) '''' s') in (Inr (fst out), snd out))"
proof -
  have at: "lone x s'" "atCheckpoint x p' s'"
    using iterLoop_saves [OF assms(6,5)] assms(1-4) by (simp_all add: budgetOf_def)
  then obtain c where c: "runCheckpoint taskID s' = Some c" "LoopID c = i" "StartedAt c = t0" "CurrentStep c = LpStep p'" "TokensUsed c = LpTokens p'"
    using assms(4) by (auto simp: atCheckpoint_def)
  have "noRowsAsNone (LoadLoopCheckpoint taskID) s' = (Inr (Some c), s')" using load_checkpoint [of s' taskID] at(1) c(1) by (simp add: lone_def)
  then show ?thesis by (cases p') (simp add: Run_def assms(2,4,7) Let_def c(2-5) budgetOf_def split: prod.split)
qed

section \<open>Results\<close>

definition loopOutcome :: "loopBudget \<Rightarrow> LoopResult \<Rightarrow> bool" where
  "loopOutcome b r \<longleftrightarrow>
     LrStatus r = ''completed'' \<and> LrError r = None \<and> contains (LrResponse r) (LbKeyword b) \<or>
     LrStatus r = ''budget_exceeded'' \<and> LrError r \<noteq> None \<and> (LbMaxSteps b \<le> LrSteps r \<or> 0 < LbMaxTokens b \<and> LbMaxTokens b \<le> LrTokensUsed r) \<or>
     LrStatus r \<in> {''timeout'', ''failed''} \<and> LrError r \<noteq> None"

lemma loopStep_ends:
  assumes "loopStep x p s = Inl (r, s')"
  shows "loopOutcome (budgetOf x) r \<and> LrSteps r \<le> max (LpStep p) (LbMaxSteps (budgetOf x))"
  using assms unfolding loopStep_def Let_def
  by (simp split: if_split_asm option.splits prod.splits) (auto simp: endLoop_def loopOutcome_def)

lemma runSteps_ends: "loopOutcome (budgetOf x) (fst (runSteps x p s)) \<and> LrSteps (fst (runSteps x p s)) \<le> max (LpStep p) (LbMaxSteps (budgetOf x))"
proof (induction x p s rule: runSteps.induct)
  case (1 x p s)
  show ?case
  proof (cases "loopStep x p s")
    case (Inl out)
    then show ?thesis using loopStep_ends [of x p s "fst out" "snd out"] by (simp add: runSteps.simps [of x p s])
  next
    case (Inr ps)
    obtain p' s' where ps: "ps = (p', s')" by (cases ps)
    have "loopOutcome (budgetOf x) (fst (runSteps x p' s')) \<and> LrSteps (fst (runSteps x p' s')) \<le> max (LpStep p') (LbMaxSteps (budgetOf x))"
      using 1 Inr ps by blast
    moreover have "LpStep p' \<le> LbMaxSteps (budgetOf x)" using loopStep_advances Inr ps by fastforce
    ultimately show ?thesis using Inr ps by (simp add: runSteps.simps [of x p s] max_def)
  qed
qed

lemma endLoop_retires:
  assumes "endLoop x st topic er p s = (r, s')" and "lone x s" and "lrHasStore (LxRunner x)" and "st \<noteq> ''running''"
  shows "runCheckpoint (LxTaskID x) s' = None"
  using saveCheckpoint_saves(2) [OF assms(2,3), where p = p and st = st] assms(1,4)
  by (auto simp: endLoop_def runCheckpoint_untouched [OF untouched_loopEvent] split: option.splits)

lemma loopStep_retires:
  assumes "lone x s" and "brainKeeps (LxRunner x)" and "lrHasStore (LxRunner x)" and "loopStep x p s = Inl (r, s')"
  shows "runCheckpoint (LxTaskID x) s' = None"
proof -
  let ?str = "lrStream (LxRunner x) (onChunk x) (lrSessionID (LxRunner x))
    (''Continue working on the task.'' @ loopSuffix (budgetOf x) (LpStep p + 1) (LpTokens p)) ('''', loopEvent x ''loop.step'' (LpStep p + 1) 0 '''' s)"
  obtain e reply s1 where str: "?str = (e, reply, s1)" by (cases ?str)
  have l1: "lone x s1" using assms(1) untouched_stream [OF assms(2) str] lone_untouched by blast
  note retire = endLoop_retires [OF _ assms(1,3)] endLoop_retires [OF _ l1 assms(3)]
  show ?thesis
    using assms(4) unfolding loopStep_def Let_def str
    by (simp split: if_split_asm option.splits) (auto elim!: retire)
qed

lemma runSteps_retires:
  assumes "brainKeeps (LxRunner x)" and "lrHasStore (LxRunner x)" and "lone x s"
  shows "runCheckpoint (LxTaskID x) (snd (runSteps x p s)) = None"
  using assms
proof (induction x p s rule: runSteps.induct)
  case (1 x p s)
  show ?case
  proof (cases "loopStep x p s")
    case (Inl out)
    obtain r s' where out: "out = (r, s')" by (cases out)
    then show ?thesis using loopStep_retires [OF 1(4,2,3), of p r s'] Inl by (simp add: runSteps.simps [of x p s])
  next
    case (Inr ps)
    obtain p' s' where ps: "ps = (p', s')" by (cases ps)
    have "runCheckpoint (LxTaskID x) (snd (runSteps x p' s')) = None"
      by (rule 1(1) [OF Inr ps [symmetric] 1(2,3)]) (use loopStep_saves(1) [OF 1(4,2)] Inr ps in simp)
    then show ?thesis using Inr ps by (simp add: runSteps.simps [of x p s])
  qed
qed

lemma startRow_lone:
  assumes "faults s = []" and "distinct (map (LoopID \<circ> lr_checkpoint) (loop_checkpoints s))" and "\<forall>r\<in>set (loop_checkpoints s). \<not> runningFor taskID r"
    and "\<forall>r\<in>set (loop_checkpoints s). \<not> isLoop (leNewID le) r"
  shows "lone \<lparr>LxRunner = lr, LxEnv = le, LxTaskID = taskID, LxLoopID = leNewID le, LxStartedAt = leStart le\<rparr> s"
  using assms by (simp add: lone_def)

lemma runCheckpoint_None: "\<forall>r\<in>set (loop_checkpoints s). \<not> runningFor taskID r \<Longrightarrow> runCheckpoint taskID s = None"
  by (simp add: runCheckpoint_def latestLoop_def filter_False)

lemma Run_fresh:
  assumes "runCheckpoint taskID s = None" and "faults s = []"
  shows "Run lr le taskID s =
    (let x = \<lparr>LxRunner = lr, LxEnv = le, LxTaskID = taskID, LxLoopID = leNewID le, LxStartedAt = leStart le\<rparr>;
         out = runSteps x \<lparr>LpStep = 0, LpTokens = 0, LpLast = ''''\<rparr> (loopEvent x ''loop.started'' 0 (LbMaxSteps (budgetOf x)) '''' s) in (Inr (fst out), snd out))"
  using load_checkpoint [OF assms(2), of taskID] assms(1) by (simp add: Run_def Let_def split: prod.split)

text \<open>C15. A loop always returns, and why it did is what its result says: a new loop of a task, whatever the brain answers, ends
  with at most the configured steps; it ends as completed only with a reply that holds the keyword and no error, as over
  budget only with the steps or the tokens spent, and otherwise with the error of the brain or of the context.\<close>

theorem loop_within_budget:
  assumes "faults s = []" and "runCheckpoint taskID s = None"
  shows "\<exists>r s'. Run lr le taskID s = (Inr r, s') \<and> loopOutcome (loopBudgetOf (lrConfig lr)) r \<and> LrSteps r \<le> max 0 (LbMaxSteps (loopBudgetOf (lrConfig lr)))"
proof -
  let ?x = "\<lparr>LxRunner = lr, LxEnv = le, LxTaskID = taskID, LxLoopID = leNewID le, LxStartedAt = leStart le\<rparr>"
  have "budgetOf ?x = loopBudgetOf (lrConfig lr)" by (simp add: budgetOf_def)
  with runSteps_ends [of ?x "\<lparr>LpStep = 0, LpTokens = 0, LpLast = ''''\<rparr>" "loopEvent ?x ''loop.started'' 0 (LbMaxSteps (budgetOf ?x)) '''' s"]
  show ?thesis by (simp add: Run_fresh [OF assms(2,1)] Let_def)
qed

text \<open>A loop that has returned is not taken up again: after \<open>Run\<close> no checkpoint of the task is running, so that the next
  \<open>Run\<close> for the task is a new loop.\<close>

theorem finished_loop_not_resumed:
  assumes "brainKeeps lr" and "lrHasStore lr" and "faults s = []" and "distinct (map (LoopID \<circ> lr_checkpoint) (loop_checkpoints s))"
    and "\<forall>r\<in>set (loop_checkpoints s). \<not> runningFor taskID r" and "\<forall>r\<in>set (loop_checkpoints s). \<not> isLoop (leNewID le) r"
  shows "runCheckpoint taskID (snd (Run lr le taskID s)) = None"
proof -
  let ?x = "\<lparr>LxRunner = lr, LxEnv = le, LxTaskID = taskID, LxLoopID = leNewID le, LxStartedAt = leStart le\<rparr>"
  let ?s = "loopEvent ?x ''loop.started'' 0 (LbMaxSteps (budgetOf ?x)) '''' s"
  have "lone ?x s" by (rule startRow_lone) (use assms in auto)
  then have "lone ?x ?s" using lone_untouched [OF untouched_loopEvent] by blast
  then have "runCheckpoint (LxTaskID ?x) (snd (runSteps ?x \<lparr>LpStep = 0, LpTokens = 0, LpLast = ''''\<rparr> ?s)) = None"
    using assms(1,2) by (intro runSteps_retires) simp_all
  then show ?thesis by (simp add: Run_fresh [OF runCheckpoint_None [OF assms(5)] assms(3)] Let_def)
qed

section \<open>Examples\<close>

definition exLoop :: "side_store LoopRunner" where
  "exLoop = \<lparr>lrStream = (\<lambda>cb sid prompt bs. (None, cb ''work'' bs)), lrHasStore = True,
     lrConfig = \<lparr>LoEnabled = True, LoMaxSteps = 3, LoMaxTokens = 0, LoMaxDuration = '''', LoCheckpointInterval = 0, LoKeyword = ''''\<rparr>,
     lrAgentID = ''a'', lrSessionID = ''s''\<rparr>"

definition exLoopEnv :: "string \<Rightarrow> loopEnv" where
  "exLoopEnv i = \<lparr>leAt = (\<lambda>_. exEnv 100), leNewID = i, leStart = 0, leClock = (\<lambda>_. 0), leCancelled = (\<lambda>_. None)\<rparr>"

abbreviation exLoopRun :: "string \<Rightarrow> side_store loopRun" where
  "exLoopRun j \<equiv> \<lparr>LxRunner = exLoop, LxEnv = exLoopEnv j, LxTaskID = ''t'', LxLoopID = ''l1'', LxStartedAt = 0\<rparr>"

lemma exLoop_keeps: "brainKeeps exLoop"
  by (simp add: brainKeeps_def exLoop_def)

lemma exBudget: "loopBudgetOf (lrConfig exLoop) = \<lparr>LbMaxSteps = 3, LbMaxTokens = 100000, LbMaxDur = 30 * 60 * 10^9, LbInterval = 1, LbKeyword = ''TASK_COMPLETE''\<rparr>"
  by (simp add: loopBudgetOf_def exLoop_def parseLoopDuration_def)

lemma exLoopStep:
  assumes "LpStep p < 3" and "LpTokens p < 100"
  shows "\<exists>s'. loopStep (exLoopRun j) p s = Inr (\<lparr>LpStep = LpStep p + 1, LpTokens = LpTokens p + 1, LpLast = ''work''\<rparr>, s')"
  using assms
  by (simp add: loopStep_def Let_def budgetOf_def exBudget loopCtxErr_def exLoopEnv_def) (simp add: exLoop_def onChunk_def Let_def)

lemma exLoopEnd: "\<exists>s'. runSteps (exLoopRun j) \<lparr>LpStep = 3, LpTokens = 3, LpLast = ''work''\<rparr> s = (\<lparr>LrStatus = ''budget_exceeded'', LrSteps = 3, LrTokensUsed = 3,
    LrResponse = ''work'', LrError = Some (ErrMsg (''max steps reached: '' @ itoa 3))\<rparr>, s')"
  by (subst runSteps.simps) (simp add: loopStep_def Let_def budgetOf_def exBudget endLoop_def)

lemma exLoopTables: "faults (exScheduleStore []) = []" "loop_checkpoints (exScheduleStore []) = []"
  by (simp_all add: exScheduleStore_def emptySide_def side_store.defs agent_eval exSession_eq)

text \<open>Two steps, a crash, and the run that takes the loop up and ends it at the third.\<close>

theorem loop_resumes_witness:
  "\<exists>p' s' r s''. iterLoop 2 (exLoopRun ''l1'') \<lparr>LpStep = 0, LpTokens = 0, LpLast = ''''\<rparr> (exScheduleStore []) = Some (p', s') \<and>
     Run exLoop (exLoopEnv ''l2'') ''t'' s' = (Inr r, s'') \<and> LrSteps r = 3 \<and> LrTokensUsed r = 3 \<and> LrStatus r = ''budget_exceeded''"
proof -
  let ?p0 = "\<lparr>LpStep = 0, LpTokens = 0, LpLast = ''''\<rparr>" and ?p2 = "\<lparr>LpStep = 2, LpTokens = 2, LpLast = ''work''\<rparr>"
  obtain s1 where s1: "loopStep (exLoopRun ''l1'') ?p0 (exScheduleStore []) = Inr (\<lparr>LpStep = 1, LpTokens = 1, LpLast = ''work''\<rparr>, s1)"
    using exLoopStep [of ?p0] by fastforce
  obtain s2 where s2: "loopStep (exLoopRun ''l1'') \<lparr>LpStep = 1, LpTokens = 1, LpLast = ''work''\<rparr> s1 = Inr (?p2, s2)"
    using exLoopStep [of "\<lparr>LpStep = 1, LpTokens = 1, LpLast = ''work''\<rparr>"] by fastforce
  have it: "iterLoop (Suc (Suc 0)) (exLoopRun ''l1'') ?p0 (exScheduleStore []) = Some (?p2, s2)" by (simp add: s1 s2)
  have lone: "lone (exLoopRun ''l1'') (exScheduleStore [])" by (simp add: lone_def exLoopTables)
  let ?t = "loopEvent (exLoopRun ''l2'') ''loop.started'' 2 3 '''' s2"
  let ?q = "\<lparr>LpStep = 2, LpTokens = 2, LpLast = ''''\<rparr>"
  obtain s3 where s3: "loopStep (exLoopRun ''l2'') ?q ?t = Inr (\<lparr>LpStep = 3, LpTokens = 3, LpLast = ''work''\<rparr>, s3)"
    using exLoopStep [of ?q "''l2''" ?t] by auto
  have "runSteps (exLoopRun ''l2'') ?q ?t = runSteps (exLoopRun ''l2'') \<lparr>LpStep = 3, LpTokens = 3, LpLast = ''work''\<rparr> s3"
    by (subst runSteps.simps) (simp only: s3 sum.case prod.case)
  then obtain s4 where s4: "runSteps (exLoopRun ''l2'') ?q ?t = (\<lparr>LrStatus = ''budget_exceeded'', LrSteps = 3, LrTokensUsed = 3,
      LrResponse = ''work'', LrError = Some (ErrMsg (''max steps reached: '' @ itoa 3))\<rparr>, s4)"
    using exLoopEnd [of "''l2''" s3] by metis
  have "Run exLoop (exLoopEnv ''l2'') ''t'' s2 = (let out = runSteps (exLoopRun ''l2'') (?p2\<lparr>LpLast := ''''\<rparr>)
      (loopEvent (exLoopRun ''l2'') ''loop.started'' (LpStep ?p2) (LbMaxSteps (budgetOf (exLoopRun ''l1''))) '''' s2) in (Inr (fst out), snd out))"
    by (rule loop_resumes [OF exLoop_keeps _ _ refl lone it]) (simp_all add: exBudget, simp add: exLoop_def)
  moreover have "LbMaxSteps (budgetOf (exLoopRun ''l1'')) = 3" by (simp add: budgetOf_def exBudget)
  ultimately have "Run exLoop (exLoopEnv ''l2'') ''t'' s2 = (Inr (fst (runSteps (exLoopRun ''l2'') ?q ?t)), s4)"
    by (simp only: Let_def s4 loopPos.simps fst_conv snd_conv)
  then show ?thesis using it unfolding s4 by (auto simp: numeral_2_eq_2)
qed

theorem loop_within_budget_witness:
  "\<exists>r s'. Run exLoop (exLoopEnv ''l1'') ''t'' (exScheduleStore []) = (Inr r, s') \<and> LrSteps r \<le> 3"
  using loop_within_budget [OF exLoopTables(1), of "''t''" exLoop "exLoopEnv ''l1''"]
  by (auto simp: runCheckpoint_None exLoopTables exBudget)

theorem finished_loop_not_resumed_witness:
  "runCheckpoint ''t'' (snd (Run exLoop (exLoopEnv ''l1'') ''t'' (exScheduleStore []))) = None"
  by (rule finished_loop_not_resumed [OF exLoop_keeps]) (simp_all add: exLoopTables, simp add: exLoop_def)

end
