(* ===== verification/Host_Tools.thy ===== *)
theory Host_Tools
  imports Tool_Runs "HOL-Library.AList" "HOL-Library.List_Lexorder"
begin

text \<open>
  The tools that act on the host: \<open>exec\<close> (\<open>internal/tools/shell.go\<close>) and the file tools
  (\<open>internal/tools/file.go\<close>). The file tree is a map from cleaned absolute paths to nodes; \<open>feOs\<close> gives the
  resolution of symbolic links in a tree, \<open>feErr op p\<close> an error of the operating system and \<open>fePartial\<close> what a
  failed write leaves. The executor of commands is a parameter, of which \<open>HostExec\<close> is the one the source
  defines over \<open>os/exec\<close>. White space is that of ASCII.
\<close>

section \<open>Text\<close>

function Fields :: "string \<Rightarrow> string list" where
  "Fields s = (case dropWhile isSpaceByte s of [] \<Rightarrow> []
     | c # cs \<Rightarrow> takeWhile (\<lambda>x. \<not> isSpaceByte x) (c # cs) # Fields (dropWhile (\<lambda>x. \<not> isSpaceByte x) (c # cs)))"
  by auto
termination
proof (relation "measure length")
  fix s c cs assume s: "dropWhile isSpaceByte s = c # cs"
  then have "\<not> isSpaceByte c" by (metis hd_dropWhile list.discI list.sel(1))
  then have "length (dropWhile (\<lambda>x. \<not> isSpaceByte x) (c # cs)) \<le> length cs" by (simp add: length_dropWhile_le)
  also have "\<dots> < length s" using s length_dropWhile_le [of isSpaceByte s] by simp
  finally show "(dropWhile (\<lambda>x. \<not> isSpaceByte x) (c # cs), s) \<in> measure length" by simp
qed simp

declare Fields.simps [simp del]

text \<open>The text around the first occurrence; \<open>strings.Index\<close> is the length of its first part.\<close>

fun splitFirst :: "string \<Rightarrow> string \<Rightarrow> (string \<times> string) option" where
  "splitFirst sub [] = (if sub = [] then Some ([], []) else None)"
| "splitFirst sub (c # cs) = (if prefix sub (c # cs) then Some ([], drop (length sub) (c # cs)) else map_option (apfst (Cons c)) (splitFirst sub cs))"

lemma splitFirst_parts: "splitFirst sub s = Some (a, b) \<Longrightarrow> s = a @ sub @ b"
  by (induction s arbitrary: a) (auto split: if_splits elim: prefixE)

lemma splitFirst_None: "splitFirst sub s = None \<longleftrightarrow> \<not> contains s sub"
  by (induction s) auto

text \<open>The length of the first rune of a text, 1 for a byte that begins no valid one, and \<open>utf8.RuneCountInString\<close>.\<close>

definition runeLength :: "string \<Rightarrow> nat" where
  "runeLength s = (case map of_char s :: nat list of
      a # b # c # d # _ \<Rightarrow>
        if 194 \<le> a \<and> a \<le> 223 \<and> 128 \<le> b \<and> b \<le> 191 then 2
        else if 224 \<le> a \<and> a \<le> 239 \<and> (if a = 224 then 160 else 128) \<le> b \<and> b \<le> (if a = 237 then 159 else 191) \<and> 128 \<le> c \<and> c \<le> 191 then 3
        else if 240 \<le> a \<and> a \<le> 244 \<and> (if a = 240 then 144 else 128) \<le> b \<and> b \<le> (if a = 244 then 143 else 191) \<and>
          128 \<le> c \<and> c \<le> 191 \<and> 128 \<le> d \<and> d \<le> 191 then 4
        else 1
    | [a, b, c] \<Rightarrow>
        if 194 \<le> a \<and> a \<le> 223 \<and> 128 \<le> b \<and> b \<le> 191 then 2
        else if 224 \<le> a \<and> a \<le> 239 \<and> (if a = 224 then 160 else 128) \<le> b \<and> b \<le> (if a = 237 then 159 else 191) \<and> 128 \<le> c \<and> c \<le> 191 then 3
        else 1
    | [a, b] \<Rightarrow> if 194 \<le> a \<and> a \<le> 223 \<and> 128 \<le> b \<and> b \<le> 191 then 2 else 1
    | _ \<Rightarrow> 1)"

function runeCount :: "string \<Rightarrow> nat" where
  "runeCount s = (if s = [] then 0 else Suc (runeCount (drop (max 1 (runeLength s)) s)))"
  by auto
termination by (relation "measure length") auto

declare runeCount.simps [simp del]

text \<open>\<open>strings.Count\<close>: occurrences that do not overlap, from the left; of the empty text, one more than the runes.\<close>

function countSub :: "string \<Rightarrow> string \<Rightarrow> nat" where
  "countSub sub s = (if sub = [] then Suc (runeCount s) else case splitFirst sub s of None \<Rightarrow> 0 | Some (a, b) \<Rightarrow> Suc (countSub sub b))"
  by auto
termination
proof (relation "measure (\<lambda>(sub, s). length s)")
  fix sub s :: string and ab a b
  assume "sub \<noteq> []" "splitFirst sub s = Some ab" "(a, b) = ab"
  then show "((sub, b), (sub, s)) \<in> measure (\<lambda>(sub, s). length s)" using splitFirst_parts [of sub s a b] by auto
qed simp

declare countSub.simps [simp del]

text \<open>\<open>strings.Replace(content, old, new, 1)\<close>.\<close>

definition replaceFirst :: "string \<Rightarrow> string \<Rightarrow> string \<Rightarrow> string" where
  "replaceFirst content old new = (case splitFirst old content of None \<Rightarrow> content | Some (a, b) \<Rightarrow> a @ new @ b)"

section \<open>Commands\<close>

definition maxShellOutput :: nat where "maxShellOutput = 8 * 1024"

definition denyList :: "string list" where
  "denyList = [''rm'', ''rmdir'', ''mkfs'', ''dd'', ''shutdown'', ''reboot'', ''halt'', ''poweroff'', ''kill'', ''killall'', ''pkill'', ''sudo'', ''su'',
     ''chmod'', ''chown'', ''base64'', ''openssl'', ''xxd'', ''python'', ''python3'', ''perl'', ''ruby'', ''node'', ''go'', ''java'', ''php'', ''lua'',
     ''awk'', ''sed'']"

record ShellInput =
  ShCommand :: string
  ShWorkingDir :: string
  ShTimeoutSec :: int

record ShellOutput =
  Stdout :: string
  Stderr :: string
  ExitCode :: int

definition truncateOutput :: "string \<Rightarrow> nat \<Rightarrow> string" where
  "truncateOutput s maxLen = (if length s \<le> maxLen then s else take maxLen s @ [CHR 0x0A] @ ''... (truncated)'')"

text \<open>The first of \<open>||\<close>, \<open>&&\<close> and \<open>|\<close>, with its length; a pipe counts before a double one at a smaller index only.\<close>

definition earlier :: "string \<Rightarrow> string \<Rightarrow> (nat \<times> nat) option \<Rightarrow> (nat \<times> nat) option" where
  "earlier cmd op best = (case splitFirst op cmd of None \<Rightarrow> best
     | Some (a, _) \<Rightarrow> (case best of None \<Rightarrow> Some (length a, length op)
        | Some (i, m) \<Rightarrow> if length a < i then Some (length a, length op) else best))"

definition firstOp :: "string \<Rightarrow> (nat \<times> nat) option" where
  "firstOp cmd = earlier cmd ''|'' (earlier cmd ''&&'' (earlier cmd ''||'' None))"

definition trimmed :: "string \<Rightarrow> string list" where
  "trimmed seg = (if trimSpace seg = '''' then [] else [trimSpace seg])"

lemma earlier_length:
  "earlier cmd op best = Some (i, m) \<Longrightarrow> best = Some (i, m) \<or> m = length op \<and> (\<exists>b. splitFirst op cmd = Some (take i cmd, b) \<and> i \<le> length cmd)"
  using splitFirst_parts [of op cmd] by (auto simp: earlier_def split: option.splits if_splits)

lemma firstOp_length: "firstOp cmd = Some (i, m) \<Longrightarrow> 0 < m \<and> i + m \<le> length cmd"
proof -
  assume "firstOp cmd = Some (i, m)"
  then obtain op b where "splitFirst op cmd = Some (take i cmd, b)" "m = length op" "op \<noteq> []" "i \<le> length cmd"
    unfolding firstOp_def by (auto dest!: earlier_length)
  then show "0 < m \<and> i + m \<le> length cmd" using splitFirst_parts [of op cmd "take i cmd" b] by (metis append_assoc le_add1
        length_append length_greater_0_conv length_take min_absorb2)
qed

function splitCommandSegments :: "string \<Rightarrow> string list" where
  "splitCommandSegments cmd =
    (if cmd = [] then []
     else case firstOp cmd of None \<Rightarrow> trimmed cmd | Some (i, m) \<Rightarrow> trimmed (take i cmd) @ splitCommandSegments (drop (i + m) cmd))"
  by auto
termination
  by (relation "measure length") (auto dest: firstOp_length)

declare splitCommandSegments.simps [simp del]

text \<open>What ends the run of a command: success, an exit code, or another failure.\<close>

datatype runErr = RunOK | RunExit int | RunFailed err

definition HostExec :: "(string \<Rightarrow> string \<Rightarrow> int \<Rightarrow> 's \<Rightarrow> (string \<times> string \<times> runErr) \<times> bool \<times> 's) \<Rightarrow>
    string \<Rightarrow> string \<Rightarrow> int \<Rightarrow> 's \<Rightarrow> (string \<times> string \<times> int \<times> err option) \<times> bool \<times> 's" where
  "HostExec run cmd workDir timeout s =
    (case run cmd workDir timeout s of ((out, er, r), timedOut, s1) \<Rightarrow>
      (case r of RunOK \<Rightarrow> ((out, er, 0, None), timedOut, s1) | RunExit n \<Rightarrow> ((out, er, n, None), timedOut, s1)
       | RunFailed e \<Rightarrow> ((out, er, -1, Some e), timedOut, s1)))"

section \<open>The registry of the tools\<close>

datatype fsNode = FileNode string | DirNode | LinkNode string

type_synonym fsTree = "(string \<times> fsNode) list"

record host_store = tool_store +
  fsys :: fsTree

text \<open>\<open>rgPath t p\<close> is the method \<open>AllowPath\<close> of the policy in a tree; the executor answers a run and whether its time was up.\<close>

record 's toolReg =
  rgPolicy :: "Checker option"
  rgPath :: "fsTree \<Rightarrow> string \<Rightarrow> bool"
  rgExecutor :: "string \<Rightarrow> string \<Rightarrow> int \<Rightarrow> 's \<Rightarrow> (string \<times> string \<times> int \<times> err option) \<times> bool \<times> 's"
  rgRedact :: "string \<Rightarrow> string"
  rgCtx :: ctx

definition publishToolCall :: "'s toolReg \<Rightarrow> string \<Rightarrow> 'x store_scheme \<Rightarrow> (err + unit) \<times> 'x store_scheme" where
  "publishToolCall r tool = publishS ''stream.tool_call'' (PToolCall (TaskID (rgCtx r)) (AgentID (rgCtx r)) (SessionID (rgCtx r)) tool)"

definition deniedWord :: "string \<Rightarrow> string option" where
  "deniedWord cmd = List.find (\<lambda>w. w \<in> set denyList) (concat (map (\<lambda>seg. Fields (trimSpace seg)) (splitCommandSegments cmd)))"

definition disallowedOp :: "string \<Rightarrow> string option" where
  "disallowedOp cmd = List.find (contains cmd) ['';'', ''$('', [CHR 0x60]]"

definition shellTimeout :: "int \<Rightarrow> int" where
  "shellTimeout sec = (if sec > 0 then (let t = sint (word_of_int (sec * 10^9) :: 64 word) in if t > 120 * 10^9 then 120 * 10^9 else t) else 30 * 10^9)"

definition execTool :: "'x host_store_scheme toolReg \<Rightarrow> ShellInput \<Rightarrow> 'x host_store_scheme \<Rightarrow> (err + ShellOutput) \<times> 'x host_store_scheme" where
  "execTool r input =
    bindS (publishToolCall r ''exec'') (\<lambda>_.
    bindS (policyGate (rgPolicy r) ''tools.exec'' ''exec'') (\<lambda>pv.
    bindS (recordAudit ''allow'' ''tools.exec'' ''capability_granted'' pv (ShCommand input)) (\<lambda>_.
    (if Fields (trimSpace (ShCommand input)) = [] then failS (ErrMsg ''empty command'')
     else case disallowedOp (ShCommand input) of
       Some op \<Rightarrow> failS (ErrMsg (''command contains disallowed operator '' @ quoteGo op))
     | None \<Rightarrow>
        (case deniedWord (ShCommand input) of
           Some tok \<Rightarrow> failS (ErrMsg (''command '' @ quoteGo tok @ '' is on the deny list''))
         | None \<Rightarrow> (\<lambda>s.
            (case rgExecutor r (ShCommand input) (ShWorkingDir input) (shellTimeout (ShTimeoutSec input)) s of
               ((out, er, code, e), timedOut, s1) \<Rightarrow>
                 (case e of
                    Some e' \<Rightarrow> if code = 0
                      then if timedOut then (Inr \<lparr>Stdout = '''', Stderr = ''command timed out'', ExitCode = -1\<rparr>, s1) else (Inl (ErrWrap ''exec'' e'), s1)
                      else (Inr \<lparr>Stdout = rgRedact r (truncateOutput out maxShellOutput), Stderr = rgRedact r (truncateOutput er maxShellOutput), ExitCode = code\<rparr>, s1)
                  | None \<Rightarrow>
                      (Inr \<lparr>Stdout = rgRedact r (truncateOutput out maxShellOutput), Stderr = rgRedact r (truncateOutput er maxShellOutput), ExitCode = code\<rparr>, s1)))))))))"

section \<open>The file tree\<close>

record fileEnv =
  feOs :: "fsTree \<Rightarrow> os"
  feErr :: "string \<Rightarrow> string \<Rightarrow> err option"
  fePartial :: "string \<Rightarrow> string \<Rightarrow> string option"
  feSize :: "string \<Rightarrow> int"

definition noSuchFile :: err where
  "noSuchFile = ErrMsg ''no such file or directory''"

text \<open>Where a path leads: through every link if that is possible, else through a dangling last one.\<close>

definition realPath :: "fileEnv \<Rightarrow> fsTree \<Rightarrow> string \<Rightarrow> string" where
  "realPath fe t p = (case evalSymlinks (feOs fe t) p of Some q \<Rightarrow> q
     | None \<Rightarrow> (case map_of t p of Some (LinkNode q) \<Rightarrow> q | _ \<Rightarrow> p))"

definition osStat :: "fileEnv \<Rightarrow> string \<Rightarrow> fsTree \<Rightarrow> err + fsNode" where
  "osStat fe p t = (case feErr fe ''stat'' p of Some e \<Rightarrow> Inl e
     | None \<Rightarrow> (case map_of t (realPath fe t p) of Some (FileNode c) \<Rightarrow> Inr (FileNode c) | Some DirNode \<Rightarrow> Inr DirNode | _ \<Rightarrow> Inl noSuchFile))"

definition osReadFile :: "fileEnv \<Rightarrow> string \<Rightarrow> fsTree \<Rightarrow> err + string" where
  "osReadFile fe p t = (case feErr fe ''read'' p of Some e \<Rightarrow> Inl e
     | None \<Rightarrow> (case map_of t (realPath fe t p) of Some (FileNode c) \<Rightarrow> Inr c | Some DirNode \<Rightarrow> Inl (ErrMsg ''is a directory'') | _ \<Rightarrow> Inl noSuchFile))"

definition osWriteFile :: "fileEnv \<Rightarrow> string \<Rightarrow> string \<Rightarrow> fsTree \<Rightarrow> err option \<times> fsTree" where
  "osWriteFile fe p content t =
    (let q = realPath fe t p in
     if map_of t q = Some DirNode then (Some (ErrMsg ''is a directory''), t)
     else case feErr fe ''write'' p of
       Some e \<Rightarrow> (Some e, case fePartial fe p content of None \<Rightarrow> t | Some c \<Rightarrow> AList.update q (FileNode c) t)
     | None \<Rightarrow> (None, AList.update q (FileNode content) t))"

definition osRename :: "fileEnv \<Rightarrow> string \<Rightarrow> string \<Rightarrow> fsTree \<Rightarrow> err option \<times> fsTree" where
  "osRename fe src dst t =
    (case feErr fe ''rename'' src of Some e \<Rightarrow> (Some e, t)
     | None \<Rightarrow> (case map_of t src of None \<Rightarrow> (Some noSuchFile, t)
        | Some n \<Rightarrow> if map_of t dst = Some DirNode then (Some (ErrMsg ''file exists''), t)
            else (None, AList.update dst n (AList.delete src t))))"

definition osRemove :: "fileEnv \<Rightarrow> string \<Rightarrow> fsTree \<Rightarrow> fsTree" where
  "osRemove fe p t = (if feErr fe ''remove'' p = None then AList.delete p t else t)"

text \<open>The directories of a path from the root down, and \<open>os.MkdirAll\<close>, which makes those that are missing.\<close>

definition ancestors :: "string \<Rightarrow> string list" where
  "ancestors d = map (\<lambda>k. absolute (take k (comps d))) [0..<Suc (length (comps d))]"

fun mkdirs :: "fileEnv \<Rightarrow> string list \<Rightarrow> fsTree \<Rightarrow> err option \<times> fsTree" where
  "mkdirs fe [] t = (None, t)"
| "mkdirs fe (d # ds) t =
    (case map_of t (realPath fe t d) of
       Some DirNode \<Rightarrow> mkdirs fe ds t
     | Some _ \<Rightarrow> (Some (ErrMsg ''not a directory''), t)
     | None \<Rightarrow> if map_of t d \<noteq> None then (Some (ErrMsg ''file exists''), t)
         else (case feErr fe ''mkdir'' d of Some e \<Rightarrow> (Some e, t) | None \<Rightarrow> mkdirs fe ds (AList.update d DirNode t)))"

definition osMkdirAll :: "fileEnv \<Rightarrow> string \<Rightarrow> fsTree \<Rightarrow> err option \<times> fsTree" where
  "osMkdirAll fe d t = mkdirs fe (ancestors d) t"

section \<open>The file tools\<close>

record WriteFileInput =
  WfPath :: string
  WfContent :: string

record EditFileInput =
  EfPath :: string
  EfOldText :: string
  EfNewText :: string

record DirEntry =
  DeName :: string
  DeIsDir :: bool
  DeSize :: int

definition maxReadBytes :: nat where "maxReadBytes = 100 * 1024"
definition maxListEntries :: nat where "maxListEntries = 200"

definition isPathAllowed :: "fileEnv \<Rightarrow> fsTree \<Rightarrow> string \<Rightarrow> err + string" where
  "isPathAllowed fe t rawPath =
    (if rawPath = '''' then Inl (ErrMsg ''empty path'')
     else case AbsPath (getwd (feOs fe t)) rawPath of
       None \<Rightarrow> Inl (ErrWrap ''resolve path'' (ErrMsg ''getwd''))
     | Some resolved \<Rightarrow> Inr (JoinPath (coalesce (evalSymlinks (feOs fe t) (Dir resolved)) (Dir resolved)) (Base resolved)))"

text \<open>The beginning of every file tool: the capability, the record of the grant where there is one, and the path.\<close>

definition fileGate :: "'x host_store_scheme toolReg \<Rightarrow> fileEnv \<Rightarrow> string \<Rightarrow> string \<Rightarrow> bool \<Rightarrow> string \<Rightarrow>
    'x host_store_scheme \<Rightarrow> (err + string) \<times> 'x host_store_scheme" where
  "fileGate r fe capability tool noted path =
    bindS (publishToolCall r tool) (\<lambda>_.
    bindS (policyGate (rgPolicy r) capability tool) (\<lambda>pv.
    bindS (if noted then recordAudit ''allow'' capability ''capability_granted'' pv path else retS ()) (\<lambda>_.
    (\<lambda>s. case isPathAllowed fe (fsys s) path of
       Inl e \<Rightarrow> (Inl e, s)
     | Inr resolved \<Rightarrow>
        (if \<not> rgPath r (fsys s) resolved
         then bindS (recordAudit ''deny'' capability ''path_denied'' pv resolved) (\<lambda>_. failS (ErrMsg (''policy denied path '' @ quoteGo resolved))) s
         else (Inr resolved, s))))))"

definition onTree :: "(fsTree \<Rightarrow> err + 'a) \<Rightarrow> 'x host_store_scheme \<Rightarrow> (err + 'a) \<times> 'x host_store_scheme" where
  "onTree f s = (f (fsys s), s)"

definition readFile :: "'x host_store_scheme toolReg \<Rightarrow> fileEnv \<Rightarrow> string \<Rightarrow> 'x host_store_scheme \<Rightarrow> (err + string \<times> int) \<times> 'x host_store_scheme" where
  "readFile r fe path =
    bindS (fileGate r fe ''tools.read_file'' ''read_file'' True path) (\<lambda>resolved.
    bindS (wrapS ''stat'' (onTree (osStat fe resolved))) (\<lambda>info.
    case info of
      FileNode c \<Rightarrow>
        (if length c > maxReadBytes
         then failS (ErrMsg (''file too large: '' @ itoa (int (length c)) @ '' bytes (max '' @ itoa (int maxReadBytes) @ '')''))
         else bindS (wrapS ''read'' (onTree (osReadFile fe resolved))) (\<lambda>content. retS (content, int (length c))))
    | _ \<Rightarrow> failS (ErrMsg ''path is a directory, use list_directory instead'')))"

text \<open>The write to \<open>path.tmp\<close> and its rename, with the removal of the former when the latter fails.\<close>

definition atomicWrite :: "fileEnv \<Rightarrow> string \<Rightarrow> string \<Rightarrow> 'x host_store_scheme \<Rightarrow> (err + unit) \<times> 'x host_store_scheme" where
  "atomicWrite fe resolved content s =
    (let tmp = resolved @ ''.tmp'' in
     case osWriteFile fe tmp content (fsys s) of
       (Some e, t) \<Rightarrow> (Inl (ErrWrap ''write temp'' e), s\<lparr>fsys := t\<rparr>)
     | (None, t) \<Rightarrow>
        (case osRename fe tmp resolved t of
           (Some e, t1) \<Rightarrow> (Inl (ErrWrap ''rename'' e), s\<lparr>fsys := osRemove fe tmp t1\<rparr>)
         | (None, t1) \<Rightarrow> (Inr (), s\<lparr>fsys := t1\<rparr>)))"

definition writeFile :: "'x host_store_scheme toolReg \<Rightarrow> fileEnv \<Rightarrow> WriteFileInput \<Rightarrow> 'x host_store_scheme \<Rightarrow> (err + string \<times> nat) \<times> 'x host_store_scheme" where
  "writeFile r fe input =
    bindS (fileGate r fe ''tools.write_file'' ''write_file'' True (WfPath input)) (\<lambda>resolved.
    bindS (\<lambda>s. case osMkdirAll fe (Dir resolved) (fsys s) of
        (Some e, t) \<Rightarrow> (Inl (ErrWrap ''mkdir'' e), s\<lparr>fsys := t\<rparr>) | (None, t) \<Rightarrow> (Inr (), s\<lparr>fsys := t\<rparr>)) (\<lambda>_.
    bindS (atomicWrite fe resolved (WfContent input)) (\<lambda>_. retS (resolved, length (WfContent input)))))"

definition dirEntries :: "fileEnv \<Rightarrow> string \<Rightarrow> fsTree \<Rightarrow> DirEntry list" where
  "dirEntries fe d t = map (\<lambda>(p, n). \<lparr>DeName = Base p, DeIsDir = (n = DirNode),
       DeSize = (if feErr fe ''lstat'' p \<noteq> None then 0 else case n of FileNode c \<Rightarrow> int (length c) | _ \<Rightarrow> feSize fe p)\<rparr>)
     (sort_key (\<lambda>(p, n). map of_char (Base p) :: nat list) (filter (\<lambda>(p, n). Dir p = d \<and> p \<noteq> d) t))"

definition listDirectory :: "'x host_store_scheme toolReg \<Rightarrow> fileEnv \<Rightarrow> string \<Rightarrow> 'x host_store_scheme \<Rightarrow>
    (err + DirEntry list \<times> string) \<times> 'x host_store_scheme" where
  "listDirectory r fe path =
    bindS (fileGate r fe ''tools.read_file'' ''list_directory'' False path) (\<lambda>resolved.
    bindS (wrapS ''read dir'' (onTree (\<lambda>t. case feErr fe ''readdir'' resolved of Some e \<Rightarrow> Inl e
        | None \<Rightarrow> (case map_of t (realPath fe t resolved) of Some DirNode \<Rightarrow> Inr (dirEntries fe (realPath fe t resolved) t)
            | Some _ \<Rightarrow> Inl (ErrMsg ''not a directory'') | None \<Rightarrow> Inl noSuchFile)))) (\<lambda>entries.
    retS (take maxListEntries entries, resolved)))"

definition editFile :: "'x host_store_scheme toolReg \<Rightarrow> fileEnv \<Rightarrow> EditFileInput \<Rightarrow> 'x host_store_scheme \<Rightarrow> (err + string) \<times> 'x host_store_scheme" where
  "editFile r fe input =
    bindS (fileGate r fe ''tools.write_file'' ''edit_file'' False (EfPath input)) (\<lambda>resolved.
    bindS (wrapS ''read'' (onTree (osReadFile fe resolved))) (\<lambda>content.
    (let n = countSub (EfOldText input) content in
     if n = 0 then failS (ErrMsg ''old_text not found in file'')
     else if n > 1 then failS (ErrMsg (''old_text appears '' @ itoa (int n) @ '' times (must be unique)''))
     else bindS (atomicWrite fe resolved (replaceFirst content (EfOldText input) (EfNewText input))) (\<lambda>_. retS resolved))))"

section \<open>No denied word runs\<close>

definition opChar :: "char \<Rightarrow> bool" where
  "opChar c \<longleftrightarrow> c = CHR ''|'' \<or> c = CHR ''&''"

text \<open>A word between boundaries: the ends, white space, a pipe, or exactly two ampersands.\<close>

definition opensWord :: "string \<Rightarrow> bool" where
  "opensWord p \<longleftrightarrow> p = [] \<or> isSpaceByte (last p) \<or> last p = CHR ''|'' \<or> suffix ''&&'' p \<and> \<not> suffix ''&&&'' p"

definition closesWord :: "string \<Rightarrow> bool" where
  "closesWord q \<longleftrightarrow> q = [] \<or> isSpaceByte (hd q) \<or> hd q = CHR ''|'' \<or> prefix ''&&'' q"

lemma Fields_Nil: "Fields [] = []"
  by (subst Fields.simps) simp

lemma Fields_space: "isSpaceByte c \<Longrightarrow> Fields (c # s) = Fields s"
  by (subst (1 2) Fields.simps) simp

lemma Fields_spaces: "\<forall>c\<in>set p. isSpaceByte c \<Longrightarrow> Fields (p @ s) = Fields s"
  by (induction p) (auto simp: Fields_space)

lemma Fields_drop: "Fields (dropWhile isSpaceByte s) = Fields s"
  by (subst (1 2) Fields.simps) simp

lemma Fields_word:
  assumes "w \<noteq> []" and "\<forall>c\<in>set w. \<not> isSpaceByte c" and "q = [] \<or> isSpaceByte (hd q)"
  shows "Fields (w @ q) = w # Fields q"
proof -
  obtain c cs where w: "w = c # cs" using assms(1) by (cases w) auto
  have "takeWhile (\<lambda>x. \<not> isSpaceByte x) (w @ q) = w" "dropWhile (\<lambda>x. \<not> isSpaceByte x) (w @ q) = q"
    using assms(2,3) by (cases q; simp add: takeWhile_append dropWhile_append)+
  then show ?thesis using w assms(2) by (subst Fields.simps) simp
qed

text \<open>The words before a place where white space ends or begins are words of the whole.\<close>

lemma Fields_append: "s = [] \<or> isSpaceByte (hd s) \<or> (p \<noteq> [] \<and> isSpaceByte (last p)) \<Longrightarrow> Fields (p @ s) = Fields p @ Fields s"
proof (induction p rule: Fields.induct)
  case (1 p)
  show ?case
  proof (cases "dropWhile isSpaceByte p")
    case Nil
    then have "\<forall>c\<in>set p. isSpaceByte c" by (simp add: dropWhile_eq_Nil_conv)
    then show ?thesis using Fields_spaces [of p s] Fields_spaces [of p "[]"] by (simp add: Fields_Nil)
  next
    case (Cons c cs)
    let ?w = "takeWhile (\<lambda>x. \<not> isSpaceByte x) (c # cs)" and ?r = "dropWhile (\<lambda>x. \<not> isSpaceByte x) (c # cs)"
    have c: "\<not> isSpaceByte c" using Cons by (metis hd_dropWhile list.discI list.sel(1))
    have p: "p = takeWhile isSpaceByte p @ ?w @ ?r" using Cons by (metis takeWhile_dropWhile_id)
    have sp: "\<forall>x\<in>set (takeWhile isSpaceByte p). isSpaceByte x" by (auto dest: set_takeWhileD)
    have w: "?w \<noteq> []" "\<forall>x\<in>set ?w. \<not> isSpaceByte x" using c by (auto dest: set_takeWhileD)
    have r: "?r = [] \<or> isSpaceByte (hd ?r)" using hd_dropWhile [of "\<lambda>x. \<not> isSpaceByte x" "c # cs"] by blast
    have Fp: "Fields p = ?w # Fields ?r" using Fields_word [OF w r] Fields_spaces [OF sp] p by metis
    have "s = [] \<or> isSpaceByte (hd s) \<or> (?r \<noteq> [] \<and> isSpaceByte (last ?r))"
    proof (cases "?r = []")
      case True
      then have "last p = last ?w" using p w(1) by (metis append_Nil2 last_appendR)
      then have "\<not> isSpaceByte (last p)" using w by (metis last_in_set)
      then show ?thesis using "1.prems" by blast
    next
      case False
      then have "last p = last ?r" using p by (metis append_is_Nil_conv last_appendR)
      then show ?thesis using "1.prems" False by metis
    qed
    then have IH: "Fields (?r @ s) = Fields ?r @ Fields s" by (rule "1.IH" [OF Cons])
    have rs: "?r @ s = [] \<or> isSpaceByte (hd (?r @ s))"
    proof (cases "?r = []")
      case True
      then show ?thesis using \<open>s = [] \<or> isSpaceByte (hd s) \<or> (?r \<noteq> [] \<and> isSpaceByte (last ?r))\<close> by auto
    next
      case False
      then show ?thesis using r by simp
    qed
    have "Fields (p @ s) = Fields (?w @ ?r @ s)" using Fields_spaces [OF sp, of "?w @ ?r @ s"] p by (metis append_assoc)
    then show ?thesis using Fields_word [OF w rs] IH Fp by simp
  qed
qed

lemma Fields_trim: "Fields (trimSpace s) = Fields s"
proof -
  let ?t = "dropWhile isSpaceByte s"
  have "?t = rev (dropWhile isSpaceByte (rev ?t)) @ rev (takeWhile isSpaceByte (rev ?t))" by (metis rev_append rev_rev_ident takeWhile_dropWhile_id)
  moreover have sp: "\<forall>x\<in>set (rev (takeWhile isSpaceByte (rev ?t))). isSpaceByte x" by (auto dest: set_takeWhileD)
  ultimately have "Fields ?t = Fields (trimSpace s @ rev (takeWhile isSpaceByte (rev ?t)))" by (simp add: trimSpace_def)
  also have "\<dots> = Fields (trimSpace s) @ Fields (rev (takeWhile isSpaceByte (rev ?t)))"
    by (rule Fields_append) (use sp in \<open>metis list.set_sel(1)\<close>)
  also have "Fields (rev (takeWhile isSpaceByte (rev ?t))) = []" using Fields_spaces [OF sp, of "[]"] by (simp add: Fields_Nil)
  finally show ?thesis by (simp add: Fields_drop)
qed

lemma Fields_mem:
  assumes "w \<noteq> []" and "\<forall>c\<in>set w. \<not> isSpaceByte c" and "p = [] \<or> isSpaceByte (last p)" and "q = [] \<or> isSpaceByte (hd q)"
  shows "w \<in> set (Fields (p @ w @ q))"
proof -
  have "Fields (p @ w @ q) = Fields p @ Fields (w @ q)"
  proof (cases "p = []")
    case False
    with assms(3) show ?thesis by (intro Fields_append) simp
  qed (simp add: Fields_Nil)
  then show ?thesis using Fields_word [OF assms(1,2,4)] by simp
qed

text \<open>Where an operator occurs, the first one is no later, and the text before it holds none.\<close>

lemma splitFirst_minimal:
  assumes "splitFirst sub s = Some (a, b)" and "s = p @ sub @ q"
  shows "length a \<le> length p"
  using assms
proof (induction s arbitrary: a p)
  case (Cons c cs)
  show ?case
  proof (cases "prefix sub (c # cs)")
    case False
    then obtain a' where "splitFirst sub cs = Some (a', b)" "a = c # a'" using Cons.prems(1) by auto
    moreover obtain p' where "p = c # p'" "cs = p' @ sub @ q" using False Cons.prems(2) by (cases p) auto
    ultimately show ?thesis using Cons.IH by auto
  qed (use Cons.prems(1) in simp)
qed (auto split: if_splits)

lemma splitFirst_Some: "s = p @ sub @ q \<Longrightarrow> \<exists>a b. splitFirst sub s = Some (a, b)"
  using splitFirst_None [of sub s] contains_iff by (cases "splitFirst sub s") auto

lemma earlier_le:
  assumes "earlier cmd op best = res"
  shows "(\<forall>i m. best = Some (i, m) \<longrightarrow> (\<exists>j k. res = Some (j, k) \<and> j \<le> i)) \<and> (\<forall>p q. cmd = p @ op @ q \<longrightarrow> (\<exists>j k. res = Some (j, k) \<and> j \<le> length p))"
proof -
  have "\<exists>j k. res = Some (j, k) \<and> j \<le> length p" if c: "cmd = p @ op @ q" for p q
  proof -
    obtain a b where s: "splitFirst op cmd = Some (a, b)" using splitFirst_Some [OF c] by blast
    then show ?thesis using assms splitFirst_minimal [OF s c] by (fastforce simp: earlier_def split: option.splits if_splits)
  qed
  then show ?thesis using assms by (auto simp: earlier_def split: option.splits if_splits)
qed

lemma firstOp_le:
  assumes "cmd = p @ op @ q" and "op \<in> {''|'', ''&&''}"
  shows "\<exists>i m. firstOp cmd = Some (i, m) \<and> i \<le> length p"
proof -
  obtain b1 b2 where b: "earlier cmd ''||'' None = b1" "earlier cmd ''&&'' b1 = b2" "earlier cmd ''|'' b2 = firstOp cmd" by (simp add: firstOp_def)
  note amp = conjunct2 [OF earlier_le [OF b(2)], rule_format, of p q] and later = conjunct1 [OF earlier_le [OF b(3)], rule_format]
    and pipe = conjunct2 [OF earlier_le [OF b(3)], rule_format, of p q]
  show ?thesis
  proof (cases "op = ''|''")
    case True
    then show ?thesis using pipe assms(1) by blast
  next
    case False
    then have "op = ''&&''" using assms(2) by blast
    then obtain j k where j: "b2 = Some (j, k)" "j \<le> length p" using amp assms(1) by blast
    then show ?thesis using later [of j k] order_trans by blast
  qed
qed

text \<open>The first operator is made of operator characters: one pipe, two, or two ampersands.\<close>

lemma firstOp_is:
  assumes "firstOp cmd = Some (i, m)"
  shows "take m (drop i cmd) \<in> {''|'', ''||'', ''&&''} \<and> m = length (take m (drop i cmd)) \<and> i + m \<le> length cmd"
proof -
  obtain op b where s: "splitFirst op cmd = Some (take i cmd, b)" "m = length op" "op \<in> {''|'', ''||'', ''&&''}" "i \<le> length cmd"
    using assms unfolding firstOp_def by (auto dest!: earlier_length)
  have "drop i cmd = op @ b" using splitFirst_parts [OF s(1)] s(4) by (metis append_take_drop_id same_append_eq)
  then show ?thesis using s(2,3) firstOp_length [OF assms] by simp
qed

lemma opChar_space: "opChar c \<Longrightarrow> \<not> isSpaceByte c"
  by (auto simp: opChar_def isSpaceByte_def)

lemma opensWord_before:
  assumes "opensWord p" and "firstOp (p @ s) = None \<or> (\<exists>i m. firstOp (p @ s) = Some (i, m) \<and> length p \<le> i)"
  shows "p = [] \<or> isSpaceByte (last p)"
proof (rule ccontr)
  assume no: "\<not> (p = [] \<or> isSpaceByte (last p))"
  then have "last p = CHR ''|'' \<or> suffix ''&&'' p" using assms(1) by (auto simp: opensWord_def)
  then obtain u op where "p = u @ op" "op \<in> {''|'', ''&&''}" using no
    by (metis append_butlast_last_id insertI1 insertI2 singletonI suffixE)
  moreover from this have "length u < length p" by auto
  ultimately show False using firstOp_le [of "p @ s" u op s] assms(2) by fastforce
qed

lemma closesWord_before:
  assumes "closesWord q" and "firstOp (p @ q) = None \<or> (\<exists>i m. firstOp (p @ q) = Some (i, m) \<and> length p < i)"
  shows "q = [] \<or> isSpaceByte (hd q)"
proof (rule ccontr)
  assume no: "\<not> (q = [] \<or> isSpaceByte (hd q))"
  then have "hd q = CHR ''|'' \<or> prefix ''&&'' q" using assms(1) by (auto simp: closesWord_def)
  then have "q = ''|'' @ tl q \<or> (\<exists>u. q = ''&&'' @ u)" using no by (cases q) (auto simp: prefix_def)
  then obtain u op where "q = op @ u" "op \<in> {''|'', ''&&''}" by blast
  then show False using firstOp_le [of "p @ q" p op u] assms(2) by fastforce
qed

lemma trimmed_word: "w \<in> set (Fields seg) \<Longrightarrow> trimmed seg = [trimSpace seg] \<and> w \<in> set (Fields (trimSpace (trimSpace seg)))"
  by (cases "trimSpace seg = []") (use Fields_trim [of seg] in \<open>simp_all add: trimmed_def Fields_trim Fields_Nil\<close>)

lemma opensWord_rest:
  assumes "opensWord p" and "firstOp (p @ s) = Some (i, m)" and "i + m \<le> length p"
  shows "opensWord (drop (i + m) p)"
proof (cases "suffix ''&&'' p \<and> \<not> suffix ''&&&'' p \<and> drop (i + m) p \<noteq> []")
  case False
  then show ?thesis using assms(1) by (auto simp: opensWord_def last_drop)
next
  case True
  let ?p = "drop (i + m) p" and ?op = "take m (drop i p)"
  have op: "?op \<in> {''|'', ''||'', ''&&''}" using firstOp_is [OF assms(2)] assms(3) by simp
  have p: "p = take i p @ ?op @ ?p" by (metis append_take_drop_id drop_drop add.commute)
  consider c where "?p = [c]" | r a b where "?p = r @ [a, b]"
    using True by (metis append_Cons append_Nil append_assoc rev_exhaust)
  then show ?thesis
  proof cases
    case 1
    then have "suffix ''&&'' ((take i p @ ?op) @ [c])" using True p by (metis append_assoc)
    then have c: "c = CHR ''&''" and "suffix ''&'' (take i p @ ?op)" by (auto simp: suffix_to_prefix)
    moreover have "\<not> suffix ''&'' (take i p @ ''|'')" "\<not> suffix ''&'' (take i p @ ''||'')" by (simp_all add: suffix_to_prefix)
    ultimately have "?op = ''&&''" using op by (metis insertE singletonD)
    then have "p = take i p @ ''&&&''" using p 1 c(1) by simp
    then show ?thesis using True by (metis suffixI)
  next
    case 2
    then have "p = (take i p @ ?op @ r) @ [a, b]" using p by simp
    then have "suffix ''&&'' ((take i p @ ?op @ r) @ [a, b])" using True by metis
    then have "[a, b] = ''&&''" by (auto simp: suffix_to_prefix)
    then have "suffix ''&&'' ?p" using 2 by (metis suffixI)
    moreover have "\<not> suffix ''&&&'' ?p" using True by (metis suffix_drop suffix_order.trans)
    ultimately show ?thesis by (simp add: opensWord_def)
  qed
qed

lemma segment_word:
  assumes "cmd = p @ w @ q" and "w \<noteq> []" and "\<forall>c\<in>set w. \<not> isSpaceByte c \<and> \<not> opChar c" and "opensWord p" and "closesWord q"
  shows "\<exists>seg\<in>set (splitCommandSegments cmd). w \<in> set (Fields (trimSpace seg))"
  using assms
proof (induction cmd arbitrary: p rule: splitCommandSegments.induct)
  case (1 cmd)
  have ne: "cmd \<noteq> []" using "1.prems"(1,2) by auto
  have sp: "\<forall>c\<in>set w. \<not> isSpaceByte c" using "1.prems"(3) by blast
  show ?case
  proof (cases "firstOp cmd")
    case None
    have "w \<in> set (Fields cmd)"
      using Fields_mem [OF "1.prems"(2) sp] opensWord_before [OF "1.prems"(4), of "w @ q"] closesWord_before [OF "1.prems"(5), of "p @ w"] None "1.prems"(1)
      by simp
    then show ?thesis using trimmed_word ne None by (subst splitCommandSegments.simps) auto
  next
    case (Some im)
    obtain i m where im: "im = (i, m)" by (cases im)
    note op = firstOp_is [OF Some [unfolded im]]
    have chars: "\<forall>k<m. opChar (cmd ! (i + k))"
    proof (intro allI impI)
      fix k assume "k < m"
      then have "cmd ! (i + k) = take m (drop i cmd) ! k" using op by simp
      moreover have "take m (drop i cmd) ! k \<in> set (take m (drop i cmd))" using \<open>k < m\<close> op by (metis nth_mem)
      moreover have "\<forall>c\<in>set (take m (drop i cmd)). opChar c" using op by (auto simp: opChar_def)
      ultimately show "opChar (cmd ! (i + k))" by simp
    qed
    have word: "\<not> opChar (cmd ! j)" if "length p \<le> j" "j < length p + length w" for j
      using "1.prems"(1,3) that by (simp add: nth_append)
    have m: "0 < m" using firstOp_length Some im by blast
    have apart: "i + m \<le> length p \<or> length p + length w \<le> i"
    proof (rule ccontr)
      assume "\<not> (i + m \<le> length p \<or> length p + length w \<le> i)"
      then have "length p \<le> max i (length p)" "max i (length p) < length p + length w" "max i (length p) - i < m" "i \<le> max i (length p)"
        using "1.prems"(2) m by auto
      then show False using word [of "max i (length p)"] chars by (metis le_add_diff_inverse)
    qed
    have split: "splitCommandSegments cmd = trimmed (take i cmd) @ splitCommandSegments (drop (i + m) cmd)"
      using ne Some im by (subst splitCommandSegments.simps) simp
    show ?thesis
    proof (cases "i + m \<le> length p")
      case True
      let ?p = "drop (i + m) p"
      have "opensWord ?p" using opensWord_rest "1.prems"(1,4) Some im True by blast
      moreover have "drop (i + m) cmd = ?p @ w @ q" using "1.prems"(1) True by simp
      ultimately have "\<exists>seg\<in>set (splitCommandSegments (drop (i + m) cmd)). w \<in> set (Fields (trimSpace seg))"
        using "1.IH" [OF ne Some im [symmetric]] "1.prems"(2,3,5) by blast
      then show ?thesis using split by auto
    next
      case False
      then have le: "length p + length w \<le> i" using apart by blast
      let ?q = "take (i - (length p + length w)) q"
      have "take i cmd = p @ w @ ?q" using "1.prems"(1) le by simp
      moreover have "?q = [] \<or> isSpaceByte (hd ?q)"
      proof (cases "i = length p + length w")
        case False
        then have "q = [] \<or> isSpaceByte (hd q)" using closesWord_before [OF "1.prems"(5), of "p @ w"] le Some im "1.prems"(1) by simp
        then show ?thesis by (cases q) (auto simp: take_Cons')
      qed simp
      moreover have "p = [] \<or> isSpaceByte (last p)" using opensWord_before [OF "1.prems"(4), of "w @ q"] le Some im "1.prems"(1) by simp
      ultimately have "w \<in> set (Fields (take i cmd))" using Fields_mem [OF "1.prems"(2) sp] by simp
      then show ?thesis using trimmed_word split by auto
    qed
  qed
qed

definition denyLetters :: string where
  "denyLetters = ''abcdefghijklmnopqrstuvwxyz346''"

lemma denyList_letters: "set (concat denyList) \<subseteq> set denyLetters"
  by (simp add: denyList_def denyLetters_def)

lemma denyLetters_plain: "list_all (\<lambda>c. \<not> isSpaceByte c \<and> \<not> opChar c \<and> c \<noteq> CHR '';'' \<and> c \<noteq> CHR ''$'' \<and> c \<noteq> CHR 0x60) denyLetters"
  unfolding denyLetters_def opChar_def by (simp add: isSpaceByte_def)

lemma denyList_plain: "w \<in> set denyList \<Longrightarrow> c \<in> set w \<Longrightarrow> \<not> isSpaceByte c \<and> \<not> opChar c \<and> c \<noteq> CHR '';'' \<and> c \<noteq> CHR ''$'' \<and> c \<noteq> CHR 0x60"
proof -
  assume "w \<in> set denyList" "c \<in> set w"
  then have "c \<in> set denyLetters" using denyList_letters by (metis (no_types) UN_I set_concat subsetD)
  then show ?thesis using denyLetters_plain unfolding list_all_iff by blast
qed

lemma denyList_words: "w \<in> set denyList \<Longrightarrow> w \<noteq> [] \<and> (\<forall>c\<in>set w. \<not> isSpaceByte c \<and> \<not> opChar c)"
proof -
  have "[] \<notin> set denyList" by (simp add: denyList_def)
  then show "w \<in> set denyList \<Longrightarrow> w \<noteq> [] \<and> (\<forall>c\<in>set w. \<not> isSpaceByte c \<and> \<not> opChar c)" using denyList_plain by metis
qed

lemma deniedWord_found:
  assumes "cmd = p @ w @ q" and "w \<in> set denyList" and "opensWord p" and "closesWord q"
  shows "deniedWord cmd \<noteq> None"
proof -
  obtain seg where "seg \<in> set (splitCommandSegments cmd)" "w \<in> set (Fields (trimSpace seg))"
    using segment_word [OF assms(1) _ _ assms(3,4)] denyList_words [OF assms(2)] by blast
  then show ?thesis using assms(2) unfolding deniedWord_def find_None_iff by auto
qed

definition mayRun :: "'s toolReg \<Rightarrow> string \<Rightarrow> bool" where
  "mayRun r cap \<longleftrightarrow> (case rgPolicy r of None \<Rightarrow> False | Some chk \<Rightarrow> chkCapability chk cap)"

lemma policyGate_denies:
  "\<not> mayRun r cap \<Longrightarrow> \<exists>e a. policyGate (rgPolicy r) cap tool s = (Inl e, s\<lparr>audit_calls := a\<rparr>)"
proof -
  assume no: "\<not> mayRun r cap"
  have "\<exists>e x. policyGate (rgPolicy r) cap tool s = (Inl e, s\<lparr>audit_calls := audit_calls s @ [x]\<rparr>)"
  proof (cases "rgPolicy r")
    case None
    show ?thesis unfolding None policyGate_def option.case recordAudit_def bindS_def failS_def prod.case sum.case by (intro exI) (rule refl)
  next
    case (Some chk)
    then have "\<not> chkCapability chk cap" using no by (simp add: mayRun_def)
    then show ?thesis unfolding Some policyGate_def option.case recordAudit_def bindS_def failS_def prod.case sum.case
      by (simp only: not_False_eq_True if_True) (intro exI, rule refl)
  qed
  then show ?thesis by blast
qed

lemma policyGate_grants:
  "mayRun r cap \<Longrightarrow> \<exists>pv. policyGate (rgPolicy r) cap tool s = (Inr pv, s)"
  by (auto simp: mayRun_def policyGate_def retS_def split: option.splits)

lemma publishToolCall_bus: "\<exists>b. publishToolCall r tool s = (Inr (), s\<lparr>bus := b\<rparr>)"
proof (cases "bus s")
  case None
  then show ?thesis by (cases s) (auto simp: publishToolCall_def publishS_def)
qed (auto simp: publishToolCall_def publishS_def)

text \<open>C5. The tool \<open>exec\<close> runs no command it is to refuse: without the capability, with a semicolon, a substitution or a
  backquote, or with a word of the deny list anywhere between white space, ends, pipes and double ampersands, it answers an error and
  touches nothing but the bus and the audit trail; the executor is not called.\<close>

theorem exec_refuses:
  assumes "\<not> mayRun r ''tools.exec'' \<or> disallowedOp (ShCommand input) \<noteq> None \<or>
      (\<exists>p w q. ShCommand input = p @ w @ q \<and> w \<in> set denyList \<and> opensWord p \<and> closesWord q)"
  shows "\<exists>e b a. execTool r input s = (Inl e, s\<lparr>bus := b, audit_calls := a\<rparr>)"
proof -
  obtain b where b: "publishToolCall r ''exec'' s = (Inr (), s\<lparr>bus := b\<rparr>)" using publishToolCall_bus by blast
  show ?thesis
  proof (cases "mayRun r ''tools.exec''")
    case False
    then obtain e a where "policyGate (rgPolicy r) ''tools.exec'' ''exec'' (s\<lparr>bus := b\<rparr>) = (Inl e, s\<lparr>bus := b, audit_calls := a\<rparr>)"
      using policyGate_denies by fastforce
    then show ?thesis using b by (auto simp: execTool_def bindS_def)
  next
    case True
    then obtain pv where g: "policyGate (rgPolicy r) ''tools.exec'' ''exec'' (s\<lparr>bus := b\<rparr>) = (Inr pv, s\<lparr>bus := b\<rparr>)"
      using policyGate_grants by blast
    have "disallowedOp (ShCommand input) \<noteq> None \<or> deniedWord (ShCommand input) \<noteq> None" using assms True deniedWord_found by blast
    then show ?thesis using b g by (auto simp: execTool_def bindS_def recordAudit_def failS_def split: option.split)
  qed
qed

lemma Fields_ampersand:
  assumes "w \<noteq> []" and "\<forall>c\<in>set w. \<not> isSpaceByte c \<and> \<not> opChar c"
  shows "Fields (trimSpace (''true &'' @ w @ '' x'')) = [''true'', ''&'' @ w, ''x'']"
proof -
  have sp: "isSpaceByte CHR '' ''" by (simp add: isSpaceByte_def)
  have "Fields (''true'' @ '' &'' @ w @ '' x'') = ''true'' # Fields (''&'' @ w @ '' x'')"
    using sp by (subst Fields_word) (simp_all add: Fields_space, simp_all add: isSpaceByte_def)
  also have "Fields ((''&'' @ w) @ '' x'') = (''&'' @ w) # Fields ''x''"
    using sp assms(2) by (subst Fields_word) (simp_all add: Fields_space, simp_all add: isSpaceByte_def)
  then have "Fields (''&'' @ w @ '' x'') = (''&'' @ w) # Fields ''x''" by simp
  also have "Fields ''x'' = [''x'']" using Fields_word [of "''x''" "[]"] by (simp add: Fields_Nil isSpaceByte_def)
  finally show ?thesis by (simp add: Fields_trim)
qed

lemma splitFirst_absent: "hd sub \<notin> set s \<Longrightarrow> sub \<noteq> [] \<Longrightarrow> splitFirst sub s = None"
  unfolding splitFirst_None contains_iff by (cases sub) auto

lemma firstOp_ampersand:
  assumes "\<forall>c\<in>set w. \<not> isSpaceByte c \<and> \<not> opChar c" and "w \<noteq> []"
  shows "firstOp (''true &'' @ w @ '' x'') = None"
proof -
  have "CHR ''|'' \<notin> set (''true &'' @ w @ '' x'')" "CHR ''&'' \<notin> set (w @ '' x'')" using assms(1) by (auto simp: opChar_def)
  moreover from this(2) have "\<not> prefix ''&'' (w @ '' x'')" "splitFirst ''&&'' (w @ '' x'') = None"
    using assms(2) by (cases w; auto simp: splitFirst_absent)+
  ultimately show ?thesis
    by (simp add: firstOp_def earlier_def splitFirst_absent)
qed

lemma deniedWord_ampersand:
  assumes "w \<noteq> []" and "\<forall>c\<in>set w. \<not> isSpaceByte c \<and> \<not> opChar c"
  shows "deniedWord (''true &'' @ w @ '' x'') = None"
proof -
  let ?cmd = "''true &'' @ w @ '' x''"
  have segs: "splitCommandSegments ?cmd = trimmed ?cmd"
    by (subst splitCommandSegments.simps) (simp only: firstOp_ampersand [OF assms(2,1)] option.case, simp)
  have "concat (map (\<lambda>seg. Fields (trimSpace seg)) (trimmed ?cmd)) = [''true'', ''&'' @ w, ''x'']"
    using Fields_ampersand [OF assms] Fields_trim [of "trimSpace ?cmd"] Fields_Nil by (auto simp: trimmed_def)
  moreover have "''&'' @ w \<notin> set denyList" using denyList_words [of "''&'' @ w"] by (auto simp: opChar_def)
  moreover have "''true'' \<notin> set denyList" "''x'' \<notin> set denyList" by (simp_all add: denyList_def)
  ultimately show ?thesis by (simp only: deniedWord_def segs) simp
qed

lemma disallowedOp_ampersand:
  assumes "w \<in> set denyList"
  shows "disallowedOp (''true &'' @ w @ '' x'') = None"
proof -
  have "CHR '';'' \<notin> set w" "CHR ''$'' \<notin> set w" "CHR 0x60 \<notin> set w" using denyList_plain [OF assms] by auto
  then have "CHR '';'' \<notin> set (''true &'' @ w @ '' x'')" "CHR ''$'' \<notin> set (''true &'' @ w @ '' x'')" "CHR 0x60 \<notin> set (''true &'' @ w @ '' x'')"
    using assms by auto
  then have "\<not> contains (''true &'' @ w @ '' x'') sub" if "sub \<in> {'';'', ''$('', [CHR 0x60]}" for sub
    using that splitFirst_absent [of sub "''true &'' @ w @ '' x''"] by (metis insertE list.sel(1) list.distinct(1) singletonD splitFirst_None)
  then show ?thesis by (simp add: disallowedOp_def)
qed

text \<open>A single ampersand hides a denied word: \<open>true &\<close> followed by any command of the deny list passes every check, though the shell
  runs the denied command.\<close>

theorem exec_ampersand_passes:
  assumes "mayRun r ''tools.exec''" and "w \<in> set denyList" and "ShCommand input = ''true &'' @ w @ '' x''"
  shows "\<exists>b a. let run = rgExecutor r (ShCommand input) (ShWorkingDir input) (shellTimeout (ShTimeoutSec input)) (s\<lparr>bus := b, audit_calls := a\<rparr>)
     in snd (execTool r input s) = snd (snd run)"
proof -
  have w: "w \<noteq> []" "\<forall>c\<in>set w. \<not> isSpaceByte c \<and> \<not> opChar c" using denyList_words [OF assms(2)] by auto
  note ok = deniedWord_ampersand [OF w] disallowedOp_ampersand [OF assms(2)] Fields_ampersand [OF w]
  obtain b where b: "publishToolCall r ''exec'' s = (Inr (), s\<lparr>bus := b\<rparr>)" using publishToolCall_bus by blast
  obtain pv where g: "policyGate (rgPolicy r) ''tools.exec'' ''exec'' (s\<lparr>bus := b\<rparr>) = (Inr pv, s\<lparr>bus := b\<rparr>)"
    using policyGate_grants [OF assms(1)] by blast
  let ?a = "audit_calls s @ [\<lparr>AuDecision = ''allow'', AuCapability = ''tools.exec'', AuReason = ''capability_granted'', AuVersion = pv, AuSubject = ShCommand input\<rparr>]"
  show ?thesis using ok b g unfolding assms(3) [symmetric]
    by (intro exI [of _ b] exI [of _ ?a]) (simp add: execTool_def bindS_def recordAudit_def failS_def Let_def split: prod.split option.split)
qed

section \<open>Files\<close>

lemma tree_simps [simp]: "fsys (s\<lparr>bus := b\<rparr>) = fsys s" "fsys (s\<lparr>audit_calls := a\<rparr>) = fsys s"
  by simp_all

lemma recordAudit_audit: "\<exists>a. recordAudit d c re v sub s = (Inr (), s\<lparr>audit_calls := a\<rparr>)"
  unfolding recordAudit_def by (rule exI) (rule refl)

text \<open>What the gate of a file tool leaves and answers.\<close>

lemma fileGate_keeps: "\<exists>b a. snd (fileGate r fe cap tool noted path s) = s\<lparr>bus := b, audit_calls := a\<rparr>"
  and fileGate_path: "fst (fileGate r fe cap tool noted path s) = Inr res \<Longrightarrow>
    mayRun r cap \<and> isPathAllowed fe (fsys s) path = Inr res \<and> rgPath r (fsys s) res"
proof -
  obtain b where b: "publishToolCall r tool s = (Inr (), s\<lparr>bus := b\<rparr>)" using publishToolCall_bus by blast
  have "(\<exists>b a. snd (fileGate r fe cap tool noted path s) = s\<lparr>bus := b, audit_calls := a\<rparr>) \<and>
      (\<forall>res. fst (fileGate r fe cap tool noted path s) = Inr res \<longrightarrow>
        mayRun r cap \<and> isPathAllowed fe (fsys s) path = Inr res \<and> rgPath r (fsys s) res)"
  proof (cases "mayRun r cap")
    case False
    then obtain e a where "policyGate (rgPolicy r) cap tool (s\<lparr>bus := b\<rparr>) = (Inl e, s\<lparr>bus := b, audit_calls := a\<rparr>)"
      using policyGate_denies by fastforce
    then show ?thesis using b by (auto simp: fileGate_def bindS_def)
  next
    case True
    then obtain pv where g: "policyGate (rgPolicy r) cap tool (s\<lparr>bus := b\<rparr>) = (Inr pv, s\<lparr>bus := b\<rparr>)" using policyGate_grants by blast
    let ?m = "if noted then recordAudit ''allow'' cap ''capability_granted'' pv path else retS ()"
    have "\<exists>a. ?m (s\<lparr>bus := b\<rparr>) = (Inr (), s\<lparr>bus := b, audit_calls := a\<rparr>)"
    proof (cases noted)
      case True
      then show ?thesis using recordAudit_audit [of "''allow''" cap "''capability_granted''" pv path "s\<lparr>bus := b\<rparr>"] by auto
    next
      case False
      then show ?thesis by (intro exI [of _ "audit_calls s"]) (simp add: retS_def)
    qed
    then obtain a where m: "?m (s\<lparr>bus := b\<rparr>) = (Inr (), s\<lparr>bus := b, audit_calls := a\<rparr>)" by blast
    have gate: "fileGate r fe cap tool noted path s =
        (case isPathAllowed fe (fsys s) path of Inl e \<Rightarrow> (Inl e, s\<lparr>bus := b, audit_calls := a\<rparr>)
         | Inr resolved \<Rightarrow>
            (if \<not> rgPath r (fsys s) resolved
             then bindS (recordAudit ''deny'' cap ''path_denied'' pv resolved) (\<lambda>_. failS (ErrMsg (''policy denied path '' @ quoteGo resolved)))
               (s\<lparr>bus := b, audit_calls := a\<rparr>)
             else (Inr resolved, s\<lparr>bus := b, audit_calls := a\<rparr>)))"
      unfolding fileGate_def bindS_def b prod.case sum.case g m by (simp split: sum.split)
    show ?thesis
    proof (cases "isPathAllowed fe (fsys s) path")
      case (Inl e)
      then show ?thesis using gate by auto
    next
      case (Inr p)
      show ?thesis
      proof (cases "rgPath r (fsys s) p")
        case False
        have "\<exists>a'. snd (fileGate r fe cap tool noted path s) = s\<lparr>bus := b, audit_calls := a'\<rparr>"
          unfolding gate Inr using False by (simp add: bindS_def recordAudit_def failS_def) blast
        moreover have "\<exists>e. fst (fileGate r fe cap tool noted path s) = Inl e"
          unfolding gate Inr using False by (simp add: bindS_def recordAudit_def failS_def)
        ultimately show ?thesis by auto
      qed (use True Inr gate in auto)
    qed
  qed
  then show "\<exists>b a. snd (fileGate r fe cap tool noted path s) = s\<lparr>bus := b, audit_calls := a\<rparr>"
    and "fst (fileGate r fe cap tool noted path s) = Inr res \<Longrightarrow> mayRun r cap \<and> isPathAllowed fe (fsys s) path = Inr res \<and> rgPath r (fsys s) res"
    by blast+
qed

lemma fileGate_fsys: "fsys (snd (fileGate r fe cap tool noted path s)) = fsys s"
proof -
  obtain b a where "snd (fileGate r fe cap tool noted path s) = s\<lparr>bus := b, audit_calls := a\<rparr>" using fileGate_keeps by blast
  then show ?thesis by simp
qed

text \<open>Nothing but the file and its temporary neighbour changes, and the file only when the write succeeds.\<close>

lemma map_of_updates: "map_of (AList.update k v t) j = (if j = k then Some v else map_of t j)"
  "map_of (AList.delete k t) j = (if j = k then None else map_of t j)"
  by (simp_all add: update_conv' delete_conv')

lemma atomicWrite_keeps:
  assumes "realPath fe (fsys s) (res @ ''.tmp'') = res @ ''.tmp''" and "p \<noteq> res @ ''.tmp''"
  shows "map_of (fsys (snd (atomicWrite fe res content s))) p =
    (if p = res \<and> fst (atomicWrite fe res content s) = Inr () then Some (FileNode content) else map_of (fsys s) p)"
  using assms
  by (auto simp: atomicWrite_def Let_def osWriteFile_def osRename_def osRemove_def map_of_updates split: option.splits if_splits)

definition tempPlain :: "fileEnv \<Rightarrow> string \<Rightarrow> bool" where
  "tempPlain fe res \<longleftrightarrow> (\<forall>t. realPath fe t (res @ ''.tmp'') = res @ ''.tmp'')"

lemma mkdirs_keeps: "mkdirs fe ds t = (e, t') \<Longrightarrow> map_of t p = Some n \<Longrightarrow> map_of t' p = Some n"
proof (induction ds arbitrary: t)
  case (Cons d ds)
  have "map_of (AList.update d DirNode t) p = Some n" if "map_of t d = None" using Cons.prems(2) that by (auto simp: map_of_updates)
  with Cons show ?case by (auto split: option.splits fsNode.splits if_splits)
qed simp

lemma fileGate_cases:
  obtains (refused) e s1 where "fileGate r fe cap tool noted path s = (Inl e, s1)" "fsys s1 = fsys s"
  | (passed) res s1 where "fileGate r fe cap tool noted path s = (Inr res, s1)" "fsys s1 = fsys s" "mayRun r cap"
      "isPathAllowed fe (fsys s) path = Inr res" "rgPath r (fsys s) res"
proof -
  let ?g = "fileGate r fe cap tool noted path s"
  have k: "fsys (snd ?g) = fsys s" by (rule fileGate_fsys)
  show thesis
  proof (cases "fst ?g")
    case (Inl e)
    show thesis by (rule refused [of e "snd ?g"]) (simp_all add: k Inl prod_eq_iff)
  next
    case (Inr res)
    show thesis by (rule passed [of res "snd ?g"]) (use fileGate_path [OF Inr] k in \<open>simp_all add: Inr prod_eq_iff\<close>)
  qed
qed


text \<open>A write that fails harms nothing: when \<open>write_file\<close> answers an error, whether for the policy, the path or any failure of the
  system on the way, every file and directory that was there is as it was, the one to be written included, but for the
  temporary file beside it.\<close>

theorem failed_write_keeps:
  assumes "writeFile r fe input s = (Inl e, s')" and "map_of (fsys s) p = Some n"
    and "\<forall>res. isPathAllowed fe (fsys s) (WfPath input) = Inr res \<longrightarrow> tempPlain fe res \<and> p \<noteq> res @ ''.tmp''"
  shows "map_of (fsys s') p = Some n"
proof (cases rule: fileGate_cases [of r fe "''tools.write_file''" "''write_file''" True "WfPath input" s])
  case (refused e s1)
  then show ?thesis using assms(1,2) by (simp add: writeFile_def bindS_def)
next
  case (passed q s1)
  obtain me t where mk: "osMkdirAll fe (Dir q) (fsys s1) = (me, t)" by (cases "osMkdirAll fe (Dir q) (fsys s1)")
  have kept: "map_of t p = Some n" using mkdirs_keeps mk assms(2) passed(2) by (simp add: osMkdirAll_def)
  show ?thesis
  proof (cases me)
    case None
    let ?w = "atomicWrite fe q (WfContent input) (s1\<lparr>fsys := t\<rparr>)"
    have "\<exists>e. ?w = (Inl e, s')" using assms(1) passed(1) mk None by (auto simp: writeFile_def bindS_def retS_def split: prod.splits sum.splits)
    then show ?thesis using atomicWrite_keeps [of fe "s1\<lparr>fsys := t\<rparr>" q p "WfContent input"] assms(3) passed(4) kept by (auto simp: tempPlain_def)
  next
    case (Some e')
    then show ?thesis using assms(1) passed(1) mk kept by (auto simp: writeFile_def bindS_def)
  qed
qed


text \<open>The temporary file is checked by no one: when a link stands at the place of the temporary file, a granted write to an allowed path
  overwrites the file the link leads to, wherever that is and whatever the policy says of it.\<close>

theorem temp_link_escapes:
  assumes "mayRun r ''tools.write_file''" and "isPathAllowed fe (fsys s) (WfPath input) = Inr res" and "rgPath r (fsys s) res"
    and "osMkdirAll fe (Dir res) (fsys s) = (None, fsys s)" and "realPath fe (fsys s) (res @ ''.tmp'') = q" and "map_of (fsys s) q = Some (FileNode c)"
    and "map_of (fsys s) (res @ ''.tmp'') = Some (LinkNode q)" and "map_of (fsys s) res \<noteq> Some DirNode" and "q \<noteq> res"
    and "feErr fe ''write'' (res @ ''.tmp'') = None" and "feErr fe ''rename'' (res @ ''.tmp'') = None"
  shows "\<exists>s'. writeFile r fe input s = (Inr (res, length (WfContent input)), s') \<and> map_of (fsys s') q = Some (FileNode (WfContent input))"
proof (cases rule: fileGate_cases [of r fe "''tools.write_file''" "''write_file''" True "WfPath input" s])
  case (refused e s1)
  obtain b where b: "publishToolCall r ''write_file'' s = (Inr (), s\<lparr>bus := b\<rparr>)" using publishToolCall_bus by blast
  obtain pv where g: "policyGate (rgPolicy r) ''tools.write_file'' ''write_file'' (s\<lparr>bus := b\<rparr>) = (Inr pv, s\<lparr>bus := b\<rparr>)"
    using policyGate_grants [OF assms(1)] by blast
  show ?thesis using refused(1) assms(2,3) by (simp add: fileGate_def bindS_def b g recordAudit_def)
next
  case (passed res' s1)
  have q: "q \<noteq> res @ ''.tmp''" using assms(6,7) by auto
  have "atomicWrite fe res (WfContent input) (s1\<lparr>fsys := fsys s\<rparr>) =
      (Inr (), s1\<lparr>fsys := AList.update res (LinkNode q) (AList.delete (res @ ''.tmp'') (AList.update q (FileNode (WfContent input)) (fsys s)))\<rparr>)"
    using assms(5-11) q by (simp add: atomicWrite_def Let_def osWriteFile_def osRename_def map_of_updates)
  then show ?thesis using passed assms(2,4,9) q by (simp add: writeFile_def bindS_def retS_def map_of_updates)
qed

section \<open>Examples\<close>

definition exHostStore :: "fsTree \<Rightarrow> host_store" where
  "exHostStore t = tool_store.extend exToolStore (host_store.fields t)"

lemma exHostStore_tree [simp]: "fsys (exHostStore t) = t"
  by (simp add: exHostStore_def exToolStore_def host_store.defs tool_store.defs engine_eval)

definition exTools :: "string list \<Rightarrow> host_store toolReg" where
  "exTools caps = \<lparr>rgPolicy = Some (policyChecker (DefaultPolicy\<lparr>AllowCapabilities := caps\<rparr>)), rgPath = (\<lambda>_ p. prefix ''/w/'' p),
     rgExecutor = (\<lambda>cmd dir t s. ((cmd, '''', 0, None), False, s\<lparr>fsys := []\<rparr>)), rgRedact = id, rgCtx = background\<rparr>"

definition exFiles :: "(string \<Rightarrow> string option) \<Rightarrow> fileEnv" where
  "exFiles links = \<lparr>feOs = (\<lambda>_. \<lparr>evalSymlinks = links, getwd = Some ''/w''\<rparr>), feErr = (\<lambda>_ _. None), fePartial = (\<lambda>_ _. None), feSize = (\<lambda>_. 0)\<rparr>"

lemma exTools_runs: "mayRun (exTools [cap]) cap' \<longleftrightarrow> norm cap' \<noteq> '''' \<and> norm cap = norm cap'"
  by (simp add: mayRun_def exTools_def policyChecker_def AllowCapability_def containsNormalized_def Let_def)

lemma exNorm: "norm ''tools.exec'' = ''tools.exec''" "norm ''tools.write_file'' = ''tools.write_file''" "norm ''tools.read_file'' = ''tools.read_file''"
  by (simp_all add: norm_def trimSpace_def isSpaceByte_def toLower_def lowerByte_def)

theorem exec_refuses_witness:
  "\<exists>e b a. execTool (exTools [''tools.exec'']) \<lparr>ShCommand = ''cat x | rm y'', ShWorkingDir = '''', ShTimeoutSec = 0\<rparr> (exHostStore []) =
     (Inl e, (exHostStore [])\<lparr>bus := b, audit_calls := a\<rparr>)"
proof (rule exec_refuses)
  have "''cat x | rm y'' = ''cat x | '' @ ''rm'' @ '' y''" by simp
  moreover have "''rm'' \<in> set denyList" by (simp add: denyList_def)
  moreover have "opensWord ''cat x | ''" "closesWord '' y''" by (simp_all add: opensWord_def closesWord_def isSpaceByte_def)
  ultimately have "\<exists>p w q. ''cat x | rm y'' = p @ w @ q \<and> w \<in> set denyList \<and> opensWord p \<and> closesWord q" by blast
  then show "\<not> mayRun (exTools [''tools.exec'']) ''tools.exec'' \<or> disallowedOp (ShCommand \<lparr>ShCommand = ''cat x | rm y'', ShWorkingDir = '''', ShTimeoutSec = 0\<rparr>) \<noteq> None \<or>
      (\<exists>p w q. ShCommand \<lparr>ShCommand = ''cat x | rm y'', ShWorkingDir = '''', ShTimeoutSec = 0\<rparr> = p @ w @ q \<and> w \<in> set denyList \<and> opensWord p \<and> closesWord q)"
    unfolding ShellInput.simps by blast
qed

abbreviation exHidden :: ShellInput where
  "exHidden \<equiv> \<lparr>ShCommand = ''true &rm x'', ShWorkingDir = '''', ShTimeoutSec = 0\<rparr>"

theorem exec_ampersand_passes_witness:
  "fsys (snd (execTool (exTools [''tools.exec'']) exHidden (exHostStore [(''x'', DirNode)]))) = []"
proof -
  have "mayRun (exTools [''tools.exec'']) ''tools.exec''" by (simp add: exTools_runs exNorm)
  moreover have "''rm'' \<in> set denyList" by (simp add: denyList_def)
  moreover have "ShCommand exHidden = ''true &'' @ ''rm'' @ '' x''" by simp
  ultimately have "\<exists>b a. let run = rgExecutor (exTools [''tools.exec'']) (ShCommand exHidden) (ShWorkingDir exHidden) (shellTimeout (ShTimeoutSec exHidden))
      ((exHostStore [(''x'', DirNode)])\<lparr>bus := b, audit_calls := a\<rparr>)
     in snd (execTool (exTools [''tools.exec'']) exHidden (exHostStore [(''x'', DirNode)])) = snd (snd run)" by (rule exec_ampersand_passes)
  then show ?thesis by (auto simp: exTools_def)
qed

lemma exFiles_plain: "tempPlain (exFiles Some) res"
  by (simp add: tempPlain_def realPath_def exFiles_def)

definition exTree :: fsTree where
  "exTree = [(''/'', DirNode), (''/w'', DirNode), (''/w/a'', FileNode ''xay''), (''/etc'', FileNode ''root'')]"

lemma exPaths: "Dir ''/w/a'' = ''/w''" "Base ''/w/a'' = ''a''" "AbsPath (Some ''/w'') ''/w/a'' = Some ''/w/a''" "JoinPath ''/w'' ''a'' = ''/w/a''"
  "ancestors ''/w'' = [''/'', ''/w'']"
  by code_simp+

lemma exPath: "isPathAllowed (exFiles Some) t ''/w/a'' = Inr ''/w/a''"
  by (simp add: isPathAllowed_def exFiles_def exPaths coalesce_def)

lemma exGate: "mayRun (exTools caps) cap' \<Longrightarrow> \<exists>s1. fileGate (exTools caps) (exFiles Some) cap' tool noted ''/w/a'' s = (Inr ''/w/a'', s1) \<and> fsys s1 = fsys s"
proof (cases rule: fileGate_cases [of "exTools caps" "exFiles Some" cap' tool noted "''/w/a''" s])
  case (refused e s1)
  assume m: "mayRun (exTools caps) cap'"
  obtain b where b: "publishToolCall (exTools caps) tool s = (Inr (), s\<lparr>bus := b\<rparr>)" using publishToolCall_bus by blast
  obtain pv where g: "policyGate (rgPolicy (exTools caps)) cap' tool (s\<lparr>bus := b\<rparr>) = (Inr pv, s\<lparr>bus := b\<rparr>)" using policyGate_grants [OF m] by blast
  show ?thesis using refused(1) by (cases noted) (simp_all add: fileGate_def bindS_def b g recordAudit_def retS_def exPath, simp_all add: exTools_def)
qed (simp_all add: exPath)

lemma exTree_simps: "map_of exTree ''/'' = Some DirNode" "map_of exTree ''/w'' = Some DirNode" "map_of exTree ''/w/a'' = Some (FileNode ''xay'')"
  "map_of exTree ''/w/a.tmp'' = None" "map_of exTree ''/etc'' = Some (FileNode ''root'')"
  by (simp_all add: exTree_def)

lemma exFiles_calm [simp]: "feErr (exFiles l) op p = None" "realPath (exFiles Some) t p = p"
  by (simp_all add: exFiles_def realPath_def)

lemma exMkdir: "osMkdirAll (exFiles Some) ''/w'' exTree = (None, exTree)"
  by (simp add: osMkdirAll_def exPaths exTree_simps)


theorem failed_write_keeps_witness:
  "\<exists>e s'. writeFile (exTools []) (exFiles Some) \<lparr>WfPath = ''/w/a'', WfContent = ''new''\<rparr> (exHostStore exTree) = (Inl e, s') \<and>
     map_of (fsys s') ''/w/a'' = Some (FileNode ''xay'')"
proof -
  let ?in = "\<lparr>WfPath = ''/w/a'', WfContent = ''new''\<rparr>"
  have no: "\<not> mayRun (exTools []) ''tools.write_file''" by (simp add: mayRun_def exTools_def policyChecker_def AllowCapability_def containsNormalized_def Let_def)
  obtain e s' where e: "writeFile (exTools []) (exFiles Some) ?in (exHostStore exTree) = (Inl e, s')"
  proof (cases rule: fileGate_cases [of "exTools []" "exFiles Some" "''tools.write_file''" "''write_file''" True "''/w/a''" "exHostStore exTree"])
    case (refused e s1)
    then show thesis by (intro that [of e s1]) (simp add: writeFile_def bindS_def)
  qed (use no in simp)
  have "map_of (fsys s') ''/w/a'' = Some (FileNode ''xay'')"
    by (rule failed_write_keeps [OF e]) (simp_all add: exTree_simps exPath exFiles_plain)
  with e show ?thesis by blast
qed

lemma exWrites: "mayRun (exTools caps) ''tools.write_file'' \<Longrightarrow>
  \<exists>s'. writeFile (exTools caps) (exFiles Some) \<lparr>WfPath = ''/w/a'', WfContent = ''new''\<rparr> (exHostStore exTree) = (Inr (''/w/a'', 3), s')"
proof -
  assume m: "mayRun (exTools caps) ''tools.write_file''"
  obtain s1 where g: "fileGate (exTools caps) (exFiles Some) ''tools.write_file'' ''write_file'' True ''/w/a'' (exHostStore exTree) = (Inr ''/w/a'', s1)" "fsys s1 = exTree"
    using exGate [OF m, of "''write_file''" True "exHostStore exTree"] by auto
  then show ?thesis
    by (simp add: writeFile_def bindS_def exPaths exMkdir exTree_simps atomicWrite_def Let_def osWriteFile_def osRename_def map_of_updates retS_def)
qed


theorem temp_link_escapes_witness:
  "\<exists>s'. writeFile (exTools [''tools.write_file'']) (exFiles (\<lambda>p. if p = ''/w/a.tmp'' then Some ''/etc'' else Some p)) \<lparr>WfPath = ''/w/a'', WfContent = ''new''\<rparr>
      (exHostStore ((''/w/a.tmp'', LinkNode ''/etc'') # exTree)) = (Inr (''/w/a'', 3), s') \<and> map_of (fsys s') ''/etc'' = Some (FileNode ''new'') \<and>
     \<not> rgPath (exTools [''tools.write_file'']) (fsys s') ''/etc''"
proof -
  let ?fe = "exFiles (\<lambda>p. if p = ''/w/a.tmp'' then Some ''/etc'' else Some p)" and ?t = "(''/w/a.tmp'', LinkNode ''/etc'') # exTree"
  let ?in = "\<lparr>WfPath = ''/w/a'', WfContent = ''new''\<rparr>"
  have rp: "realPath ?fe t p = (if p = ''/w/a.tmp'' then ''/etc'' else p)" for t p by (simp add: realPath_def exFiles_def)
  have mk: "osMkdirAll ?fe ''/w'' ?t = (None, ?t)" by (simp add: osMkdirAll_def exPaths rp exTree_simps)
  have "\<exists>s'. writeFile (exTools [''tools.write_file'']) ?fe ?in (exHostStore ?t) = (Inr (''/w/a'', length (WfContent ?in)), s') \<and>
      map_of (fsys s') ''/etc'' = Some (FileNode (WfContent ?in))"
  proof (rule temp_link_escapes)
    show "mayRun (exTools [''tools.write_file'']) ''tools.write_file''" by (simp add: exTools_runs exNorm)
    show "isPathAllowed ?fe (fsys (exHostStore ?t)) (WfPath ?in) = Inr ''/w/a''"
      by (simp add: isPathAllowed_def exFiles_def exPaths coalesce_def)
    show "rgPath (exTools [''tools.write_file'']) (fsys (exHostStore ?t)) ''/w/a''" by (simp add: exTools_def)
    show "osMkdirAll ?fe (Dir ''/w/a'') (fsys (exHostStore ?t)) = (None, fsys (exHostStore ?t))" by (simp only: exPaths exHostStore_tree mk)
  qed (simp_all add: rp exTree_simps)
  then show ?thesis by (auto simp: exTools_def)
qed

text \<open>Occurrences that overlap count once.\<close>

lemma overlap_counts_once: "countSub ''aa'' ''aaa'' = 1"
  by (simp add: countSub.simps)

end
