(* ===== verification/Mcp_Client.thy ===== *)
theory Mcp_Client
  imports Json
begin

text \<open>
  The client of a tool server (\<open>internal/mcp/client.go\<close>, \<open>internal/mcp/transport.go\<close>): the child process
  with its pipes, the transport that starts the command again when a write fails, and the JSON-RPC client
  whose listener hands each response to the call that waits for it. A call and the listener are separate
  goroutines, so what happens is a list of events (\<open>mcpEvent\<close>); a send holds the lock of the transport
  from its first write to its last attempt, which makes it one event. What the operating system answers (whether
  the command starts, whether a write succeeds, whether a context has ended) is an argument.
  A \<open>json.RawMessage\<close> that was received is the value it parses to, and \<open>None\<close> when it is absent.
\<close>

section \<open>The expansion of environment variables\<close>

definition isShellSpecialVar :: "char \<Rightarrow> bool" where
  "isShellSpecialVar c \<longleftrightarrow> c \<in> set ''*#$@!?-'' \<or> isDigit c"

definition isAlphaNum :: "char \<Rightarrow> bool" where
  "isAlphaNum c \<longleftrightarrow> c = CHR ''_'' \<or> isDigit c \<or> 97 \<le> (of_char (lowerByte c) :: nat) \<and> (of_char (lowerByte c) :: nat) \<le> 122"

text \<open>\<open>getShellName\<close> of package \<open>os\<close>: a name and the number of bytes it takes; an empty name that takes bytes is
  bad syntax.\<close>

definition getShellName :: "string \<Rightarrow> string \<times> nat" where
  "getShellName s = (case s of [] \<Rightarrow> ([], 0)
   | c # cs \<Rightarrow>
      if c = CHR ''{'' then
        (if length s > 2 \<and> isShellSpecialVar (s ! 1) \<and> s ! 2 = CHR ''}'' then ([s ! 1], 3)
         else let name = takeWhile (\<lambda>d. d \<noteq> CHR ''}'') cs in
           if length name = length cs then ([], 1)
           else if name = [] then ([], 2) else (name, length name + 2))
      else if isShellSpecialVar c then ([c], 1)
      else (takeWhile isAlphaNum s, length (takeWhile isAlphaNum s)))"

function ExpandEnv :: "(string \<Rightarrow> string) \<Rightarrow> string \<Rightarrow> string" where
  "ExpandEnv getenv [] = []"
| "ExpandEnv getenv (c # cs) =
    (if c = CHR ''$'' \<and> cs \<noteq> [] then
       (case getShellName cs of (name, w) \<Rightarrow>
          (if name = [] then (if w > 0 then [] else [c]) else getenv name) @ ExpandEnv getenv (drop w cs))
     else c # ExpandEnv getenv cs)"
  by pat_completeness auto
termination by (relation "measure (\<lambda>(g, s). length s)") auto

section \<open>The process\<close>

record StdioTransport =
  TpCommand :: string
  TpArgs :: "string list"
  TpEnviron :: "string list"
  TpInput :: "string list"
  TpOutput :: "string list"
  TpEnded :: bool
  TpRunning :: bool

record processEnv =
  PeEnviron :: "string list"
  PeGetenv :: "string \<Rightarrow> string"

definition childEnviron :: "processEnv \<Rightarrow> (string \<times> string) list \<Rightarrow> string list" where
  "childEnviron pe env = PeEnviron pe @ map (\<lambda>(k, v). k @ ''='' @ ExpandEnv (PeGetenv pe) v) env"

text \<open>The first argument is the error of a pipe or of the start, which the caller of \<open>exec\<close> has wrapped.\<close>

definition NewStdioTransport :: "err option \<Rightarrow> processEnv \<Rightarrow> string \<Rightarrow> string list \<Rightarrow> (string \<times> string) list \<Rightarrow> err + StdioTransport" where
  "NewStdioTransport failure pe command args env = (case failure of
     Some e \<Rightarrow> Inl e
   | None \<Rightarrow> Inr \<lparr>TpCommand = command, TpArgs = args, TpEnviron = childEnviron pe env, TpInput = [], TpOutput = [],
                 TpEnded = False, TpRunning = True\<rparr>)"

definition newline :: string where
  "newline = [char_of (10::nat)]"

definition StdioSend :: "err option \<Rightarrow> string \<Rightarrow> StdioTransport \<Rightarrow> err option \<times> StdioTransport" where
  "StdioSend failure msg t =
    (if \<not> TpRunning t then (Some (ErrMsg ''transport closed''), t)
     else case failure of Some e \<Rightarrow> (Some (ErrWrap ''write stdin'' e), t)
       | None \<Rightarrow> (None, t\<lparr>TpInput := TpInput t @ [msg @ newline]\<rparr>))"

definition StdioClose :: "err option \<Rightarrow> StdioTransport \<Rightarrow> err option \<times> StdioTransport" where
  "StdioClose kill t = (if \<not> TpRunning t then (None, t) else (kill, t\<lparr>TpRunning := False\<rparr>))"

section \<open>The client\<close>

record jsonRPCError =
  ErCode :: int
  ErMessage :: string
  ErData :: "jval option"

record jsonRPCResponse =
  RespVersion :: string
  RespResult :: "jval option"
  RespError :: "jsonRPCError option"
  RespID :: int

text \<open>The listener is before its next \<open>Receive\<close>, inside one on the transport with this number, has returned, or has
  read from the reader that \<open>Close\<close> took away (\<open>Reset(nil)\<close>), which ends the whole program.\<close>

datatype listener = LBetween | LReading nat | LStopped | LPanicked

text \<open>\<open>ClTransports\<close> lists every process the client has started; the last one is the current transport.
  \<open>ClChans\<close> holds, for a call, what its channel buffers.\<close>

record McpClient =
  ClName :: string
  ClCommand :: string
  ClArgs :: "string list"
  ClEnv :: "(string \<times> string) list"
  ClTransports :: "StdioTransport list"
  ClMaxRetry :: nat
  ClNextID :: int
  ClPending :: "int list"
  ClChans :: "int \<Rightarrow> jsonRPCResponse list"
  ClListener :: listener

definition NewReconnectableTransport :: "err option \<Rightarrow> processEnv \<Rightarrow> string \<Rightarrow> string list \<Rightarrow> (string \<times> string) list \<Rightarrow> err + StdioTransport" where
  "NewReconnectableTransport = NewStdioTransport"

definition NewClient :: "string \<Rightarrow> string \<Rightarrow> string list \<Rightarrow> (string \<times> string) list \<Rightarrow> StdioTransport \<Rightarrow> McpClient" where
  "NewClient name command args env t = \<lparr>ClName = name, ClCommand = command, ClArgs = args, ClEnv = env, ClTransports = [t],
     ClMaxRetry = 3, ClNextID = 0, ClPending = [], ClChans = (\<lambda>_. []), ClListener = LBetween\<rparr>"

definition setCurrent :: "StdioTransport \<Rightarrow> McpClient \<Rightarrow> McpClient" where
  "setCurrent t c = c\<lparr>ClTransports := butlast (ClTransports c) @ [t]\<rparr>"

definition addTransport :: "StdioTransport \<Rightarrow> McpClient \<Rightarrow> McpClient" where
  "addTransport t c = c\<lparr>ClTransports := ClTransports c @ [t]\<rparr>"

text \<open>What a send meets: the outcome of each start and of each write (number 0 is the first write), the
  context seen while the attempt waits (attempt, seconds), the process environment.\<close>

record sendEnv =
  SeStart :: "nat \<Rightarrow> err option"
  SeWrite :: "nat \<Rightarrow> err option"
  SeCtx :: "nat \<Rightarrow> nat \<Rightarrow> err option"
  SeProcess :: processEnv

primrec reconnect :: "sendEnv \<Rightarrow> string \<Rightarrow> err \<Rightarrow> nat \<Rightarrow> nat \<Rightarrow> nat \<Rightarrow> McpClient \<Rightarrow> err option \<times> McpClient" where
  "reconnect e msg failed attempt backoff 0 c =
    (Some (ErrWrap (''mcp: reconnect failed after '' @ itoa (int (ClMaxRetry c)) @ '' attempts'') failed), c)"
| "reconnect e msg failed attempt backoff (Suc n) c = (case SeCtx e attempt backoff of
     Some ce \<Rightarrow> (Some ce, c)
   | None \<Rightarrow>
      (let c1 = setCurrent (snd (StdioClose None (last (ClTransports c)))) c
       in case NewStdioTransport (SeStart e attempt) (SeProcess e) (ClCommand c1) (ClArgs c1) (ClEnv c1) of
            Inl _ \<Rightarrow> reconnect e msg failed (Suc attempt) (backoff * 2) n c1
          | Inr t \<Rightarrow> (case StdioSend (SeWrite e (Suc attempt)) msg t of
                (None, t1) \<Rightarrow> (None, addTransport t1 c1)
              | (Some _, t1) \<Rightarrow> reconnect e msg failed (Suc attempt) (backoff * 2) n (addTransport t1 c1))))"

definition Send :: "sendEnv \<Rightarrow> string \<Rightarrow> McpClient \<Rightarrow> err option \<times> McpClient" where
  "Send e msg c = (case StdioSend (SeWrite e 0) msg (last (ClTransports c)) of
     (None, t) \<Rightarrow> (None, setCurrent t c)
   | (Some failed, t) \<Rightarrow> reconnect e msg failed 0 1 (ClMaxRetry c) c)"

definition Close :: "err option \<Rightarrow> McpClient \<Rightarrow> err option \<times> McpClient" where
  "Close kill c = (case StdioClose kill (last (ClTransports c)) of (r, t) \<Rightarrow> (r, setCurrent t c))"

section \<open>Responses\<close>

fun rawField :: "string \<Rightarrow> (string \<times> jval) list \<Rightarrow> jval option \<Rightarrow> jval option" where
  "rawField f [] v = v"
| "rawField f ((k, x) # ms) v = rawField f ms (if sameField f k then Some x else v)"

definition decodeError :: "(string \<times> jval) list \<Rightarrow> jsonRPCError \<Rightarrow> jsonRPCError option" where
  "decodeError ms e = (case (intField ''code'' ms (ErCode e), strField ''message'' ms (ErMessage e)) of
     (Some code, Some msg) \<Rightarrow> Some \<lparr>ErCode = code, ErMessage = msg, ErData = rawField ''data'' ms (ErData e)\<rparr>
   | _ \<Rightarrow> None)"

text \<open>A pointer to a struct: \<open>null\<close> clears it, an object is decoded into what it points to.\<close>

fun errorField :: "(string \<times> jval) list \<Rightarrow> jsonRPCError option \<Rightarrow> jsonRPCError option option" where
  "errorField [] v = Some v"
| "errorField ((k, x) # ms) v =
    (if sameField ''error'' k then (case x of
        JNull \<Rightarrow> errorField ms None
      | JObj es \<Rightarrow> (case decodeError es (case v of Some e \<Rightarrow> e | None \<Rightarrow> \<lparr>ErCode = 0, ErMessage = '''', ErData = None\<rparr>) of
           Some e \<Rightarrow> errorField ms (Some e) | None \<Rightarrow> None)
      | _ \<Rightarrow> None)
     else errorField ms v)"

definition decodeResponse :: "string \<Rightarrow> jsonRPCResponse option" where
  "decodeResponse msg = (case objectOf msg of None \<Rightarrow> None
   | Some ms \<Rightarrow> (case (strField ''jsonrpc'' ms '''', errorField ms None, intField ''id'' ms 0) of
       (Some v, Some e, Some i) \<Rightarrow> Some \<lparr>RespVersion = v, RespResult = rawField ''result'' ms None, RespError = e, RespID = i\<rparr>
     | _ \<Rightarrow> None))"

definition deliver :: "string \<Rightarrow> McpClient \<Rightarrow> McpClient" where
  "deliver msg c = (case decodeResponse msg of None \<Rightarrow> c
   | Some resp \<Rightarrow>
      if RespID resp \<noteq> 0 \<and> RespID resp \<in> set (ClPending c)
      then c\<lparr>ClPending := removeAll (RespID resp) (ClPending c),
             ClChans := (ClChans c)(RespID resp := ClChans c (RespID resp) @ [resp])\<rparr>
      else c)"

text \<open>One step of \<open>listen\<close>: the start of a \<open>Receive\<close>, or its end with a line, with an error, or not yet. A line that
  \<open>Close\<close> cuts in the middle is left out.\<close>

definition listen :: "McpClient \<Rightarrow> McpClient" where
  "listen c = (case ClListener c of
     LBetween \<Rightarrow> c\<lparr>ClListener := (if TpRunning (last (ClTransports c)) then LReading (length (ClTransports c) - 1) else LPanicked)\<rparr>
   | LReading k \<Rightarrow>
      (let t = ClTransports c ! k in
       if \<not> TpRunning t then c\<lparr>ClListener := LStopped\<rparr>
       else case TpOutput t of
          line # rest \<Rightarrow> deliver line (c\<lparr>ClTransports := (ClTransports c)[k := t\<lparr>TpOutput := rest\<rparr>], ClListener := LBetween\<rparr>)
        | [] \<Rightarrow> if TpEnded t then c\<lparr>ClListener := LStopped\<rparr> else c)
   | _ \<Rightarrow> c)"

section \<open>Calls\<close>

definition requestText :: "string \<Rightarrow> string option \<Rightarrow> int \<Rightarrow> string" where
  "requestText meth params i = ''{'' @ jsonString ''jsonrpc'' @ '':'' @ jsonString ''2.0'' @ '','' @ jsonString ''method'' @ '':'' @ jsonString meth @
     (case params of None \<Rightarrow> [] | Some p \<Rightarrow> '','' @ jsonString ''params'' @ '':'' @ p) @ '','' @ jsonString ''id'' @ '':'' @ itoa i @ ''}''"

definition beginCall :: "sendEnv \<Rightarrow> string \<Rightarrow> string option \<Rightarrow> McpClient \<Rightarrow> (err + int) \<times> McpClient" where
  "beginCall e meth params c =
    (let i = ClNextID c + 1 in
     case Send e (requestText meth params i) (c\<lparr>ClNextID := i, ClPending := ClPending c @ [i]\<rparr>) of
       (None, c1) \<Rightarrow> (Inr i, c1)
     | (Some er, c1) \<Rightarrow> (Inl er, c1\<lparr>ClPending := removeAll i (ClPending c1)\<rparr>))"

definition dropCall :: "int \<Rightarrow> McpClient \<Rightarrow> McpClient" where
  "dropCall i c = c\<lparr>ClPending := removeAll i (ClPending c)\<rparr>"

definition takeResponse :: "int \<Rightarrow> McpClient \<Rightarrow> McpClient" where
  "takeResponse i c = c\<lparr>ClChans := (ClChans c)(i := tl (ClChans c i))\<rparr>"

text \<open>What the others do while a call waits: the process writes a line or ends, the listener makes a step, another call
  begins, ends with its response or with its context, the client is closed.\<close>

datatype mcpEvent = EvServer nat string | EvServerEnds nat | EvListen | EvCall sendEnv string "string option" | EvTake int | EvDrop int | EvClose

definition onTransport :: "nat \<Rightarrow> (StdioTransport \<Rightarrow> StdioTransport) \<Rightarrow> McpClient \<Rightarrow> McpClient" where
  "onTransport k f c = (if k < length (ClTransports c) then c\<lparr>ClTransports := (ClTransports c)[k := f (ClTransports c ! k)]\<rparr> else c)"

fun mcpStep :: "mcpEvent \<Rightarrow> McpClient \<Rightarrow> McpClient" where
  "mcpStep (EvServer k line) c = onTransport k (\<lambda>t. if TpEnded t then t else t\<lparr>TpOutput := TpOutput t @ [line]\<rparr>) c"
| "mcpStep (EvServerEnds k) c = onTransport k (\<lambda>t. t\<lparr>TpEnded := True\<rparr>) c"
| "mcpStep EvListen c = listen c"
| "mcpStep (EvCall e meth params) c = snd (beginCall e meth params c)"
| "mcpStep (EvTake i) c = takeResponse i c"
| "mcpStep (EvDrop i) c = dropCall i c"
| "mcpStep EvClose c = snd (Close None c)"

fun mcpRun :: "mcpEvent list \<Rightarrow> McpClient \<Rightarrow> McpClient" where
  "mcpRun [] c = c"
| "mcpRun (ev # evs) c = mcpRun evs (mcpStep ev c)"

text \<open>\<open>CeMeanwhile\<close> is what happens between the send and the choice of the \<open>select\<close>, \<open>CeCtxFirst\<close> its choice when both
  the response and the end of the context are there; a \<open>select\<close> with neither waits until the context ends.\<close>

record callEnv =
  CeSend :: sendEnv
  CeMeanwhile :: "mcpEvent list"
  CeCtxFirst :: bool
  CeCtxErr :: err

definition await :: "callEnv \<Rightarrow> int \<Rightarrow> McpClient \<Rightarrow> (err + jval option) \<times> McpClient" where
  "await e i c = (case (ClChans c i, CeCtxFirst e) of
     (resp # _, False) \<Rightarrow>
        ((case RespError resp of Some er \<Rightarrow> Inl (ErrMsg (''rpc error '' @ itoa (ErCode er) @ '': '' @ ErMessage er)) | None \<Rightarrow> Inr (RespResult resp)),
         takeResponse i c)
   | _ \<Rightarrow> (Inl (CeCtxErr e), dropCall i c))"

text \<open>The parameters are the text of \<open>json.Marshal\<close>, its error, or absent.\<close>

definition call :: "callEnv \<Rightarrow> string \<Rightarrow> (err + string) option \<Rightarrow> McpClient \<Rightarrow> (err + jval option) \<times> McpClient" where
  "call e meth params c = (case params of
     Some (Inl er) \<Rightarrow> (Inl (ErrWrap ''marshal params'' er), c\<lparr>ClNextID := ClNextID c + 1\<rparr>)
   | _ \<Rightarrow> (case beginCall (CeSend e) meth (case params of Some (Inr p) \<Rightarrow> Some p | _ \<Rightarrow> None) c of
        (Inl er, c1) \<Rightarrow> (Inl er, c1)
      | (Inr i, c1) \<Rightarrow> await e i (mcpRun (CeMeanwhile e) c1)))"

definition jsonPair :: "string \<Rightarrow> string \<Rightarrow> string" where
  "jsonPair k v = jsonString k @ '':'' @ v"

definition initializeParams :: string where
  "initializeParams = ''{'' @ jsonPair ''capabilities'' (''{'' @ jsonPair ''roots'' (''{'' @ jsonPair ''listChanged'' ''true'' @ ''}'') @ ''}'') @ '','' @
     jsonPair ''clientInfo'' (''{'' @ jsonPair ''name'' (jsonString ''goclaw'') @ '','' @ jsonPair ''version'' (jsonString ''0.1.0'') @ ''}'') @ '','' @
     jsonPair ''protocolVersion'' (jsonString ''2024-11-05'') @ ''}''"

definition initializedText :: string where
  "initializedText = ''{'' @ jsonPair ''jsonrpc'' (jsonString ''2.0'') @ '','' @ jsonPair ''method'' (jsonString ''notifications/initialized'') @ ''}''"

definition Initialize :: "callEnv \<Rightarrow> sendEnv \<Rightarrow> McpClient \<Rightarrow> err option \<times> McpClient" where
  "Initialize e e2 c = (case call e ''initialize'' (Some (Inr initializeParams)) c of
     (Inl er, c1) \<Rightarrow> (Some (ErrWrap ''initialize failed'' er), c1)
   | (Inr _, c1) \<Rightarrow> (case Send e2 initializedText c1 of
        (Some er, c2) \<Rightarrow> (Some (ErrWrap ''send initialized notification'' er), c2)
      | (None, c2) \<Rightarrow> (None, c2)))"

record MCPTool =
  MtName :: string
  MtDescription :: string
  MtInputSchema :: "jval option"

fun decodeTools :: "jval list \<Rightarrow> MCPTool list option" where
  "decodeTools [] = Some []"
| "decodeTools (JNull # vs) = map_option (Cons \<lparr>MtName = '''', MtDescription = '''', MtInputSchema = None\<rparr>) (decodeTools vs)"
| "decodeTools (JObj ms # vs) = (case (strField ''name'' ms '''', strField ''description'' ms '''') of
     (Some n, Some d) \<Rightarrow> map_option (Cons \<lparr>MtName = n, MtDescription = d, MtInputSchema = rawField ''inputSchema'' ms None\<rparr>) (decodeTools vs)
   | _ \<Rightarrow> None)"
| "decodeTools (_ # vs) = None"

text \<open>The field \<open>tools\<close>: the last value given counts.\<close>

fun toolsField :: "(string \<times> jval) list \<Rightarrow> MCPTool list \<Rightarrow> MCPTool list option" where
  "toolsField [] v = Some v"
| "toolsField ((k, x) # ms) v =
    (if sameField ''tools'' k then (case x of
        JNull \<Rightarrow> toolsField ms []
      | JArr vs \<Rightarrow> (case decodeTools vs of Some ts \<Rightarrow> toolsField ms ts | None \<Rightarrow> None)
      | _ \<Rightarrow> None)
     else toolsField ms v)"

definition unmarshalTools :: "jval option \<Rightarrow> MCPTool list option" where
  "unmarshalTools res = (case res of Some (JObj ms) \<Rightarrow> toolsField ms [] | Some JNull \<Rightarrow> Some [] | _ \<Rightarrow> None)"

text \<open>The second argument is the error that \<open>json.Unmarshal\<close> reports when it does.\<close>

definition ListTools :: "callEnv \<Rightarrow> err \<Rightarrow> McpClient \<Rightarrow> (err + MCPTool list) \<times> McpClient" where
  "ListTools e bad c = (case call e ''tools/list'' None c of
     (Inl er, c1) \<Rightarrow> (Inl (ErrWrap ''tools/list failed'' er), c1)
   | (Inr res, c1) \<Rightarrow> (case unmarshalTools res of Some ts \<Rightarrow> (Inr ts, c1) | None \<Rightarrow> (Inl (ErrWrap ''unmarshal tools'' bad), c1)))"

text \<open>The arguments are a text in compact form, empty for a nil message.\<close>

definition CallTool :: "callEnv \<Rightarrow> err \<Rightarrow> string \<Rightarrow> string \<Rightarrow> McpClient \<Rightarrow> (err + jval option) \<times> McpClient" where
  "CallTool e bad name args c =
    (let params = (if args \<noteq> [] \<and> parseJson args = None then Inl bad
                   else Inr (''{'' @ jsonPair ''arguments'' (if args = [] then ''null'' else args) @ '','' @ jsonPair ''name'' (jsonString name) @ ''}''))
     in case call e ''tools/call'' (Some params) c of
          (Inl er, c1) \<Rightarrow> (Inl (ErrWrap ''tools/call failed'' er), c1)
        | (Inr res, c1) \<Rightarrow> (Inr res, c1))"

section \<open>Every response goes to its own call\<close>

definition heard :: "McpClient \<Rightarrow> string set" where
  "heard c = (\<Union>t\<in>set (ClTransports c). set (TpOutput t))"

text \<open>The lines in \<open>L\<close> are all a process can have written.\<close>

definition client_inv :: "string set \<Rightarrow> McpClient \<Rightarrow> bool" where
  "client_inv L c \<longleftrightarrow> ClTransports c \<noteq> [] \<and> heard c \<subseteq> L \<and> 0 \<le> ClNextID c \<and>
     (\<forall>k. ClListener c = LReading k \<longrightarrow> k < length (ClTransports c)) \<and>
     (\<forall>i\<in>set (ClPending c). i \<le> ClNextID c \<and> ClChans c i = []) \<and>
     (\<forall>i. length (ClChans c i) \<le> 1 \<and> (ClNextID c < i \<longrightarrow> ClChans c i = []) \<and>
        (\<forall>r\<in>set (ClChans c i). RespID r = i \<and> (\<exists>l\<in>L. decodeResponse l = Some r)))"

lemma client_inv_New: "client_inv L (NewClient name command args env (t\<lparr>TpOutput := []\<rparr>))"
  by (simp add: client_inv_def NewClient_def heard_def)

lemma heard_transports [simp]: "heard (c\<lparr>ClTransports := ts\<rparr>) = (\<Union>t\<in>set ts. set (TpOutput t))"
  by (simp add: heard_def)

lemma heard_parts:
  "ts \<noteq> [] \<Longrightarrow> (\<Union>t\<in>set ts. set (TpOutput t)) = (\<Union>t\<in>set (butlast ts). set (TpOutput t)) \<union> set (TpOutput (last ts))"
  by (metis (no_types, lifting) UN_Un UN_insert append_butlast_last_id list.simps(15) list.set(1) set_append UN_empty sup_bot.right_neutral)

text \<open>A send and a close change nothing but the transports, and add no output.\<close>

definition resends :: "McpClient \<Rightarrow> McpClient \<Rightarrow> bool" where
  "resends c d \<longleftrightarrow> (\<exists>ts. d = c\<lparr>ClTransports := ts\<rparr> \<and> ts \<noteq> [] \<and> heard d \<subseteq> heard c \<and> length (ClTransports c) \<le> length ts)"

lemma resends_refl: "ClTransports c \<noteq> [] \<Longrightarrow> resends c c"
  unfolding resends_def by (rule exI [of _ "ClTransports c"]) simp

lemma resends_trans: "resends c d \<Longrightarrow> resends d e \<Longrightarrow> resends c e"
  unfolding resends_def by fastforce

lemma resends_current: "ClTransports c \<noteq> [] \<Longrightarrow> set (TpOutput t) \<subseteq> set (TpOutput (last (ClTransports c))) \<Longrightarrow> resends c (setCurrent t c)"
  unfolding resends_def setCurrent_def by (auto simp: heard_parts [of "ClTransports c"] heard_def)

lemma resends_add: "TpOutput t = [] \<Longrightarrow> resends c (addTransport t c)"
  unfolding resends_def addTransport_def by (auto simp: heard_def)

lemma StdioSend_output: "TpOutput (snd (StdioSend f msg t)) = TpOutput t"
  by (simp add: StdioSend_def split: option.split)

lemma StdioClose_output: "TpOutput (snd (StdioClose f t)) = TpOutput t"
  by (simp add: StdioClose_def)

lemma resends_nonempty: "resends c d \<Longrightarrow> ClTransports d \<noteq> []"
  by (auto simp: resends_def)

lemma reconnect_resends: "ClTransports c \<noteq> [] \<Longrightarrow> resends c (snd (reconnect e msg failed attempt backoff n c))"
proof (induction n arbitrary: attempt backoff c)
  case 0
  then show ?case by (simp add: resends_refl)
next
  case (Suc n)
  show ?case
  proof (cases "SeCtx e attempt backoff")
    case (Some ce)
    then show ?thesis using Suc.prems by (simp add: resends_refl)
  next
    case None
    define c1 where "c1 = setCurrent (snd (StdioClose None (last (ClTransports c)))) c"
    have r1: "resends c c1" unfolding c1_def by (rule resends_current [OF Suc.prems]) (simp add: StdioClose_output)
    note n1 = resends_nonempty [OF r1]
    show ?thesis
    proof (cases "NewStdioTransport (SeStart e attempt) (SeProcess e) (ClCommand c1) (ClArgs c1) (ClEnv c1)")
      case (Inl x)
      then show ?thesis using None resends_trans [OF r1 Suc.IH [OF n1]] by (simp add: c1_def [symmetric] Let_def)
    next
      case (Inr t)
      then have o: "TpOutput t = []" by (auto simp: NewStdioTransport_def split: option.splits)
      obtain r t1 where s: "StdioSend (SeWrite e (Suc attempt)) msg t = (r, t1)" by (cases "StdioSend (SeWrite e (Suc attempt)) msg t")
      have "TpOutput t1 = []" using o s StdioSend_output [of "SeWrite e (Suc attempt)" msg t] by simp
      then have r2: "resends c (addTransport t1 c1)" using resends_trans [OF r1 resends_add] by blast
      show ?thesis using None Inr s r2 resends_trans [OF r2 Suc.IH [OF resends_nonempty [OF r2]]]
        by (simp add: c1_def [symmetric] Let_def split: option.split)
    qed
  qed
qed

lemma Send_resends: "ClTransports c \<noteq> [] \<Longrightarrow> resends c (snd (Send e msg c))"
proof -
  assume n: "ClTransports c \<noteq> []"
  obtain r t where s: "StdioSend (SeWrite e 0) msg (last (ClTransports c)) = (r, t)" by (cases "StdioSend (SeWrite e 0) msg (last (ClTransports c))")
  have "set (TpOutput t) \<subseteq> set (TpOutput (last (ClTransports c)))" using s StdioSend_output by (metis snd_conv order_refl)
  then show ?thesis using s n reconnect_resends [OF n] resends_current [OF n] by (auto simp: Send_def split: option.split)
qed

lemma Close_resends: "ClTransports c \<noteq> [] \<Longrightarrow> resends c (snd (Close k c))"
  by (auto simp: Close_def StdioClose_output split: prod.split intro!: resends_current dest: arg_cong [where f = snd])
     (metis StdioClose_output snd_conv)

lemma client_inv_resends: "client_inv L c \<Longrightarrow> resends c d \<Longrightarrow> client_inv L d"
  by (auto simp: client_inv_def resends_def)
fun written :: "mcpEvent \<Rightarrow> string set" where
  "written (EvServer k line) = {line}"
| "written _ = {}"

lemma heard_onTransport: "(\<And>t. set (TpOutput (f t)) \<subseteq> set (TpOutput t) \<union> N) \<Longrightarrow> heard (onTransport k f c) \<subseteq> heard c \<union> N"
proof
  fix l assume f: "\<And>t. set (TpOutput (f t)) \<subseteq> set (TpOutput t) \<union> N" and l: "l \<in> heard (onTransport k f c)"
  show "l \<in> heard c \<union> N"
  proof (cases "k < length (ClTransports c)")
    case True
    then obtain t where t: "t \<in> set ((ClTransports c)[k := f (ClTransports c ! k)])" "l \<in> set (TpOutput t)"
      using l by (auto simp: onTransport_def)
    then have "t = f (ClTransports c ! k) \<or> t \<in> set (ClTransports c)" using set_update_subset_insert by fastforce
    then show ?thesis using t(2) f [of "ClTransports c ! k"] nth_mem [OF True] by (auto simp: heard_def)
  qed (use l in \<open>simp add: onTransport_def\<close>)
qed

lemma set_tl: "x \<in> set (tl xs) \<Longrightarrow> x \<in> set xs"
  by (cases xs) simp_all

lemma client_inv_onTransport:
  assumes "client_inv L c" "\<And>t. set (TpOutput (f t)) \<subseteq> set (TpOutput t) \<union> N" "N \<subseteq> L"
  shows "client_inv L (onTransport k f c)"
proof -
  have "heard (onTransport k f c) \<subseteq> L" using heard_onTransport [of f N k c, OF assms(2)] assms(1,3) by (auto simp: client_inv_def)
  then show ?thesis using assms(1) by (auto simp: client_inv_def onTransport_def)
qed

lemma client_inv_deliver: "client_inv L c \<Longrightarrow> msg \<in> L \<Longrightarrow> client_inv L (deliver msg c)"
proof (cases "decodeResponse msg")
  case (Some resp)
  assume inv: "client_inv L c" and l: "msg \<in> L"
  show ?thesis
  proof (cases "RespID resp \<noteq> 0 \<and> RespID resp \<in> set (ClPending c)")
    case True
    with inv have e: "ClChans c (RespID resp) = []" "RespID resp \<le> ClNextID c" by (auto simp: client_inv_def)
    have "\<exists>l\<in>L. decodeResponse l = Some resp" using Some l by blast
    with inv e show ?thesis using True Some by (simp add: client_inv_def deliver_def heard_def not_less)
  next
    case False
    then have "deliver msg c = c" using Some by (auto simp: deliver_def)
    then show ?thesis using inv by simp
  qed
qed (simp add: deliver_def)

lemma client_inv_listener: "client_inv L c \<Longrightarrow> (\<And>k. l = LReading k \<Longrightarrow> k < length (ClTransports c)) \<Longrightarrow> client_inv L (c\<lparr>ClListener := l\<rparr>)"
  by (simp add: client_inv_def heard_def)

lemma client_inv_listen: "client_inv L c \<Longrightarrow> client_inv L (listen c)"
proof (cases "ClListener c")
  case (LReading k)
  assume inv: "client_inv L c"
  have k: "k < length (ClTransports c)" using inv LReading by (simp add: client_inv_def)
  show ?thesis
  proof (cases "TpOutput (ClTransports c ! k)")
    case Nil
    have "listen c = c \<or> listen c = c\<lparr>ClListener := LStopped\<rparr>" using LReading Nil by (simp add: listen_def Let_def)
    then show ?thesis using client_inv_listener [OF inv, of LStopped] inv by auto
  next
    case (Cons line rest)
    let ?d = "onTransport k (\<lambda>t. t\<lparr>TpOutput := tl (TpOutput t)\<rparr>) c"
    have l: "line \<in> heard c" using Cons nth_mem [OF k] unfolding heard_def by (metis UN_I list.set_intros(1))
    have l: "line \<in> L" using l inv unfolding client_inv_def by blast
    have d: "client_inv L ?d" by (rule client_inv_onTransport [OF inv, where N = "{}"]) (auto dest: set_tl)
    have "listen c = c\<lparr>ClListener := LStopped\<rparr> \<or> listen c = deliver line (?d\<lparr>ClListener := LBetween\<rparr>)"
      using LReading Cons k by (simp add: listen_def onTransport_def Let_def)
    then show ?thesis using client_inv_listener [OF inv, of LStopped] client_inv_deliver [OF client_inv_listener [OF d, of LBetween] l] by auto
  qed
next
  case LBetween
  assume inv: "client_inv L c"
  then have "0 < length (ClTransports c)" by (simp add: client_inv_def)
  then have "client_inv L (c\<lparr>ClListener := LReading (length (ClTransports c) - 1)\<rparr>)"
    by (intro client_inv_listener [OF inv]) fastforce
  moreover have "client_inv L (c\<lparr>ClListener := LPanicked\<rparr>)" by (rule client_inv_listener [OF inv]) simp
  ultimately have "client_inv L (c\<lparr>ClListener := (if TpRunning (last (ClTransports c)) then LReading (length (ClTransports c) - 1) else LPanicked)\<rparr>)"
    by simp
  then show ?thesis using LBetween by (simp add: listen_def)
qed (simp_all add: listen_def)

lemma beginCall_inv:
  assumes "client_inv L c"
  shows "client_inv L (snd (beginCall e meth params c))"
proof -
  let ?i = "ClNextID c + 1"
  let ?c = "c\<lparr>ClNextID := ?i, ClPending := ClPending c @ [?i]\<rparr>"
  have i: "client_inv L ?c" using assms by (auto simp: client_inv_def heard_def)
  then have n: "ClTransports ?c \<noteq> []" by (simp add: client_inv_def)
  obtain r d where s: "Send e (requestText meth params ?i) ?c = (r, d)" by (cases "Send e (requestText meth params ?i) ?c")
  have "client_inv L d" using client_inv_resends [OF i Send_resends [OF n, of e "requestText meth params ?i"]] s by simp
  then show ?thesis using s by (auto simp: beginCall_def Let_def client_inv_def heard_def split: option.split)
qed

lemma beginCall_id: "ClTransports c \<noteq> [] \<Longrightarrow> beginCall e meth params c = (Inr i, d) \<Longrightarrow> i = ClNextID c + 1"
  by (auto simp: beginCall_def Let_def split: option.splits prod.splits)

lemma mcpStep_inv: "client_inv L c \<Longrightarrow> written ev \<subseteq> L \<Longrightarrow> client_inv L (mcpStep ev c)"
proof (cases ev)
  case (EvServer k line)
  assume "client_inv L c" "written ev \<subseteq> L"
  then show ?thesis unfolding EvServer mcpStep.simps by (intro client_inv_onTransport [where N = "{line}"]) auto
next
  case (EvServerEnds k)
  assume "client_inv L c"
  then show ?thesis unfolding EvServerEnds mcpStep.simps by (intro client_inv_onTransport [where N = "{}"]) auto
next
  case EvClose
  assume i: "client_inv L c"
  then show ?thesis unfolding EvClose mcpStep.simps by (intro client_inv_resends [OF i Close_resends]) (simp add: client_inv_def)
next
  case (EvTake i)
  assume "client_inv L c"
  then show ?thesis unfolding EvTake mcpStep.simps takeResponse_def client_inv_def heard_def
    by (auto dest: set_tl)
qed (auto simp: client_inv_listen beginCall_inv, auto simp: dropCall_def client_inv_def heard_def)

lemma mcpRun_inv: "client_inv L c \<Longrightarrow> (\<Union>ev\<in>set evs. written ev) \<subseteq> L \<Longrightarrow> client_inv L (mcpRun evs c)"
  by (induction evs arbitrary: c) (simp_all add: mcpStep_inv)

text \<open>C38. A call that returns a result returns the result of a response with the number of that very call and without an error,
  and a process has written that response: whatever other calls, late answers, ends of processes and restarts of the
  command happen while it waits, no call takes the answer of another. The channel of a call never holds two
  responses, so the listener, which sends to it under the lock of the table, never blocks there.\<close>

theorem reply_of_own_call:
  assumes "client_inv L c" "(\<Union>ev\<in>set (CeMeanwhile e). written ev) \<subseteq> L" "call e meth params c = (Inr v, d)"
  shows "(\<exists>line\<in>L. \<exists>resp. decodeResponse line = Some resp \<and> RespID resp = ClNextID c + 1 \<and> RespError resp = None \<and> v = RespResult resp) \<and>
    client_inv L d \<and> (\<forall>i. length (ClChans d i) \<le> 1)"
proof -
  obtain p i c1 where b: "beginCall (CeSend e) meth p c = (Inr i, c1)" and a: "await e i (mcpRun (CeMeanwhile e) c1) = (Inr v, d)"
    using assms(3) by (auto simp: call_def split: option.splits sum.splits prod.splits)
  have id: "i = ClNextID c + 1" using beginCall_id [OF _ b] assms(1) by (simp add: client_inv_def)
  define c2 where "c2 = mcpRun (CeMeanwhile e) c1"
  have i2: "client_inv L c2" unfolding c2_def using beginCall_inv [OF assms(1), of "CeSend e" meth p] b by (intro mcpRun_inv [OF _ assms(2)]) simp
  obtain resp rest where ch: "ClChans c2 i = resp # rest" and r: "RespError resp = None" "v = RespResult resp" "d = takeResponse i c2"
    using a by (auto simp: await_def c2_def split: list.splits bool.splits option.splits)
  have "RespID resp = i \<and> (\<exists>l\<in>L. decodeResponse l = Some resp)" using i2 ch unfolding client_inv_def by (metis list.set_intros(1))
  then have "\<exists>line\<in>L. \<exists>resp. decodeResponse line = Some resp \<and> RespID resp = ClNextID c + 1 \<and> RespError resp = None \<and> v = RespResult resp"
    using id r by auto
  moreover have "client_inv L d" using mcpStep_inv [OF i2, of "EvTake i"] r by simp
  then have "client_inv L d \<and> (\<forall>i. length (ClChans d i) \<le> 1)" by (simp add: client_inv_def)
  ultimately show ?thesis by blast
qed

section \<open>A restarted process is not heard\<close>

lemma resends_stopped: "resends c d \<Longrightarrow> ClListener d = ClListener c \<and> ClChans d = ClChans c \<and> ClNextID d = ClNextID c"
  by (auto simp: resends_def)

lemma beginCall_stopped:
  assumes "client_inv L c"
  shows "ClListener (snd (beginCall e meth params c)) = ClListener c \<and> ClChans (snd (beginCall e meth params c)) = ClChans c"
proof -
  let ?i = "ClNextID c + 1"
  let ?c = "c\<lparr>ClNextID := ?i, ClPending := ClPending c @ [?i]\<rparr>"
  have "ClTransports ?c \<noteq> []" using assms by (simp add: client_inv_def)
  from resends_stopped [OF Send_resends [OF this]] show ?thesis
    by (auto simp: beginCall_def Let_def split: prod.split option.split dest!: arg_cong [where f = snd])
qed

lemma mcpStep_stopped:
  assumes "client_inv L c" "ClListener c = LStopped"
  shows "ClListener (mcpStep ev c) = LStopped \<and> (ClChans c i = [] \<longrightarrow> ClChans (mcpStep ev c) i = [])"
proof (cases ev)
  case (EvCall e meth params)
  then show ?thesis using beginCall_stopped [OF assms(1)] assms(2) by simp
next
  case EvClose
  then show ?thesis using resends_stopped [OF Close_resends] assms by (simp add: client_inv_def)
qed (use assms in \<open>simp_all add: onTransport_def listen_def takeResponse_def dropCall_def\<close>)

lemma mcpRun_stopped:
  "client_inv L c \<Longrightarrow> (\<Union>ev\<in>set evs. written ev) \<subseteq> L \<Longrightarrow> ClListener c = LStopped \<Longrightarrow>
     ClListener (mcpRun evs c) = LStopped \<and> (ClChans c i = [] \<longrightarrow> ClChans (mcpRun evs c) i = [])"
proof (induction evs arbitrary: c)
  case (Cons ev evs)
  then have "client_inv L (mcpStep ev c)" by (intro mcpStep_inv) auto
  with Cons mcpStep_stopped [OF Cons.prems(1,3), of ev i] show ?case by auto
qed simp

text \<open>The listener returns at the first error of a receive, and nothing starts it again, although a send starts the
  command anew when a write fails. So once the process has ended and the listener with it, every call fails: when
  the restart succeeds and the new process answers, the answer is not read and the call waits for the end of its
  context. The listener stays stopped after the call.\<close>

theorem restarted_process_unheard:
  assumes "client_inv L c" "(\<Union>ev\<in>set (CeMeanwhile e). written ev) \<subseteq> L" "ClListener c = LStopped"
  shows "isl (fst (call e meth params c)) \<and> ClListener (snd (call e meth params c)) = LStopped"
proof -
  let ?p = "case params of Some (Inr p) \<Rightarrow> Some p | _ \<Rightarrow> None"
  obtain r c1 where b: "beginCall (CeSend e) meth ?p c = (r, c1)" by (cases "beginCall (CeSend e) meth ?p c")
  have i1: "client_inv L c1" and s1: "ClListener c1 = LStopped" "ClChans c1 = ClChans c"
    using beginCall_inv [OF assms(1), of "CeSend e" meth ?p] beginCall_stopped [OF assms(1), of "CeSend e" meth ?p] assms(3) b by auto
  have fresh: "ClChans c (ClNextID c + 1) = []" using assms(1) by (simp add: client_inv_def)
  have id: "i = ClNextID c + 1" if "r = Inr i" for i using beginCall_id [of c "CeSend e" meth ?p i c1] b assms(1) that by (simp add: client_inv_def)
  have run: "ClListener (mcpRun (CeMeanwhile e) c1) = LStopped \<and> ClChans (mcpRun (CeMeanwhile e) c1) (ClNextID c + 1) = []"
    using mcpRun_stopped [OF i1 assms(2) s1(1), of "ClNextID c + 1"] fresh s1 by simp
  show ?thesis using b run id s1 assms(3)
    by (cases r) (auto simp: call_def await_def dropCall_def split: option.split sum.split)
qed

section \<open>Examples\<close>

definition exProcess :: StdioTransport where
  "exProcess = \<lparr>TpCommand = ''srv'', TpArgs = [], TpEnviron = [], TpInput = [], TpOutput = [], TpEnded = False, TpRunning = True\<rparr>"

definition exClient :: McpClient where
  "exClient = NewClient ''srv'' ''srv'' [] [] exProcess"

definition exSend :: "err option \<Rightarrow> sendEnv" where
  "exSend failure = \<lparr>SeStart = (\<lambda>_. None), SeWrite = (\<lambda>k. if k = 0 then failure else None), SeCtx = (\<lambda>_ _. None),
     SeProcess = \<lparr>PeEnviron = [], PeGetenv = (\<lambda>_. [])\<rparr>\<rparr>"

text \<open>A process that answers a number.\<close>

definition exReply :: "int \<Rightarrow> string" where
  "exReply i = ''{'' @ jsonPair ''id'' (itoa i) @ '','' @ jsonPair ''result'' ''true'' @ ''}'' @ newline"

definition exCall :: "err option \<Rightarrow> mcpEvent list \<Rightarrow> callEnv" where
  "exCall failure evs = \<lparr>CeSend = exSend failure, CeMeanwhile = evs, CeCtxFirst = False, CeCtxErr = ErrMsg ''context deadline exceeded''\<rparr>"

lemma exReply_text: "decodeResponse (exReply 1) = Some \<lparr>RespVersion = [], RespResult = Some (JBool True), RespError = None, RespID = 1\<rparr>"
  "decodeResponse (exReply 2) = Some \<lparr>RespVersion = [], RespResult = Some (JBool True), RespError = None, RespID = 2\<rparr>"
  by code_simp+

lemma exClient_inv: "client_inv L exClient"
proof -
  have "exProcess = exProcess\<lparr>TpOutput := []\<rparr>" by (simp add: exProcess_def)
  then show ?thesis unfolding exClient_def using client_inv_New by metis
qed

definition exEvents :: "mcpEvent list" where
  "exEvents = [EvServer 0 (exReply 2), EvServer 0 (exReply 1), EvListen, EvListen, EvListen, EvListen]"

lemmas ex_client_simps = call_def beginCall_def Send_def StdioSend_def StdioClose_def NewStdioTransport_def Let_def exCall_def exSend_def
  exClient_def NewClient_def exProcess_def setCurrent_def addTransport_def listen_def onTransport_def deliver_def exReply_text await_def numeral_eq_Suc

definition exAt :: "string list \<Rightarrow> int list \<Rightarrow> jsonRPCResponse list \<Rightarrow> listener \<Rightarrow> McpClient" where
  "exAt outs pending chan l = exClient\<lparr>ClTransports := [exProcess\<lparr>TpInput := [requestText ''ping'' None 1 @ newline], TpOutput := outs\<rparr>],
     ClNextID := 1, ClPending := pending, ClChans := (\<lambda>_. [])(1 := chan), ClListener := l\<rparr>"

lemma exAt_begin: "beginCall (exSend None) ''ping'' None exClient = (Inr 1, exAt [] [1] [] LBetween)"
  by (simp add: beginCall_def Send_def StdioSend_def exSend_def exClient_def NewClient_def exProcess_def setCurrent_def exAt_def fun_upd_def)

lemma exAt_step:
  "mcpStep (EvServer 0 line) (exAt outs p ch l) = exAt (outs @ [line]) p ch l"
  "listen (exAt outs p ch LBetween) = exAt outs p ch (LReading 0)"
  "listen (exAt (line # outs) p ch (LReading 0)) = deliver line (exAt outs p ch LBetween)"
  by (simp_all add: exAt_def onTransport_def listen_def exProcess_def exClient_def NewClient_def)

lemma exAt_deliver:
  "deliver (exReply 2) (exAt outs [1] ch l) = exAt outs [1] ch l"
  "deliver (exReply 1) (exAt outs [1] [] l) = exAt outs [] [\<lparr>RespVersion = [], RespResult = Some (JBool True), RespError = None, RespID = 1\<rparr>] l"
  by (simp_all add: exAt_def deliver_def exReply_text fun_upd_def)

lemma exAt_chan: "ClChans (exAt outs p ch l) 1 = ch"
  by (simp add: exAt_def)

lemma exAnswered: "fst (call (exCall None exEvents) ''ping'' None exClient) = Inr (Some (JBool True))"
proof -
  have r: "mcpRun exEvents (exAt [] [1] [] LBetween) = exAt [] [] [\<lparr>RespVersion = [], RespResult = Some (JBool True), RespError = None, RespID = 1\<rparr>] LBetween"
    by (simp add: exEvents_def exAt_step exAt_deliver del: mcpStep.simps(1))
  show ?thesis by (simp add: call_def exCall_def exAt_begin await_def r exAt_chan)
qed

theorem reply_of_own_call_witness:
  "\<exists>line\<in>{exReply 1, exReply 2}. \<exists>resp. decodeResponse line = Some resp \<and> RespID resp = 1 \<and> RespResult resp = Some (JBool True)"
proof -
  let ?r = "call (exCall None exEvents) ''ping'' None exClient"
  have "?r = (Inr (Some (JBool True)), snd ?r)" using exAnswered by (metis prod.collapse)
  from reply_of_own_call [OF exClient_inv [of "{exReply 1, exReply 2}"] _ this]
  have "\<exists>line\<in>{exReply 1, exReply 2}. \<exists>resp. decodeResponse line = Some resp \<and> RespID resp = ClNextID exClient + 1 \<and> RespError resp = None \<and> Some (JBool True) = RespResult resp"
    by (simp add: exCall_def exEvents_def)
  moreover have "ClNextID exClient + 1 = 1" by (simp add: exClient_def NewClient_def)
  ultimately show ?thesis by auto
qed

text \<open>The process ends, the listener sees the end, the next call finds the pipe broken, starts the command again and writes
  its request, which the new process answers.\<close>

definition exEnded :: McpClient where
  "exEnded = mcpRun [EvListen, EvServerEnds 0, EvListen] exClient"

definition exRestart :: callEnv where
  "exRestart = exCall (Some (ErrMsg ''broken pipe'')) [EvServer 1 (exReply 1), EvListen, EvListen]"

lemma exEnded_stopped: "ClListener exEnded = LStopped"
  by (simp add: exEnded_def ex_client_simps)

lemma exEnded_inv: "client_inv L exEnded"
  unfolding exEnded_def by (rule mcpRun_inv [OF exClient_inv]) simp

lemma exRestart_answered:
  "map TpOutput (ClTransports (snd (call exRestart ''ping'' None exEnded))) = [[], [exReply 1]]"
  "map (length \<circ> TpInput) (ClTransports (snd (call exRestart ''ping'' None exEnded))) = [0, 1]"
  by (simp_all add: exRestart_def exEnded_def ex_client_simps dropCall_def)

theorem restarted_process_unheard_witness:
  "isl (fst (call exRestart ''ping'' None exEnded)) \<and>
   map TpOutput (ClTransports (snd (call exRestart ''ping'' None exEnded))) = [[], [exReply 1]] \<and>
   map (length \<circ> TpInput) (ClTransports (snd (call exRestart ''ping'' None exEnded))) = [0, 1]"
  using restarted_process_unheard [OF exEnded_inv [of UNIV] subset_UNIV exEnded_stopped, of exRestart "''ping''" None] exRestart_answered by blast

text \<open>A server that refuses the handshake: when the client is closed before the listener has begun to wait for the next
  line, the listener reads from the reader that the close took away.\<close>

lemma close_before_next_receive:
  "ClListener c = LBetween \<Longrightarrow> ClTransports c \<noteq> [] \<Longrightarrow> TpRunning (last (ClTransports c)) \<Longrightarrow>
     ClListener (mcpRun [EvClose, EvListen] c) = LPanicked"
  by (simp add: listen_def Close_def StdioClose_def setCurrent_def)
end
