(* ===== verification/Mcp_Manager.thy ===== *)
theory Mcp_Manager
  imports Mcp_Client Policy Config_File "HOL-Library.Multiset"
begin

text \<open>
  The manager of the tool servers (\<open>internal/mcp/manager.go\<close>), the bridge that registers their tools with an
  agent (\<open>internal/tools/mcp_bridge.go\<close>) and the part of \<open>cmd/goclaw/main.go\<close> that connects the servers of each
  agent. Connections are shared by pointer, so they live in a store (\<open>MgConns\<close>) and the maps hold their
  numbers. The order in which a map is visited is an argument.
\<close>

section \<open>The state\<close>

record ServerConfig =
  ScName :: string
  ScCommand :: string
  ScArgs :: "string list"
  ScEnv :: "(string \<times> string) list"
  ScURL :: string
  ScTransport :: string
  ScTimeout :: string
  ScEnabled :: bool

record DiscoveredTool =
  DtName :: string
  DtDescription :: string
  DtInputSchema :: "jval option"
  DtServerName :: string

record connection =
  CnConfig :: ServerConfig
  CnClient :: McpClient
  CnTools :: "DiscoveredTool list"
  CnHealthy :: bool

text \<open>The two implementations of the interface \<open>policy.Checker\<close>.\<close>

datatype checkerValue = PolicyValue Policy | LiveValue LivePolicy

text \<open>\<open>MgClosed\<close> keeps the clients that no map refers to any more.\<close>

record Manager =
  MgConns :: "connection list"
  MgGlobal :: "(string \<times> nat) list"
  MgPerAgent :: "(string \<times> (string \<times> nat) list) list"
  MgPolicy :: "checkerValue option"
  MgClosed :: "McpClient list"

definition NewManager :: "ServerConfig list \<Rightarrow> checkerValue option \<Rightarrow> Manager" where
  "NewManager configs pol = \<lparr>MgConns = [], MgGlobal = [], MgPerAgent = [], MgPolicy = pol, MgClosed = []\<rparr>"

definition Start :: "Manager \<Rightarrow> err option \<times> Manager" where
  "Start m = (None, m)"

text \<open>The type assertion to \<open>policy.Policy\<close> succeeds for that type alone.\<close>

definition mcpAllowed :: "checkerValue option \<Rightarrow> string \<Rightarrow> string \<Rightarrow> string \<Rightarrow> bool" where
  "mcpAllowed pol agentID serverName toolName = (case pol of
     Some (PolicyValue p) \<Rightarrow> AllowMCPTool p agentID serverName toolName
   | _ \<Rightarrow> True)"

definition checkerCapability :: "checkerValue \<Rightarrow> string \<Rightarrow> bool" where
  "checkerCapability pol c = (case pol of PolicyValue p \<Rightarrow> AllowCapability p c | LiveValue lp \<Rightarrow> AllowCapability (lpdata lp) c)"

definition setKey :: "string \<Rightarrow> 'v \<Rightarrow> (string \<times> 'v) list \<Rightarrow> (string \<times> 'v) list" where
  "setKey k v m = (if k \<in> fst ` set m then map (\<lambda>(j, w). if j = k then (j, v) else (j, w)) m else m @ [(k, v)])"

definition delKey :: "string \<Rightarrow> (string \<times> 'v) list \<Rightarrow> (string \<times> 'v) list" where
  "delKey k m = filter (\<lambda>(j, w). j \<noteq> k) m"

definition onClient :: "nat \<Rightarrow> (McpClient \<Rightarrow> McpClient) \<Rightarrow> Manager \<Rightarrow> Manager" where
  "onClient k f m = m\<lparr>MgConns := (MgConns m)[k := (MgConns m ! k)\<lparr>CnClient := f (CnClient (MgConns m ! k))\<rparr>]\<rparr>"

section \<open>Connecting and disconnecting\<close>

text \<open>What the connection of one server meets.\<close>

record connectEnv =
  CoStart :: "err option"
  CoProcess :: processEnv
  CoInit :: callEnv
  CoNotify :: sendEnv
  CoKill :: "err option"

definition assign :: "string \<Rightarrow> string \<Rightarrow> nat \<Rightarrow> Manager \<Rightarrow> Manager" where
  "assign agentID name k m = (case map_of (MgPerAgent m) agentID of
     None \<Rightarrow> m | Some conns \<Rightarrow> m\<lparr>MgPerAgent := setKey agentID (setKey name k conns) (MgPerAgent m)\<rparr>)"

definition connectInline :: "connectEnv \<Rightarrow> string \<Rightarrow> ServerConfig \<Rightarrow> Manager \<Rightarrow> Manager" where
  "connectInline e agentID cfg m =
    (case NewReconnectableTransport (CoStart e) (CoProcess e) (ScCommand cfg) (ScArgs cfg) (ScEnv cfg) of
       Inl _ \<Rightarrow> m
     | Inr t \<Rightarrow>
        (case Initialize (CoInit e) (CoNotify e) (NewClient (ScName cfg) (ScCommand cfg) (ScArgs cfg) (ScEnv cfg) t) of
           (Some _, client) \<Rightarrow> m\<lparr>MgClosed := MgClosed m @ [snd (Close (CoKill e) client)]\<rparr>
         | (None, client) \<Rightarrow>
             assign agentID (ScName cfg) (length (MgConns m))
               (m\<lparr>MgConns := MgConns m @ [\<lparr>CnConfig = cfg, CnClient = client, CnTools = [], CnHealthy = True\<rparr>]\<rparr>)))"

fun connectServers :: "(string \<Rightarrow> connectEnv) \<Rightarrow> string \<Rightarrow> ServerConfig list \<Rightarrow> Manager \<Rightarrow> Manager" where
  "connectServers env agentID [] m = m"
| "connectServers env agentID (cfg # cfgs) m = connectServers env agentID cfgs
    (if \<not> ScEnabled cfg then m
     else case (if ScCommand cfg = [] \<and> ScURL cfg = [] then map_of (MgGlobal m) (ScName cfg) else None) of
        Some k \<Rightarrow> assign agentID (ScName cfg) k m
      | None \<Rightarrow> connectInline (env (ScName cfg)) agentID cfg m)"

definition ConnectAgentServers :: "(string \<Rightarrow> connectEnv) \<Rightarrow> string \<Rightarrow> ServerConfig list \<Rightarrow> Manager \<Rightarrow> err option \<times> Manager" where
  "ConnectAgentServers env agentID configs m =
    (None, connectServers env agentID configs
       (if agentID \<in> fst ` set (MgPerAgent m) then m else m\<lparr>MgPerAgent := MgPerAgent m @ [(agentID, [])]\<rparr>))"

text \<open>The clients of an agent are closed, save those whose name is that of a global server.\<close>

fun closeConns :: "(string \<times> nat) list \<Rightarrow> Manager \<Rightarrow> Manager" where
  "closeConns [] m = m"
| "closeConns ((name, k) # conns) m =
    closeConns conns (if name \<in> fst ` set (MgGlobal m) then m else onClient k (\<lambda>c. snd (Close None c)) m)"

definition DisconnectAgent :: "string \<Rightarrow> Manager \<Rightarrow> err option \<times> Manager" where
  "DisconnectAgent agentID m = (None, case map_of (MgPerAgent m) agentID of
     None \<Rightarrow> m
   | Some conns \<Rightarrow> (closeConns conns m)\<lparr>MgPerAgent := delKey agentID (MgPerAgent m)\<rparr>)"

definition ReloadAgent :: "(string \<Rightarrow> connectEnv) \<Rightarrow> string \<Rightarrow> ServerConfig list \<Rightarrow> Manager \<Rightarrow> err option \<times> Manager" where
  "ReloadAgent env agentID configs m = ConnectAgentServers env agentID configs (snd (DisconnectAgent agentID m))"

fun closeGlobals :: "(string \<times> nat) list \<Rightarrow> Manager \<Rightarrow> Manager" where
  "closeGlobals [] m = m"
| "closeGlobals ((name, k) # conns) m = closeGlobals conns (onClient k (\<lambda>c. snd (Close None c)) m)"

definition Stop :: "Manager \<Rightarrow> err option \<times> Manager" where
  "Stop m =
    (let m1 = closeConns (concat (map snd (MgPerAgent m))) m; m2 = closeGlobals (MgGlobal m) (m1\<lparr>MgPerAgent := []\<rparr>)
     in (None, m2\<lparr>MgGlobal := []\<rparr>))"

section \<open>Tools\<close>

definition discovered :: "string \<Rightarrow> MCPTool \<Rightarrow> DiscoveredTool" where
  "discovered serverName t = \<lparr>DtName = MtName t, DtDescription = MtDescription t, DtInputSchema = MtInputSchema t, DtServerName = serverName\<rparr>"

record discoverEnv =
  DeList :: "string \<Rightarrow> callEnv"
  DeBad :: err
  DeOrder :: "(string \<times> nat) list \<Rightarrow> (string \<times> nat) list"

fun discoverFrom :: "discoverEnv \<Rightarrow> string \<Rightarrow> (string \<times> nat) list \<Rightarrow> Manager \<Rightarrow> DiscoveredTool list \<times> Manager" where
  "discoverFrom e agentID [] m = ([], m)"
| "discoverFrom e agentID ((serverName, k) # conns) m =
    (let conn = MgConns m ! k in
     if CnTools conn \<noteq> [] then (case discoverFrom e agentID conns m of (ts, m1) \<Rightarrow> (CnTools conn @ ts, m1))
     else case ListTools (DeList e serverName) (DeBad e) (CnClient conn) of
        (Inl _, c1) \<Rightarrow> discoverFrom e agentID conns (onClient k (\<lambda>_. c1) m)
      | (Inr tools, c1) \<Rightarrow>
         (let found = map (discovered serverName) tools;
              allowed = filter (\<lambda>t. mcpAllowed (MgPolicy m) agentID serverName (DtName t)) found;
              m1 = m\<lparr>MgConns := (MgConns m)[k := conn\<lparr>CnClient := c1, CnTools := found\<rparr>]\<rparr>
          in case discoverFrom e agentID conns m1 of (ts, m2) \<Rightarrow> (allowed @ ts, m2)))"

definition DiscoverTools :: "discoverEnv \<Rightarrow> string \<Rightarrow> Manager \<Rightarrow> (err + DiscoveredTool list) \<times> Manager" where
  "DiscoverTools e agentID m = (case map_of (MgPerAgent m) agentID of
     None \<Rightarrow> (Inr [], m)
   | Some conns \<Rightarrow> (case discoverFrom e agentID (DeOrder e conns) m of (ts, m1) \<Rightarrow> (Inr ts, m1)))"

text \<open>The second argument is the error of \<open>json.Marshal\<close> when the input is no JSON text.\<close>

definition InvokeTool :: "callEnv \<Rightarrow> err \<Rightarrow> string \<Rightarrow> string \<Rightarrow> string \<Rightarrow> string \<Rightarrow> Manager \<Rightarrow> (err + jval option) \<times> Manager" where
  "InvokeTool e bad agentID serverName toolName input m = (case map_of (MgPerAgent m) agentID of
     None \<Rightarrow> (Inl (ErrMsg (''agent not connected to any mcp servers: '' @ agentID)), m)
   | Some conns \<Rightarrow> (case map_of conns serverName of
        None \<Rightarrow> (Inl (ErrMsg (''agent '' @ agentID @ '' not connected to server '' @ serverName)), m)
      | Some k \<Rightarrow>
          if \<not> mcpAllowed (MgPolicy m) agentID serverName toolName
          then (Inl (ErrMsg (''policy denied mcp tool: '' @ serverName @ ''/'' @ toolName @ '' for agent '' @ agentID)), m)
          else case CallTool e bad toolName input (CnClient (MgConns m ! k)) of (r, c1) \<Rightarrow> (r, onClient k (\<lambda>_. c1) m)))"

definition ServerNames :: "(string list \<Rightarrow> string list) \<Rightarrow> string \<Rightarrow> Manager \<Rightarrow> string list" where
  "ServerNames order agentID m = (case map_of (MgPerAgent m) agentID of None \<Rightarrow> [] | Some conns \<Rightarrow> order (map fst conns))"

definition Healthy :: "string \<Rightarrow> string \<Rightarrow> Manager \<Rightarrow> bool" where
  "Healthy agentID serverName m = (case map_of (MgPerAgent m) agentID of None \<Rightarrow> False
   | Some conns \<Rightarrow> (case map_of conns serverName of None \<Rightarrow> False | Some k \<Rightarrow> CnHealthy (MgConns m ! k)))"

fun allTools :: "discoverEnv \<Rightarrow> (string \<times> nat) list \<Rightarrow> Manager \<Rightarrow> (string \<times> MCPTool list) list \<times> Manager" where
  "allTools e [] m = ([], m)"
| "allTools e ((name, k) # conns) m = (case ListTools (DeList e name) (DeBad e) (CnClient (MgConns m ! k)) of
     (Inl _, c1) \<Rightarrow> allTools e conns (onClient k (\<lambda>_. c1) m)
   | (Inr tools, c1) \<Rightarrow> (case allTools e conns (onClient k (\<lambda>_. c1) m) of (r, m1) \<Rightarrow> ((name, tools) # r, m1)))"

definition AllTools :: "discoverEnv \<Rightarrow> Manager \<Rightarrow> (err + (string \<times> MCPTool list) list) \<times> Manager" where
  "AllTools e m = (case allTools e (DeOrder e (MgGlobal m)) m of (r, m1) \<Rightarrow> (Inr r, m1))"

definition ManagerCallTool :: "callEnv \<Rightarrow> err \<Rightarrow> string \<Rightarrow> string \<Rightarrow> string \<Rightarrow> Manager \<Rightarrow> (err + jval option) \<times> Manager" where
  "ManagerCallTool e bad serverName toolName args m = (case map_of (MgGlobal m) serverName of
     None \<Rightarrow> (Inl (ErrMsg (''server not found: '' @ serverName)), m)
   | Some k \<Rightarrow>
       if (case MgPolicy m of Some pol \<Rightarrow> \<not> checkerCapability pol ''tools.mcp'' | None \<Rightarrow> False)
       then (Inl (ErrMsg (''policy denied capability '' @ quoteGo ''tools.mcp'')), m)
       else case CallTool e bad toolName args (CnClient (MgConns m ! k)) of (r, c1) \<Rightarrow> (r, onClient k (\<lambda>_. c1) m))"

section \<open>The bridge\<close>

text \<open>A tool registered with an agent; its description, to which the text of the schema is appended, and the schema.\<close>

record bridgeTool =
  BtName :: string
  BtServer :: string
  BtTool :: string
  BtDescription :: string
  BtSchema :: jval

definition schemaOf :: "jval option \<Rightarrow> jval" where
  "schemaOf s = (case s of Some (JObj fs) \<Rightarrow> JObj fs | Some JNull \<Rightarrow> JNull | _ \<Rightarrow> JObj [(''type'', JStr ''object'')])"

definition bridgeOf :: "DiscoveredTool \<Rightarrow> bridgeTool" where
  "bridgeOf t = \<lparr>BtName = ''mcp_'' @ DtServerName t @ ''_'' @ DtName t, BtServer = DtServerName t, BtTool = DtName t,
     BtDescription = DtDescription t, BtSchema = schemaOf (DtInputSchema t)\<rparr>"

definition RegisterMCPTools :: "discoverEnv \<Rightarrow> string \<Rightarrow> Manager \<Rightarrow> bridgeTool list \<times> Manager" where
  "RegisterMCPTools e agentID m = (case DiscoverTools e agentID m of
     (Inl _, m1) \<Rightarrow> ([], m1) | (Inr ts, m1) \<Rightarrow> (map bridgeOf ts, m1))"

text \<open>A call of a registered tool, with the outcome of encoding its input: the status and the subject of the audit
  record, the answer, the manager.\<close>

definition runBridgeTool :: "callEnv \<Rightarrow> err \<Rightarrow> string \<Rightarrow> bridgeTool \<Rightarrow> err + string \<Rightarrow> Manager \<Rightarrow> (string \<times> string) \<times> (err + jval) \<times> Manager" where
  "runBridgeTool e bad agentID t argsJSON m =
    (let subject = BtServer t @ '':'' @ BtTool t; what = ''mcp tool '' @ BtServer t @ ''/'' @ BtTool t in
     case argsJSON of
       Inl er \<Rightarrow> ((''failure'', subject), Inl (ErrWrap (what @ '': marshal args'') er), m)
     | Inr args \<Rightarrow> (case InvokeTool e bad agentID (BtServer t) (BtTool t) args m of
          (Inl er, m1) \<Rightarrow> ((''failure'', subject), Inl (ErrWrap what er), m1)
        | (Inr res, m1) \<Rightarrow> ((''success'', subject), Inr (case res of Some v \<Rightarrow> v | None \<Rightarrow> JStr []), m1)))"

section \<open>The daemon\<close>

definition globalServer :: "MCPServerConfig \<Rightarrow> ServerConfig" where
  "globalServer s = \<lparr>ScName = McpName s, ScCommand = McpCommand s, ScArgs = McpArgs s, ScEnv = McpEnv s, ScURL = [], ScTransport = [],
     ScTimeout = [], ScEnabled = McpEnabled s\<rparr>"

definition agentServer :: "AgentMCPRef \<Rightarrow> ServerConfig" where
  "agentServer ref = \<lparr>ScName = RefName ref, ScCommand = RefCommand ref, ScArgs = RefArgs ref, ScEnv = RefEnv ref, ScURL = RefURL ref,
     ScTransport = RefTransport ref, ScTimeout = RefTimeout ref, ScEnabled = False\<rparr>"

definition findAgentConfig :: "AgentConfigEntry list \<Rightarrow> string \<Rightarrow> AgentConfigEntry option" where
  "findAgentConfig agents agentID = firstWhere (\<lambda>a. EntAgentID a = agentID) agents"

definition daemonManager :: "AppConfig \<Rightarrow> LivePolicy \<Rightarrow> Manager" where
  "daemonManager cfg pol = snd (Start (NewManager (map globalServer (CfgMCPServers cfg)) (Some (LiveValue pol))))"

text \<open>What the daemon does for an agent when it starts, and again when an agent is created at run time.\<close>

definition connectAgent :: "(string \<Rightarrow> connectEnv) \<Rightarrow> discoverEnv \<Rightarrow> AppConfig \<Rightarrow> string \<Rightarrow> Manager \<Rightarrow> bridgeTool list \<times> Manager" where
  "connectAgent env e cfg agentID m =
    RegisterMCPTools e agentID (case findAgentConfig (CfgAgents cfg) agentID of
       Some a \<Rightarrow> if EntMCPServers a \<noteq> [] then snd (ConnectAgentServers env agentID (map agentServer (EntMCPServers a)) m) else m
     | None \<Rightarrow> m)"

text \<open>The loop of the daemon over its agents.\<close>

fun connectAgents :: "(string \<Rightarrow> connectEnv) \<Rightarrow> discoverEnv \<Rightarrow> AppConfig \<Rightarrow> string list \<Rightarrow> Manager \<Rightarrow> bridgeTool list list \<times> Manager" where
  "connectAgents env e cfg [] m = ([], m)"
| "connectAgents env e cfg (a # as) m = (case connectAgent env e cfg a m of (ts, m1) \<Rightarrow>
     (case connectAgents env e cfg as m1 of (tss, m2) \<Rightarrow> (ts # tss, m2)))"

section \<open>The rules of the policy\<close>

text \<open>The rules for the tools of a server bind a manager that was given a plain policy: a call the rules refuse fails
  and no byte is sent. The daemon gives its manager the policy that can change at run time, a pointer, which the
  type assertion to the plain type does not match: with the same rules in force the manager sends the call that
  they refuse, just as a manager without a policy does.\<close>

theorem mcp_rules_bypassed:
  assumes "map_of (MgPerAgent m) agentID = Some conns" "map_of conns serverName = Some k" "k < length (MgConns m)"
    "\<not> AllowMCPTool (lpdata lp) agentID serverName toolName"
  shows "InvokeTool e bad agentID serverName toolName input (m\<lparr>MgPolicy := Some (PolicyValue (lpdata lp))\<rparr>) =
      (Inl (ErrMsg (''policy denied mcp tool: '' @ serverName @ ''/'' @ toolName @ '' for agent '' @ agentID)), m\<lparr>MgPolicy := Some (PolicyValue (lpdata lp))\<rparr>) \<and>
    fst (InvokeTool e bad agentID serverName toolName input (m\<lparr>MgPolicy := Some (LiveValue lp)\<rparr>)) =
      fst (CallTool e bad toolName input (CnClient (MgConns m ! k))) \<and>
    CnClient (MgConns (snd (InvokeTool e bad agentID serverName toolName input (m\<lparr>MgPolicy := Some (LiveValue lp)\<rparr>))) ! k) =
      snd (CallTool e bad toolName input (CnClient (MgConns m ! k)))"
  using assms by (simp add: InvokeTool_def mcpAllowed_def onClient_def split: prod.split)

text \<open>For an agent with one server, the first discovery returns the tools of the server that the rules allow. It keeps
  the unfiltered list, so every later discovery returns all of them, without asking the server.\<close>

theorem rediscovery_returns_blocked:
  assumes "map_of (MgPerAgent m) agentID = Some [(serverName, k)]" "k < length (MgConns m)" "CnTools (MgConns m ! k) = []"
    "ListTools (DeList e serverName) (DeBad e) (CnClient (MgConns m ! k)) = (Inr tools, c1)" "tools \<noteq> []"
    "\<forall>cs. mset (DeOrder e cs) = mset cs" "\<forall>cs. mset (DeOrder e2 cs) = mset cs"
  shows "\<exists>m1. DiscoverTools e agentID m =
      (Inr (filter (\<lambda>t. mcpAllowed (MgPolicy m) agentID serverName (DtName t)) (map (discovered serverName) tools)), m1) \<and>
    DiscoverTools e2 agentID m1 = (Inr (map (discovered serverName) tools), m1)"
proof -
  have o: "DeOrder e [(serverName, k)] = [(serverName, k)]" "DeOrder e2 [(serverName, k)] = [(serverName, k)]"
    using assms(6,7) by (metis mset_single_iff_right)+
  define m1 where "m1 = m\<lparr>MgConns := (MgConns m)[k := (MgConns m ! k)\<lparr>CnClient := c1, CnTools := map (discovered serverName) tools\<rparr>]\<rparr>"
  have "DiscoverTools e agentID m = (Inr (filter (\<lambda>t. mcpAllowed (MgPolicy m) agentID serverName (DtName t)) (map (discovered serverName) tools)), m1)"
    using assms(1-5) o(1) by (simp add: DiscoverTools_def Let_def m1_def)
  moreover have "DiscoverTools e2 agentID m1 = (Inr (map (discovered serverName) tools), m1)"
    using assms(1,2,5) o(2) by (simp add: DiscoverTools_def Let_def m1_def)
  ultimately show ?thesis by blast
qed

section \<open>What the daemon connects\<close>

definition idle :: "Manager \<Rightarrow> bool" where
  "idle m \<longleftrightarrow> MgConns m = [] \<and> MgGlobal m = [] \<and> MgClosed m = [] \<and> (\<forall>(a, conns) \<in> set (MgPerAgent m). conns = [])"

lemma idle_lookup: "idle m \<Longrightarrow> map_of (MgPerAgent m) a = Some conns \<Longrightarrow> conns = []"
  by (auto simp: idle_def dest: map_of_SomeD)

lemma connectServers_disabled: "\<forall>cfg\<in>set cfgs. \<not> ScEnabled cfg \<Longrightarrow> connectServers env a cfgs m = m"
  by (induction cfgs) simp_all

lemma idle_connect: "idle m \<Longrightarrow> idle (snd (ConnectAgentServers env a (map agentServer refs) m))"
  by (auto simp: ConnectAgentServers_def connectServers_disabled agentServer_def idle_def)

lemma idle_discover: "idle m \<Longrightarrow> DeOrder e [] = [] \<Longrightarrow> DiscoverTools e a m = (Inr [], m)"
  by (auto simp: DiscoverTools_def dest: idle_lookup split: option.split)

lemma idle_connectAgent:
  assumes "idle m" "DeOrder e [] = []"
  shows "\<exists>m1. connectAgent env e cfg a m = ([], m1) \<and> idle m1"
proof -
  define m1 where "m1 = (case findAgentConfig (CfgAgents cfg) a of
       Some ent \<Rightarrow> if EntMCPServers ent \<noteq> [] then snd (ConnectAgentServers env a (map agentServer (EntMCPServers ent)) m) else m
     | None \<Rightarrow> m)"
  have "idle m1" unfolding m1_def using assms(1) idle_connect by (simp split: option.split)
  moreover have "connectAgent env e cfg a m = ([], m1)"
    unfolding connectAgent_def m1_def [symmetric] RegisterMCPTools_def using idle_discover [OF \<open>idle m1\<close> assms(2)] by simp
  ultimately show ?thesis by blast
qed

lemma idle_connectAgents:
  "idle m \<Longrightarrow> DeOrder e [] = [] \<Longrightarrow> connectAgents env e cfg as m = (tss, m1) \<Longrightarrow> idle m1 \<and> (\<forall>ts\<in>set tss. ts = [])"
proof (induction as arbitrary: m m1 tss)
  case (Cons a as)
  obtain m2 where m2: "connectAgent env e cfg a m = ([], m2)" "idle m2" using idle_connectAgent [OF Cons.prems(1,2)] by blast
  obtain tss2 m3 where r: "connectAgents env e cfg as m2 = (tss2, m3)" by (cases "connectAgents env e cfg as m2")
  have "tss = [] # tss2" "m1 = m3" using Cons.prems(3) m2(1) r by simp_all
  with Cons.IH [OF m2(2) Cons.prems(2) r] show ?case by simp
qed simp

text \<open>C37. The daemon connects no tool server at all. It fills in the configuration of an agent's servers without the flag
  \<open>Enabled\<close>, and the manager skips every server whose flag is unset; the servers of the global section are handed
  to a constructor that drops them. So whatever the configuration says and for whichever agents the loop runs, no
  command is started, no agent gets a tool of a server, and every call of one fails.\<close>

theorem daemon_connects_no_server:
  assumes "connectAgents env e cfg as (daemonManager cfg pol) = (tss, m)" "\<forall>cs. mset (DeOrder e cs) = mset cs"
  shows "(\<forall>ts\<in>set tss. ts = []) \<and> MgConns m = [] \<and> MgClosed m = [] \<and>
    (\<forall>ce bad a s t input. isl (fst (InvokeTool ce bad a s t input m)))"
proof -
  have "idle (daemonManager cfg pol)" by (simp add: idle_def daemonManager_def Start_def NewManager_def)
  moreover have "DeOrder e [] = []" using assms(2) by (metis mset_zero_iff)
  ultimately have i: "idle m" "\<forall>ts\<in>set tss. ts = []" using idle_connectAgents [OF _ _ assms(1)] by blast+
  have "isl (fst (InvokeTool ce bad a s t input m))" for ce bad a s t input
    using idle_lookup [OF i(1), of a] by (cases "map_of (MgPerAgent m) a") (simp_all add: InvokeTool_def)
  then show ?thesis using i by (simp add: idle_def)
qed

section \<open>Stopping\<close>

definition closedAt :: "Manager \<Rightarrow> nat \<Rightarrow> bool" where
  "closedAt m k \<longleftrightarrow> \<not> TpRunning (last (ClTransports (CnClient (MgConns m ! k))))"

lemma closedAt_close:
  "closedAt m j \<or> j = k \<and> k < length (MgConns m) \<Longrightarrow> closedAt (onClient k (\<lambda>c. snd (Close None c)) m) j"
  by (cases "j = k"; cases "k < length (MgConns m)")
     (auto simp: closedAt_def onClient_def Close_def StdioClose_def setCurrent_def list_update_beyond split: prod.splits if_splits)

lemma onClient_frame [simp]: "MgGlobal (onClient k f m) = MgGlobal m" "length (MgConns (onClient k f m)) = length (MgConns m)"
  "MgPerAgent (onClient k f m) = MgPerAgent m"
  by (simp_all add: onClient_def)

lemma closeConns_closes:
  "closedAt m j \<or> (\<exists>name. (name, j) \<in> set conns \<and> name \<notin> fst ` set (MgGlobal m) \<and> j < length (MgConns m)) \<Longrightarrow> closedAt (closeConns conns m) j"
proof (induction conns arbitrary: m)
  case (Cons p conns)
  obtain name k where p: "p = (name, k)" by (cases p)
  show ?case unfolding p closeConns.simps by (rule Cons.IH) (use Cons.prems p closedAt_close [of m j k] in auto)
qed simp

lemma closeConns_frame: "MgGlobal (closeConns conns m) = MgGlobal m \<and> length (MgConns (closeConns conns m)) = length (MgConns m)"
  by (induction conns m rule: closeConns.induct) simp_all

lemma closeGlobals_closes:
  "closedAt m j \<or> (\<exists>name. (name, j) \<in> set conns \<and> j < length (MgConns m)) \<Longrightarrow> closedAt (closeGlobals conns m) j"
proof (induction conns arbitrary: m)
  case (Cons p conns)
  obtain name k where p: "p = (name, k)" by (cases p)
  show ?case unfolding p closeGlobals.simps by (rule Cons.IH) (use Cons.prems p closedAt_close [of m j k] in auto)
qed simp

text \<open>After \<open>Stop\<close> every connection of a global server is closed, and every connection of an agent whose name is not
  that of a global server.\<close>

theorem stop_closes:
  assumes "j < length (MgConns m)"
    "j \<in> snd ` set (MgGlobal m) \<or> (\<exists>a conns name. (a, conns) \<in> set (MgPerAgent m) \<and> (name, j) \<in> set conns \<and> name \<notin> fst ` set (MgGlobal m))"
  shows "closedAt (snd (Stop m)) j"
proof -
  let ?all = "concat (map snd (MgPerAgent m))"
  let ?m1 = "(closeConns ?all m)\<lparr>MgPerAgent := []\<rparr>"
  have f: "MgGlobal ?m1 = MgGlobal m" "length (MgConns ?m1) = length (MgConns m)" using closeConns_frame [of ?all m] by simp_all
  have c: "closedAt ?m1 j" if "\<not> j \<in> snd ` set (MgGlobal m)"
  proof -
    have "\<exists>name. (name, j) \<in> set ?all \<and> name \<notin> fst ` set (MgGlobal m)" using assms(2) that by fastforce
    then have "closedAt (closeConns ?all m) j" using assms(1) by (intro closeConns_closes) blast
    then show ?thesis by (simp add: closedAt_def)
  qed
  have "closedAt (closeGlobals (MgGlobal m) ?m1) j"
    using c f assms(1) by (intro closeGlobals_closes) (cases "j \<in> snd ` set (MgGlobal m)"; force)
  then show ?thesis using f by (simp add: Stop_def Let_def closedAt_def)
qed

section \<open>Examples\<close>

definition exServer :: ServerConfig where
  "exServer = \<lparr>ScName = ''fs'', ScCommand = ''fs'', ScArgs = [], ScEnv = [], ScURL = [], ScTransport = [], ScTimeout = [], ScEnabled = True\<rparr>"

definition exManager :: "checkerValue option \<Rightarrow> Manager" where
  "exManager pol = \<lparr>MgConns = [\<lparr>CnConfig = exServer, CnClient = exClient, CnTools = [], CnHealthy = True\<rparr>], MgGlobal = [],
     MgPerAgent = [(''a'', [(''fs'', 0)])], MgPolicy = pol, MgClosed = []\<rparr>"

definition exLive :: LivePolicy where
  "exLive = NewLivePolicy DefaultPolicy [] None"

lemma exDenied: "\<not> AllowMCPTool (lpdata exLive) ''a'' ''fs'' ''rm''"
  by code_simp

theorem mcp_rules_bypassed_witness:
  "isl (fst (InvokeTool (exCall None []) ErrNoRows ''a'' ''fs'' ''rm'' [] (exManager (Some (PolicyValue (lpdata exLive)))))) \<and>
   fst (InvokeTool (exCall None []) ErrNoRows ''a'' ''fs'' ''rm'' [] (exManager (Some (LiveValue exLive)))) =
     fst (CallTool (exCall None []) ErrNoRows ''rm'' [] exClient)"
  using mcp_rules_bypassed [of "exManager None" "''a''" "[(''fs'', 0)]" "''fs''" 0 exLive "''rm''" "exCall None []" ErrNoRows "[]"] exDenied
  by (simp add: exManager_def)

text \<open>A server that answers the list of its tools.\<close>

definition exTools :: string where
  "exTools = ''{'' @ jsonPair ''id'' ''1'' @ '','' @ jsonPair ''result'' (''{'' @ jsonPair ''tools'' (''[{'' @ jsonPair ''name'' (jsonString ''rm'') @ ''}]'') @ ''}'') @ ''}''"

definition exTool :: MCPTool where
  "exTool = \<lparr>MtName = ''rm'', MtDescription = [], MtInputSchema = None\<rparr>"

lemma exTools_text: "decodeResponse exTools = Some \<lparr>RespVersion = [], RespResult = Some (JObj [(''tools'', JArr [JObj [(''name'', JStr ''rm'')]])]),
    RespError = None, RespID = 1\<rparr>"
  by code_simp

definition exList :: callEnv where
  "exList = exCall None [EvServer 0 exTools, EvListen, EvListen]"

lemma exListed: "fst (ListTools exList ErrNoRows exClient) = Inr [exTool]"
proof -
  have "unmarshalTools (Some (JObj [(''tools'', JArr [JObj [(''name'', JStr ''rm'')]])])) = Some [exTool]" by code_simp
  then have "ListTools exList ErrNoRows exClient = (case call exList ''tools/list'' None exClient of (_, c1) \<Rightarrow> (Inr [exTool], c1))"
    by (simp add: ListTools_def exList_def ex_client_simps exTools_text takeResponse_def)
  then show ?thesis by (simp split: prod.split)
qed

definition exDiscover :: discoverEnv where
  "exDiscover = \<lparr>DeList = (\<lambda>_. exList), DeBad = ErrNoRows, DeOrder = id\<rparr>"

theorem rediscovery_returns_blocked_witness:
  "\<exists>m1. DiscoverTools exDiscover ''a'' (exManager (Some (PolicyValue DefaultPolicy))) = (Inr [], m1) \<and>
     DiscoverTools exDiscover ''a'' m1 = (Inr [discovered ''fs'' exTool], m1)"
proof -
  let ?m = "exManager (Some (PolicyValue DefaultPolicy))"
  have "ListTools exList ErrNoRows exClient = (Inr [exTool], snd (ListTools exList ErrNoRows exClient))" using exListed by (metis prod.collapse)
  then have l: "ListTools (DeList exDiscover ''fs'') (DeBad exDiscover) (CnClient (MgConns ?m ! 0)) = (Inr [exTool], snd (ListTools exList ErrNoRows exClient))"
    by (simp add: exDiscover_def exManager_def)
  have d: "\<not> mcpAllowed (MgPolicy ?m) ''a'' ''fs'' ''rm''" using exDenied by (simp add: exManager_def mcpAllowed_def exLive_def NewLivePolicy_def)
  have n: "DtName (discovered ''fs'' exTool) = ''rm''" by (simp add: discovered_def exTool_def)
  show ?thesis
    using rediscovery_returns_blocked [OF _ _ _ l, of "''a''" exDiscover] d n by (simp add: exDiscover_def exManager_def)
qed

definition exAgentEntry :: AgentConfigEntry where
  "exAgentEntry = zeroEntry\<lparr>EntAgentID := ''a'', EntMCPServers :=
     [\<lparr>RefName = ''fs'', RefCommand = ''fs'', RefArgs = [], RefURL = [], RefTransport = [], RefEnv = [], RefTimeout = []\<rparr>]\<rparr>"

definition exConnect :: "string \<Rightarrow> connectEnv" where
  "exConnect _ = \<lparr>CoStart = None, CoProcess = SeProcess (exSend None), CoInit = exList, CoNotify = exSend None, CoKill = None\<rparr>"

definition exDaemon :: "bridgeTool list list \<times> Manager" where
  "exDaemon = connectAgents exConnect exDiscover (defaultConfig\<lparr>CfgAgents := [exAgentEntry]\<rparr>) [''a'']
     (daemonManager (defaultConfig\<lparr>CfgAgents := [exAgentEntry]\<rparr>) exLive)"

theorem daemon_connects_no_server_witness:
  "fst exDaemon = [[]] \<and> MgConns (snd exDaemon) = [] \<and> isl (fst (InvokeTool (exCall None []) ErrNoRows ''a'' ''fs'' ''rm'' [] (snd exDaemon)))"
proof -
  obtain tss m where r: "connectAgents exConnect exDiscover (defaultConfig\<lparr>CfgAgents := [exAgentEntry]\<rparr>) [''a'']
      (daemonManager (defaultConfig\<lparr>CfgAgents := [exAgentEntry]\<rparr>) exLive) = (tss, m)" by fastforce
  moreover have "length tss = 1" using r by (auto split: prod.splits)
  moreover have "\<forall>cs. mset (DeOrder exDiscover cs) = mset cs" by (simp add: exDiscover_def)
  ultimately show ?thesis using daemon_connects_no_server [OF r] by (cases tss) (simp_all add: exDaemon_def)
qed
end
