(* ===== verification/Model_Failover.thy ===== *)
theory Model_Failover
  imports Prelude "HOL-Library.AList"
begin

text \<open>
  Failover between model providers (\<open>internal/engine/failover.go\<close>) and the classes of their errors
  (\<open>internal/engine/errors.go\<close>): a brain that tries its providers in order, each behind a circuit breaker whose state
  is kept in the key-value table. The providers are functions of the state of the rest of the program; so are the
  two operations on the table, the clock and the text form of a breaker.
\<close>

section \<open>Classes of errors\<close>

datatype ErrorClass = ErrorClassAuth | ErrorClassRateLimit | ErrorClassTimeout | ErrorClassBilling | ErrorClassContextOverflow | ErrorClassUnknown

definition containsAny :: "string \<Rightarrow> string list \<Rightarrow> bool" where
  "containsAny msg subs = list_ex (contains msg) subs"

definition classifyText :: "string \<Rightarrow> ErrorClass" where
  "classifyText msg =
    (if containsAny msg [''401'', ''unauthorized'', ''invalid key'', ''invalid api key'', ''forbidden'', ''403''] then ErrorClassAuth
     else if containsAny msg [''429'', ''rate limit'', ''rate_limit'', ''quota'', ''too many requests''] then ErrorClassRateLimit
     else if containsAny msg [''deadline exceeded'', ''timeout'', ''timed out''] then ErrorClassTimeout
     else if containsAny msg [''billing'', ''payment'', ''insufficient funds''] then ErrorClassBilling
     else if containsAny msg [''context_length'', ''context length'', ''token limit'', ''max tokens'', ''maximum context'', ''context window'']
       then ErrorClassContextOverflow
     else ErrorClassUnknown)"

definition ClassifyError :: "err option \<Rightarrow> ErrorClass" where
  "ClassifyError e = (case e of None \<Rightarrow> ErrorClassUnknown | Some er \<Rightarrow> classifyText (toLower (errString er)))"

section \<open>The circuit breakers\<close>

text \<open>Instants are nanoseconds; \<open>zeroTime\<close> stands for the zero value of \<open>time.Time\<close>.\<close>

record CircuitBreaker =
  CbFailures :: int
  CbLastFailure :: int
  CbTripped :: bool

definition zeroTime :: int where
  "zeroTime = - 62135596800 * 10^9"

definition freshBreaker :: CircuitBreaker where
  "freshBreaker = \<lparr>CbFailures = 0, CbLastFailure = zeroTime, CbTripped = False\<rparr>"

record 's namedBrain =
  NbName :: string
  NbRespond :: "string \<Rightarrow> string \<Rightarrow> 's \<Rightarrow> (err + string) \<times> 's"
  NbStream :: "string \<Rightarrow> string \<Rightarrow> (string \<Rightarrow> 's \<Rightarrow> err option \<times> 's) \<Rightarrow> 's \<Rightarrow> err option \<times> 's"

text \<open>The interface \<open>KVStore\<close>.\<close>

record 's KVStore =
  KvSet :: "string \<Rightarrow> string \<Rightarrow> 's \<Rightarrow> err option \<times> 's"
  KvGet :: "string \<Rightarrow> 's \<Rightarrow> (err + string) \<times> 's"

record 's FailoverBrain =
  FbPrimary :: "'s namedBrain"
  FbFallbacks :: "'s namedBrain list"
  FbBreakers :: "(string \<times> CircuitBreaker) list"
  FbThreshold :: int
  FbCooldown :: int
  FbStore :: "'s KVStore option"

text \<open>The clock as the state of the program has it, and the text form of a breaker.\<close>

record 's failEnv =
  FeNow :: "'s \<Rightarrow> int"
  FeEncode :: "CircuitBreaker \<Rightarrow> string option"
  FeDecode :: "string \<Rightarrow> CircuitBreaker option"

definition NewFailoverBrain :: "'s namedBrain \<Rightarrow> 's namedBrain list \<Rightarrow> int \<Rightarrow> int \<Rightarrow> 's FailoverBrain" where
  "NewFailoverBrain primary fallbacks threshold0 cooldown0 =
    \<lparr>FbPrimary = primary, FbFallbacks = fallbacks,
     FbBreakers = fold (\<lambda>b bs. AList.update (NbName b) freshBreaker bs) (primary # fallbacks) [],
     FbThreshold = (if threshold0 \<le> 0 then 5 else threshold0), FbCooldown = (if cooldown0 \<le> 0 then 5 * 60 * 10^9 else cooldown0),
     FbStore = None\<rparr>"

definition SetKVStore :: "'s KVStore \<Rightarrow> 's FailoverBrain \<Rightarrow> 's FailoverBrain" where
  "SetKVStore store fb = fb\<lparr>FbStore := Some store\<rparr>"

definition setBreaker :: "string \<Rightarrow> CircuitBreaker \<Rightarrow> 's FailoverBrain \<Rightarrow> 's FailoverBrain" where
  "setBreaker name cb fb = fb\<lparr>FbBreakers := AList.update name cb (FbBreakers fb)\<rparr>"

definition isTripped :: "int \<Rightarrow> string \<Rightarrow> 's FailoverBrain \<Rightarrow> bool \<times> 's FailoverBrain" where
  "isTripped now name fb = (case map_of (FbBreakers fb) name of
     None \<Rightarrow> (False, fb)
   | Some cb \<Rightarrow>
      if \<not> CbTripped cb then (False, fb)
      else if now - CbLastFailure cb \<ge> FbCooldown fb then (False, setBreaker name (cb\<lparr>CbTripped := False, CbFailures := 0\<rparr>) fb)
      else (True, fb))"

definition persistBreakerState :: "'s failEnv \<Rightarrow> string \<Rightarrow> CircuitBreaker \<Rightarrow> 's FailoverBrain \<Rightarrow> 's \<Rightarrow> 's" where
  "persistBreakerState e name cb fb s = (case FbStore fb of None \<Rightarrow> s
   | Some kv \<Rightarrow> (case FeEncode e cb of None \<Rightarrow> s | Some data \<Rightarrow> snd (KvSet kv (''cb:'' @ name) data s)))"

definition recordFailure :: "'s failEnv \<Rightarrow> string \<Rightarrow> 's FailoverBrain \<times> 's \<Rightarrow> 's FailoverBrain \<times> 's" where
  "recordFailure e name = (\<lambda>(fb, s).
    (let cb0 = (case map_of (FbBreakers fb) name of Some cb \<Rightarrow> cb | None \<Rightarrow> freshBreaker);
         n = CbFailures cb0 + 1;
         cb = cb0\<lparr>CbFailures := n, CbLastFailure := FeNow e s, CbTripped := (if n \<ge> FbThreshold fb then True else CbTripped cb0)\<rparr>;
         fb1 = setBreaker name cb fb
     in (fb1, persistBreakerState e name cb fb1 s)))"

definition recordSuccess :: "'s failEnv \<Rightarrow> string \<Rightarrow> 's FailoverBrain \<times> 's \<Rightarrow> 's FailoverBrain \<times> 's" where
  "recordSuccess e name = (\<lambda>(fb, s). case map_of (FbBreakers fb) name of
     None \<Rightarrow> (fb, s)
   | Some cb0 \<Rightarrow>
      (let cb = cb0\<lparr>CbFailures := 0, CbTripped := False\<rparr>; fb1 = setBreaker name cb fb
       in (fb1, persistBreakerState e name cb fb1 s)))"

text \<open>The order in which the map of the breakers is visited is the first argument.\<close>

fun LoadBreakerState :: "string list \<Rightarrow> 's failEnv \<Rightarrow> 's FailoverBrain \<times> 's \<Rightarrow> 's FailoverBrain \<times> 's" where
  "LoadBreakerState [] e (fb, s) = (fb, s)"
| "LoadBreakerState (name # names) e (fb, s) = (case FbStore fb of None \<Rightarrow> (fb, s)
   | Some kv \<Rightarrow> (case KvGet kv (''cb:'' @ name) s of
        (Inr (c # cs), s1) \<Rightarrow> (case FeDecode e (c # cs) of
            Some cb \<Rightarrow> LoadBreakerState names e (setBreaker name cb fb, s1)
          | None \<Rightarrow> LoadBreakerState names e (fb, s1))
      | (_, s1) \<Rightarrow> LoadBreakerState names e (fb, s1)))"

section \<open>Failover\<close>

text \<open>\<open>%w\<close> of no error at all.\<close>

definition lastError :: "string \<Rightarrow> err option \<Rightarrow> err" where
  "lastError what e = (case e of Some er \<Rightarrow> ErrWrap what er | None \<Rightarrow> ErrMsg (what @ '': %!w(<nil>)''))"

fun respondFrom :: "'s failEnv \<Rightarrow> string \<Rightarrow> string \<Rightarrow> err option \<Rightarrow> 's namedBrain list \<Rightarrow> 's FailoverBrain \<times> 's \<Rightarrow> (err + string) \<times> 's FailoverBrain \<times> 's" where
  "respondFrom e sid content lastErr [] st = (Inl (lastError ''failover: all providers failed, last error'' lastErr), st)"
| "respondFrom e sid content lastErr (c # cs) (fb, s) = (case isTripped (FeNow e s) (NbName c) fb of
     (True, fb1) \<Rightarrow> respondFrom e sid content lastErr cs (fb1, s)
   | (False, fb1) \<Rightarrow> (case NbRespond c sid content s of
        (Inr resp, s1) \<Rightarrow> (Inr resp, recordSuccess e (NbName c) (fb1, s1))
      | (Inl er, s1) \<Rightarrow>
          (let st = recordFailure e (NbName c) (fb1, s1) in
           if ClassifyError (Some er) = ErrorClassContextOverflow
           then (Inl (ErrWrap (''failover: context overflow from '' @ NbName c) er), st)
           else respondFrom e sid content (Some er) cs st)))"

definition FailoverRespond :: "'s failEnv \<Rightarrow> string \<Rightarrow> string \<Rightarrow> 's FailoverBrain \<times> 's \<Rightarrow> (err + string) \<times> 's FailoverBrain \<times> 's" where
  "FailoverRespond e sid content st = respondFrom e sid content None (FbPrimary (fst st) # FbFallbacks (fst st)) st"

fun streamFrom :: "'s failEnv \<Rightarrow> string \<Rightarrow> string \<Rightarrow> (string \<Rightarrow> 's \<Rightarrow> err option \<times> 's) \<Rightarrow> err option \<Rightarrow> 's namedBrain list \<Rightarrow> 's FailoverBrain \<times> 's \<Rightarrow>
    err option \<times> 's FailoverBrain \<times> 's" where
  "streamFrom e sid content onChunk lastErr [] st = (Some (lastError ''failover: all providers failed for stream, last error'' lastErr), st)"
| "streamFrom e sid content onChunk lastErr (c # cs) (fb, s) = (case isTripped (FeNow e s) (NbName c) fb of
     (True, fb1) \<Rightarrow> streamFrom e sid content onChunk lastErr cs (fb1, s)
   | (False, fb1) \<Rightarrow> (case NbStream c sid content onChunk s of
        (None, s1) \<Rightarrow> (None, recordSuccess e (NbName c) (fb1, s1))
      | (Some er, s1) \<Rightarrow>
          (let st = recordFailure e (NbName c) (fb1, s1) in
           if ClassifyError (Some er) = ErrorClassContextOverflow
           then (Some (ErrWrap (''failover: context overflow from '' @ NbName c) er), st)
           else streamFrom e sid content onChunk (Some er) cs st)))"

definition FailoverStream :: "'s failEnv \<Rightarrow> string \<Rightarrow> string \<Rightarrow> (string \<Rightarrow> 's \<Rightarrow> err option \<times> 's) \<Rightarrow> 's FailoverBrain \<times> 's \<Rightarrow> err option \<times> 's FailoverBrain \<times> 's" where
  "FailoverStream e sid content onChunk st = streamFrom e sid content onChunk None (FbPrimary (fst st) # FbFallbacks (fst st)) st"

section \<open>When a breaker is open\<close>

lemma map_of_alist: "map_of (AList.update k v bs) j = (if j = k then Some v else map_of bs j)"
  by (simp add: update_conv)

definition breakerOf :: "'s FailoverBrain \<Rightarrow> string \<Rightarrow> CircuitBreaker" where
  "breakerOf fb name = (case map_of (FbBreakers fb) name of Some cb \<Rightarrow> cb | None \<Rightarrow> freshBreaker)"

lemma breakerOf_set: "breakerOf (setBreaker k cb fb) name = (if name = k then cb else breakerOf fb name)"
  by (simp add: breakerOf_def setBreaker_def map_of_alist)

lemma setBreaker_simps [simp]: "FbThreshold (setBreaker k cb fb) = FbThreshold fb" "FbCooldown (setBreaker k cb fb) = FbCooldown fb"
  "FbStore (setBreaker k cb fb) = FbStore fb" "FbPrimary (setBreaker k cb fb) = FbPrimary fb" "FbFallbacks (setBreaker k cb fb) = FbFallbacks fb"
  by (simp_all add: setBreaker_def)

lemma isTripped_open: "fst (isTripped now name fb) \<longleftrightarrow> CbTripped (breakerOf fb name) \<and> now - CbLastFailure (breakerOf fb name) < FbCooldown fb"
  by (simp add: isTripped_def breakerOf_def freshBreaker_def split: option.split)

text \<open>Failures of one provider at given instants.\<close>

fun failAt :: "'s failEnv \<Rightarrow> string \<Rightarrow> int list \<Rightarrow> 's FailoverBrain \<times> 's \<Rightarrow> 's FailoverBrain \<times> 's" where
  "failAt e name [] st = st"
| "failAt e name (t # ts) st = failAt e name ts (recordFailure (e\<lparr>FeNow := \<lambda>_. t\<rparr>) name st)"

lemma recordFailure_breaker:
  "breakerOf (fst (recordFailure e name (fb, s))) name =
    (breakerOf fb name)\<lparr>CbFailures := CbFailures (breakerOf fb name) + 1, CbLastFailure := FeNow e s,
       CbTripped := (FbThreshold fb \<le> CbFailures (breakerOf fb name) + 1 \<or> CbTripped (breakerOf fb name))\<rparr>"
  "FbThreshold (fst (recordFailure e name (fb, s))) = FbThreshold fb" "FbCooldown (fst (recordFailure e name (fb, s))) = FbCooldown fb"
  by (simp_all add: recordFailure_def Let_def breakerOf_set) (simp_all add: breakerOf_def)

lemma failAt_breaker:
  "FbThreshold (fst (failAt e name ts (fb, s))) = FbThreshold fb \<and> FbCooldown (fst (failAt e name ts (fb, s))) = FbCooldown fb \<and>
   (ts \<noteq> [] \<longrightarrow> CbLastFailure (breakerOf (fst (failAt e name ts (fb, s))) name) = last ts \<and>
     (CbTripped (breakerOf (fst (failAt e name ts (fb, s))) name) \<longleftrightarrow>
        CbTripped (breakerOf fb name) \<or> FbThreshold fb \<le> CbFailures (breakerOf fb name) + int (length ts)))"
proof (induction ts arbitrary: fb s)
  case (Cons t ts)
  define d where "d = recordFailure (e\<lparr>FeNow := \<lambda>_. t\<rparr>) name (fb, s)"
  obtain fb1 s1 where p: "d = (fb1, s1)" by (cases d)
  have b: "breakerOf fb1 name = (breakerOf fb name)\<lparr>CbFailures := CbFailures (breakerOf fb name) + 1, CbLastFailure := t,
       CbTripped := (FbThreshold fb \<le> CbFailures (breakerOf fb name) + 1 \<or> CbTripped (breakerOf fb name))\<rparr>"
    "FbThreshold fb1 = FbThreshold fb" "FbCooldown fb1 = FbCooldown fb"
    using recordFailure_breaker [of "e\<lparr>FeNow := \<lambda>_. t\<rparr>" name fb s] p unfolding d_def [symmetric] by simp_all
  have r: "failAt e name (t # ts) (fb, s) = failAt e name ts (fb1, s1)" using p by (simp add: d_def)
  show ?case
  proof (cases ts)
    case Nil
    then show ?thesis unfolding r using b by (auto simp: algebra_simps)
  next
    case (Cons u us)
    then show ?thesis unfolding r using Cons.IH [of fb1 s1] b by (auto simp: algebra_simps)
  qed
qed simp


section \<open>Who answers\<close>

definition open_at :: "'s failEnv \<Rightarrow> 's FailoverBrain \<times> 's \<Rightarrow> string \<Rightarrow> bool" where
  "open_at e st name = fst (isTripped (FeNow e (snd st)) name (fst st))"

text \<open>When the breaker of every provider is open, no provider is called, and the error wraps no error: its text ends in
  the mark the formatter leaves for a missing operand.\<close>

theorem all_open_error:
  assumes "\<forall>b\<in>set (FbPrimary (fst st) # FbFallbacks (fst st)). open_at e st (NbName b)"
  shows "FailoverRespond e sid content st = (Inl (ErrMsg ''failover: all providers failed, last error: %!w(<nil>)''), st) \<and>
    FailoverStream e sid content onChunk st = (Some (ErrMsg ''failover: all providers failed for stream, last error: %!w(<nil>)''), st)"
proof -
  obtain fb s where st: "st = (fb, s)" by (cases st)
  have keep: "isTripped now name fb = (True, fb)" if "fst (isTripped now name fb)" for now name
    using that by (auto simp: isTripped_def split: option.splits if_splits)
  have r: "respondFrom e sid content None bs st = (Inl (ErrMsg ''failover: all providers failed, last error: %!w(<nil>)''), st)"
    and t: "streamFrom e sid content onChunk None bs st = (Some (ErrMsg ''failover: all providers failed for stream, last error: %!w(<nil>)''), st)"
    if "\<forall>b\<in>set bs. open_at e st (NbName b)" for bs
    using that unfolding st by (induction bs) (simp_all add: lastError_def open_at_def keep)
  show ?thesis using r [OF assms] t [OF assms] by (simp add: FailoverRespond_def FailoverStream_def)
qed

text \<open>A stream that fails over sends twice: when the first provider has sent a part of its answer and then fails, and the
  second sends its answer and succeeds, the consumer gets the part and the whole answer in one stream, which
  reports no error.\<close>

theorem stream_repeats_after_failure:
  assumes "FbFallbacks fb = b # bs" "\<not> open_at e (fb, s) (NbName (FbPrimary fb))" "NbName b \<noteq> NbName (FbPrimary fb)"
    "\<not> CbTripped (breakerOf fb (NbName b))" "FbStore fb = None"
    "NbStream (FbPrimary fb) sid content onChunk s = (Some er, snd (onChunk partial s))" "ClassifyError (Some er) \<noteq> ErrorClassContextOverflow"
    "NbStream b sid content onChunk (snd (onChunk partial s)) = (None, snd (onChunk answer (snd (onChunk partial s))))"
  shows "\<exists>fb1. FailoverStream e sid content onChunk (fb, s) = (None, fb1, snd (onChunk answer (snd (onChunk partial s))))"
proof -
  let ?s1 = "snd (onChunk partial s)"
  obtain fb1 where t: "isTripped (FeNow e s) (NbName (FbPrimary fb)) fb = (False, fb1)" and f1: "FbStore fb1 = None" "breakerOf fb1 (NbName b) = breakerOf fb (NbName b)"
    using assms(2,3,5) by (auto simp: open_at_def isTripped_def breakerOf_set split: option.splits if_splits)
  obtain fb2 where r: "recordFailure e (NbName (FbPrimary fb)) (fb1, ?s1) = (fb2, ?s1)" and f2: "FbStore fb2 = None" "breakerOf fb2 (NbName b) = breakerOf fb (NbName b)"
    using f1 assms(3) by (auto simp: recordFailure_def Let_def persistBreakerState_def breakerOf_set)
  have "\<not> CbTripped (breakerOf fb2 (NbName b))" using f2 assms(4) by simp
  then have t2: "isTripped (FeNow e ?s1) (NbName b) fb2 = (False, fb2)" by (auto simp: isTripped_def breakerOf_def split: option.splits)
  have keeps: "snd (recordSuccess e (NbName b) (fb2, u)) = u" for u
    using f2 by (simp add: recordSuccess_def persistBreakerState_def Let_def split: option.split)
  define u where "u = snd (onChunk answer ?s1)"
  obtain fb3 where r2: "recordSuccess e (NbName b) (fb2, u) = (fb3, u)" using keeps [of u] by (metis prod.collapse)
  show ?thesis using assms(1,6-8) t r t2 r2 unfolding u_def by (simp add: FailoverStream_def)
qed

text \<open>An error about the context window is taken for one of authorization when a number in it contains 401: the request,
  which is as long for every provider, is sent to all of them.\<close>

lemma overflow_misclassified:
  "ClassifyError (Some (ErrMsg ''maximum context length is 128000 tokens, got 240122'')) = ErrorClassAuth"
  "ClassifyError (Some (ErrMsg ''maximum context length is 128000 tokens, got 240222'')) = ErrorClassContextOverflow"
  by code_simp+

section \<open>Examples\<close>

definition exProvider :: "string \<Rightarrow> (err + string) \<Rightarrow> string list namedBrain" where
  "exProvider name r = \<lparr>NbName = name, NbRespond = (\<lambda>_ _ s. (r, s)),
     NbStream = (\<lambda>_ _ f s. case r of Inr answer \<Rightarrow> (None, snd (f answer s)) | Inl er \<Rightarrow> (Some er, snd (f ''partial'' s)))\<rparr>"

definition exFailover :: "string list FailoverBrain" where
  "exFailover = NewFailoverBrain (exProvider ''a'' (Inl (ErrMsg ''timeout''))) [exProvider ''b'' (Inr ''answer'')] 2 0"

definition exClock :: "int \<Rightarrow> string list failEnv" where
  "exClock t = \<lparr>FeNow = (\<lambda>_. t), FeEncode = (\<lambda>_. None), FeDecode = (\<lambda>_. None)\<rparr>"

lemma exFailover_simps: "FbPrimary exFailover = exProvider ''a'' (Inl (ErrMsg ''timeout''))" "FbFallbacks exFailover = [exProvider ''b'' (Inr ''answer'')]"
  "FbBreakers exFailover = [(''a'', freshBreaker), (''b'', freshBreaker)]" "FbThreshold exFailover = 2" "FbCooldown exFailover = 5 * 60 * 10^9" "FbStore exFailover = None"
  by (simp_all add: exFailover_def NewFailoverBrain_def exProvider_def)


definition exOpen :: "string list FailoverBrain" where
  "exOpen = exFailover\<lparr>FbBreakers := [(''a'', \<lparr>CbFailures = 2, CbLastFailure = 9, CbTripped = True\<rparr>), (''b'', \<lparr>CbFailures = 2, CbLastFailure = 9, CbTripped = True\<rparr>)]\<rparr>"

theorem all_open_error_witness:
  "fst (FailoverRespond (exClock 10) ''s'' ''hi'' (exOpen, [])) = Inl (ErrMsg ''failover: all providers failed, last error: %!w(<nil>)'')"
proof -
  have "\<forall>b\<in>set (FbPrimary (fst (exOpen, [] :: string list)) # FbFallbacks (fst (exOpen, [] :: string list))). open_at (exClock 10) (exOpen, []) (NbName b)"
    by (simp add: exOpen_def exFailover_simps exProvider_def open_at_def isTripped_def exClock_def)
  from all_open_error [OF this] show ?thesis by simp
qed

theorem stream_repeats_after_failure_witness:
  "\<exists>fb1. FailoverStream (exClock 10) ''s'' ''hi'' (\<lambda>c s. (None, s @ [c])) (exFailover, []) = (None, fb1, [''partial'', ''answer''])"
proof -
  have c: "ClassifyError (Some (ErrMsg ''timeout'')) \<noteq> ErrorClassContextOverflow" by code_simp
  show ?thesis
    using stream_repeats_after_failure [of exFailover "exProvider ''b'' (Inr ''answer'')" "[]" "exClock 10" "[]" "''s''" "''hi''" "\<lambda>c s. (None, s @ [c])"
        "ErrMsg ''timeout''" "''partial''" "''answer''"] c
    by (simp add: exFailover_simps exProvider_def open_at_def isTripped_def exClock_def breakerOf_def freshBreaker_def)
qed
end
