(* ===== verification/Workspace.thy ===== *)
theory Workspace
  imports Host_Tools
begin

text \<open>
  The workspace in which agents keep files (\<open>internal/memory/workspace.go\<close>) with its tools
  (\<open>internal/tools/memory.go\<close>), over the file tree of the host tools. Its paths are confined to a root directory;
  links are resolved by \<open>evalSymlinks\<close>. \<open>wsTemp d t\<close> is the file that \<open>os.CreateTemp\<close> picks in a directory. Letters are
  folded in ASCII only.
\<close>

section \<open>Paths\<close>

record FileInfo =
  FiName :: string
  FiIsDir :: bool
  FiSize :: int

record SearchHit =
  ShPath :: string
  ShLine :: nat
  ShContent :: string

record wsEnv =
  wsFile :: fileEnv
  wsTemp :: "string \<Rightarrow> fsTree \<Rightarrow> string"

definition wsMaxReadBytes :: nat where "wsMaxReadBytes = 1024 * 1024"
definition wsMaxListEntries :: nat where "wsMaxListEntries = 500"
definition maxSearchDepth :: nat where "maxSearchDepth = 3"
definition maxSearchHits :: nat where "maxSearchHits = 100"

text \<open>The root directory and the tree in which it exists.\<close>

definition NewWorkspace :: "wsEnv \<Rightarrow> string \<Rightarrow> fsTree \<Rightarrow> (err + string) \<times> fsTree" where
  "NewWorkspace w rootDir t =
    (case AbsPath (getwd (feOs (wsFile w) t)) rootDir of
       None \<Rightarrow> (Inl (ErrWrap ''memory: resolve root'' (ErrMsg ''getwd'')), t)
     | Some a \<Rightarrow> (case osMkdirAll (wsFile w) a t of
          (Some e, t1) \<Rightarrow> (Inl (ErrWrap ''memory: create root dir'' e), t1)
        | (None, t1) \<Rightarrow> (case evalSymlinks (feOs (wsFile w) t1) a of
             None \<Rightarrow> (Inl (ErrWrap ''memory: eval symlinks on root'' noSuchFile), t1)
           | Some resolved \<Rightarrow> (Inr resolved, t1))))"

text \<open>The components of the path come last first.\<close>

fun evalSymlinksPartial :: "os \<Rightarrow> string list \<Rightarrow> string option" where
  "evalSymlinksPartial os [] = evalSymlinks os (absolute [])"
| "evalSymlinksPartial os (c # cs) = (case evalSymlinks os (absolute (rev (c # cs))) of
     Some r \<Rightarrow> Some r | None \<Rightarrow> map_option (\<lambda>r. JoinPath r c) (evalSymlinksPartial os cs))"

definition wsFull :: "string \<Rightarrow> string \<Rightarrow> string" where
  "wsFull rootd path = (let cleaned = Clean path in if hd cleaned = slash then cleaned else JoinPath rootd cleaned)"

definition wsResolve :: "wsEnv \<Rightarrow> string \<Rightarrow> string \<Rightarrow> fsTree \<Rightarrow> err + string" where
  "wsResolve w rootd path t =
    (if path = '''' then Inl (ErrMsg ''memory: empty path'')
     else case AbsPath (getwd (feOs (wsFile w) t)) (wsFull rootd path) of
       None \<Rightarrow> Inl (ErrWrap ''memory: resolve path'' (ErrMsg ''getwd''))
     | Some a \<Rightarrow>
        (case (case evalSymlinks (feOs (wsFile w) t) a of Some r \<Rightarrow> Some r | None \<Rightarrow> evalSymlinksPartial (feOs (wsFile w) t) (rev (comps a))) of
           None \<Rightarrow> Inl (ErrWrap ''memory: resolve symlinks'' (ErrMsg (''no existing ancestor for '' @ a)))
         | Some resolved \<Rightarrow> if withinRoot resolved rootd then Inr resolved else Inl (ErrMsg (''memory: path traversal blocked: '' @ path))))"

section \<open>Files\<close>

definition wsRead :: "wsEnv \<Rightarrow> string \<Rightarrow> string \<Rightarrow> fsTree \<Rightarrow> err + string" where
  "wsRead w rootd path t = (case wsResolve w rootd path t of Inl e \<Rightarrow> Inl e
   | Inr resolved \<Rightarrow> (case osStat (wsFile w) resolved t of
        Inl e \<Rightarrow> Inl (ErrWrap ''memory: stat'' e)
      | Inr (FileNode c) \<Rightarrow>
          if wsMaxReadBytes < length c
          then Inl (ErrMsg (''memory: file too large: '' @ itoa (int (length c)) @ '' bytes (max '' @ itoa (int wsMaxReadBytes) @ '')''))
          else (case osReadFile (wsFile w) resolved t of Inl e \<Rightarrow> Inl (ErrWrap ''memory: read'' e) | Inr s \<Rightarrow> Inr s)
      | Inr _ \<Rightarrow> Inl (ErrMsg ''memory: path is a directory'')))"

definition wsMkdir :: "wsEnv \<Rightarrow> string \<Rightarrow> string \<Rightarrow> fsTree \<Rightarrow> (err + string) \<times> fsTree" where
  "wsMkdir w rootd path t = (case wsResolve w rootd path t of Inl e \<Rightarrow> (Inl e, t)
   | Inr resolved \<Rightarrow> (case osMkdirAll (wsFile w) (Dir resolved) t of
        (Some e, t1) \<Rightarrow> (Inl (ErrWrap ''memory: mkdir'' e), t1) | (None, t1) \<Rightarrow> (Inr resolved, t1)))"

text \<open>A temporary file is created, filled, closed and renamed; a failure after its creation removes it.\<close>

definition wsReplace :: "wsEnv \<Rightarrow> string \<Rightarrow> string \<Rightarrow> fsTree \<Rightarrow> (err + unit) \<times> fsTree" where
  "wsReplace w resolved content t =
    (let fe = wsFile w; tmp = wsTemp w (Dir resolved) t in
     case feErr fe ''create'' tmp of Some e \<Rightarrow> (Inl (ErrWrap ''memory: create temp'' e), t)
     | None \<Rightarrow> (case feErr fe ''write'' tmp of
          Some e \<Rightarrow> (Inl (ErrWrap ''memory: write temp'' e), osRemove fe tmp (AList.update tmp (FileNode (coalesce (fePartial fe tmp content) [])) t))
        | None \<Rightarrow>
           (let t1 = AList.update tmp (FileNode content) t in
            case feErr fe ''close'' tmp of
              Some e \<Rightarrow> (Inl (ErrWrap ''memory: close temp'' e), osRemove fe tmp t1)
            | None \<Rightarrow> (case osRename fe tmp resolved t1 of
                (Some e, t2) \<Rightarrow> (Inl (ErrWrap ''memory: rename'' e), osRemove fe tmp t2)
              | (None, t2) \<Rightarrow> (Inr (), t2)))))"

definition wsWrite :: "wsEnv \<Rightarrow> string \<Rightarrow> string \<Rightarrow> string \<Rightarrow> fsTree \<Rightarrow> (err + unit) \<times> fsTree" where
  "wsWrite w rootd path content t = (case wsMkdir w rootd path t of
     (Inl e, t1) \<Rightarrow> (Inl e, t1) | (Inr resolved, t1) \<Rightarrow> wsReplace w resolved content t1)"

text \<open>\<open>os.OpenFile\<close> with \<open>O_APPEND|O_CREATE|O_WRONLY\<close>, which follows links, and the write.\<close>

definition osAppend :: "fileEnv \<Rightarrow> string \<Rightarrow> string \<Rightarrow> fsTree \<Rightarrow> (err + unit) \<times> fsTree" where
  "osAppend fe p content t =
    (let q = realPath fe t p; old = (case map_of t q of Some (FileNode c) \<Rightarrow> c | _ \<Rightarrow> []) in
     if map_of t q = Some DirNode then (Inl (ErrWrap ''memory: open append'' (ErrMsg ''is a directory'')), t)
     else case feErr fe ''open'' p of Some e \<Rightarrow> (Inl (ErrWrap ''memory: open append'' e), t)
     | None \<Rightarrow> (case feErr fe ''append'' p of
          Some e \<Rightarrow> (Inl (ErrWrap ''memory: append'' e), AList.update q (FileNode (old @ coalesce (fePartial fe p content) [])) t)
        | None \<Rightarrow> (Inr (), AList.update q (FileNode (old @ content)) t)))"

definition wsAppend :: "wsEnv \<Rightarrow> string \<Rightarrow> string \<Rightarrow> string \<Rightarrow> fsTree \<Rightarrow> (err + unit) \<times> fsTree" where
  "wsAppend w rootd path content t = (case wsMkdir w rootd path t of
     (Inl e, t1) \<Rightarrow> (Inl e, t1) | (Inr resolved, t1) \<Rightarrow> osAppend (wsFile w) resolved content t1)"

definition wsList :: "wsEnv \<Rightarrow> string \<Rightarrow> string \<Rightarrow> fsTree \<Rightarrow> err + FileInfo list" where
  "wsList w rootd dir t = (case wsResolve w rootd dir t of Inl e \<Rightarrow> Inl e
   | Inr resolved \<Rightarrow>
      let fe = wsFile w; d = realPath fe t resolved in
      (case feErr fe ''readdir'' resolved of Some e \<Rightarrow> Inl (ErrWrap ''memory: read dir'' e)
       | None \<Rightarrow> (case map_of t d of
           Some DirNode \<Rightarrow> Inr (map (\<lambda>x. \<lparr>FiName = DeName x, FiIsDir = DeIsDir x, FiSize = DeSize x\<rparr>) (take wsMaxListEntries (dirEntries fe d t)))
         | Some _ \<Rightarrow> Inl (ErrWrap ''memory: read dir'' (ErrMsg ''not a directory''))
         | None \<Rightarrow> Inl (ErrWrap ''memory: read dir'' noSuchFile))))"

definition wsDelete :: "wsEnv \<Rightarrow> string \<Rightarrow> string \<Rightarrow> fsTree \<Rightarrow> (err + unit) \<times> fsTree" where
  "wsDelete w rootd path t = (case wsResolve w rootd path t of Inl e \<Rightarrow> (Inl e, t)
   | Inr resolved \<Rightarrow> (case osStat (wsFile w) resolved t of
        Inl e \<Rightarrow> (Inl (ErrWrap ''memory: stat'' e), t)
      | Inr DirNode \<Rightarrow> (Inl (ErrMsg ''memory: cannot delete directory''), t)
      | Inr _ \<Rightarrow> (case feErr (wsFile w) ''remove'' resolved of
           Some e \<Rightarrow> (Inl (ErrWrap ''memory: remove'' e), t)
         | None \<Rightarrow> (Inr (), AList.delete resolved t))))"

section \<open>Search\<close>

definition wsTruncate :: "string \<Rightarrow> nat \<Rightarrow> string" where
  "wsTruncate s maxLen = (if length s \<le> maxLen then s else take maxLen s @ ''...'')"

definition utf8Cont :: "char \<Rightarrow> bool" where
  "utf8Cont c \<longleftrightarrow> 128 \<le> (of_char c :: nat) \<and> (of_char c :: nat) < 192"

text \<open>\<open>utf8.ValidString\<close>.\<close>

function validUtf8 :: "string \<Rightarrow> bool" where
  "validUtf8 [] = True"
| "validUtf8 (c # cs) =
    (let b = (of_char c :: nat); tail = (\<lambda>n. length cs \<ge> n \<and> list_all utf8Cont (take n cs)); second = (of_char (hd cs) :: nat) in
     if b < 128 then validUtf8 cs
     else if 194 \<le> b \<and> b < 224 then tail 1 \<and> validUtf8 (drop 1 cs)
     else if 224 \<le> b \<and> b < 240 then tail 2 \<and> (b = 224 \<longrightarrow> 160 \<le> second) \<and> (b = 237 \<longrightarrow> second < 160) \<and> validUtf8 (drop 2 cs)
     else if 240 \<le> b \<and> b < 245 then tail 3 \<and> (b = 240 \<longrightarrow> 144 \<le> second) \<and> (b = 244 \<longrightarrow> second < 144) \<and> validUtf8 (drop 3 cs)
     else False)"
  by pat_completeness auto
termination by (relation "measure length") auto

text \<open>What \<open>bufio.Scanner\<close> returns: lines without their ends, up to the first that does not fit its buffer.\<close>

definition scanLimit :: nat where
  "scanLimit = 64 * 1024"

definition dropCR :: "string \<Rightarrow> string" where
  "dropCR s = (if s \<noteq> [] \<and> last s = CHR 0x0D then butlast s else s)"

definition scannedLines :: "string \<Rightarrow> string list" where
  "scannedLines content =
    (let parts = splitAt (CHR 0x0A) content; ls = (if last parts = [] then butlast parts else parts)
     in map dropCR (takeWhile (\<lambda>l. length l < scanLimit) ls))"

text \<open>The lines of one file: the hits so far, and whether the search is over. Invalid text ends the file.\<close>

fun searchLines :: "string \<Rightarrow> string \<Rightarrow> nat \<Rightarrow> string list \<Rightarrow> SearchHit list \<Rightarrow> SearchHit list \<times> bool" where
  "searchLines rel q n [] hits = (hits, False)"
| "searchLines rel q n (l # ls) hits =
    (if \<not> validUtf8 l then (hits, False)
     else if contains (toLower l) q
       then (let hits1 = hits @ [\<lparr>ShPath = rel, ShLine = Suc n, ShContent = wsTruncate l 200\<rparr>] in
             if maxSearchHits \<le> length hits1 then (hits1, True) else searchLines rel q (Suc n) ls hits1)
     else searchLines rel q (Suc n) ls hits)"

definition childrenOf :: "string \<Rightarrow> fsTree \<Rightarrow> (string \<times> fsNode) list" where
  "childrenOf d t = sort_key (\<lambda>(p, n). map of_char (Base p) :: nat list) (filter (\<lambda>(p, n). Dir p = d \<and> p \<noteq> d) t)"

definition relPath :: "string \<Rightarrow> string \<Rightarrow> string" where
  "relPath rootd p = joinWith slash (drop (length (comps rootd)) (comps p))"

definition searchFile :: "wsEnv \<Rightarrow> fsTree \<Rightarrow> string \<Rightarrow> string \<Rightarrow> string \<Rightarrow> fsNode \<Rightarrow> SearchHit list \<Rightarrow> SearchHit list \<times> bool" where
  "searchFile w t rootd q p node hits =
    (let fe = wsFile w; size = (case node of FileNode c \<Rightarrow> int (length c) | _ \<Rightarrow> feSize fe p) in
     if feErr fe ''lstat'' p \<noteq> None \<or> int wsMaxReadBytes < size then (hits, False)
     else case osReadFile fe p t of Inl _ \<Rightarrow> (hits, False)
       | Inr content \<Rightarrow> searchLines (relPath rootd p) q 0 (scannedLines content) hits)"

text \<open>\<open>filepath.WalkDir\<close> with the function of \<open>Search\<close>. The first argument bounds the depth still to go; directories
  below the third level are skipped, so five levels are enough.\<close>

primrec walk :: "nat \<Rightarrow> wsEnv \<Rightarrow> fsTree \<Rightarrow> string \<Rightarrow> string \<Rightarrow> nat \<Rightarrow> string \<times> fsNode \<Rightarrow> SearchHit list \<times> bool \<Rightarrow> SearchHit list \<times> bool" where
  "walk 0 w t rootd q depth entry st = st"
| "walk (Suc n) w t rootd q depth entry st =
    (if snd st then st
     else if maxSearchHits \<le> length (fst st) then (fst st, True)
     else if snd entry = DirNode
       then (if maxSearchDepth < depth \<or> feErr (wsFile w) ''readdir'' (fst entry) \<noteq> None then st
             else fold (walk n w t rootd q (Suc depth)) (childrenOf (fst entry) t) st)
     else if maxSearchDepth < depth then st
     else searchFile w t rootd q (fst entry) (snd entry) (fst st))"

definition wsSearch :: "wsEnv \<Rightarrow> string \<Rightarrow> string \<Rightarrow> fsTree \<Rightarrow> err + SearchHit list" where
  "wsSearch w rootd query t =
    (if query = '''' then Inl (ErrMsg ''memory: empty search query'')
     else case map_of t rootd of None \<Rightarrow> Inr []
       | Some node \<Rightarrow> Inr (fst (walk 5 w t rootd (toLower query) 0 (rootd, node) ([], False))))"

section \<open>The tools\<close>

record MemoryWriteInput =
  MwPath :: string
  MwContent :: string
  MwAppend :: bool

definition workspaceRoot :: "(string \<Rightarrow> string) \<Rightarrow> string" where
  "workspaceRoot getenv =
    (let home0 = getenv ''GOCLAW_HOME''; home = (if home0 = '''' then JoinPath (getenv ''HOME'') ''.goclaw'' else home0)
     in JoinPath home ''workspace'')"

text \<open>The beginning of a memory tool, then an operation on the workspace.\<close>

definition memoryTool :: "'x host_store_scheme toolReg \<Rightarrow> wsEnv \<Rightarrow> string \<Rightarrow> string \<Rightarrow> string \<Rightarrow> string \<Rightarrow> (string \<Rightarrow> fsTree \<Rightarrow> (err + 'a) \<times> fsTree) \<Rightarrow>
    'x host_store_scheme \<Rightarrow> (err + 'a) \<times> 'x host_store_scheme" where
  "memoryTool r w rootDir capability tool subject f =
    bindS (publishToolCall r tool) (\<lambda>_.
    bindS (policyGate (rgPolicy r) capability tool) (\<lambda>pv.
    bindS (recordAudit ''allow'' capability ''capability_granted'' pv subject) (\<lambda>_.
    (\<lambda>s. case NewWorkspace w rootDir (fsys s) of
        (Inl e, t) \<Rightarrow> (Inl (ErrWrap ''memory workspace'' e), s\<lparr>fsys := t\<rparr>)
      | (Inr rootd, t) \<Rightarrow> (case f rootd t of (res, t1) \<Rightarrow> (res, s\<lparr>fsys := t1\<rparr>))))))"

definition memoryRead :: "'x host_store_scheme toolReg \<Rightarrow> wsEnv \<Rightarrow> string \<Rightarrow> string \<Rightarrow> 'x host_store_scheme \<Rightarrow> (err + string) \<times> 'x host_store_scheme" where
  "memoryRead r w rootDir path = memoryTool r w rootDir ''tools.memory_read'' ''memory_read'' path (\<lambda>rootd t. (wsRead w rootd path t, t))"

definition memoryWrite :: "'x host_store_scheme toolReg \<Rightarrow> wsEnv \<Rightarrow> string \<Rightarrow> MemoryWriteInput \<Rightarrow> 'x host_store_scheme \<Rightarrow> (err + unit) \<times> 'x host_store_scheme" where
  "memoryWrite r w rootDir input = memoryTool r w rootDir ''tools.memory_write'' ''memory_write'' (MwPath input)
     (\<lambda>rootd. (if MwAppend input then wsAppend else wsWrite) w rootd (MwPath input) (MwContent input))"

definition memorySearch :: "'x host_store_scheme toolReg \<Rightarrow> wsEnv \<Rightarrow> string \<Rightarrow> string \<Rightarrow> 'x host_store_scheme \<Rightarrow> (err + SearchHit list) \<times> 'x host_store_scheme" where
  "memorySearch r w rootDir query = memoryTool r w rootDir ''tools.memory_read'' ''memory_search'' query (\<lambda>rootd t. (wsSearch w rootd query t, t))"

section \<open>Paths of plain components\<close>

lemma splitAt_mid: "splitAt x (a @ x # b) = splitAt x a @ splitAt x b"
  by (induction a) (auto split: list.splits)

lemma cleanSteps_all_plain: "list_all plain ps \<Longrightarrow> foldl (cleanStep True) st ps = rev ps @ st"
  by (induction ps arbitrary: st) (auto simp: cleanStep_def plain_def)

lemma absolute_snoc: "ps \<noteq> [] \<Longrightarrow> absolute (ps @ [c]) = absolute ps @ slash # c"
  by (cases ps) (simp_all add: absolute_def joinWith_def)

lemma splitAt_absolute: "list_all plain ps \<Longrightarrow> ps \<noteq> [] \<Longrightarrow> splitAt slash (absolute ps) = [] # ps"
  using splitAt_join [of ps slash] splitAt_append [of slash "[]"] by (auto simp: absolute_def list_all_iff plain_def)

lemma Clean_absolute_plain: "list_all plain ps \<Longrightarrow> Clean (absolute ps) = absolute ps"
proof (cases "ps = []")
  case True
  then show ?thesis by (simp add: Clean_def absolute_def joinWith_def slash_def cleanStep_def)
next
  case False
  assume "list_all plain ps"
  then show ?thesis using splitAt_absolute False cleanSteps_all_plain [of ps "[]"]
    by (simp add: Clean_def cleanStep_def) (simp add: absolute_def)
qed

lemma JoinPath_plain:
  assumes "list_all plain ps" and "plain c"
  shows "JoinPath (absolute ps) c = absolute (ps @ [c])"
proof -
  have c: "c \<noteq> []" "slash \<notin> set c" using assms(2) by (simp_all add: plain_def)
  have j: "JoinPath (absolute ps) c = Clean (absolute ps @ slash # c)" using c by (simp add: JoinPath_def absolute_def)
  show ?thesis
  proof (cases "ps = []")
    case True
    have "splitAt slash (slash # slash # c) = [[], [], c]" using splitAt_single [OF c(2)] by simp
    then show ?thesis using True j assms(2) c by (simp add: Clean_def absolute_def joinWith_def cleanStep_def plain_def)
  next
    case False
    then show ?thesis unfolding j using absolute_snoc [OF False, of c] Clean_absolute_plain [of "ps @ [c]"] assms by simp
  qed
qed

lemma Dir_plain:
  assumes "list_all plain ps" and "plain c"
  shows "Dir (absolute (ps @ [c])) = absolute ps"
proof -
  have c: "slash \<notin> set c" using assms(2) by (simp add: plain_def)
  have cut: "cutLast slash (p @ slash # c) = Some (p, c)" for p
  proof -
    have t: "takeWhile (\<lambda>x. x \<noteq> slash) (rev c) = rev c" "dropWhile (\<lambda>x. x \<noteq> slash) (rev c) = []" using c by (auto simp: takeWhile_eq_all_conv)
    then show ?thesis using c by (simp add: cutLast_def takeWhile_append dropWhile_append)
  qed
  show ?thesis
  proof (cases "ps = []")
    case True
    then show ?thesis using cut [of "[]"] by (simp add: Dir_def absolute_def joinWith_def Clean_def cleanStep_def slash_def)
  next
    case False
    have "Clean (absolute ps @ [slash]) = absolute ps"
    proof -
      have "splitAt slash (absolute ps @ [slash]) = ([] # ps) @ [[]]"
        using splitAt_absolute [OF assms(1) False] splitAt_mid [of slash "absolute ps" "[]"] by simp
      then show ?thesis using cleanSteps_all_plain [OF assms(1), of "[]"] by (simp add: Clean_def cleanStep_def) (simp add: absolute_def)
    qed
    then show ?thesis using absolute_snoc [OF False, of c] cut [of "absolute ps"] by (simp add: Dir_def)
  qed
qed

lemma isAbsolute_comps: "isAbsolute r \<Longrightarrow> r = absolute (comps r) \<and> list_all plain (comps r)"
  using comps_absolute by (auto simp: isAbsolute_def)

lemma isAbsoluteI: "list_all plain ps \<Longrightarrow> isAbsolute (absolute ps)"
  by (auto simp: isAbsolute_def)

section \<open>What the workspace touches\<close>

text \<open>How links are resolved in a tree: a resolved path is absolute, clean and leads nowhere else; a path below one that
  resolves is looked up below the result, and below one that does not resolve there is nothing; a link that does not
  resolve leads to nothing.\<close>

definition links_ok :: "os \<Rightarrow> fsTree \<Rightarrow> bool" where
  "links_ok os t \<longleftrightarrow> sane os \<and>
     (\<forall>p q. isAbsolute p \<longrightarrow> evalSymlinks os p = Some q \<longrightarrow> evalSymlinks os q = Some q) \<and>
     (\<forall>p q c. isAbsolute p \<longrightarrow> evalSymlinks os p = Some q \<longrightarrow> plain c \<longrightarrow> evalSymlinks os (JoinPath p c) = evalSymlinks os (JoinPath q c)) \<and>
     (\<forall>p c. isAbsolute p \<longrightarrow> evalSymlinks os p = None \<longrightarrow> plain c \<longrightarrow> evalSymlinks os (JoinPath p c) = None) \<and>
     (\<forall>p q. isAbsolute p \<longrightarrow> evalSymlinks os p = None \<longrightarrow> map_of t p = Some (LinkNode q) \<longrightarrow> map_of t q = None)"

lemma sane_resolves: "sane os \<Longrightarrow> isAbsolute p \<Longrightarrow> evalSymlinks os p = Some r \<Longrightarrow> isAbsolute r"
  unfolding sane_def isAbsolute_def absolute_def by (auto simp: prefix_def)

lemma links_idem:
  assumes "links_ok os t" "isAbsolute p" "evalSymlinks os p = Some r"
  shows "isAbsolute r \<and> evalSymlinks os r = Some r"
proof -
  have "sane os" using assms(1) unfolding links_ok_def by blast
  moreover have "evalSymlinks os r = Some r" using assms unfolding links_ok_def by blast
  ultimately show ?thesis using sane_resolves assms(2,3) by blast
qed

lemma partial_resolves:
  assumes "links_ok os t"
  shows "list_all plain cs \<Longrightarrow> evalSymlinksPartial os cs = Some r \<Longrightarrow> isAbsolute r \<and> evalSymlinks os r = evalSymlinks os (absolute (rev cs))"
proof (induction cs arbitrary: r)
  case Nil
  have "isAbsolute (absolute [])" by (auto simp: isAbsolute_def)
  with Nil show ?case using links_idem [OF assms, of "absolute []" r] by simp
next
  case (Cons c cs)
  have abs: "isAbsolute (absolute (rev (c # cs)))" "isAbsolute (absolute (rev cs))" 
    using Cons.prems(1) by (intro isAbsoluteI; simp add: list_all_iff)+
  have j: "absolute (rev (c # cs)) = JoinPath (absolute (rev cs)) c" using JoinPath_plain [of "rev cs" c] Cons.prems(1) by (simp add: list_all_iff)
  show ?case
  proof (cases "evalSymlinks os (absolute (rev (c # cs)))")
    case (Some q)
    then show ?thesis using Cons.prems(2) links_idem [OF assms abs(1) Some] by simp
  next
    case None
    then obtain r1 where r1: "evalSymlinksPartial os cs = Some r1" "r = JoinPath r1 c" using Cons.prems(2) by auto
    then have ih: "isAbsolute r1" "evalSymlinks os r1 = evalSymlinks os (absolute (rev cs))" using Cons by auto
    have c: "plain c" using Cons.prems(1) by simp
    have "JoinPath r1 c = absolute (comps r1 @ [c])" using isAbsolute_comps [OF ih(1)] JoinPath_plain [of "comps r1" c] c by metis
    then have "isAbsolute r" unfolding r1(2) using isAbsolute_comps [OF ih(1)] c by (simp add: isAbsoluteI)
    moreover have "evalSymlinks os r = None"
    proof (cases "evalSymlinks os (absolute (rev cs))")
      case None
      then show ?thesis using assms ih c unfolding r1(2) by (simp add: links_ok_def)
    next
      case (Some u)
      have "evalSymlinks os (JoinPath (absolute (rev cs)) c) = evalSymlinks os (JoinPath u c)" using assms abs(2) Some c unfolding links_ok_def by blast
      moreover have "evalSymlinks os (JoinPath r1 c) = evalSymlinks os (JoinPath u c)" using assms ih(1) Some ih(2) c unfolding links_ok_def by metis
      ultimately show ?thesis using None j unfolding r1(2) by simp
    qed
    ultimately show ?thesis using None by simp
  qed
qed

lemma wsFull_absolute: "isAbsolute rootd \<Longrightarrow> sane os \<Longrightarrow> AbsPath (getwd os) (wsFull rootd path) = Some a \<Longrightarrow> isAbsolute a"
  using AbsPath_absolute by blast

lemma wsResolve_inside:
  assumes "links_ok (feOs (wsFile w) t) t" "wsResolve w rootd path t = Inr r"
  shows "isAbsolute r \<and> withinRoot r rootd \<and> (evalSymlinks (feOs (wsFile w) t) r = Some r \<or> evalSymlinks (feOs (wsFile w) t) r = None)"
proof -
  let ?os = "feOs (wsFile w) t"
  have sane: "sane ?os" using assms(1) by (simp add: links_ok_def)
  obtain a where a: "AbsPath (getwd ?os) (wsFull rootd path) = Some a" and w: "withinRoot r rootd"
    and r: "(case evalSymlinks ?os a of Some q \<Rightarrow> Some q | None \<Rightarrow> evalSymlinksPartial ?os (rev (comps a))) = Some r"
    using assms(2) by (auto simp: wsResolve_def Let_def split: if_splits option.splits)
  have abs: "isAbsolute a" using AbsPath_absolute [OF sane a] .
  show ?thesis
  proof (cases "evalSymlinks ?os a")
    case (Some q)
    then show ?thesis using r w links_idem [OF assms(1) abs Some] by simp
  next
    case None
    have "isAbsolute r \<and> evalSymlinks ?os r = evalSymlinks ?os (absolute (rev (rev (comps a))))"
      using None r isAbsolute_comps [OF abs] by (intro partial_resolves [OF assms(1)]) (auto simp: list_all_iff)
    then show ?thesis using None w isAbsolute_comps [OF abs] by simp
  qed
qed

text \<open>C40. Whatever a read of the workspace returns is the content of a file inside its root, however the path was written and
  wherever links lead.\<close>

theorem workspace_read_confined:
  assumes "links_ok (feOs (wsFile w) t) t" "wsRead w rootd path t = Inr content"
  shows "\<exists>q. withinRoot q rootd \<and> map_of t q = Some (FileNode content)"
proof -
  let ?os = "feOs (wsFile w) t"
  obtain r where r: "wsResolve w rootd path t = Inr r" and rd: "osReadFile (wsFile w) r t = Inr content"
    using assms(2) by (auto simp: wsRead_def split: sum.splits fsNode.splits if_splits)
  have i: "isAbsolute r" "withinRoot r rootd" "evalSymlinks ?os r = Some r \<or> evalSymlinks ?os r = None" using wsResolve_inside [OF assms(1) r] by auto
  have m: "map_of t (realPath (wsFile w) t r) = Some (FileNode content)" using rd by (auto simp: osReadFile_def split: option.splits fsNode.splits)
  have "map_of t q = None" if "evalSymlinks ?os r = None" "map_of t r = Some (LinkNode q)" for q
    using assms(1) i(1) that unfolding links_ok_def by blast
  then have "realPath (wsFile w) t r = r" using i(3) m by (auto simp: realPath_def split: option.splits fsNode.splits)
  then show ?thesis using m i(2) by metis
qed
text \<open>The root and the directories above it exist and are no links; a temporary file is a new file of its directory.\<close>

definition root_ok :: "wsEnv \<Rightarrow> string \<Rightarrow> fsTree \<Rightarrow> bool" where
  "root_ok w rootd t \<longleftrightarrow> isAbsolute rootd \<and> comps rootd \<noteq> [] \<and> (\<forall>d\<in>set (ancestors rootd). map_of t (realPath (wsFile w) t d) = Some DirNode)"

definition temp_ok :: "wsEnv \<Rightarrow> bool" where
  "temp_ok w \<longleftrightarrow> (\<forall>d t. isAbsolute d \<longrightarrow> (\<exists>c. plain c \<and> wsTemp w d t = JoinPath d c \<and> map_of t (wsTemp w d t) = None))"

lemma mkdirs_skip: "\<forall>d\<in>set as. map_of t (realPath fe t d) = Some DirNode \<Longrightarrow> mkdirs fe (as @ bs) t = mkdirs fe bs t"
  by (induction as) simp_all

lemma mkdirs_only: "mkdirs fe ds t = (e, t1) \<Longrightarrow> q \<notin> set ds \<Longrightarrow> map_of t1 q = map_of t q"
proof (induction ds arbitrary: t)
  case (Cons d ds)
  show ?case
  proof (cases "map_of t (realPath fe t d)")
    case None
    then show ?thesis using Cons by (auto simp: map_of_updates split: option.splits if_splits)
  next
    case (Some n)
    then show ?thesis using Cons by (cases n) auto
  qed
qed simp

lemma withinRoot_prefix:
  assumes "list_all plain rs" "list_all plain qs" "rs \<noteq> []"
  shows "withinRoot (absolute qs) (absolute rs) \<longleftrightarrow> prefix rs qs"
  using inside_iff [OF assms] by (simp add: withinRoot_def hasPrefix_def)

lemma ancestors_absolute: "list_all plain qs \<Longrightarrow> ancestors (absolute qs) = map (\<lambda>k. absolute (take k qs)) [0..<Suc (length qs)]"
  by (simp add: ancestors_def comps_absolute)

lemma mkdirAll_inside:
  assumes "root_ok w rootd t" "isAbsolute r" "withinRoot r rootd" "osMkdirAll (wsFile w) r t = (e, t1)" "\<not> withinRoot q rootd"
  shows "map_of t1 q = map_of t q"
proof -
  obtain rs where rs: "rootd = absolute rs" "list_all plain rs" "rs \<noteq> []" using assms(1) comps_absolute by (auto simp: root_ok_def isAbsolute_def)
  obtain qs where qs: "r = absolute qs" "list_all plain qs" using assms(2) by (auto simp: isAbsolute_def)
  then obtain us where us: "qs = rs @ us" using withinRoot_prefix [OF rs(2) qs(2) rs(3)] assms(3) rs(1) by (auto simp: prefix_def)
  have split: "ancestors r = ancestors rootd @ map (\<lambda>k. absolute (take k qs)) [Suc (length rs)..<Suc (length qs)]"
  proof -
    have "[0..<Suc (length qs)] = [0..<Suc (length rs)] @ [Suc (length rs)..<Suc (length qs)]"
      using upt_add_eq_append [of 0 "Suc (length rs)" "length us"] by (simp add: us)
    moreover have "map (\<lambda>k. absolute (take k qs)) [0..<Suc (length rs)] = map (\<lambda>k. absolute (take k rs)) [0..<Suc (length rs)]"
      by (rule map_cong) (auto simp: us)
    ultimately show ?thesis unfolding qs(1) rs(1) ancestors_absolute [OF qs(2)] ancestors_absolute [OF rs(2)] by simp
  qed
  have m: "mkdirs (wsFile w) (map (\<lambda>k. absolute (take k qs)) [Suc (length rs)..<Suc (length qs)]) t = (e, t1)"
    using assms(1,4) unfolding osMkdirAll_def split root_ok_def by (simp add: mkdirs_skip)
  have "q \<notin> set (map (\<lambda>k. absolute (take k qs)) [Suc (length rs)..<Suc (length qs)])"
  proof
    assume "q \<in> set (map (\<lambda>k. absolute (take k qs)) [Suc (length rs)..<Suc (length qs)])"
    then obtain k where "k \<in> set [Suc (length rs)..<Suc (length qs)]" and k1: "q = absolute (take k qs)" unfolding set_map by blast
    then have k: "q = absolute (take k qs)" "length rs < k" by (blast, auto)
    have "prefix rs (take k qs)" using k(2) by (simp add: us)
    moreover have "list_all plain (take k qs)" using qs(2) by (auto simp: list_all_iff dest: in_set_takeD)
    ultimately show False using assms(5) withinRoot_prefix [OF rs(2) _ rs(3)] rs(1) k(1) by blast
  qed
  then show ?thesis using mkdirs_only [OF m] by blast
qed

lemma inside_parts:
  assumes "root_ok w rootd t" "isAbsolute r" "withinRoot r rootd" "r \<noteq> rootd"
  shows "isAbsolute (Dir r) \<and> withinRoot (Dir r) rootd \<and> (plain c \<longrightarrow> withinRoot (JoinPath (Dir r) c) rootd)"
proof -
  obtain rs where rs: "rootd = absolute rs" "list_all plain rs" "rs \<noteq> []" using assms(1) comps_absolute by (auto simp: root_ok_def isAbsolute_def)
  obtain qs where qs: "r = absolute qs" "list_all plain qs" using assms(2) by (auto simp: isAbsolute_def)
  then have "prefix rs qs" using withinRoot_prefix [OF rs(2) qs(2) rs(3)] assms(3) rs(1) by simp
  moreover have "rs \<noteq> qs" using assms(4) rs(1) qs(1) by auto
  ultimately obtain us x where us: "qs = rs @ us @ [x]" by (metis append_butlast_last_id prefix_def self_append_conv)
  have l: "list_all plain (rs @ us)" "plain x" using qs(2) us by simp_all
  have d: "Dir r = absolute (rs @ us)" using Dir_plain [OF l] unfolding qs(1) us by simp
  have "plain c \<Longrightarrow> withinRoot (JoinPath (Dir r) c) rootd" unfolding d rs(1) JoinPath_plain [OF l(1)]
    using withinRoot_prefix [OF rs(2) _ rs(3), of "(rs @ us) @ [c]"] l by (simp add: JoinPath_plain)
  moreover have "withinRoot (Dir r) rootd" unfolding d rs(1) using withinRoot_prefix [OF rs(2) l(1) rs(3)] by simp
  ultimately show ?thesis using d l by (auto simp: isAbsolute_def)
qed

lemma wsReplace_only:
  "map_of (snd (wsReplace w r content t)) q = map_of t q" if "q \<noteq> r" "q \<noteq> wsTemp w (Dir r) t"
  using that by (auto simp: wsReplace_def Let_def osRename_def osRemove_def map_of_updates split: option.splits)



text \<open>A search is not confined either: it opens every entry it meets, so a link inside the root whose target is a file
  outside it is searched, and the lines of that file are returned, although a read of the same path is refused.\<close>

theorem search_reads_through_links:
  assumes "map_of t rootd = Some DirNode" "childrenOf rootd t = [(p, LinkNode q)]" "evalSymlinks (feOs (wsFile w) t) p = Some q"
    "map_of t q = Some (FileNode line)" "\<forall>op x. feErr (wsFile w) op x = None" "feSize (wsFile w) p \<le> int wsMaxReadBytes"
    "query \<noteq> []" "contains (toLower line) (toLower query)" "CHR 0x0A \<notin> set line" "CHR 0x0D \<notin> set line" "length line < scanLimit" "validUtf8 line"
    "AbsPath (getwd (feOs (wsFile w) t)) (wsFull rootd path) = Some p" "path \<noteq> []" "\<not> withinRoot q rootd"
  shows "wsSearch w rootd query t = Inr [\<lparr>ShPath = relPath rootd p, ShLine = 1, ShContent = wsTruncate line 200\<rparr>] \<and>
    wsRead w rootd path t = Inl (ErrMsg (''memory: path traversal blocked: '' @ path))"
proof -
  have ne: "line \<noteq> []"
  proof
    assume "line = []"
    then show False using assms(7,8) by (simp add: toLower_def)
  qed
  have l: "scannedLines line = [line]"
  proof -
    have "splitAt (CHR 0x0A) line = [line]" using assms(9) by (rule splitAt_single)
    moreover have "dropCR line = line" using ne assms(10) last_in_set [OF ne] unfolding dropCR_def by metis
    ultimately show ?thesis using ne assms(11) by (simp add: scannedLines_def)
  qed
  have f: "osReadFile (wsFile w) p t = Inr line" using assms(3-5) by (simp add: osReadFile_def realPath_def)
  have s: "searchFile w t rootd (toLower query) p (LinkNode q) [] = ([\<lparr>ShPath = relPath rootd p, ShLine = 1, ShContent = wsTruncate line 200\<rparr>], False)"
    using assms(5,6,8,12) f l by (simp add: searchFile_def Let_def maxSearchHits_def)
  have "wsSearch w rootd query t = Inr [\<lparr>ShPath = relPath rootd p, ShLine = 1, ShContent = wsTruncate line 200\<rparr>]"
    using assms(1,2,5,7) s by (simp add: wsSearch_def numeral_eq_Suc maxSearchHits_def maxSearchDepth_def)
  moreover have "wsRead w rootd path t = Inl (ErrMsg (''memory: path traversal blocked: '' @ path))"
    using assms(3,13-15) by (simp add: wsRead_def wsResolve_def)
  ultimately show ?thesis by blast
qed

section \<open>Examples\<close>

definition exTemp :: "string \<Rightarrow> fsTree \<Rightarrow> string" where
  "exTemp d t = JoinPath d (''.mem-'' @ replicate (Suc (sum_list (map (\<lambda>(p, n). length p) t))) CHR ''x'')"

definition exWs :: "(string \<Rightarrow> string option) \<Rightarrow> wsEnv" where
  "exWs links = \<lparr>wsFile = exFiles links, wsTemp = exTemp\<rparr>"

lemma key_length: "map_of t p = Some n \<Longrightarrow> length p \<le> sum_list (map (\<lambda>(p, n). length p) t)"
  by (induction t) (auto split: if_splits)

lemma exTemp_ok: "temp_ok (exWs links)"
  unfolding temp_ok_def
proof (intro allI impI)
  fix d :: string and t :: fsTree assume d: "isAbsolute d"
  let ?c = "''.mem-'' @ replicate (Suc (sum_list (map (\<lambda>(p, n). length p) t))) CHR ''x''"
  have c: "plain ?c" by (auto simp: plain_def slash_def)
  have "wsTemp (exWs links) d t = absolute (comps d @ [?c])" using isAbsolute_comps [OF d] JoinPath_plain [OF _ c, of "comps d"] by (simp add: exWs_def exTemp_def)
  moreover have "length ?c \<le> length (absolute (comps d @ [?c]))" by (cases "comps d") (auto simp: absolute_def joinWith_def)
  ultimately have "\<not> length (wsTemp (exWs links) d t) \<le> sum_list (map (\<lambda>(p, n). length p) t)" by simp
  then have "map_of t (wsTemp (exWs links) d t) = None" using key_length [of t "wsTemp (exWs links) d t"] by (metis not_None_eq)
  then show "\<exists>c. plain c \<and> wsTemp (exWs links) d t = JoinPath d c \<and> map_of t (wsTemp (exWs links) d t) = None"
    using c by (intro exI [of _ ?c]) (simp add: exWs_def exTemp_def)
qed

lemma exClean_ok: "links_ok (feOs (wsFile (exWs (\<lambda>p. Some (Clean p)))) t) t"
proof -
  have c: "Clean p = p" if "isAbsolute p" for p using that Clean_absolute_plain by (auto simp: isAbsolute_def)
  have "sane (feOs (wsFile (exWs (\<lambda>p. Some (Clean p)))) t)"
    using Clean_absolute by (auto simp: sane_def exWs_def exFiles_def isAbsolute_def slash_def)
  then show ?thesis using c by (simp add: links_ok_def exWs_def exFiles_def)
qed

lemma exWs_paths: "Clean ''a'' = ''a''" "Clean ''../etc'' = ''../etc''" "JoinPath ''/w'' ''../etc'' = ''/etc''" "AbsPath (Some ''/w'') ''/etc'' = Some ''/etc''"
  "Clean ''/w/a'' = ''/w/a''" "Clean ''/w'' = ''/w''" "Clean ''/'' = ''/''" "Clean ''/etc'' = ''/etc''" "hd ''a'' \<noteq> slash" "hd ''../etc'' \<noteq> slash"
  "withinRoot ''/w/a'' ''/w''" "\<not> withinRoot ''/etc'' ''/w''" "comps ''/w'' = [''w'']" "JoinPath ''/w'' ''a'' = ''/w/a''" "AbsPath (Some ''/w'') ''/w/a'' = Some ''/w/a''"
  by code_simp+

lemma exWs_full: "wsFull ''/w'' ''a'' = ''/w/a''"
  by code_simp

lemma exWs_clean: "evalSymlinks (feOs (wsFile (exWs links)) t) p = links p" "getwd (feOs (wsFile (exWs links)) t) = Some ''/w''"
  by (simp_all add: exWs_def exFiles_def)

lemma exWs_resolve: "wsResolve (exWs (\<lambda>p. Some (Clean p))) ''/w'' ''a'' t = Inr ''/w/a''"
  by (simp add: wsResolve_def exWs_full exWs_clean exWs_paths)

lemma exWs_real: "realPath (wsFile (exWs (\<lambda>p. Some (Clean p)))) t p = Clean p" "feErr (wsFile (exWs links)) op p = None"
  by (simp_all add: realPath_def exWs_def exFiles_def)

theorem workspace_read_confined_witness:
  "wsRead (exWs (\<lambda>p. Some (Clean p))) ''/w'' ''a'' exTree = Inr ''xay'' \<and> (\<exists>q. withinRoot q ''/w'' \<and> map_of exTree q = Some (FileNode ''xay''))"
proof -
  have r: "wsRead (exWs (\<lambda>p. Some (Clean p))) ''/w'' ''a'' exTree = Inr ''xay''"
    by (simp add: wsRead_def exWs_resolve osStat_def osReadFile_def exWs_real exWs_paths exTree_simps wsMaxReadBytes_def)
  then show ?thesis using workspace_read_confined [OF exClean_ok r] by blast
qed

lemma exRoot_ok: "root_ok (exWs (\<lambda>p. Some (Clean p))) ''/w'' exTree"
proof -
  have "isAbsolute ''/w''" using exOs_absolute by blast
  then show ?thesis by (simp add: root_ok_def exPaths exWs_paths exWs_real exTree_simps)
qed


definition exDangling :: fsTree where
  "exDangling = [(''/'', DirNode), (''/w'', DirNode), (''/w/a'', LinkNode ''/out'')]"

definition exLinks :: "string option \<Rightarrow> wsEnv" where
  "exLinks target = exWs (\<lambda>p. if p = ''/w/a'' then target else Some p)"


definition exLinked :: fsTree where
  "exLinked = [(''/'', DirNode), (''/w'', DirNode), (''/w/a'', LinkNode ''/etc''), (''/etc'', FileNode ''root'')]"

theorem search_reads_through_links_witness:
  "wsSearch (exLinks (Some ''/etc'')) ''/w'' ''Root'' exLinked = Inr [\<lparr>ShPath = ''a'', ShLine = 1, ShContent = ''root''\<rparr>] \<and>
   wsRead (exLinks (Some ''/etc'')) ''/w'' ''a'' exLinked = Inl (ErrMsg ''memory: path traversal blocked: a'')"
proof -
  have ch: "childrenOf ''/w'' exLinked = [(''/w/a'', LinkNode ''/etc'')]"
  proof -
    have d: "Dir ''/'' = ''/''" "Dir ''/w'' = ''/''" "Dir ''/etc'' = ''/''" by code_simp+
    show ?thesis by (simp add: childrenOf_def exLinked_def d exPaths(1))
  qed
  have v: "contains (toLower ''root'') (toLower ''Root'')" "validUtf8 ''root''" "relPath ''/w'' ''/w/a'' = ''a''" by code_simp+
  have u: "wsTruncate ''root'' 200 = ''root''" "length ''root'' < scanLimit" by (simp_all add: wsTruncate_def scanLimit_def)
  have m: "map_of exLinked ''/w'' = Some DirNode" "map_of exLinked ''/etc'' = Some (FileNode ''root'')" by (simp_all add: exLinked_def)
  have e: "evalSymlinks (feOs (wsFile (exLinks (Some ''/etc''))) exLinked) ''/w/a'' = Some ''/etc''" "\<forall>op x. feErr (wsFile (exLinks (Some ''/etc''))) op x = None"
    "feSize (wsFile (exLinks (Some ''/etc''))) ''/w/a'' \<le> int wsMaxReadBytes" "AbsPath (getwd (feOs (wsFile (exLinks (Some ''/etc''))) exLinked)) (wsFull ''/w'' ''a'') = Some ''/w/a''"
    by (simp_all add: exLinks_def exWs_def exFiles_def exWs_full exWs_paths)
  show ?thesis
    using search_reads_through_links [OF m(1) ch e(1) m(2) e(2,3) _ v(1) _ _ u(2) v(2) e(4) _ exWs_paths(12)] v(3) u(1) by simp
qed
end
