(* ===== verification/Compaction.thy ===== *)
theory Compaction
  imports Session_History Chat_Payload
begin

text \<open>
  Keeping a conversation inside the window of its model: the limits of the models
  (\<open>internal/engine/context_limits.go\<close>) and the compactor (\<open>internal/engine/compactor.go\<close>), which replaces the oldest
  messages of a history by a summary. The brain that writes the summary is an argument. The ratio of the threshold is a
  rational number and the safe window \<open>int(float64(available) * 0.6)\<close> is three fifths rounded down, which the
  product of doubles gives for limits below \<open>10 ^ 15\<close>.
\<close>

section \<open>Limits\<close>

definition reservedTokens :: int where
  "reservedTokens = 10000"

definition ContextLimitForModel :: "(string \<Rightarrow> int option) option \<Rightarrow> string \<Rightarrow> string \<Rightarrow> int" where
  "ContextLimitForModel overrides provider0 model0 =
    (let provider = toLower (trimSpace provider0); model = toLower (trimSpace model0);
         override = (case overrides of None \<Rightarrow> None
           | Some m \<Rightarrow> (case m (provider @ ''/'' @ model) of Some v \<Rightarrow> Some v | None \<Rightarrow> m model))
     in case override of Some v \<Rightarrow> v | None \<Rightarrow>
       (if model \<in> {''gemini-2.5-flash'', ''gemini-2.5-pro'', ''gemini-1.5-flash'', ''gemini-1.5-pro''} then 1048576
        else if model \<in> {''claude-3-5-sonnet-20241022'', ''claude-3-5-haiku-20241022'', ''claude-3-opus-20240229''} then 200000
        else if model \<in> {''gpt-4o'', ''gpt-4o-mini''} then 128000
        else if model \<in> {''o1'', ''o3-mini''} then 128000
        else if model = ''llama-3.1-70b-versatile'' then 131072
        else if model = ''mistral-large-latest'' then 128000
        else if prefix ''gemini-'' model then 1048576
        else if prefix ''claude-'' model then 200000
        else if prefix ''gpt-4'' model then 128000
        else if provider = ''google'' then 1048576
        else if provider = ''anthropic'' then 200000
        else if provider = ''openai'' then 128000
        else 128000))"

section \<open>The compactor\<close>

record CompactorConfig =
  CcThresholdRatio :: rat
  CcKeepRecent :: int

record Compactor =
  CoConfig :: CompactorConfig
  CoProvider :: string
  CoModel :: string

definition NewCompactor :: "string \<Rightarrow> string \<Rightarrow> CompactorConfig \<Rightarrow> Compactor" where
  "NewCompactor provider model cfg = \<lparr>CoConfig = \<lparr>CcThresholdRatio = (if CcThresholdRatio cfg \<le> 0 then 3 / 4 else CcThresholdRatio cfg),
     CcKeepRecent = (if CcKeepRecent cfg \<le> 0 then 10 else CcKeepRecent cfg)\<rparr>, CoProvider = provider, CoModel = model\<rparr>"

text \<open>The loop from the newest item down; the last arguments are the items still to visit, the tokens so far and the split.\<close>

fun splitScan :: "HistoryItem list \<Rightarrow> int \<Rightarrow> int \<Rightarrow> nat \<Rightarrow> int \<Rightarrow> nat \<Rightarrow> nat" where
  "splitScan items keep safe 0 recent split = split"
| "splitScan items keep safe (Suc i) recent split =
    (let recent1 = recent + Tokens (items ! i); count = int (length items) - int i in
     if count \<le> keep then splitScan items keep safe i recent1 split
     else if recent1 > safe then Suc i
     else splitScan items keep safe i recent1 i)"

definition splitIndex :: "HistoryItem list \<Rightarrow> int \<Rightarrow> int \<Rightarrow> nat" where
  "splitIndex items keep safe = (let k = splitScan items keep safe (length items) 0 (length items) in if k = 0 then 1 else k)"

definition nl :: string where
  "nl = [CHR 0x0A]"

definition summaryPrompt :: "HistoryItem list \<Rightarrow> string" where
  "summaryPrompt old = ''Summarize the following conversation history into a concise summary that preserves:'' @ nl @
     ''- Key facts, decisions, and conclusions'' @ nl @ ''- User preferences and constraints mentioned'' @ nl @
     ''- Any ongoing tasks or action items'' @ nl @ ''- Important context needed for future turns'' @ nl @ nl @ ''Conversation:'' @ nl @
     concat (map (\<lambda>i. Role i @ '': '' @ Content i @ nl) old)"

definition truncatedSummary :: string where
  "truncatedSummary = ''[History compacted due to length. Older messages were truncated.]''"

text \<open>What a compaction draws from its surroundings: the clock of each statement, the number in the name of the session of
  the summary, and the brain.\<close>

record 's compactEnv =
  CmAt :: "nat \<Rightarrow> env"
  CmNow :: nat
  CmRespond :: "string \<Rightarrow> string \<Rightarrow> 's \<Rightarrow> (err + string) \<times> 's"
  CmOverrides :: "(string \<Rightarrow> int option) option"

definition contextAvailable :: "'s compactEnv \<Rightarrow> Compactor \<Rightarrow> int" where
  "contextAvailable ce c = (let available = ContextLimitForModel (CmOverrides ce) (CoProvider c) (CoModel c) - reservedTokens in
     if available < 1000 then 1000 else available)"

text \<open>From the split on: the summary, the archive, the new message and the fresh history.\<close>

definition compactAt :: "'x store_scheme compactEnv \<Rightarrow> string \<Rightarrow> string \<Rightarrow> HistoryItem list \<Rightarrow> 'x store_scheme \<Rightarrow> (err + HistoryItem list) \<times> 'x store_scheme" where
  "compactAt ce sessionID agentID old = (\<lambda>s.
    (case CmRespond ce (''summary-'' @ sessionID @ ''-'' @ itoa (int (CmNow ce))) (summaryPrompt old) s of (r, s1) \<Rightarrow>
      (let summary = (case r of Inr t \<Rightarrow> t | Inl _ \<Rightarrow> truncatedSummary);
           content = ''Previous conversation summary: '' @ summary
       in bindS (wrapS ''archive messages'' (ArchiveMessages (CmAt ce 0) sessionID (int (HID (last old))))) (\<lambda>_.
          bindS (wrapS ''add summary message'' (AddHistory (CmAt ce 1) sessionID agentID ''system'' content (int (EstimateTokens content)))) (\<lambda>_.
          ListHistory sessionID agentID 1000)) s1)))"

definition CompactIfNeeded :: "'x store_scheme compactEnv \<Rightarrow> Compactor \<Rightarrow> string \<Rightarrow> string \<Rightarrow> 'x store_scheme \<Rightarrow> (err + HistoryItem list) \<times> 'x store_scheme" where
  "CompactIfNeeded ce c sessionID agentID =
    bindS (wrapS ''list history for compaction'' (ListHistory sessionID agentID 1000)) (\<lambda>items.
    (let total = sum_list (map Tokens items); available = contextAvailable ce c; keep = CcKeepRecent (CoConfig c);
         k = splitIndex items keep (available * 3 div 5)
     in if items = [] then retS items
        else if of_int total < of_int available * CcThresholdRatio (CoConfig c) then retS items
        else if keep \<ge> int (length items) then retS items
        else if k \<ge> length items then retS items
        else compactAt ce sessionID agentID (take k items)))"

section \<open>What is kept\<close>

lemma splitScan_spec:
  assumes "recent = sum_list (map Tokens (drop n items))" "n \<le> length items" "0 \<le> keep" "keep < int (length items)"
    "if int (length items) - int n \<le> keep then split = length items
     else split = n \<and> sum_list (map Tokens (drop n items)) \<le> safe"
  shows "splitScan items keep safe n recent split \<le> length items \<and>
    keep \<le> int (length items) - int (splitScan items keep safe n recent split) \<and>
    (keep < int (length items) - int (splitScan items keep safe n recent split) \<longrightarrow>
       sum_list (map Tokens (drop (splitScan items keep safe n recent split) items)) \<le> safe) \<and>
    (0 < splitScan items keep safe n recent split \<longrightarrow>
       safe < sum_list (map Tokens (drop (splitScan items keep safe n recent split - 1) items)))"
  using assms
proof (induction n arbitrary: recent split)
  case 0
  then show ?case by auto
next
  case (Suc i)
  have d: "drop i items = items ! i # drop (Suc i) items" using Suc.prems(2) by (simp add: Cons_nth_drop_Suc)
  let ?r = "recent + Tokens (items ! i)"
  have r: "?r = sum_list (map Tokens (drop i items))" using Suc.prems(1) d by simp
  consider (few) "int (length items) - int i \<le> keep" | (full) "\<not> int (length items) - int i \<le> keep" "?r > safe"
    | (fits) "\<not> int (length items) - int i \<le> keep" "?r \<le> safe" by linarith
  then show ?case
  proof cases
    case few
    then show ?thesis using Suc.IH [OF r] Suc.prems by (simp add: Let_def)
  next
    case full
    have s: "splitScan items keep safe (Suc i) recent split = Suc i" using full by (simp add: Let_def)
    show ?thesis unfolding s using full Suc.prems r by auto
  next
    case fits
    then show ?thesis using Suc.IH [OF r, of i] Suc.prems r by (simp add: Let_def)
  qed
qed

text \<open>A history that does not fit the safe window is split so that a suffix of it is kept: at least as many messages as
  the configuration asks for, more than that only when the kept messages together fit the window, and one message
  more would not fit.\<close>

theorem split_keeps_what_fits:
  assumes "0 \<le> keep" "keep < int (length items)" "safe < sum_list (map Tokens items)"
  shows "let k = splitIndex items keep safe; kept = (\<lambda>j. sum_list (map Tokens (drop j items))) in
    1 \<le> k \<and> k \<le> length items \<and> keep \<le> int (length items) - int k \<and>
    (keep < int (length items) - int k \<longrightarrow> kept k \<le> safe) \<and> safe < kept (k - 1)"
proof -
  define k0 where "k0 = splitScan items keep safe (length items) 0 (length items)"
  have s: "k0 \<le> length items \<and> keep \<le> int (length items) - int k0 \<and> (keep < int (length items) - int k0 \<longrightarrow> sum_list (map Tokens (drop k0 items)) \<le> safe) \<and>
      (0 < k0 \<longrightarrow> safe < sum_list (map Tokens (drop (k0 - 1) items)))"
    unfolding k0_def by (rule splitScan_spec) (use assms in auto)
  have "k0 \<noteq> 0"
  proof
    assume "k0 = 0"
    then show False using s assms(2,3) by simp
  qed
  then have "splitIndex items keep safe = k0" by (simp add: splitIndex_def Let_def k0_def)
  then show ?thesis using s \<open>k0 \<noteq> 0\<close> by (simp add: Let_def)
qed

section \<open>What a compaction does to the history\<close>

lemma ListHistory_runs: "faults s = [] \<Longrightarrow> 0 < limit \<Longrightarrow> limit \<le> 1000 \<Longrightarrow> ListHistory sid a limit s = (Inr (map scanMessage (take (nat limit) (liveHistory sid a s))), s)"
  by (simp add: ListHistory_def wrapS_def queryS_def stmt_def clampLimit_def)

lemma ArchiveMessages_runs: "faults s = [] \<Longrightarrow> ArchiveMessages e sid b s =
    (Inr (), s\<lparr>messages := updWhere (\<lambda>m. m_session_id m = sid \<and> int (m_id m) \<le> b \<and> m_archived_at m = None)
       (\<lambda>m. m\<lparr>m_archived_at := Some (CURRENT_TIMESTAMP e)\<rparr>) (messages s)\<rparr>)"
  by (simp add: ArchiveMessages_def wrapS_def execS_def stmt_def)

text \<open>In a history sorted by number, what the archive leaves live is what comes after the split.\<close>

lemma filter_after_split:
  assumes "sorted (map f xs)" "distinct (map f xs)" "0 < k" "k \<le> length (filter P xs)"
  shows "filter (\<lambda>x. P x \<and> \<not> f x \<le> f (filter P xs ! (k - 1))) xs = drop k (filter P xs)"
proof -
  let ?ys = "filter P xs" and ?b = "f (filter P xs ! (k - 1))"
  have srt: "sorted_wrt (<) (map f ?ys)" using assms(1,2) by (simp add: strict_sorted_iff distinct_map_filter sorted_filter)
  have at: "map f ?ys ! j = f (?ys ! j)" if "j < length ?ys" for j using that by simp
  have less: "f (?ys ! i) < f (?ys ! j)" if "i < j" "j < length ?ys" for i j
    using sorted_wrt_nth_less [OF srt, of i j] that by simp
  have take_le: "\<forall>y\<in>set (take k ?ys). f y \<le> ?b"
  proof
    fix y assume "y \<in> set (take k ?ys)"
    then obtain i where i: "i < k" "i < length ?ys" "y = ?ys ! i" by (auto simp: in_set_conv_nth)
    have "i = k - 1 \<or> i < k - 1" using i(1) by linarith
    then show "f y \<le> ?b" using less [of i "k - 1"] i assms(3,4) by (auto simp: less_imp_le)
  qed
  have drop_gt: "\<forall>y\<in>set (drop k ?ys). \<not> f y \<le> ?b"
  proof
    fix y assume "y \<in> set (drop k ?ys)"
    then obtain j where j: "j < length ?ys - k" "y = ?ys ! (k + j)" by (auto simp: in_set_conv_nth)
    have "k - 1 < k + j" "k + j < length ?ys" using j(1) assms(3) by linarith+
    then show "\<not> f y \<le> ?b" using less [of "k - 1" "k + j"] j(2) by simp
  qed
  have "filter (\<lambda>x. P x \<and> \<not> f x \<le> ?b) xs = filter (\<lambda>x. \<not> f x \<le> ?b) (take k ?ys @ drop k ?ys)" by (simp add: conj_commute)
  also have "\<dots> = drop k ?ys" using take_le drop_gt by (simp only: filter_append) (simp add: filter_empty_conv filter_id_conv)
  finally show ?thesis .
qed

lemma live_after_archive:
  assumes inv: "messages_inv s" and k: "0 < k" "k \<le> length (liveHistory sid a s)"
  shows "liveHistory sid a (s\<lparr>messages := updWhere (\<lambda>m. m_session_id m = sid \<and> int (m_id m) \<le> int (m_id (liveHistory sid a s ! (k - 1))) \<and> m_archived_at m = None)
       (\<lambda>m. m\<lparr>m_archived_at := Some t\<rparr>) (messages s)\<rparr>) = drop k (liveHistory sid a s)"
proof -
  let ?P = "\<lambda>m. m_session_id m = sid \<and> (a = [] \<or> m_agent_id m = a) \<and> m_archived_at m = None"
  let ?b = "m_id (filter ?P (messages s) ! (k - 1))"
  let ?Q = "\<lambda>m. m_session_id m = sid \<and> int (m_id m) \<le> int ?b \<and> m_archived_at m = None"
  let ?f = "\<lambda>m. m\<lparr>m_archived_at := Some t\<rparr>"
  have live: "liveHistory sid a s = filter ?P (messages s)" using liveHistory_filter [OF inv] by simp
  have ids: "map m_id (updWhere ?Q ?f (messages s)) = map m_id (messages s)" by (simp add: map_updWhere)
  have srt: "sorted (map m_id (messages s))" "distinct (map m_id (messages s))" using sorted_ids [OF inv] by simp_all
  have "liveHistory sid a (s\<lparr>messages := updWhere ?Q ?f (messages s)\<rparr>) = filter ?P (updWhere ?Q ?f (messages s))"
    unfolding liveHistory_def using srt(1) ids by (simp add: sort_key_id_if_sorted sorted_filter)
  also have "\<dots> = filter (\<lambda>m. ?P m \<and> \<not> m_id m \<le> ?b) (messages s)"
  proof -
    have "filter ?P (updWhere (\<lambda>m. m_session_id m = sid \<and> int (m_id m) \<le> int b \<and> m_archived_at m = None) ?f ms) = filter (\<lambda>m. ?P m \<and> \<not> m_id m \<le> b) ms"
      for b and ms :: "message_row list"
      by (induction ms) (auto simp: updWhere_def)
    then show ?thesis by blast
  qed
  also have "\<dots> = drop k (filter ?P (messages s))" using filter_after_split [OF srt k(1)] k(2) unfolding live by blast
  finally show ?thesis unfolding live .
qed

text \<open>C36. A compaction that is due and finds something to summarize returns what comes after the split with the summary behind it:
  the summary of the oldest messages is the newest message of the history. Of a history of more than a thousand
  messages it sees the oldest thousand only, so the summary itself need not be among what it returns. And it
  archives every message of the session up to the split, also those of the other agents, which no summary holds.\<close>

theorem compaction_outcome:
  assumes inv: "messages_inv s" and nf: "faults s = []" and a: "a \<noteq> []"
    and items: "items = map scanMessage (take 1000 (liveHistory sid a s))"
    and due: "of_int (contextAvailable ce c) * CcThresholdRatio (CoConfig c) \<le> of_int (sum_list (map Tokens items))"
    and keep: "0 < CcKeepRecent (CoConfig c)" "CcKeepRecent (CoConfig c) < int (length items)"
    and k: "k = splitIndex items (CcKeepRecent (CoConfig c)) (contextAvailable ce c * 3 div 5)" "k < length items"
    and brain: "CmRespond ce (''summary-'' @ sid @ ''-'' @ itoa (int (CmNow ce))) (summaryPrompt (take k items)) s = (Inr summary, s1)"
      "messages s1 = messages s" "messages_inv s1" "faults s1 = []" "hasSession sid s1"
  shows "\<exists>items1 s2. CompactIfNeeded ce c sid a s = (Inr items1, s2) \<and>
    map (\<lambda>i. (Role i, Content i)) items1 = take 1000 (map (\<lambda>m. (m_role m, m_content m)) (drop k (liveHistory sid a s)) @
      [(''system'', ''Previous conversation summary: '' @ summary)]) \<and>
    (\<forall>m\<in>set (messages s). m_session_id m = sid \<longrightarrow> m_archived_at m = None \<longrightarrow> m_id m \<le> m_id (liveHistory sid a s ! (k - 1)) \<longrightarrow>
       (\<exists>m1\<in>set (messages s2). m_id m1 = m_id m \<and> m_agent_id m1 = m_agent_id m \<and> m_archived_at m1 \<noteq> None))"
proof -
  let ?live = "liveHistory sid a s"
  have k0: "0 < k" unfolding k(1) splitIndex_def Let_def by simp
  have kl: "k \<le> length ?live" using k(2) items by simp
  have lst: "HID (last (take k items)) = m_id (?live ! (k - 1))"
  proof -
    have "take k items \<noteq> []" "length (take k items) = k" using k0 k(2) by auto
    then have "last (take k items) = items ! (k - 1)" using k0 by (simp add: last_conv_nth)
    also have "\<dots> = scanMessage (?live ! (k - 1))"
    proof -
      have "k - 1 < length (take 1000 ?live)" using k0 k(2) items by auto
      moreover have "take 1000 ?live ! (k - 1) = ?live ! (k - 1)" using k0 k(2) items by auto
      ultimately show ?thesis unfolding items by (simp only: nth_map)
    qed
    finally show ?thesis by (simp add: scanMessage_def)
  qed
  have live1: "liveHistory sid a s1 = ?live" using brain(2) by (simp add: liveHistory_def)
  define s2 where "s2 = s1\<lparr>messages := updWhere (\<lambda>m. m_session_id m = sid \<and> int (m_id m) \<le> int (m_id (?live ! (k - 1))) \<and> m_archived_at m = None)
       (\<lambda>m. m\<lparr>m_archived_at := Some (CURRENT_TIMESTAMP (CmAt ce 0))\<rparr>) (messages s1)\<rparr>"
  have arch: "ArchiveMessages (CmAt ce 0) sid (int (HID (last (take k items)))) s1 = (Inr (), s2)"
    unfolding lst s2_def by (rule ArchiveMessages_runs [OF brain(4)])
  have live2: "liveHistory sid a s2 = drop k ?live"
    using live_after_archive [OF brain(3) k0, of sid a "CURRENT_TIMESTAMP (CmAt ce 0)"] kl unfolding live1 s2_def by simp
  have inv2: "messages_inv s2" using ArchiveMessages_messages_inv [OF brain(3)] arch by (metis snd_conv)
  have nf2: "faults s2 = []" and hs2: "hasSession sid s2" using brain(4,5) by (simp_all add: s2_def hasSession_def)
  let ?content = "''Previous conversation summary: '' @ summary"
  have role: "toLower (trimSpace ''system'') = ''system''" "''system'' \<in> set messageRoles" by code_simp+
  obtain s3 where add: "AddHistory (CmAt ce 1) sid a ''system'' ?content (int (EstimateTokens ?content)) s2 = (Inr (), s3)"
    and h3: "map (\<lambda>m. (m_role m, m_content m)) (liveHistory sid a s3) = map (\<lambda>m. (m_role m, m_content m)) (liveHistory sid a s2) @ [(''system'', ?content)]"
    using add_history_equation [OF inv2 nf2, of "''system''" "CmAt ce 1" sid a ?content "int (EstimateTokens ?content)"] role hs2 a
    by (cases "AddHistory (CmAt ce 1) sid a ''system'' ?content (int (EstimateTokens ?content)) s2") (auto simp: Let_def agentOrDefault_def)
  have s3: "s3 = insertMessage (CmAt ce 1) sid (agentOrDefault a) ''system'' ?content (int (EstimateTokens ?content)) s2"
    using add role nf2 hs2 by (simp add: AddHistory_def Let_def wrapS_def execCheck_def stmt_def)
  have nf3: "faults s3 = []" using nf2 unfolding s3 by (simp add: insertMessage_def)
  have list3: "ListHistory sid a 1000 s3 = (Inr (map scanMessage (take 1000 (liveHistory sid a s3))), s3)"
    using ListHistory_runs [OF nf3, of 1000 sid a] by simp
  have run: "compactAt ce sid a (take k items) s = (Inr (map scanMessage (take 1000 (liveHistory sid a s3))), s3)"
    using brain(1) arch add list3 by (simp add: compactAt_def bindS_def wrapS_def Let_def)
  have L: "ListHistory sid a 1000 s = (Inr items, s)" using ListHistory_runs [OF nf, of 1000 sid a] items by simp
  have "items \<noteq> []" using keep by auto
  then have "CompactIfNeeded ce c sid a s = (Inr (map scanMessage (take 1000 (liveHistory sid a s3))), s3)"
    using L due keep(2) k(2) run
    by (simp add: CompactIfNeeded_def bindS_def wrapS_def Let_def k(1) [symmetric] not_less)
  moreover have "map (\<lambda>i. (Role i, Content i)) (map scanMessage (take 1000 (liveHistory sid a s3))) =
      take 1000 (map (\<lambda>m. (m_role m, m_content m)) (drop k ?live) @ [(''system'', ?content)])"
    using h3 live2 by (simp add: scanMessage_def o_def take_map [symmetric])
  moreover have "\<exists>m1\<in>set (messages s3). m_id m1 = m_id m \<and> m_agent_id m1 = m_agent_id m \<and> m_archived_at m1 \<noteq> None"
    if m: "m \<in> set (messages s)" "m_session_id m = sid" "m_archived_at m = None" "m_id m \<le> m_id (?live ! (k - 1))" for m
  proof -
    let ?m = "m\<lparr>m_archived_at := Some (CURRENT_TIMESTAMP (CmAt ce 0))\<rparr>"
    have "?m \<in> set (messages s2)" using m brain(2) by (auto simp: s2_def set_updWhere)
    then have "?m \<in> set (messages s3)" unfolding s3 by (simp add: insertMessage_def)
    then show ?thesis by (intro bexI [of _ ?m]) simp_all
  qed
  ultimately show ?thesis by blast
qed

section \<open>Examples\<close>

text \<open>A session in which two agents have spoken: agent \<open>a\<close> with long messages, agent \<open>b\<close> once, early on.\<close>

definition exMessage :: "nat \<Rightarrow> string \<Rightarrow> string \<Rightarrow> int \<Rightarrow> message_row" where
  "exMessage i ag c n = \<lparr>m_id = i, m_session_id = ''s'', m_agent_id = ag, m_role = ''user'', m_content = c, m_tokens = n,
     m_created_at = CurTs 0, m_archived_at = None\<rparr>"

definition exHistory :: "unit store_scheme" where
  "exHistory = exSession\<lparr>messages := [exMessage 1 ''a'' ''one'' 70000, exMessage 2 ''b'' ''other'' 10, exMessage 3 ''a'' ''two'' 30000, exMessage 4 ''a'' ''three'' 20000],
     msg_seq := 4\<rparr>"

definition exCompact :: "unit store_scheme compactEnv" where
  "exCompact = \<lparr>CmAt = (\<lambda>_. exEnv 100), CmNow = 7, CmRespond = (\<lambda>_ _ s. (Inr ''short'', s)), CmOverrides = None\<rparr>"

definition exCompactor :: Compactor where
  "exCompactor = NewCompactor ''openai'' ''gpt-4o'' \<lparr>CcThresholdRatio = 3 / 4, CcKeepRecent = 1\<rparr>"

lemma exAvailable: "contextAvailable exCompact exCompactor = 118000"
proof -
  have "toLower (trimSpace ''openai'') = ''openai''" "toLower (trimSpace ''gpt-4o'') = ''gpt-4o''" by code_simp+
  then show ?thesis by (simp add: contextAvailable_def exCompact_def exCompactor_def NewCompactor_def ContextLimitForModel_def reservedTokens_def)
qed

theorem split_keeps_what_fits_witness:
  "let items = map (scanMessage \<circ> (\<lambda>n. exMessage 1 ''a'' ''m'' n)) [70000, 30000, 20000]; k = splitIndex items 1 70800 in
    1 \<le> k \<and> k \<le> 3 \<and> 1 \<le> 3 - int k \<and> 70800 < sum_list (map Tokens (drop (k - 1) items))"
  using split_keeps_what_fits [of 1 "map (scanMessage \<circ> (\<lambda>n. exMessage 1 ''a'' ''m'' n)) [70000, 30000, 20000]" 70800]
  by (simp add: Let_def scanMessage_def exMessage_def)

lemma exHistory_live: "liveHistory ''s'' ''a'' exHistory = [exMessage 1 ''a'' ''one'' 70000, exMessage 3 ''a'' ''two'' 30000, exMessage 4 ''a'' ''three'' 20000]"
  by (simp add: liveHistory_def exHistory_def exMessage_def)


lemma exHistory_base: "messages_inv exHistory" "faults exHistory = []" "hasSession ''s'' exHistory"
  by (simp_all add: exHistory_def exMessage_def messages_inv_def messageRoles_def hasSession_def exSession_eq exTables_def emptyStore_def)

lemma exSplit: "splitIndex (map scanMessage (liveHistory ''s'' ''a'' exHistory)) 1 70800 = 1"
  by (simp add: exHistory_live splitIndex_def scanMessage_def exMessage_def Let_def eval_nat_numeral)

theorem compaction_outcome_witness:
  "\<exists>items1 s2. CompactIfNeeded exCompact exCompactor ''s'' ''a'' exHistory = (Inr items1, s2) \<and>
    map (\<lambda>i. (Role i, Content i)) items1 = [(''user'', ''two''), (''user'', ''three''), (''system'', ''Previous conversation summary: short'')]"
proof -
  let ?items = "map scanMessage (take 1000 (liveHistory ''s'' ''a'' exHistory))"
  have items: "?items = map scanMessage (liveHistory ''s'' ''a'' exHistory)" by (simp add: exHistory_live)
  have cfg: "CcKeepRecent (CoConfig exCompactor) = 1" "CcThresholdRatio (CoConfig exCompactor) = 3 / 4"
    by (simp_all add: exCompactor_def NewCompactor_def)
  have total: "sum_list (map Tokens ?items) = 120000" "length ?items = 3"
    by (simp_all add: exHistory_live scanMessage_def exMessage_def)
  have k: "1 = splitIndex ?items (CcKeepRecent (CoConfig exCompactor)) (contextAvailable exCompact exCompactor * 3 div 5)"
    unfolding items cfg exAvailable using exSplit by simp
  have due: "of_int (contextAvailable exCompact exCompactor) * CcThresholdRatio (CoConfig exCompactor) \<le> of_int (sum_list (map Tokens ?items))"
    unfolding total cfg exAvailable by simp
  have resp: "CmRespond exCompact u p x = (Inr ''short'', x)" for u p x by (simp add: exCompact_def)
  have keep: "0 < CcKeepRecent (CoConfig exCompactor)" "CcKeepRecent (CoConfig exCompactor) < int (length ?items)" "1 < length ?items"
    unfolding total cfg by simp_all
  obtain items1 s2 where o: "CompactIfNeeded exCompact exCompactor ''s'' ''a'' exHistory = (Inr items1, s2)"
    "map (\<lambda>i. (Role i, Content i)) items1 = take 1000 (map (\<lambda>m. (m_role m, m_content m)) (drop 1 (liveHistory ''s'' ''a'' exHistory)) @
      [(''system'', ''Previous conversation summary: '' @ ''short'')])"
    using compaction_outcome [OF exHistory_base(1,2) _ refl due keep(1,2) k keep(3) resp refl exHistory_base] by auto
  have "map (\<lambda>i. (Role i, Content i)) items1 = [(''user'', ''two''), (''user'', ''three''), (''system'', ''Previous conversation summary: short'')]"
    unfolding o(2) exHistory_live by (simp add: exMessage_def)
  with o(1) show ?thesis by (intro exI [of _ items1] exI [of _ s2]) simp
qed
end
