(* ===== verification/Spec2Isabelle.thy ===== *)
theory Spec2Isabelle
  imports Task_Outcomes Task_Frame Session_History Plan_Runs Policy Tool_Runs Go_Duration
    Memory_Store Gateway_Rest Skill_Registry Agent_Loop Host_Tools Mcp_Manager Model_Failover Workspace Compaction
begin

text \<open>
  A verification development of go-claw, a daemon that runs agents: it takes chat requests, stores them as tasks in an
  SQLite database, lets workers claim and run them through a language model, and offers plans, schedules, tools and
  a gateway around that queue. All source files named below are under \<open>src/\<close>.

  \<^bold>\<open>The parts and how they interact.\<close> The store (\<open>internal/persistence\<close>) owns every table and is the only shared
  state of the daemon; each of its operations is one or a few transactions. Engines (\<open>internal/engine\<close>) put tasks into
  it, claim them and settle them; the registry (\<open>internal/agent\<close>) holds one engine per agent and routes work to it.
  The coordinator (\<open>internal/coordinator\<close>) runs plans, graphs of prompts, by creating tasks through the registry and
  waiting for them. The scheduler (\<open>internal/cron\<close>) creates tasks when they are due. Tools
  (\<open>internal/tools\<close>, \<open>internal/mcp\<close>) are what a model can call; the policy (\<open>internal/policy\<close>) decides which of them, and
  every decision is audited (\<open>internal/audit\<close>). The gateway (\<open>internal/gateway\<close>) exposes all of it as JSON-RPC over
  WebSockets and as REST routes. Events of the store travel over a bus (\<open>internal/bus\<close>).

  \<^bold>\<open>State and effects.\<close> The store is a record with one list of rows per table, in the order of insertion, and is
  extended by the parts that add tables (\<open>store\<close>, \<open>plan_store\<close>, \<open>agent_store\<close>, \<open>side_store\<close>, \<open>tool_store\<close>,
  \<open>host_store\<close>). An operation takes the surroundings it draws from (\<open>env\<close>: the clock, fresh identifiers) and a store and returns
  an error or a value together with the new store; \<open>bindS\<close>, \<open>wrapS\<close> and \<open>with_tx\<close> (\<open>Sql_Tx\<close>) are early return, the wrapping of errors and
  a transaction with rollback. A failing database is part of the state: the field \<open>faults\<close> says which statements to come
  fail. So theorems that speak of success assume it empty, and theorems about errors and invariants do
  not. Goroutines appear as events or as turns given to an operation between two of its steps.

  \<^bold>\<open>Theories.\<close>
  \<^item> \<open>Prelude\<close>, \<open>Json\<close>, \<open>Go_Net\<close>, \<open>Go_Path\<close>, \<open>Go_Duration\<close>: what the sources use of Go's standard library on errors, strings, JSON,
    addresses, paths and durations, and tables as lists of rows.
  \<^item> \<open>Sql_Tx\<close>, \<open>Shared_Ctx\<close>, \<open>Bus\<close>, \<open>Backoff\<close>: transactions with their busy retry (\<open>persistence/store.go\<close>), the values of a
    context (\<open>shared/trace.go\<close>), the bus (\<open>bus/bus.go\<close>) and the retry delay with its jitter (\<open>tasks.go\<close>).
  \<^item> \<open>Task_Store\<close>, \<open>Task_Queries\<close>, \<open>Task_Invariant\<close>, \<open>Task_Lifecycle\<close>, \<open>Task_Outcomes\<close>, \<open>Task_Frame\<close>: the task queue (\<open>persistence/tasks.go\<close>) with
    its eight statuses. The invariant of the store, reachability under every operation in any order and with any failure, the
    history of each task, exclusive claims, and the outcome of a failure (retry, dead letter, poison).
  \<^item> \<open>Session_Store\<close>, \<open>Session_History\<close>: sessions and their messages (\<open>sessions.go\<close>).
  \<^item> \<open>Plan_Dag\<close>, \<open>Plan_Store\<close>, \<open>Plan_Executor\<close>, \<open>Plan_Approval\<close>, \<open>Plan_Runs\<close>, \<open>Task_Waiter\<close>: plans, their validation and waves, their tables, execution and
    resumption, the approval of a step, and the wait for tasks (\<open>coordinator/*.go\<close>).
  \<^item> \<open>Engine\<close>, \<open>Engine_Run\<close>, \<open>Engine_Intake\<close>, \<open>Chat_Payload\<close>: the workers and the intake of an engine with backpressure, and
    the payloads of its tasks (\<open>engine/engine.go\<close>).
  \<^item> \<open>Agent_Loop\<close> (\<open>engine/loop.go\<close>, \<open>persistence/loops.go\<close>), \<open>Model_Failover\<close> (\<open>engine/failover.go\<close>, \<open>errors.go\<close>), \<open>Compaction\<close>
    (\<open>engine/compactor.go\<close>, \<open>context_limits.go\<close>): loops with budgets and checkpoints, circuit breakers of model providers,
    and histories cut to the window of a model.
  \<^item> \<open>Agent_Store\<close>, \<open>Side_Store\<close>, \<open>Schedules\<close>, \<open>Memory_Store\<close>, \<open>Skill_Registry\<close>, \<open>Audit_Trail\<close>: the tables of agents, messages between agents and
    delegations, schedules with a tick of the scheduler, memories with pins and shares, skills, and the audit log with
    redaction and retention.
  \<^item> \<open>Config_File\<close>, \<open>Agent_Registry\<close>: the configuration (\<open>config/*.go\<close>) and the engines of the daemon
    (\<open>agent/registry.go\<close>).
  \<^item> \<open>Policy\<close>, \<open>Tool_Calls\<close>, \<open>Tool_Runs\<close>, \<open>Host_Tools\<close>, \<open>Workspace\<close>, \<open>Mcp_Client\<close>, \<open>Mcp_Manager\<close>: the policy (\<open>policy/policy.go\<close>), the tools
    between agents, the shell and file tools, the files of the memory (\<open>memory/workspace.go\<close>) with their tools, and the client and the manager of
    external tool servers (\<open>mcp/*.go\<close>).
  \<^item> \<open>Gateway_State\<close>, \<open>Gateway_Live\<close>, \<open>Gateway_Rpc\<close>, \<open>Gateway_Gate\<close>, \<open>Gateway_Http\<close>, \<open>Gateway_Rest\<close>: connections, live events and approvals, the
    JSON-RPC methods behind their capability check, and the HTTP side with keys, rates and origins (\<open>gateway/*.go\<close>).

  \<^bold>\<open>Groups of lemmas.\<close> An invariant is proved once against an interface and then holds for every operation:
  \<open>table_invariant\<close> (a predicate that transactions keep), \<open>task_invariant\<close>, \<open>task_frame\<close>, \<open>store_frame\<close> and \<open>plan_frame\<close> (predicates that the
  operations of the queue, of its side tables and of the plans keep), \<open>store_property\<close> (what a worker keeps), \<open>kv_table\<close> (last write wins) and \<open>chat_router\<close> (what the executor
  needs of whoever creates its tasks). Each is interpreted on definitions of the model. The theorems that end a theory
  are the properties; the lemmas before them give the effect of each operation on each branch, evaluated by the rules
  of \<open>sql_simps\<close> and \<open>row_simps\<close>. The definitions that begin with \<open>ex\<close> are small states on which the theorems with hypotheses are applied.

  \<^bold>\<open>Bounds.\<close> The JSON parser takes the length of its text and two as fuel, since each level of nesting costs two and opens with a
  byte; durations take the length of their text, and more changes nothing (\<open>durationParts_fuel\<close>). The walk of a
  search takes five levels, since deeper directories are skipped. Every other recursion is structural or has
  a measure. Buffers, limits and attempts are those of the source: a hundred events per subscription, sixty-four events replayed
  per subscription, three starts of a tool server, the attempts of a task as its row says. Waiting loops consume the list of
  turns they are given, and \<open>wait_returns\<close> shows when such a list suffices.

  \<^bold>\<open>Parameters.\<close> Code outside the sources is an argument: the language model (\<open>processor\<close>, the brains of loop, failover and
  compactor), the parser of cron expressions, the YAML and UUID packages, the text of JSON errors, hashing, the file
  system and the child processes with their failures (\<open>fileEnv\<close>, \<open>wsEnv\<close>, \<open>sendEnv\<close>), the executor of shell commands, the order in which Go visits a map, and
  the moves of other goroutines (\<open>turn\<close>, \<open>schedule\<close>). What is assumed of them is written in each theorem.

  \<^bold>\<open>Not modelled.\<close> The terminal interface, the Telegram channel, diagnostics and the start-up of the command line (input and output
  only); tracing and metrics (wrappers of third-party packages); the WebAssembly host; the brain over its model library; the
  tools that fetch pages; the installer and watcher of skills; the text form of memories in a prompt. Integers are unbounded where the
  source counts rows or tokens; where a width matters (durations, random seeds, attempts) it is written out.
\<close>

end
